(* ===== verification/Plaidify_Prelude.thy ===== *)
theory Plaidify_Prelude imports Complex_Main "HOL-Library.AList" begin

text \<open>
  Prelude of the development: what the components share.

  \<^item> Python dictionaries keep insertion order, which the eviction code of
    \<^verbatim>\<open>src/session_store.py\<close> relies on. A dictionary is an association list whose keys are
    distinct; \<open>d[k] = v\<close> is \<^const>\<open>AList.update\<close> (in place, or at the end for a new key) and
    \<open>del d[k]\<close> is \<^const>\<open>AList.delete\<close>. Lookup is \<^const>\<open>map_of\<close>.
  \<^item> Values of type \<open>Any\<close> (JSON bodies, metadata, session fields) are of type \<open>json\<close>.
  \<^item> Times (\<open>time.time()\<close>, \<open>time.monotonic()\<close>) are real numbers: every read of a clock is an
    argument of the operation that makes it.
  \<^item> Strings are ASCII.
\<close>

section \<open>Shared types\<close>

type_synonym time = real

type_synonym ('k, 'v) dict = "('k \<times> 'v) list"

text \<open>What a call of an opaque asynchronous function ends with: a value, an exception of class
  \<^verbatim>\<open>Exception\<close>, or a cancellation (\<^verbatim>\<open>asyncio.CancelledError\<close>, which \<^verbatim>\<open>except Exception\<close> does
  not catch).\<close>

datatype ('e, 'a) outcome = Returned 'a | Raised 'e | Cancelled

datatype json =
    JNull
  | JBool bool
  | JInt int
  | JNum real
  | JStr string
  | JList "json list"
  | JObj "(string \<times> json) list"

text \<open>HTTP errors raised by the route handlers: status code and detail.\<close>

datatype http_error = HTTPException nat string

section \<open>Collections of facts\<close>

named_theorems dict_simps \<open>reading a dictionary after an update\<close>
named_theorems inv_intros \<open>operations that keep an invariant\<close>

section \<open>Truth of a value\<close>

fun truthy :: "json \<Rightarrow> bool" where
  "truthy JNull = False"
| "truthy (JBool b) = b"
| "truthy (JInt i) = (i \<noteq> 0)"
| "truthy (JNum r) = (r \<noteq> 0)"
| "truthy (JStr s) = (s \<noteq> '''')"
| "truthy (JList xs) = (xs \<noteq> [])"
| "truthy (JObj xs) = (xs \<noteq> [])"

fun truthy_opt :: "json option \<Rightarrow> bool" where
  "truthy_opt None = False"
| "truthy_opt (Some v) = truthy v"

fun jopt :: "string option \<Rightarrow> json" where
  "jopt None = JNull"
| "jopt (Some s) = JStr s"

text \<open>\<open>d.get(k)\<close>: \<open>None\<close> for a missing key, which \<open>json\<close> writes as \<open>JNull\<close>.\<close>

definition jget :: "(string, json) dict \<Rightarrow> string \<Rightarrow> json" where
  "jget d k = (case map_of d k of None \<Rightarrow> JNull | Some v \<Rightarrow> v)"

definition jtext :: "json \<Rightarrow> string" where
  "jtext v = (case v of JStr s \<Rightarrow> s | _ \<Rightarrow> [])"

section \<open>Dictionaries\<close>

definition dict_ok :: "('k, 'v) dict \<Rightarrow> bool" where
  "dict_ok d \<longleftrightarrow> distinct (map fst d)"

text \<open>\<open>d.update(e)\<close>: the entries of \<open>e\<close>, in order, written over \<open>d\<close>.\<close>

fun dict_update :: "('k, 'v) dict \<Rightarrow> ('k, 'v) dict \<Rightarrow> ('k, 'v) dict" where
  "dict_update d [] = d"
| "dict_update d ((k, v) # e) = dict_update (AList.update k v d) e"

text \<open>\<open>for k in ks: del d[k]\<close>.\<close>

fun dict_del_all :: "'k list \<Rightarrow> ('k, 'v) dict \<Rightarrow> ('k, 'v) dict" where
  "dict_del_all [] d = d"
| "dict_del_all (k # ks) d = dict_del_all ks (AList.delete k d)"

lemma dict_ok_Nil [simp, inv_intros]: "dict_ok []"
  by (simp add: dict_ok_def)

lemma dict_ok_update [simp, inv_intros]: "dict_ok d \<Longrightarrow> dict_ok (AList.update k v d)"
  by (simp add: dict_ok_def distinct_update)

lemma dict_ok_delete [simp, inv_intros]: "dict_ok d \<Longrightarrow> dict_ok (AList.delete k d)"
  by (simp add: dict_ok_def distinct_delete)

lemma dict_ok_filter [simp, inv_intros]: "dict_ok d \<Longrightarrow> dict_ok (filter P d)"
  by (simp add: dict_ok_def distinct_map_filter)

lemma dict_ok_dict_update [simp, inv_intros]: "dict_ok d \<Longrightarrow> dict_ok (dict_update d e)"
  by (induction d e rule: dict_update.induct) simp_all

lemma dict_ok_del_all [simp, inv_intros]: "dict_ok d \<Longrightarrow> dict_ok (dict_del_all ks d)"
  by (induction ks arbitrary: d) simp_all

lemma map_of_dset [simp, dict_simps]: "map_of (AList.update k v d) = (map_of d)(k \<mapsto> v)"
  by (rule update_conv')

lemma map_of_ddel [simp, dict_simps]: "map_of (AList.delete k d) = (map_of d)(k := None)"
  by (rule delete_conv')

lemma dict_del_all_filter: "dict_del_all ks d = filter (\<lambda>(k, _). k \<notin> set ks) d"
  by (induction ks arbitrary: d) (auto simp: AList.delete_eq intro!: filter_cong)

lemma map_of_del_all [dict_simps]:
  "map_of (dict_del_all ks d) k = (if k \<in> set ks then None else map_of d k)"
  by (induction ks arbitrary: d) auto

lemma map_of_dict_update [dict_simps]:
  "map_of (dict_update d e) k = (case map_of (rev e) k of None \<Rightarrow> map_of d k | Some v \<Rightarrow> Some v)"
  by (induction d e rule: dict_update.induct) (auto split: option.splits simp: map_add_Some_iff map_add_def)

lemma map_of_rev_dict_ok: "dict_ok d \<Longrightarrow> map_of (rev d) = map_of d"
  by (auto simp: dict_ok_def map_of_inject_set rev_map [symmetric])

lemma length_delete_mem:
  "dict_ok d \<Longrightarrow> k \<in> fst ` set d \<Longrightarrow> Suc (length (AList.delete k d)) = length d"
proof (induction d)
  case (Cons p d)
  show ?case
  proof (cases "fst p = k")
    case True
    with Cons.prems have "k \<notin> fst ` set d" by (auto simp: dict_ok_def)
    then have "AList.delete k d = d" by (rule AList.delete_id)
    with True show ?thesis by simp
  next
    case False
    with Cons show ?thesis by (auto simp: dict_ok_def)
  qed
qed simp

lemma length_update: "length (AList.update k v d) = (if k \<in> fst ` set d then length d else Suc (length d))"
  by (induction d) auto

lemma length_update_le: "length (AList.update k v d) \<le> Suc (length d)"
  by (simp add: length_update)

section \<open>Strings\<close>

definition is_space :: "char \<Rightarrow> bool" where
  "is_space c \<longleftrightarrow> (let n = (of_char c :: nat) in n = 32 \<or> (9 \<le> n \<and> n \<le> 13) \<or> (28 \<le> n \<and> n \<le> 31))"

definition lower_char :: "char \<Rightarrow> char" where
  "lower_char c = (let n = (of_char c :: nat) in if 65 \<le> n \<and> n \<le> 90 then char_of (n + 32) else c)"

definition py_lower :: "string \<Rightarrow> string" where
  "py_lower s = map lower_char s"

definition upper_char :: "char \<Rightarrow> char" where
  "upper_char c = (let n = (of_char c :: nat) in if 97 \<le> n \<and> n \<le> 122 then char_of (n - 32) else c)"

definition py_upper :: "string \<Rightarrow> string" where
  "py_upper s = map upper_char s"

definition rstrip_of :: "(char \<Rightarrow> bool) \<Rightarrow> string \<Rightarrow> string" where
  "rstrip_of P s = rev (dropWhile P (rev s))"

definition py_strip :: "string \<Rightarrow> string" where
  "py_strip s = rstrip_of is_space (dropWhile is_space s)"

definition rstrip_slash :: "string \<Rightarrow> string" where
  "rstrip_slash s = rstrip_of (\<lambda>c. c = CHR ''/'') s"

definition strip_slash :: "string \<Rightarrow> string" where
  "strip_slash s = rstrip_slash (dropWhile (\<lambda>c. c = CHR ''/'') s)"

fun starts_with :: "string \<Rightarrow> string \<Rightarrow> bool" where
  "starts_with [] _ = True"
| "starts_with (_ # _) [] = False"
| "starts_with (p # ps) (c # cs) = (p = c \<and> starts_with ps cs)"

text \<open>\<open>needle in text\<close>.\<close>

fun contains :: "string \<Rightarrow> string \<Rightarrow> bool" where
  "contains needle [] = starts_with needle []"
| "contains needle (c # cs) = (starts_with needle (c # cs) \<or> contains needle cs)"

lemma lower_char_idem [simp]: "lower_char (lower_char c) = lower_char c"
proof (cases "65 \<le> (of_char c :: nat) \<and> (of_char c :: nat) \<le> 90")
  case True
  then have "(of_char (char_of (of_char c + 32 :: nat)) :: nat) = of_char c + 32"
    by (simp add: of_char_of)
  with True show ?thesis by (simp add: lower_char_def Let_def)
next
  case False
  then have "lower_char c = c" by (auto simp: lower_char_def Let_def)
  then show ?thesis by simp
qed

lemma py_lower_idem [simp]: "py_lower (py_lower s) = py_lower s"
  by (simp add: py_lower_def)

lemma rstrip_of_idem [simp]: "rstrip_of P (rstrip_of P s) = rstrip_of P s"
  by (simp add: rstrip_of_def)

lemma rstrip_slash_idem [simp]: "rstrip_slash (rstrip_slash s) = rstrip_slash s"
  by (simp add: rstrip_slash_def)

section \<open>Lists\<close>

text \<open>\<open>sorted(set)\<close> on strings is a parameter of the proofs only through its set: Python sorts by
  code point, which is the lexicographic order of the character codes.\<close>

fun str_le :: "string \<Rightarrow> string \<Rightarrow> bool" where
  "str_le [] _ = True"
| "str_le (_ # _) [] = False"
| "str_le (a # as) (b # bs) =
     ((of_char a :: nat) < of_char b \<or> (a = b \<and> str_le as bs))"

fun insort_str :: "string \<Rightarrow> string list \<Rightarrow> string list" where
  "insort_str x [] = [x]"
| "insort_str x (y # ys) = (if str_le x y then x # y # ys else y # insort_str x ys)"

definition sort_str :: "string list \<Rightarrow> string list" where
  "sort_str xs = foldr insort_str xs []"

lemma set_insort_str [simp]: "set (insort_str x xs) = insert x (set xs)"
  by (induction xs) auto

lemma set_sort_str [simp]: "set (sort_str xs) = set xs"
  unfolding sort_str_def by (induction xs) auto

lemma length_insort_str [simp]: "length (insort_str x xs) = Suc (length xs)"
  by (induction xs) auto

lemma length_sort_str [simp]: "length (sort_str xs) = length xs"
  unfolding sort_str_def by (induction xs) auto

section \<open>Decimal numerals and joined fields\<close>

text \<open>\<open>str(n)\<close> for an integer.\<close>

fun show_nat :: "nat \<Rightarrow> string" where
  "show_nat n = (if n < 10 then [char_of (48 + n)] else show_nat (n div 10) @ [char_of (48 + n mod 10)])"

declare show_nat.simps [simp del]

definition show_int :: "int \<Rightarrow> string" where
  "show_int i = (if i < 0 then CHR ''-'' # show_nat (nat (- i)) else show_nat (nat i))"

definition read_nat :: "string \<Rightarrow> nat" where
  "read_nat s = foldl (\<lambda>n c. 10 * n + (of_char c - 48)) 0 s"

lemma read_show_nat [simp]: "read_nat (show_nat n) = n"
proof (induction n rule: show_nat.induct)
  case (1 n)
  show ?case
  proof (cases "n < 10")
    case True
    then show ?thesis by (subst show_nat.simps) (simp add: read_nat_def of_char_of)
  next
    case False
    with 1 have "read_nat (show_nat (n div 10)) = n div 10" by simp
    with False show ?thesis
      by (subst show_nat.simps) (simp add: read_nat_def of_char_of)
  qed
qed

lemma show_nat_digits: "set (show_nat n) \<subseteq> {c. 48 \<le> (of_char c :: nat) \<and> (of_char c :: nat) \<le> 57}"
proof (induction n rule: show_nat.induct)
  case (1 n)
  then show ?case
    by (subst show_nat.simps) (auto simp: of_char_of)
qed

lemma show_nat_inj [simp]: "show_nat m = show_nat n \<longleftrightarrow> m = n"
  by (metis read_show_nat)

lemma show_nat_not_Nil [simp]: "show_nat n \<noteq> []"
  by (subst show_nat.simps) simp

lemma show_int_inj [simp]: "show_int i = show_int j \<longleftrightarrow> i = j"
proof -
  have dash: "show_nat n \<noteq> CHR ''-'' # s" for n s
    using show_nat_digits [of n] by (auto dest: arg_cong [where f = set])
  show ?thesis
    by (auto simp: show_int_def dash dash [symmetric])
qed

lemma show_int_chars: "c \<in> set (show_int i) \<Longrightarrow> c = CHR ''-'' \<or> 48 \<le> (of_char c :: nat) \<and> (of_char c :: nat) \<le> 57"
  using show_nat_digits by (auto simp: show_int_def split: if_splits)

text \<open>\<open>sep.join(parts)\<close> for a one-character separator.\<close>

fun join :: "char \<Rightarrow> string list \<Rightarrow> string" where
  "join c [] = []"
| "join c [x] = x"
| "join c (x # y # xs) = x @ c # join c (y # xs)"

lemma append_sep_inj:
  "c \<notin> set x \<Longrightarrow> c \<notin> set y \<Longrightarrow> x @ c # xs = y @ c # ys \<longleftrightarrow> x = y \<and> xs = ys"
proof (induction x arbitrary: y)
  case Nil
  then show ?case by (cases y) auto
next
  case (Cons a x)
  then show ?case by (cases y) auto
qed

lemma join_inj:
  "length xs = length ys \<Longrightarrow> \<forall>x \<in> set xs \<union> set ys. c \<notin> set x \<Longrightarrow> join c xs = join c ys \<Longrightarrow> xs = ys"
proof (induction c xs arbitrary: ys rule: join.induct)
  case (2 c x)
  then obtain y where "ys = [y]" by (cases ys) auto
  with 2 show ?case by simp
next
  case (3 c x y xs)
  then obtain u v us where ys: "ys = u # v # us"
    by (metis length_Suc_conv)
  with 3 have "x = u" "join c (y # xs) = join c (v # us)"
    by (auto simp: append_sep_inj)
  moreover have "y # xs = v # us"
    using 3 ys calculation by (intro "3.IH") auto
  ultimately show ?case using ys by simp
qed simp

end
