(* ===== verification/Circuit_Breaker.thy ===== *)
theory Circuit_Breaker imports Plaidify_Prelude begin

text \<open>
  \<^verbatim>\<open>src/core/circuit_breaker.py\<close>: the asynchronous circuit breaker and the retry loop.

  The breaker is a record with the fields of \<^verbatim>\<open>CircuitBreaker\<close>. Its three critical sections
  (\<open>_before_call\<close>, \<open>_on_success\<close>, \<open>_on_failure\<close>) run under the breaker's lock, so any number of
  overlapping calls is a sequence of these sections in some order: \<open>cb_step\<close> and \<open>cb_run\<close> run such
  a sequence, with no assumption on which call a section belongs to. \<open>cb_call\<close> is one whole call.
  \<open>retry_with_backoff\<close> is the retry loop over the outcomes of the successive attempts.
\<close>

section \<open>The breaker\<close>

datatype circuit_state = CLOSED | OPEN | HALF_OPEN

record circuit_breaker =
  cb_name :: string
  failure_threshold :: int
  reset_timeout :: time
  cb_state :: circuit_state
  cb_failures :: int
  opened_at :: time

datatype cb_error = CircuitBreakerOpenError string time

definition new_breaker :: "string \<Rightarrow> int \<Rightarrow> time \<Rightarrow> circuit_breaker" where
  "new_breaker name threshold timeout =
     \<lparr>cb_name = name, failure_threshold = max 1 threshold, reset_timeout = max 0 timeout,
      cb_state = CLOSED, cb_failures = 0, opened_at = 0\<rparr>"

definition cb_reset :: "circuit_breaker \<Rightarrow> circuit_breaker" where
  "cb_reset b = b\<lparr>cb_state := CLOSED, cb_failures := 0, opened_at := 0\<rparr>"

definition before_call :: "time \<Rightarrow> circuit_breaker \<Rightarrow> cb_error + circuit_breaker" where
  "before_call now b =
     (if cb_state b = OPEN then
        (let elapsed = now - opened_at b
         in if elapsed \<ge> reset_timeout b then Inr (b\<lparr>cb_state := HALF_OPEN\<rparr>)
            else Inl (CircuitBreakerOpenError (cb_name b) (reset_timeout b - elapsed)))
      else Inr b)"

definition on_success :: "circuit_breaker \<Rightarrow> circuit_breaker" where
  "on_success b = b\<lparr>cb_failures := 0, cb_state := CLOSED\<rparr>"

definition on_failure :: "time \<Rightarrow> circuit_breaker \<Rightarrow> circuit_breaker" where
  "on_failure now b =
     (let b = b\<lparr>cb_failures := cb_failures b + 1\<rparr>
      in if cb_state b = HALF_OPEN \<or> cb_failures b \<ge> failure_threshold b
         then b\<lparr>cb_state := OPEN, opened_at := now\<rparr> else b)"

text \<open>
  One call. \<open>fn\<close> acts on a world (whatever the wrapped coroutine touches); \<open>t0\<close> and \<open>t1\<close> are the
  clock before the call and at its failure. A cancellation passes through \<^verbatim>\<open>except Exception\<close>, so
  the breaker records nothing.
\<close>

definition cb_call ::
  "time \<Rightarrow> time \<Rightarrow> ('w \<Rightarrow> ('e, 'a) outcome \<times> 'w) \<Rightarrow> circuit_breaker \<Rightarrow> 'w \<Rightarrow>
   (cb_error + ('e, 'a) outcome) \<times> circuit_breaker \<times> 'w" where
  "cb_call t0 t1 fn b w =
     (case before_call t0 b of
        Inl err \<Rightarrow> (Inl err, b, w)
      | Inr b' \<Rightarrow>
          (case fn w of
             (Returned r, w') \<Rightarrow> (Inr (Returned r), on_success b', w')
           | (Raised e, w') \<Rightarrow> (Inr (Raised e), on_failure t1 b', w')
           | (Cancelled, w') \<Rightarrow> (Inr Cancelled, b', w')))"

section \<open>Overlapping calls\<close>

datatype cb_event = Admit time | Succeeded | Failed time | ResetEv

text \<open>A rejected admission leaves the breaker as it is.\<close>

fun cb_step :: "circuit_breaker \<Rightarrow> cb_event \<Rightarrow> circuit_breaker" where
  "cb_step b (Admit now) = (case before_call now b of Inl _ \<Rightarrow> b | Inr b' \<Rightarrow> b')"
| "cb_step b Succeeded = on_success b"
| "cb_step b (Failed now) = on_failure now b"
| "cb_step b ResetEv = cb_reset b"

definition cb_run :: "circuit_breaker \<Rightarrow> cb_event list \<Rightarrow> circuit_breaker" where
  "cb_run b es = foldl cb_step b es"

text \<open>The specification's state: the failures recorded since the last success or reset.\<close>

fun trailing_failures :: "int \<Rightarrow> cb_event list \<Rightarrow> int" where
  "trailing_failures n [] = n"
| "trailing_failures n (Admit t # es) = trailing_failures n es"
| "trailing_failures n (Succeeded # es) = trailing_failures 0 es"
| "trailing_failures n (Failed t # es) = trailing_failures (n + 1) es"
| "trailing_failures n (ResetEv # es) = trailing_failures 0 es"

definition cb_inv :: "circuit_breaker \<Rightarrow> bool" where
  "cb_inv b \<longleftrightarrow> 1 \<le> failure_threshold b \<and> 0 \<le> reset_timeout b \<and> 0 \<le> cb_failures b \<and>
     (cb_state b = CLOSED \<longleftrightarrow> cb_failures b < failure_threshold b)"

lemma cb_inv_new [inv_intros]: "cb_inv (new_breaker name threshold timeout)"
  by (simp add: cb_inv_def new_breaker_def)

lemma cb_inv_on_success [inv_intros]: "cb_inv b \<Longrightarrow> cb_inv (on_success b)"
  by (simp add: cb_inv_def on_success_def)

lemma cb_inv_on_failure [inv_intros]: "cb_inv b \<Longrightarrow> cb_inv (on_failure now b)"
  by (cases "cb_state b") (auto simp: cb_inv_def on_failure_def Let_def)

lemma cb_inv_reset [inv_intros]: "cb_inv b \<Longrightarrow> cb_inv (cb_reset b)"
  by (simp add: cb_inv_def cb_reset_def)

lemma cb_inv_before_call [inv_intros]: "cb_inv b \<Longrightarrow> before_call now b = Inr b' \<Longrightarrow> cb_inv b'"
  by (auto simp: cb_inv_def before_call_def Let_def split: if_splits)

lemma cb_inv_step [inv_intros]: "cb_inv b \<Longrightarrow> cb_inv (cb_step b e)"
  by (cases e) (auto intro: inv_intros split: sum.splits)

lemma cb_step_threshold [simp]: "failure_threshold (cb_step b e) = failure_threshold b"
  by (cases e) (auto simp: before_call_def on_success_def on_failure_def cb_reset_def Let_def split: sum.splits)

lemma cb_run_inv: "cb_inv b \<Longrightarrow> cb_inv (cb_run b es)"
  by (induction es arbitrary: b) (auto simp: cb_run_def intro: inv_intros)

lemma cb_run_threshold: "failure_threshold (cb_run b es) = failure_threshold b"
  by (induction es arbitrary: b) (auto simp: cb_run_def)

lemma cb_run_failures: "cb_failures (cb_run b es) = trailing_failures (cb_failures b) es"
proof (induction es arbitrary: b)
  case (Cons e es)
  have "cb_failures (cb_run b (e # es)) = trailing_failures (cb_failures (cb_step b e)) es"
    using Cons.IH by (simp add: cb_run_def)
  also have "\<dots> = trailing_failures (cb_failures b) (e # es)"
    by (cases e)
      (auto simp: before_call_def on_success_def on_failure_def cb_reset_def Let_def split: sum.splits)
  finally show ?case .
qed (simp add: cb_run_def)

text \<open>C20. However calls overlap, a breaker made by its constructor is closed exactly when fewer
  failures than the threshold (at least one) were recorded since the last success or reset: the
  three-state machine refines a counter of trailing failures.\<close>

theorem breaker_closed_iff_few_failures:
  "cb_state (cb_run (new_breaker name threshold timeout) es) = CLOSED \<longleftrightarrow>
   trailing_failures 0 es < max 1 threshold"
proof -
  let ?b = "cb_run (new_breaker name threshold timeout) es"
  have "cb_inv ?b" by (intro cb_run_inv inv_intros)
  moreover have "cb_failures ?b = trailing_failures 0 es"
    by (simp add: cb_run_failures new_breaker_def)
  moreover have "failure_threshold ?b = max 1 threshold"
    by (simp add: cb_run_threshold new_breaker_def)
  ultimately show ?thesis by (simp add: cb_inv_def)
qed

text \<open>An open breaker fails fast: within \<open>reset_timeout\<close> of its opening a call is rejected with
  the remaining wait, and neither the breaker nor the wrapped dependency is touched.\<close>

theorem open_breaker_fails_fast:
  assumes "cb_state b = OPEN" and "t0 - opened_at b < reset_timeout b"
  shows "cb_call t0 t1 fn b w =
    (Inl (CircuitBreakerOpenError (cb_name b) (reset_timeout b - (t0 - opened_at b))), b, w)"
  using assms by (simp add: cb_call_def before_call_def Let_def)

theorem open_breaker_fails_fast_witness:
  "cb_call 12 13 (\<lambda>w::nat. (Returned w :: (nat, nat) outcome, w + 1))
     (cb_run (new_breaker ''browser'' 2 30) [Failed 5, Failed 10]) 0 =
   (Inl (CircuitBreakerOpenError ''browser'' 28),
    cb_run (new_breaker ''browser'' 2 30) [Failed 5, Failed 10], 0)"
proof -
  let ?b = "cb_run (new_breaker ''browser'' 2 30) [Failed 5, Failed 10]"
  have h: "cb_state ?b = OPEN" "12 - opened_at ?b < reset_timeout ?b"
    by (simp_all add: cb_run_def new_breaker_def on_failure_def Let_def)
  show ?thesis
    by (subst open_breaker_fails_fast [OF h])
      (simp add: cb_run_def new_breaker_def on_failure_def Let_def)
qed

text \<open>The trial after the timeout: the call is let through, its success closes the breaker with
  a clean count, and its failure opens it again from that moment.\<close>

theorem half_open_trial_decides:
  assumes "cb_state b = OPEN" and "t0 - opened_at b \<ge> reset_timeout b"
  shows "cb_call t0 t1 fn b w =
    (case fn w of
       (Returned r, w') \<Rightarrow> (Inr (Returned r), b\<lparr>cb_state := CLOSED, cb_failures := 0\<rparr>, w')
     | (Raised e, w') \<Rightarrow>
         (Inr (Raised e), b\<lparr>cb_state := OPEN, cb_failures := cb_failures b + 1, opened_at := t1\<rparr>, w')
     | (Cancelled, w') \<Rightarrow> (Inr Cancelled, b\<lparr>cb_state := HALF_OPEN\<rparr>, w'))"
  using assms
  by (auto simp: cb_call_def before_call_def on_success_def on_failure_def Let_def
      split: prod.splits outcome.splits)

theorem half_open_trial_decides_witness:
  "cb_call 50 51 (\<lambda>w::nat. (Raised w :: (nat, nat) outcome, w + 1))
     (cb_run (new_breaker ''llm'' 1 30) [Failed 5]) 0 =
   (Inr (Raised 0), (cb_run (new_breaker ''llm'' 1 30) [Failed 5])\<lparr>cb_failures := 2, opened_at := 51\<rparr>, 1)"
proof -
  let ?b = "cb_run (new_breaker ''llm'' 1 30) [Failed 5]"
  have h: "cb_state ?b = OPEN" "50 - opened_at ?b \<ge> reset_timeout ?b"
    by (simp_all add: cb_run_def new_breaker_def on_failure_def Let_def)
  show ?thesis
    by (subst half_open_trial_decides [OF h])
      (simp add: cb_run_def new_breaker_def on_failure_def Let_def)
qed

text \<open>The half-open state admits every call, not a single trial: any number of admissions after the
  timeout go through until one of the admitted calls ends.\<close>

lemma half_open_admits_every_call:
  "cb_state b = HALF_OPEN \<Longrightarrow> before_call now b = Inr b"
  by (simp add: before_call_def)

section \<open>Retry with exponential backoff\<close>

text \<open>
  The parameters are those of \<open>retry_with_backoff\<close>: \<open>retry_on\<close> says whether an exception is of one of
  the listed classes, \<open>delay_for\<close> is the optional callback, \<open>rnd i\<close> the number \<^verbatim>\<open>random.random()\<close>
  returns for the i-th delay.
\<close>

record 'e retry_params =
  retries :: int
  base_delay :: time
  max_delay :: time
  jitter :: bool
  retry_on :: "'e \<Rightarrow> bool"
  delay_for :: "('e \<Rightarrow> time option) option"

definition backoff_delay :: "'e retry_params \<Rightarrow> real \<Rightarrow> nat \<Rightarrow> 'e \<Rightarrow> time" where
  "backoff_delay p r attempt e =
     (let explicit = (case delay_for p of None \<Rightarrow> None | Some f \<Rightarrow> f e);
          delay = (case explicit of None \<Rightarrow> base_delay p * 2 ^ attempt | Some d \<Rightarrow> d);
          delay = min (max_delay p) (max 0 delay)
      in if jitter p then delay * (0.5 + r / 2) else delay)"

text \<open>\<open>retry_loop p rnd fn attempt\<close> runs the loop from the attempt with that number; \<open>fn i\<close> is how
  the i-th call of the function ends. The result is the final outcome and the delays slept.\<close>

function retry_loop ::
  "'e retry_params \<Rightarrow> (nat \<Rightarrow> real) \<Rightarrow> (nat \<Rightarrow> ('e, 'a) outcome) \<Rightarrow> nat \<Rightarrow> ('e, 'a) outcome \<times> time list" where
  "retry_loop p rnd fn attempt =
     (case fn attempt of
        Returned r \<Rightarrow> (Returned r, [])
      | Cancelled \<Rightarrow> (Cancelled, [])
      | Raised e \<Rightarrow>
          if \<not> retry_on p e \<or> int attempt \<ge> retries p then (Raised e, [])
          else (let (res, ds) = retry_loop p rnd fn (Suc attempt)
                in (res, backoff_delay p (rnd attempt) attempt e # ds)))"
  by pat_completeness auto
termination
  by (relation "measure (\<lambda>(p, rnd, fn, attempt). nat (retries p) - attempt)") auto

declare retry_loop.simps [simp del]

definition retry_with_backoff ::
  "'e retry_params \<Rightarrow> (nat \<Rightarrow> real) \<Rightarrow> (nat \<Rightarrow> ('e, 'a) outcome) \<Rightarrow> ('e, 'a) outcome \<times> time list" where
  "retry_with_backoff p rnd fn = retry_loop p rnd fn 0"

lemma backoff_delay_bounds:
  assumes "0 \<le> r" "r < 1" "0 \<le> max_delay p"
  shows "0 \<le> backoff_delay p r n e \<and> backoff_delay p r n e \<le> max_delay p"
proof -
  define d where "d = min (max_delay p) (max 0
    (case (case delay_for p of None \<Rightarrow> None | Some f \<Rightarrow> f e) of None \<Rightarrow> base_delay p * 2 ^ n | Some d \<Rightarrow> d))"
  have d: "0 \<le> d" "d \<le> max_delay p" using assms by (auto simp: d_def)
  have "0 \<le> d * (0.5 + r / 2)" using d assms by simp
  moreover have "d * (0.5 + r / 2) \<le> d * 1" using d assms by (intro mult_left_mono) auto
  ultimately show ?thesis
    using d unfolding backoff_delay_def Let_def d_def [symmetric] by auto
qed

lemma retry_loop_delays:
  "(\<And>i. 0 \<le> rnd i \<and> rnd i < 1) \<Longrightarrow> 0 \<le> max_delay p \<Longrightarrow>
   \<forall>d \<in> set (snd (retry_loop p rnd fn n)). 0 \<le> d \<and> d \<le> max_delay p"
proof (induction p rnd fn n rule: retry_loop.induct)
  case (1 p rnd fn n)
  have "\<And>e. 0 \<le> backoff_delay p (rnd n) n e \<and> backoff_delay p (rnd n) n e \<le> max_delay p"
    using 1 by (intro backoff_delay_bounds) auto
  with 1 show ?case
    by (subst retry_loop.simps) (auto split: outcome.splits prod.splits)
qed

definition retryable :: "'e retry_params \<Rightarrow> ('e, 'a) outcome \<Rightarrow> bool" where
  "retryable p r = (case r of Raised e \<Rightarrow> retry_on p e | _ \<Rightarrow> False)"

lemma retry_loop_final:
  "let (res, ds) = retry_loop p rnd fn n; k = n + length ds
   in res = fn k \<and> (\<forall>i. n \<le> i \<and> i < k \<longrightarrow> retryable p (fn i)) \<and>
      int k \<le> max (int n) (retries p) \<and> (\<not> retryable p (fn k) \<or> int k \<ge> retries p)"
proof (induction p rnd fn n rule: retry_loop.induct)
  case (1 p rnd fn n)
  show ?case
  proof (cases "\<exists>e. fn n = Raised e \<and> retry_on p e \<and> int n < retries p")
    case True
    then obtain e where e: "fn n = Raised e" "retry_on p e" "int n < retries p" by blast
    obtain res ds where r: "retry_loop p rnd fn (Suc n) = (res, ds)" by fastforce
    have unf: "retry_loop p rnd fn n = (res, backoff_delay p (rnd n) n e # ds)"
      using e r by (subst retry_loop.simps) simp
    from 1 e have ih: "let (res, ds) = retry_loop p rnd fn (Suc n); k = Suc n + length ds
      in res = fn k \<and> (\<forall>i. Suc n \<le> i \<and> i < k \<longrightarrow> retryable p (fn i)) \<and>
        int k \<le> max (int (Suc n)) (retries p) \<and> (\<not> retryable p (fn k) \<or> int k \<ge> retries p)"
      by auto
    have "retryable p (fn n)" using e by (simp add: retryable_def)
    moreover have "(\<forall>i. n \<le> i \<and> i < Suc (n + length ds) \<longrightarrow> retryable p (fn i))"
      if "\<forall>i. Suc n \<le> i \<and> i < Suc (n + length ds) \<longrightarrow> retryable p (fn i)"
      using that calculation by (metis Suc_leI order_le_imp_less_or_eq)
    ultimately show ?thesis using ih e unfolding unf r by (auto simp: Let_def)
  next
    case False
    then have "retry_loop p rnd fn n = (fn n, [])"
      by (subst retry_loop.simps) (auto split: outcome.splits)
    with False show ?thesis by (auto simp: retryable_def Let_def split: outcome.splits)
  qed
qed

text \<open>The retry loop returns after at most \<open>retries\<close> extra attempts, whatever the function does:
  its result is the outcome of the attempt numbered by the delays slept, every earlier attempt ended
  in a retryable exception, and it stops only at an outcome that is not retryable or when the
  attempts are used up.\<close>

theorem retry_returns_first_final_outcome:
  "let (res, ds) = retry_with_backoff p rnd fn; k = length ds
   in res = fn k \<and> (\<forall>i<k. retryable p (fn i)) \<and> int k \<le> max 0 (retries p) \<and>
      (\<not> retryable p (fn k) \<or> int k \<ge> retries p)"
  using retry_loop_final [of p rnd fn 0] by (auto simp: retry_with_backoff_def Let_def split: prod.splits)

theorem retry_returns_first_final_outcome_witness:
  "let p = \<lparr>retries = 2, base_delay = 0.5, max_delay = 8, jitter = False, retry_on = (\<lambda>e. e = (7::nat)),
            delay_for = None\<rparr>;
       fn = (\<lambda>i. if i = 0 then Raised 7 else (Returned i :: (nat, nat) outcome))
   in retry_with_backoff p (\<lambda>_. 0) fn = (Returned 1, [0.5]) \<and> retryable p (fn 0)"
proof -
  let ?p = "\<lparr>retries = 2, base_delay = 0.5 :: time, max_delay = 8, jitter = False,
    retry_on = (\<lambda>e. e = (7::nat)), delay_for = None\<rparr>"
  let ?fn = "\<lambda>i. if i = 0 then Raised 7 else (Returned i :: (nat, nat) outcome)"
  have run: "retry_with_backoff ?p (\<lambda>_. 0) ?fn = (Returned 1, [0.5])"
    by (simp add: retry_with_backoff_def retry_loop.simps backoff_delay_def)
  have "retryable ?p (?fn 0)"
    using retry_returns_first_final_outcome [of ?p "\<lambda>_. 0" ?fn] unfolding run by simp
  with run show ?thesis unfolding Let_def by blast
qed

text \<open>Every delay slept lies between zero and \<open>max_delay\<close>, jittered or given by the provider.\<close>

theorem retry_delays_bounded:
  assumes "\<And>i. 0 \<le> rnd i \<and> rnd i < 1" and "0 \<le> max_delay p"
    and "d \<in> set (snd (retry_with_backoff p rnd fn))"
  shows "0 \<le> d \<and> d \<le> max_delay p"
  using retry_loop_delays [of rnd p fn 0] assms by (auto simp: retry_with_backoff_def)

theorem retry_delays_bounded_witness:
  "let p = \<lparr>retries = 1, base_delay = 100, max_delay = 8, jitter = True, retry_on = (\<lambda>e. e = (7::nat)),
            delay_for = None\<rparr>
   in 6 \<in> set (snd (retry_with_backoff p (\<lambda>_. 1/2) (\<lambda>i. Raised 7 :: (nat, nat) outcome))) \<and>
      (6::time) \<le> max_delay p"
proof -
  let ?p = "\<lparr>retries = 1, base_delay = 100 :: time, max_delay = 8, jitter = True,
    retry_on = (\<lambda>e. e = (7::nat)), delay_for = None\<rparr>"
  let ?fn = "\<lambda>i::nat. Raised 7 :: (nat, nat) outcome"
  have m: "6 \<in> set (snd (retry_with_backoff ?p (\<lambda>_. 1/2) ?fn))"
    by (simp add: retry_with_backoff_def retry_loop.simps backoff_delay_def)
  have "(6::time) \<le> max_delay ?p"
    using retry_delays_bounded [where rnd = "\<lambda>_. 1/2" and p = ?p and fn = ?fn and d = 6] m by simp
  with m show ?thesis unfolding Let_def by blast
qed

end
