(* ===== verification/Read_Only_Policy.thy ===== *)
theory Read_Only_Policy imports Plaidify_Prelude begin

text \<open>
  \<^verbatim>\<open>src/core/read_only_policy.py\<close>: the policy that keeps a browser session read-only after
  authentication. The regular expressions it searches for are kept as patterns with their own matcher,
  and proved equivalent to a search for phrases in the words of the click target.
\<close>

section \<open>The state of the policy\<close>

datatype execution_phase = PhaseAuth | PhaseMfa | PhaseRead | PhaseCleanup

fun phase_value :: "execution_phase \<Rightarrow> string" where
  "phase_value PhaseAuth = ''auth''"
| "phase_value PhaseMfa = ''mfa''"
| "phase_value PhaseRead = ''read''"
| "phase_value PhaseCleanup = ''cleanup''"

datatype step_action = GOTO | FILL | CLICK | WAIT | SCREENSHOT | EXTRACT | CONDITIONAL | SCROLL | SELECT | IFRAME
  | WAIT_FOR_NAVIGATION | EXECUTE_JS

fun action_value :: "step_action \<Rightarrow> string" where
  "action_value GOTO = ''goto''"
| "action_value FILL = ''fill''"
| "action_value CLICK = ''click''"
| "action_value WAIT = ''wait''"
| "action_value SCREENSHOT = ''screenshot''"
| "action_value EXTRACT = ''extract''"
| "action_value CONDITIONAL = ''conditional''"
| "action_value SCROLL = ''scroll''"
| "action_value SELECT = ''select''"
| "action_value IFRAME = ''iframe''"
| "action_value WAIT_FOR_NAVIGATION = ''wait_for_navigation''"
| "action_value EXECUTE_JS = ''execute_js''"

record blocked_action =
  ba_phase :: execution_phase
  ba_action :: string
  ba_reason :: string
  ba_target :: "string option"

record read_only_policy =
  rp_enabled :: bool
  rp_phase :: execution_phase
  rp_blocked :: "blocked_action list"

definition new_policy :: "bool \<Rightarrow> read_only_policy" where
  "new_policy enabled = \<lparr>rp_enabled = enabled, rp_phase = PhaseAuth, rp_blocked = []\<rparr>"

definition set_phase :: "execution_phase \<Rightarrow> read_only_policy \<Rightarrow> read_only_policy" where
  "set_phase phase p = p\<lparr>rp_phase := phase\<rparr>"

definition record_blocked :: "string \<Rightarrow> string \<Rightarrow> string option \<Rightarrow> read_only_policy \<Rightarrow> read_only_policy" where
  "record_blocked action reason target p =
     p\<lparr>rp_blocked := rp_blocked p @ [\<lparr>ba_phase = rp_phase p, ba_action = action, ba_reason = reason, ba_target = target\<rparr>]\<rparr>"

definition blocked_json :: "blocked_action \<Rightarrow> json" where
  "blocked_json b = JObj [(''phase'', JStr (phase_value (ba_phase b))), (''action'', JStr (ba_action b)),
     (''reason'', JStr (ba_reason b)), (''target'', jopt (ba_target b))]"

definition policy_metadata :: "read_only_policy \<Rightarrow> json" where
  "policy_metadata p = JObj [(''enabled'', JBool (rp_enabled p)), (''final_phase'', JStr (phase_value (rp_phase p))),
     (''blocked_action_count'', JInt (int (length (rp_blocked p)))),
     (''blocked_actions'', JList (map blocked_json (rp_blocked p)))]"

section \<open>Steps and requests\<close>

definition evaluate_step :: "step_action \<Rightarrow> read_only_policy \<Rightarrow> string option" where
  "evaluate_step action p =
     (if \<not> rp_enabled p then None
      else if rp_phase p = PhaseRead \<or> rp_phase p = PhaseCleanup then
        (if action = FILL \<or> action = SELECT
         then Some (action_value action @ '' steps are blocked after authentication in strict read-only mode'')
         else if action = EXECUTE_JS
         then Some ''execute_js steps are blocked after authentication in strict read-only mode''
         else None)
      else None)"

text \<open>What the policy reads of a request. \<open>rq_navigation\<close> is \<open>None\<close> when the attribute is missing, is not
  callable or raises.\<close>

record request =
  rq_method :: string
  rq_navigation :: "bool option"
  rq_content_type :: string

definition FORM_POST_CONTENT_TYPES :: "string list" where
  "FORM_POST_CONTENT_TYPES = [''application/x-www-form-urlencoded'', ''multipart/form-data'', ''text/plain'']"

definition evaluate_request :: "request \<Rightarrow> read_only_policy \<Rightarrow> string option" where
  "evaluate_request r p =
     (if \<not> rp_enabled p \<or> rp_phase p \<noteq> PhaseRead then None
      else let m = py_upper (rq_method r)
        in if m \<in> {''PUT'', ''PATCH'', ''DELETE''}
           then Some (m @ '' requests are blocked after authentication in strict read-only mode'')
           else if m \<noteq> ''POST'' then None
           else if rq_navigation r = Some True
           then Some ''navigation POST requests are blocked after authentication in strict read-only mode''
           else if list_ex (\<lambda>prefix. starts_with prefix (py_lower (rq_content_type r))) FORM_POST_CONTENT_TYPES
           then Some ''form submissions are blocked after authentication in strict read-only mode''
           else None)"

section \<open>Clicks\<close>

text \<open>The elements the patterns are made of: a word boundary, white space, a literal word, a group of words and
  a word whose last letter is optional. \<open>rx_text\<close> is the source text of a pattern.\<close>

datatype rx = WordB | Spaces | Word string | OneOf "string list" | OptLast string char

fun alts :: "rx \<Rightarrow> string list" where
  "alts (Word w) = [w]"
| "alts (OneOf ws) = ws"
| "alts (OptLast w c) = [w @ [c], w]"
| "alts _ = []"

fun rx_text :: "rx \<Rightarrow> string" where
  "rx_text WordB = [CHR 0x5C, CHR ''b'']"
| "rx_text Spaces = [CHR 0x5C, CHR ''s'', CHR ''+'']"
| "rx_text (Word w) = w"
| "rx_text (OneOf ws) = ''('' @ join (CHR ''|'') ws @ '')''"
| "rx_text (OptLast w c) = w @ [c, CHR ''?'']"

definition is_alnum :: "char \<Rightarrow> bool" where
  "is_alnum c = (let n = (of_char c :: nat) in (97 \<le> n \<and> n \<le> 122) \<or> (48 \<le> n \<and> n \<le> 57))"

definition is_word :: "char \<Rightarrow> bool" where
  "is_word c = (let n = (of_char c :: nat) in (97 \<le> n \<and> n \<le> 122) \<or> (65 \<le> n \<and> n \<le> 90) \<or> (48 \<le> n \<and> n \<le> 57) \<or> n = 95)"

text \<open>A state of the matcher: the character before the position, and the text after it.\<close>

type_synonym rx_state = "char option \<times> string"

definition word_opt :: "char option \<Rightarrow> bool" where
  "word_opt c = (case c of None \<Rightarrow> False | Some c \<Rightarrow> is_word c)"

definition next_char :: "string \<Rightarrow> char option" where
  "next_char s = (case s of [] \<Rightarrow> None | c # _ \<Rightarrow> Some c)"

fun lit_steps :: "string \<Rightarrow> rx_state \<Rightarrow> rx_state list" where
  "lit_steps [] st = [st]"
| "lit_steps (c # cs) (p, []) = []"
| "lit_steps (c # cs) (p, d # ds) = (if c = d then lit_steps cs (Some d, ds) else [])"

fun space_steps :: "string \<Rightarrow> rx_state list" where
  "space_steps [] = []"
| "space_steps (d # ds) = (if is_space d then (Some d, ds) # space_steps ds else [])"

fun rx_steps :: "rx \<Rightarrow> rx_state \<Rightarrow> rx_state list" where
  "rx_steps WordB (p, s) = (if word_opt p \<noteq> word_opt (next_char s) then [(p, s)] else [])"
| "rx_steps Spaces (p, s) = space_steps s"
| "rx_steps r st = concat (map (\<lambda>w. lit_steps w st) (alts r))"

fun rx_match :: "rx list \<Rightarrow> rx_state \<Rightarrow> bool" where
  "rx_match [] st = True"
| "rx_match (r # rs) st = list_ex (rx_match rs) (rx_steps r st)"

fun positions :: "char option \<Rightarrow> string \<Rightarrow> rx_state list" where
  "positions p [] = [(p, [])]"
| "positions p (c # cs) = (p, c # cs) # positions (Some c) cs"

text \<open>\<open>pattern.search(text)\<close>.\<close>

definition rx_search :: "rx list \<Rightarrow> string \<Rightarrow> bool" where
  "rx_search pat s = list_ex (rx_match pat) (positions None s)"

text \<open>The words of a phrase with white space between them and a boundary at each end.\<close>

fun spaced :: "rx list \<Rightarrow> rx list" where
  "spaced [] = [WordB]"
| "spaced [r] = [r, WordB]"
| "spaced (r # r' # rs) = r # Spaces # spaced (r' # rs)"

definition phrase :: "rx list \<Rightarrow> rx list" where
  "phrase rs = WordB # spaced rs"

definition RISKY_PHRASES :: "rx list list" where
  "RISKY_PHRASES = [
     [Word ''pay'', Word ''now''],
     [OneOf [''make'', ''submit'', ''schedule''], Word ''payment''],
     [Word ''transfer''],
     [Word ''send'', Word ''money''],
     [Word ''withdraw''],
     [Word ''deposit''],
     [Word ''delete''],
     [Word ''remove''],
     [Word ''close'', Word ''account''],
     [Word ''replace'', Word ''card''],
     [Word ''upload''],
     [Word ''save'', OptLast ''change'' (CHR ''s'')],
     [Word ''update'', Word ''profile''],
     [Word ''confirm'', OneOf [''payment'', ''transfer'']],
     [Word ''approve'']]"

definition RISKY_CLICK_PATTERNS :: "rx list list" where
  "RISKY_CLICK_PATTERNS = map phrase RISKY_PHRASES"

text \<open>\<open>re.sub(r"[...]+", " ", s)\<close>: every maximal run of characters satisfying \<open>P\<close> becomes one space.\<close>

function sub_runs :: "(char \<Rightarrow> bool) \<Rightarrow> string \<Rightarrow> string" where
  "sub_runs P [] = []"
| "sub_runs P (c # cs) = (if P c then CHR '' '' # sub_runs P (dropWhile P cs) else c # sub_runs P cs)"
  by pat_completeness auto
termination
  by (relation "measure (\<lambda>(P, s). length s)") (auto simp: less_Suc_eq_le length_dropWhile_le)

definition normalize_descriptor :: "string \<Rightarrow> string" where
  "normalize_descriptor value =
     py_strip (sub_runs is_space (sub_runs (\<lambda>c. \<not> is_alnum c) (py_lower value)))"

text \<open>The descriptor of a click target: the selector and the truthy values of its metadata.\<close>

definition descriptor_parts :: "(json \<Rightarrow> string) \<Rightarrow> string \<Rightarrow> (string, json) dict \<Rightarrow> string list" where
  "descriptor_parts to_str selector metadata = selector # map to_str (filter truthy (map snd metadata))"

definition evaluate_click :: "(json \<Rightarrow> string) \<Rightarrow> string \<Rightarrow> (string, json) dict \<Rightarrow> read_only_policy \<Rightarrow> string option" where
  "evaluate_click to_str selector metadata p =
     (if \<not> rp_enabled p \<or> rp_phase p \<noteq> PhaseRead then None
      else let descriptor = normalize_descriptor (join (CHR '' '') (descriptor_parts to_str selector metadata))
        in if descriptor = '''' then None
           else case find (\<lambda>pat. rx_search pat descriptor) RISKY_CLICK_PATTERNS of
                  None \<Rightarrow> None
                | Some pat \<Rightarrow> Some (''click target matched a risky action pattern after authentication: ''
                    @ concat (map rx_text pat)))"

section \<open>The words of a click target\<close>

text \<open>The maximal runs of letters and digits of a text, and the claim that normalising a text is joining them.\<close>

function runs :: "(char \<Rightarrow> bool) \<Rightarrow> string \<Rightarrow> string list" where
  "runs P [] = []"
| "runs P (c # cs) = (if P c then (c # takeWhile P cs) # runs P (dropWhile P cs) else runs P (dropWhile (\<lambda>c. \<not> P c) cs))"
  by pat_completeness auto
termination
  by (relation "measure (\<lambda>(P, s). length s)") (auto simp: less_Suc_eq_le length_dropWhile_le)

definition descriptor_words :: "string \<Rightarrow> string list" where
  "descriptor_words value = runs is_alnum (py_lower value)"

definition good_word :: "string \<Rightarrow> bool" where
  "good_word w \<longleftrightarrow> w \<noteq> [] \<and> (\<forall>c \<in> set w. is_alnum c)"

lemma alnum_not_space: "is_alnum c \<Longrightarrow> \<not> is_space c"
  by (auto simp: is_alnum_def is_space_def Let_def)

lemma alnum_word: "is_alnum c \<Longrightarrow> is_word c"
  by (auto simp: is_alnum_def is_word_def Let_def)

lemma space_facts [simp]: "is_space (CHR '' '')" "\<not> is_alnum (CHR '' '')" "\<not> is_word (CHR '' '')"
  by (simp_all add: is_space_def is_alnum_def is_word_def)

lemma runs_good: "w \<in> set (runs is_alnum s) \<Longrightarrow> good_word w"
proof (induction is_alnum s rule: runs.induct)
  case (2 c cs)
  show ?case
  proof (cases "is_alnum c")
    case True
    then have "good_word (c # takeWhile is_alnum cs)" by (auto simp: good_word_def dest: set_takeWhileD)
    with 2(1) [OF True] 2(3) True show ?thesis by auto
  next
    case False
    with 2(2) [OF False] 2(3) show ?thesis by simp
  qed
qed simp

lemma sub_runs_keep: "\<forall>c \<in> set w. \<not> P c \<Longrightarrow> sub_runs P (w @ r) = w @ sub_runs P r"
  by (induction w) auto

lemma join_Cons: "join c (x # xs) = x @ (if xs = [] then [] else c # join c xs)"
  by (cases xs) simp_all

definition lead :: "string \<Rightarrow> string" where
  "lead s = (case s of [] \<Rightarrow> [] | c # _ \<Rightarrow> if is_alnum c then [] else '' '')"

lemma lead_dropWhile [simp]:
  "lead (dropWhile (\<lambda>c. \<not> is_alnum c) s) = []"
  "lead (dropWhile is_alnum s) = (if dropWhile is_alnum s = [] then [] else '' '')"
  by (induction s) (auto simp: lead_def)

lemma sub_nonalnum:
  "\<exists>e. (e = [] \<or> e = '' '') \<and> (runs is_alnum s = [] \<longrightarrow> e = []) \<and>
     sub_runs (\<lambda>c. \<not> is_alnum c) s = lead s @ join (CHR '' '') (runs is_alnum s) @ e"
proof (induction is_alnum s rule: runs.induct)
  case 1
  show ?case by (simp add: lead_def)
next
  case (2 c cs)
  show ?case
  proof (cases "is_alnum c")
    case True
    let ?w = "c # takeWhile is_alnum cs" and ?r = "dropWhile is_alnum cs"
    have "sub_runs (\<lambda>c. \<not> is_alnum c) (?w @ ?r) = ?w @ sub_runs (\<lambda>c. \<not> is_alnum c) ?r"
      by (rule sub_runs_keep) (use True in \<open>auto dest: set_takeWhileD\<close>)
    then have sub: "sub_runs (\<lambda>c. \<not> is_alnum c) (c # cs) = ?w @ sub_runs (\<lambda>c. \<not> is_alnum c) ?r"
      by simp
    obtain e where e: "e = [] \<or> e = '' ''" "runs is_alnum ?r = [] \<longrightarrow> e = []"
      "sub_runs (\<lambda>c. \<not> is_alnum c) ?r = lead ?r @ join (CHR '' '') (runs is_alnum ?r) @ e"
      using 2(1) [OF True] by blast
    have r: "runs is_alnum (c # cs) = ?w # runs is_alnum ?r" using True by simp
    show ?thesis
    proof (cases "runs is_alnum ?r = []")
      case none: True
      then show ?thesis
        using True e by (intro exI [of _ "lead ?r"]) (simp add: sub r lead_def [of "c # cs"] del: runs.simps sub_runs.simps)
    next
      case False
      then have "?r \<noteq> []" by (metis runs.simps(1))
      with False True e show ?thesis
        by (intro exI [of _ e]) (simp add: sub r join_Cons lead_def [of "c # cs"] del: runs.simps sub_runs.simps)
    qed
  next
    case False
    with 2(2) obtain e where "e = [] \<or> e = '' ''" "runs is_alnum (dropWhile (\<lambda>c. \<not> is_alnum c) cs) = [] \<longrightarrow> e = []"
      "sub_runs (\<lambda>c. \<not> is_alnum c) (dropWhile (\<lambda>c. \<not> is_alnum c) cs) =
        join (CHR '' '') (runs is_alnum (dropWhile (\<lambda>c. \<not> is_alnum c) cs)) @ e"
      by auto
    with False show ?thesis by (intro exI [of _ e]) (simp add: lead_def)
  qed
qed

lemma good_not_space: "good_word w \<Longrightarrow> \<forall>c \<in> set w. \<not> is_space c"
  by (auto simp: good_word_def alnum_not_space)

lemma good_Cons: "good_word w \<Longrightarrow> \<exists>c cs. w = c # cs \<and> is_alnum c"
  by (cases w) (auto simp: good_word_def)

lemma sub_space_join:
  "\<forall>w \<in> set ws. good_word w \<Longrightarrow> e = [] \<or> e = '' '' \<Longrightarrow>
   sub_runs is_space (join (CHR '' '') ws @ e) = join (CHR '' '') ws @ e"
proof (induction ws)
  case Nil
  then show ?case by auto
next
  case (Cons w ws)
  have w: "sub_runs is_space (w @ r) = w @ sub_runs is_space r" for r
    using Cons.prems(1) good_not_space [of w] by (intro sub_runs_keep) simp
  show ?case
  proof (cases ws)
    case Nil
    then show ?thesis using w [of e] Cons.prems(2) w [of "[]"] by auto
  next
    case (Cons v vs)
    then obtain c cs where v: "v = c # cs" "is_alnum c" using good_Cons Cons.prems(1) by (metis list.set_intros)
    have "dropWhile is_space (join (CHR '' '') ws @ e) = join (CHR '' '') ws @ e"
      using v by (simp add: Cons join_Cons alnum_not_space)
    then show ?thesis using Cons.IH Cons.prems w by (simp add: Cons)
  qed
qed

lemma join_snoc_char:
  "ws \<noteq> [] \<Longrightarrow> \<forall>w \<in> set ws. good_word w \<Longrightarrow> \<exists>s c. join (CHR '' '') ws = s @ [c] \<and> is_alnum c"
proof (induction ws)
  case (Cons w ws)
  show ?case
  proof (cases ws)
    case Nil
    have "w \<noteq> []" "is_alnum (last w)" using Cons.prems by (auto simp: good_word_def)
    then show ?thesis using Nil by (metis append_butlast_last_id join.simps(2))
  next
    case (Cons v vs)
    then obtain s c where "join (CHR '' '') ws = s @ [c]" "is_alnum c"
      using Cons.IH Cons.prems by auto
    then show ?thesis using Cons by (intro exI [of _ "w @ CHR '' '' # s"] exI [of _ c]) simp
  qed
qed simp

lemma strip_join:
  assumes "\<forall>w \<in> set ws. good_word w" "b = [] \<or> b = '' ''" "e = [] \<or> e = '' ''" "ws = [] \<longrightarrow> e = []"
  shows "py_strip (b @ join (CHR '' '') ws @ e) = join (CHR '' '') ws"
proof (cases ws)
  case Nil
  then show ?thesis using assms by (auto simp: py_strip_def rstrip_of_def)
next
  case (Cons v vs)
  obtain c cs where v: "v = c # cs" "is_alnum c" using good_Cons assms(1) Cons by (metis list.set_intros(1))
  have "dropWhile is_space (b @ join (CHR '' '') ws @ e) = join (CHR '' '') ws @ e"
    using assms(2) v Cons by (auto simp: join_Cons alnum_not_space)
  moreover obtain s d where "join (CHR '' '') ws = s @ [d]" "is_alnum d"
    using join_snoc_char assms(1) Cons by blast
  ultimately show ?thesis using assms(3) by (auto simp: py_strip_def rstrip_of_def alnum_not_space)
qed

lemma sub_space_lead:
  assumes "\<forall>w \<in> set ws. good_word w" "b = [] \<or> b = '' ''" "e = [] \<or> e = '' ''" "ws = [] \<longrightarrow> e = []"
  shows "sub_runs is_space (b @ join (CHR '' '') ws @ e) = b @ join (CHR '' '') ws @ e"
proof (cases "b = []")
  case False
  have "dropWhile is_space (join (CHR '' '') ws @ e) = join (CHR '' '') ws @ e"
  proof (cases ws)
    case Nil
    then show ?thesis using assms by simp
  next
    case (Cons v vs)
    obtain c cs where "v = c # cs" "is_alnum c" using good_Cons assms(1) Cons by (metis list.set_intros(1))
    then show ?thesis by (simp add: Cons join_Cons alnum_not_space)
  qed
  then show ?thesis using False assms sub_space_join by auto
qed (use assms sub_space_join in auto)

lemma normalize_words: "normalize_descriptor value = join (CHR '' '') (descriptor_words value)"
proof -
  let ?ws = "descriptor_words value"
  obtain e where e: "e = [] \<or> e = '' ''" "?ws = [] \<longrightarrow> e = []"
    "sub_runs (\<lambda>c. \<not> is_alnum c) (py_lower value) = lead (py_lower value) @ join (CHR '' '') ?ws @ e"
    using sub_nonalnum [of "py_lower value"] unfolding descriptor_words_def by blast
  have b: "lead (py_lower value) = [] \<or> lead (py_lower value) = '' ''"
    by (simp add: lead_def split: list.split)
  have g: "\<forall>w \<in> set ?ws. good_word w" by (simp add: descriptor_words_def runs_good)
  show ?thesis
    unfolding normalize_descriptor_def e(3) sub_space_lead [OF g b e(1,2)] strip_join [OF g b e(1,2)] ..
qed

section \<open>Searching for a phrase\<close>

text \<open>\<open>phrase_at rs ws\<close>: the words \<open>ws\<close> begin with one word for each element of \<open>rs\<close>.\<close>

fun phrase_at :: "rx list \<Rightarrow> string list \<Rightarrow> bool" where
  "phrase_at [] ws = True"
| "phrase_at (r # rs) [] = False"
| "phrase_at (r # rs) (w # ws) = (w \<in> set (alts r) \<and> phrase_at rs ws)"

fun phrase_in :: "rx list \<Rightarrow> string list \<Rightarrow> bool" where
  "phrase_in rs [] = phrase_at rs []"
| "phrase_in rs (w # ws) = (phrase_at rs (w # ws) \<or> phrase_in rs ws)"

definition word_rx :: "rx \<Rightarrow> bool" where
  "word_rx r \<longleftrightarrow> r \<noteq> WordB \<and> r \<noteq> Spaces \<and> list_all good_word (alts r)"

lemma rx_steps_word: "word_rx r \<Longrightarrow> rx_steps r st = concat (map (\<lambda>w. lit_steps w st) (alts r))"
  by (cases r) (auto simp: word_rx_def)

lemma lit_steps_last: "w \<noteq> [] \<Longrightarrow> lit_steps w (p, w @ r) = [(Some (last w), r)]"
  by (induction w arbitrary: p) (auto simp: neq_Nil_conv)

lemma lit_steps_prefix: "st' \<in> set (lit_steps w (p, s)) \<Longrightarrow> s = w @ snd st'"
  by (induction w "(p, s)" arbitrary: p s rule: lit_steps.induct) (auto split: if_splits)

lemma lit_steps_iff:
  "w \<noteq> [] \<Longrightarrow> list_ex Q (lit_steps w (p, s)) \<longleftrightarrow> (\<exists>r. s = w @ r \<and> Q (Some (last w), r))"
  by (auto simp: list_ex_iff lit_steps_last dest: lit_steps_prefix) (metis lit_steps_last lit_steps_prefix singletonD list.set(1,2) snd_conv empty_iff insert_iff)

lemma next_char_simps [simp]: "next_char [] = None" "next_char (c # cs) = Some c"
  by (simp_all add: next_char_def)

lemma word_opt_simps [simp]: "word_opt None = False" "word_opt (Some c) = is_word c"
  by (simp_all add: word_opt_def)

definition after_word :: "string list \<Rightarrow> string" where
  "after_word ws = (if ws = [] then [] else CHR '' '' # join (CHR '' '') ws)"

lemma next_char_join [simp]:
  "\<forall>w \<in> set ws. good_word w \<Longrightarrow> word_opt (next_char (join (CHR '' '') ws)) = (ws \<noteq> [])"
proof (cases ws)
  case (Cons v vs)
  assume "\<forall>w \<in> set ws. good_word w"
  with Cons obtain c cs where "v = c # cs" "is_alnum c" using good_Cons by (metis list.set_intros(1))
  with Cons show ?thesis by (simp add: join_Cons alnum_word)
qed simp

lemma next_char_after [simp]: "word_opt (next_char (after_word ws)) = False"
  by (simp add: after_word_def)

lemma word_ends_at_space:
  assumes "good_word w" "good_word v" "v @ after_word vs = w @ r" "word_opt (next_char r) = False"
  shows "w = v \<and> r = after_word vs"
proof -
  obtain u where u: "v = w @ u \<and> u @ after_word vs = r \<or> v @ u = w \<and> after_word vs = u @ r"
    using assms(3) by (auto simp: append_eq_append_conv2)
  have "u = []"
  proof (cases u)
    case (Cons c cs)
    from u show ?thesis
    proof
      assume "v = w @ u \<and> u @ after_word vs = r"
      then have "c \<in> set v" "next_char r = Some c" using Cons by auto
      then show ?thesis using assms(2,4) by (auto simp: good_word_def alnum_word)
    next
      assume "v @ u = w \<and> after_word vs = u @ r"
      then have "c \<in> set w" "c = CHR '' ''" using Cons by (auto simp: after_word_def split: if_splits)
      then show ?thesis using assms(1) by (auto simp: good_word_def)
    qed
  qed simp
  with u show ?thesis by auto
qed

lemma last_good: "good_word w \<Longrightarrow> is_word (last w)"
  by (simp add: good_word_def alnum_word)

lemma space_steps_join: "\<forall>w \<in> set ws. good_word w \<Longrightarrow> space_steps (after_word ws) = (if ws = [] then [] else [(Some (CHR '' ''), join (CHR '' '') ws)])"
proof (cases ws)
  case (Cons v vs)
  assume "\<forall>w \<in> set ws. good_word w"
  with Cons obtain c cs where "v = c # cs" "is_alnum c" using good_Cons by (metis list.set_intros(1))
  with Cons show ?thesis by (simp add: join_Cons alnum_not_space after_word_def)
qed (simp add: after_word_def)

text \<open>Reaching the end of a word, the rest of a spaced pattern.\<close>

definition after_rx :: "rx list \<Rightarrow> rx list" where
  "after_rx rs = (if rs = [] then [WordB] else Spaces # spaced rs)"

lemma spaced_Cons: "spaced (r # rs) = r # after_rx rs"
  by (cases rs) (simp_all add: after_rx_def)

lemma after_rx_boundary: "rx_match (after_rx rs) (Some c, r) \<Longrightarrow> is_word c \<Longrightarrow> \<not> word_opt (next_char r)"
proof (cases rs)
  case (Cons q qs)
  assume "rx_match (after_rx rs) (Some c, r)"
  with Cons show ?thesis
    by (cases r) (auto simp: after_rx_def is_space_def is_word_def Let_def split: if_splits)
qed (auto simp: after_rx_def split: if_splits)

lemma list_ex_concat_map: "list_ex P (concat (map f xs)) = list_ex (\<lambda>x. list_ex P (f x)) xs"
  by (induction xs) auto

lemma spaced_match:
  assumes "rs \<noteq> []" "list_all word_rx rs" "\<forall>w \<in> set ws. good_word w"
  shows "rx_match (spaced rs) (p, join (CHR '' '') ws) \<longleftrightarrow> phrase_at rs ws"
  using assms
proof (induction rs arbitrary: p ws)
  case (Cons r rs)
  have wr: "word_rx r" using Cons.prems(2) by simp
  have go: "rx_match (after_rx rs) (Some (last v), after_word vs) \<longleftrightarrow> phrase_at rs vs"
    if "good_word v" "\<forall>w \<in> set vs. good_word w" for v vs
  proof (cases rs)
    case Nil
    with that show ?thesis by (simp add: after_rx_def last_good)
  next
    case (Cons q qs)
    with that Cons.prems(2) Cons.IH [of vs "Some (CHR '' '')"] show ?thesis
      by (auto simp: after_rx_def space_steps_join simp del: spaced.simps)
  qed
  show ?case
  proof (cases ws)
    case Nil
    have "\<not> list_ex Q (lit_steps w (p, []))" if "w \<in> set (alts r)" for w Q
      using wr that by (cases w) (simp_all add: word_rx_def good_word_def list_all_iff, blast)
    then show ?thesis using wr Nil by (auto simp: spaced_Cons rx_steps_word list_ex_iff)
  next
    case ws: (Cons v vs)
    have jv: "join (CHR '' '') ws = v @ after_word vs" by (simp add: ws join_Cons after_word_def)
    have gv: "good_word v" "\<forall>w \<in> set vs. good_word w" using Cons.prems(3) ws by auto
    have "list_ex (rx_match (after_rx rs)) (lit_steps w (p, v @ after_word vs)) \<longleftrightarrow> w = v \<and> phrase_at rs vs"
      if "w \<in> set (alts r)" for w
    proof -
      have gw: "good_word w" using that wr by (simp add: word_rx_def list_all_iff)
      then have "list_ex (rx_match (after_rx rs)) (lit_steps w (p, v @ after_word vs)) \<longleftrightarrow>
          (\<exists>r'. v @ after_word vs = w @ r' \<and> rx_match (after_rx rs) (Some (last w), r'))"
        by (simp add: lit_steps_iff good_word_def)
      also have "\<dots> \<longleftrightarrow> w = v \<and> rx_match (after_rx rs) (Some (last v), after_word vs)"
        using word_ends_at_space [OF gw gv(1)] after_rx_boundary last_good [OF gw] by metis
      finally show ?thesis using go [OF gv] by simp
    qed
    then have "(\<exists>w \<in> set (alts r). list_ex (rx_match (after_rx rs)) (lit_steps w (p, v @ after_word vs))) \<longleftrightarrow>
        v \<in> set (alts r) \<and> phrase_at rs vs" by auto
    moreover have "rx_match (spaced (r # rs)) (p, join (CHR '' '') ws) \<longleftrightarrow>
        (\<exists>w \<in> set (alts r). list_ex (rx_match (after_rx rs)) (lit_steps w (p, v @ after_word vs)))"
      by (simp only: jv spaced_Cons rx_match.simps rx_steps_word [OF wr] list_ex_concat_map) (simp add: list_ex_iff)
    ultimately show ?thesis by (simp add: ws)
  qed
qed simp

text \<open>A boundary before a word can only be passed at the start of a word.\<close>

lemma positions_append: "positions p (w @ r) =
  map (\<lambda>i. (if i = 0 then p else Some (w ! (i - 1)), drop i w @ r)) [0..<length w] @
  positions (if w = [] then p else Some (last w)) r"
proof (induction w arbitrary: p)
  case (Cons c w)
  show ?case
    by (simp add: Cons upt_conv_Cons [of 0] map_Suc_upt [symmetric] nth_Cons' del: upt_Suc)
qed simp

lemma phrase_in_iff: "phrase_in rs ws \<longleftrightarrow> (\<exists>pre suf. ws = pre @ suf \<and> phrase_at rs suf)"
  by (induction ws) (auto simp: Cons_eq_append_conv)

lemma phrase_boundary_word:
  assumes "rs \<noteq> []" "list_all word_rx rs" "rx_match (phrase rs) (p, s)"
  shows "\<not> word_opt p \<and> word_opt (next_char s)"
proof -
  obtain r rs' where rs: "rs = r # rs'" using assms(1) by (cases rs) auto
  have wr: "word_rx r" using assms(2) rs by simp
  have b: "word_opt p \<noteq> word_opt (next_char s)" "rx_match (spaced rs) (p, s)"
    using assms(3) by (auto simp: phrase_def split: if_splits)
  then obtain w where w: "w \<in> set (alts r)" "list_ex (rx_match (after_rx rs')) (lit_steps w (p, s))"
    by (auto simp: rs spaced_Cons rx_steps_word [OF wr] list_ex_concat_map list_ex_iff simp del: spaced.simps)
  then have gw: "good_word w" using wr by (auto simp: word_rx_def list_all_iff)
  then obtain t where "s = w @ t" using w(2) by (auto simp: lit_steps_iff good_word_def)
  then have "word_opt (next_char s)" using good_Cons [OF gw] by (auto simp: alnum_word)
  with b(1) show ?thesis by simp
qed

lemma phrase_match_start:
  assumes "rs \<noteq> []" "list_all word_rx rs" "\<forall>w \<in> set ws. good_word w" "\<not> word_opt p"
  shows "rx_match (phrase rs) (p, join (CHR '' '') ws) \<longleftrightarrow> phrase_at rs ws"
  using assms spaced_match [OF assms(1-3)] by (cases rs; cases "ws = []") (simp_all add: phrase_def)

lemma phrase_not_inside:
  assumes "rs \<noteq> []" "list_all word_rx rs" "good_word v" "0 < i" "i \<le> length v"
  shows "\<not> rx_match (phrase rs) (Some (v ! (i - 1)), s)"
proof -
  have "is_word (v ! (i - 1))" using assms(3-5) by (auto simp: good_word_def alnum_word)
  then show ?thesis using phrase_boundary_word [OF assms(1,2)] by fastforce
qed

lemma list_ex_map_upt: "list_ex P (map f [0..<n]) \<longleftrightarrow> (\<exists>i<n. P (f i))"
  by (auto simp: list_ex_iff)

lemma phrase_search_positions:
  assumes "rs \<noteq> []" "list_all word_rx rs" "\<forall>w \<in> set ws. good_word w" "\<not> word_opt p"
  shows "list_ex (rx_match (phrase rs)) (positions p (join (CHR '' '') ws)) \<longleftrightarrow> phrase_in rs ws"
  using assms(3,4)
proof (induction ws arbitrary: p)
  case Nil
  then show ?case using phrase_match_start [OF assms(1,2), of "[]" p] by simp
next
  case (Cons v vs)
  have gv: "good_word v" "v \<noteq> []" using Cons.prems(1) by (auto simp: good_word_def)
  have jv: "join (CHR '' '') (v # vs) = v @ after_word vs" by (simp add: join_Cons after_word_def)
  have inside: "\<not> rx_match (phrase rs) (Some (v ! (i - 1)), s)" if "0 < i" "i \<le> length v" for i s
    using phrase_not_inside [OF assms(1,2) gv(1) that] .
  have at_end: "\<not> rx_match (phrase rs) (Some (last v), s)" for s
    using inside [of "length v" s] gv(2) by (simp add: last_conv_nth)
  have first: "list_ex (rx_match (phrase rs)) (map (\<lambda>i. (if i = 0 then p else Some (v ! (i - 1)), drop i v @ after_word vs)) [0..<length v])
      \<longleftrightarrow> phrase_at rs (v # vs)"
  proof -
    let ?st = "\<lambda>i. (if i = 0 then p else Some (v ! (i - 1)), drop i v @ after_word vs)"
    have "list_ex (rx_match (phrase rs)) (map ?st [0..<length v]) \<longleftrightarrow> (\<exists>i<length v. rx_match (phrase rs) (?st i))"
      by (rule list_ex_map_upt)
    also have "\<dots> \<longleftrightarrow> rx_match (phrase rs) (p, v @ after_word vs)"
    proof
      assume "\<exists>i<length v. rx_match (phrase rs) (?st i)"
      then obtain i where i: "i < length v" "rx_match (phrase rs) (?st i)" by blast
      have "i = 0" using inside [of i "drop i v @ after_word vs"] i by (cases "i = 0") simp_all
      then show "rx_match (phrase rs) (p, v @ after_word vs)" using i(2) by simp
    next
      assume "rx_match (phrase rs) (p, v @ after_word vs)"
      then show "\<exists>i<length v. rx_match (phrase rs) (?st i)" using gv(2) by (intro exI [of _ 0]) simp
    qed
    also have "\<dots> \<longleftrightarrow> phrase_at rs (v # vs)"
      using phrase_match_start [OF assms(1,2) Cons.prems] jv by simp
    finally show ?thesis .
  qed
  have rest: "list_ex (rx_match (phrase rs)) (positions (Some (last v)) (after_word vs)) \<longleftrightarrow> phrase_in rs vs"
  proof (cases "vs = []")
    case True
    have "\<not> phrase_at rs []" using assms(1) by (cases rs) auto
    with True show ?thesis using at_end by (simp add: after_word_def)
  next
    case False
    then show ?thesis using at_end Cons.IH [of "Some (CHR '' '')"] Cons.prems(1) by (simp add: after_word_def)
  qed
  show ?case
    using first rest gv(2) by (simp add: jv positions_append)
qed

lemma phrase_search:
  "rs \<noteq> [] \<Longrightarrow> list_all word_rx rs \<Longrightarrow> rx_search (phrase rs) (normalize_descriptor value) \<longleftrightarrow> phrase_in rs (descriptor_words value)"
  unfolding rx_search_def normalize_words
  by (rule phrase_search_positions) (auto simp: descriptor_words_def runs_good)

lemma risky_words: "rs \<in> set RISKY_PHRASES \<Longrightarrow> rs \<noteq> [] \<and> list_all word_rx rs"
  by (auto simp: RISKY_PHRASES_def word_rx_def good_word_def is_alnum_def)

lemma find_case: "(case find P xs of None \<Rightarrow> None | Some x \<Rightarrow> Some (g x)) = None \<longleftrightarrow> (\<forall>x \<in> set xs. \<not> P x)"
  by (induction xs) auto

definition click_words :: "(json \<Rightarrow> string) \<Rightarrow> string \<Rightarrow> (string, json) dict \<Rightarrow> string list" where
  "click_words to_str selector metadata = descriptor_words (join (CHR '' '') (descriptor_parts to_str selector metadata))"

lemma normalize_empty: "normalize_descriptor v = '''' \<Longrightarrow> descriptor_words v = []"
  using runs_good [of _ "py_lower v"]
  by (cases "descriptor_words v") (auto simp: normalize_words join_Cons good_word_def descriptor_words_def)

text \<open>C13. After authentication a click is blocked exactly when the words of its target (selector and metadata,
  lower-cased, every other character a separator) contain one of the risky phrases as consecutive whole
  words; the regular expressions neither miss one nor match inside a longer word.\<close>

theorem click_blocked_iff_risky_phrase:
  "evaluate_click to_str selector metadata p \<noteq> None \<longleftrightarrow>
     rp_enabled p \<and> rp_phase p = PhaseRead \<and>
     (\<exists>rs \<in> set RISKY_PHRASES. phrase_in rs (click_words to_str selector metadata))"
proof -
  let ?d = "join (CHR '' '') (descriptor_parts to_str selector metadata)"
  have "(\<exists>pat \<in> set RISKY_CLICK_PATTERNS. rx_search pat (normalize_descriptor ?d)) \<longleftrightarrow>
      (\<exists>rs \<in> set RISKY_PHRASES. phrase_in rs (click_words to_str selector metadata))"
    using risky_words phrase_search by (auto simp: RISKY_CLICK_PATTERNS_def click_words_def)
  moreover have "\<not> (\<exists>rs \<in> set RISKY_PHRASES. phrase_in rs [])"
    by (simp add: RISKY_PHRASES_def)
  ultimately have "evaluate_click to_str selector metadata p = None \<longleftrightarrow>
      \<not> (rp_enabled p \<and> rp_phase p = PhaseRead \<and> (\<exists>rs \<in> set RISKY_PHRASES. phrase_in rs (click_words to_str selector metadata)))"
    using normalize_empty [of ?d]
    by (auto simp: evaluate_click_def Let_def click_words_def find_case)
  then show ?thesis by argo
qed

text \<open>Before authentication nothing is blocked, and a disabled policy never blocks.\<close>

lemma policy_idle:
  assumes "\<not> rp_enabled p \<or> rp_phase p = PhaseAuth \<or> rp_phase p = PhaseMfa"
  shows "evaluate_step a p = None" "evaluate_request r p = None" "evaluate_click to_str sel md p = None"
  using assms by (auto simp: evaluate_step_def evaluate_request_def evaluate_click_def)

text \<open>While reading, a request goes through only with a method other than PUT, PATCH, DELETE, and a POST only as
  a scripted request that is neither a navigation nor a form body. During cleanup no request and no
  click is checked at all: the guardrails of the read phase end before the session does.\<close>

theorem request_guard:
  "(evaluate_request r p = None \<longleftrightarrow>
     (rp_enabled p \<longrightarrow> rp_phase p = PhaseRead \<longrightarrow>
        py_upper (rq_method r) \<notin> {''PUT'', ''PATCH'', ''DELETE''} \<and>
        (py_upper (rq_method r) = ''POST'' \<longrightarrow>
           rq_navigation r \<noteq> Some True \<and>
           (\<forall>t \<in> set FORM_POST_CONTENT_TYPES. \<not> starts_with t (py_lower (rq_content_type r)))))) \<and>
   evaluate_request r (set_phase PhaseCleanup p) = None \<and>
   evaluate_click to_str sel md (set_phase PhaseCleanup p) = None"
  by (auto simp: evaluate_request_def evaluate_click_def set_phase_def Let_def list_ex_iff split: if_splits)

theorem request_guard_witness:
  "evaluate_request \<lparr>rq_method = ''DELETE'', rq_navigation = None, rq_content_type = ''''\<rparr>
     \<lparr>rp_enabled = True, rp_phase = PhaseRead, rp_blocked = []\<rparr> \<noteq> None"
  using conjunct1 [OF request_guard [of "\<lparr>rq_method = ''DELETE'', rq_navigation = None, rq_content_type = ''''\<rparr>"
    "\<lparr>rp_enabled = True, rp_phase = PhaseRead, rp_blocked = []\<rparr>" "\<lambda>_. ''''" "''''" "[]"]]
  by (simp add: py_upper_def upper_char_def)

end
