(* ===== verification/Error_Taxonomy.thy ===== *)
theory Error_Taxonomy imports Plaidify_Prelude begin

text \<open>
  \<^verbatim>\<open>src/exceptions.py\<close> and \<^verbatim>\<open>src/error_taxonomy.py\<close>: the exception hierarchy with the message, HTTP
  status and hosted-link error code of every class, and the remediation table. An exception of the
  program is a \<open>plaidify_error\<close> or a foreign one, given by its class name and text (\<open>exc\<close>).
\<close>

section \<open>Error codes\<close>

datatype link_error_code =
    INVALID_CREDENTIALS | MFA_TIMEOUT | INSTITUTION_DOWN | RATE_LIMITED | UNSUPPORTED_SITE
  | NETWORK_ERROR | INTERNAL_ERROR

fun code_value :: "link_error_code \<Rightarrow> string" where
  "code_value INVALID_CREDENTIALS = ''invalid_credentials''"
| "code_value MFA_TIMEOUT = ''mfa_timeout''"
| "code_value INSTITUTION_DOWN = ''institution_down''"
| "code_value RATE_LIMITED = ''rate_limited''"
| "code_value UNSUPPORTED_SITE = ''unsupported_site''"
| "code_value NETWORK_ERROR = ''network_error''"
| "code_value INTERNAL_ERROR = ''internal_error''"

definition all_codes :: "link_error_code list" where
  "all_codes = [INVALID_CREDENTIALS, MFA_TIMEOUT, INSTITUTION_DOWN, RATE_LIMITED, UNSUPPORTED_SITE,
     NETWORK_ERROR, INTERNAL_ERROR]"

text \<open>\<^verbatim>\<open>LinkErrorCode(value)\<close>; \<open>None\<close> is its \<^verbatim>\<open>ValueError\<close>.\<close>

definition code_of_value :: "string \<Rightarrow> link_error_code option" where
  "code_of_value s = find (\<lambda>c. code_value c = s) all_codes"

lemma all_codes_UNIV: "c \<in> set all_codes"
  by (cases c) (simp_all add: all_codes_def)

lemma code_of_code_value [simp]: "code_of_value (code_value c) = Some c"
  by (cases c) (simp_all add: code_of_value_def all_codes_def)

lemma code_of_value_Some: "code_of_value s = Some c \<longleftrightarrow> code_value c = s"
proof
  show "code_of_value s = Some c \<Longrightarrow> code_value c = s"
    by (auto simp: code_of_value_def find_Some_iff)
qed auto

section \<open>Remediation\<close>

record remediation =
  rm_title :: string
  rm_description :: string
  rm_primary_cta :: string
  rm_primary_action :: string
  rm_secondary_cta :: "string option"
  rm_secondary_action :: "string option"
  rm_retryable :: bool

text \<open>The UTF-8 bytes of the em dash the texts use.\<close>

definition em_dash :: string where
  "em_dash = [CHR 0xE2, CHR 0x80, CHR 0x94]"

fun REMEDIATIONS :: "link_error_code \<Rightarrow> remediation" where
  "REMEDIATIONS INVALID_CREDENTIALS = \<lparr>
     rm_title = ''We couldn't sign you in'',
     rm_description = ''The username or password doesn't match what your provider has on file. Double-check your credentials and try again, or reset them with your provider.'',
     rm_primary_cta = ''Try again'', rm_primary_action = ''retry'',
     rm_secondary_cta = Some ''Choose a different provider'', rm_secondary_action = Some ''back_to_picker'',
     rm_retryable = True\<rparr>"
| "REMEDIATIONS MFA_TIMEOUT = \<lparr>
     rm_title = ''Verification timed out'',
     rm_description = ''We didn't receive your verification code in time. You can request a new code and try again.'',
     rm_primary_cta = ''Start over'', rm_primary_action = ''retry'',
     rm_secondary_cta = Some ''Choose a different provider'', rm_secondary_action = Some ''back_to_picker'',
     rm_retryable = True\<rparr>"
| "REMEDIATIONS INSTITUTION_DOWN = \<lparr>
     rm_title = ''Your provider is temporarily unavailable'',
     rm_description = ''Their systems aren't responding right now. This usually resolves within a few minutes '' @ em_dash @ '' try again shortly, or pick a different provider.'',
     rm_primary_cta = ''Try again'', rm_primary_action = ''retry'',
     rm_secondary_cta = Some ''Choose a different provider'', rm_secondary_action = Some ''back_to_picker'',
     rm_retryable = True\<rparr>"
| "REMEDIATIONS RATE_LIMITED = \<lparr>
     rm_title = ''Too many attempts'',
     rm_description = ''We're pausing briefly to protect your account. Please wait a moment before trying again.'',
     rm_primary_cta = ''Try again in a moment'', rm_primary_action = ''retry'',
     rm_secondary_cta = Some ''Exit'', rm_secondary_action = Some ''exit'',
     rm_retryable = True\<rparr>"
| "REMEDIATIONS UNSUPPORTED_SITE = \<lparr>
     rm_title = ''Provider not supported yet'',
     rm_description = ''We don't have an integration for this provider. Pick a different one, or let us know what you'd like us to add.'',
     rm_primary_cta = ''Choose a different provider'', rm_primary_action = ''back_to_picker'',
     rm_secondary_cta = Some ''Contact support'', rm_secondary_action = Some ''contact_support'',
     rm_retryable = False\<rparr>"
| "REMEDIATIONS NETWORK_ERROR = \<lparr>
     rm_title = ''Connection interrupted'',
     rm_description = ''We lost the connection to your provider. Check your internet connection and try again.'',
     rm_primary_cta = ''Try again'', rm_primary_action = ''retry'',
     rm_secondary_cta = Some ''Choose a different provider'', rm_secondary_action = Some ''back_to_picker'',
     rm_retryable = True\<rparr>"
| "REMEDIATIONS INTERNAL_ERROR = \<lparr>
     rm_title = ''Something went wrong on our end'',
     rm_description = ''An unexpected error occurred while setting up your secure connection. Please try again, and contact support if this keeps happening.'',
     rm_primary_cta = ''Try again'', rm_primary_action = ''retry'',
     rm_secondary_cta = Some ''Contact support'', rm_secondary_action = Some ''contact_support'',
     rm_retryable = True\<rparr>"

text \<open>\<open>remediation_for\<close> takes an enum member (\<open>Inl\<close>) or a raw string (\<open>Inr\<close>).\<close>

fun remediation_for :: "link_error_code + string \<Rightarrow> remediation" where
  "remediation_for (Inl code) = REMEDIATIONS code"
| "remediation_for (Inr s) =
     (case code_of_value s of Some c \<Rightarrow> REMEDIATIONS c | None \<Rightarrow> REMEDIATIONS INTERNAL_ERROR)"

definition serialize_remediation :: "link_error_code \<Rightarrow> json" where
  "serialize_remediation c =
     (let r = REMEDIATIONS c
      in JObj [(''code'', JStr (code_value c)), (''title'', JStr (rm_title r)),
           (''description'', JStr (rm_description r)), (''primary_cta'', JStr (rm_primary_cta r)),
           (''primary_action'', JStr (rm_primary_action r)), (''secondary_cta'', jopt (rm_secondary_cta r)),
           (''secondary_action'', jopt (rm_secondary_action r)), (''retryable'', JBool (rm_retryable r))])"

definition serialize_taxonomy :: json where
  "serialize_taxonomy = JObj [(''version'', JInt 1), (''codes'', JList (map serialize_remediation all_codes))]"

section \<open>Exceptions\<close>

datatype plaidify_error =
    PlaidifyError string nat
  | BlueprintNotFoundError string
  | BlueprintValidationError string string
  | ConnectionFailedError string string
  | ReadOnlyPolicyViolationError string "(string, json) dict option"
  | ConcurrentAccessError string
  | AuthenticationError string
  | MFARequiredError string string string
  | SiteUnavailableError string string
  | RateLimitedError int
  | CaptchaRequiredError string string
  | DataExtractionError string string
  | InvalidTokenError string
  | UserNotFoundError
  | LinkNotFoundError

definition with_detail :: "string \<Rightarrow> string \<Rightarrow> string" where
  "with_detail msg detail = (if detail \<noteq> '''' then msg @ '' '' @ em_dash @ '' '' @ detail else msg)"

fun err_message :: "plaidify_error \<Rightarrow> string" where
  "err_message (PlaidifyError m s) = m"
| "err_message (BlueprintNotFoundError site) = ''No blueprint found for site: '' @ site"
| "err_message (BlueprintValidationError site d) = with_detail (''Blueprint validation failed for site: '' @ site) d"
| "err_message (ConnectionFailedError site d) = with_detail (''Connection failed for site: '' @ site) d"
| "err_message (ReadOnlyPolicyViolationError d m) = ''Read-only policy blocked action. '' @ d"
| "err_message (ConcurrentAccessError site) =
     ''Another access job is already in progress for site: '' @ site @ ''. Retry after the current session completes.''"
| "err_message (AuthenticationError site) =
     ''Authentication failed for site: '' @ site @ ''. Check your credentials.''"
| "err_message (MFARequiredError site ty sid) = ''MFA required for site: '' @ site @ '' (type: '' @ ty @ '')''"
| "err_message (SiteUnavailableError site d) = with_detail (''Site unavailable: '' @ site) d"
| "err_message (RateLimitedError n) = ''Rate limited. Retry after '' @ show_int n @ '' seconds.''"
| "err_message (CaptchaRequiredError site ty) = ''CAPTCHA required for site: '' @ site @ '' (type: '' @ ty @ '')''"
| "err_message (DataExtractionError site d) = with_detail (''Data extraction failed for site: '' @ site) d"
| "err_message (InvalidTokenError d) = d"
| "err_message UserNotFoundError = ''User not found.''"
| "err_message LinkNotFoundError = ''Invalid link token.''"

declare err_message.simps [simp del]

fun err_status :: "plaidify_error \<Rightarrow> nat" where
  "err_status (PlaidifyError m s) = s"
| "err_status (BlueprintNotFoundError site) = 404"
| "err_status (BlueprintValidationError site d) = 422"
| "err_status (ConnectionFailedError site d) = 502"
| "err_status (ReadOnlyPolicyViolationError d m) = 403"
| "err_status (ConcurrentAccessError site) = 409"
| "err_status (AuthenticationError site) = 401"
| "err_status (MFARequiredError site ty sid) = 403"
| "err_status (SiteUnavailableError site d) = 503"
| "err_status (RateLimitedError n) = 429"
| "err_status (CaptchaRequiredError site ty) = 403"
| "err_status (DataExtractionError site d) = 500"
| "err_status (InvalidTokenError d) = 401"
| "err_status UserNotFoundError = 401"
| "err_status LinkNotFoundError = 404"

text \<open>The class attribute \<open>error_code\<close>; classes that do not set it inherit \<open>INTERNAL_ERROR\<close>.\<close>

fun err_code :: "plaidify_error \<Rightarrow> link_error_code" where
  "err_code (BlueprintNotFoundError site) = UNSUPPORTED_SITE"
| "err_code (ConnectionFailedError site d) = NETWORK_ERROR"
| "err_code (AuthenticationError site) = INVALID_CREDENTIALS"
| "err_code (SiteUnavailableError site d) = INSTITUTION_DOWN"
| "err_code (RateLimitedError n) = RATE_LIMITED"
| "err_code _ = INTERNAL_ERROR"

text \<open>The attribute \<open>metadata\<close> of an exception, where it has one.\<close>

fun err_metadata :: "plaidify_error \<Rightarrow> (string, json) dict option" where
  "err_metadata (ReadOnlyPolicyViolationError d m) = m"
| "err_metadata _ = None"

datatype exc = Plaidify plaidify_error | OtherExc string string

fun classify_exception :: "exc \<Rightarrow> link_error_code" where
  "classify_exception (Plaidify e) = err_code e"
| "classify_exception (OtherExc name text) =
     (let n = py_lower name
      in if contains ''timeout'' n then NETWORK_ERROR
         else if contains ''connection'' n \<or> contains ''network'' n then NETWORK_ERROR
         else INTERNAL_ERROR)"

section \<open>The table\<close>

lemma retryable_iff_retry: "rm_retryable (REMEDIATIONS c) \<longleftrightarrow> rm_primary_action (REMEDIATIONS c) = ''retry''"
  by (cases c) simp_all

lemma retryable_iff_supported: "rm_retryable (REMEDIATIONS c) \<longleftrightarrow> c \<noteq> UNSUPPORTED_SITE"
  by (cases c) simp_all

declare REMEDIATIONS.simps [simp del]

text \<open>The remediation the UI shows for the code of any exception, sent as its string value over the wire, is
  the table's entry for that exception; it is marked retryable exactly when its primary action is to
  retry, and a user whose site is unsupported is never told to retry.\<close>

theorem wire_code_finds_remediation:
  "remediation_for (Inr (code_value (classify_exception e))) = REMEDIATIONS (classify_exception e) \<and>
   (rm_retryable (REMEDIATIONS (classify_exception e)) \<longleftrightarrow>
      rm_primary_action (REMEDIATIONS (classify_exception e)) = ''retry'') \<and>
   (rm_retryable (REMEDIATIONS (classify_exception e)) \<longleftrightarrow> classify_exception e \<noteq> UNSUPPORTED_SITE)"
  using retryable_iff_retry retryable_iff_supported by (simp del: code_value.simps)

end
