(* ===== verification/Step_Executor.thy ===== *)
theory Step_Executor imports Read_Only_Policy Error_Taxonomy begin

text \<open>
  \<^verbatim>\<open>src/core/step_executor.py\<close>: the interpreter of blueprint steps.

  The browser page is outside the repository. It is a function from a command and the page's state to a
  result and a new state; every command the interpreter sends is logged (\<open>ex_log\<close>), so what a run did to
  the site is what its log says. The last commands are those of the data extraction; an element handle is an
  integer the page chooses. Steps are nested (\<open>then_steps\<close>, \<open>else_steps\<close>); an absent list is the
  empty one, which the code treats alike.
\<close>

section \<open>The page\<close>

datatype page_cmd =
    Goto string int
  | WaitVisible string int
  | FillIn string string
  | ClickOn string
  | ClickNavigate string int
  | TakeScreenshot string
  | ScrollIntoView string
  | EvaluateJs string
  | SelectOption string string
  | LoadState int
  | DescribeTarget string
  | FrameLocator string
  | QueryPresent string
  | QueryText string
  | LoadStateDefault
  | NewPage
  | ClosePage
  | AwaitAttached "string option" int
  | QueryElement "string option"
  | QueryAll "string option"
  | ElementQuery int "string option"
  | ElementAttribute int string
  | ElementText int
  | ElementClick int
  | PauseFor int
  | PageUrl
  | PageContent
  | PageScreenshot
  | SetViewport int int

datatype page_result = PgOk json | PgTimeout string | PgError string | PgCancelled

text \<open>What a step raises: Playwright's timeout, an error of the program, any other exception, a cancellation.\<close>

datatype step_exc = XTimeout string | XErr plaidify_error | XOther string | XCancelled

record 'p exec =
  ex_page :: 'p
  ex_log :: "page_cmd list"
  ex_policy :: "read_only_policy option"

type_synonym 'p page_fun = "page_cmd \<Rightarrow> 'p \<Rightarrow> page_result \<times> 'p"

record executor =
  xe_variables :: "(string, string) dict"
  xe_allow_js :: bool
  xe_site :: string
  xe_str :: "json \<Rightarrow> string"

definition send :: "'p page_fun \<Rightarrow> page_cmd \<Rightarrow> 'p exec \<Rightarrow> page_result \<times> 'p exec" where
  "send pg cmd s = (case pg cmd (ex_page s) of (r, p) \<Rightarrow> (r, s\<lparr>ex_page := p, ex_log := ex_log s @ [cmd]\<rparr>))"

fun raised :: "page_result \<Rightarrow> step_exc option" where
  "raised (PgOk v) = None"
| "raised (PgTimeout t) = Some (XTimeout t)"
| "raised (PgError t) = Some (XOther t)"
| "raised PgCancelled = Some XCancelled"

definition perform :: "'p page_fun \<Rightarrow> page_cmd \<Rightarrow> 'p exec \<Rightarrow> step_exc option \<times> 'p exec" where
  "perform pg cmd s = (case send pg cmd s of (r, s') \<Rightarrow> (raised r, s'))"

text \<open>Sequencing: an exception ends the step.\<close>

definition andthen ::
  "(step_exc option \<times> 'p exec) \<Rightarrow> ('p exec \<Rightarrow> step_exc option \<times> 'p exec) \<Rightarrow> step_exc option \<times> 'p exec" where
  "andthen m k = (case m of (None, s) \<Rightarrow> k s | (Some e, s) \<Rightarrow> (Some e, s))"

definition config_error :: "string \<Rightarrow> string \<Rightarrow> 'p exec \<Rightarrow> step_exc option \<times> 'p exec" where
  "config_error site detail s = (Some (XErr (ConnectionFailedError site detail)), s)"

section \<open>Steps\<close>

datatype blueprint_step = BlueprintStep
  (bs_action: step_action)
  (bs_url: "string option")
  (bs_selector: "string option")
  (bs_value: "string option")
  (bs_timeout: "int option")
  (bs_wait_for_navigation: bool)
  (bs_screenshot_name: "string option")
  (bs_script: "string option")
  (bs_condition_selector: "string option")
  (bs_then_steps: "blueprint_step list")
  (bs_else_steps: "blueprint_step list")
  (bs_iframe_selector: "string option")
  (bs_direction: "string option")
  (bs_pixels: "int option")

text \<open>\<open>value or default\<close>; \<open>given\<close> is the truth of an optional string.\<close>

definition or_int :: "int option \<Rightarrow> int \<Rightarrow> int" where
  "or_int v d = (case v of None \<Rightarrow> d | Some n \<Rightarrow> if n = 0 then d else n)"

definition or_str :: "string option \<Rightarrow> string \<Rightarrow> string" where
  "or_str v d = (case v of None \<Rightarrow> d | Some s \<Rightarrow> if s = '''' then d else s)"

definition given :: "string option \<Rightarrow> string option" where
  "given v = (case v of None \<Rightarrow> None | Some s \<Rightarrow> if s = '''' then None else Some s)"

section \<open>Interpolation\<close>

text \<open>A match of the regular expression at the head of the text: the variable's name and the text after it.\<close>

definition placeholder :: "string \<Rightarrow> (string \<times> string) option" where
  "placeholder s =
     (if starts_with ''{{'' s
      then let key = takeWhile is_word (drop 2 s); rest = dropWhile is_word (drop 2 s)
        in if key \<noteq> [] \<and> starts_with ''}}'' rest then Some (key, drop 2 rest) else None
      else None)"

lemma placeholder_shorter: "placeholder s = Some (key, rest) \<Longrightarrow> length rest < length s"
proof -
  assume a: "placeholder s = Some (key, rest)"
  then have "rest = drop 2 (dropWhile is_word (drop 2 s))" "s \<noteq> []"
    by (auto simp: placeholder_def Let_def split: if_splits)
  moreover have "length (dropWhile is_word (drop 2 s)) \<le> length (drop 2 s)" by (rule length_dropWhile_le)
  ultimately show ?thesis by (cases s) auto
qed

function interpolate :: "(string, string) dict \<Rightarrow> string \<Rightarrow> string" where
  "interpolate vars [] = []"
| "interpolate vars (c # cs) =
     (case placeholder (c # cs) of
        Some (key, rest) \<Rightarrow>
          (case map_of vars key of Some v \<Rightarrow> v | None \<Rightarrow> ''{{'' @ key @ ''}}'') @ interpolate vars rest
      | None \<Rightarrow> c # interpolate vars cs)"
  by pat_completeness auto
termination
  by (relation "measure (\<lambda>(_, s). length s)") (auto dest: placeholder_shorter)

definition interpolate_opt :: "(string, string) dict \<Rightarrow> string option \<Rightarrow> string option" where
  "interpolate_opt vars v = map_option (interpolate vars) v"

section \<open>The policy of a step\<close>

definition enforce_step_policy :: "blueprint_step \<Rightarrow> 'p exec \<Rightarrow> step_exc option \<times> 'p exec" where
  "enforce_step_policy st s =
     (case ex_policy s of
        None \<Rightarrow> (None, s)
      | Some p \<Rightarrow>
          (case evaluate_step (bs_action st) p of
             None \<Rightarrow> (None, s)
           | Some reason \<Rightarrow>
               (Some (XErr (ReadOnlyPolicyViolationError reason None)),
                s\<lparr>ex_policy := Some (record_blocked (action_value (bs_action st)) reason
                  (case given (bs_selector st) of Some sel \<Rightarrow> Some sel | None \<Rightarrow> bs_url st) p)\<rparr>)))"

text \<open>The description of a click's target; an error of the page, or a value that is no object, describes nothing.
  Only a cancellation escapes.\<close>

definition describe_click_target :: "'p page_fun \<Rightarrow> string \<Rightarrow> 'p exec \<Rightarrow> (step_exc + (string, json) dict) \<times> 'p exec" where
  "describe_click_target pg selector s =
     (if ex_policy s = None then (Inr [], s)
      else case send pg (DescribeTarget selector) s of
             (PgOk (JObj md), s') \<Rightarrow> (Inr md, s')
           | (PgCancelled, s') \<Rightarrow> (Inl XCancelled, s')
           | (_, s') \<Rightarrow> (Inr [], s'))"

section \<open>The handlers\<close>

definition step_goto :: "'p page_fun \<Rightarrow> executor \<Rightarrow> blueprint_step \<Rightarrow> 'p exec \<Rightarrow> step_exc option \<times> 'p exec" where
  "step_goto pg xe st s =
     (case given (interpolate_opt (xe_variables xe) (bs_url st)) of
        None \<Rightarrow> config_error ''unknown'' ''goto step requires a 'url' field.'' s
      | Some url \<Rightarrow>
          (case send pg (Goto url (or_int (bs_timeout st) 30000)) s of
             (PgOk (JInt status), s') \<Rightarrow>
               if status \<ge> 500 then (Some (XErr (SiteUnavailableError url (''HTTP '' @ show_int status))), s') else (None, s')
           | (PgTimeout t, s') \<Rightarrow> (Some (XErr (SiteUnavailableError url (''Navigation timeout: '' @ t))), s')
           | (r, s') \<Rightarrow> (raised r, s')))"

definition step_fill :: "'p page_fun \<Rightarrow> executor \<Rightarrow> blueprint_step \<Rightarrow> 'p exec \<Rightarrow> step_exc option \<times> 'p exec" where
  "step_fill pg xe st s =
     (let value = or_str (interpolate_opt (xe_variables xe) (bs_value st)) ''''
      in case given (bs_selector st) of
           None \<Rightarrow> config_error ''unknown'' ''fill step requires a 'selector' field.'' s
         | Some selector \<Rightarrow>
             andthen (perform pg (WaitVisible selector (or_int (bs_timeout st) 10000)) s) (perform pg (FillIn selector value)))"

text \<open>The policy's check of a click, then the click itself.\<close>

definition guard_click :: "'p page_fun \<Rightarrow> executor \<Rightarrow> string \<Rightarrow> 'p exec \<Rightarrow> step_exc option \<times> 'p exec" where
  "guard_click pg xe selector s =
     (if ex_policy s = None then (None, s)
      else case describe_click_target pg selector s of
             (Inl e, s') \<Rightarrow> (Some e, s')
           | (Inr md, s') \<Rightarrow>
               (case ex_policy s' of
                  None \<Rightarrow> (None, s')
                | Some p \<Rightarrow>
                    (case evaluate_click (xe_str xe) selector md p of
                       None \<Rightarrow> (None, s')
                     | Some reason \<Rightarrow>
                         (Some (XErr (ReadOnlyPolicyViolationError reason None)),
                          s'\<lparr>ex_policy := Some (record_blocked ''click'' reason (Some selector) p)\<rparr>))))"

definition step_click :: "'p page_fun \<Rightarrow> executor \<Rightarrow> blueprint_step \<Rightarrow> 'p exec \<Rightarrow> step_exc option \<times> 'p exec" where
  "step_click pg xe st s =
     (case given (bs_selector st) of
        None \<Rightarrow> config_error ''unknown'' ''click step requires a 'selector' field.'' s
      | Some selector \<Rightarrow>
          andthen (perform pg (WaitVisible selector (or_int (bs_timeout st) 10000)) s) (\<lambda>s.
          andthen (guard_click pg xe selector s)
            (perform pg (if bs_wait_for_navigation st then ClickNavigate selector (or_int (bs_timeout st) 30000) else ClickOn selector))))"

definition step_wait :: "'p page_fun \<Rightarrow> executor \<Rightarrow> blueprint_step \<Rightarrow> 'p exec \<Rightarrow> step_exc option \<times> 'p exec" where
  "step_wait pg xe st s =
     (case given (bs_selector st) of
        None \<Rightarrow> config_error ''unknown'' ''wait step requires a 'selector' field.'' s
      | Some selector \<Rightarrow> perform pg (WaitVisible selector (or_int (bs_timeout st) 10000)) s)"

definition safe_name :: "string \<Rightarrow> string" where
  "safe_name name = map (\<lambda>c. if is_word c \<or> c = CHR ''-'' then c else CHR ''_'') name"

definition step_screenshot :: "'p page_fun \<Rightarrow> executor \<Rightarrow> blueprint_step \<Rightarrow> 'p exec \<Rightarrow> step_exc option \<times> 'p exec" where
  "step_screenshot pg xe st s =
     perform pg (TakeScreenshot (''/tmp/plaidify_screenshot_'' @ safe_name (or_str (bs_screenshot_name st) ''debug'') @ ''.png'')) s"

definition scroll_script :: "int \<Rightarrow> string" where
  "scroll_script delta = ''window.scrollBy(0, '' @ show_int delta @ '')''"

definition step_scroll :: "'p page_fun \<Rightarrow> executor \<Rightarrow> blueprint_step \<Rightarrow> 'p exec \<Rightarrow> step_exc option \<times> 'p exec" where
  "step_scroll pg xe st s =
     (case given (bs_selector st) of
        Some selector \<Rightarrow> perform pg (ScrollIntoView selector) s
      | None \<Rightarrow>
          (let px = or_int (bs_pixels st) 0
           in if px \<noteq> 0
              then perform pg (EvaluateJs (scroll_script (if or_str (bs_direction st) ''down'' = ''down'' then px else - px))) s
              else perform pg (EvaluateJs ''window.scrollBy(0, 500)'') s))"

definition step_select :: "'p page_fun \<Rightarrow> executor \<Rightarrow> blueprint_step \<Rightarrow> 'p exec \<Rightarrow> step_exc option \<times> 'p exec" where
  "step_select pg xe st s =
     (case (given (bs_selector st), given (interpolate_opt (xe_variables xe) (bs_value st))) of
        (Some selector, Some value) \<Rightarrow> perform pg (SelectOption selector value) s
      | _ \<Rightarrow> config_error ''unknown'' ''select step requires 'selector' and 'value'.'' s)"

definition step_iframe :: "'p page_fun \<Rightarrow> executor \<Rightarrow> blueprint_step \<Rightarrow> 'p exec \<Rightarrow> step_exc option \<times> 'p exec" where
  "step_iframe pg xe st s =
     (case given (case given (bs_iframe_selector st) of Some f \<Rightarrow> Some f | None \<Rightarrow> bs_selector st) of
        None \<Rightarrow> config_error ''unknown'' ''iframe step requires 'iframe_selector' or 'selector'.'' s
      | Some selector \<Rightarrow> perform pg (FrameLocator selector) s)"

definition step_wait_for_navigation :: "'p page_fun \<Rightarrow> executor \<Rightarrow> blueprint_step \<Rightarrow> 'p exec \<Rightarrow> step_exc option \<times> 'p exec" where
  "step_wait_for_navigation pg xe st s = perform pg (LoadState (or_int (bs_timeout st) 30000)) s"

definition step_execute_js :: "'p page_fun \<Rightarrow> executor \<Rightarrow> blueprint_step \<Rightarrow> 'p exec \<Rightarrow> step_exc option \<times> 'p exec" where
  "step_execute_js pg xe st s =
     (if \<not> xe_allow_js xe
      then config_error (xe_site xe) (''execute_js steps are not allowed for this blueprint. '' @
        ''Only certified or tested blueprints may use JavaScript execution.'') s
      else case given (bs_script st) of
             None \<Rightarrow> config_error (xe_site xe) ''execute_js step requires a 'script' field.'' s
           | Some script \<Rightarrow> perform pg (EvaluateJs script) s)"

section \<open>Running steps\<close>

definition simple_step :: "'p page_fun \<Rightarrow> executor \<Rightarrow> blueprint_step \<Rightarrow> 'p exec \<Rightarrow> step_exc option \<times> 'p exec" where
  "simple_step pg xe st =
     (case bs_action st of
        GOTO \<Rightarrow> step_goto pg xe st
      | FILL \<Rightarrow> step_fill pg xe st
      | CLICK \<Rightarrow> step_click pg xe st
      | WAIT \<Rightarrow> step_wait pg xe st
      | SCREENSHOT \<Rightarrow> step_screenshot pg xe st
      | SCROLL \<Rightarrow> step_scroll pg xe st
      | SELECT \<Rightarrow> step_select pg xe st
      | IFRAME \<Rightarrow> step_iframe pg xe st
      | WAIT_FOR_NAVIGATION \<Rightarrow> step_wait_for_navigation pg xe st
      | EXECUTE_JS \<Rightarrow> step_execute_js pg xe st
      | _ \<Rightarrow> config_error ''unknown'' (''Unknown step action: '' @ action_value (bs_action st)))"

text \<open>What \<open>execute_steps\<close> makes of the exception of a step.\<close>

fun exc_detail :: "step_exc \<Rightarrow> string" where
  "exc_detail (XTimeout t) = t"
| "exc_detail (XErr e) = err_message e"
| "exc_detail (XOther t) = t"
| "exc_detail XCancelled = ''''"

definition step_text :: "step_action \<Rightarrow> string \<Rightarrow> string" where
  "step_text a what = ''Step '' @ CHR 0x27 # action_value a @ CHR 0x27 # what"

fun wrap_exc :: "step_action \<Rightarrow> step_exc \<Rightarrow> step_exc" where
  "wrap_exc a (XTimeout t) = XErr (ConnectionFailedError ''unknown'' (step_text a ('' timed out: '' @ t)))"
| "wrap_exc a XCancelled = XCancelled"
| "wrap_exc a (XErr (ConnectionFailedError site d)) = XErr (ConnectionFailedError site d)"
| "wrap_exc a (XErr (AuthenticationError site)) = XErr (AuthenticationError site)"
| "wrap_exc a (XErr (ReadOnlyPolicyViolationError d m)) = XErr (ReadOnlyPolicyViolationError d m)"
| "wrap_exc a (XErr (SiteUnavailableError site d)) = XErr (SiteUnavailableError site d)"
| "wrap_exc a e = XErr (ConnectionFailedError ''unknown'' (step_text a ('' failed: '' @ exc_detail e)))"

lemma size_nested:
  "size_list size (bs_then_steps st) < size st" "size_list size (bs_else_steps st) < size st"
  by (cases st; simp)+

function execute_steps :: "'p page_fun \<Rightarrow> executor \<Rightarrow> blueprint_step list \<Rightarrow> 'p exec \<Rightarrow> step_exc option \<times> 'p exec"
  and execute_step :: "'p page_fun \<Rightarrow> executor \<Rightarrow> blueprint_step \<Rightarrow> 'p exec \<Rightarrow> step_exc option \<times> 'p exec" where
  "execute_steps pg xe [] s = (None, s)"
| "execute_steps pg xe (st # sts) s =
     (case execute_step pg xe st s of
        (Some e, s') \<Rightarrow> (Some (wrap_exc (bs_action st) e), s')
      | (None, s') \<Rightarrow> execute_steps pg xe sts s')"
| "execute_step pg xe st s =
     (case enforce_step_policy st s of
        (Some e, s') \<Rightarrow> (Some e, s')
      | (None, s') \<Rightarrow>
          if bs_action st = CONDITIONAL then
            (case given (bs_condition_selector st) of
               None \<Rightarrow> config_error ''unknown'' ''conditional step requires 'condition_selector'.'' s'
             | Some selector \<Rightarrow>
                 (case andthen (perform pg (WaitVisible selector (or_int (bs_timeout st) 3000)) s')
                         (execute_steps pg xe (bs_then_steps st)) of
                    (Some (XTimeout t), s'') \<Rightarrow> execute_steps pg xe (bs_else_steps st) s''
                  | r \<Rightarrow> r))
          else simple_step pg xe st s')"
  by pat_completeness auto
termination
  by (relation "measure (case_sum (\<lambda>(pg, xe, sts, s). size_list size sts) (\<lambda>(pg, xe, st, s). size st))")
    (auto simp: size_nested)

declare execute_step.simps [simp del]

section \<open>What a run can do to the site\<close>

text \<open>Commands that enter nothing: no text, no selection, and only the scroll scripts of the interpreter.\<close>

fun harmless :: "page_cmd \<Rightarrow> bool" where
  "harmless (FillIn sel v) = False"
| "harmless (SelectOption sel v) = False"
| "harmless (EvaluateJs script) = starts_with ''window.scrollBy(0, '' script"
| "harmless _ = True"

definition locked :: "read_only_policy \<Rightarrow> bool" where
  "locked p \<longleftrightarrow> rp_enabled p \<and> (rp_phase p = PhaseRead \<or> rp_phase p = PhaseCleanup)"

definition same_policy :: "read_only_policy option \<Rightarrow> read_only_policy option \<Rightarrow> bool" where
  "same_policy p q \<longleftrightarrow>
     (case (p, q) of
        (None, None) \<Rightarrow> True
      | (Some a, Some b) \<Rightarrow> rp_enabled a = rp_enabled b \<and> rp_phase a = rp_phase b \<and> (\<exists>more. rp_blocked b = rp_blocked a @ more)
      | _ \<Rightarrow> False)"

definition quiet :: "'p exec \<Rightarrow> 'p exec \<Rightarrow> bool" where
  "quiet s s' \<longleftrightarrow> (\<exists>new. ex_log s' = ex_log s @ new \<and> list_all harmless new) \<and> same_policy (ex_policy s) (ex_policy s')"

named_theorems quiet_intros \<open>operations that only send harmless commands\<close>

lemma same_policy_refl [simp]: "same_policy p p"
  by (simp add: same_policy_def split: option.split)

lemma same_policy_trans: "same_policy p q \<Longrightarrow> same_policy q r \<Longrightarrow> same_policy p r"
  unfolding same_policy_def by (auto split: option.splits)

lemma same_policy_record [simp]: "same_policy (Some p) (Some (record_blocked a reason t p))"
  by (simp add: same_policy_def record_blocked_def)

lemma quiet_refl [simp]: "quiet s s"
  by (simp add: quiet_def)

lemma quiet_trans: "quiet s t \<Longrightarrow> quiet t u \<Longrightarrow> quiet s u"
  unfolding quiet_def by (fastforce intro: same_policy_trans)

lemma quiet_record [quiet_intros]: "ex_policy s = Some p \<Longrightarrow> quiet s (s\<lparr>ex_policy := Some (record_blocked a reason t p)\<rparr>)"
  by (simp add: quiet_def)

lemma quiet_send [quiet_intros]: "harmless cmd \<Longrightarrow> quiet s (snd (send pg cmd s))"
  by (simp add: quiet_def send_def split: prod.split)

lemma quiet_perform [quiet_intros]: "harmless cmd \<Longrightarrow> quiet s (snd (perform pg cmd s))"
  using quiet_send [of cmd s pg] by (cases "send pg cmd s") (simp add: perform_def)

lemma quiet_andthen [quiet_intros]:
  "quiet s (snd m) \<Longrightarrow> (\<And>t. snd m = t \<Longrightarrow> quiet t (snd (k t))) \<Longrightarrow> quiet s (snd (andthen m k))"
  by (cases m; cases "fst m") (auto simp: andthen_def intro: quiet_trans)

lemma quiet_config_error [quiet_intros]: "quiet s (snd (config_error site d s))"
  by (simp add: config_error_def)

lemma describe_cases:
  "quiet s (snd (describe_click_target pg selector s))"
  using quiet_send [of "DescribeTarget selector" s pg]
  by (auto simp: describe_click_target_def split: prod.splits page_result.splits json.splits)

lemma quiet_guard_click [quiet_intros]: "quiet s (snd (guard_click pg xe selector s))"
proof -
  obtain r t where d: "describe_click_target pg selector s = (r, t)" by fastforce
  have q: "quiet s t" using describe_cases [of s pg selector] d by simp
  show ?thesis
    by (auto simp: guard_click_def d q split: sum.split option.split intro: quiet_trans [OF q] quiet_record)
qed

lemma scroll_harmless: "harmless (EvaluateJs (scroll_script d))"
  by (simp add: scroll_script_def)

lemma quiet_simple_step:
  assumes "bs_action st \<notin> {FILL, SELECT, EXECUTE_JS}"
  shows "quiet s (snd (simple_step pg xe st s))"
proof (cases "bs_action st")
  case GOTO
  have "quiet s (snd (step_goto pg xe st s))"
  proof (cases "given (interpolate_opt (xe_variables xe) (bs_url st))")
    case None
    then show ?thesis by (simp add: step_goto_def quiet_config_error)
  next
    case (Some url)
    obtain r t where r: "send pg (Goto url (or_int (bs_timeout st) 30000)) s = (r, t)" by fastforce
    with quiet_send [of "Goto url (or_int (bs_timeout st) 30000)" s pg] have "quiet s t" by simp
    then show ?thesis by (simp add: step_goto_def Some r split: page_result.split json.split)
  qed
  then show ?thesis using GOTO by (simp add: simple_step_def)
next
  case CLICK
  then show ?thesis
    by (auto simp: simple_step_def step_click_def split: option.split intro!: quiet_intros)
next
  case SCROLL
  then show ?thesis
    by (auto simp: simple_step_def step_scroll_def Let_def split: option.split intro!: quiet_intros scroll_harmless)
qed (use assms in \<open>auto simp: simple_step_def step_wait_def step_screenshot_def step_iframe_def step_wait_for_navigation_def
  split: option.split intro!: quiet_intros\<close>)

lemma quiet_enforce: "quiet s (snd (enforce_step_policy st s))"
  by (auto simp: enforce_step_policy_def split: option.split intro: quiet_record)

lemma enforce_locked:
  assumes "ex_policy s = Some p" "locked p" "enforce_step_policy st s = (None, s')"
  shows "s' = s \<and> bs_action st \<notin> {FILL, SELECT, EXECUTE_JS}"
  using assms by (auto simp: enforce_step_policy_def locked_def evaluate_step_def split: option.splits if_splits)

lemma quiet_locked: "quiet s t \<Longrightarrow> \<exists>p. ex_policy s = Some p \<and> locked p \<Longrightarrow> \<exists>p. ex_policy t = Some p \<and> locked p"
  by (auto simp: quiet_def same_policy_def locked_def split: option.splits)

text \<open>Induction over the nesting of steps.\<close>

lemma measure_steps_induct [case_names nil cons step]:
  assumes "P []" "\<And>st sts. Q st \<Longrightarrow> P sts \<Longrightarrow> P (st # sts)"
    and "\<And>st. P (bs_then_steps st) \<Longrightarrow> P (bs_else_steps st) \<Longrightarrow> Q st"
  shows "P sts" "Q st"
proof -
  have "(size_list size sts < n \<longrightarrow> P sts) \<and> (size st < n \<longrightarrow> Q st)" for n sts st
  proof (induction n arbitrary: sts st)
    case (Suc n)
    have q: "Q st" if "size st < Suc n" for st
      using that size_nested [of st] Suc assms(3) by (meson less_SucE less_trans_Suc not_less_eq order.strict_trans)
    have "P sts" if "size_list size sts < Suc n" for sts
      using that
    proof (induction sts)
      case (Cons a sts)
      then have "P sts" "size a < Suc n" by auto
      with q assms(2) show ?case by blast
    qed (rule assms(1))
    with q show ?case by blast
  qed simp
  then show "P sts" "Q st" by blast+
qed

lemma enforce_none: "enforce_step_policy st s = (None, s') \<Longrightarrow> s' = s"
  by (auto simp: enforce_step_policy_def split: option.splits)

text \<open>What every step keeps, a run keeps, however its conditionals nest: \<open>R\<close> relates the states around a step as
  long as \<open>ok\<close> holds.\<close>

locale step_invariant =
  fixes ok :: "'p exec \<Rightarrow> bool" and R :: "'p exec \<Rightarrow> 'p exec \<Rightarrow> bool" and pg :: "'p page_fun" and xe :: executor
  assumes R_refl: "R s s"
    and R_trans: "R s t \<Longrightarrow> R t u \<Longrightarrow> R s u"
    and R_ok: "ok s \<Longrightarrow> R s t \<Longrightarrow> ok t"
    and enforce_R: "ok s \<Longrightarrow> R s (snd (enforce_step_policy st s))"
    and wait_R: "ok s \<Longrightarrow> R s (snd (perform pg (WaitVisible sel n) s))"
    and simple_R: "ok s \<Longrightarrow> enforce_step_policy st s = (None, s) \<Longrightarrow> R s (snd (simple_step pg xe st s))"
begin

lemma conditional_R:
  assumes "ok s" "\<And>u. ok u \<Longrightarrow> R u (snd (execute_steps pg xe (bs_then_steps st) u))"
    and "\<And>u. ok u \<Longrightarrow> R u (snd (execute_steps pg xe (bs_else_steps st) u))"
  shows "R s (snd (case andthen (perform pg (WaitVisible sel n) s) (execute_steps pg xe (bs_then_steps st)) of
      (Some (XTimeout t), s') \<Rightarrow> execute_steps pg xe (bs_else_steps st) s' | r \<Rightarrow> r))"
proof -
  obtain w t where w: "perform pg (WaitVisible sel n) s = (w, t)" by fastforce
  have t: "R s t" "ok t" using wait_R [OF assms(1), of sel n] w R_ok assms(1) by auto
  obtain x u where x: "andthen (perform pg (WaitVisible sel n) s) (execute_steps pg xe (bs_then_steps st)) = (x, u)" by fastforce
  have u: "R s u"
    using t assms(2) [OF t(2)] x w by (cases w) (auto simp: andthen_def intro: R_trans)
  have "R u (snd (execute_steps pg xe (bs_else_steps st) u))" using assms(3) R_ok [OF assms(1) u] by blast
  with u show ?thesis by (auto simp: x split: option.split step_exc.split intro: R_trans)
qed

lemma steps_R: "ok s \<Longrightarrow> R s (snd (execute_steps pg xe sts s))"
  and step_R: "ok s \<Longrightarrow> R s (snd (execute_step pg xe st s))"
proof (induction sts and st arbitrary: s and s rule: measure_steps_induct)
  case (nil s)
  then show ?case by (simp add: R_refl)
next
  case (cons st sts s)
  obtain r t where e: "execute_step pg xe st s = (r, t)" by fastforce
  have "R s t" using cons(1) [OF cons(3)] e by simp
  then show ?case using e cons(2) [of t] R_ok [OF cons(3)] by (cases r) (auto intro: R_trans)
next
  case (step st s)
  show ?case
  proof (cases "fst (enforce_step_policy st s)")
    case (Some x)
    then show ?thesis using enforce_R [OF step(3), of st] by (auto simp: execute_step.simps split: prod.splits)
  next
    case None
    then have e: "enforce_step_policy st s = (None, s)" using enforce_none by (metis prod.collapse)
    show ?thesis
      using conditional_R [OF step(3) step(1) step(2)] simple_R [OF step(3) e]
      by (simp add: execute_step.simps e config_error_def R_refl split: option.split)
  qed
qed

end

interpretation quiet_run: step_invariant "\<lambda>s. \<exists>p. ex_policy s = Some p \<and> locked p" quiet pg xe for pg xe
proof
  fix s :: "'a exec" and st
  assume "\<exists>p. ex_policy s = Some p \<and> locked p" "enforce_step_policy st s = (None, s)"
  then show "quiet s (snd (simple_step pg xe st s))" using enforce_locked quiet_simple_step by blast
qed (auto intro: quiet_trans quiet_enforce quiet_perform dest: quiet_locked)


definition click_step :: blueprint_step where
  "click_step = BlueprintStep CLICK None (Some ''#next'') None None False None None None [] [] None None None"

definition fill_step :: blueprint_step where
  "fill_step = BlueprintStep FILL None (Some ''#amount'') (Some ''9'') None False None None None [] [] None None None"

definition sample_exec :: "unit exec" where
  "sample_exec = \<lparr>ex_page = (), ex_log = [], ex_policy = Some \<lparr>rp_enabled = True, rp_phase = PhaseCleanup, rp_blocked = []\<rparr>\<rparr>"


section \<open>Exceptions of a run\<close>

fun step_error :: "step_exc \<Rightarrow> bool" where
  "step_error XCancelled = True"
| "step_error (XErr (ConnectionFailedError site d)) = True"
| "step_error (XErr (AuthenticationError site)) = True"
| "step_error (XErr (ReadOnlyPolicyViolationError d m)) = True"
| "step_error (XErr (SiteUnavailableError site d)) = True"
| "step_error _ = False"

lemma wrap_exc_error: "step_error (wrap_exc a e)"
proof (cases e)
  case (XErr x)
  then show ?thesis by (cases x) simp_all
qed simp_all

lemma execute_steps_error: "fst (execute_steps pg xe sts s) = Some e \<Longrightarrow> step_error e"
proof (induction sts arbitrary: s)
  case (Cons st sts)
  then show ?case by (auto split: prod.splits option.splits simp: wrap_exc_error)
qed simp

text \<open>A run raises nothing but the four errors its callers handle, or a cancellation: Playwright's timeouts and every
  foreign exception are turned into a connection error. In particular a step that times out inside the
  \<open>then\<close> branch is never taken for a condition that is not met: the \<open>else\<close> branch runs exactly when the wait
  for the condition itself timed out.\<close>

theorem step_exceptions_are_classified:
  assumes "bs_action st = CONDITIONAL" and "given (bs_condition_selector st) = Some selector"
    and "perform pg (WaitVisible selector (or_int (bs_timeout st) 3000)) s = (r, s')"
  shows "(\<forall>e. fst (execute_steps pg xe sts s) = Some e \<longrightarrow> step_error e) \<and>
    execute_step pg xe st s =
      (case r of
         None \<Rightarrow> execute_steps pg xe (bs_then_steps st) s'
       | Some (XTimeout t) \<Rightarrow> execute_steps pg xe (bs_else_steps st) s'
       | Some e \<Rightarrow> (Some e, s'))"
proof -
  have "enforce_step_policy st s = (None, s)"
    using assms(1) by (simp add: enforce_step_policy_def evaluate_step_def split: option.split)
  moreover have "fst (execute_steps pg xe (bs_then_steps st) s') \<noteq> Some (XTimeout t)" for t
    using execute_steps_error [of pg xe "bs_then_steps st" s' "XTimeout t"] by auto
  moreover obtain x u where "execute_steps pg xe (bs_then_steps st) s' = (x, u)" by fastforce
  ultimately show ?thesis
    using assms execute_steps_error
    by (auto simp: execute_step.simps andthen_def split: option.split step_exc.split)
qed

theorem step_exceptions_are_classified_witness:
  "execute_step (\<lambda>c u. (case c of WaitVisible _ _ \<Rightarrow> PgTimeout ''3s'' | _ \<Rightarrow> PgOk JNull, u))
     \<lparr>xe_variables = [], xe_allow_js = True, xe_site = ''s'', xe_str = (\<lambda>_. '''')\<rparr>
     (BlueprintStep CONDITIONAL None None None None False None None (Some ''#popup'') [click_step] [] None None None) sample_exec =
   (None, sample_exec\<lparr>ex_log := [WaitVisible ''#popup'' 3000]\<rparr>)"
proof -
  let ?pg = "\<lambda>c (u :: unit). (case c of WaitVisible _ _ \<Rightarrow> PgTimeout ''3s'' | _ \<Rightarrow> PgOk JNull, u)"
  let ?st = "BlueprintStep CONDITIONAL None None None None False None None (Some ''#popup'') [click_step] [] None None None"
  have "given (bs_condition_selector ?st) = Some ''#popup''" by (simp add: given_def)
  from conjunct2 [OF step_exceptions_are_classified [OF _ this, of ?pg sample_exec "Some (XTimeout ''3s'')"
      "sample_exec\<lparr>ex_log := [WaitVisible ''#popup'' 3000]\<rparr>" "\<lparr>xe_variables = [], xe_allow_js = True, xe_site = ''s'', xe_str = (\<lambda>_. '''')\<rparr>" "[]"]]
  show ?thesis by (simp add: perform_def send_def sample_exec_def or_int_def)
qed

section \<open>Interpolated values\<close>

lemma interpolate_literal:
  "CHR ''{'' \<notin> set t \<Longrightarrow> interpolate vars (t @ r) = t @ interpolate vars r"
proof (induction t)
  case (Cons c t)
  then have "placeholder ((c # t) @ r) = None" by (simp add: placeholder_def)
  with Cons show ?case by simp
qed simp

lemma placeholder_at:
  assumes "key \<noteq> []" "\<forall>c \<in> set key. is_word c"
  shows "placeholder (''{{'' @ key @ ''}}'' @ rest) = Some (key, rest)"
proof -
  have b: "\<not> is_word (CHR ''}'')" by (simp add: is_word_def)
  have "takeWhile is_word (key @ ''}}'' @ rest) = key" "dropWhile is_word (key @ ''}}'' @ rest) = ''}}'' @ rest"
    using assms(2) b by (induction key) simp_all
  with assms(1) show ?thesis by (simp add: placeholder_def)
qed

text \<open>A placeholder is replaced by the value of its variable and the value is taken literally: a password that
  itself looks like a placeholder is typed as it is. An unknown variable stays as written.\<close>

theorem interpolation_is_single_pass:
  assumes "CHR ''{'' \<notin> set text" and "key \<noteq> []" and "\<forall>c \<in> set key. is_word c"
  shows "interpolate vars (text @ ''{{'' @ key @ ''}}'' @ rest) =
    text @ (case map_of vars key of Some v \<Rightarrow> v | None \<Rightarrow> ''{{'' @ key @ ''}}'') @ interpolate vars rest"
proof -
  have "interpolate vars (''{{'' @ key @ ''}}'' @ rest) =
      (case map_of vars key of Some v \<Rightarrow> v | None \<Rightarrow> ''{{'' @ key @ ''}}'') @ interpolate vars rest"
    using placeholder_at [OF assms(2,3), of rest] interpolate.simps(2) [of vars "CHR ''{''" "''{'' @ key @ ''}}'' @ rest"]
    by simp
  then show ?thesis using interpolate_literal [OF assms(1)] by simp
qed

theorem interpolation_is_single_pass_witness:
  "interpolate [(''username'', ''{{password}}''), (''password'', ''secret'')] ''u={{username}}'' = ''u={{password}}''"
  using interpolation_is_single_pass [of "''u=''" "''username''" "[(''username'', ''{{password}}''), (''password'', ''secret'')]" "''''"]
  by (simp add: is_word_def)

section \<open>The click guard outside the read phase\<close>

definition not_reading :: "'p exec \<Rightarrow> bool" where
  "not_reading s \<longleftrightarrow> (\<forall>p. ex_policy s = Some p \<longrightarrow> rp_phase p \<noteq> PhaseRead)"

definition no_click :: "'p exec \<Rightarrow> bool" where
  "no_click s \<longleftrightarrow> (\<forall>p. ex_policy s = Some p \<longrightarrow> (\<forall>b \<in> set (rp_blocked p). ba_action b \<noteq> ''click''))"

definition clicks_free :: "'p exec \<Rightarrow> 'p exec \<Rightarrow> bool" where
  "clicks_free s t \<longleftrightarrow> map_option rp_phase (ex_policy s) = map_option rp_phase (ex_policy t) \<and> (no_click s \<longrightarrow> no_click t)"

lemma policy_send [simp]: "ex_policy (snd (send pg cmd s)) = ex_policy s"
  by (simp add: send_def split: prod.split)

lemma policy_perform [simp]: "ex_policy (snd (perform pg cmd s)) = ex_policy s"
  by (cases "send pg cmd s") (use policy_send [of pg cmd s] in \<open>simp add: perform_def\<close>)

lemma policy_andthen:
  "(\<And>t. ex_policy t = ex_policy (snd m) \<Longrightarrow> ex_policy (snd (k t)) = ex_policy t) \<Longrightarrow> ex_policy (snd (andthen m k)) = ex_policy (snd m)"
  by (cases m; cases "fst m") (auto simp: andthen_def)

lemma policy_describe [simp]: "ex_policy (snd (describe_click_target pg sel s)) = ex_policy s"
proof -
  obtain r t where r: "send pg (DescribeTarget sel) s = (r, t)" by fastforce
  with policy_send [of pg "DescribeTarget sel" s] have "ex_policy t = ex_policy s" by simp
  then show ?thesis by (simp add: describe_click_target_def r split: page_result.split json.split)
qed

lemma policy_guard_click:
  assumes "not_reading s"
  shows "ex_policy (snd (guard_click pg xe sel s)) = ex_policy s"
proof -
  obtain r t where d: "describe_click_target pg sel s = (r, t)" by fastforce
  have "ex_policy t = ex_policy s" using policy_describe [of pg sel s] d by simp
  then show ?thesis
    using assms by (auto simp: guard_click_def d not_reading_def evaluate_click_def split: sum.split option.split)
qed

lemma policy_simple_step:
  fixes s :: "'p exec"
  assumes "not_reading s"
  shows "ex_policy (snd (simple_step pg xe st s)) = ex_policy s"
proof (cases "bs_action st")
  case GOTO
  have "ex_policy (snd (step_goto pg xe st s)) = ex_policy s"
  proof (cases "given (interpolate_opt (xe_variables xe) (bs_url st))")
    case (Some url)
    obtain r t where r: "send pg (Goto url (or_int (bs_timeout st) 30000)) s = (r, t)" by fastforce
    with policy_send [of pg "Goto url (or_int (bs_timeout st) 30000)" s] have "ex_policy t = ex_policy s" by simp
    then show ?thesis by (simp add: step_goto_def Some r split: page_result.split json.split)
  qed (simp add: step_goto_def config_error_def)
  then show ?thesis using GOTO by (simp add: simple_step_def)
next
  case CLICK
  have "ex_policy (snd (step_click pg xe st s)) = ex_policy s"
  proof (cases "given (bs_selector st)")
    case (Some sel)
    let ?w = "perform pg (WaitVisible sel (or_int (bs_timeout st) 10000)) s"
    let ?c = "perform pg (if bs_wait_for_navigation st then ClickNavigate sel (or_int (bs_timeout st) 30000) else ClickOn sel)"
    have "ex_policy (snd (andthen ?w (\<lambda>s. andthen (guard_click pg xe sel s) ?c))) = ex_policy (snd ?w)"
    proof (rule policy_andthen)
      fix t :: "'p exec" assume "ex_policy t = ex_policy (snd ?w)"
      then have "not_reading t" using assms by (simp add: not_reading_def)
      then have "ex_policy (snd (guard_click pg xe sel t)) = ex_policy t" by (rule policy_guard_click)
      then show "ex_policy (snd (andthen (guard_click pg xe sel t) ?c)) = ex_policy t"
        using policy_andthen [of "guard_click pg xe sel t" ?c] by simp
    qed
    then show ?thesis by (simp add: step_click_def Some)
  qed (simp add: step_click_def config_error_def)
  then show ?thesis using CLICK by (simp add: simple_step_def)
qed (simp_all add: simple_step_def step_fill_def step_wait_def step_screenshot_def step_scroll_def step_select_def step_iframe_def
  step_wait_for_navigation_def step_execute_js_def config_error_def policy_andthen Let_def split: option.split)

interpretation unread_run: step_invariant not_reading clicks_free pg xe for pg xe
proof
  fix s :: "'a exec" and st
  show "clicks_free s s" by (simp add: clicks_free_def)
  show "clicks_free s t \<Longrightarrow> clicks_free t u \<Longrightarrow> clicks_free s u" for t u by (simp add: clicks_free_def)
  show "not_reading s \<Longrightarrow> clicks_free s t \<Longrightarrow> not_reading t" for t
    by (cases "ex_policy s"; cases "ex_policy t") (auto simp: clicks_free_def not_reading_def)
  show "not_reading s \<Longrightarrow> clicks_free s (snd (perform pg (WaitVisible sel n) s))" for sel n
    by (simp add: clicks_free_def no_click_def)
  show "not_reading s \<Longrightarrow> clicks_free s (snd (simple_step pg xe st s))"
    by (simp add: clicks_free_def no_click_def policy_simple_step)
  show "clicks_free s (snd (enforce_step_policy st s))"
    by (auto simp: enforce_step_policy_def evaluate_step_def clicks_free_def no_click_def record_blocked_def
      split: option.split if_splits)
qed

section \<open>A run keeps its policy\<close>

text \<open>In any phase: the policy object stays, its phase and switch stay, blocked actions are only added.\<close>

definition keeps_policy :: "'p exec \<Rightarrow> 'p exec \<Rightarrow> bool" where
  "keeps_policy s t \<longleftrightarrow> same_policy (ex_policy s) (ex_policy t)"

lemma keeps_refl [simp]: "keeps_policy s s"
  by (simp add: keeps_policy_def)

lemma keeps_trans: "keeps_policy s t \<Longrightarrow> keeps_policy t u \<Longrightarrow> keeps_policy s u"
  by (auto simp: keeps_policy_def intro: same_policy_trans)

lemma keeps_perform [simp]: "keeps_policy s (snd (perform pg cmd s))" "keeps_policy s (snd (send pg cmd s))"
  by (simp_all add: keeps_policy_def)

lemma keeps_andthen:
  "keeps_policy s (snd m) \<Longrightarrow> (\<And>t. keeps_policy t (snd (k t))) \<Longrightarrow> keeps_policy s (snd (andthen m k))"
  by (cases m; cases "fst m") (auto simp: andthen_def intro: keeps_trans)

lemma keeps_guard_click: "keeps_policy s (snd (guard_click pg xe sel s))"
  using quiet_guard_click [of s pg xe sel] by (simp add: keeps_policy_def quiet_def)

lemma keeps_goto: "keeps_policy s (snd (step_goto pg xe st s))"
proof (cases "given (interpolate_opt (xe_variables xe) (bs_url st))")
  case (Some url)
  obtain r t where r: "send pg (Goto url (or_int (bs_timeout st) 30000)) s = (r, t)" by fastforce
  with keeps_perform(2) [of s pg "Goto url (or_int (bs_timeout st) 30000)"] have "keeps_policy s t" by simp
  then show ?thesis by (simp add: step_goto_def Some r split: page_result.split json.split)
qed (simp add: step_goto_def config_error_def)

lemma keeps_simple_step: "keeps_policy s (snd (simple_step pg xe st s))"
  by (cases "bs_action st")
    (auto simp: simple_step_def step_fill_def step_click_def step_wait_def step_screenshot_def step_scroll_def step_select_def
      step_iframe_def step_wait_for_navigation_def step_execute_js_def config_error_def Let_def keeps_goto
      split: option.split intro!: keeps_andthen keeps_guard_click)

interpretation policy_run: step_invariant "\<lambda>_. True" keeps_policy pg xe for pg xe
proof
  fix s :: "'a exec" and st
  show "keeps_policy s (snd (enforce_step_policy st s))"
    using quiet_enforce [of s st] by (simp add: keeps_policy_def quiet_def)
qed (auto simp: keeps_simple_step intro: keeps_trans)

end
