(* ===== verification/Py_Text.thy ===== *)
theory Py_Text imports Plaidify_Prelude begin

text \<open>
  The string functions of the Python standard library that the request handlers use, on ASCII texts: \<^verbatim>\<open>int(s)\<close>,
  \<^verbatim>\<open>str(v)\<close> of a JSON value, \<^verbatim>\<open>s.split(c)\<close>, \<^verbatim>\<open>s.split(c, 1)\<close> and the scheme and authority of \<^verbatim>\<open>urlparse\<close>.
\<close>

section \<open>Splitting\<close>

fun split_on :: "char \<Rightarrow> string \<Rightarrow> string list" where
  "split_on c [] = [[]]"
| "split_on c (x # xs) = (if x = c then [] # split_on c xs else (case split_on c xs of [] \<Rightarrow> [[x]] | y # ys \<Rightarrow> (x # y) # ys))"

text \<open>\<open>s.split(c, 1)[1]\<close> for a \<open>c\<close> that occurs in \<open>s\<close>.\<close>

definition after_first :: "char \<Rightarrow> string \<Rightarrow> string" where
  "after_first c s = tl (dropWhile (\<lambda>x. x \<noteq> c) s)"

definition before_first :: "char \<Rightarrow> string \<Rightarrow> string" where
  "before_first c s = takeWhile (\<lambda>x. x \<noteq> c) s"

lemma split_on_not_Nil [simp]: "split_on c s \<noteq> []"
  by (induction s) (auto split: list.splits)

lemma join_split_on: "join c (split_on c s) = s"
proof (induction s)
  case (Cons x xs)
  then show ?case by (cases "split_on c xs"; cases "tl (split_on c xs)") (auto split: list.splits)
qed simp

section \<open>Numbers\<close>

definition is_digit :: "char \<Rightarrow> bool" where
  "is_digit c \<longleftrightarrow> (let n = (of_char c :: nat) in 48 \<le> n \<and> n \<le> 57)"

text \<open>Digits with single underscores between them.\<close>

fun digits_ok :: "string \<Rightarrow> bool" where
  "digits_ok [] = False"
| "digits_ok [c] = is_digit c"
| "digits_ok (c # d # s) = (is_digit c \<and> (if d = CHR ''_'' then digits_ok s else digits_ok (d # s)))"

definition py_int :: "string \<Rightarrow> int option" where
  "py_int s =
     (let t = py_strip s; neg = (case t of c # _ \<Rightarrow> c = CHR ''-'' | [] \<Rightarrow> False);
          d = (case t of c # r \<Rightarrow> if c = CHR ''-'' \<or> c = CHR ''+'' then r else t | [] \<Rightarrow> t)
      in if digits_ok d
         then Some ((if neg then -1 else 1) * int (read_nat (filter (\<lambda>c. c \<noteq> CHR ''_'') d)))
         else None)"

text \<open>\<open>rep\<close>: \<^verbatim>\<open>repr\<close> of a float or a container, which no theorem depends on.\<close>

fun py_str :: "(json \<Rightarrow> string) \<Rightarrow> json \<Rightarrow> string" where
  "py_str rep (JStr s) = s"
| "py_str rep (JInt i) = show_int i"
| "py_str rep (JBool b) = (if b then ''True'' else ''False'')"
| "py_str rep JNull = ''None''"
| "py_str rep v = rep v"

text \<open>\<open>int(v)\<close>; \<open>None\<close> is a \<^verbatim>\<open>TypeError\<close> or \<^verbatim>\<open>ValueError\<close>.\<close>

fun json_int :: "json \<Rightarrow> int option" where
  "json_int (JInt i) = Some i"
| "json_int (JBool b) = Some (if b then 1 else 0)"
| "json_int (JStr s) = py_int s"
| "json_int (JNum r) = Some (if r < 0 then - \<lfloor>- r\<rfloor> else \<lfloor>r\<rfloor>)"
| "json_int _ = None"

text \<open>\<open>for x in v\<close>; \<open>None\<close> is a \<^verbatim>\<open>TypeError\<close>.\<close>

fun json_iter :: "json \<Rightarrow> json list option" where
  "json_iter (JList xs) = Some xs"
| "json_iter (JStr s) = Some (map (\<lambda>c. JStr [c]) s)"
| "json_iter (JObj d) = Some (map (\<lambda>(k, _). JStr k) d)"
| "json_iter _ = None"

lemma digits_ok_show_nat_aux: "s \<noteq> [] \<Longrightarrow> \<forall>c \<in> set s. is_digit c \<Longrightarrow> digits_ok s"
proof (induction s rule: digits_ok.induct)
  case (3 c d s)
  then show ?case by (auto simp: is_digit_def Let_def)
qed auto

lemma show_nat_is_digit: "c \<in> set (show_nat n) \<Longrightarrow> is_digit c"
  using show_nat_digits [of n] by (auto simp: is_digit_def Let_def)

lemma is_digit_plain: "is_digit c \<Longrightarrow> \<not> is_space c \<and> c \<noteq> CHR ''_'' \<and> c \<noteq> CHR ''-'' \<and> c \<noteq> CHR ''+''"
  by (auto simp: is_digit_def is_space_def Let_def)

lemma rstrip_of_none: "s \<noteq> [] \<Longrightarrow> \<not> P (last s) \<Longrightarrow> rstrip_of P s = s"
  by (cases s rule: rev_cases) (auto simp: rstrip_of_def)

text \<open>\<open>int(str(n)) = n\<close> for a number of the database.\<close>

lemma py_int_show_nat [simp]: "py_int (show_nat n) = Some (int n)"
proof -
  obtain a r where s: "show_nat n = a # r" by (cases "show_nat n") auto
  have digit: "\<And>c. c \<in> set (show_nat n) \<Longrightarrow> is_digit c" by (rule show_nat_is_digit)
  then have a: "\<not> is_space a" "a \<noteq> CHR ''-''" "a \<noteq> CHR ''+''" using is_digit_plain s by auto
  have "\<not> is_space (last (show_nat n))" using digit is_digit_plain by auto
  with a s have "py_strip (show_nat n) = show_nat n" by (simp add: py_strip_def rstrip_of_none)
  moreover have "filter (\<lambda>c. c \<noteq> CHR ''_'') (show_nat n) = show_nat n" using digit is_digit_plain by (auto simp: filter_id_conv)
  moreover have "digits_ok (show_nat n)" using digit by (intro digits_ok_show_nat_aux) auto
  moreover have "hd (show_nat n) = a" "show_nat n \<noteq> []" using s by simp_all
  moreover have "(case show_nat n of [] \<Rightarrow> False | c # _ \<Rightarrow> c = CHR ''-'') = False"
    "(case show_nat n of [] \<Rightarrow> show_nat n | c # t \<Rightarrow> if c = CHR ''-'' \<or> c = CHR ''+'' then t else show_nat n) = show_nat n"
    using a s by simp_all
  ultimately show ?thesis by (simp add: py_int_def Let_def del: list.case_eq_if)
qed

lemma py_int_show_int [simp]: "py_int (show_int i) = Some i"
proof (cases "i < 0")
  case False
  then show ?thesis by (simp add: show_int_def)
next
  case True
  have digit: "\<And>c. c \<in> set (show_nat (nat (- i))) \<Longrightarrow> is_digit c" by (rule show_nat_is_digit)
  have l: "\<not> is_space (last (CHR ''-'' # show_nat (nat (- i))))" using digit is_digit_plain by auto
  have "py_strip (CHR ''-'' # show_nat (nat (- i))) = CHR ''-'' # show_nat (nat (- i))"
    using rstrip_of_none [of "CHR ''-'' # show_nat (nat (- i))" is_space] l by (simp add: py_strip_def is_space_def)
  moreover have "filter (\<lambda>c. c \<noteq> CHR ''_'') (show_nat (nat (- i))) = show_nat (nat (- i))"
    using digit is_digit_plain by (auto simp: filter_id_conv)
  moreover have "digits_ok (show_nat (nat (- i)))" using digit by (intro digits_ok_show_nat_aux) auto
  ultimately show ?thesis using True by (simp add: py_int_def show_int_def Let_def)
qed

section \<open>URLs\<close>

definition is_alpha :: "char \<Rightarrow> bool" where
  "is_alpha c \<longleftrightarrow> (let n = (of_char c :: nat) in (65 \<le> n \<and> n \<le> 90) \<or> (97 \<le> n \<and> n \<le> 122))"

definition scheme_char :: "char \<Rightarrow> bool" where
  "scheme_char c \<longleftrightarrow> is_alpha c \<or> is_digit c \<or> c = CHR ''+'' \<or> c = CHR ''-'' \<or> c = CHR ''.''"

record url_parts =
  url_scheme :: string
  url_netloc :: string
  url_path :: string
  url_params :: string
  url_query :: string
  url_fragment :: string

text \<open>\<open>rfind\<close> as a split: the part up to and including the last \<open>c\<close>, and the rest.\<close>

definition split_last :: "char \<Rightarrow> string \<Rightarrow> string \<times> string" where
  "split_last c s = (let r = rev (takeWhile (\<lambda>x. x \<noteq> c) (rev s)) in (take (length s - length r) s, r))"

text \<open>\<open>None\<close> is the \<^verbatim>\<open>ValueError\<close> for an unbalanced bracket in the authority.\<close>

definition urlparse :: "string \<Rightarrow> url_parts option" where
  "urlparse raw =
     (let url = filter (\<lambda>c. c \<notin> {CHR 0x09, CHR 0x0A, CHR 0x0D}) (dropWhile (\<lambda>c. (of_char c :: nat) \<le> 32) raw);
          pre = before_first (CHR '':'') url;
          schemed = (CHR '':'' \<in> set url \<and> pre \<noteq> [] \<and> is_alpha (hd pre) \<and> list_all scheme_char pre);
          scheme = (if schemed then py_lower pre else []);
          rest = (if schemed then after_first (CHR '':'') url else url);
          slashed = starts_with ''//'' rest;
          netloc = (if slashed then takeWhile (\<lambda>c. c \<notin> {CHR ''/'', CHR ''?'', CHR ''#''}) (drop 2 rest) else []);
          rest = (if slashed then drop (2 + length netloc) rest else rest);
          fragment = (if CHR ''#'' \<in> set rest then after_first (CHR ''#'') rest else []);
          rest = before_first (CHR ''#'') rest;
          query = (if CHR ''?'' \<in> set rest then after_first (CHR ''?'') rest else []);
          rest = before_first (CHR ''?'') rest;
          (dir, file) = split_last (CHR ''/'') rest
      in if (CHR ''['' \<in> set netloc) \<noteq> (CHR '']'' \<in> set netloc) then None
         else Some \<lparr>url_scheme = scheme, url_netloc = netloc, url_path = dir @ before_first (CHR '';'') file,
           url_params = (if CHR '';'' \<in> set file then after_first (CHR '';'') file else []), url_query = query, url_fragment = fragment\<rparr>)"

end
