(* ===== verification/Py_Float.thy ===== *)
theory Py_Float imports Py_Text begin

text \<open>
  Python's \<^verbatim>\<open>float(s)\<close> on texts of digits, dots and minus signs, and \<^verbatim>\<open>round(x, n)\<close>. A float is a real number: the rounding of binary
  floating point is not modelled.
\<close>

section \<open>Decimal fractions\<close>

definition read_fraction :: "string \<Rightarrow> real" where
  "read_fraction s = of_nat (read_nat s) / 10 ^ length s"

text \<open>Digits, with at most one dot among them and at least one digit.\<close>

definition unsigned_float :: "string \<Rightarrow> real option" where
  "unsigned_float s =
     (let whole = takeWhile is_digit s; rest = dropWhile is_digit s
      in case rest of
           [] \<Rightarrow> if whole = [] then None else Some (of_nat (read_nat whole))
         | c # ds \<Rightarrow>
             if c = CHR ''.'' \<and> list_all is_digit ds \<and> (whole \<noteq> [] \<or> ds \<noteq> [])
             then Some (of_nat (read_nat whole) + read_fraction ds) else None)"

text \<open>\<open>float(s)\<close>; \<open>None\<close> is a \<^verbatim>\<open>ValueError\<close>.\<close>

definition py_float :: "string \<Rightarrow> real option" where
  "py_float s = (case s of CHR ''-'' # r \<Rightarrow> map_option uminus (unsigned_float r) | _ \<Rightarrow> unsigned_float s)"

section \<open>Rounding\<close>

text \<open>To the nearest integer, halves to the even one.\<close>

definition round_half_even :: "real \<Rightarrow> int" where
  "round_half_even x =
     (let f = \<lfloor>x\<rfloor>; d = x - of_int f
      in if d < 1 / 2 then f else if d > 1 / 2 then f + 1 else if even f then f else f + 1)"

definition py_round :: "nat \<Rightarrow> real \<Rightarrow> real" where
  "py_round n x = of_int (round_half_even (x * 10 ^ n)) / 10 ^ n"

lemma round_half_even_error: "\<bar>of_int (round_half_even x) - x\<bar> \<le> 1 / 2"
proof -
  have f: "of_int \<lfloor>x\<rfloor> \<le> x" "x < of_int \<lfloor>x\<rfloor> + 1" by linarith+
  consider "x - of_int \<lfloor>x\<rfloor> < 1 / 2" | "x - of_int \<lfloor>x\<rfloor> > 1 / 2" | "x - of_int \<lfloor>x\<rfloor> = 1 / 2" by linarith
  then show ?thesis
  proof cases
    case 3
    then have "of_int \<lfloor>x\<rfloor> = x - 1 / 2" by linarith
    then show ?thesis by (simp add: round_half_even_def Let_def)
  qed (use f in \<open>simp_all add: round_half_even_def abs_le_iff\<close>)
qed

lemma py_round_error: "\<bar>py_round n x - x\<bar> \<le> 1 / (2 * 10 ^ n)"
proof -
  have "py_round n x - x = (of_int (round_half_even (x * 10 ^ n)) - x * 10 ^ n) / 10 ^ n"
    by (simp add: py_round_def diff_divide_distrib)
  then have "\<bar>py_round n x - x\<bar> = \<bar>of_int (round_half_even (x * 10 ^ n)) - x * 10 ^ n\<bar> / 10 ^ n"
    by (simp add: abs_divide)
  also have "\<dots> \<le> (1 / 2) / 10 ^ n" by (rule divide_right_mono [OF round_half_even_error]) simp
  finally show ?thesis by simp
qed

lemma round_half_even_of_int [simp]: "round_half_even (of_int i) = i"
  by (simp add: round_half_even_def)

text \<open>Rounding keeps what is already rounded.\<close>

lemma py_round_idem [simp]: "py_round n (py_round n x) = py_round n x"
  by (simp add: py_round_def)

end
