(* ===== verification/Data_Extractor.thy ===== *)
theory Data_Extractor imports Step_Executor Py_Float begin

text \<open>
  \<^verbatim>\<open>src/core/data_extractor.py\<close> with the extraction definitions of \<^verbatim>\<open>src/core/blueprint.py\<close>: texts read from the page, transformed and
  coerced to the type of their field, for single fields and for lists over several pages.

  The page is the one of \<^verbatim>\<open>Step_Executor\<close>. The regular expressions of blueprints, \<^verbatim>\<open>datetime.strptime\<close> and \<^verbatim>\<open>str\<close> of a float are
  arguments (\<open>text_lib\<close>). A missing value (\<^verbatim>\<open>None\<close>) is \<^const>\<open>JNull\<close>.
\<close>

section \<open>Definitions of fields\<close>

datatype field_type = T_TEXT | T_CURRENCY | T_DATE | T_NUMBER | T_EMAIL | T_PHONE | T_LIST | T_TABLE | T_BOOLEAN

fun field_type_value :: "field_type \<Rightarrow> string" where
  "field_type_value T_TEXT = ''text''"
| "field_type_value T_CURRENCY = ''currency''"
| "field_type_value T_DATE = ''date''"
| "field_type_value T_NUMBER = ''number''"
| "field_type_value T_EMAIL = ''email''"
| "field_type_value T_PHONE = ''phone''"
| "field_type_value T_LIST = ''list''"
| "field_type_value T_TABLE = ''table''"
| "field_type_value T_BOOLEAN = ''boolean''"

text \<open>A transform is given by its text: an enum member has the same one.\<close>

record extraction_field =
  xf_selector :: "string option"
  xf_type :: field_type
  xf_description :: "string option"
  xf_transform :: "string option"
  xf_sensitive :: bool
  xf_attribute :: "string option"
  xf_default :: json
  xf_timeout :: "int option"
  xf_example :: "string option"
  xf_fallback_selector :: "string option"

record pagination_config =
  pg_next_selector :: string
  pg_max_pages :: int
  pg_wait_after_click :: int

record list_extraction_field =
  lf_selector :: "string option"
  lf_type :: field_type
  lf_description :: "string option"
  lf_fields :: "(string, extraction_field) dict"
  lf_max_items :: "int option"
  lf_pagination :: "pagination_config option"

datatype field_def = Scalar extraction_field | Rows list_extraction_field

section \<open>Transforms\<close>

text \<open>\<open>tl_regex pattern value\<close>: the error of a bad pattern, nothing when it does not match, or the group. \<open>tl_strptime value format\<close>: the ISO
  text.\<close>

record text_lib =
  tl_str :: "json \<Rightarrow> string"
  tl_regex :: "string \<Rightarrow> string \<Rightarrow> string + json option"
  tl_strptime :: "string \<Rightarrow> string \<Rightarrow> string option"

definition transform_strip_whitespace :: "string \<Rightarrow> string" where
  "transform_strip_whitespace value = join (CHR '' '') (runs (\<lambda>c. \<not> is_space c) value)"

definition transform_strip_dollar_sign :: "string \<Rightarrow> string" where
  "transform_strip_dollar_sign value = py_strip (filter (\<lambda>c. c \<noteq> CHR ''$'') value)"

definition transform_strip_commas :: "string \<Rightarrow> string" where
  "transform_strip_commas value = filter (\<lambda>c. c \<noteq> CHR '','') value"

definition numeric_chars :: "string \<Rightarrow> string" where
  "numeric_chars value = filter (\<lambda>c. is_digit c \<or> c = CHR ''.'' \<or> c = CHR ''-'') value"

definition transform_to_number :: "string \<Rightarrow> real" where
  "transform_to_number value = (case py_float (numeric_chars value) of Some r \<Rightarrow> r | None \<Rightarrow> 0)"

definition transform_to_currency :: "string \<Rightarrow> real" where
  "transform_to_currency value = (case py_float (numeric_chars value) of Some r \<Rightarrow> py_round 2 r | None \<Rightarrow> 0)"

definition date_formats :: "string list" where
  "date_formats = [''%m/%d/%Y'', ''%Y-%m-%d'', ''%m-%d-%Y'', ''%d/%m/%Y'', ''%B %d, %Y'', ''%b %d, %Y'', ''%Y-%m-%dT%H:%M:%S'',
     ''%Y-%m-%dT%H:%M:%SZ'', ''%m/%d/%y'']"

fun first_date :: "(string \<Rightarrow> string \<Rightarrow> string option) \<Rightarrow> string \<Rightarrow> string list \<Rightarrow> string option" where
  "first_date strptime value [] = None"
| "first_date strptime value (f # fs) = (case strptime value f of Some d \<Rightarrow> Some d | None \<Rightarrow> first_date strptime value fs)"

definition transform_parse_date :: "text_lib \<Rightarrow> string \<Rightarrow> string option \<Rightarrow> string" where
  "transform_parse_date lib value fmt =
     (let formats = (case given fmt of Some f \<Rightarrow> f # date_formats | None \<Rightarrow> date_formats)
      in case first_date (tl_strptime lib) (py_strip value) formats of Some d \<Rightarrow> d | None \<Rightarrow> py_strip value)"

definition transform_regex_extract :: "text_lib \<Rightarrow> string \<Rightarrow> string \<Rightarrow> string + json" where
  "transform_regex_extract lib value pattern =
     (case tl_regex lib pattern value of Inl err \<Rightarrow> Inl err | Inr (Some v) \<Rightarrow> Inr v | Inr None \<Rightarrow> Inr (JStr value))"

text \<open>The match of \<^verbatim>\<open>(\w+)\((.+)\)\<close> at the start: the name, and all up to the last closing bracket of the line.\<close>

definition parameterised :: "string \<Rightarrow> (string \<times> string) option" where
  "parameterised s =
     (let name = takeWhile is_word s
      in case dropWhile is_word s of
           c # rest \<Rightarrow>
             if name \<noteq> [] \<and> c = CHR ''(''
             then let line = takeWhile (\<lambda>c. c \<noteq> CHR 0x0A) rest;
                      arg = rev (tl (dropWhile (\<lambda>c. c \<noteq> CHR '')'') (rev line)))
                  in if CHR '')'' \<in> set line \<and> arg \<noteq> [] then Some (name, arg) else None
             else None
         | [] \<Rightarrow> None)"

definition simple_transform :: "text_lib \<Rightarrow> string \<Rightarrow> string \<Rightarrow> json" where
  "simple_transform lib name value =
     (if name = ''strip_whitespace'' then JStr (transform_strip_whitespace value)
      else if name = ''strip_dollar_sign'' then JStr (transform_strip_dollar_sign value)
      else if name = ''strip_commas'' then JStr (transform_strip_commas value)
      else if name = ''to_lowercase'' then JStr (py_lower value)
      else if name = ''to_uppercase'' then JStr (py_upper value)
      else if name = ''to_number'' then JNum (transform_to_number value)
      else if name = ''to_currency'' then JNum (transform_to_currency value)
      else if name = ''parse_date'' then JStr (transform_parse_date lib value None)
      else JStr value)"

definition apply_transform :: "text_lib \<Rightarrow> string \<Rightarrow> string option \<Rightarrow> string + json" where
  "apply_transform lib value transform =
     (case transform of
        None \<Rightarrow> Inr (JStr value)
      | Some t \<Rightarrow>
          (case parameterised t of
             Some (name, param) \<Rightarrow>
               if name = ''regex_extract'' then transform_regex_extract lib value param
               else if name = ''parse_date'' then Inr (JStr (transform_parse_date lib value (Some param)))
               else Inr (simple_transform lib t value)
           | None \<Rightarrow> Inr (simple_transform lib t value)))"

definition coerce_type :: "text_lib \<Rightarrow> json \<Rightarrow> field_type \<Rightarrow> json" where
  "coerce_type lib value ty =
     (if value = JNull then JNull
      else
        let str_val = py_strip (py_str (tl_str lib) value)
        in case ty of
             T_TEXT \<Rightarrow> JStr str_val
           | T_CURRENCY \<Rightarrow> JNum (transform_to_currency str_val)
           | T_NUMBER \<Rightarrow> JNum (transform_to_number str_val)
           | T_DATE \<Rightarrow> JStr (transform_parse_date lib str_val None)
           | T_EMAIL \<Rightarrow> JStr (py_strip (py_lower str_val))
           | T_PHONE \<Rightarrow> JStr (filter (\<lambda>c. is_digit c \<or> c \<in> set ''+-() '') str_val)
           | T_BOOLEAN \<Rightarrow> JBool (py_lower str_val \<in> set [''true'', ''yes'', ''1'', ''on'', ''active''])
           | _ \<Rightarrow> JStr str_val)"

section \<open>Reading the page\<close>

definition ask :: "'p page_fun \<Rightarrow> page_cmd \<Rightarrow> 'p exec \<Rightarrow> (step_exc + json) \<times> 'p exec" where
  "ask pg cmd s =
     (case send pg cmd s of
        (PgOk v, s') \<Rightarrow> (Inr v, s')
      | (PgTimeout t, s') \<Rightarrow> (Inl (XTimeout t), s')
      | (PgError t, s') \<Rightarrow> (Inl (XOther t), s')
      | (PgCancelled, s') \<Rightarrow> (Inl XCancelled, s'))"

definition bindr :: "(step_exc + 'a) \<times> 'p exec \<Rightarrow> ('a \<Rightarrow> 'p exec \<Rightarrow> (step_exc + 'b) \<times> 'p exec) \<Rightarrow> (step_exc + 'b) \<times> 'p exec" where
  "bindr m k = (case m of (Inl e, s) \<Rightarrow> (Inl e, s) | (Inr v, s) \<Rightarrow> k v s)"

text \<open>The text or the attribute of an element, transformed and coerced.\<close>

definition handle_of :: "json \<Rightarrow> int" where
  "handle_of v = (case v of JInt i \<Rightarrow> i | _ \<Rightarrow> 0)"

definition read_element :: "text_lib \<Rightarrow> 'p page_fun \<Rightarrow> extraction_field \<Rightarrow> int \<Rightarrow> 'p exec \<Rightarrow> (step_exc + json) \<times> 'p exec" where
  "read_element lib pg f el s =
     bindr
       (case given (xf_attribute f) of
          Some a \<Rightarrow> bindr (ask pg (ElementAttribute el a) s) (\<lambda>v s. (Inr (if truthy v then v else JStr ''''), s))
        | None \<Rightarrow> ask pg (ElementText el) s)
       (\<lambda>raw s. case apply_transform lib (py_str (tl_str lib) raw) (xf_transform f) of
          Inl err \<Rightarrow> (Inl (XOther err), s)
        | Inr v \<Rightarrow> (Inr (coerce_type lib v (xf_type f)), s))"

definition quoted :: "string \<Rightarrow> string" where
  "quoted s = CHR 0x27 # s @ [CHR 0x27]"

definition not_found :: "string \<Rightarrow> extraction_field \<Rightarrow> string \<Rightarrow> step_exc" where
  "not_found site f name =
     XErr (DataExtractionError site (''Selector '' @ quoted (case xf_selector f of Some sel \<Rightarrow> sel | None \<Rightarrow> ''None'') @ '' not found for field '' @
       quoted name @ ''.''))"

definition extract_field ::
  "text_lib \<Rightarrow> 'p page_fun \<Rightarrow> string \<Rightarrow> string \<Rightarrow> extraction_field \<Rightarrow> 'p exec \<Rightarrow> (step_exc + json) \<times> 'p exec" where
  "extract_field lib pg site name f s =
     (case ask pg (AwaitAttached (xf_selector f) (or_int (xf_timeout f) 15000)) s of
        (Inl (XTimeout t), s) \<Rightarrow> (if xf_default f \<noteq> JNull then (Inr (xf_default f), s) else (Inl (not_found site f name), s))
      | (Inl e, s) \<Rightarrow> (Inl e, s)
      | (Inr el, s) \<Rightarrow> if el = JNull then (Inr (xf_default f), s) else read_element lib pg f (handle_of el) s)"

section \<open>Lists\<close>

text \<open>One cell: any exception but a cancellation gives the default.\<close>

definition extract_cell :: "text_lib \<Rightarrow> 'p page_fun \<Rightarrow> int \<Rightarrow> extraction_field \<Rightarrow> 'p exec \<Rightarrow> (step_exc + json) \<times> 'p exec" where
  "extract_cell lib pg row f s =
     (case bindr (ask pg (ElementQuery row (xf_selector f)) s)
             (\<lambda>cell s. if cell = JNull then (Inr (xf_default f), s) else read_element lib pg f (handle_of cell) s) of
        (Inl XCancelled, s) \<Rightarrow> (Inl XCancelled, s)
      | (Inl e, s) \<Rightarrow> (Inr (xf_default f), s)
      | (Inr v, s) \<Rightarrow> (Inr v, s))"

fun extract_row ::
  "text_lib \<Rightarrow> 'p page_fun \<Rightarrow> int \<Rightarrow> (string, extraction_field) dict \<Rightarrow> (string, json) dict \<Rightarrow> 'p exec \<Rightarrow> (step_exc + (string, json) dict) \<times> 'p exec" where
  "extract_row lib pg row [] data s = (Inr data, s)"
| "extract_row lib pg row ((name, f) # cols) data s =
     bindr (extract_cell lib pg row f s) (\<lambda>v s. extract_row lib pg row cols (AList.update name v data) s)"

definition full :: "int option \<Rightarrow> 'a list \<Rightarrow> bool" where
  "full max_items items \<longleftrightarrow> (case max_items of None \<Rightarrow> False | Some n \<Rightarrow> n \<noteq> 0 \<and> int (length items) \<ge> n)"

fun extract_rows ::
  "text_lib \<Rightarrow> 'p page_fun \<Rightarrow> list_extraction_field \<Rightarrow> json list \<Rightarrow> json list \<Rightarrow> 'p exec \<Rightarrow> (step_exc + json list) \<times> 'p exec" where
  "extract_rows lib pg lf [] items s = (Inr items, s)"
| "extract_rows lib pg lf (row # rows) items s =
     (if full (lf_max_items lf) items then (Inr items, s)
      else bindr (extract_row lib pg (handle_of row) (lf_fields lf) [] s) (\<lambda>d s. extract_rows lib pg lf rows (items @ [JObj d]) s))"

text \<open>The next page: \<open>Inr True\<close> when it was turned to. Exceptions end the loop, a cancellation ends the run.\<close>

definition next_page :: "'p page_fun \<Rightarrow> pagination_config \<Rightarrow> 'p exec \<Rightarrow> (step_exc + bool) \<times> 'p exec" where
  "next_page pg p s =
     (case bindr (ask pg (QueryElement (Some (pg_next_selector p))) s)
             (\<lambda>btn s. if btn = JNull then (Inr False, s)
                else bindr (ask pg (ElementAttribute (handle_of btn) ''disabled'') s)
                  (\<lambda>disabled s. if truthy disabled then (Inr False, s)
                     else bindr (ask pg (ElementClick (handle_of btn)) s)
                       (\<lambda>_ s. bindr (ask pg (PauseFor (pg_wait_after_click p)) s) (\<lambda>_ s. (Inr True, s))))) of
        (Inl XCancelled, s) \<Rightarrow> (Inl XCancelled, s)
      | (Inl e, s) \<Rightarrow> (Inr False, s)
      | r \<Rightarrow> r)"

definition handles :: "json \<Rightarrow> json list" where
  "handles v = (case v of JList xs \<Rightarrow> xs | _ \<Rightarrow> [])"

text \<open>\<open>left\<close>: \<^verbatim>\<open>max_pages - page_num\<close>.\<close>

fun list_loop ::
  "text_lib \<Rightarrow> 'p page_fun \<Rightarrow> list_extraction_field \<Rightarrow> nat \<Rightarrow> json list \<Rightarrow> 'p exec \<Rightarrow> (step_exc + json list) \<times> 'p exec" where
  "list_loop lib pg lf 0 items s = (Inr items, s)"
| "list_loop lib pg lf (Suc left) items s =
     bindr (ask pg (QueryAll (lf_selector lf)) s)
       (\<lambda>rows s. if handles rows = [] then (Inr items, s)
          else bindr (extract_rows lib pg lf (handles rows) items s)
            (\<lambda>items s. case lf_pagination lf of
                Some p \<Rightarrow> if left > 0 then bindr (next_page pg p s) (\<lambda>turned s. if turned then list_loop lib pg lf left items s else (Inr items, s))
                          else list_loop lib pg lf left items s
              | None \<Rightarrow> list_loop lib pg lf left items s))"

definition extract_list :: "text_lib \<Rightarrow> 'p page_fun \<Rightarrow> list_extraction_field \<Rightarrow> 'p exec \<Rightarrow> (step_exc + json) \<times> 'p exec" where
  "extract_list lib pg lf s =
     bindr (list_loop lib pg lf (nat (case lf_pagination lf of None \<Rightarrow> 1 | Some p \<Rightarrow> pg_max_pages p)) [] s) (\<lambda>items s. (Inr (JList items), s))"

section \<open>All fields\<close>

fun field_default :: "field_def \<Rightarrow> json" where
  "field_default (Scalar f) = xf_default f"
| "field_default (Rows lf) = JNull"

fun extract_one :: "text_lib \<Rightarrow> 'p page_fun \<Rightarrow> string \<Rightarrow> string \<Rightarrow> field_def \<Rightarrow> 'p exec \<Rightarrow> (step_exc + json) \<times> 'p exec" where
  "extract_one lib pg site name (Scalar f) s = extract_field lib pg site name f s"
| "extract_one lib pg site name (Rows lf) s = extract_list lib pg lf s"

fun ends_extraction :: "step_exc \<Rightarrow> bool" where
  "ends_extraction XCancelled = True"
| "ends_extraction (XErr e) = (case e of DataExtractionError a b \<Rightarrow> True | _ \<Rightarrow> False)"
| "ends_extraction _ = False"

text \<open>\<^verbatim>\<open>DataExtractor.extract\<close>: a \<^verbatim>\<open>DataExtractionError\<close> or a cancellation ends it, any other exception gives the default.\<close>

fun extract_all ::
  "text_lib \<Rightarrow> 'p page_fun \<Rightarrow> string \<Rightarrow> (string, field_def) dict \<Rightarrow> (string, json) dict \<Rightarrow> 'p exec \<Rightarrow> (step_exc + (string, json) dict) \<times> 'p exec" where
  "extract_all lib pg site [] result s = (Inr result, s)"
| "extract_all lib pg site ((name, d) # rest) result s =
     (case extract_one lib pg site name d s of
        (Inr v, s) \<Rightarrow> extract_all lib pg site rest (AList.update name v result) s
      | (Inl e, s) \<Rightarrow> if ends_extraction e then (Inl e, s) else extract_all lib pg site rest (AList.update name (field_default d) result) s)"

definition data_extract :: "text_lib \<Rightarrow> 'p page_fun \<Rightarrow> string \<Rightarrow> (string, field_def) dict \<Rightarrow> 'p exec \<Rightarrow> (step_exc + (string, json) dict) \<times> 'p exec" where
  "data_extract lib pg site defs s = extract_all lib pg site defs [] s"

section \<open>What extraction sends\<close>

text \<open>Extraction only reads: a relation between states that every harmless command keeps is kept by extraction.\<close>

locale page_reader =
  fixes R :: "'p exec \<Rightarrow> 'p exec \<Rightarrow> bool"
  assumes R_refl: "R s s" and R_trans: "R s t \<Longrightarrow> R t u \<Longrightarrow> R s u"
    and R_send: "harmless cmd \<Longrightarrow> R s (snd (send pg cmd s))"
begin

lemma R_ask: "harmless cmd \<Longrightarrow> R s (snd (ask pg cmd s))"
  using R_send [of cmd s pg] by (cases "send pg cmd s"; cases "fst (send pg cmd s)") (auto simp: ask_def)

lemma R_bindr: "R s (snd m) \<Longrightarrow> (\<And>v t. R t (snd (k v t))) \<Longrightarrow> R s (snd (bindr m k))"
  by (cases m; cases "fst m") (auto simp: bindr_def intro: R_trans)

lemma R_read_element: "R s (snd (read_element lib pg f el s))"
  by (auto simp: read_element_def split: option.split sum.split intro!: R_refl R_bindr R_ask)

lemma R_extract_field: "R s (snd (extract_field lib pg site name f s))"
proof -
  obtain r t where a: "ask pg (AwaitAttached (xf_selector f) (or_int (xf_timeout f) 15000)) s = (r, t)" by fastforce
  with R_ask [of "AwaitAttached (xf_selector f) (or_int (xf_timeout f) 15000)" s pg] have q: "R s t" by simp
  have "R s (snd (read_element lib pg f el t))" for el using q R_read_element by (rule R_trans)
  with q show ?thesis by (simp add: extract_field_def a split: sum.split step_exc.split)
qed

lemma R_extract_cell: "R s (snd (extract_cell lib pg row f s))"
proof -
  let ?m = "bindr (ask pg (ElementQuery row (xf_selector f)) s)
    (\<lambda>cell s. if cell = JNull then (Inr (xf_default f), s) else read_element lib pg f (handle_of cell) s)"
  have "R s (snd ?m)" by (auto intro!: R_refl R_bindr R_ask R_read_element)
  then show ?thesis by (cases ?m) (auto simp: extract_cell_def split: sum.split step_exc.split)
qed

lemma R_extract_row: "R s (snd (extract_row lib pg row cols data s))"
  by (induction lib pg row cols data s rule: extract_row.induct) (auto intro!: R_refl R_bindr R_extract_cell)

lemma R_extract_rows: "R s (snd (extract_rows lib pg lf rows items s))"
  by (induction lib pg lf rows items s rule: extract_rows.induct) (auto intro!: R_refl R_bindr R_extract_row)

lemma R_next_page: "R s (snd (next_page pg p s))"
proof -
  let ?m = "bindr (ask pg (QueryElement (Some (pg_next_selector p))) s)
    (\<lambda>btn s. if btn = JNull then (Inr False, s)
       else bindr (ask pg (ElementAttribute (handle_of btn) ''disabled'') s)
         (\<lambda>disabled s. if truthy disabled then (Inr False, s)
            else bindr (ask pg (ElementClick (handle_of btn)) s)
              (\<lambda>_ s. bindr (ask pg (PauseFor (pg_wait_after_click p)) s) (\<lambda>_ s. (Inr True, s)))))"
  have "R s (snd ?m)" by (auto intro!: R_refl R_bindr R_ask)
  then show ?thesis by (cases ?m) (auto simp: next_page_def split: sum.split step_exc.split)
qed

lemma R_list_loop: "R s (snd (list_loop lib pg lf n items s))"
  by (induction lib pg lf n items s rule: list_loop.induct)
    (auto intro!: R_refl R_bindr R_ask R_extract_rows R_next_page split: option.split)

lemma R_extract_one: "R s (snd (extract_one lib pg site name d s))"
  by (cases d) (auto simp: extract_list_def intro!: R_refl R_bindr R_ask R_list_loop R_extract_field)

lemma R_extract_all: "R s (snd (extract_all lib pg site defs result s))"
proof (induction lib pg site defs result s rule: extract_all.induct)
  case (2 lib pg site name d rest result s)
  obtain r t where e: "extract_one lib pg site name d s = (r, t)" by fastforce
  with R_extract_one [of s lib pg site name d] have q: "R s t" by simp
  show ?case
  proof (cases r)
    case (Inl x)
    then show ?thesis using q 2(1) [OF e [symmetric] Inl] by (auto simp: e intro: R_trans)
  next
    case (Inr v)
    then show ?thesis using R_trans [OF q 2(2) [OF e [symmetric] Inr]] by (simp add: e)
  qed
qed (simp add: R_refl)

lemma R_data_extract: "R s (snd (data_extract lib pg site defs s))"
  by (simp add: data_extract_def R_extract_all)

end

interpretation quiet_read: page_reader quiet
  by unfold_locales (auto intro: quiet_trans quiet_send)

interpretation policy_read: page_reader "\<lambda>s t. ex_policy t = ex_policy s"
  by unfold_locales simp_all

section \<open>What extraction returns\<close>

text \<open>The JSON values a field of a type can have; amounts of money are whole cents.\<close>

fun typed_value :: "field_type \<Rightarrow> json \<Rightarrow> bool" where
  "typed_value T_CURRENCY (JNum r) = (py_round 2 r = r)"
| "typed_value T_CURRENCY v = False"
| "typed_value T_NUMBER (JNum r) = True"
| "typed_value T_NUMBER v = False"
| "typed_value T_BOOLEAN (JBool b) = True"
| "typed_value T_BOOLEAN v = False"
| "typed_value _ (JStr s) = True"
| "typed_value _ v = False"

definition cell_ok :: "extraction_field \<Rightarrow> json \<Rightarrow> bool" where
  "cell_ok f v \<longleftrightarrow> v = xf_default f \<or> v = JNull \<or> typed_value (xf_type f) v"

definition record_ok :: "list_extraction_field \<Rightarrow> json \<Rightarrow> bool" where
  "record_ok lf v \<longleftrightarrow> (\<exists>d. v = JObj d \<and> map fst d = map fst (lf_fields lf) \<and> (\<forall>(name, f) \<in> set (lf_fields lf). cell_ok f (jget d name)))"

definition within_limit :: "int option \<Rightarrow> 'a list \<Rightarrow> bool" where
  "within_limit limit items \<longleftrightarrow> (case limit of None \<Rightarrow> True | Some n \<Rightarrow> n = 0 \<or> int (length items) \<le> max 0 n)"

fun value_ok :: "field_def \<Rightarrow> json \<Rightarrow> bool" where
  "value_ok (Scalar f) v = cell_ok f v"
| "value_ok (Rows lf) v = (v = JNull \<or> (\<exists>items. v = JList items \<and> list_all (record_ok lf) items \<and> within_limit (lf_max_items lf) items))"

lemma currency_cents: "py_round 2 (transform_to_currency s) = transform_to_currency s"
proof -
  have "py_round 2 0 = 0" using round_half_even_of_int [of 0] by (simp add: py_round_def)
  then show ?thesis by (simp add: transform_to_currency_def split: option.split)
qed

lemma coerced: "v \<noteq> JNull \<Longrightarrow> typed_value ty (coerce_type lib v ty)"
  by (cases ty) (simp_all add: coerce_type_def Let_def currency_cents)

lemma coerce_null [simp]: "coerce_type lib JNull ty = JNull"
  by (simp add: coerce_type_def)

lemma bindr_Inr: "bindr m k = (Inr v, s') \<Longrightarrow> (\<And>x t. m = (Inr x, t) \<Longrightarrow> k x t = (Inr v, s') \<Longrightarrow> P) \<Longrightarrow> P"
  by (cases m; cases "fst m") (auto simp: bindr_def)

lemma read_element_ok: "read_element lib pg f el s = (Inr v, s') \<Longrightarrow> cell_ok f v"
proof -
  assume r: "read_element lib pg f el s = (Inr v, s')"
  have "\<exists>x. v = coerce_type lib x (xf_type f)"
    using r unfolding read_element_def by (elim bindr_Inr) (auto split: sum.splits)
  then show ?thesis using coerced by (auto simp: cell_ok_def) (metis coerce_null)
qed

lemma extract_field_ok: "extract_field lib pg site name f s = (Inr v, s') \<Longrightarrow> cell_ok f v"
  using read_element_ok by (fastforce simp: extract_field_def cell_ok_def split: prod.splits sum.splits step_exc.splits if_splits)

lemma extract_cell_ok: "extract_cell lib pg row f s = (Inr v, s') \<Longrightarrow> cell_ok f v"
proof -
  assume e: "extract_cell lib pg row f s = (Inr v, s')"
  let ?k = "\<lambda>cell s. if cell = JNull then (Inr (xf_default f), s) else read_element lib pg f (handle_of cell) s"
  let ?m = "bindr (ask pg (ElementQuery row (xf_selector f)) s) ?k"
  have "v = xf_default f \<or> ?m = (Inr v, s')"
    using e by (cases ?m) (auto simp: extract_cell_def split: sum.splits step_exc.splits)
  moreover have "cell_ok f v" if "?m = (Inr v, s')"
    using that by (elim bindr_Inr) (auto simp: cell_ok_def split: if_splits dest: read_element_ok)
  ultimately show ?thesis by (auto simp: cell_ok_def)
qed

text \<open>A row has the columns of its definition, in order.\<close>

lemma extract_record_ok:
  "extract_row lib pg row cols data s = (Inr d, s') \<Longrightarrow> distinct (map fst data @ map fst cols) \<Longrightarrow>
   \<exists>new. d = data @ new \<and> map fst new = map fst cols \<and> (\<forall>(name, f) \<in> set cols. cell_ok f (jget new name))"
proof (induction lib pg row cols data s rule: extract_row.induct)
  case (2 lib pg row name f cols data s)
  from 2(2) obtain v t where v: "extract_cell lib pg row f s = (Inr v, t)"
    "extract_row lib pg row cols (AList.update name v data) t = (Inr d, s')"
    unfolding extract_row.simps by (elim bindr_Inr)
  have "name \<notin> fst ` set data" using 2(3) by auto
  then have u: "AList.update name v data = data @ [(name, v)]" by (induction data) auto
  have "distinct (map fst (AList.update name v data) @ map fst cols)" using 2(3) unfolding u by auto
  from 2(1) [OF v(2) this] obtain new where n: "d = (data @ [(name, v)]) @ new" "map fst new = map fst cols"
    "\<forall>(name, f) \<in> set cols. cell_ok f (jget new name)" unfolding u by blast
  have "jget ((name, v) # new) k = jget new k" if "k \<in> fst ` set cols" for k using that 2(3) by (auto simp: jget_def)
  then have "\<forall>(k, g) \<in> set cols. cell_ok g (jget ((name, v) # new) k)" using n(3) by force
  moreover have "cell_ok f (jget ((name, v) # new) name)" using extract_cell_ok [OF v(1)] by (simp add: jget_def)
  ultimately show ?case using n by (intro exI [of _ "(name, v) # new"]) auto
qed auto

lemma extract_rows_ok:
  "extract_rows lib pg lf rows items s = (Inr items', s') \<Longrightarrow> dict_ok (lf_fields lf) \<Longrightarrow> list_all (record_ok lf) items \<Longrightarrow>
   within_limit (lf_max_items lf) items \<Longrightarrow> list_all (record_ok lf) items' \<and> within_limit (lf_max_items lf) items'"
proof (induction lib pg lf rows items s rule: extract_rows.induct)
  case (2 lib pg lf row rows items s)
  show ?case
  proof (cases "full (lf_max_items lf) items")
    case False
    with 2(2) obtain d t where d: "extract_row lib pg (handle_of row) (lf_fields lf) [] s = (Inr d, t)"
      "extract_rows lib pg lf rows (items @ [JObj d]) t = (Inr items', s')" by (auto elim: bindr_Inr)
    from extract_record_ok [OF d(1)] 2(3) have "record_ok lf (JObj d)" by (auto simp: record_ok_def dict_ok_def)
    moreover have "within_limit (lf_max_items lf) (items @ [JObj d])"
      using False by (auto simp: full_def within_limit_def split: option.splits)
    ultimately show ?thesis using 2(1) [OF False d(2)] 2(3,4) by simp
  qed (use 2 in auto)
qed auto

lemma list_loop_ok:
  "list_loop lib pg lf n items s = (Inr items', s') \<Longrightarrow> dict_ok (lf_fields lf) \<Longrightarrow> list_all (record_ok lf) items \<Longrightarrow>
   within_limit (lf_max_items lf) items \<Longrightarrow> list_all (record_ok lf) items' \<and> within_limit (lf_max_items lf) items'"
proof (induction n arbitrary: items s)
  case (Suc n)
  from Suc.prems(1) obtain rows t where a: "ask pg (QueryAll (lf_selector lf)) s = (Inr rows, t)" and
    b: "(if handles rows = [] then (Inr items, t) else bindr (extract_rows lib pg lf (handles rows) items t)
      (\<lambda>items s. case lf_pagination lf of
          Some p \<Rightarrow> if n > 0 then bindr (next_page pg p s) (\<lambda>turned s. if turned then list_loop lib pg lf n items s else (Inr items, s))
                    else list_loop lib pg lf n items s
        | None \<Rightarrow> list_loop lib pg lf n items s)) = (Inr items', s')" unfolding list_loop.simps by (elim bindr_Inr)
  show ?case
  proof (cases "handles rows = []")
    case False
    with b obtain items1 t1 where r: "extract_rows lib pg lf (handles rows) items t = (Inr items1, t1)" and
      c: "(case lf_pagination lf of
          Some p \<Rightarrow> if n > 0 then bindr (next_page pg p t1) (\<lambda>turned s. if turned then list_loop lib pg lf n items1 s else (Inr items1, s))
                    else list_loop lib pg lf n items1 t1
        | None \<Rightarrow> list_loop lib pg lf n items1 t1) = (Inr items', s')" by (auto elim: bindr_Inr)
    note ok = extract_rows_ok [OF r Suc.prems(2-4)]
    have "items' = items1 \<or> (\<exists>t2. list_loop lib pg lf n items1 t2 = (Inr items', s'))"
      using c by (auto split: option.splits if_splits elim!: bindr_Inr)
    then show ?thesis using Suc.IH [OF _ Suc.prems(2)] ok by blast
  qed (use b Suc.prems in auto)
qed auto

lemma extract_one_ok:
  assumes "extract_one lib pg site name d s = (Inr v, s')" "\<And>lf. d = Rows lf \<Longrightarrow> dict_ok (lf_fields lf)"
  shows "value_ok d v"
proof (cases d)
  case (Rows lf)
  with assms obtain items t where "list_loop lib pg lf (nat (case lf_pagination lf of None \<Rightarrow> 1 | Some p \<Rightarrow> pg_max_pages p)) [] s = (Inr items, t)"
    "v = JList items" by (auto simp: extract_list_def elim!: bindr_Inr)
  with list_loop_ok [OF this(1)] Rows assms(2) show ?thesis by (auto simp: within_limit_def split: option.split)
qed (use assms extract_field_ok in auto)

definition defs_ok :: "(string, field_def) dict \<Rightarrow> bool" where
  "defs_ok defs \<longleftrightarrow> dict_ok defs \<and> (\<forall>(_, d) \<in> set defs. case d of Rows lf \<Rightarrow> dict_ok (lf_fields lf) | Scalar f \<Rightarrow> True)"

lemma dict_ok_Cons: "dict_ok (x # d) \<longleftrightarrow> fst x \<notin> fst ` set d \<and> dict_ok d"
  by (simp add: dict_ok_def)

lemma extract_all_ok:
  "extract_all lib pg site defs result s = (Inr data, s') \<Longrightarrow> distinct (map fst result @ map fst defs) \<Longrightarrow> defs_ok defs \<Longrightarrow>
   \<exists>new. data = result @ new \<and> map fst new = map fst defs \<and> (\<forall>(name, d) \<in> set defs. value_ok d (jget new name))"
proof (induction lib pg site defs result s rule: extract_all.induct)
  case (2 lib pg site name d rest result s)
  obtain r t where e: "extract_one lib pg site name d s = (r, t)" by fastforce
  define v where "v = (case r of Inr v \<Rightarrow> v | Inl _ \<Rightarrow> field_default d)"
  have run: "extract_all lib pg site rest (AList.update name v result) t = (Inr data, s')"
    using 2(3) by (auto simp: e v_def split: sum.splits if_splits)
  have "name \<notin> fst ` set result" using 2(4) by auto
  then have u: "AList.update name v result = result @ [(name, v)]" by (induction result) auto
  have dist: "distinct (map fst (AList.update name v result) @ map fst rest)" using 2(4) unfolding u by auto
  have rest: "defs_ok rest" using 2(5) by (auto simp: defs_ok_def dict_ok_Cons)
  have ih: "\<exists>new. data = AList.update name v result @ new \<and> map fst new = map fst rest \<and> (\<forall>(name, d) \<in> set rest. value_ok d (jget new name))"
  proof (cases r)
    case (Inl x)
    then have "\<not> ends_extraction x" using 2(3) by (auto simp: e split: if_splits)
    with 2(1) [OF e [symmetric] Inl] run dist rest Inl show ?thesis by (simp add: v_def)
  next
    case (Inr x)
    with 2(2) [OF e [symmetric] Inr] run dist rest show ?thesis by (simp add: v_def)
  qed
  then obtain new where n: "data = (result @ [(name, v)]) @ new" "map fst new = map fst rest"
    "\<forall>(name, d) \<in> set rest. value_ok d (jget new name)" unfolding u by blast
  have "value_ok d v"
  proof (cases r)
    case (Inl x)
    then show ?thesis by (cases d) (simp_all add: v_def cell_ok_def)
  next
    case (Inr x)
    have "value_ok d x" by (rule extract_one_ok [OF e [unfolded Inr]]) (use 2(5) in \<open>auto simp: defs_ok_def\<close>)
    with Inr show ?thesis by (simp add: v_def)
  qed
  have "jget ((name, v) # new) k = jget new k" if "k \<in> fst ` set rest" for k using that 2(4) by (auto simp: jget_def)
  then have "\<forall>(k, g) \<in> set rest. value_ok g (jget ((name, v) # new) k)" using n(3) by force
  moreover have "value_ok d (jget ((name, v) # new) name)" using \<open>value_ok d v\<close> by (simp add: jget_def)
  ultimately show ?case using n by (intro exI [of _ "(name, v) # new"]) auto
qed auto

text \<open>C32. Extraction that returns has exactly the requested fields, in order. A field has its default, no value, or a value of its type (amounts in whole
  cents); a list has rows with exactly its columns, each of its type, and no more rows than its limit allows.\<close>

theorem extraction_complete_and_typed:
  assumes "data_extract lib pg site defs s = (Inr data, s')" "defs_ok defs"
  shows "map fst data = map fst defs \<and> (\<forall>(name, d) \<in> set defs. value_ok d (jget data name))"
proof -
  have "distinct (map fst [] @ map fst defs)" using assms(2) by (simp add: defs_ok_def dict_ok_def)
  from extract_all_ok [OF assms(1) [unfolded data_extract_def] this assms(2)] show ?thesis by auto
qed

definition sample_text_lib :: text_lib where
  "sample_text_lib = \<lparr>tl_str = (\<lambda>_. ''0''), tl_regex = (\<lambda>_ _. Inr None), tl_strptime = (\<lambda>_ _. None)\<rparr>"

definition sample_field :: "string \<Rightarrow> field_type \<Rightarrow> extraction_field" where
  "sample_field sel ty = \<lparr>xf_selector = Some sel, xf_type = ty, xf_description = None, xf_transform = None, xf_sensitive = False, xf_attribute = None,
     xf_default = JNull, xf_timeout = None, xf_example = None, xf_fallback_selector = None\<rparr>"

text \<open>A page with one element of every kind, whose text is \<open>$12.50\<close>, and a button that always leads to another page.\<close>

fun sample_page :: "page_cmd \<Rightarrow> unit \<Rightarrow> page_result \<times> unit" where
  "sample_page (AwaitAttached sel t) p = (PgOk (JInt 1), p)"
| "sample_page (ElementText el) p = (PgOk (JStr ''$12.50''), p)"
| "sample_page (QueryAll sel) p = (PgOk (JList [JInt 1]), p)"
| "sample_page (ElementQuery el sel) p = (PgOk (JInt 1), p)"
| "sample_page (QueryElement sel) p = (PgOk (JInt 2), p)"
| "sample_page (ElementAttribute el a) p = (PgOk JNull, p)"
| "sample_page _ p = (PgOk JNull, p)"

definition reading_exec :: "unit exec" where
  "reading_exec = \<lparr>ex_page = (), ex_log = [], ex_policy = None\<rparr>"

definition sample_defs :: "(string, field_def) dict" where
  "sample_defs = [(''name'', Scalar (sample_field ''#n'' T_EMAIL))]"

theorem extraction_complete_and_typed_witness:
  "\<exists>v. data_extract sample_text_lib sample_page ''bank'' sample_defs reading_exec = (Inr [(''name'', v)], reading_exec\<lparr>ex_log := [AwaitAttached (Some ''#n'') 15000, ElementText 1]\<rparr>) \<and>
    map fst [(''name'', v)] = map fst sample_defs \<and> list_all (\<lambda>(name, d). value_ok d (jget [(''name'', v)] name)) sample_defs"
proof -
  have "\<exists>v. data_extract sample_text_lib sample_page ''bank'' sample_defs reading_exec = (Inr [(''name'', v)], reading_exec\<lparr>ex_log := [AwaitAttached (Some ''#n'') 15000, ElementText 1]\<rparr>)"
    by (simp add: data_extract_def sample_defs_def sample_field_def extract_field_def ask_def send_def reading_exec_def or_int_def read_element_def bindr_def
        handle_of_def given_def apply_transform_def)
  then obtain v where v: "data_extract sample_text_lib sample_page ''bank'' sample_defs reading_exec =
      (Inr [(''name'', v)], reading_exec\<lparr>ex_log := [AwaitAttached (Some ''#n'') 15000, ElementText 1]\<rparr>)" by blast
  have "defs_ok sample_defs" by (simp add: defs_ok_def sample_defs_def dict_ok_def)
  from extraction_complete_and_typed [OF v this] v show ?thesis by (auto simp: list_all_iff)
qed

section \<open>Pages turned\<close>

definition clicks :: "'p exec \<Rightarrow> nat" where
  "clicks s = length (filter (\<lambda>c. case c of ElementClick _ \<Rightarrow> True | _ \<Rightarrow> False) (ex_log s))"

lemma clicks_send: "clicks (snd (send pg cmd s)) = clicks s + (case cmd of ElementClick _ \<Rightarrow> 1 | _ \<Rightarrow> 0)"
  by (simp add: clicks_def send_def split: prod.split page_cmd.split)

lemma clicks_ask: "clicks (snd (ask pg cmd s)) = clicks s + (case cmd of ElementClick _ \<Rightarrow> 1 | _ \<Rightarrow> 0)"
  using clicks_send [of pg cmd s] by (cases "send pg cmd s"; cases "fst (send pg cmd s)") (auto simp: ask_def)

lemma clicks_bindr:
  "clicks (snd m) \<le> clicks s + a \<Longrightarrow> (\<And>v t. m = (Inr v, t) \<Longrightarrow> clicks (snd (k v t)) \<le> clicks t + b) \<Longrightarrow> clicks (snd (bindr m k)) \<le> clicks s + (a + b)"
proof -
  assume m: "clicks (snd m) \<le> clicks s + a" and k: "\<And>v t. m = (Inr v, t) \<Longrightarrow> clicks (snd (k v t)) \<le> clicks t + b"
  obtain r t where rt: "m = (r, t)" by fastforce
  show ?thesis
  proof (cases r)
    case (Inr v)
    with k [of v t] m rt show ?thesis by (simp add: bindr_def)
  qed (use m rt in \<open>simp add: bindr_def\<close>)
qed

lemmas clicks_bindr0 = clicks_bindr [where a = 0 and b = 0, simplified]

lemma clicks_read_element: "clicks (snd (read_element lib pg f el s)) \<le> clicks s"
  by (auto simp: read_element_def clicks_ask split: option.split sum.split intro!: clicks_bindr0)

lemma clicks_extract_cell: "clicks (snd (extract_cell lib pg row f s)) \<le> clicks s"
proof -
  let ?m = "bindr (ask pg (ElementQuery row (xf_selector f)) s)
    (\<lambda>cell s. if cell = JNull then (Inr (xf_default f), s) else read_element lib pg f (handle_of cell) s)"
  have "clicks (snd ?m) \<le> clicks s" by (auto simp: clicks_ask intro!: clicks_bindr0 clicks_read_element)
  then show ?thesis by (cases ?m) (auto simp: extract_cell_def split: sum.split step_exc.split)
qed

lemma clicks_extract_row: "clicks (snd (extract_row lib pg row cols data s)) \<le> clicks s"
  by (induction lib pg row cols data s rule: extract_row.induct) (auto intro!: clicks_bindr0 clicks_extract_cell)

lemma clicks_extract_rows: "clicks (snd (extract_rows lib pg lf rows items s)) \<le> clicks s"
  by (induction lib pg lf rows items s rule: extract_rows.induct) (auto intro!: clicks_bindr0 clicks_extract_row)

lemma clicks_next_page: "clicks (snd (next_page pg p s)) \<le> clicks s + 1"
proof -
  let ?click = "\<lambda>btn s. bindr (ask pg (ElementClick (handle_of btn)) s) (\<lambda>_ s. bindr (ask pg (PauseFor (pg_wait_after_click p)) s) (\<lambda>_ s. (Inr True, s)))"
  have c: "clicks (snd (?click btn s)) \<le> clicks s + 1" for btn s
    using clicks_bindr [where a = 1 and b = 0, simplified] by (auto simp: clicks_ask intro!: clicks_bindr0 clicks_bindr [where a = 1 and b = 0, simplified])
  let ?m = "bindr (ask pg (QueryElement (Some (pg_next_selector p))) s)
    (\<lambda>btn s. if btn = JNull then (Inr False, s)
       else bindr (ask pg (ElementAttribute (handle_of btn) ''disabled'') s) (\<lambda>disabled s. if truthy disabled then (Inr False, s) else ?click btn s))"
  have "clicks (snd ?m) \<le> clicks s + (0 + 1)"
    by (rule clicks_bindr, simp add: clicks_ask, auto simp: clicks_ask c intro!: clicks_bindr [where a = 0 and b = 1, simplified] c [simplified])
  then show ?thesis by (cases ?m) (auto simp: next_page_def split: sum.split step_exc.split)
qed

text \<open>A list over \<open>n\<close> pages turns at most \<open>n - 1\<close> of them.\<close>

lemma clicks_list_loop: "clicks (snd (list_loop lib pg lf n items s)) \<le> clicks s + (n - 1)"
proof (induction n arbitrary: items s)
  case (Suc n)
  have turn: "clicks (snd (bindr (next_page pg p s) (\<lambda>turned s. if turned then list_loop lib pg lf n items s else (Inr items, s)))) \<le> clicks s + n" if "n > 0" for p items s
  proof -
    have "clicks (snd (bindr (next_page pg p s) (\<lambda>turned s. if turned then list_loop lib pg lf n items s else (Inr items, s)))) \<le> clicks s + (1 + (n - 1))"
      by (rule clicks_bindr [OF clicks_next_page]) (use Suc.IH in auto)
    with that show ?thesis by simp
  qed
  have stay: "clicks (snd (list_loop lib pg lf n items s)) \<le> clicks s + n" for items s using Suc.IH [of items s] by simp
  let ?rest = "\<lambda>items s. case lf_pagination lf of
      Some p \<Rightarrow> if n > 0 then bindr (next_page pg p s) (\<lambda>turned s. if turned then list_loop lib pg lf n items s else (Inr items, s)) else list_loop lib pg lf n items s
    | None \<Rightarrow> list_loop lib pg lf n items s"
  have rest: "clicks (snd (?rest items s)) \<le> clicks s + n" for items s by (simp add: turn stay split: option.split)
  have "clicks (snd (bindr (extract_rows lib pg lf rows items s) ?rest)) \<le> clicks s + n" for rows items s
    using clicks_bindr [where a = 0 and b = n, simplified, OF clicks_extract_rows rest] .
  note found = this
  show ?case
    unfolding list_loop.simps diff_Suc_1 by (rule clicks_bindr [where a = 0 and b = n, simplified]) (auto simp: clicks_ask intro!: found)
qed simp

text \<open>Extraction ends after a bounded number of pages: a paginated list is left after at most \<open>max_pages - 1\<close> turns, an unpaginated one turns none.\<close>

theorem list_pages_bounded:
  "clicks (snd (extract_list lib pg lf s)) \<le> clicks s + (case lf_pagination lf of None \<Rightarrow> 0 | Some p \<Rightarrow> nat (pg_max_pages p - 1))"
proof -
  let ?n = "nat (case lf_pagination lf of None \<Rightarrow> 1 | Some p \<Rightarrow> pg_max_pages p)"
  have "clicks (snd (extract_list lib pg lf s)) \<le> clicks s + (?n - 1 + 0)"
    unfolding extract_list_def by (rule clicks_bindr [OF clicks_list_loop]) simp
  then show ?thesis by (simp add: nat_diff_distrib' split: option.splits)
qed

text \<open>A list that has reached its limit goes on turning pages: the limit only ends the loop over the rows of a page. On a page with a next button the
  bound above is reached with one row wanted and one row returned.\<close>

definition one_row :: "int \<Rightarrow> list_extraction_field" where
  "one_row pages = \<lparr>lf_selector = Some ''tr'', lf_type = T_LIST, lf_description = None, lf_fields = [], lf_max_items = Some 1,
     lf_pagination = Some \<lparr>pg_next_selector = ''.next'', pg_max_pages = pages, pg_wait_after_click = 0\<rparr>\<rparr>"

lemma one_row_fields [simp]: "lf_selector (one_row k) = Some ''tr''" "lf_fields (one_row k) = []" "lf_max_items (one_row k) = Some 1"
  "lf_pagination (one_row k) = Some \<lparr>pg_next_selector = ''.next'', pg_max_pages = k, pg_wait_after_click = 0\<rparr>"
  by (simp_all add: one_row_def)

lemma one_row_rows: "extract_rows lib pg (one_row k) [r] [x] s = (Inr [x], s)"
  by (simp add: full_def)

lemma first_row: "extract_rows lib pg (one_row k) [r] [] s = (Inr [JObj []], s)"
  by (simp add: full_def bindr_def)

lemma sample_turn:
  "next_page sample_page p s = (Inr True, s\<lparr>ex_log := ex_log s @ [QueryElement (Some (pg_next_selector p)), ElementAttribute 2 ''disabled'', ElementClick 2, PauseFor (pg_wait_after_click p)]\<rparr>)"
  by (simp add: next_page_def ask_def send_def bindr_def handle_of_def)

lemma full_list_loop:
  "\<exists>s'. list_loop lib sample_page (one_row k) (Suc n) [x] s = (Inr [x], s') \<and> clicks s' = clicks s + n"
proof (induction n arbitrary: s)
  case 0
  show ?case by (simp add: ask_def send_def bindr_def handles_def one_row_rows clicks_def full_def)
next
  case (Suc n)
  let ?q = "s\<lparr>ex_log := ex_log s @ [QueryAll (Some ''tr'')]\<rparr>"
  let ?t = "?q\<lparr>ex_log := ex_log ?q @ [QueryElement (Some ''.next''), ElementAttribute 2 ''disabled'', ElementClick 2, PauseFor 0]\<rparr>"
  have q: "ask sample_page (QueryAll (lf_selector (one_row k))) s = (Inr (JList [JInt 1]), ?q)" by (cases s) (simp add: ask_def send_def)
  have "list_loop lib sample_page (one_row k) (Suc (Suc n)) [x] s = list_loop lib sample_page (one_row k) (Suc n) [x] ?t"
    unfolding list_loop.simps(2) [of _ _ _ "Suc n"] q
    by (simp add: bindr_def handles_def full_def sample_turn del: list_loop.simps)
  with Suc.IH [of ?t] show ?case by (auto simp: clicks_def simp del: list_loop.simps)
qed

theorem full_list_keeps_turning:
  "\<exists>item s'. extract_list lib sample_page (one_row (int (Suc n))) s = (Inr (JList [item]), s') \<and> clicks s' = clicks s + n"
proof (cases n)
  case 0
  have "extract_row lib sample_page 1 [] [] t = (Inr [], t)" for t :: "unit exec" by simp
  then show ?thesis using 0
    by (simp add: extract_list_def ask_def send_def bindr_def handles_def full_def clicks_def handle_of_def)
next
  case (Suc m)
  let ?k = "int (Suc n)"
  let ?q = "s\<lparr>ex_log := ex_log s @ [QueryAll (Some ''tr'')]\<rparr>"
  let ?t = "?q\<lparr>ex_log := ex_log ?q @ [QueryElement (Some ''.next''), ElementAttribute 2 ''disabled'', ElementClick 2, PauseFor 0]\<rparr>"
  have q: "ask sample_page (QueryAll (lf_selector (one_row ?k))) s = (Inr (JList [JInt 1]), ?q)" by (cases s) (simp add: ask_def send_def)
  have "list_loop lib sample_page (one_row ?k) (Suc (Suc m)) [] s = list_loop lib sample_page (one_row ?k) (Suc m) [JObj []] ?t"
    unfolding list_loop.simps(2) [of _ _ _ "Suc m"] q
    by (simp add: bindr_def handles_def first_row sample_turn del: list_loop.simps extract_rows.simps)
  moreover obtain s' where s': "list_loop lib sample_page (one_row ?k) (Suc m) [JObj []] ?t = (Inr [JObj []], s')" "clicks s' = clicks ?t + m"
    using full_list_loop by blast
  moreover have "nat ?k = Suc (Suc m)" using Suc by simp
  ultimately have "extract_list lib sample_page (one_row ?k) s = (Inr (JList [JObj []]), s')"
    by (simp add: extract_list_def bindr_def del: list_loop.simps)
  moreover have "clicks s' = clicks s + n" using s'(2) Suc by (simp add: clicks_def)
  ultimately show ?thesis by blast
qed

text \<open>A number that is both transformed and coerced is written out as text in between. Python writes ten to the sixteenth as \<^verbatim>\<open>1e+16\<close>; the letter and the
  sign are dropped and 116 remains.\<close>

theorem large_numbers_read_wrong:
  assumes "tl_str lib (JNum (10 ^ 16)) = ''1e+16''"
  shows "map_sum id (\<lambda>v. coerce_type lib v T_NUMBER) (apply_transform lib ''10000000000000000'' (Some ''to_number'')) = Inr (JNum 116)"
proof -
  have p: "parameterised ''to_number'' = None" by (simp add: parameterised_def is_word_def is_alnum_def)
  have d: "list_all is_digit ''10000000000000000''" by (simp add: is_digit_def)
  have n: "numeric_chars ''10000000000000000'' = ''10000000000000000''" by (simp add: numeric_chars_def is_digit_def)
  have "py_float ''10000000000000000'' = Some (10 ^ 16)"
    by (simp add: py_float_def unsigned_float_def is_digit_def read_nat_def)
  then have 1: "apply_transform lib ''10000000000000000'' (Some ''to_number'') = Inr (JNum (10 ^ 16))"
    by (simp add: apply_transform_def p simple_transform_def transform_to_number_def n)
  have "py_strip ''1e+16'' = ''1e+16''" by (simp add: py_strip_def rstrip_of_def is_space_def)
  moreover have "numeric_chars ''1e+16'' = ''116''" by (simp add: numeric_chars_def is_digit_def)
  moreover have "py_float ''116'' = Some 116" by (simp add: py_float_def unsigned_float_def is_digit_def read_nat_def)
  ultimately have "coerce_type lib (JNum (10 ^ 16)) T_NUMBER = JNum 116" using assms by (simp add: coerce_type_def transform_to_number_def)
  with 1 show ?thesis by simp
qed

theorem large_numbers_read_wrong_witness:
  "map_sum id (\<lambda>v. coerce_type (sample_text_lib\<lparr>tl_str := (\<lambda>_. ''1e+16'')\<rparr>) v T_NUMBER)
     (apply_transform (sample_text_lib\<lparr>tl_str := (\<lambda>_. ''1e+16'')\<rparr>) ''10000000000000000'' (Some ''to_number'')) = Inr (JNum 116)"
  by (rule large_numbers_read_wrong) (simp add: sample_text_lib_def)

end
