(* ===== verification/LLM_Provider.thy ===== *)
theory LLM_Provider imports Circuit_Breaker Py_Float begin

text \<open>
  \<^verbatim>\<open>src/core/llm_provider.py\<close>: the clients of the language models (OpenAI and Anthropic), the chain that tries several models behind a circuit
  breaker, and the reading of JSON from an answer.

  HTTP is an argument: what the reply of a POST is. \<^verbatim>\<open>float\<close> and \<^verbatim>\<open>json.loads\<close> are arguments too. The attempts of one provider within a call are
  numbered from 0, as in \<open>retry_with_backoff\<close>.
\<close>

section \<open>Answers and errors\<close>

record token_usage =
  tu_prompt_tokens :: json
  tu_completion_tokens :: json
  tu_total_tokens :: json

record llm_response =
  lr_content :: json
  lr_model :: json
  lr_usage :: token_usage
  lr_latency_ms :: real
  lr_provider :: string

text \<open>\<open>LLM_other\<close>: an exception that is no \<^verbatim>\<open>LLMProviderError\<close>, as a network error or a body of another shape.\<close>

datatype llm_exc = LLMRateLimitError string "real option" | LLMAuthError string | LLMProviderError string | LLM_other string

fun exc_message :: "llm_exc \<Rightarrow> string" where
  "exc_message (LLMRateLimitError m r) = m"
| "exc_message (LLMAuthError m) = m"
| "exc_message (LLMProviderError m) = m"
| "exc_message (LLM_other m) = m"

text \<open>\<^verbatim>\<open>except LLMProviderError\<close>.\<close>

fun provider_error :: "llm_exc \<Rightarrow> bool" where
  "provider_error (LLM_other m) = False"
| "provider_error _ = True"

definition newline :: char where "newline = CHR 0x0A"
definition fence :: string where "fence = ''```''"

text \<open>The text of \<open>parse_json\<close> before \<^verbatim>\<open>json.loads\<close>.\<close>

definition unfenced :: "string \<Rightarrow> string" where
  "unfenced content =
     (let text = py_strip content
      in if starts_with fence text
         then let lines = split_on newline text
              in join newline (if py_strip (last lines) = fence then butlast (tl lines) else tl lines)
         else text)"

text \<open>\<open>None\<close>: an exception, of \<^verbatim>\<open>json.loads\<close> (\<open>Some None\<close> tells a \<^verbatim>\<open>JSONDecodeError\<close>) or of a content that is no text.\<close>

datatype 'a parsed = Parsed 'a | Decode_error | Type_error

definition parse_json :: "(string \<Rightarrow> json option) \<Rightarrow> llm_response \<Rightarrow> json parsed" where
  "parse_json loads r =
     (case lr_content r of
        JStr content \<Rightarrow> (case loads (unfenced content) of Some v \<Rightarrow> Parsed v | None \<Rightarrow> Decode_error)
      | _ \<Rightarrow> Type_error)"

section \<open>The two providers\<close>

type_synonym message = "(string, json) dict"

datatype provider_kind = OpenAI | Anthropic

record provider =
  pv_kind :: provider_kind
  pv_model :: string
  pv_api_key :: string
  pv_base_url :: string
  pv_max_tokens :: int
  pv_temperature :: real
  pv_timeout :: real

fun provider_name :: "provider_kind \<Rightarrow> string" where
  "provider_name OpenAI = ''openai''"
| "provider_name Anthropic = ''anthropic''"

definition create_provider ::
  "string \<Rightarrow> string \<Rightarrow> string option \<Rightarrow> string option \<Rightarrow> int \<Rightarrow> real \<Rightarrow> real \<Rightarrow> provider option" where
  "create_provider provider_type api_key model base_url max_tokens temperature timeout =
     (let ty = py_strip (py_lower provider_type);
          make = (\<lambda>k m u. \<lparr>pv_kind = k, pv_model = (case model of Some x \<Rightarrow> if x \<noteq> '''' then x else m | None \<Rightarrow> m), pv_api_key = api_key,
            pv_base_url = rstrip_slash (case base_url of Some x \<Rightarrow> if x \<noteq> '''' then x else u | None \<Rightarrow> u), pv_max_tokens = max_tokens,
            pv_temperature = temperature, pv_timeout = timeout\<rparr>)
      in if ty = ''openai'' then Some (make OpenAI ''gpt-4o-mini'' ''https://api.openai.com/v1'')
         else if ty = ''anthropic'' then Some (make Anthropic ''claude-sonnet-4-20250514'' ''https://api.anthropic.com'')
         else None)"

record http_reply =
  hr_status :: nat
  hr_retry_after :: "string option"
  hr_text :: string
  hr_json :: "json option"

record llm_lib =
  ll_float :: "string \<Rightarrow> real option"
  ll_loads :: "string \<Rightarrow> json option"

text \<open>The body of a request. \<open>response_format\<close> is only sent to OpenAI; Anthropic gets the last system message beside the others.\<close>

definition common_payload :: "provider \<Rightarrow> message list \<Rightarrow> int option \<Rightarrow> real option \<Rightarrow> (string, json) dict" where
  "common_payload p messages max_tokens temperature =
     [(''model'', JStr (pv_model p)), (''messages'', JList (map JObj messages)),
      (''max_tokens'', JInt (case max_tokens of Some n \<Rightarrow> if n \<noteq> 0 then n else pv_max_tokens p | None \<Rightarrow> pv_max_tokens p)),
      (''temperature'', JNum (case temperature of Some t \<Rightarrow> t | None \<Rightarrow> pv_temperature p))]"

definition system_text :: "message list \<Rightarrow> json" where
  "system_text ms = foldl (\<lambda>t m. if jget m ''role'' = JStr ''system'' then jget m ''content'' else t) JNull ms"

definition user_messages :: "message list \<Rightarrow> message list" where
  "user_messages ms = filter (\<lambda>m. jget m ''role'' \<noteq> JStr ''system'') ms"

definition llm_payload :: "provider \<Rightarrow> message list \<Rightarrow> int option \<Rightarrow> real option \<Rightarrow> json option \<Rightarrow> (string, json) dict" where
  "llm_payload p messages max_tokens temperature response_format =
     (case pv_kind p of
        OpenAI \<Rightarrow> common_payload p messages max_tokens temperature @
          (case response_format of Some f \<Rightarrow> if truthy f then [(''response_format'', f)] else [] | None \<Rightarrow> [])
      | Anthropic \<Rightarrow> common_payload p (user_messages messages) max_tokens temperature @
          (if truthy (system_text messages) then [(''system'', system_text messages)] else []))"

text \<open>Reading the body; \<open>None\<close> is a \<^verbatim>\<open>KeyError\<close>, \<^verbatim>\<open>IndexError\<close>, \<^verbatim>\<open>TypeError\<close> or \<^verbatim>\<open>AttributeError\<close>.\<close>

fun jfield :: "json option \<Rightarrow> string \<Rightarrow> json option" where
  "jfield (Some (JObj d)) k = map_of d k"
| "jfield _ k = None"

fun jfirst :: "json option \<Rightarrow> json option" where
  "jfirst (Some (JList (x # xs))) = Some x"
| "jfirst _ = None"

definition jdefault :: "(string, json) dict \<Rightarrow> string \<Rightarrow> json \<Rightarrow> json" where
  "jdefault d k v = (case map_of d k of Some x \<Rightarrow> x | None \<Rightarrow> v)"

fun add_counts :: "json \<Rightarrow> json \<Rightarrow> json option" where
  "add_counts (JInt a) (JInt b) = Some (JInt (a + b))"
| "add_counts (JInt a) (JNum b) = Some (JNum (of_int a + b))"
| "add_counts (JNum a) (JInt b) = Some (JNum (a + of_int b))"
| "add_counts (JNum a) (JNum b) = Some (JNum (a + b))"
| "add_counts _ _ = None"

definition usage_of :: "(string, json) dict \<Rightarrow> (string, json) dict option" where
  "usage_of d = (case map_of d ''usage'' of None \<Rightarrow> Some [] | Some (JObj u) \<Rightarrow> Some u | Some _ \<Rightarrow> None)"

definition openai_answer :: "provider \<Rightarrow> real \<Rightarrow> json option \<Rightarrow> llm_response option" where
  "openai_answer p latency body =
     (case (body, jfield (jfield (jfirst (jfield body ''choices'')) ''message'') ''content'') of
        (Some (JObj d), Some content) \<Rightarrow>
          map_option (\<lambda>u. \<lparr>lr_content = content, lr_model = jdefault d ''model'' (JStr (pv_model p)),
            lr_usage = \<lparr>tu_prompt_tokens = jdefault u ''prompt_tokens'' (JInt 0), tu_completion_tokens = jdefault u ''completion_tokens'' (JInt 0),
              tu_total_tokens = jdefault u ''total_tokens'' (JInt 0)\<rparr>, lr_latency_ms = latency, lr_provider = ''openai''\<rparr>) (usage_of d)
      | _ \<Rightarrow> None)"

text \<open>\<^verbatim>\<open>"".join(b["text"] for b in content if b["type"] == "text")\<close>.\<close>

fun text_blocks :: "json list \<Rightarrow> string option" where
  "text_blocks [] = Some ''''"
| "text_blocks (JObj b # bs) =
     (case map_of b ''type'' of
        None \<Rightarrow> None
      | Some ty \<Rightarrow>
          if ty = JStr ''text''
          then (case (map_of b ''text'', text_blocks bs) of (Some (JStr t), Some r) \<Rightarrow> Some (t @ r) | _ \<Rightarrow> None)
          else text_blocks bs)"
| "text_blocks _ = None"

definition anthropic_answer :: "provider \<Rightarrow> real \<Rightarrow> json option \<Rightarrow> llm_response option" where
  "anthropic_answer p latency body =
     (case body of
        Some (JObj d) \<Rightarrow>
          (case (json_iter (jdefault d ''content'' (JList [])), usage_of d) of
             (Some blocks, Some u) \<Rightarrow>
               (case (text_blocks blocks, add_counts (jdefault u ''input_tokens'' (JInt 0)) (jdefault u ''output_tokens'' (JInt 0))) of
                  (Some text, Some both) \<Rightarrow>
                    Some \<lparr>lr_content = JStr text, lr_model = jdefault d ''model'' (JStr (pv_model p)),
                      lr_usage = \<lparr>tu_prompt_tokens = jdefault u ''input_tokens'' (JInt 0), tu_completion_tokens = jdefault u ''output_tokens'' (JInt 0),
                        tu_total_tokens = both\<rparr>, lr_latency_ms = latency, lr_provider = ''anthropic''\<rparr>
                | _ \<Rightarrow> None)
           | _ \<Rightarrow> None)
      | _ \<Rightarrow> None)"

text \<open>\<open>_call\<close> from the reply on. A \<^verbatim>\<open>retry-after\<close> that is no number (an HTTP date is none) raises a \<^verbatim>\<open>ValueError\<close>.\<close>

fun title :: "provider_kind \<Rightarrow> string" where
  "title OpenAI = ''OpenAI''"
| "title Anthropic = ''Anthropic''"

definition read_reply :: "llm_lib \<Rightarrow> provider \<Rightarrow> real \<Rightarrow> http_reply \<Rightarrow> (llm_exc, llm_response) outcome" where
  "read_reply l p latency r =
     (if hr_status r = 429
      then (case hr_retry_after r of
              None \<Rightarrow> Raised (LLMRateLimitError (title (pv_kind p) @ '' rate limit exceeded'') None)
            | Some h \<Rightarrow>
                if h = '''' then Raised (LLMRateLimitError (title (pv_kind p) @ '' rate limit exceeded'') None)
                else (case ll_float l h of
                        None \<Rightarrow> Raised (LLM_other (''could not convert string to float''))
                      | Some t \<Rightarrow> Raised (LLMRateLimitError (title (pv_kind p) @ '' rate limit exceeded'') (Some t))))
      else if hr_status r = 401 \<or> hr_status r = 403
      then Raised (LLMAuthError (title (pv_kind p) @ '' authentication failed: '' @ show_nat (hr_status r)))
      else if hr_status r \<noteq> 200
      then Raised (LLMProviderError (title (pv_kind p) @ '' API error '' @ show_nat (hr_status r) @ '': '' @ take 500 (hr_text r)))
      else (case (case pv_kind p of OpenAI \<Rightarrow> openai_answer p latency (hr_json r) | Anthropic \<Rightarrow> anthropic_answer p latency (hr_json r)) of
              Some a \<Rightarrow> Returned a
            | None \<Rightarrow> Raised (LLM_other ''unexpected response body'')))"

text \<open>A POST that fails raises an error of \<^verbatim>\<open>httpx\<close>.\<close>

definition llm_call :: "llm_lib \<Rightarrow> provider \<Rightarrow> real \<Rightarrow> (string, http_reply) outcome \<Rightarrow> (llm_exc, llm_response) outcome" where
  "llm_call l p latency posted =
     (case posted of
        Returned r \<Rightarrow> read_reply l p latency r
      | Raised e \<Rightarrow> Raised (LLM_other e)
      | Cancelled \<Rightarrow> Cancelled)"

definition extract_messages :: "string \<Rightarrow> string option \<Rightarrow> message list" where
  "extract_messages prompt system_prompt =
     (case system_prompt of Some sp \<Rightarrow> if sp \<noteq> '''' then [[(''role'', JStr ''system''), (''content'', JStr sp)]] else [] | None \<Rightarrow> []) @
     [[(''role'', JStr ''user''), (''content'', JStr prompt)]]"

section \<open>The chain\<close>

definition llm_retries :: "int \<Rightarrow> llm_exc retry_params" where
  "llm_retries max_attempts =
     \<lparr>retries = max_attempts, base_delay = 1 / 2, max_delay = 8, jitter = True,
      retry_on = (\<lambda>e. case e of LLMRateLimitError _ _ \<Rightarrow> True | _ \<Rightarrow> False),
      delay_for = Some (\<lambda>e. case e of LLMRateLimitError _ t \<Rightarrow> t | _ \<Rightarrow> None)\<rparr>"

type_synonym attempts = "nat \<Rightarrow> (llm_exc, llm_response) outcome"

fun call_chain :: "int \<Rightarrow> (nat \<Rightarrow> real) \<Rightarrow> attempts list \<Rightarrow> string \<Rightarrow> (llm_exc, llm_response) outcome" where
  "call_chain n rnd [] last_error = Raised (LLMProviderError (''All providers in fallback chain failed. Last error: '' @ last_error))"
| "call_chain n rnd (p # ps) last_error =
     (case fst (retry_with_backoff (llm_retries n) rnd p) of
        Returned r \<Rightarrow> Returned r
      | Cancelled \<Rightarrow> Cancelled
      | Raised (LLMAuthError m) \<Rightarrow> Raised (LLMAuthError m)
      | Raised e \<Rightarrow> if provider_error e then call_chain n rnd ps (exc_message e) else Raised e)"

definition open_message :: "cb_error \<Rightarrow> string" where
  "open_message e = (case e of CircuitBreakerOpenError name wait \<Rightarrow>
     ''Circuit '' @ [CHR 0x27] @ name @ [CHR 0x27] @ '' is open; failing fast (retry in ~'' @ show_int (round_half_even wait) @ ''s)'')"

text \<open>\<^verbatim>\<open>FallbackChain._call\<close>, behind the breaker of the process.\<close>

definition chain_call ::
  "time \<Rightarrow> time \<Rightarrow> int \<Rightarrow> (nat \<Rightarrow> real) \<Rightarrow> attempts list \<Rightarrow> circuit_breaker \<Rightarrow> (llm_exc, llm_response) outcome \<times> circuit_breaker" where
  "chain_call t0 t1 n rnd ps b =
     (case cb_call t0 t1 (\<lambda>w. (call_chain n rnd ps ''None'', w)) b () of
        (Inl e, b, _) \<Rightarrow> (Raised (LLMProviderError (open_message e)), b)
      | (Inr r, b, _) \<Rightarrow> (r, b))"

section \<open>Fenced answers\<close>

lemma split_join:
  "xs \<noteq> [] \<Longrightarrow> \<forall>x \<in> set xs. c \<notin> set x \<Longrightarrow> split_on c (join c xs) = xs"
proof (induction c xs rule: join.induct)
  case (2 c x)
  have "c \<notin> set x \<Longrightarrow> split_on c x = [x]" by (induction x) auto
  with 2 show ?case by simp
next
  case (3 c x y xs)
  have "c \<notin> set x \<Longrightarrow> split_on c (x @ c # r) = x # split_on c r" for r by (induction x) auto
  with 3 show ?case by simp
qed simp

lemma split_on_append: "c \<notin> set x \<Longrightarrow> split_on c (x @ c # r) = x # split_on c r"
  by (induction x) auto

lemma split_on_snoc: "split_on c (t @ [c] @ r) = split_on c t @ split_on c r"
  by (induction t) (auto split: list.splits)

lemma newline_fence [simp]: "newline \<notin> set fence" "\<not> is_space (CHR 0x60)" "hd fence = CHR 0x60" "last fence = CHR 0x60" "fence \<noteq> []"
  by (simp_all add: newline_def fence_def is_space_def)

lemma strip_keeps: "s \<noteq> [] \<Longrightarrow> \<not> is_space (hd s) \<Longrightarrow> \<not> is_space (last s) \<Longrightarrow> py_strip s = s"
  by (cases s) (simp_all add: py_strip_def rstrip_of_none)

text \<open>A JSON text between fences is read as if it stood alone, whatever its lines and the language tag are.\<close>

lemma unfenced_fenced:
  assumes "newline \<notin> set tag"
  shows "unfenced (fence @ tag @ [newline] @ text @ [newline] @ fence) = text"
proof -
  let ?c = "fence @ tag @ [newline] @ text @ [newline] @ fence"
  have "last ?c = CHR 0x60" by (simp add: fence_def)
  then have "py_strip ?c = ?c" by (intro strip_keeps) (simp_all add: fence_def is_space_def)
  moreover have "starts_with fence ?c" by (simp add: fence_def)
  moreover have "split_on newline ?c = (fence @ tag) # split_on newline text @ [fence]"
  proof -
    have "split_on newline fence = [fence]" by (simp add: fence_def newline_def)
    then show ?thesis
      using split_on_append [of newline "fence @ tag" "text @ [newline] @ fence"] split_on_snoc [of newline "text" fence] assms by simp
  qed
  moreover have "py_strip fence = fence" by (intro strip_keeps) simp_all
  ultimately show ?thesis by (simp add: unfenced_def Let_def join_split_on)
qed

section \<open>What the chain answers\<close>

text \<open>The final outcome of a provider after its retries.\<close>

definition settled :: "int \<Rightarrow> (nat \<Rightarrow> real) \<Rightarrow> attempts \<Rightarrow> (llm_exc, llm_response) outcome" where
  "settled n rnd p = fst (retry_with_backoff (llm_retries n) rnd p)"

definition gives_way :: "(llm_exc, llm_response) outcome \<Rightarrow> bool" where
  "gives_way r \<longleftrightarrow> (\<exists>e. r = Raised e \<and> provider_error e \<and> (\<forall>m. e \<noteq> LLMAuthError m))"

lemma call_chain_step:
  "call_chain n rnd (p # ps) last_error =
     (if gives_way (settled n rnd p) then call_chain n rnd ps (case settled n rnd p of Raised e \<Rightarrow> exc_message e | _ \<Rightarrow> '''') else settled n rnd p)"
proof (cases "settled n rnd p")
  case (Raised e)
  then show ?thesis by (cases e) (simp_all add: settled_def gives_way_def)
qed (simp_all add: settled_def gives_way_def)

lemma call_chain_prefix:
  "list_all (\<lambda>p. gives_way (settled n rnd p)) ps \<Longrightarrow> \<exists>last'. call_chain n rnd (ps @ qs) last_error = call_chain n rnd qs last'"
proof (induction ps arbitrary: last_error)
  case (Cons p ps)
  then show ?case unfolding append_Cons call_chain_step by auto
qed auto

declare call_chain.simps(2) [simp del]

text \<open>What a provider settles on is the outcome of one of at most \<open>n + 1\<close> attempts, every earlier one refused for the rate limit.\<close>

lemma settled_attempt:
  assumes "0 \<le> n"
  obtains k where "settled n rnd p = p k" "int k \<le> n" "\<forall>i < k. \<exists>m t. p i = Raised (LLMRateLimitError m t)"
proof -
  let ?r = "retry_with_backoff (llm_retries n) rnd p"
  have "fst ?r = p (length (snd ?r)) \<and> (\<forall>i < length (snd ?r). retryable (llm_retries n) (p i)) \<and> int (length (snd ?r)) \<le> max 0 n"
    using retry_loop_final [of "llm_retries n" rnd p 0]
    by (auto simp: retry_with_backoff_def Let_def llm_retries_def split: prod.splits)
  moreover have "retryable (llm_retries n) r \<Longrightarrow> \<exists>m t. r = Raised (LLMRateLimitError m t)" for r
    by (auto simp: retryable_def llm_retries_def split: outcome.splits llm_exc.splits)
  ultimately show ?thesis using assms by (intro that [of "length (snd ?r)"]) (auto simp: settled_def)
qed


section \<open>The theorems\<close>

text \<open>The chain answers with the first provider that does, as long as the breaker lets the call through and those before it failed with an error of
  their own: then the breaker counts a success, and the answer is that of one of at most \<open>n + 1\<close> attempts of that provider, all earlier ones of
  which were refused for the rate limit.\<close>

theorem chain_answers_with_first_success:
  assumes "0 \<le> n" "before_call t0 b = Inr b'" "list_all (\<lambda>p. gives_way (settled n rnd p)) ps" "settled n rnd p = Returned r"
  shows "chain_call t0 t1 n rnd (ps @ p # qs) b = (Returned r, on_success b') \<and>
    (\<exists>k. p k = Returned r \<and> int k \<le> n \<and> (\<forall>i < k. \<exists>m t. p i = Raised (LLMRateLimitError m t)))"
proof -
  obtain last' where "call_chain n rnd (ps @ p # qs) ''None'' = call_chain n rnd (p # qs) last'" using call_chain_prefix [OF assms(3)] by blast
  also have "\<dots> = Returned r" by (simp add: call_chain_step assms(4) gives_way_def)
  finally have c: "chain_call t0 t1 n rnd (ps @ p # qs) b = (Returned r, on_success b')" by (simp add: chain_call_def cb_call_def assms(2))
  obtain k where "settled n rnd p = p k" "int k \<le> n" "\<forall>i < k. \<exists>m t. p i = Raised (LLMRateLimitError m t)" using settled_attempt [OF assms(1)] .
  with c assms(4) show ?thesis by auto
qed

definition sample_answer :: llm_response where
  "sample_answer = \<lparr>lr_content = JStr ''{}'', lr_model = JStr ''m'', lr_usage = \<lparr>tu_prompt_tokens = JInt 1, tu_completion_tokens = JInt 1, tu_total_tokens = JInt 2\<rparr>,
     lr_latency_ms = 1, lr_provider = ''openai''\<rparr>"

theorem chain_answers_with_first_success_witness:
  "fst (chain_call 0 1 2 (\<lambda>_. 0) ([\<lambda>_. Raised (LLMProviderError ''down'')] @ (\<lambda>k. if k = 0 then Raised (LLMRateLimitError ''slow'' None) else Returned sample_answer) # [])
     (new_breaker ''llm'' 5 30)) = Returned sample_answer"
proof -
  have a: "settled 2 (\<lambda>_. 0) (\<lambda>_. Raised (LLMProviderError ''down'')) = Raised (LLMProviderError ''down'')"
    by (simp add: settled_def retry_with_backoff_def retry_loop.simps llm_retries_def)
  have b: "settled 2 (\<lambda>_. 0) (\<lambda>k. if k = 0 then Raised (LLMRateLimitError ''slow'' None) else Returned sample_answer) = Returned sample_answer"
    by (simp add: settled_def retry_with_backoff_def retry_loop.simps [of _ _ _ 0] retry_loop.simps [of _ _ _ "Suc 0"] llm_retries_def)
  have c: "before_call 0 (new_breaker ''llm'' 5 30) = Inr (new_breaker ''llm'' 5 30)" by (simp add: before_call_def new_breaker_def)
  have "list_all (\<lambda>p. gives_way (settled 2 (\<lambda>_. 0) p)) [\<lambda>_. Raised (LLMProviderError ''down'')]" by (simp add: a gives_way_def)
  from chain_answers_with_first_success [OF _ c this b, of 1 "[]"] show ?thesis by simp
qed

text \<open>An error that is not one of the providers' own, such as a network timeout of the first model, ends the chain: no other model is asked, the
  error reaches the caller as it is, and the breaker counts a failure.\<close>

theorem network_error_skips_fallback:
  assumes "before_call t0 b = Inr b'" "p 0 = llm_call l pv latency (Raised err)"
  shows "chain_call t0 t1 n rnd (p # ps) b = (Raised (LLM_other err), on_failure t1 b')"
proof -
  have "settled n rnd p = Raised (LLM_other err)"
    using assms(2) by (simp add: settled_def retry_with_backoff_def retry_loop.simps llm_call_def llm_retries_def)
  then have "call_chain n rnd (p # ps) ''None'' = Raised (LLM_other err)" by (simp add: call_chain_step gives_way_def)
  then show ?thesis by (simp add: chain_call_def cb_call_def assms(1))
qed

definition sample_llm_lib :: llm_lib where
  "sample_llm_lib = \<lparr>ll_float = py_float, ll_loads = (\<lambda>_. None)\<rparr>"

definition sample_provider :: provider where
  "sample_provider = \<lparr>pv_kind = OpenAI, pv_model = ''m'', pv_api_key = ''k'', pv_base_url = ''u'', pv_max_tokens = 1, pv_temperature = 0, pv_timeout = 60\<rparr>"

theorem network_error_skips_fallback_witness:
  "fst (chain_call 0 60 2 (\<lambda>_. 0) [\<lambda>_. Raised (LLM_other ''ReadTimeout''), \<lambda>_. Returned sample_answer] (new_breaker ''llm'' 5 30)) = Raised (LLM_other ''ReadTimeout'')"
proof -
  have c: "before_call 0 (new_breaker ''llm'' 5 30) = Inr (new_breaker ''llm'' 5 30)" by (simp add: before_call_def new_breaker_def)
  from network_error_skips_fallback [OF c, of "\<lambda>_. Raised (LLM_other ''ReadTimeout'')" sample_llm_lib sample_provider 0 "''ReadTimeout''" 60 2 "\<lambda>_. 0" "[\<lambda>_. Returned sample_answer]"]
  show ?thesis by (simp add: llm_call_def)
qed

text \<open>Whatever the providers do, the chain raises no rate-limit error: they are retried, then reported as the failure of all providers.\<close>

lemma chain_hides_rate_limits: "call_chain n rnd ps last_error \<noteq> Raised (LLMRateLimitError m t)"
proof (induction ps arbitrary: last_error)
  case (Cons p ps)
  show ?case
  proof (cases "gives_way (settled n rnd p)")
    case False
    then have "settled n rnd p \<noteq> Raised (LLMRateLimitError m t)" by (auto simp: gives_way_def)
    with False show ?thesis by (simp add: call_chain_step)
  qed (simp add: call_chain_step Cons.IH)
qed simp

end
