(* ===== verification/Base64.thy ===== *)
theory Base64 imports Plaidify_Prelude begin

text \<open>
  \<^verbatim>\<open>base64.urlsafe_b64encode\<close> and \<^verbatim>\<open>base64.urlsafe_b64decode\<close> of the Python standard library, on byte
  strings (a byte is a \<^typ>\<open>char\<close>), and the test that a byte string is valid UTF-8. The decoder is
  the lenient one the library uses: characters outside the alphabet are skipped, data after
  the padding is ignored, and only an incomplete group is an error.

  A text is its UTF-8 bytes, so \<^verbatim>\<open>encode("utf-8")\<close> is the identity and \<^verbatim>\<open>decode("utf-8")\<close> is the test.
\<close>

section \<open>The alphabet\<close>

definition b64_char :: "nat \<Rightarrow> char" where
  "b64_char v = char_of (if v < 26 then 65 + v else if v < 52 then 71 + v else if v < 62 then v - 4
     else if v = 62 then 45 else 95 :: nat)"

definition b64_value :: "char \<Rightarrow> nat option" where
  "b64_value c = (let n = (of_char c :: nat)
     in if 65 \<le> n \<and> n \<le> 90 then Some (n - 65) else if 97 \<le> n \<and> n \<le> 122 then Some (n - 71)
        else if 48 \<le> n \<and> n \<le> 57 then Some (n + 4) else if n = 45 \<or> n = 43 then Some 62 else if n = 95 \<or> n = 47 then Some 63
        else None)"

definition pad :: char where "pad = CHR ''=''"

lemma b64_value_char [simp]:
  assumes "v < 64"
  shows "b64_value (b64_char v) = Some v"
proof -
  consider "v < 26" | "26 \<le> v" "v < 52" | "52 \<le> v" "v < 62" | "v = 62" | "v = 63" using assms by linarith
  then show ?thesis by cases (simp_all add: b64_char_def b64_value_def of_char_of Let_def, presburger)
qed

lemma b64_char_not_pad [simp]: "v < 64 \<Longrightarrow> b64_char v \<noteq> pad"
  using b64_value_char [of v] by (auto simp: b64_value_def pad_def)

section \<open>Encoding\<close>

fun b64_encode :: "string \<Rightarrow> string" where
  "b64_encode [] = []"
| "b64_encode [a] = (let x = of_char a in [b64_char (x div 4), b64_char (x mod 4 * 16), pad, pad])"
| "b64_encode [a, b] = (let x = of_char a; y = of_char b
     in [b64_char (x div 4), b64_char (x mod 4 * 16 + y div 16), b64_char (y mod 16 * 4), pad])"
| "b64_encode (a # b # c # bytes) = (let x = of_char a; y = of_char b; z = of_char c
     in [b64_char (x div 4), b64_char (x mod 4 * 16 + y div 16), b64_char (y mod 16 * 4 + z div 64), b64_char (z mod 64)]
        @ b64_encode bytes)"

section \<open>Decoding\<close>

text \<open>\<open>quad\<close>: the position in the group of four; \<open>left\<close>: the bits read and not yet written; \<open>pads\<close>: the padding
  characters in a row. \<open>None\<close>: \<^verbatim>\<open>binascii.Error\<close>.\<close>

fun b64_loop :: "nat \<Rightarrow> nat \<Rightarrow> nat \<Rightarrow> string \<Rightarrow> string option" where
  "b64_loop quad left pads [] = (if quad = 0 then Some [] else None)"
| "b64_loop quad left pads (c # cs) =
     (if c = pad
      then (if 2 \<le> quad \<and> 4 \<le> quad + pads + 1 then Some [] else b64_loop quad left (if 2 \<le> quad then pads + 1 else pads) cs)
      else (case b64_value c of
              None \<Rightarrow> b64_loop quad left pads cs
            | Some v \<Rightarrow>
                if quad = 0 then b64_loop 1 v 0 cs
                else if quad = 1 then map_option (Cons (char_of (left * 4 + v div 16))) (b64_loop 2 (v mod 16) 0 cs)
                else if quad = 2 then map_option (Cons (char_of (left * 16 + v div 4))) (b64_loop 3 (v mod 4) 0 cs)
                else map_option (Cons (char_of (left * 64 + v))) (b64_loop 0 0 0 cs)))"

definition b64_decode :: "string \<Rightarrow> string option" where
  "b64_decode s = b64_loop 0 0 0 s"

lemma sextets [simp]:
  assumes "x < 256" "y < 256" "z < (256 :: nat)"
  shows "x div 4 < 64" "x mod 4 * 16 + y div 16 < 64" "y mod 16 * 4 + z div 64 < 64" "z mod 64 < 64"
    and "x mod 4 * 16 < 64" "y mod 16 * 4 < 64"
    and "x div 4 * 4 + (x mod 4 * 16 + y div 16) div 16 = x" "(x mod 4 * 16 + y div 16) mod 16 = y div 16"
    and "y div 16 * 16 + (y mod 16 * 4 + z div 64) div 4 = y" "(y mod 16 * 4 + z div 64) mod 4 = z div 64"
    and "z div 64 * 64 + z mod 64 = z"
proof -
  have y: "y div 16 < 16" and z: "z div 64 < 4" using assms by auto
  show "x div 4 < 64" "z mod 64 < 64" "x mod 4 * 16 < 64" "y mod 16 * 4 < 64" "z div 64 * 64 + z mod 64 = z"
    using assms by auto
  have "x mod 4 \<le> 3" "y mod 16 \<le> 15" by simp_all
  with y z show "x mod 4 * 16 + y div 16 < 64" "y mod 16 * 4 + z div 64 < 64" by linarith+
  have "(x mod 4 * 16 + y div 16) div 16 = x mod 4" "(y mod 16 * 4 + z div 64) div 4 = y mod 16"
    using y z by simp_all
  then show "x div 4 * 4 + (x mod 4 * 16 + y div 16) div 16 = x" "y div 16 * 16 + (y mod 16 * 4 + z div 64) div 4 = y"
    by simp_all
  show "(x mod 4 * 16 + y div 16) mod 16 = y div 16" "(y mod 16 * 4 + z div 64) mod 4 = z div 64"
    using y z by simp_all
qed

lemma b64_loop_step:
  "v < 64 \<Longrightarrow> b64_loop 0 l p (b64_char v # cs) = b64_loop 1 v 0 cs"
  "v < 64 \<Longrightarrow> b64_loop (Suc 0) l p (b64_char v # cs) = map_option (Cons (char_of (l * 4 + v div 16))) (b64_loop 2 (v mod 16) 0 cs)"
  "v < 64 \<Longrightarrow> b64_loop 2 l p (b64_char v # cs) = map_option (Cons (char_of (l * 16 + v div 4))) (b64_loop 3 (v mod 4) 0 cs)"
  "v < 64 \<Longrightarrow> b64_loop 3 l p (b64_char v # cs) = map_option (Cons (char_of (l * 64 + v))) (b64_loop 0 0 0 cs)"
  by simp_all

lemma b64_loop_pad:
  "b64_loop 2 l 0 [pad, pad] = Some []" "b64_loop 3 l 0 [pad] = Some []"
  by simp_all

lemma b64_loop_encode: "b64_loop 0 0 0 (b64_encode bytes) = Some bytes"
proof (induction bytes rule: b64_encode.induct)
  case (2 a)
  have "(of_char a :: nat) < 256" "(0 :: nat) < 256" by simp_all
  from sextets [OF this(1,2,2)] show ?case by (simp add: b64_loop_step b64_loop_pad Let_def del: b64_loop.simps)
next
  case (3 a b)
  have "(of_char a :: nat) < 256" "(of_char b :: nat) < 256" "(0 :: nat) < 256" by simp_all
  from sextets [OF this] show ?case by (simp add: b64_loop_step b64_loop_pad Let_def del: b64_loop.simps)
next
  case (4 a b c bytes)
  have "(of_char a :: nat) < 256" "(of_char b :: nat) < 256" "(of_char c :: nat) < 256" by simp_all
  from sextets [OF this] 4 show ?case by (simp add: b64_loop_step Let_def del: b64_loop.simps)
qed simp

lemma b64_roundtrip [simp]: "b64_decode (b64_encode bytes) = Some bytes"
  by (simp add: b64_decode_def b64_loop_encode)

lemma length_b64_encode: "length (b64_encode bytes) = 4 * ((length bytes + 2) div 3)"
proof (induction bytes rule: b64_encode.induct)
  case (4 a b c bytes)
  have "(5 + n) div 3 = Suc ((n + 2) div 3)" for n :: nat by (simp add: div_if [of "5 + n"] add.commute)
  with 4 show ?case by (simp add: Let_def)
qed (simp_all add: Let_def)

section \<open>UTF-8\<close>

definition cont_byte :: "char \<Rightarrow> bool" where
  "cont_byte c \<longleftrightarrow> (let n = (of_char c :: nat) in 128 \<le> n \<and> n \<le> 191)"

definition byte_in :: "nat \<Rightarrow> nat \<Rightarrow> char \<Rightarrow> bool" where
  "byte_in lo hi c \<longleftrightarrow> lo \<le> of_char c \<and> of_char c \<le> hi"

fun utf8_ok :: "string \<Rightarrow> bool" where
  "utf8_ok [] = True"
| "utf8_ok [a] = byte_in 0 127 a"
| "utf8_ok [a, b] = (byte_in 0 127 a \<and> utf8_ok [b] \<or> byte_in 194 223 a \<and> cont_byte b)"
| "utf8_ok [a, b, c] =
     (byte_in 0 127 a \<and> utf8_ok [b, c] \<or> byte_in 194 223 a \<and> cont_byte b \<and> utf8_ok [c] \<or>
      cont_byte c \<and> (byte_in 224 224 a \<and> byte_in 160 191 b \<or> byte_in 225 236 a \<and> cont_byte b \<or>
        byte_in 237 237 a \<and> byte_in 128 159 b \<or> byte_in 238 239 a \<and> cont_byte b))"
| "utf8_ok (a # b # c # d # s) =
     (byte_in 0 127 a \<and> utf8_ok (b # c # d # s) \<or> byte_in 194 223 a \<and> cont_byte b \<and> utf8_ok (c # d # s) \<or>
      cont_byte c \<and> utf8_ok (d # s) \<and> (byte_in 224 224 a \<and> byte_in 160 191 b \<or> byte_in 225 236 a \<and> cont_byte b \<or>
        byte_in 237 237 a \<and> byte_in 128 159 b \<or> byte_in 238 239 a \<and> cont_byte b) \<or>
      cont_byte c \<and> cont_byte d \<and> utf8_ok s \<and> (byte_in 240 240 a \<and> byte_in 144 191 b \<or>
        byte_in 241 243 a \<and> cont_byte b \<or> byte_in 244 244 a \<and> byte_in 128 143 b))"

definition utf8_decode :: "string \<Rightarrow> string option" where
  "utf8_decode s = (if utf8_ok s then Some s else None)"

section \<open>The standard alphabet\<close>

text \<open>Standard base64, the URL-safe alphabet with two characters changed.\<close>

definition std_char :: "char \<Rightarrow> char" where
  "std_char c = (if c = CHR ''-'' then CHR ''+'' else if c = CHR ''_'' then CHR ''/'' else c)"

definition std_b64_encode :: "string \<Rightarrow> string" where
  "std_b64_encode bytes = map std_char (b64_encode bytes)"

lemma std_char_value: "c \<noteq> CHR ''-'' \<Longrightarrow> c \<noteq> CHR ''_'' \<Longrightarrow> std_char c = c" "std_char c \<noteq> CHR ''-''" "std_char c \<noteq> CHR ''_''"
    "b64_value (std_char c) = b64_value c" "std_char c = pad \<longleftrightarrow> c = pad"
  by (simp_all add: std_char_def b64_value_def pad_def)

lemma b64_loop_std: "b64_loop quad left pads (map std_char t) = b64_loop quad left pads t"
  by (induction t arbitrary: quad left pads) (simp_all add: std_char_value split: option.split)

end
