(* ===== verification/Extraction_Prompt.thy ===== *)
theory Extraction_Prompt imports Data_Extractor LLM_Provider Base64 begin

text \<open>
  \<^verbatim>\<open>src/core/extraction_prompt.py\<close> and \<^verbatim>\<open>src/core/multimodal_extractor.py\<close>: what the language model is asked about the fields of a blueprint, and
  what is read from its answer.

  \<^verbatim>\<open>json.dumps\<close> is an argument. So is the text \<open>label\<close> that Python gives a \<^verbatim>\<open>FieldType\<close> in a format string, which depends on its version.
\<close>

section \<open>Field definitions\<close>

record field_definition =
  fd_name :: string
  fd_type :: field_type
  fd_description :: string
  fd_sensitive :: bool
  fd_example :: "string option"

record list_field_definition =
  ld_name :: string
  ld_description :: string
  ld_fields :: "field_definition list"

datatype llm_field = One_field field_definition | List_field list_field_definition

definition fd_to_prompt_dict :: "field_definition \<Rightarrow> (string, json) dict" where
  "fd_to_prompt_dict f =
     [(''name'', JStr (fd_name f)), (''type'', JStr (field_type_value (fd_type f)))] @
     (if fd_description f \<noteq> '''' then [(''description'', JStr (fd_description f))] else []) @
     (case given (fd_example f) of Some e \<Rightarrow> [(''example'', JStr e)] | None \<Rightarrow> [])"

definition ld_to_prompt_dict :: "list_field_definition \<Rightarrow> (string, json) dict" where
  "ld_to_prompt_dict f =
     [(''name'', JStr (ld_name f)), (''type'', JStr ''list'')] @
     (if ld_description f \<noteq> '''' then [(''description'', JStr (ld_description f))] else []) @
     [(''fields'', JList (map (JObj \<circ> fd_to_prompt_dict) (ld_fields f)))]"

fun field_spec :: "llm_field \<Rightarrow> json" where
  "field_spec (One_field f) = JObj (fd_to_prompt_dict f)"
| "field_spec (List_field f) = JObj (ld_to_prompt_dict f)"

text \<open>\<open>fields_from_blueprint_extract\<close> on the dumped definitions of a blueprint. A scalar definition of type list or table becomes a list without
  columns.\<close>

definition text_or_empty :: "string option \<Rightarrow> string" where
  "text_or_empty v = (case v of Some s \<Rightarrow> s | None \<Rightarrow> '''')"

definition scalar_definition :: "string \<Rightarrow> extraction_field \<Rightarrow> field_definition" where
  "scalar_definition name f = \<lparr>fd_name = name, fd_type = xf_type f, fd_description = text_or_empty (xf_description f), fd_sensitive = xf_sensitive f,
     fd_example = xf_example f\<rparr>"

fun defs_to_field_def :: "string \<times> field_def \<Rightarrow> llm_field" where
  "defs_to_field_def (name, Scalar f) =
     (if xf_type f = T_LIST \<or> xf_type f = T_TABLE
      then List_field \<lparr>ld_name = name, ld_description = text_or_empty (xf_description f), ld_fields = []\<rparr>
      else One_field (scalar_definition name f))"
| "defs_to_field_def (name, Rows lf) =
     (if lf_type lf = T_LIST \<or> lf_type lf = T_TABLE
      then List_field \<lparr>ld_name = name, ld_description = text_or_empty (lf_description lf), ld_fields = map (\<lambda>(n, f). scalar_definition n f) (lf_fields lf)\<rparr>
      else One_field \<lparr>fd_name = name, fd_type = lf_type lf, fd_description = text_or_empty (lf_description lf), fd_sensitive = False, fd_example = None\<rparr>)"

definition defs_to_field_defs :: "(string, field_def) dict \<Rightarrow> llm_field list" where
  "defs_to_field_defs defs = map defs_to_field_def defs"

section \<open>Prompts\<close>

fun field_name :: "llm_field \<Rightarrow> string" where
  "field_name (One_field f) = fd_name f"
| "field_name (List_field f) = ld_name f"

definition angled :: "string \<Rightarrow> json" where "angled s = JStr (''<'' @ s @ ''>'')"

fun type_hint :: "(field_type \<Rightarrow> string) \<Rightarrow> field_type \<Rightarrow> json" where
  "type_hint label T_CURRENCY = angled ''number''"
| "type_hint label T_DATE = angled ''ISO_date_string''"
| "type_hint label T_BOOLEAN = angled ''true/false''"
| "type_hint label ty = angled (label ty)"

fun data_schema_of :: "(field_type \<Rightarrow> string) \<Rightarrow> llm_field \<Rightarrow> json" where
  "data_schema_of label (One_field f) = type_hint label (fd_type f)"
| "data_schema_of label (List_field f) = JList [JObj (dict_update [] (map (\<lambda>s. (fd_name s, angled (label (fd_type s)))) (ld_fields f)))]"

definition build_data_schema :: "(field_type \<Rightarrow> string) \<Rightarrow> llm_field list \<Rightarrow> (string, json) dict" where
  "build_data_schema label fs = dict_update [] (map (\<lambda>f. (field_name f, data_schema_of label f)) fs)"

fun selector_schema_of :: "llm_field \<Rightarrow> json" where
  "selector_schema_of (One_field f) = angled ''css_selector''"
| "selector_schema_of (List_field f) = JObj [(''row'', angled ''css_selector_for_each_row''),
     (''fields'', JObj (dict_update [] (map (\<lambda>s. (fd_name s, angled ''css_selector'')) (ld_fields f))))]"

definition build_output_schema :: "(field_type \<Rightarrow> string) \<Rightarrow> llm_field list \<Rightarrow> json" where
  "build_output_schema label fs =
     JObj [(''data'', JObj (build_data_schema label fs)), (''selectors'', JObj (dict_update [] (map (\<lambda>f. (field_name f, selector_schema_of f)) fs))),
       (''confidence'', angled ''float 0.0-1.0'')]"

definition vision_output_schema :: "(field_type \<Rightarrow> string) \<Rightarrow> llm_field list \<Rightarrow> json" where
  "vision_output_schema label fs = JObj [(''data'', JObj (build_data_schema label fs)), (''confidence'', angled ''float 0.0-1.0'')]"

definition context_part :: "string option \<Rightarrow> string list" where
  "context_part ctx = (case given ctx of Some c \<Rightarrow> [''## Page Context'' @ [newline] @ c @ [newline]] | None \<Rightarrow> [])"

definition build_extraction_prompt :: "(json \<Rightarrow> string) \<Rightarrow> (field_type \<Rightarrow> string) \<Rightarrow> string \<Rightarrow> llm_field list \<Rightarrow> string option \<Rightarrow> string" where
  "build_extraction_prompt dumps label html fs ctx =
     join newline
       ([''## Task'' @ [newline] @ ''Extract the following fields from the HTML below.'' @ [newline]] @ context_part ctx @
        [''## Fields to Extract'', ''```json'', dumps (JList (map field_spec fs)), ''```'' @ [newline], ''## Expected Output Schema'',
         ''Return JSON matching this exact structure:'', ''```json'', dumps (build_output_schema label fs), ''```'' @ [newline], ''## HTML'', ''```html'', html,
         ''```''])"

definition build_vision_prompt :: "(json \<Rightarrow> string) \<Rightarrow> (field_type \<Rightarrow> string) \<Rightarrow> llm_field list \<Rightarrow> string option \<Rightarrow> string" where
  "build_vision_prompt dumps label fs ctx =
     join newline
       ([''## Task'' @ [newline] @ ''Extract the following fields from the screenshot of a web page.'' @ [newline]] @ context_part ctx @
        [''## Fields to Extract'', ''```json'', dumps (JList (map field_spec fs)), ''```'' @ [newline], ''## Expected Output Schema'',
         ''Return JSON matching this exact structure:'', ''```json'', dumps (vision_output_schema label fs), ''```''])"

definition vision_messages :: "string \<Rightarrow> string \<Rightarrow> string \<Rightarrow> message list" where
  "vision_messages vision_system_prompt text_prompt image_b64 =
     [[(''role'', JStr ''system''), (''content'', JStr vision_system_prompt)],
      [(''role'', JStr ''user''),
       (''content'', JList [JObj [(''type'', JStr ''text''), (''text'', JStr text_prompt)],
          JObj [(''type'', JStr ''image_url''), (''image_url'', JObj [(''url'', JStr (''data:image/png;base64,'' @ image_b64)), (''detail'', JStr ''high'')])]])]]"

section \<open>Reading an answer\<close>

text \<open>\<^verbatim>\<open>max(0.0, min(1.0, float(v)))\<close>, 0 where \<^verbatim>\<open>float\<close> raises a \<^verbatim>\<open>TypeError\<close> or \<^verbatim>\<open>ValueError\<close>.\<close>

definition clamp :: "real \<Rightarrow> real" where
  "clamp r = max 0 (min 1 r)"

fun confidence_of :: "(string \<Rightarrow> real option) \<Rightarrow> json \<Rightarrow> real" where
  "confidence_of to_float (JNum r) = clamp r"
| "confidence_of to_float (JInt i) = clamp (of_int i)"
| "confidence_of to_float (JBool b) = (if b then 1 else 0)"
| "confidence_of to_float (JStr s) = (case to_float s of Some r \<Rightarrow> clamp r | None \<Rightarrow> 0)"
| "confidence_of to_float _ = 0"

text \<open>Data, selectors and confidence; \<open>None\<close>: an exception that is no \<^verbatim>\<open>LLMProviderError\<close>. \<open>Decode_error\<close> stands for the
  \<^verbatim>\<open>ValueError\<close> of an answer that is no JSON object too.\<close>

definition parse_extraction_json :: "llm_lib \<Rightarrow> llm_response \<Rightarrow> (json \<times> json \<times> real) parsed" where
  "parse_extraction_json l r =
     (case parse_json (ll_loads l) r of
        Parsed (JObj d) \<Rightarrow>
          Parsed (jdefault d ''data'' (JObj []), jdefault d ''selectors'' (JObj []), confidence_of (ll_float l) (jdefault d ''confidence'' (JNum 0)))
      | Parsed _ \<Rightarrow> Decode_error
      | Decode_error \<Rightarrow> Decode_error
      | Type_error \<Rightarrow> Type_error)"

lemma clamp_range [simp]: "0 \<le> clamp r" "clamp r \<le> 1"
  by (simp_all add: clamp_def)

lemma confidence_range: "0 \<le> confidence_of to_float v \<and> confidence_of to_float v \<le> 1"
  by (cases v) (auto split: option.split)

lemma parsed_confidence: "parse_extraction_json l r = Parsed (d, s, c) \<Longrightarrow> 0 \<le> c \<and> c \<le> 1"
  using confidence_range by (auto simp: parse_extraction_json_def split: parsed.splits json.splits)

text \<open>The fields the model is asked for are those of the blueprint, in the same order.\<close>

lemma field_names: "map field_name (defs_to_field_defs defs) = map fst defs"
proof -
  have "field_name (defs_to_field_def d) = fst d" for d by (cases d; cases "snd d") (auto simp: scalar_definition_def)
  then show ?thesis by (simp add: defs_to_field_defs_def)
qed

lemma dict_update_fresh:
  "distinct (map fst d @ map fst e) \<Longrightarrow> dict_update d e = d @ e"
proof (induction d e rule: dict_update.induct)
  case (2 d k v e)
  have "AList.update k v d = d @ [(k, v)]" using 2(2) by (induction d) auto
  moreover have "distinct (map fst (d @ [(k, v)]) @ map fst e)" using 2(2) by auto
  ultimately show ?case using 2(1) by simp
qed simp

lemma schema_keys: "dict_ok defs \<Longrightarrow> map fst (build_data_schema label (defs_to_field_defs defs)) = map fst defs"
  using field_names [of defs] by (simp add: build_data_schema_def dict_update_fresh dict_ok_def o_def)

end
