(* ===== verification/Selector_Cache.thy ===== *)
theory Selector_Cache imports Py_Text begin

text \<open>
  \<^verbatim>\<open>src/core/selector_cache.py\<close>: the selectors the language model found (any JSON value, the code does not check it), kept for each site and page until they are too old or have
  failed three times in a row, in memory and, when a path is configured, in a JSON file.

  The state has the file of the configured path beside the dictionary; creating its directory and failures to write are not modelled. A
  loaded field of another type than \<open>to_dict\<close> writes is outside the model (\<open>Ill_typed\<close>). SHA-256, \<^verbatim>\<open>json.dumps\<close> and \<^verbatim>\<open>json.loads\<close> are
  arguments.
\<close>

definition DEFAULT_TTL :: int where "DEFAULT_TTL = 86400 * 7"
definition MAX_FAILURES :: nat where "MAX_FAILURES = 3"

section \<open>Entries\<close>

record cache_entry =
  ce_domain :: string
  ce_page_path :: string
  ce_selectors :: json
  ce_confidence :: real
  ce_created_at :: time
  ce_ttl :: int
  ce_failure_count :: nat
  ce_last_failure_at :: "time option"
  ce_last_success_at :: "time option"
  ce_hit_count :: nat

definition is_expired :: "time \<Rightarrow> cache_entry \<Rightarrow> bool" where
  "is_expired now e \<longleftrightarrow> now > ce_created_at e + of_int (ce_ttl e)"

definition is_invalidated :: "cache_entry \<Rightarrow> bool" where
  "is_invalidated e \<longleftrightarrow> ce_failure_count e \<ge> MAX_FAILURES"

definition is_usable :: "time \<Rightarrow> cache_entry \<Rightarrow> bool" where
  "is_usable now e \<longleftrightarrow> \<not> is_expired now e \<and> \<not> is_invalidated e"

definition entry_success :: "time \<Rightarrow> cache_entry \<Rightarrow> cache_entry" where
  "entry_success now e = e\<lparr>ce_failure_count := 0, ce_last_success_at := Some now, ce_hit_count := ce_hit_count e + 1\<rparr>"

definition entry_failure :: "time \<Rightarrow> cache_entry \<Rightarrow> cache_entry" where
  "entry_failure now e = e\<lparr>ce_failure_count := ce_failure_count e + 1, ce_last_failure_at := Some now\<rparr>"

definition jtime :: "time option \<Rightarrow> json" where
  "jtime t = (case t of None \<Rightarrow> JNull | Some x \<Rightarrow> JNum x)"

definition entry_to_dict :: "cache_entry \<Rightarrow> (string, json) dict" where
  "entry_to_dict e =
     [(''domain'', JStr (ce_domain e)), (''page_path'', JStr (ce_page_path e)), (''selectors'', ce_selectors e), (''confidence'', JNum (ce_confidence e)),
      (''created_at'', JNum (ce_created_at e)), (''ttl'', JInt (ce_ttl e)), (''failure_count'', JInt (int (ce_failure_count e))),
      (''last_failure_at'', jtime (ce_last_failure_at e)), (''last_success_at'', jtime (ce_last_success_at e)), (''hit_count'', JInt (int (ce_hit_count e)))]"

datatype 'a loaded_field = Field 'a | Missing_key | Ill_typed

fun as_real :: "json option \<Rightarrow> real option \<Rightarrow> real loaded_field" where
  "as_real (Some (JNum r)) d = Field r"
| "as_real (Some (JInt i)) d = Field (of_int i)"
| "as_real (Some _) d = Ill_typed"
| "as_real None d = (case d of Some x \<Rightarrow> Field x | None \<Rightarrow> Missing_key)"

fun as_time :: "json option \<Rightarrow> time option loaded_field" where
  "as_time None = Field None"
| "as_time (Some JNull) = Field None"
| "as_time (Some (JNum r)) = Field (Some r)"
| "as_time (Some (JInt i)) = Field (Some (of_int i))"
| "as_time (Some _) = Ill_typed"

fun as_int :: "json option \<Rightarrow> int \<Rightarrow> int loaded_field" where
  "as_int None d = Field d"
| "as_int (Some (JInt i)) d = Field i"
| "as_int (Some _) d = Ill_typed"

fun as_text :: "json option \<Rightarrow> string loaded_field" where
  "as_text None = Missing_key"
| "as_text (Some (JStr s)) = Field s"
| "as_text (Some _) = Ill_typed"

fun as_any :: "json option \<Rightarrow> json loaded_field" where
  "as_any None = Missing_key"
| "as_any (Some v) = Field v"

fun and_then :: "'a loaded_field \<Rightarrow> ('a \<Rightarrow> 'b loaded_field) \<Rightarrow> 'b loaded_field" where
  "and_then (Field x) f = f x"
| "and_then Missing_key f = Missing_key"
| "and_then Ill_typed f = Ill_typed"

definition entry_from_dict :: "(string, json) dict \<Rightarrow> cache_entry loaded_field" where
  "entry_from_dict data =
     and_then (as_text (map_of data ''domain'')) (\<lambda>domain.
     and_then (as_text (map_of data ''page_path'')) (\<lambda>page_path.
     and_then (as_any (map_of data ''selectors'')) (\<lambda>selectors.
     and_then (as_real (map_of data ''confidence'') (Some 0)) (\<lambda>confidence.
     and_then (as_real (map_of data ''created_at'') None) (\<lambda>created_at.
     and_then (as_int (map_of data ''ttl'') DEFAULT_TTL) (\<lambda>ttl.
     and_then (as_int (map_of data ''failure_count'') 0) (\<lambda>failure_count.
     and_then (as_time (map_of data ''last_failure_at'')) (\<lambda>last_failure_at.
     and_then (as_time (map_of data ''last_success_at'')) (\<lambda>last_success_at.
     and_then (as_int (map_of data ''hit_count'') 0) (\<lambda>hit_count.
       if failure_count < 0 \<or> hit_count < 0 then Ill_typed
       else Field \<lparr>ce_domain = domain, ce_page_path = page_path, ce_selectors = selectors, ce_confidence = confidence, ce_created_at = created_at,
         ce_ttl = ttl, ce_failure_count = nat failure_count, ce_last_failure_at = last_failure_at, ce_last_success_at = last_success_at,
         ce_hit_count = nat hit_count\<rparr>))))))))))"

lemma entry_roundtrip: "entry_from_dict (entry_to_dict e) = Field e"
  by (cases "ce_last_failure_at e"; cases "ce_last_success_at e") (simp_all add: entry_from_dict_def entry_to_dict_def jtime_def)

section \<open>The cache\<close>

definition normal_domain :: "string \<Rightarrow> string" where
  "normal_domain domain = py_strip (py_lower domain)"

definition make_cache_key :: "(string \<Rightarrow> string) \<Rightarrow> string \<Rightarrow> string \<Rightarrow> string" where
  "make_cache_key sha domain page_path = take 16 (sha (normal_domain domain @ ''/'' @ strip_slash page_path))"

record selector_cache =
  sc_store :: "(string, cache_entry) dict"
  sc_persistent :: bool
  sc_default_ttl :: int
  sc_file :: "string option"

record cache_lib =
  cl_sha :: "string \<Rightarrow> string"
  cl_dumps :: "json \<Rightarrow> string"
  cl_loads :: "string \<Rightarrow> json option"

definition stored_json :: "(string, cache_entry) dict \<Rightarrow> json" where
  "stored_json store = JObj (map (\<lambda>(k, e). (k, JObj (entry_to_dict e))) store)"

definition save_to_disk :: "cache_lib \<Rightarrow> selector_cache \<Rightarrow> selector_cache" where
  "save_to_disk l c = (if sc_persistent c then c\<lparr>sc_file := Some (cl_dumps l (stored_json (sc_store c)))\<rparr> else c)"

text \<open>Entries are stored one by one: a \<^verbatim>\<open>KeyError\<close> ends the loop and is caught, and what was read before stays. \<open>None\<close>: an exception that
  is not caught.\<close>

fun load_entries :: "(string, json) dict \<Rightarrow> (string, cache_entry) dict \<Rightarrow> (string, cache_entry) dict option" where
  "load_entries [] store = Some store"
| "load_entries ((k, JObj d) # rest) store =
     (case entry_from_dict d of
        Field e \<Rightarrow> load_entries rest (AList.update k e store)
      | Missing_key \<Rightarrow> Some store
      | Ill_typed \<Rightarrow> None)"
| "load_entries ((k, _) # rest) store = None"

definition load_from_disk :: "cache_lib \<Rightarrow> selector_cache \<Rightarrow> selector_cache option" where
  "load_from_disk l c =
     (if \<not> sc_persistent c then Some c
      else case sc_file c of
        None \<Rightarrow> Some c
      | Some text \<Rightarrow>
          (case cl_loads l text of
             None \<Rightarrow> Some c
           | Some (JObj d) \<Rightarrow> map_option (\<lambda>s. c\<lparr>sc_store := s\<rparr>) (load_entries d (sc_store c))
           | Some _ \<Rightarrow> None))"

definition new_cache :: "cache_lib \<Rightarrow> bool \<Rightarrow> int \<Rightarrow> string option \<Rightarrow> selector_cache option" where
  "new_cache l persistent ttl file = load_from_disk l \<lparr>sc_store = [], sc_persistent = persistent, sc_default_ttl = ttl, sc_file = file\<rparr>"

definition cache_get :: "cache_lib \<Rightarrow> time \<Rightarrow> string \<Rightarrow> string \<Rightarrow> selector_cache \<Rightarrow> cache_entry option" where
  "cache_get l now domain page_path c =
     (case map_of (sc_store c) (make_cache_key (cl_sha l) domain page_path) of
        None \<Rightarrow> None
      | Some e \<Rightarrow> if is_usable now e then Some e else None)"

definition cache_put ::
  "cache_lib \<Rightarrow> time \<Rightarrow> string \<Rightarrow> string \<Rightarrow> json \<Rightarrow> real \<Rightarrow> int option \<Rightarrow> selector_cache \<Rightarrow> selector_cache" where
  "cache_put l now domain page_path selectors confidence ttl c =
     (let entry = \<lparr>ce_domain = normal_domain domain, ce_page_path = page_path, ce_selectors = selectors, ce_confidence = confidence, ce_created_at = now,
            ce_ttl = (case ttl of Some t \<Rightarrow> if t \<noteq> 0 then t else sc_default_ttl c | None \<Rightarrow> sc_default_ttl c), ce_failure_count = 0,
            ce_last_failure_at = None, ce_last_success_at = None, ce_hit_count = 0\<rparr>
      in save_to_disk l (c\<lparr>sc_store := AList.update (make_cache_key (cl_sha l) domain page_path) entry (sc_store c)\<rparr>))"

definition cache_change :: "cache_lib \<Rightarrow> (cache_entry \<Rightarrow> cache_entry) \<Rightarrow> string \<Rightarrow> string \<Rightarrow> selector_cache \<Rightarrow> selector_cache" where
  "cache_change l f domain page_path c =
     (let key = make_cache_key (cl_sha l) domain page_path
      in case map_of (sc_store c) key of
           None \<Rightarrow> c
         | Some e \<Rightarrow> save_to_disk l (c\<lparr>sc_store := AList.update key (f e) (sc_store c)\<rparr>))"

definition cache_success :: "cache_lib \<Rightarrow> time \<Rightarrow> string \<Rightarrow> string \<Rightarrow> selector_cache \<Rightarrow> selector_cache" where
  "cache_success l now = cache_change l (entry_success now)"

definition cache_failure :: "cache_lib \<Rightarrow> time \<Rightarrow> string \<Rightarrow> string \<Rightarrow> selector_cache \<Rightarrow> selector_cache" where
  "cache_failure l now = cache_change l (entry_failure now)"

definition cache_invalidate :: "cache_lib \<Rightarrow> string \<Rightarrow> string \<Rightarrow> selector_cache \<Rightarrow> bool \<times> selector_cache" where
  "cache_invalidate l domain page_path c =
     (let key = make_cache_key (cl_sha l) domain page_path
      in if map_of (sc_store c) key \<noteq> None then (True, save_to_disk l (c\<lparr>sc_store := AList.delete key (sc_store c)\<rparr>)) else (False, c))"

definition cache_invalidate_domain :: "cache_lib \<Rightarrow> string \<Rightarrow> selector_cache \<Rightarrow> nat \<times> selector_cache" where
  "cache_invalidate_domain l domain c =
     (let domain = normal_domain domain; to_remove = map fst (filter (\<lambda>(_, e). ce_domain e = domain) (sc_store c));
          c = c\<lparr>sc_store := dict_del_all to_remove (sc_store c)\<rparr>
      in (length to_remove, if to_remove \<noteq> [] then save_to_disk l c else c))"

definition cache_clear :: "cache_lib \<Rightarrow> selector_cache \<Rightarrow> selector_cache" where
  "cache_clear l c = save_to_disk l (c\<lparr>sc_store := []\<rparr>)"

definition cache_stats :: "time \<Rightarrow> selector_cache \<Rightarrow> (string \<times> nat) list" where
  "cache_stats now c =
     (let es = map snd (sc_store c); count = (\<lambda>P. length (filter P es))
      in [(''total_entries'', length es), (''usable'', count (is_usable now)), (''expired'', count (is_expired now)),
          (''invalidated'', count is_invalidated), (''total_hits'', sum_list (map ce_hit_count es))])"

section \<open>Histories\<close>

datatype cache_op = Put time string string json real "int option" | Success time string string | Failure time string string
  | Invalidate string string | Invalidate_domain string | Clear

fun apply_op :: "cache_lib \<Rightarrow> cache_op \<Rightarrow> selector_cache \<Rightarrow> selector_cache" where
  "apply_op l (Put now d p sel conf ttl) c = cache_put l now d p sel conf ttl c"
| "apply_op l (Success now d p) c = cache_success l now d p c"
| "apply_op l (Failure now d p) c = cache_failure l now d p c"
| "apply_op l (Invalidate d p) c = snd (cache_invalidate l d p c)"
| "apply_op l (Invalidate_domain d) c = snd (cache_invalidate_domain l d c)"
| "apply_op l Clear c = cache_clear l c"

fun apply_ops :: "cache_lib \<Rightarrow> cache_op list \<Rightarrow> selector_cache \<Rightarrow> selector_cache" where
  "apply_ops l [] c = c"
| "apply_ops l (op # ops) c = apply_ops l ops (apply_op l op c)"

text \<open>The abstract cache: for each key the selectors of the last \<open>Put\<close>, until when they are good, and the failures since the last success.\<close>

record cached =
  ch_domain :: string
  ch_selectors :: json
  ch_until :: time
  ch_failures :: nat

type_synonym abstract_cache = "string \<Rightarrow> cached option"

definition abs_entry :: "cache_entry \<Rightarrow> cached" where
  "abs_entry e = \<lparr>ch_domain = ce_domain e, ch_selectors = ce_selectors e, ch_until = ce_created_at e + of_int (ce_ttl e), ch_failures = ce_failure_count e\<rparr>"

definition abs_cache :: "selector_cache \<Rightarrow> abstract_cache" where
  "abs_cache c = (\<lambda>k. map_option abs_entry (map_of (sc_store c) k))"

fun abs_op :: "cache_lib \<Rightarrow> int \<Rightarrow> cache_op \<Rightarrow> abstract_cache \<Rightarrow> abstract_cache" where
  "abs_op l default_ttl (Put now d p sel conf ttl) m = m(make_cache_key (cl_sha l) d p \<mapsto>
     \<lparr>ch_domain = normal_domain d, ch_selectors = sel, ch_until = now + of_int (if ttl = None \<or> ttl = Some 0 then default_ttl else the ttl), ch_failures = 0\<rparr>)"
| "abs_op l _ (Success now d p) m = (let k = make_cache_key (cl_sha l) d p in m(k := map_option (\<lambda>x. x\<lparr>ch_failures := 0\<rparr>) (m k)))"
| "abs_op l _ (Failure now d p) m = (let k = make_cache_key (cl_sha l) d p in m(k := map_option (\<lambda>x. x\<lparr>ch_failures := ch_failures x + 1\<rparr>) (m k)))"
| "abs_op l _ (Invalidate d p) m = m(make_cache_key (cl_sha l) d p := None)"
| "abs_op l _ (Invalidate_domain d) m = (\<lambda>k. case m k of Some x \<Rightarrow> if ch_domain x = normal_domain d then None else Some x | None \<Rightarrow> None)"
| "abs_op l _ Clear m = (\<lambda>_. None)"

definition abs_get :: "cache_lib \<Rightarrow> time \<Rightarrow> string \<Rightarrow> string \<Rightarrow> abstract_cache \<Rightarrow> json option" where
  "abs_get l now d p m =
     (case m (make_cache_key (cl_sha l) d p) of
        Some x \<Rightarrow> if now \<le> ch_until x \<and> ch_failures x < MAX_FAILURES then Some (ch_selectors x) else None
      | None \<Rightarrow> None)"

section \<open>The cache refines the abstract one\<close>

lemma save_store [simp]: "sc_store (save_to_disk l c) = sc_store c" "sc_default_ttl (save_to_disk l c) = sc_default_ttl c"
  "sc_persistent (save_to_disk l c) = sc_persistent c"
  by (simp_all add: save_to_disk_def)

lemma default_ttl_op [simp]: "sc_default_ttl (apply_op l op c) = sc_default_ttl c"
  by (cases op) (simp_all add: cache_put_def cache_success_def cache_failure_def cache_change_def cache_invalidate_def cache_invalidate_domain_def
      cache_clear_def Let_def split: option.splits)

lemma dict_ok_op [inv_intros]: "dict_ok (sc_store c) \<Longrightarrow> dict_ok (sc_store (apply_op l op c))"
  by (cases op) (simp_all add: cache_put_def cache_success_def cache_failure_def cache_change_def cache_invalidate_def cache_invalidate_domain_def
      cache_clear_def Let_def split: option.splits)

lemma abs_change: "abs_cache (cache_change l f d p c) = (abs_cache c)(make_cache_key (cl_sha l) d p :=
    map_option (\<lambda>e. abs_entry (f e)) (map_of (sc_store c) (make_cache_key (cl_sha l) d p)))"
  by (auto simp: cache_change_def abs_cache_def Let_def fun_eq_iff split: option.splits)

lemma abs_entry_simps:
  "abs_entry (entry_success now e) = (abs_entry e)\<lparr>ch_failures := 0\<rparr>" "abs_entry (entry_failure now e) = (abs_entry e)\<lparr>ch_failures := ch_failures (abs_entry e) + 1\<rparr>"
  by (simp_all add: abs_entry_def entry_success_def entry_failure_def)

lemma abs_invalidate_domain:
  assumes "dict_ok (sc_store c)"
  shows "abs_cache (snd (cache_invalidate_domain l d c)) k =
    (case abs_cache c k of Some x \<Rightarrow> if ch_domain x = normal_domain d then None else Some x | None \<Rightarrow> None)"
proof -
  let ?gone = "map fst (filter (\<lambda>(_, e). ce_domain e = normal_domain d) (sc_store c))"
  have "sc_store (snd (cache_invalidate_domain l d c)) = dict_del_all ?gone (sc_store c)"
    by (simp add: cache_invalidate_domain_def Let_def)
  moreover have "k \<in> set ?gone \<longleftrightarrow> (\<exists>e. map_of (sc_store c) k = Some e \<and> ce_domain e = normal_domain d)"
    using assms by (force simp: dict_ok_def)
  ultimately show ?thesis
    by (cases "map_of (sc_store c) k") (auto simp: abs_cache_def map_of_del_all abs_entry_def)
qed

lemma abs_op_refines:
  assumes "dict_ok (sc_store c)"
  shows "abs_cache (apply_op l op c) = abs_op l (sc_default_ttl c) op (abs_cache c)"
proof (cases op)
  case (Put now d p sel conf ttl)
  then show ?thesis
    by (cases ttl) (auto simp: abs_cache_def cache_put_def abs_entry_def Let_def fun_eq_iff)
next
  case (Invalidate d p)
  then show ?thesis by (auto simp: abs_cache_def cache_invalidate_def Let_def fun_eq_iff)
next
  case (Invalidate_domain d)
  then show ?thesis using abs_invalidate_domain [OF assms] by (auto simp: fun_eq_iff)
next
  case (Success now d p)
  then show ?thesis by (simp add: cache_success_def abs_change abs_entry_simps Let_def) (simp add: abs_cache_def option.map_comp o_def)
next
  case (Failure now d p)
  then show ?thesis by (simp add: cache_failure_def abs_change abs_entry_simps Let_def) (simp add: abs_cache_def option.map_comp o_def)
qed (simp add: cache_clear_def abs_cache_def)

fun abs_ops :: "cache_lib \<Rightarrow> int \<Rightarrow> cache_op list \<Rightarrow> abstract_cache \<Rightarrow> abstract_cache" where
  "abs_ops l ttl [] m = m"
| "abs_ops l ttl (op # ops) m = abs_ops l ttl ops (abs_op l ttl op m)"

lemma abs_ops_refines:
  "dict_ok (sc_store c) \<Longrightarrow> abs_cache (apply_ops l ops c) = abs_ops l (sc_default_ttl c) ops (abs_cache c) \<and> dict_ok (sc_store (apply_ops l ops c))"
proof (induction ops arbitrary: c)
  case (Cons op ops)
  from Cons.IH [OF dict_ok_op [OF Cons.prems]] abs_op_refines [OF Cons.prems] show ?case by simp
qed simp

lemma abs_get_refines: "map_option ce_selectors (cache_get l now d p c) = abs_get l now d p (abs_cache c)"
  by (auto simp: cache_get_def abs_get_def abs_cache_def abs_entry_def is_usable_def is_expired_def is_invalidated_def not_less not_le
      split: option.splits)

text \<open>C39. After any history the cache answers as the abstract one: with the selectors stored last for the site and page, until their time is over, as
  long as fewer than three failures were recorded since they were stored or last succeeded, and with nothing otherwise.\<close>

theorem selector_cache_refines:
  "map_option ce_selectors (cache_get l now domain path (apply_ops l ops \<lparr>sc_store = [], sc_persistent = persistent, sc_default_ttl = ttl, sc_file = file\<rparr>)) =
   abs_get l now domain path (abs_ops l ttl ops (\<lambda>_. None))"
proof -
  have "abs_cache \<lparr>sc_store = [], sc_persistent = persistent, sc_default_ttl = ttl, sc_file = file\<rparr> = (\<lambda>_. None)" by (simp add: abs_cache_def)
  then show ?thesis by (simp add: abs_get_refines abs_ops_refines)
qed

section \<open>Persistence\<close>

lemma load_stored:
  "dict_ok store \<Longrightarrow> (\<forall>k \<in> set (map fst store). k \<notin> set (map fst done)) \<Longrightarrow>
   load_entries (map (\<lambda>(k, e). (k, JObj (entry_to_dict e))) store) done = Some (done @ store)"
proof (induction store arbitrary: "done")
  case (Cons x store)
  obtain k e where x: "x = (k, e)" by fastforce
  have "k \<notin> set (map fst done)" using Cons.prems(2) x by simp
  then have "AList.update k e done = done @ [(k, e)]" by (induction "done") auto
  moreover have "load_entries (map (\<lambda>(k, e). (k, JObj (entry_to_dict e))) store) (done @ [(k, e)]) = Some ((done @ [(k, e)]) @ store)"
    using Cons.prems x by (intro Cons.IH) (auto simp: dict_ok_def)
  ultimately show ?case by (simp add: x entry_roundtrip)
qed simp

text \<open>The file holds the dictionary after every operation that wrote.\<close>

definition in_step :: "cache_lib \<Rightarrow> selector_cache \<Rightarrow> bool" where
  "in_step l c \<longleftrightarrow> sc_file c = Some (cl_dumps l (stored_json (sc_store c)))"

lemma save_file [simp]: "sc_persistent c \<Longrightarrow> sc_file (save_to_disk l c) = Some (cl_dumps l (stored_json (sc_store c)))"
  by (simp add: save_to_disk_def)

lemma in_step_op: "sc_persistent c \<Longrightarrow> in_step l c \<Longrightarrow> in_step l (apply_op l op c) \<and> sc_persistent (apply_op l op c)"
  by (cases op) (simp_all add: cache_put_def cache_success_def cache_failure_def cache_change_def cache_invalidate_def cache_invalidate_domain_def
      cache_clear_def Let_def filter_empty_conv dict_del_all_filter in_step_def split: option.splits)

lemma in_step_ops: "sc_persistent c \<Longrightarrow> in_step l c \<Longrightarrow> in_step l (apply_ops l ops c) \<and> sc_persistent (apply_ops l ops c)"
  by (induction ops arbitrary: c) (simp_all add: in_step_op)

text \<open>A restart on the file of a cache that has written it once brings back every entry, with its age and its failures.\<close>

theorem restart_keeps_cache:
  assumes "new_cache l True ttl None = Some c0" and "c = apply_ops l ops (cache_clear l c0)"
    and "cl_loads l (cl_dumps l (stored_json (sc_store c))) = Some (stored_json (sc_store c))"
  shows "new_cache l True ttl (sc_file c) = Some c"
proof -
  have c0: "c0 = \<lparr>sc_store = [], sc_persistent = True, sc_default_ttl = ttl, sc_file = None\<rparr>"
    using assms(1) by (simp add: new_cache_def load_from_disk_def)
  have ttl: "sc_default_ttl (apply_ops l ops c) = sc_default_ttl c" for ops c by (induction ops arbitrary: c) simp_all
  have "in_step l (cache_clear l c0)" "sc_persistent (cache_clear l c0)" by (simp_all add: cache_clear_def in_step_def c0)
  then have f: "in_step l c" "sc_persistent c" unfolding assms(2) using in_step_ops by blast+
  have "dict_ok (sc_store c)" unfolding assms(2) using abs_ops_refines [of "cache_clear l c0"] by (simp add: cache_clear_def)
  then have "load_entries (map (\<lambda>(k, e). (k, JObj (entry_to_dict e))) (sc_store c)) [] = Some (sc_store c)" by (simp add: load_stored)
  moreover have "sc_default_ttl c = ttl" by (simp add: assms(2) ttl cache_clear_def c0)
  ultimately show ?thesis
    using f assms(3) by (simp add: new_cache_def load_from_disk_def in_step_def stored_json_def)
qed

definition sample_lib :: cache_lib where
  "sample_lib = \<lparr>cl_sha = id, cl_dumps = (\<lambda>_. ''text''),
     cl_loads = (\<lambda>_. Some (JObj [(''bank/home'', JObj [(''domain'', JStr ''bank''), (''page_path'', JStr ''/home''), (''selectors'', JObj [(''balance'', JStr ''#b'')]),
       (''confidence'', JNum 1), (''created_at'', JNum 5), (''ttl'', JInt 60), (''failure_count'', JInt 1), (''last_failure_at'', JNum 7),
       (''last_success_at'', JNull), (''hit_count'', JInt 0)])]))\<rparr>"

definition sample_history :: "cache_op list" where
  "sample_history = [Put 5 ''bank '' ''/home'' (JObj [(''balance'', JStr ''#b'')]) 1 (Some 60), Failure 7 ''bank'' ''home'']"

theorem restart_keeps_cache_witness:
  "new_cache sample_lib True 60 (sc_file (apply_ops sample_lib sample_history (cache_clear sample_lib (the (new_cache sample_lib True 60 None))))) =
   Some (apply_ops sample_lib sample_history (cache_clear sample_lib (the (new_cache sample_lib True 60 None))))"
proof (rule restart_keeps_cache [OF _ refl])
  show n: "new_cache sample_lib True 60 None = Some (the (new_cache sample_lib True 60 None))"
    by (simp add: new_cache_def load_from_disk_def)
  have k: "make_cache_key (cl_sha sample_lib) ''bank '' ''/home'' = ''bank/home''" "make_cache_key (cl_sha sample_lib) ''bank'' ''home'' = ''bank/home''"
    by (simp_all add: make_cache_key_def sample_lib_def normal_domain_def py_strip_def py_lower_def lower_char_def rstrip_of_def is_space_def
        strip_slash_def rstrip_slash_def)
  have "normal_domain ''bank '' = ''bank''" by (simp add: normal_domain_def py_strip_def py_lower_def lower_char_def rstrip_of_def is_space_def)
  with k show "cl_loads sample_lib (cl_dumps sample_lib (stored_json (sc_store (apply_ops sample_lib sample_history (cache_clear sample_lib (the (new_cache sample_lib True 60 None))))))) =
    Some (stored_json (sc_store (apply_ops sample_lib sample_history (cache_clear sample_lib (the (new_cache sample_lib True 60 None))))))"
    by (simp add: sample_history_def cache_put_def cache_failure_def cache_change_def Let_def)
      (simp add: sample_lib_def stored_json_def entry_to_dict_def cache_clear_def new_cache_def load_from_disk_def entry_failure_def jtime_def)
qed

end
