(* ===== verification/Dom_Simplifier.thy ===== *)
theory Dom_Simplifier imports Py_Float Read_Only_Policy begin

text \<open>
  \<^verbatim>\<open>src/core/dom_simplifier.py\<close>: the reduction of a page to a short text for the language model. The cleaner is a handler of the events
  of \<^verbatim>\<open>html.parser\<close> (start tag, end tag, text, comment); how \<^verbatim>\<open>html.parser\<close> cuts a text into events is not modelled, every theorem is
  about a sequence of events.

  The reference definition works on trees: it removes the elements of the stripped kinds, with all they contain, and numbers the
  others in document order. The cleaner computes it on every well-formed document; on documents with tags left open it does not.
\<close>

section \<open>Kinds of elements\<close>

definition STRIP_TAGS :: "string list" where
  "STRIP_TAGS = [''script'', ''style'', ''svg'', ''noscript'', ''iframe'', ''link'', ''meta'', ''head'', ''template'', ''object'', ''embed'', ''applet'']"

definition SKIP_TAGS :: "string list" where
  "SKIP_TAGS = [''br'', ''hr'', ''wbr'', ''col'', ''colgroup'', ''source'', ''track'', ''param'']"

definition VOID_TAGS :: "string list" where
  "VOID_TAGS = [''area'', ''base'', ''br'', ''col'', ''embed'', ''hr'', ''img'', ''input'', ''link'', ''meta'', ''param'', ''source'', ''track'', ''wbr'']"

definition KEEP_ATTRS :: "string list" where
  "KEEP_ATTRS = [''id'', ''class'', ''name'', ''type'', ''value'', ''placeholder'', ''href'', ''src'', ''alt'', ''title'', ''role'', ''aria-label'',
     ''aria-labelledby'', ''aria-describedby'', ''for'', ''action'', ''method'', ''data-pid'']"

definition CHARS_PER_TOKEN :: nat where "CHARS_PER_TOKEN = 4"
definition DEFAULT_TOKEN_BUDGET :: nat where "DEFAULT_TOKEN_BUDGET = 30000"

section \<open>The cleaner\<close>

record element_info =
  ei_tag :: string
  ei_pid :: string
  ei_text :: string
  ei_attrs :: "(string, string) dict"
  ei_children_pids :: "string list"

text \<open>The stack of open elements has its top first.\<close>

record dom_cleaner =
  dc_output :: string
  dc_element_map :: "(string, element_info) dict"
  dc_pid_counter :: nat
  dc_skip_depth :: nat
  dc_tag_stack :: "string list"

definition new_cleaner :: dom_cleaner where
  "new_cleaner = \<lparr>dc_output = '''', dc_element_map = [], dc_pid_counter = 0, dc_skip_depth = 0, dc_tag_stack = []\<rparr>"

type_synonym html_attrs = "(string \<times> string option) list"

datatype html_event = StartTag string html_attrs | EndTag string | Data string | Comment string

definition collapse_whitespace :: "string \<Rightarrow> string" where
  "collapse_whitespace s = py_strip (sub_runs is_space s)"

fun escape_char :: "char \<Rightarrow> string" where
  "escape_char c = (if c = CHR ''&'' then ''&amp;'' else if c = CHR 0x22 then ''&quot;'' else if c = CHR ''<'' then ''&lt;''
     else if c = CHR ''>'' then ''&gt;'' else [c])"

text \<open>The four replacements; the ampersand goes first, so none sees the output of another.\<close>

definition escape_attr :: "string \<Rightarrow> string" where
  "escape_attr s = concat (map escape_char s)"

definition pid_name :: "nat \<Rightarrow> string" where
  "pid_name n = CHR ''p'' # show_nat n"

fun kept_attrs :: "html_attrs \<Rightarrow> (string, string) dict \<Rightarrow> (string, string) dict" where
  "kept_attrs [] d = d"
| "kept_attrs ((name, value) # rest) d =
     kept_attrs rest (case value of
        Some v \<Rightarrow> if py_lower name \<in> set KEEP_ATTRS then AList.update (py_lower name) v d else d
      | None \<Rightarrow> d)"

definition attr_text :: "(string, string) dict \<Rightarrow> string" where
  "attr_text d = join (CHR '' '') (map (\<lambda>(k, v). k @ ''='' @ [CHR 0x22] @ escape_attr v @ [CHR 0x22]) d)"

definition open_tag :: "string \<Rightarrow> (string, string) dict \<Rightarrow> string" where
  "open_tag tag d = (if attr_text d \<noteq> '''' then ''<'' @ tag @ '' '' @ attr_text d @ ''>'' else ''<'' @ tag @ ''>'')"

definition close_tag :: "string \<Rightarrow> string" where
  "close_tag tag = ''</'' @ tag @ ''>''"

definition add_child :: "string \<Rightarrow> string list \<Rightarrow> (string, element_info) dict \<Rightarrow> (string, element_info) dict" where
  "add_child pid stack m =
     (case stack of
        [] \<Rightarrow> m
      | parent # _ \<Rightarrow> (case map_of m parent of None \<Rightarrow> m | Some e \<Rightarrow> AList.update parent (e\<lparr>ei_children_pids := ei_children_pids e @ [pid]\<rparr>) m))"

definition handle_starttag :: "string \<Rightarrow> html_attrs \<Rightarrow> dom_cleaner \<Rightarrow> dom_cleaner" where
  "handle_starttag tag attrs c =
     (let tag = py_lower tag
      in if dc_skip_depth c > 0 then (if tag \<notin> set VOID_TAGS then c\<lparr>dc_skip_depth := dc_skip_depth c + 1\<rparr> else c)
         else if tag \<in> set STRIP_TAGS then (if tag \<notin> set VOID_TAGS then c\<lparr>dc_skip_depth := dc_skip_depth c + 1\<rparr> else c)
         else if tag \<in> set SKIP_TAGS then c
         else
           let n = dc_pid_counter c + 1; pid = pid_name n;
               attr_dict = AList.update ''data-pid'' pid (kept_attrs attrs []);
               info = \<lparr>ei_tag = tag, ei_pid = pid, ei_text = '''', ei_attrs = filter (\<lambda>(k, _). k \<noteq> ''data-pid'') attr_dict, ei_children_pids = []\<rparr>;
               c = c\<lparr>dc_pid_counter := n, dc_element_map := add_child pid (dc_tag_stack c) (AList.update pid info (dc_element_map c)),
                 dc_output := dc_output c @ open_tag tag attr_dict\<rparr>
           in if tag \<in> set VOID_TAGS then c else c\<lparr>dc_tag_stack := pid # dc_tag_stack c\<rparr>)"

definition handle_endtag :: "string \<Rightarrow> dom_cleaner \<Rightarrow> dom_cleaner" where
  "handle_endtag tag c =
     (let tag = py_lower tag
      in if dc_skip_depth c > 0 then (if tag \<notin> set VOID_TAGS then c\<lparr>dc_skip_depth := dc_skip_depth c - 1\<rparr> else c)
         else if tag \<in> set STRIP_TAGS \<or> tag \<in> set SKIP_TAGS \<or> tag \<in> set VOID_TAGS then c
         else c\<lparr>dc_tag_stack := tl (dc_tag_stack c), dc_output := dc_output c @ close_tag tag\<rparr>)"

definition add_text :: "string \<Rightarrow> string list \<Rightarrow> (string, element_info) dict \<Rightarrow> (string, element_info) dict" where
  "add_text text stack m =
     (case stack of
        [] \<Rightarrow> m
      | pid # _ \<Rightarrow>
          (case map_of m pid of
             None \<Rightarrow> m
           | Some e \<Rightarrow> AList.update pid (e\<lparr>ei_text := (if ei_text e \<noteq> '''' then py_strip (ei_text e @ '' '' @ text) else text)\<rparr>) m))"

definition handle_data :: "string \<Rightarrow> dom_cleaner \<Rightarrow> dom_cleaner" where
  "handle_data data c =
     (if dc_skip_depth c > 0 then c
      else
        let text = collapse_whitespace data
        in if text = '''' then c
           else c\<lparr>dc_output := dc_output c @ text, dc_element_map := add_text text (dc_tag_stack c) (dc_element_map c)\<rparr>)"

definition handle_comment :: "string \<Rightarrow> dom_cleaner \<Rightarrow> dom_cleaner" where
  "handle_comment data c = c"

fun handle_event :: "html_event \<Rightarrow> dom_cleaner \<Rightarrow> dom_cleaner" where
  "handle_event (StartTag tag attrs) c = handle_starttag tag attrs c"
| "handle_event (EndTag tag) c = handle_endtag tag c"
| "handle_event (Data d) c = handle_data d c"
| "handle_event (Comment d) c = handle_comment d c"

fun feed :: "html_event list \<Rightarrow> dom_cleaner \<Rightarrow> dom_cleaner" where
  "feed [] c = c"
| "feed (ev # evs) c = feed evs (handle_event ev c)"

lemma feed_append [simp]: "feed (xs @ ys) c = feed ys (feed xs c)"
  by (induction xs arbitrary: c) simp_all

section \<open>The result\<close>

record simplified_dom =
  sd_html :: string
  sd_element_map :: "(string, element_info) dict"
  sd_token_estimate :: nat
  sd_original_length :: nat
  sd_simplified_length :: nat
  sd_reduction_pct :: real
  sd_over_budget :: bool

definition estimate_tokens :: "string \<Rightarrow> nat" where
  "estimate_tokens text = max 1 (length text div CHARS_PER_TOKEN)"

definition simplify_html :: "string \<Rightarrow> html_event list \<Rightarrow> nat \<Rightarrow> simplified_dom" where
  "simplify_html raw_html events token_budget =
     (let original = length raw_html; c = feed events new_cleaner; html = dc_output c; simplified = length html; tokens = estimate_tokens html;
          reduction = (if original > 0 then (1 - of_nat simplified / of_nat original) * 100 else 0)
      in \<lparr>sd_html = html, sd_element_map = dc_element_map c, sd_token_estimate = tokens, sd_original_length = original,
          sd_simplified_length = simplified, sd_reduction_pct = py_round 1 reduction, sd_over_budget = (tokens > token_budget)\<rparr>)"

section \<open>The reference: pruning a tree\<close>

datatype html = Elem string html_attrs "html list" | Text string | Note string

text \<open>The events of a well-formed document: void elements have no end tag and no contents.\<close>

fun events_of :: "html \<Rightarrow> html_event list" where
  "events_of (Text d) = [Data d]"
| "events_of (Note d) = [Comment d]"
| "events_of (Elem tag attrs kids) =
     StartTag tag attrs # (if py_lower tag \<in> set VOID_TAGS then [] else concat (map events_of kids) @ [EndTag tag])"

definition numbered_attrs :: "nat \<Rightarrow> html_attrs \<Rightarrow> (string, string) dict" where
  "numbered_attrs n attrs = AList.update ''data-pid'' (pid_name n) (kept_attrs attrs [])"

text \<open>The text of a tree without the stripped elements, and the number of its last element; \<open>n\<close> elements come before it.\<close>

fun pruned :: "nat \<Rightarrow> html \<Rightarrow> string \<times> nat" and pruned_all :: "nat \<Rightarrow> html list \<Rightarrow> string \<times> nat" where
  "pruned n (Text d) = (collapse_whitespace d, n)"
| "pruned n (Note d) = ('''', n)"
| "pruned n (Elem tag attrs kids) =
     (let t = py_lower tag
      in if t \<in> set STRIP_TAGS then ('''', n)
         else if t \<in> set SKIP_TAGS then (if t \<in> set VOID_TAGS then ('''', n) else pruned_all n kids)
         else if t \<in> set VOID_TAGS then (open_tag t (numbered_attrs (n + 1) attrs), n + 1)
         else (case pruned_all (n + 1) kids of (s, m) \<Rightarrow> (open_tag t (numbered_attrs (n + 1) attrs) @ s @ close_tag t, m)))"
| "pruned_all n [] = ('''', n)"
| "pruned_all n (x # xs) = (case pruned n x of (s, m) \<Rightarrow> case pruned_all m xs of (s', k) \<Rightarrow> (s @ s', k))"

section \<open>The cleaner prunes well-formed documents\<close>

text \<open>Inside a stripped element a well-formed subtree leaves no trace.\<close>

lemma feed_all_id: "(\<And>t. t \<in> set ts \<Longrightarrow> feed (events_of t) c = c) \<Longrightarrow> feed (concat (map events_of ts)) c = c"
  by (induction ts) simp_all

lemma skipped: "dc_skip_depth c > 0 \<Longrightarrow> feed (events_of t) c = c"
proof (induction t arbitrary: c)
  case (Elem tag attrs kids)
  show ?case
  proof (cases "py_lower tag \<in> set VOID_TAGS")
    case True
    with Elem.prems show ?thesis by (simp add: handle_starttag_def)
  next
    case False
    let ?c = "c\<lparr>dc_skip_depth := dc_skip_depth c + 1\<rparr>"
    have "feed (concat (map events_of kids)) ?c = ?c" by (rule feed_all_id) (simp add: Elem.IH)
    with False Elem.prems show ?thesis by (simp add: handle_starttag_def handle_endtag_def)
  qed
qed (simp_all add: handle_data_def handle_comment_def)

lemma skipped_all: "dc_skip_depth c > 0 \<Longrightarrow> feed (concat (map events_of ts)) c = c"
  by (rule feed_all_id) (rule skipped)

text \<open>What a well-formed document adds to the output, and what it leaves as it was.\<close>

definition adds :: "dom_cleaner \<Rightarrow> string \<times> nat \<Rightarrow> dom_cleaner \<Rightarrow> bool" where
  "adds c r c' \<longleftrightarrow> dc_output c' = dc_output c @ fst r \<and> dc_pid_counter c' = snd r \<and> dc_skip_depth c' = 0 \<and> dc_tag_stack c' = dc_tag_stack c"

lemma stripped_subtree:
  assumes "dc_skip_depth c = 0" "py_lower tag \<in> set STRIP_TAGS"
  shows "feed (events_of (Elem tag attrs kids)) c = c"
proof (cases "py_lower tag \<in> set VOID_TAGS")
  case True
  with assms show ?thesis by (simp add: handle_starttag_def)
next
  case False
  let ?c = "c\<lparr>dc_skip_depth := Suc 0\<rparr>"
  have "feed (concat (map events_of kids)) ?c = ?c" by (rule skipped_all) simp
  with False assms show ?thesis by (simp add: handle_starttag_def handle_endtag_def)
qed

lemma skip_free [simp]: "dc_skip_depth (handle_data d c) = dc_skip_depth c"
  by (simp add: handle_data_def Let_def)

lemma adds_trans: "adds c (x, m) c' \<Longrightarrow> adds c' (y, k) c'' \<Longrightarrow> adds c (x @ y, k) c''"
  by (simp add: adds_def)

text \<open>An element that is kept: its start tag, its contents, its end tag.\<close>

lemma kept_element:
  assumes "dc_skip_depth c = 0" "py_lower tag \<notin> set STRIP_TAGS" "py_lower tag \<notin> set SKIP_TAGS" "py_lower tag \<notin> set VOID_TAGS"
    and kids: "\<And>c. dc_skip_depth c = 0 \<Longrightarrow> dc_pid_counter c = n + 1 \<Longrightarrow> adds c (s, m) (feed (concat (map events_of kids)) c)"
    and "dc_pid_counter c = n"
  shows "adds c (open_tag (py_lower tag) (numbered_attrs (n + 1) attrs) @ s @ close_tag (py_lower tag), m) (feed (events_of (Elem tag attrs kids)) c)"
proof -
  let ?a = "handle_starttag tag attrs c" let ?b = "feed (concat (map events_of kids)) ?a"
  have a: "dc_skip_depth ?a = 0" "dc_pid_counter ?a = n + 1" "dc_tag_stack ?a = pid_name (n + 1) # dc_tag_stack c"
    "dc_output ?a = dc_output c @ open_tag (py_lower tag) (numbered_attrs (n + 1) attrs)"
    using assms by (simp_all add: handle_starttag_def numbered_attrs_def Let_def)
  with kids have "adds ?a (s, m) ?b" by simp
  with a assms show ?thesis by (simp add: adds_def handle_endtag_def Let_def)
qed

lemma feed_prunes:
  "dc_skip_depth c = 0 \<Longrightarrow> dc_pid_counter c = n \<Longrightarrow> adds c (pruned n t) (feed (events_of t) c)"
  "dc_skip_depth c = 0 \<Longrightarrow> dc_pid_counter c = n \<Longrightarrow> adds c (pruned_all n ts) (feed (concat (map events_of ts)) c)"
proof (induction n t and n ts arbitrary: c and c rule: pruned_pruned_all.induct)
  case (1 n d)
  then show ?case by (simp add: adds_def handle_data_def Let_def)
next
  case (2 n d)
  then show ?case by (simp add: adds_def handle_comment_def)
next
  case (3 n tag attrs kids)
  let ?t = "py_lower tag"
  consider (strip) "?t \<in> set STRIP_TAGS" | (noise) "?t \<notin> set STRIP_TAGS" "?t \<in> set SKIP_TAGS" "?t \<in> set VOID_TAGS"
    | (group) "?t \<notin> set STRIP_TAGS" "?t \<in> set SKIP_TAGS" "?t \<notin> set VOID_TAGS"
    | (void) "?t \<notin> set STRIP_TAGS" "?t \<notin> set SKIP_TAGS" "?t \<in> set VOID_TAGS"
    | (kept) "?t \<notin> set STRIP_TAGS" "?t \<notin> set SKIP_TAGS" "?t \<notin> set VOID_TAGS" by blast
  then show ?case
  proof cases
    case strip
    with stripped_subtree [OF "3.prems"(1) strip] "3.prems" show ?thesis by (simp add: adds_def)
  next
    case noise
    with "3.prems" show ?thesis by (simp add: adds_def handle_starttag_def)
  next
    case group
    then have "adds c (pruned_all n kids) (feed (concat (map events_of kids)) c)" using "3.IH"(1) "3.prems" by simp
    with group "3.prems" show ?thesis by (simp add: adds_def handle_starttag_def handle_endtag_def)
  next
    case void
    with "3.prems" show ?thesis by (simp add: adds_def handle_starttag_def numbered_attrs_def Let_def)
  next
    case kept
    obtain s m where r: "pruned_all (n + 1) kids = (s, m)" by fastforce
    then have "adds c (s, m) (feed (concat (map events_of kids)) c)" if "dc_skip_depth c = 0" "dc_pid_counter c = n + 1" for c
      using "3.IH"(2) kept that by simp
    from kept_element [OF "3.prems"(1) kept this "3.prems"(2)] kept r show ?thesis by (simp add: Let_def)
  qed
next
  case (4 n)
  then show ?case by (simp add: adds_def)
next
  case (5 n x xs)
  obtain s m where a: "pruned n x = (s, m)" by fastforce
  obtain s' k where b: "pruned_all m xs = (s', k)" by fastforce
  have 1: "adds c (s, m) (feed (events_of x) c)" using "5.IH"(1) "5.prems" a by simp
  then have "adds (feed (events_of x) c) (s', k) (feed (concat (map events_of xs)) (feed (events_of x) c))"
    using "5.IH"(2) [OF a [symmetric]] b by (simp add: adds_def)
  with 1 a b show ?case using adds_trans by simp
qed

section \<open>The element map\<close>

text \<open>What holds of the map after any events: the elements have the names \<open>p1\<close>, \<open>p2\<close>, \dots in the order in which they were opened, none is of a
  removed kind, and children and open elements are elements of the map.\<close>

definition pids :: "nat \<Rightarrow> string list" where
  "pids n = map pid_name [1..<n + 1]"

definition element_ok :: "string set \<Rightarrow> string \<times> element_info \<Rightarrow> bool" where
  "element_ok names x \<longleftrightarrow> ei_pid (snd x) = fst x \<and> ei_tag (snd x) \<notin> set STRIP_TAGS \<union> set SKIP_TAGS \<and> set (ei_children_pids (snd x)) \<subseteq> names"

definition cleaner_ok :: "dom_cleaner \<Rightarrow> bool" where
  "cleaner_ok c \<longleftrightarrow> map fst (dc_element_map c) = pids (dc_pid_counter c) \<and> set (dc_tag_stack c) \<subseteq> set (pids (dc_pid_counter c)) \<and>
     (\<forall>x \<in> set (dc_element_map c). element_ok (set (pids (dc_pid_counter c))) x)"

lemma pid_name_inj [simp]: "pid_name m = pid_name n \<longleftrightarrow> m = n"
  by (simp add: pid_name_def)

lemma set_pids: "set (pids n) = pid_name ` {1..n}"
  unfolding pids_def set_map set_upt Suc_eq_plus1 [symmetric] atLeastLessThanSuc_atLeastAtMost ..

lemma pids_Suc: "pids (Suc n) = pids n @ [pid_name (Suc n)]"
  by (simp add: pids_def)

lemma fresh_pid: "pid_name (Suc n) \<notin> set (pids n)"
  by (auto simp: pids_def)

lemma keys_update_old: "k \<in> set (map fst m) \<Longrightarrow> map fst (AList.update k v m) = map fst m"
  by (induction m) auto

lemma in_update: "x \<in> set (AList.update k v m) \<Longrightarrow> x = (k, v) \<or> x \<in> set m"
  by (induction m) (auto split: if_splits)

lemma update_new: "k \<notin> set (map fst m) \<Longrightarrow> AList.update k v m = m @ [(k, v)]"
  by (induction m) auto

text \<open>A change of one entry keeps the invariant when the new entry is well formed.\<close>

lemma cleaner_ok_change:
  assumes "cleaner_ok c" "map_of (dc_element_map c) k = Some e" "element_ok (set (pids (dc_pid_counter c))) (k, e')"
  shows "cleaner_ok (c\<lparr>dc_element_map := AList.update k e' (dc_element_map c)\<rparr>)"
proof -
  have "k \<in> set (map fst (dc_element_map c))" using assms(2) by (auto dest: map_of_SomeD intro: rev_image_eqI)
  then have "map fst (AList.update k e' (dc_element_map c)) = map fst (dc_element_map c)" by (rule keys_update_old)
  with assms(1,3) show ?thesis by (auto simp: cleaner_ok_def dest!: in_update)
qed

lemma add_child_ok:
  assumes "cleaner_ok c" "pid \<in> set (pids (dc_pid_counter c))"
  shows "cleaner_ok (c\<lparr>dc_element_map := add_child pid stack (dc_element_map c)\<rparr>)"
proof (cases "case stack of [] \<Rightarrow> None | p # _ \<Rightarrow> map_of (dc_element_map c) p")
  case None
  then have "add_child pid stack (dc_element_map c) = dc_element_map c" by (auto simp: add_child_def split: list.splits)
  with assms(1) show ?thesis by simp
next
  case (Some e)
  then obtain p ps where st: "stack = p # ps" "map_of (dc_element_map c) p = Some e" by (auto split: list.splits)
  then have "element_ok (set (pids (dc_pid_counter c))) (p, e)" using assms(1) by (auto simp: cleaner_ok_def dest: map_of_SomeD)
  then show ?thesis using cleaner_ok_change [OF assms(1) st(2)] assms(2) st by (simp add: add_child_def element_ok_def)
qed

lemma add_text_ok:
  assumes "cleaner_ok c"
  shows "cleaner_ok (c\<lparr>dc_output := out, dc_element_map := add_text text stack (dc_element_map c)\<rparr>)"
proof (cases "case stack of [] \<Rightarrow> None | p # _ \<Rightarrow> map_of (dc_element_map c) p")
  case None
  then have "add_text text stack (dc_element_map c) = dc_element_map c" by (auto simp: add_text_def split: list.splits)
  with assms(1) show ?thesis by (simp add: cleaner_ok_def)
next
  case (Some e)
  then obtain p ps where st: "stack = p # ps" "map_of (dc_element_map c) p = Some e" by (auto split: list.splits)
  then have "element_ok (set (pids (dc_pid_counter c))) (p, e)" using assms(1) by (auto simp: cleaner_ok_def dest: map_of_SomeD)
  let ?e = "e\<lparr>ei_text := (if ei_text e \<noteq> [] then py_strip (ei_text e @ CHR '' '' # text) else text)\<rparr>"
  have "element_ok (set (pids (dc_pid_counter c))) (p, ?e)" using \<open>element_ok (set (pids (dc_pid_counter c))) (p, e)\<close> by (simp add: element_ok_def)
  from cleaner_ok_change [OF assms(1) st(2) this] have "cleaner_ok (c\<lparr>dc_element_map := add_text text stack (dc_element_map c)\<rparr>)"
    using st by (auto simp: add_text_def split: if_split_asm)
  then show ?thesis by (simp add: cleaner_ok_def)
qed

lemma cleaner_ok_open:
  assumes "cleaner_ok c" "tag \<notin> set STRIP_TAGS" "tag \<notin> set SKIP_TAGS"
    and "info = \<lparr>ei_tag = tag, ei_pid = pid_name (Suc (dc_pid_counter c)), ei_text = '''', ei_attrs = a, ei_children_pids = []\<rparr>"
  shows "cleaner_ok (c\<lparr>dc_pid_counter := Suc (dc_pid_counter c), dc_element_map := AList.update (pid_name (Suc (dc_pid_counter c))) info (dc_element_map c)\<rparr>)"
proof -
  have new: "pid_name (Suc (dc_pid_counter c)) \<notin> set (map fst (dc_element_map c))" using assms(1) fresh_pid by (simp add: cleaner_ok_def)
  show ?thesis
    using assms by (auto simp: cleaner_ok_def update_new [OF new] pids_Suc element_ok_def)
qed

lemma cleaner_ok_starttag: "cleaner_ok c \<Longrightarrow> cleaner_ok (handle_starttag tag attrs c)"
proof -
  assume ok: "cleaner_ok c"
  let ?pid = "pid_name (Suc (dc_pid_counter c))" let ?attrs = "AList.update ''data-pid'' ?pid (kept_attrs attrs [])"
  let ?info = "\<lparr>ei_tag = py_lower tag, ei_pid = ?pid, ei_text = '''', ei_attrs = filter (\<lambda>(k, _). k \<noteq> ''data-pid'') ?attrs, ei_children_pids = []\<rparr>"
  let ?c = "c\<lparr>dc_pid_counter := Suc (dc_pid_counter c), dc_element_map := AList.update ?pid ?info (dc_element_map c)\<rparr>"
  have skip: "cleaner_ok (c\<lparr>dc_skip_depth := n\<rparr>)" for n using ok by (simp add: cleaner_ok_def)
  have opened: "cleaner_ok ?c" if "py_lower tag \<notin> set STRIP_TAGS" "py_lower tag \<notin> set SKIP_TAGS"
    using cleaner_ok_open [OF ok that refl] .
  have "?pid \<in> set (pids (dc_pid_counter ?c))" by (simp add: pids_Suc)
  from add_child_ok [OF opened this, of "dc_tag_stack c"]
  have child: "cleaner_ok (?c\<lparr>dc_element_map := add_child ?pid (dc_tag_stack c) (dc_element_map ?c)\<rparr>)"
    if "py_lower tag \<notin> set STRIP_TAGS" "py_lower tag \<notin> set SKIP_TAGS" using that by blast
  show ?thesis
    using ok skip child by (auto simp: handle_starttag_def Let_def cleaner_ok_def pids_Suc)
qed

lemma cleaner_ok_event [inv_intros]: "cleaner_ok c \<Longrightarrow> cleaner_ok (handle_event ev c)"
proof (cases ev)
  case (EndTag tag)
  assume ok: "cleaner_ok c"
  have "set (tl (dc_tag_stack c)) \<subseteq> set (dc_tag_stack c)" by (cases "dc_tag_stack c") auto
  with ok EndTag show ?thesis by (auto simp: handle_endtag_def Let_def cleaner_ok_def)
next
  case (Data d)
  assume "cleaner_ok c"
  with add_text_ok [of c] Data show ?thesis by (simp add: handle_data_def Let_def)
qed (simp_all add: cleaner_ok_starttag handle_comment_def)

lemma cleaner_ok_feed: "cleaner_ok c \<Longrightarrow> cleaner_ok (feed evs c)"
  by (induction evs arbitrary: c) (simp_all add: cleaner_ok_event)

lemma cleaner_ok_new: "cleaner_ok new_cleaner"
  by (simp add: cleaner_ok_def new_cleaner_def pids_def)

section \<open>The theorems\<close>

text \<open>C36. On every well-formed document the output of the streaming cleaner is the text of the tree without its stripped elements, and the element map
  has exactly the elements left, named \<open>p1\<close> to \<open>pn\<close> in document order.\<close>

theorem simplifier_prunes_tree:
  "sd_html (simplify_html raw (concat (map events_of ts)) budget) = fst (pruned_all 0 ts) \<and>
   map fst (sd_element_map (simplify_html raw (concat (map events_of ts)) budget)) = map pid_name [1..<snd (pruned_all 0 ts) + 1]"
proof -
  have a: "adds new_cleaner (pruned_all 0 ts) (feed (concat (map events_of ts)) new_cleaner)"
    by (rule feed_prunes(2)) (simp_all add: new_cleaner_def)
  moreover have "cleaner_ok (feed (concat (map events_of ts)) new_cleaner)" by (rule cleaner_ok_feed [OF cleaner_ok_new])
  ultimately show ?thesis by (simp add: simplify_html_def Let_def adds_def cleaner_ok_def pids_def new_cleaner_def)
qed

text \<open>Whatever the events, well nested or not, the element map names its elements \<open>p1\<close>, \<open>p2\<close>, \<dots> without gaps or repetitions, has no element of a
  removed kind, and lists as children only elements of the map.\<close>

theorem element_map_well_formed:
  "\<exists>n. map fst (sd_element_map (simplify_html raw events budget)) = map pid_name [1..<n + 1] \<and>
    list_all (\<lambda>(k, e). ei_pid e = k \<and> ei_tag e \<notin> set STRIP_TAGS \<and> ei_tag e \<notin> set SKIP_TAGS \<and> set (ei_children_pids e) \<subseteq> pid_name ` {1..n})
      (sd_element_map (simplify_html raw events budget))"
proof -
  have "cleaner_ok (feed events new_cleaner)" by (rule cleaner_ok_feed [OF cleaner_ok_new])
  then have "map fst (dc_element_map (feed events new_cleaner)) = pids (dc_pid_counter (feed events new_cleaner))"
    "list_all (\<lambda>(k, e). ei_pid e = k \<and> ei_tag e \<notin> set STRIP_TAGS \<and> ei_tag e \<notin> set SKIP_TAGS \<and>
      set (ei_children_pids e) \<subseteq> pid_name ` {1..dc_pid_counter (feed events new_cleaner)}) (dc_element_map (feed events new_cleaner))"
    by (fastforce simp: cleaner_ok_def element_ok_def list_all_iff set_pids)+
  then show ?thesis unfolding pids_def by (auto simp: simplify_html_def Let_def)
qed

text \<open>A tag left open inside a stripped element, as HTML allows for \<^verbatim>\<open>p\<close> or \<^verbatim>\<open>li\<close>, makes the cleaner drop the rest of the page: the depth it
  counts never comes back to zero.\<close>

theorem open_tag_drops_rest:
  assumes "py_lower tag \<in> set STRIP_TAGS" "py_lower tag \<notin> set VOID_TAGS" "py_lower child \<notin> set VOID_TAGS"
  shows "sd_html (simplify_html raw ([StartTag tag [], StartTag child [], EndTag tag] @ concat (map events_of ts)) budget) = ''''"
proof -
  let ?c = "feed [StartTag tag [], StartTag child [], EndTag tag] new_cleaner"
  have c: "?c = new_cleaner\<lparr>dc_skip_depth := 1\<rparr>" using assms by (simp add: handle_starttag_def handle_endtag_def new_cleaner_def Let_def)
  then have "feed (concat (map events_of ts)) ?c = ?c" by (intro skipped_all) simp
  then have "dc_output (feed ([StartTag tag [], StartTag child [], EndTag tag] @ concat (map events_of ts)) new_cleaner) = dc_output ?c"
    by (simp only: feed_append)
  with c show ?thesis by (simp add: simplify_html_def Let_def new_cleaner_def)
qed

theorem open_tag_drops_rest_witness:
  "sd_html (simplify_html ''x'' ([StartTag ''noscript'' [], StartTag ''p'' [], EndTag ''noscript''] @
     concat (map events_of [Elem ''div'' [] [Text ''Balance: 12'']])) 100) = ''''"
  by (rule open_tag_drops_rest) (simp_all add: STRIP_TAGS_def VOID_TAGS_def py_lower_def lower_char_def)

end
