(* ===== verification/Browser_Pool.thy ===== *)
theory Browser_Pool imports Read_Only_Policy Circuit_Breaker begin

text \<open>
  \<^verbatim>\<open>src/core/browser_pool.py\<close>: the pool of browser contexts.

  A pool counts its free slots in a semaphore (\<open>bp_sem\<close>) and keeps the open contexts by session. The
  browser itself is outside the repository: whether opening a context succeeds and which directory
  \<^verbatim>\<open>mkdtemp\<close> returns are arguments. \<open>acquire\<close> is two atomic parts, taking a slot and its body under
  the pool's lock, so other operations run between them; \<open>pool_step\<close> interleaves them.
\<close>

section \<open>The state of the pool\<close>

record download =
  dl_filename :: string
  dl_size_bytes :: int
  dl_url :: "string option"
  dl_path :: string

record pooled_context =
  pc_session_id :: string
  pc_policy :: "read_only_policy option"
  pc_routed :: bool
  pc_download_dir :: "string option"
  pc_downloads :: "download list"
  pc_created_at :: time
  pc_last_used :: time

record browser_pool =
  bp_max_size :: nat
  bp_idle_timeout :: int
  bp_block_resources :: bool
  bp_allow_read_downloads :: bool
  bp_contexts :: "(string, pooled_context) dict"
  bp_sem :: nat
  bp_browser :: bool
  bp_running :: bool

definition new_pool :: "nat \<Rightarrow> int \<Rightarrow> bool \<Rightarrow> bool \<Rightarrow> browser_pool" where
  "new_pool max_size idle_timeout block_resources allow_read_downloads =
     \<lparr>bp_max_size = max_size, bp_idle_timeout = idle_timeout, bp_block_resources = block_resources,
      bp_allow_read_downloads = allow_read_downloads, bp_contexts = [], bp_sem = max_size,
      bp_browser = False, bp_running = False\<rparr>"

definition pc_touch :: "time \<Rightarrow> pooled_context \<Rightarrow> pooled_context" where
  "pc_touch now c = c\<lparr>pc_last_used := now\<rparr>"

definition idle_seconds :: "time \<Rightarrow> pooled_context \<Rightarrow> time" where
  "idle_seconds now c = now - pc_last_used c"

section \<open>Starting and stopping\<close>

text \<open>\<open>start\<close>: the launch runs through the browser's circuit breaker; a pool already running is left alone.\<close>

definition pool_start ::
  "time \<Rightarrow> time \<Rightarrow> ('w \<Rightarrow> ('e, 'b) outcome \<times> 'w) \<Rightarrow> circuit_breaker \<Rightarrow> 'w \<Rightarrow> browser_pool \<Rightarrow>
   (cb_error + ('e, unit) outcome) \<times> browser_pool \<times> circuit_breaker \<times> 'w" where
  "pool_start t0 t1 launch cb w p =
     (if bp_running p then (Inr (Returned ()), p, cb, w)
      else case cb_call t0 t1 launch cb w of
             (Inr (Returned b), cb', w') \<Rightarrow> (Inr (Returned ()), p\<lparr>bp_browser := True, bp_running := True\<rparr>, cb', w')
           | (Inr (Raised e), cb', w') \<Rightarrow> (Inr (Raised e), p, cb', w')
           | (Inr Cancelled, cb', w') \<Rightarrow> (Inr Cancelled, p, cb', w')
           | (Inl err, cb', w') \<Rightarrow> (Inl err, p, cb', w'))"

definition pool_stop :: "browser_pool \<Rightarrow> browser_pool" where
  "pool_stop p =
     (if \<not> bp_running p then p else p\<lparr>bp_running := False, bp_contexts := [], bp_browser := False\<rparr>)"

section \<open>Acquiring and releasing\<close>

definition take_slot :: "browser_pool \<Rightarrow> browser_pool option" where
  "take_slot p = (if bp_sem p = 0 then None else Some (p\<lparr>bp_sem := bp_sem p - 1\<rparr>))"

text \<open>What opening the context ends with: the download directory of the new context, or an exception of the
  browser or the file system.\<close>

datatype acquire_result = Acquired pooled_context | NotStarted | OpenFailed

definition acquire_body ::
  "time \<Rightarrow> string option \<Rightarrow> string \<Rightarrow> read_only_policy option \<Rightarrow> browser_pool \<Rightarrow> acquire_result \<times> browser_pool" where
  "acquire_body now opened session_id policy p =
     (case map_of (bp_contexts p) session_id of
        Some c \<Rightarrow>
          (let c = pc_touch now c;
               c = (if policy \<noteq> None then c\<lparr>pc_policy := policy\<rparr> else c)
           in (Acquired c, p\<lparr>bp_contexts := AList.update session_id c (bp_contexts p), bp_sem := bp_sem p + 1\<rparr>))
      | None \<Rightarrow>
          if \<not> bp_browser p then (NotStarted, p\<lparr>bp_sem := bp_sem p + 1\<rparr>)
          else case opened of
            None \<Rightarrow> (OpenFailed, p)
          | Some dir \<Rightarrow>
              (let c = \<lparr>pc_session_id = session_id, pc_policy = policy,
                     pc_routed = (bp_block_resources p \<or> policy \<noteq> None), pc_download_dir = Some dir,
                     pc_downloads = [], pc_created_at = now, pc_last_used = now\<rparr>
               in (Acquired c, p\<lparr>bp_contexts := AList.update session_id c (bp_contexts p)\<rparr>)))"

definition pool_release :: "string \<Rightarrow> browser_pool \<Rightarrow> browser_pool" where
  "pool_release session_id p =
     p\<lparr>bp_contexts := AList.delete session_id (bp_contexts p), bp_sem := bp_sem p + 1\<rparr>"

definition active_count :: "browser_pool \<Rightarrow> nat" where
  "active_count p = length (bp_contexts p)"

definition available_slots :: "browser_pool \<Rightarrow> int" where
  "available_slots p = int (bp_max_size p) - int (length (bp_contexts p))"

text \<open>\<open>_cleanup_idle\<close> collects the idle sessions, then releases each.\<close>

definition idle_sessions :: "time \<Rightarrow> browser_pool \<Rightarrow> string list" where
  "idle_sessions now p = map fst (filter (\<lambda>(_, c). idle_seconds now c > of_int (bp_idle_timeout p)) (bp_contexts p))"

definition cleanup_idle :: "time \<Rightarrow> browser_pool \<Rightarrow> browser_pool" where
  "cleanup_idle now p = foldl (\<lambda>p s. pool_release s p) p (idle_sessions now p)"

section \<open>Requests and downloads of a context\<close>

definition BLOCKED_RESOURCE_TYPES :: "string list" where
  "BLOCKED_RESOURCE_TYPES = [''image'', ''font'', ''media'', ''stylesheet'']"

definition BLOCKED_URL_PATTERNS :: "string list" where
  "BLOCKED_URL_PATTERNS = [''google-analytics.com'', ''googletagmanager.com'', ''facebook.net'', ''doubleclick.net'',
     ''hotjar.com'', ''mixpanel.com'', ''segment.io'', ''amplitude.com'']"

text \<open>The route handler: whether the request is let through, and the policy after it.\<close>

definition block_resources ::
  "request \<Rightarrow> string \<Rightarrow> string \<Rightarrow> read_only_policy option \<Rightarrow> bool \<times> read_only_policy option" where
  "block_resources r resource_type url policy =
     (let through = (resource_type \<notin> set BLOCKED_RESOURCE_TYPES \<and>
            \<not> list_ex (\<lambda>pat. contains pat (py_lower url)) BLOCKED_URL_PATTERNS)
      in case policy of
           None \<Rightarrow> (through, None)
         | Some p \<Rightarrow>
             (case evaluate_request r p of
                Some reason \<Rightarrow> (False, Some (record_blocked ''request'' reason (Some url) p))
              | None \<Rightarrow> (through, Some p)))"

text \<open>\<open>on_page\<close>: whether the new page is closed again; \<open>pages\<close> is the number of pages of the context.\<close>

definition on_page :: "nat \<Rightarrow> read_only_policy option \<Rightarrow> bool \<times> read_only_policy option" where
  "on_page pages policy =
     (case policy of
        None \<Rightarrow> (False, None)
      | Some p \<Rightarrow>
          if rp_enabled p \<and> rp_phase p = PhaseRead \<and> pages > 1
          then (True, Some (record_blocked ''popup''
            ''extra browser pages are blocked after authentication in strict read-only mode'' None p))
          else (False, Some p))"

text \<open>The name under which a download is stored: \<open>base_name\<close> in the directory, or with the first free counter.
  \<open>existing\<close> are the paths that exist.\<close>

fun base_name :: "string \<Rightarrow> string" where
  "base_name [] = []"
| "base_name (c # cs) = (if CHR ''/'' \<in> set cs then base_name cs else if c = CHR ''/'' then cs else c # cs)"

fun split_last_dot :: "string \<Rightarrow> (string \<times> string) option" where
  "split_last_dot [] = None"
| "split_last_dot (c # cs) =
     (case split_last_dot cs of
        Some (stem, suffix) \<Rightarrow> Some (c # stem, suffix)
      | None \<Rightarrow> if c = CHR ''.'' then Some ([], c # cs) else None)"

text \<open>\<open>os.path.splitext\<close> of a base name: leading dots belong to the stem.\<close>

definition splitext :: "string \<Rightarrow> string \<times> string" where
  "splitext name =
     (let dots = takeWhile (\<lambda>c. c = CHR ''.'') name; rest = dropWhile (\<lambda>c. c = CHR ''.'') name
      in case split_last_dot rest of Some (stem, suffix) \<Rightarrow> (dots @ stem, suffix) | None \<Rightarrow> (name, ''''))"

definition path_join :: "string \<Rightarrow> string \<Rightarrow> string" where
  "path_join dir name = (if dir = [] \<or> last dir = CHR ''/'' then dir @ name else dir @ CHR ''/'' # name)"

fun unique_loop :: "nat \<Rightarrow> string list \<Rightarrow> string \<Rightarrow> string \<Rightarrow> string \<Rightarrow> nat \<Rightarrow> string \<Rightarrow> string option" where
  "unique_loop 0 existing dir stem suffix counter candidate = None"
| "unique_loop (Suc fuel) existing dir stem suffix counter candidate =
     (if candidate \<in> set existing
      then unique_loop fuel existing dir stem suffix (counter + 1)
        (path_join dir (stem @ ''-'' @ show_nat counter @ suffix))
      else Some candidate)"

definition unique_download_path :: "nat \<Rightarrow> string list \<Rightarrow> string \<Rightarrow> string \<Rightarrow> string option" where
  "unique_download_path fuel existing dir filename =
     (let base = (if base_name filename = '''' then ''download.bin'' else base_name filename);
          (stem, suffix) = splitext base
      in unique_loop fuel existing dir stem suffix 1 (path_join dir base))"

text \<open>\<open>_handle_download\<close>: the context and its policy afterwards. \<open>saved\<close> is the size of the stored file, \<open>None\<close> when
  saving raised; \<open>fresh_dir\<close> the directory made when the context has none.\<close>

definition store_download ::
  "nat \<Rightarrow> string list \<Rightarrow> string \<Rightarrow> string option \<Rightarrow> string option \<Rightarrow> int option \<Rightarrow> pooled_context \<Rightarrow> pooled_context" where
  "store_download fuel existing fresh_dir url suggested saved c =
     (let name = (case suggested of None \<Rightarrow> ''download.bin'' | Some n \<Rightarrow> if n = '''' then ''download.bin'' else n);
          dir = (case pc_download_dir c of None \<Rightarrow> fresh_dir | Some d \<Rightarrow> if d = '''' then fresh_dir else d)
      in case (unique_download_path fuel existing dir name, saved) of
           (Some destination, Some nbytes) \<Rightarrow>
             c\<lparr>pc_downloads := pc_downloads c @ [\<lparr>dl_filename = base_name destination, dl_size_bytes = nbytes,
               dl_url = url, dl_path = destination\<rparr>]\<rparr>
         | _ \<Rightarrow> c)"

definition handle_download ::
  "nat \<Rightarrow> string list \<Rightarrow> string \<Rightarrow> string option \<Rightarrow> string option \<Rightarrow> int option \<Rightarrow> bool \<Rightarrow> pooled_context \<Rightarrow> pooled_context" where
  "handle_download fuel existing fresh_dir url suggested saved allow_read_downloads c =
     (case pc_policy c of
        None \<Rightarrow> store_download fuel existing fresh_dir url suggested saved c
      | Some p \<Rightarrow>
          if rp_enabled p \<and> (rp_phase p \<noteq> PhaseRead \<or> \<not> allow_read_downloads)
          then c\<lparr>pc_policy := Some (record_blocked ''download''
            ''downloads are only allowed during the read phase in strict read-only mode'' url p)\<rparr>
          else store_download fuel existing fresh_dir url suggested saved c)"

section \<open>Interleaved operations\<close>

text \<open>The pool with the tasks that took a slot and wait for the lock. \<open>ps_lost\<close> and \<open>ps_extra\<close> do not exist in the
  code: they count the slots taken and never given back (a context that failed to open, contexts closed
  by \<open>stop\<close>) and the releases of sessions that have no context.\<close>

record pool_sys =
  ps_pool :: browser_pool
  ps_pending :: "string list"
  ps_lost :: nat
  ps_extra :: nat

inductive pool_step :: "pool_sys \<Rightarrow> pool_sys \<Rightarrow> bool" where
  take: "take_slot (ps_pool s) = Some p \<Longrightarrow>
    pool_step s (s\<lparr>ps_pool := p, ps_pending := sid # ps_pending s\<rparr>)"
| body: "sid \<in> set (ps_pending s) \<Longrightarrow> acquire_body now opened sid policy (ps_pool s) = (r, p) \<Longrightarrow>
    pool_step s (s\<lparr>ps_pool := p, ps_pending := remove1 sid (ps_pending s),
      ps_lost := ps_lost s + (if r = OpenFailed then 1 else 0)\<rparr>)"
| release: "pool_step s (s\<lparr>ps_pool := pool_release sid (ps_pool s),
    ps_extra := ps_extra s + (if map_of (bp_contexts (ps_pool s)) sid = None then 1 else 0)\<rparr>)"
| launched: "pool_step s (s\<lparr>ps_pool := (ps_pool s)\<lparr>bp_browser := True, bp_running := True\<rparr>\<rparr>)"
| stop: "pool_step s (s\<lparr>ps_pool := pool_stop (ps_pool s),
    ps_lost := ps_lost s + (if bp_running (ps_pool s) then length (bp_contexts (ps_pool s)) else 0)\<rparr>)"

inductive pool_reach :: "browser_pool \<Rightarrow> pool_sys \<Rightarrow> bool" for p0 where
  init: "pool_reach p0 \<lparr>ps_pool = p0, ps_pending = [], ps_lost = 0, ps_extra = 0\<rparr>"
| step: "pool_reach p0 s \<Longrightarrow> pool_step s s' \<Longrightarrow> pool_reach p0 s'"

definition pool_inv :: "pool_sys \<Rightarrow> bool" where
  "pool_inv s \<longleftrightarrow> dict_ok (bp_contexts (ps_pool s)) \<and>
     bp_sem (ps_pool s) + length (bp_contexts (ps_pool s)) + length (ps_pending s) + ps_lost s =
     bp_max_size (ps_pool s) + ps_extra s"

lemma length_ddel:
  "dict_ok d \<Longrightarrow> length (AList.delete k d) + (if map_of d k = None then 0 else 1) = length d"
proof (cases "map_of d k")
  case None
  then have "k \<notin> fst ` set d" using map_of_eq_None_iff [of d k] by blast
  with None show ?thesis by (simp add: delete_idem)
next
  case (Some v)
  assume "dict_ok d"
  moreover have "k \<in> fst ` set d" using Some by (metis domI dom_map_of_conv_image_fst)
  ultimately show ?thesis using length_delete_mem Some by fastforce
qed

lemma length_dset: "length (AList.update k v d) = length d + (if map_of d k = None then 1 else 0)"
  by (auto simp: length_update map_of_eq_None_iff)

lemma acquire_body_account:
  assumes "acquire_body now opened sid policy p = (r, p')" "dict_ok (bp_contexts p)"
  shows "dict_ok (bp_contexts p')" "bp_max_size p' = bp_max_size p"
    "bp_sem p' + length (bp_contexts p') + (if r = OpenFailed then 1 else 0) = bp_sem p + length (bp_contexts p) + 1"
  using assms by (auto simp: acquire_body_def Let_def length_dset split: option.splits if_splits)

lemma pool_inv_step: "pool_step s s' \<Longrightarrow> pool_inv s \<Longrightarrow> pool_inv s'"
proof (induction rule: pool_step.induct)
  case (take s p sid)
  then show ?case by (auto simp: pool_inv_def take_slot_def split: if_splits)
next
  case (body sid s now opened policy r p)
  have "length (remove1 sid (ps_pending s)) + 1 = length (ps_pending s)"
    using body(1) by (cases "ps_pending s = []") (simp_all add: length_remove1)
  with body show ?case using acquire_body_account [OF body(2)] by (auto simp: pool_inv_def)
next
  case (release s sid)
  then show ?case using length_ddel [of "bp_contexts (ps_pool s)" sid]
    by (auto simp: pool_inv_def pool_release_def)
qed (auto simp: pool_inv_def pool_stop_def)

lemma pool_reach_inv: "pool_reach (new_pool n idle blk dl) s \<Longrightarrow> pool_inv s \<and> bp_max_size (ps_pool s) = n"
proof (induction rule: pool_reach.induct)
  case init
  show ?case by (simp add: pool_inv_def new_pool_def)
next
  case (step s s')
  have "bp_max_size (ps_pool s') = bp_max_size (ps_pool s)"
    using step(2) by (cases rule: pool_step.cases)
      (auto simp: take_slot_def pool_release_def pool_stop_def acquire_body_def Let_def split: if_splits option.splits)
  with step pool_inv_step show ?case by simp
qed

section \<open>Properties of the pool\<close>

text \<open>C9. Every slot is accounted for in every reachable state, however acquires, releases, cleanups, failures, starts
  and stops interleave: free slots, open contexts, tasks waiting for the lock and lost slots add up to the
  pool's size plus the releases of sessions without a context. As long as no such release happens, at most
  \<open>max_size\<close> contexts are open.\<close>

theorem pool_slots_accounted:
  assumes "pool_reach (new_pool max_size idle block allow) s"
  shows "bp_sem (ps_pool s) + active_count (ps_pool s) + length (ps_pending s) + ps_lost s = max_size + ps_extra s \<and>
    (ps_extra s = 0 \<longrightarrow> active_count (ps_pool s) \<le> max_size)"
  using pool_reach_inv [OF assms] by (simp add: pool_inv_def active_count_def)

theorem pool_slots_accounted_witness:
  "\<exists>s. pool_reach (new_pool 1 300 True False) s \<and> ps_pending s = [''a''] \<and>
     bp_sem (ps_pool s) + active_count (ps_pool s) + length (ps_pending s) + ps_lost s = 1 + ps_extra s"
proof -
  let ?p = "new_pool 1 300 True False"
  let ?init = "\<lparr>ps_pool = ?p, ps_pending = [], ps_lost = 0, ps_extra = 0\<rparr>"
  let ?next = "?init\<lparr>ps_pool := ?p\<lparr>bp_sem := 0\<rparr>, ps_pending := ''a'' # ps_pending ?init\<rparr>"
  have "pool_step ?init ?next"
    using pool_step.take [of ?init "?p\<lparr>bp_sem := 0\<rparr>" "''a''"] by (simp add: take_slot_def new_pool_def)
  then have r: "pool_reach ?p ?next" using pool_reach.init pool_reach.step by blast
  show ?thesis by (rule exI [of _ ?next]) (use r pool_slots_accounted [OF r] in simp)
qed

text \<open>The excess is reachable in normal operation. A job that runs longer than the idle timeout (its context is
  not touched while it runs) has its context closed by \<open>_cleanup_idle\<close>, which gives the slot back; when the
  job ends, its own release gives the slot back again. A pool of size one then opens two contexts.\<close>

definition open_context :: "time \<Rightarrow> string \<Rightarrow> browser_pool \<Rightarrow> browser_pool" where
  "open_context now sid p = snd (acquire_body now (Some ''/tmp/d'') sid None (the (take_slot p)))"

theorem idle_cleanup_overfills_pool:
  "let p0 = (new_pool 1 300 True False)\<lparr>bp_browser := True, bp_running := True\<rparr>;
       p1 = open_context 0 ''long'' p0;
       p2 = cleanup_idle 301 p1;
       p3 = open_context 302 ''second'' p2;
       p4 = pool_release ''long'' p3;
       p5 = open_context 304 ''third'' p4
   in take_slot p1 = None \<and> take_slot p3 = None \<and> active_count p5 = 2 \<and> bp_max_size p5 = 1"
proof -
  let ?p0 = "(new_pool 1 300 True False)\<lparr>bp_browser := True, bp_running := True\<rparr>"
  let ?c = "\<lambda>now sid. \<lparr>pc_session_id = sid, pc_policy = None, pc_routed = True, pc_download_dir = Some ''/tmp/d'',
    pc_downloads = [], pc_created_at = now, pc_last_used = now\<rparr>"
  let ?p1 = "?p0\<lparr>bp_contexts := [(''long'', ?c 0 ''long'')], bp_sem := 0\<rparr>"
  let ?p3 = "?p0\<lparr>bp_contexts := [(''second'', ?c 302 ''second'')], bp_sem := 0\<rparr>"
  let ?p5 = "?p0\<lparr>bp_contexts := [(''second'', ?c 302 ''second''), (''third'', ?c 304 ''third'')], bp_sem := 0\<rparr>"
  note ops = open_context_def take_slot_def acquire_body_def new_pool_def Let_def
  have 1: "open_context 0 ''long'' ?p0 = ?p1" by (simp add: ops)
  have 2: "cleanup_idle 301 ?p1 = ?p0"
    by (simp add: cleanup_idle_def idle_sessions_def idle_seconds_def pool_release_def new_pool_def)
  have 3: "open_context 302 ''second'' ?p0 = ?p3" by (simp add: ops)
  have 4: "open_context 304 ''third'' (pool_release ''long'' ?p3) = ?p5" by (simp add: ops pool_release_def)
  show ?thesis
    unfolding Let_def 1 2 3 4 by (simp add: take_slot_def active_count_def new_pool_def)
qed

definition nth_candidate :: "string \<Rightarrow> string \<Rightarrow> string \<Rightarrow> nat \<Rightarrow> string" where
  "nth_candidate dir stem suffix n = path_join dir (stem @ ''-'' @ show_nat n @ suffix)"

lemma nth_candidate_inj: "nth_candidate dir stem suffix m = nth_candidate dir stem suffix n \<longleftrightarrow> m = n"
  by (auto simp: nth_candidate_def path_join_def split: if_splits)

lemma unique_loop_none:
  "unique_loop fuel existing dir stem suffix counter candidate = None \<Longrightarrow>
   i + 1 < fuel \<Longrightarrow> nth_candidate dir stem suffix (counter + i) \<in> set existing"
proof (induction fuel existing dir stem suffix counter candidate arbitrary: i rule: unique_loop.induct)
  case (2 fuel existing dir stem suffix counter candidate)
  have "unique_loop fuel existing dir stem suffix (counter + 1) (nth_candidate dir stem suffix counter) = None" "candidate \<in> set existing"
    using 2(2) by (auto simp: nth_candidate_def split: if_splits)
  then show ?case
    using 2(1) [of "i - 1"] 2(3) by (cases i; cases fuel) (auto simp: nth_candidate_def split: if_splits)
qed simp

lemma unique_loop_fresh:
  "unique_loop fuel existing dir stem suffix counter candidate = Some path \<Longrightarrow> path \<notin> set existing"
  by (induction fuel existing dir stem suffix counter candidate rule: unique_loop.induct) (auto split: if_splits)

lemma unique_loop_ends:
  assumes "length existing + 2 \<le> fuel"
  shows "unique_loop fuel existing dir stem suffix counter candidate \<noteq> None"
proof
  assume "unique_loop fuel existing dir stem suffix counter candidate = None"
  then have "(\<lambda>i. nth_candidate dir stem suffix (counter + i)) ` {0..length existing} \<subseteq> set existing"
    using assms by (auto intro: unique_loop_none)
  moreover have "inj_on (\<lambda>i. nth_candidate dir stem suffix (counter + i)) {0..length existing}"
    by (simp add: inj_on_def nth_candidate_inj)
  ultimately have "Suc (length existing) \<le> card (set existing)"
    using card_inj_on_le [of _ "{0..length existing}" "set existing"] by fastforce
  then show False using card_length [of existing] by simp
qed

text \<open>The search for a free download name ends, after at most as many counters as there are files, with a path that
  does not exist: a download never overwrites another.\<close>

theorem download_path_is_fresh:
  assumes "length existing + 2 \<le> fuel"
  shows "\<exists>path. unique_download_path fuel existing dir filename = Some path \<and> path \<notin> set existing"
proof -
  let ?base = "if base_name filename = '''' then ''download.bin'' else base_name filename"
  obtain stem suffix where s: "splitext ?base = (stem, suffix)" by fastforce
  obtain path where "unique_loop fuel existing dir stem suffix 1 (path_join dir ?base) = Some path"
    using unique_loop_ends [OF assms] by blast
  with unique_loop_fresh s show ?thesis by (simp add: unique_download_path_def Let_def)
qed

theorem download_path_is_fresh_witness:
  "\<exists>path. unique_download_path 4 [''/d/a.pdf'', ''/d/a-1.pdf''] ''/d'' ''x/a.pdf'' = Some path \<and>
     path \<notin> {''/d/a.pdf'', ''/d/a-1.pdf''}"
  using download_path_is_fresh [of "[''/d/a.pdf'', ''/d/a-1.pdf'']" 4 "''/d''" "''x/a.pdf''"] by simp

end
