(* ===== verification/Redis_Store.thy ===== *)
theory Redis_Store imports Plaidify_Prelude begin

text \<open>
  Redis, as the program uses it. Redis is a service outside the repository, so it is a parameter:
  a record of the commands the code calls, over an unknown server state \<open>'r\<close>. What the code relies
  on is \<open>redis_ok\<close>, the documented behaviour of \<^verbatim>\<open>GET\<close>, \<^verbatim>\<open>SET .. EX n\<close>, \<^verbatim>\<open>SET .. EX n NX\<close>, \<^verbatim>\<open>DEL\<close> and
  \<^verbatim>\<open>TTL\<close>, stated through a view of the server state (for each key its value and the time it expires).
  Values are of type \<open>'v\<close>: what \<open>json.dumps\<close> writes is read back by \<open>json.loads\<close> as it was, so the
  value is kept instead of its text. Scripts run by \<^verbatim>\<open>EVAL\<close> are in the repository and are modelled
  where they are used, as the commands they make.
\<close>

record ('r, 'v) redis =
  r_get :: "'r \<Rightarrow> time \<Rightarrow> string \<Rightarrow> 'v option"
  r_set :: "'r \<Rightarrow> time \<Rightarrow> string \<Rightarrow> 'v \<Rightarrow> int \<Rightarrow> 'r"
  r_set_nx :: "'r \<Rightarrow> time \<Rightarrow> string \<Rightarrow> 'v \<Rightarrow> int \<Rightarrow> bool \<times> 'r"
  r_delete :: "'r \<Rightarrow> string \<Rightarrow> 'r"
  r_ttl :: "'r \<Rightarrow> time \<Rightarrow> string \<Rightarrow> int"

type_synonym 'v keyspace = "string \<Rightarrow> ('v \<times> time) option"

definition live :: "'v keyspace \<Rightarrow> time \<Rightarrow> string \<Rightarrow> 'v option" where
  "live ks now k = (case ks k of None \<Rightarrow> None | Some (v, deadline) \<Rightarrow> if now < deadline then Some v else None)"

definition redis_ok :: "('r, 'v) redis \<Rightarrow> ('r \<Rightarrow> 'v keyspace) \<Rightarrow> bool" where
  "redis_ok rd view \<longleftrightarrow>
     (\<forall>r now k. r_get rd r now k = live (view r) now k) \<and>
     (\<forall>r now k v ex. view (r_set rd r now k v ex) = (view r)(k \<mapsto> (v, now + of_int ex))) \<and>
     (\<forall>r now k v ex. r_set_nx rd r now k v ex =
        (if live (view r) now k = None then (True, r_set rd r now k v ex) else (False, r))) \<and>
     (\<forall>r k. view (r_delete rd r k) = (view r)(k := None)) \<and>
     (\<forall>r now k v deadline. view r k = Some (v, deadline) \<longrightarrow> now < deadline \<longrightarrow>
        of_int (r_ttl rd r now k) \<le> deadline - now + 1 \<and> deadline - now - 1 \<le> of_int (r_ttl rd r now k)) \<and>
     (\<forall>r now k. live (view r) now k = None \<longrightarrow> r_ttl rd r now k < 0)"

lemma redis_get: "redis_ok rd view \<Longrightarrow> r_get rd r now k = live (view r) now k"
  by (simp add: redis_ok_def)

lemma redis_set: "redis_ok rd view \<Longrightarrow> view (r_set rd r now k v ex) = (view r)(k \<mapsto> (v, now + of_int ex))"
  by (simp add: redis_ok_def)

lemma redis_delete: "redis_ok rd view \<Longrightarrow> view (r_delete rd r k) = (view r)(k := None)"
  by (simp add: redis_ok_def)

lemma redis_set_nx: "redis_ok rd view \<Longrightarrow>
  r_set_nx rd r now k v ex = (if live (view r) now k = None then (True, r_set rd r now k v ex) else (False, r))"
  unfolding redis_ok_def by blast

lemmas redis_laws = redis_get redis_set redis_delete redis_set_nx

lemma live_upd [simp]: "live (ks(k \<mapsto> (v, d))) now k = (if now < d then Some v else None)"
  by (simp add: live_def)

lemma live_upd_other [simp]: "k' \<noteq> k \<Longrightarrow> live (ks(k := x)) now k' = live ks now k'"
  by (simp add: live_def)

lemma live_del [simp]: "live (ks(k := None)) now k = None"
  by (simp add: live_def)

lemma live_expires: "live ks now k = None \<Longrightarrow> now \<le> now' \<Longrightarrow> live ks now' k = None"
  by (auto simp: live_def split: option.splits if_splits)

text \<open>A server whose state is its keyspace: the instance the witnesses use.\<close>

definition ks_redis :: "('v keyspace, 'v) redis" where
  "ks_redis = \<lparr>r_get = live,
     r_set = (\<lambda>r now k v ex. r(k \<mapsto> (v, now + of_int ex))),
     r_set_nx = (\<lambda>r now k v ex. if live r now k = None then (True, r(k \<mapsto> (v, now + of_int ex))) else (False, r)),
     r_delete = (\<lambda>r k. r(k := None)),
     r_ttl = (\<lambda>r now k. case r k of None \<Rightarrow> -2 | Some (v, d) \<Rightarrow> if now < d then \<lfloor>d - now\<rfloor> else -2)\<rparr>"

lemma ks_redis_ok: "redis_ok ks_redis (\<lambda>r. r)"
  unfolding redis_ok_def ks_redis_def
  by (auto simp: live_def split: option.splits if_splits) linarith+

end
