(* ===== verification/MFA_Manager.thy ===== *)
theory MFA_Manager imports Redis_Store begin

text \<open>
  \<^verbatim>\<open>src/core/mfa_manager.py\<close>: pending MFA challenges.

  A worker's manager holds its own sessions (\<open>mm_sessions\<close>) and, when Redis is configured, shares the
  server state \<open>mm_redis\<close> with the other workers. Operations take the clock as an argument: the reads
  of \<^verbatim>\<open>time.time()\<close> in one operation are one instant. \<open>wait_for_code\<close> is a function of what the waiter
  observes: whether its event woke it, or in Redis mode the readings of its polls.
\<close>

section \<open>Sessions\<close>

definition DEFAULT_MFA_TTL :: int where
  "DEFAULT_MFA_TTL = 300"

record mfa_session =
  ms_session_id :: string
  ms_site :: string
  ms_mfa_type :: string
  ms_created_at :: time
  ms_ttl :: int
  ms_event :: bool
  ms_code :: "string option"
  ms_metadata :: "(string, json) dict"
  ms_code_fetcher :: bool

text \<open>What is stored under the session's Redis key.\<close>

record mfa_payload =
  mp_session_id :: string
  mp_site :: string
  mp_mfa_type :: string
  mp_metadata :: "(string, json) dict"
  mp_ttl :: int
  mp_created_at :: time
  mp_code :: "string option"

record 'r mfa_manager =
  mm_sessions :: "(string, mfa_session) dict"
  mm_redis :: "'r option"

definition ms_expired :: "time \<Rightarrow> mfa_session \<Rightarrow> bool" where
  "ms_expired now s \<longleftrightarrow> now - ms_created_at s > of_int (ms_ttl s)"

definition ms_submit_code :: "string \<Rightarrow> mfa_session \<Rightarrow> mfa_session" where
  "ms_submit_code code s = s\<lparr>ms_code := Some code, ms_event := True\<rparr>"

definition mfa_redis_key :: "string \<Rightarrow> string" where
  "mfa_redis_key session_id = ''plaidify:mfa_session:'' @ session_id"

definition session_payload :: "mfa_session \<Rightarrow> mfa_payload" where
  "session_payload s = \<lparr>mp_session_id = ms_session_id s, mp_site = ms_site s, mp_mfa_type = ms_mfa_type s,
     mp_metadata = ms_metadata s, mp_ttl = ms_ttl s, mp_created_at = ms_created_at s, mp_code = ms_code s\<rparr>"

definition payload_expired :: "time \<Rightarrow> mfa_payload \<Rightarrow> bool" where
  "payload_expired now p \<longleftrightarrow> now - mp_created_at p > of_int (mp_ttl p)"

definition remaining_ttl :: "time \<Rightarrow> mfa_payload \<Rightarrow> int" where
  "remaining_ttl now p = max 1 \<lfloor>of_int (mp_ttl p) - (now - mp_created_at p)\<rfloor>"

section \<open>Operations of the manager\<close>

definition fetch_submitted_code ::
  "('r, mfa_payload) redis \<Rightarrow> time \<Rightarrow> string \<Rightarrow> 'r mfa_manager \<Rightarrow> string option \<times> 'r mfa_manager" where
  "fetch_submitted_code rd now sid m =
     (case mm_redis m of
        None \<Rightarrow> ((case map_of (mm_sessions m) sid of Some s \<Rightarrow> ms_code s | None \<Rightarrow> None), m)
      | Some r \<Rightarrow>
          (case r_get rd r now (mfa_redis_key sid) of
             None \<Rightarrow> (None, m)
           | Some p \<Rightarrow> if payload_expired now p
               then (None, m\<lparr>mm_redis := Some (r_delete rd r (mfa_redis_key sid))\<rparr>)
               else (mp_code p, m)))"

definition persist_session ::
  "('r, mfa_payload) redis \<Rightarrow> time \<Rightarrow> mfa_session \<Rightarrow> 'r mfa_manager \<Rightarrow> 'r mfa_manager" where
  "persist_session rd now s m =
     (case mm_redis m of
        None \<Rightarrow> m
      | Some r \<Rightarrow> m\<lparr>mm_redis :=
          Some (r_set rd r now (mfa_redis_key (ms_session_id s)) (session_payload s) (ms_ttl s))\<rparr>)"

definition restore_session :: "mfa_payload \<Rightarrow> mfa_session" where
  "restore_session p = \<lparr>ms_session_id = mp_session_id p, ms_site = mp_site p, ms_mfa_type = mp_mfa_type p,
     ms_created_at = mp_created_at p, ms_ttl = mp_ttl p, ms_event = False, ms_code = mp_code p,
     ms_metadata = mp_metadata p, ms_code_fetcher = True\<rparr>"

definition mfa_get_session ::
  "('r, mfa_payload) redis \<Rightarrow> time \<Rightarrow> string \<Rightarrow> 'r mfa_manager \<Rightarrow> mfa_session option \<times> 'r mfa_manager" where
  "mfa_get_session rd now sid m =
     (let local = map_of (mm_sessions m) sid;
          m' = (case local of
                  Some s \<Rightarrow> if ms_expired now s
                    then m\<lparr>mm_sessions := AList.delete sid (mm_sessions m)\<rparr> else m
                | None \<Rightarrow> m)
      in case map_of (mm_sessions m') sid of
           Some s \<Rightarrow> (Some s, m')
         | None \<Rightarrow>
             (case mm_redis m' of
                None \<Rightarrow> (None, m')
              | Some r \<Rightarrow>
                  (case r_get rd r now (mfa_redis_key sid) of
                     None \<Rightarrow> (None, m')
                   | Some p \<Rightarrow> if payload_expired now p
                       then (None, m'\<lparr>mm_redis := Some (r_delete rd r (mfa_redis_key sid))\<rparr>)
                       else (Some (restore_session p), m'))))"

definition mfa_create_session ::
  "('r, mfa_payload) redis \<Rightarrow> time \<Rightarrow> string \<Rightarrow> string \<Rightarrow> string \<Rightarrow> (string, json) dict \<Rightarrow> int \<Rightarrow>
   'r mfa_manager \<Rightarrow> mfa_session \<times> 'r mfa_manager" where
  "mfa_create_session rd now sid site mfa_type metadata ttl m =
     (case mfa_get_session rd now sid m of
        (Some existing, m') \<Rightarrow>
          (let existing = existing\<lparr>ms_site := site, ms_mfa_type := mfa_type,
                 ms_metadata := dict_update (ms_metadata existing) metadata,
                 ms_code_fetcher := (ms_code_fetcher existing \<or> mm_redis m' \<noteq> None)\<rparr>;
               m'' = m'\<lparr>mm_sessions := AList.update sid existing (mm_sessions m')\<rparr>
           in (existing, persist_session rd now existing m''))
      | (None, m') \<Rightarrow>
          (let session = \<lparr>ms_session_id = sid, ms_site = site, ms_mfa_type = mfa_type, ms_created_at = now,
                 ms_ttl = ttl, ms_event = False, ms_code = None, ms_metadata = metadata,
                 ms_code_fetcher = (mm_redis m' \<noteq> None)\<rparr>;
               m'' = m'\<lparr>mm_sessions := AList.update sid session (mm_sessions m')\<rparr>
           in (session, persist_session rd now session m'')))"

definition mfa_remove_session ::
  "('r, mfa_payload) redis \<Rightarrow> string \<Rightarrow> 'r mfa_manager \<Rightarrow> 'r mfa_manager" where
  "mfa_remove_session rd sid m =
     (let m' = m\<lparr>mm_sessions := AList.delete sid (mm_sessions m)\<rparr>
      in case mm_redis m' of
           None \<Rightarrow> m'
         | Some r \<Rightarrow> m'\<lparr>mm_redis := Some (r_delete rd r (mfa_redis_key sid))\<rparr>)"

definition mfa_submit_code ::
  "('r, mfa_payload) redis \<Rightarrow> time \<Rightarrow> string \<Rightarrow> string \<Rightarrow> 'r mfa_manager \<Rightarrow> bool \<times> 'r mfa_manager" where
  "mfa_submit_code rd now sid code m =
     (let session = map_of (mm_sessions m) sid;
          payload = (case mm_redis m of None \<Rightarrow> None | Some r \<Rightarrow> r_get rd r now (mfa_redis_key sid))
      in if session = None \<and> payload = None then (False, m)
         else if (case payload of Some p \<Rightarrow> payload_expired now p | None \<Rightarrow> False)
           then (False, mfa_remove_session rd sid m)
         else if (case session of Some s \<Rightarrow> ms_expired now s | None \<Rightarrow> False)
           then (False, mfa_remove_session rd sid m)
         else
           (let m1 = (case (payload, mm_redis m) of
                        (Some p, Some r) \<Rightarrow>
                          (let p = p\<lparr>mp_code := Some code\<rparr>
                           in m\<lparr>mm_redis := Some (r_set rd r now (mfa_redis_key sid) p (remaining_ttl now p))\<rparr>)
                      | _ \<Rightarrow> m);
                m2 = (case session of
                        Some s \<Rightarrow> m1\<lparr>mm_sessions := AList.update sid (ms_submit_code code s) (mm_sessions m1)\<rparr>
                      | None \<Rightarrow> m1)
            in (True, m2)))"

definition mfa_active_count :: "time \<Rightarrow> 'r mfa_manager \<Rightarrow> nat" where
  "mfa_active_count now m = length (filter (\<lambda>(_, s). \<not> ms_expired now s) (mm_sessions m))"

definition mfa_cleanup_expired :: "time \<Rightarrow> 'r mfa_manager \<Rightarrow> 'r mfa_manager" where
  "mfa_cleanup_expired now m =
     (let expired = map fst (filter (\<lambda>(_, s). ms_expired now s) (mm_sessions m))
      in m\<lparr>mm_sessions := dict_del_all expired (mm_sessions m)\<rparr>)"

section \<open>Waiting for the code\<close>

text \<open>One turn of the polling loop: the clock when \<open>remaining\<close> is computed, the session's code after
  the wait if its event woke it, and what the fetcher returned.\<close>

type_synonym mfa_poll = "time \<times> string option \<times> string option"

definition nonempty :: "string option \<Rightarrow> bool" where
  "nonempty c \<longleftrightarrow> c \<noteq> None \<and> c \<noteq> Some ''''"

text \<open>\<open>None\<close>: still waiting; \<open>Some None\<close>: timed out; \<open>Some (Some code)\<close>: the code.\<close>

fun wait_polls :: "time \<Rightarrow> string option \<Rightarrow> mfa_poll list \<Rightarrow> string option option" where
  "wait_polls deadline code [] = (if nonempty code then Some code else None)"
| "wait_polls deadline code ((now, woken, fetched) # ps) =
     (if nonempty code then Some code
      else if deadline - now \<le> 0 then Some None
      else if nonempty woken then Some woken
      else if nonempty fetched then Some fetched
      else wait_polls deadline code ps)"

text \<open>\<open>timeout\<close> \<open>None\<close> or zero stands for the session's own time to live; without a fetcher the waiter only
  waits for its event (\<open>event_in_time\<close> says whether it was set before the timeout).\<close>

definition wait_for_code ::
  "time \<Rightarrow> time option \<Rightarrow> bool \<Rightarrow> mfa_poll list \<Rightarrow> mfa_session \<Rightarrow> string option option" where
  "wait_for_code start timeout event_in_time polls s =
     (let wait_timeout = (case timeout of None \<Rightarrow> of_int (ms_ttl s) | Some t \<Rightarrow> if t = 0 then of_int (ms_ttl s) else t)
      in if \<not> ms_code_fetcher s then Some (if event_in_time then ms_code s else None)
         else wait_polls (start + wait_timeout) (ms_code s) polls)"

section \<open>The sessions of one worker\<close>

definition mfa_inv :: "'r mfa_manager \<Rightarrow> bool" where
  "mfa_inv m \<longleftrightarrow> dict_ok (mm_sessions m) \<and> (\<forall>sid s. map_of (mm_sessions m) sid = Some s \<longrightarrow> ms_session_id s = sid)"

lemma mfa_inv_delete [inv_intros]: "mfa_inv m \<Longrightarrow> mfa_inv (m\<lparr>mm_sessions := AList.delete sid (mm_sessions m)\<rparr>)"
  by (auto simp: mfa_inv_def)

lemma mfa_inv_redis [simp]: "mfa_inv (m\<lparr>mm_redis := r\<rparr>) = mfa_inv m"
  by (simp add: mfa_inv_def)

lemma mfa_inv_update [inv_intros]:
  "mfa_inv m \<Longrightarrow> ms_session_id s = sid \<Longrightarrow> mfa_inv (m\<lparr>mm_sessions := AList.update sid s (mm_sessions m)\<rparr>)"
  by (auto simp: mfa_inv_def)

lemma mfa_inv_remove [inv_intros]: "mfa_inv m \<Longrightarrow> mfa_inv (mfa_remove_session rd sid m)"
  by (auto simp: mfa_remove_session_def Let_def intro: inv_intros split: option.splits)

lemma mfa_inv_cleanup [inv_intros]: "mfa_inv m \<Longrightarrow> mfa_inv (mfa_cleanup_expired now m)"
  by (auto simp: mfa_inv_def mfa_cleanup_expired_def Let_def dict_simps split: if_splits)

lemma mfa_inv_submit [inv_intros]: "mfa_inv m \<Longrightarrow> mfa_inv (snd (mfa_submit_code rd now sid code m))"
  by (auto simp: mfa_submit_code_def Let_def ms_submit_code_def split: option.splits
      intro: inv_intros) (auto simp: mfa_inv_def)

lemma persist_sessions [simp]: "mm_sessions (persist_session rd now s m) = mm_sessions m"
  by (simp add: persist_session_def split: option.splits)

lemma mfa_inv_persist [inv_intros]: "mfa_inv m \<Longrightarrow> mfa_inv (persist_session rd now s m)"
  by (simp add: mfa_inv_def)

lemma mfa_get_session_not_expired:
  "fst (mfa_get_session rd now sid m) = Some s \<Longrightarrow> \<not> ms_expired now s"
  by (auto simp: mfa_get_session_def Let_def restore_session_def ms_expired_def payload_expired_def
      split: option.splits if_splits)

lemma mfa_inv_create [inv_intros]:
  "mfa_inv m \<Longrightarrow>
   (\<And>r p. mm_redis m = Some r \<Longrightarrow> r_get rd r now (mfa_redis_key sid) = Some p \<Longrightarrow> mp_session_id p = sid) \<Longrightarrow>
   mfa_inv (snd (mfa_create_session rd now sid site ty meta ttl m))"
  by (auto simp: mfa_create_session_def mfa_get_session_def Let_def restore_session_def
      split: option.splits prod.splits if_splits intro!: inv_intros)
    (auto simp: mfa_inv_def)

lemma key_inj [simp]: "mfa_redis_key a = mfa_redis_key b \<longleftrightarrow> a = b"
  by (simp add: mfa_redis_key_def)

section \<open>Delivery, expiry and waiting\<close>



lemma mfa_removed_is_gone:
  assumes ok: "redis_ok rd view"
  shows "fst (mfa_get_session rd later sid (mfa_remove_session rd sid m)) = None"
  by (auto simp: mfa_get_session_def mfa_remove_session_def Let_def redis_laws [OF ok] split: option.splits)

text \<open>A code that arrives after the time to live is refused, whichever store still holds the session, and
  the session is gone from both stores for good.\<close>

theorem mfa_late_code_refused:
  assumes ok: "redis_ok rd view"
    and late: "(\<exists>s. map_of (mm_sessions m) sid = Some s \<and> ms_expired now s) \<or>
      (\<exists>r p. mm_redis m = Some r \<and> r_get rd r now (mfa_redis_key sid) = Some p \<and> payload_expired now p)"
  shows "\<exists>m'. mfa_submit_code rd now sid code m = (False, m') \<and>
    (\<forall>later. fst (mfa_get_session rd later sid m') = None)"
proof -
  have "mfa_submit_code rd now sid code m = (False, mfa_remove_session rd sid m)"
    using late by (auto simp: mfa_submit_code_def Let_def split: option.splits)
  with mfa_removed_is_gone [OF ok] show ?thesis by blast
qed

theorem mfa_late_code_refused_witness:
  "let m = snd (mfa_create_session ks_redis 0 ''s1'' ''bank'' ''otp'' [] 300
             \<lparr>mm_sessions = [], mm_redis = None :: mfa_payload keyspace option\<rparr>)
   in \<exists>m'. mfa_submit_code ks_redis 301 ''s1'' ''1'' m = (False, m') \<and>
        (\<forall>later. fst (mfa_get_session ks_redis later ''s1'' m') = None)"
proof -
  let ?m = "snd (mfa_create_session ks_redis 0 ''s1'' ''bank'' ''otp'' [] 300
             \<lparr>mm_sessions = [], mm_redis = None :: mfa_payload keyspace option\<rparr>)"
  have "\<exists>s. map_of (mm_sessions ?m) ''s1'' = Some s \<and> ms_expired 301 s"
    by (simp add: mfa_create_session_def mfa_get_session_def persist_session_def ms_expired_def Let_def)
  then show ?thesis
    unfolding Let_def by (intro mfa_late_code_refused [OF ks_redis_ok]) blast
qed

definition past_deadline :: "time \<Rightarrow> mfa_poll list \<Rightarrow> bool" where
  "past_deadline deadline polls \<longleftrightarrow> list_ex (\<lambda>(now, _, _). deadline \<le> now) polls"

definition observed_before :: "time \<Rightarrow> string \<Rightarrow> mfa_poll list \<Rightarrow> bool" where
  "observed_before deadline c polls \<longleftrightarrow> list_ex (\<lambda>(now, w, f). now < deadline \<and> (w = Some c \<or> f = Some c)) polls"

lemma wait_polls_deadline: "past_deadline deadline polls \<Longrightarrow> wait_polls deadline code polls \<noteq> None"
  by (induction deadline code polls rule: wait_polls.induct) (auto simp: past_deadline_def)

lemma wait_polls_code:
  "wait_polls deadline code polls = Some (Some c) \<Longrightarrow>
   c \<noteq> '''' \<and> (code = Some c \<or> observed_before deadline c polls)"
  by (induction deadline code polls rule: wait_polls.induct)
    (auto simp: nonempty_def observed_before_def split: if_splits)



end
