(* ===== verification/Blueprint_Run.thy ===== *)
theory Blueprint_Run imports Step_Executor Browser_Pool MFA_Manager begin

text \<open>
  \<^verbatim>\<open>src/core/engine.py\<close>, the run of a blueprint: \<open>_execute_blueprint\<close> with \<open>_handle_mfa\<close> and
  \<open>_handle_push_mfa\<close>, built from the browser pool, the step executor, the read-only policy and the MFA
  manager, and \<open>connect_to_site\<close> around it.

  The engine, the executor and the pooled context share one policy object, which exists for them only when
  strict read-only mode is on; the model keeps it in the executor's state (\<open>ex_policy\<close>, \<open>None\<close> when the
  mode is off). What lies outside is in \<open>run_env\<close>: the page, Redis and the clock, the wait for the user's
  code (with what other workers do to the manager meanwhile), the clock of the push loop, and the data
  extraction. A clock list that runs out means that the run was cancelled by then.
\<close>

section \<open>Blueprints\<close>

datatype mfa_type = OTP_INPUT | EMAIL_CODE | SECURITY_QUESTION | PUSH

fun mfa_type_value :: "mfa_type \<Rightarrow> string" where
  "mfa_type_value OTP_INPUT = ''otp_input''"
| "mfa_type_value EMAIL_CODE = ''email_code''"
| "mfa_type_value SECURITY_QUESTION = ''security_question''"
| "mfa_type_value PUSH = ''push''"

record mfa_config =
  mf_selector :: string
  mf_timeout :: int
  mf_type :: mfa_type
  mf_input_selector :: "string option"
  mf_submit_selector :: "string option"
  mf_question_selector :: "string option"
  mf_poll_timeout :: "int option"

record 'd blueprint =
  bl_auth_steps :: "blueprint_step list"
  bl_mfa :: "mfa_config option"
  bl_extract :: "(string, 'd) dict"
  bl_cleanup :: "blueprint_step list"

section \<open>The state of a run\<close>

record ('p, 'r) run_state =
  rs_exec :: "'p exec"
  rs_mfa :: "'r mfa_manager"

record ('p, 'r, 'd) run_env =
  en_page :: "'p page_fun"
  en_executor :: executor
  en_redis :: "('r, mfa_payload) redis"
  en_now :: time
  en_wait :: "mfa_session \<Rightarrow> 'r mfa_manager \<Rightarrow> string option option \<times> 'r mfa_manager"
  en_push_clock :: "time list"
  en_extract :: "(string, 'd) dict \<Rightarrow> 'p exec \<Rightarrow> (step_exc + json \<times> string) \<times> 'p exec"
  en_downloads :: "download list"

text \<open>An operation of the page or the executor within a run.\<close>

definition lift_exec :: "('p exec \<Rightarrow> step_exc option \<times> 'p exec) \<Rightarrow> ('p, 'r) run_state \<Rightarrow> step_exc option \<times> ('p, 'r) run_state" where
  "lift_exec f rs = (case f (rs_exec rs) of (r, s) \<Rightarrow> (r, rs\<lparr>rs_exec := s\<rparr>))"

definition enter_phase :: "execution_phase \<Rightarrow> ('p, 'r) run_state \<Rightarrow> ('p, 'r) run_state" where
  "enter_phase ph rs = rs\<lparr>rs_exec := (rs_exec rs)\<lparr>ex_policy := map_option (set_phase ph) (ex_policy (rs_exec rs))\<rparr>\<rparr>"

definition thereafter ::
  "(step_exc option \<times> ('p, 'r) run_state) \<Rightarrow> (('p, 'r) run_state \<Rightarrow> step_exc option \<times> ('p, 'r) run_state) \<Rightarrow>
   step_exc option \<times> ('p, 'r) run_state" where
  "thereafter m k = (case m of (None, s) \<Rightarrow> k s | (Some e, s) \<Rightarrow> (Some e, s))"

section \<open>Second factors\<close>

fun push_loop :: "'p page_fun \<Rightarrow> string \<Rightarrow> string \<Rightarrow> time \<Rightarrow> time list \<Rightarrow> 'p exec \<Rightarrow> step_exc option \<times> 'p exec" where
  "push_loop pg sel site poll_timeout [] s = (Some XCancelled, s)"
| "push_loop pg sel site poll_timeout (elapsed # es) s =
     (if \<not> elapsed < poll_timeout then (Some (XErr (MFARequiredError site ''push'' '''')), s)
      else case send pg (QueryPresent sel) s of
             (PgOk v, s') \<Rightarrow> if truthy v then push_loop pg sel site poll_timeout es s' else (None, s')
           | (PgCancelled, s') \<Rightarrow> (Some XCancelled, s')
           | (_, s') \<Rightarrow> (None, s'))"

definition handle_push_mfa :: "('p, 'r, 'd) run_env \<Rightarrow> mfa_config \<Rightarrow> string \<Rightarrow> 'p exec \<Rightarrow> step_exc option \<times> 'p exec" where
  "handle_push_mfa env cfg site s =
     push_loop (en_page env) (mf_selector cfg) site (of_int (or_int (mf_poll_timeout cfg) 60000) / 1000) (en_push_clock env) s"

text \<open>The metadata of the challenge: its type, and the question where the page shows one.\<close>

definition challenge_metadata ::
  "('p, 'r, 'd) run_env \<Rightarrow> mfa_config \<Rightarrow> 'p exec \<Rightarrow> (step_exc + (string, json) dict) \<times> 'p exec" where
  "challenge_metadata env cfg s =
     (let metadata = [(''mfa_type'', JStr (mfa_type_value (mf_type cfg)))]
      in case (mf_type cfg, given (mf_question_selector cfg)) of
           (SECURITY_QUESTION, Some q) \<Rightarrow>
             (case send (en_page env) (QueryText q) s of
                (PgOk (JStr t), s') \<Rightarrow> (Inr (AList.update ''question'' (JStr t) metadata), s')
              | (PgCancelled, s') \<Rightarrow> (Inl XCancelled, s')
              | (_, s') \<Rightarrow> (Inr metadata, s'))
         | _ \<Rightarrow> (Inr metadata, s))"

definition enter_code :: "('p, 'r, 'd) run_env \<Rightarrow> mfa_config \<Rightarrow> string \<Rightarrow> 'p exec \<Rightarrow> step_exc option \<times> 'p exec" where
  "enter_code env cfg code s =
     (case given (mf_input_selector cfg) of
        None \<Rightarrow> (None, s)
      | Some input \<Rightarrow>
          andthen (perform (en_page env) (FillIn input code) s) (\<lambda>s.
            case given (mf_submit_selector cfg) of
              None \<Rightarrow> (None, s)
            | Some submit \<Rightarrow> andthen (perform (en_page env) (ClickOn submit) s) (perform (en_page env) LoadStateDefault)))"

definition await_code ::
  "('p, 'r, 'd) run_env \<Rightarrow> mfa_config \<Rightarrow> string \<Rightarrow> string \<Rightarrow> (string, json) dict \<Rightarrow> ('p, 'r) run_state \<Rightarrow>
   step_exc option \<times> ('p, 'r) run_state" where
  "await_code env cfg site session_id metadata rs =
     (let (session, m) = mfa_create_session (en_redis env) (en_now env) session_id site (mfa_type_value (mf_type cfg))
            metadata DEFAULT_MFA_TTL (rs_mfa rs);
          (code, m) = en_wait env session m;
          rs = rs\<lparr>rs_mfa := m\<rparr>
      in case code of
           None \<Rightarrow> (Some XCancelled, rs)
         | Some code \<Rightarrow>
             if \<not> nonempty code
             then (Some (XErr (MFARequiredError site (mfa_type_value (mf_type cfg)) session_id)),
                   rs\<lparr>rs_mfa := mfa_remove_session (en_redis env) session_id m\<rparr>)
             else lift_exec (enter_code env cfg (the code)) rs)"

definition handle_mfa ::
  "('p, 'r, 'd) run_env \<Rightarrow> mfa_config \<Rightarrow> string \<Rightarrow> string \<Rightarrow> ('p, 'r) run_state \<Rightarrow> step_exc option \<times> ('p, 'r) run_state" where
  "handle_mfa env cfg site session_id rs =
     (case send (en_page env) (WaitVisible (mf_selector cfg) (mf_timeout cfg)) (rs_exec rs) of
        (PgTimeout t, s) \<Rightarrow> (None, rs\<lparr>rs_exec := s\<rparr>)
      | (PgError t, s) \<Rightarrow> (Some (XOther t), rs\<lparr>rs_exec := s\<rparr>)
      | (PgCancelled, s) \<Rightarrow> (Some XCancelled, rs\<lparr>rs_exec := s\<rparr>)
      | (PgOk v, s) \<Rightarrow>
          (case challenge_metadata env cfg s of
             (Inl e, s') \<Rightarrow> (Some e, rs\<lparr>rs_exec := s'\<rparr>)
           | (Inr metadata, s') \<Rightarrow>
               if mf_type cfg = PUSH then lift_exec (handle_push_mfa env cfg site) (rs\<lparr>rs_exec := s'\<rparr>)
               else await_code env cfg site session_id metadata (rs\<lparr>rs_exec := s'\<rparr>)))"

section \<open>The body of a run\<close>

definition login :: "('p, 'r, 'd) run_env \<Rightarrow> 'd blueprint \<Rightarrow> string \<Rightarrow> string \<Rightarrow> ('p, 'r) run_state \<Rightarrow>
   step_exc option \<times> ('p, 'r) run_state" where
  "login env bp site session_id rs =
     thereafter (lift_exec (perform (en_page env) NewPage) rs) (\<lambda>rs.
     thereafter (lift_exec (execute_steps (en_page env) (en_executor env) (bl_auth_steps bp)) (enter_phase PhaseAuth rs)) (\<lambda>rs.
       case bl_mfa bp of
         None \<Rightarrow> (None, rs)
       | Some cfg \<Rightarrow> handle_mfa env cfg site session_id (enter_phase PhaseMfa rs)))"

definition wanted :: "string list option \<Rightarrow> (string, 'd) dict \<Rightarrow> (string, 'd) dict" where
  "wanted extract_fields defs = (case extract_fields of None \<Rightarrow> defs | Some fs \<Rightarrow> filter (\<lambda>(k, _). k \<in> set fs) defs)"

definition download_json :: "download \<Rightarrow> json" where
  "download_json d = JObj [(''filename'', JStr (dl_filename d)), (''size_bytes'', JInt (dl_size_bytes d)), (''url'', jopt (dl_url d))]"

definition response :: "('p, 'r, 'd) run_env \<Rightarrow> 'p exec \<Rightarrow> json \<Rightarrow> string \<Rightarrow> (string, json) dict" where
  "response env s data extraction_method =
     (let md = (case ex_policy s of Some p \<Rightarrow> [(''read_only_policy'', policy_metadata p)] | None \<Rightarrow> []);
          md = (if en_downloads env \<noteq> [] then AList.update ''downloads'' (JList (map download_json (en_downloads env))) md else md)
      in [(''status'', JStr ''connected''), (''data'', data), (''extraction_method'', JStr extraction_method),
          (''metadata'', if md = [] then JNull else JObj md)])"

definition after_login :: "('p, 'r, 'd) run_env \<Rightarrow> 'd blueprint \<Rightarrow> string list option \<Rightarrow> ('p, 'r) run_state \<Rightarrow>
   (step_exc + (string, json) dict) \<times> ('p, 'r) run_state" where
  "after_login env bp extract_fields rs =
     (let rs = enter_phase PhaseRead rs;
          defs = wanted extract_fields (bl_extract bp);
          (found, s) = (if defs = [] then (Inr (JObj [], ''none''), rs_exec rs) else en_extract env defs (rs_exec rs));
          rs = rs\<lparr>rs_exec := s\<rparr>
      in case found of
           Inl e \<Rightarrow> (Inl e, rs)
         | Inr (data, meth) \<Rightarrow>
             (if bl_cleanup bp = [] then (Inr (response env (rs_exec rs) data meth), rs)
              else case lift_exec (execute_steps (en_page env) (en_executor env) (bl_cleanup bp)) (enter_phase PhaseCleanup rs) of
                     (Some XCancelled, rs) \<Rightarrow> (Inl XCancelled, rs)
                   | (_, rs) \<Rightarrow> (Inr (response env (rs_exec rs) data meth), rs)))"

definition run_body :: "('p, 'r, 'd) run_env \<Rightarrow> 'd blueprint \<Rightarrow> string \<Rightarrow> string \<Rightarrow> string list option \<Rightarrow> ('p, 'r) run_state \<Rightarrow>
   (step_exc + (string, json) dict) \<times> ('p, 'r) run_state" where
  "run_body env bp site session_id extract_fields rs =
     (case login env bp site session_id rs of
        (Some e, rs) \<Rightarrow> (Inl e, rs)
      | (None, rs) \<Rightarrow> after_login env bp extract_fields rs)"

text \<open>The \<^verbatim>\<open>except\<close> clauses.\<close>

fun run_outcome :: "string \<Rightarrow> read_only_policy option \<Rightarrow> (step_exc + (string, json) dict) \<Rightarrow> (exc, (string, json) dict) outcome" where
  "run_outcome site p (Inr r) = Returned r"
| "run_outcome site p (Inl XCancelled) = Cancelled"
| "run_outcome site p (Inl (XErr (ReadOnlyPolicyViolationError d md))) =
     Raised (Plaidify (ReadOnlyPolicyViolationError d
       (case p of None \<Rightarrow> md | Some q \<Rightarrow> Some [(''read_only_policy'', policy_metadata q)])))"
| "run_outcome site p (Inl (XErr e)) = Raised (Plaidify e)"
| "run_outcome site p (Inl (XTimeout t)) = Raised (Plaidify (ConnectionFailedError site t))"
| "run_outcome site p (Inl (XOther t)) = Raised (Plaidify (ConnectionFailedError site t))"

text \<open>The \<^verbatim>\<open>finally\<close> clause: the page, if it was opened, is closed (only a cancellation escapes, and then the
  context is not released), then the context is released.\<close>

definition close_page :: "('p, 'r, 'd) run_env \<Rightarrow> bool \<Rightarrow> 'p exec \<Rightarrow> bool \<times> 'p exec" where
  "close_page env opened s =
     (if \<not> opened then (False, s)
      else case send (en_page env) ClosePage s of (PgCancelled, s') \<Rightarrow> (True, s') | (_, s') \<Rightarrow> (False, s'))"

definition page_opens :: "('p, 'r, 'd) run_env \<Rightarrow> 'p exec \<Rightarrow> bool" where
  "page_opens env s = (fst (perform (en_page env) NewPage s) = None)"

definition new_run :: "bool \<Rightarrow> 'p \<Rightarrow> 'r mfa_manager \<Rightarrow> ('p, 'r) run_state" where
  "new_run strict page m =
     \<lparr>rs_exec = \<lparr>ex_page = page, ex_log = [], ex_policy = (if strict then Some (new_policy True) else None)\<rparr>, rs_mfa = m\<rparr>"

text \<open>\<open>_execute_blueprint\<close>; \<open>None\<close> while it waits for a free slot. \<open>opened_dir\<close> tells how opening the context
  ends. \<open>pool_after\<close> is what the other tasks make of the pool during the run.\<close>

definition execute_blueprint ::
  "('p, 'r, 'd) run_env \<Rightarrow> bool \<Rightarrow> string option \<Rightarrow> (browser_pool \<Rightarrow> browser_pool) \<Rightarrow> 'd blueprint \<Rightarrow> string \<Rightarrow> string \<Rightarrow>
   string list option \<Rightarrow> 'p \<Rightarrow> 'r mfa_manager \<Rightarrow> browser_pool \<Rightarrow>
   ((exc, (string, json) dict) outcome \<times> ('p, 'r) run_state \<times> browser_pool) option" where
  "execute_blueprint env strict opened_dir pool_after bp site session_id extract_fields page m pool =
     (let rs = new_run strict page m; policy = ex_policy (rs_exec rs)
      in case take_slot pool of
           None \<Rightarrow> None
         | Some pool1 \<Rightarrow>
             (case acquire_body (en_now env) opened_dir session_id policy pool1 of
                (NotStarted, pool2) \<Rightarrow>
                  Some (Raised (OtherExc ''RuntimeError'' ''Browser pool is not started. Call start() first.''), rs, pool2)
              | (OpenFailed, pool2) \<Rightarrow> Some (Raised (OtherExc ''Error'' ''''), rs, pool2)
              | (Acquired c, pool2) \<Rightarrow>
                  (let (res, rs') = run_body env bp site session_id extract_fields rs;
                       (cancelled, s) = close_page env (page_opens env (rs_exec rs)) (rs_exec rs');
                       pool3 = pool_after pool2;
                       rs'' = rs'\<lparr>rs_exec := s\<rparr>
                   in if cancelled then Some (Cancelled, rs'', pool3)
                      else Some (run_outcome site (ex_policy (rs_exec rs')) res, rs'', pool_release session_id pool3))))"

section \<open>Connecting to a site\<close>

text \<open>\<^verbatim>\<open>re.match(r"^[a-zA-Z0-9_-]+$", site)\<close>; the dollar sign also matches before a final line feed.\<close>

definition site_char :: "char \<Rightarrow> bool" where
  "site_char c \<longleftrightarrow> is_word c \<or> c = CHR ''-''"

definition valid_site :: "string \<Rightarrow> bool" where
  "valid_site site \<longleftrightarrow>
     (site \<noteq> [] \<and> list_all site_char site) \<or>
     (let core = butlast site in site = core @ [CHR 0x0A] \<and> core \<noteq> [] \<and> list_all site_char core)"

text \<open>What reading the blueprint file gives.\<close>

datatype 'd blueprint_file = FileMissing | BadJson string | BadBlueprint string | Loaded "'d blueprint"

definition load_site_blueprint ::
  "(string \<Rightarrow> string) \<Rightarrow> (string \<Rightarrow> 'd blueprint_file) \<Rightarrow> string \<Rightarrow> string \<Rightarrow> plaidify_error + 'd blueprint" where
  "load_site_blueprint resolve files site connectors_dir =
     (if \<not> valid_site site
      then Inl (BlueprintValidationError site
        ''Invalid site name. Only alphanumeric characters, underscores, and hyphens are allowed.'')
      else let path = path_join connectors_dir (site @ ''.json'')
        in if \<not> starts_with (resolve connectors_dir) (resolve path)
           then Inl (BlueprintValidationError site ''Invalid site name.'')
           else case files path of
                  FileMissing \<Rightarrow> Inl (BlueprintNotFoundError site)
                | BadJson t \<Rightarrow> Inl (BlueprintValidationError site (''Invalid JSON: '' @ t))
                | BadBlueprint t \<Rightarrow> Inl (BlueprintValidationError site t)
                | Loaded bp \<Rightarrow> Inr bp)"

text \<open>\<open>connect_to_site\<close>: a Python connector of the site is preferred; otherwise the blueprint runs under the overall
  timeout, whose expiry cancels the run (\<open>timed_out\<close>).\<close>

definition connect_to_site ::
  "(string, string \<Rightarrow> string \<Rightarrow> string + (string, json) dict) dict \<Rightarrow> (string \<Rightarrow> string) \<Rightarrow> (string \<Rightarrow> 'd blueprint_file) \<Rightarrow> string \<Rightarrow>
   bool \<Rightarrow> ('d blueprint \<Rightarrow> (exc, (string, json) dict) outcome) \<Rightarrow> string \<Rightarrow> string \<Rightarrow> string \<Rightarrow> (exc, (string, json) dict) outcome" where
  "connect_to_site connectors resolve files connectors_dir timed_out run site username password =
     (case map_of connectors (site @ ''_connector'') of
        Some connect \<Rightarrow>
          (case connect username password of
             Inr r \<Rightarrow> Returned r
           | Inl text \<Rightarrow> Raised (Plaidify (ConnectionFailedError site text)))
      | None \<Rightarrow>
          (case load_site_blueprint resolve files site connectors_dir of
             Inl e \<Rightarrow> Raised (Plaidify e)
           | Inr bp \<Rightarrow>
               (case run bp of
                  Cancelled \<Rightarrow>
                    if timed_out then Raised (Plaidify (ConnectionFailedError site ''Connection timed out after 300s.'')) else Cancelled
                | r \<Rightarrow> r)))"

definition submit_mfa_response :: "bool \<Rightarrow> (string, json) dict" where
  "submit_mfa_response success =
     (if \<not> success
      then [(''status'', JStr ''error''), (''error'', JStr ''MFA session not found or expired.'')]
      else [(''status'', JStr ''mfa_submitted''), (''message'', JStr ''Code submitted. The connection will resume.'')])"

lemma site_char_no_path: "list_all site_char s \<Longrightarrow> CHR ''/'' \<notin> set s \<and> CHR ''.'' \<notin> set s"
  by (auto simp: site_char_def is_word_def list_all_iff Let_def)

lemma valid_site_no_path: "valid_site site \<Longrightarrow> CHR ''/'' \<notin> set site \<and> CHR ''.'' \<notin> set site"
proof -
  assume "valid_site site"
  then consider "list_all site_char site" | core where "site = core @ [CHR 0x0A]" "list_all site_char core"
    unfolding valid_site_def Let_def by blast
  then show ?thesis using site_char_no_path by cases auto
qed

text \<open>A site name cannot leave the directory of the connectors: a blueprint that loads is the file
  \<open>site.json\<close> directly in it.\<close>

lemma loaded_from_connectors_dir:
  assumes "load_site_blueprint resolve files site dir = Inr bp"
  shows "files (path_join dir (site @ ''.json'')) = Loaded bp \<and> CHR ''/'' \<notin> set (site @ ''.json'')"
  using assms valid_site_no_path [of site]
  by (auto simp: load_site_blueprint_def Let_def split: if_splits blueprint_file.splits)

section \<open>The policy through a run\<close>

lemma lift_exec_exec [simp]:
  "rs_exec (snd (lift_exec f rs)) = snd (f (rs_exec rs))" "fst (lift_exec f rs) = fst (f (rs_exec rs))"
  by (simp_all add: lift_exec_def split: prod.split)

lemma enter_phase_exec [simp]:
  "ex_policy (rs_exec (enter_phase ph rs)) = map_option (set_phase ph) (ex_policy (rs_exec rs))"
  "ex_log (rs_exec (enter_phase ph rs)) = ex_log (rs_exec rs)"
  by (simp_all add: enter_phase_def)

lemma thereafter_cases:
  "thereafter m k = (if fst m = None then k (snd m) else m)"
  by (cases m; cases "fst m") (auto simp: thereafter_def)

lemma policy_push_loop [simp]: "ex_policy (snd (push_loop pg sel site t es s)) = ex_policy s"
proof (induction es arbitrary: s)
  case (Cons e es)
  obtain r u where r: "send pg (QueryPresent sel) s = (r, u)" by fastforce
  with policy_send [of pg "QueryPresent sel" s] have "ex_policy u = ex_policy s" by simp
  with Cons show ?case by (auto simp: r split: page_result.split)
qed simp

lemma policy_enter_code [simp]: "ex_policy (snd (enter_code env cfg code s)) = ex_policy s"
  by (auto simp: enter_code_def policy_andthen split: option.split)

lemma policy_await_code [simp]: "ex_policy (rs_exec (snd (await_code env cfg site sid md rs))) = ex_policy (rs_exec rs)"
  by (simp add: await_code_def Let_def split: prod.split option.split)

lemma policy_challenge [simp]: "ex_policy (snd (challenge_metadata env cfg s)) = ex_policy s"
proof -
  have "ex_policy (snd (case send pg (QueryText q) s of
        (PgOk (JStr t), s') \<Rightarrow> (Inr (AList.update ''question'' (JStr t) md), s')
      | (PgCancelled, s') \<Rightarrow> (Inl XCancelled, s') | (_, s') \<Rightarrow> (Inr md, s'))) = ex_policy s" for pg q md
  proof -
    obtain r u where r: "send pg (QueryText q) s = (r, u)" by fastforce
    with policy_send [of pg "QueryText q" s] have "ex_policy u = ex_policy s" by simp
    then show ?thesis by (simp add: r split: page_result.split json.split)
  qed
  then show ?thesis by (simp add: challenge_metadata_def Let_def split: mfa_type.split option.split)
qed

lemma policy_handle_mfa [simp]: "ex_policy (rs_exec (snd (handle_mfa env cfg site sid rs))) = ex_policy (rs_exec rs)"
proof -
  obtain r s where r: "send (en_page env) (WaitVisible (mf_selector cfg) (mf_timeout cfg)) (rs_exec rs) = (r, s)" by fastforce
  with policy_send [of "en_page env" "WaitVisible (mf_selector cfg) (mf_timeout cfg)" "rs_exec rs"]
  have s: "ex_policy s = ex_policy (rs_exec rs)" by simp
  obtain c t where c: "challenge_metadata env cfg s = (c, t)" by fastforce
  with policy_challenge [of env cfg s] s have t: "ex_policy t = ex_policy (rs_exec rs)" by simp
  show ?thesis
    by (simp add: handle_mfa_def r s c t handle_push_mfa_def split: page_result.split sum.split)
qed

definition strictness :: "('p, 'r) run_state \<Rightarrow> bool option" where
  "strictness rs = map_option rp_enabled (ex_policy (rs_exec rs))"

lemma strictness_phase [simp]: "strictness (enter_phase ph rs) = strictness rs"
  by (cases "ex_policy (rs_exec rs)") (simp_all add: strictness_def set_phase_def)

lemma strictness_keeps: "keeps_policy (rs_exec s) (rs_exec t) \<Longrightarrow> strictness t = strictness s"
  by (auto simp: strictness_def keeps_policy_def same_policy_def split: option.splits)

lemma strictness_steps [simp]: "strictness (snd (lift_exec (execute_steps pg xe sts) rs)) = strictness rs"
  by (rule strictness_keeps) (simp add: policy_run.steps_R)

lemma strictness_login [simp]: "strictness (snd (login env bp site sid rs)) = strictness rs"
proof -
  have p: "strictness (snd (lift_exec (perform pg cmd) rs)) = strictness rs" for pg cmd and rs :: "('a, 'b) run_state"
    by (rule strictness_keeps) simp
  have m: "strictness (snd (handle_mfa env cfg site sid rs)) = strictness rs" for cfg rs
    by (simp add: strictness_def)
  show ?thesis by (simp add: login_def thereafter_cases p m split: option.split)
qed

definition rs_no_click :: "('p, 'r) run_state \<Rightarrow> bool" where
  "rs_no_click rs \<longleftrightarrow> no_click (rs_exec rs)"

lemma no_click_policy: "ex_policy s = ex_policy t \<Longrightarrow> no_click s = no_click t"
  by (simp add: no_click_def)

lemma no_click_phase [simp]: "rs_no_click (enter_phase ph rs) = rs_no_click rs"
  by (cases "ex_policy (rs_exec rs)") (simp_all add: rs_no_click_def no_click_def set_phase_def)

lemma no_click_steps:
  "ph \<noteq> PhaseRead \<Longrightarrow> rs_no_click rs \<Longrightarrow> rs_no_click (snd (lift_exec (execute_steps pg xe sts) (enter_phase ph rs)))"
proof -
  assume a: "ph \<noteq> PhaseRead" "rs_no_click rs"
  have "not_reading (rs_exec (enter_phase ph rs))" using a(1) by (auto simp: not_reading_def set_phase_def)
  from unread_run.steps_R [OF this, of pg xe sts] a(2) no_click_phase [of ph rs]
  show ?thesis by (simp add: rs_no_click_def clicks_free_def)
qed

lemma no_click_login:
  assumes "rs_no_click rs" shows "rs_no_click (snd (login env bp site sid rs))"
proof -
  have p: "rs_no_click (snd (lift_exec (perform pg cmd) rs)) = rs_no_click rs" for pg cmd and rs :: "('a, 'b) run_state"
    unfolding rs_no_click_def by (rule no_click_policy) simp
  have m: "rs_no_click (snd (handle_mfa env cfg site sid rs)) = rs_no_click rs" for cfg rs
    unfolding rs_no_click_def by (rule no_click_policy) simp
  show ?thesis using assms by (simp add: login_def thereafter_cases p m no_click_steps split: option.split)
qed

section \<open>After the login\<close>

lemma locked_phase:
  "strictness rs = Some True \<Longrightarrow> ph = PhaseRead \<or> ph = PhaseCleanup \<Longrightarrow>
   \<exists>p. ex_policy (rs_exec (enter_phase ph rs)) = Some p \<and> locked p"
  by (auto simp: strictness_def locked_def set_phase_def)

definition sends_harmless :: "('p, 'r) run_state \<Rightarrow> ('p, 'r) run_state \<Rightarrow> bool" where
  "sends_harmless rs rs' \<longleftrightarrow> (\<exists>sent. ex_log (rs_exec rs') = ex_log (rs_exec rs) @ sent \<and> list_all harmless sent)"

lemma sends_harmless_trans: "sends_harmless a b \<Longrightarrow> sends_harmless b c \<Longrightarrow> sends_harmless a c"
  unfolding sends_harmless_def by fastforce

lemma sends_harmless_quiet: "quiet (rs_exec a) (rs_exec b) \<Longrightarrow> sends_harmless a b"
  by (auto simp: sends_harmless_def quiet_def)

lemma sends_harmless_phase [simp]: "sends_harmless rs (enter_phase ph rs)" "sends_harmless (enter_phase ph rs) rs' = sends_harmless rs rs'"
  by (simp_all add: sends_harmless_def)

lemma after_login_split:
  obtains found s where
    "(found, s) = (if wanted extract_fields (bl_extract bp) = [] then (Inr (JObj [], ''none''), rs_exec (enter_phase PhaseRead rs))
      else en_extract env (wanted extract_fields (bl_extract bp)) (rs_exec (enter_phase PhaseRead rs)))"
    "snd (after_login env bp extract_fields rs) = (enter_phase PhaseRead rs)\<lparr>rs_exec := s\<rparr> \<or>
     snd (after_login env bp extract_fields rs) =
       snd (lift_exec (execute_steps (en_page env) (en_executor env) (bl_cleanup bp))
         (enter_phase PhaseCleanup ((enter_phase PhaseRead rs)\<lparr>rs_exec := s\<rparr>)))"
proof -
  let ?x = "if wanted extract_fields (bl_extract bp) = [] then (Inr (JObj [], ''none''), rs_exec (enter_phase PhaseRead rs))
      else en_extract env (wanted extract_fields (bl_extract bp)) (rs_exec (enter_phase PhaseRead rs))"
  obtain found s where x: "?x = (found, s)" by fastforce
  show ?thesis
  proof (rule that [OF x [symmetric]])
    let ?rs = "(enter_phase PhaseRead rs)\<lparr>rs_exec := s\<rparr>"
    obtain r t where c: "lift_exec (execute_steps (en_page env) (en_executor env) (bl_cleanup bp)) (enter_phase PhaseCleanup ?rs) = (r, t)"
      by fastforce
    show "snd (after_login env bp extract_fields rs) = ?rs \<or>
      snd (after_login env bp extract_fields rs) =
        snd (lift_exec (execute_steps (en_page env) (en_executor env) (bl_cleanup bp)) (enter_phase PhaseCleanup ?rs))"
      unfolding after_login_def Let_def x c by (auto simp: c split: sum.split prod.split option.split step_exc.split)
  qed
qed

lemma after_login_harmless:
  assumes strict: "strictness rs = Some True" and ext: "\<And>defs s. quiet s (snd (en_extract env defs s))"
  shows "sends_harmless rs (snd (after_login env bp extract_fields rs))"
proof (rule after_login_split [of extract_fields bp rs env])
  fix found s
  let ?rs = "(enter_phase PhaseRead rs)\<lparr>rs_exec := s\<rparr>"
  let ?c = "snd (lift_exec (execute_steps (en_page env) (en_executor env) (bl_cleanup bp)) (enter_phase PhaseCleanup ?rs))"
  assume x: "(found, s) = (if wanted extract_fields (bl_extract bp) = [] then (Inr (JObj [], ''none''), rs_exec (enter_phase PhaseRead rs))
      else en_extract env (wanted extract_fields (bl_extract bp)) (rs_exec (enter_phase PhaseRead rs)))"
    and r: "snd (after_login env bp extract_fields rs) = ?rs \<or> snd (after_login env bp extract_fields rs) = ?c"
  have q: "quiet (rs_exec (enter_phase PhaseRead rs)) s"
    using ext [of "rs_exec (enter_phase PhaseRead rs)" "wanted extract_fields (bl_extract bp)"] x
    by (auto split: if_splits dest: arg_cong [where f = snd])
  then have 1: "sends_harmless rs ?rs"
    using sends_harmless_quiet [of "enter_phase PhaseRead rs" ?rs] by simp
  have "strictness ?rs = Some True"
    using q strict by (auto simp: strictness_def quiet_def same_policy_def set_phase_def split: option.splits)
  then have "\<exists>p. ex_policy (rs_exec (enter_phase PhaseCleanup ?rs)) = Some p \<and> locked p"
    by (rule locked_phase) simp
  from quiet_run.steps_R [OF this, of "en_page env" "en_executor env" "bl_cleanup bp"]
  have "sends_harmless ?rs ?c"
    using sends_harmless_quiet [of "enter_phase PhaseCleanup ?rs" ?c] by simp
  with 1 r show ?thesis using sends_harmless_trans by metis
qed

lemma after_login_no_click:
  assumes "rs_no_click rs" and ext: "\<And>defs s. no_click s \<Longrightarrow> no_click (snd (en_extract env defs s))"
  shows "rs_no_click (snd (after_login env bp extract_fields rs))"
proof (rule after_login_split [of extract_fields bp rs env])
  fix found s
  let ?rs = "(enter_phase PhaseRead rs)\<lparr>rs_exec := s\<rparr>"
  let ?c = "snd (lift_exec (execute_steps (en_page env) (en_executor env) (bl_cleanup bp)) (enter_phase PhaseCleanup ?rs))"
  assume x: "(found, s) = (if wanted extract_fields (bl_extract bp) = [] then (Inr (JObj [], ''none''), rs_exec (enter_phase PhaseRead rs))
      else en_extract env (wanted extract_fields (bl_extract bp)) (rs_exec (enter_phase PhaseRead rs)))"
    and r: "snd (after_login env bp extract_fields rs) = ?rs \<or> snd (after_login env bp extract_fields rs) = ?c"
  have "no_click (rs_exec (enter_phase PhaseRead rs))" using assms(1) no_click_phase [of PhaseRead rs] by (simp add: rs_no_click_def)
  then have "no_click s"
    using ext [of "rs_exec (enter_phase PhaseRead rs)" "wanted extract_fields (bl_extract bp)"] x
    by (auto split: if_splits dest: arg_cong [where f = snd])
  then have "rs_no_click ?rs" by (simp add: rs_no_click_def)
  with r no_click_steps [of PhaseCleanup ?rs] show ?thesis by auto
qed

lemma run_outcome_known: "run_outcome site p res \<noteq> Raised (OtherExc n t)"
  by (cases "(site, p, res)" rule: run_outcome.cases) simp_all

lemma close_page_quiet: "sends_harmless rs (rs\<lparr>rs_exec := snd (close_page env opened (rs_exec rs))\<rparr>)"
proof -
  have "snd (close_page env opened s) = s \<or> snd (close_page env opened s) = snd (send (en_page env) ClosePage s)" for s
    by (auto simp: close_page_def split: prod.split page_result.split)
  moreover have "quiet s (snd (send (en_page env) ClosePage s))" for s
    by (rule quiet_send) simp
  ultimately have "quiet s (snd (close_page env opened s))" for s
    using quiet_refl by metis
  then show ?thesis by (intro sends_harmless_quiet) simp
qed

lemma close_page_policy: "ex_policy (snd (close_page env opened s)) = ex_policy s"
proof -
  obtain r t where r: "send (en_page env) ClosePage s = (r, t)" by fastforce
  with policy_send [of "en_page env" ClosePage s] have "ex_policy t = ex_policy s" by simp
  then show ?thesis by (simp add: close_page_def r split: page_result.split)
qed

lemma execute_blueprint_state:
  assumes "execute_blueprint env strict opened_dir pool_after bp site session_id extract_fields page m pool = Some (out, rs, pool')"
    and "bp_browser pool" "opened_dir \<noteq> None"
  shows "rs = (snd (run_body env bp site session_id extract_fields (new_run strict page m)))
    \<lparr>rs_exec := snd (close_page env (page_opens env (rs_exec (new_run strict page m)))
      (rs_exec (snd (run_body env bp site session_id extract_fields (new_run strict page m)))))\<rparr>"
  using assms
  by (auto simp: execute_blueprint_def acquire_body_def take_slot_def Let_def split: option.splits prod.splits if_splits)

lemma run_body_login:
  "snd (run_body env bp site session_id extract_fields rs) =
     (if fst (login env bp site session_id rs) = None
      then snd (after_login env bp extract_fields (snd (login env bp site session_id rs)))
      else snd (login env bp site session_id rs))"
  by (simp add: run_body_def split: prod.split option.split)


text \<open>Under strict read-only mode nothing is written once the login is over: every command sent to the site after
  it, through extraction, cleanup and closing, enters no text, selects nothing and runs no script of the
  blueprint, as long as the extraction itself does not.\<close>

lemma no_writes_after_login:
  assumes "execute_blueprint env True (Some dir) pool_after bp site session_id extract_fields page m pool = Some (out, rs, pool')"
    and "bp_browser pool" and "\<And>defs s. quiet s (snd (en_extract env defs s))"
    and "login env bp site session_id (new_run True page m) = (None, logged_in)"
  shows "\<exists>sent. ex_log (rs_exec rs) = ex_log (rs_exec logged_in) @ sent \<and> list_all harmless sent"
proof -
  let ?b = "snd (run_body env bp site session_id extract_fields (new_run True page m))"
  have "strictness logged_in = Some True"
    using strictness_login [of env bp site session_id "new_run True page m"] assms(4)
    by (simp add: strictness_def new_run_def new_policy_def)
  then have "sends_harmless logged_in ?b"
    using after_login_harmless [OF _ assms(3)] assms(4) by (simp add: run_body_login)
  moreover have "sends_harmless ?b rs"
    using execute_blueprint_state [OF assms(1,2)] close_page_quiet by simp
  ultimately show ?thesis unfolding sends_harmless_def [symmetric] by (rule sends_harmless_trans)
qed

text \<open>The guard against risky clicks never acts in a run. It only looks at clicks of the read phase, and the steps of
  a blueprint run in the authentication and cleanup phases: if the extraction records no blocked click, no run
  does, whatever its steps click on.\<close>

lemma run_keeps_no_click:
  assumes "execute_blueprint env strict (Some dir) pool_after bp site session_id extract_fields page m pool = Some (out, rs, pool')"
    and "bp_browser pool" and "\<And>defs s. no_click s \<Longrightarrow> no_click (snd (en_extract env defs s))"
  shows "no_click (rs_exec rs)"
proof -
  have "rs_no_click (new_run strict page m)"
    by (simp add: rs_no_click_def no_click_def new_run_def new_policy_def)
  then have l: "rs_no_click (snd (login env bp site session_id (new_run strict page m)))" by (rule no_click_login)
  have "rs_no_click (snd (run_body env bp site session_id extract_fields (new_run strict page m)))"
    using l after_login_no_click [OF l assms(3)] by (simp add: run_body_login)
  moreover have "ex_policy (rs_exec rs) = ex_policy (rs_exec (snd (run_body env bp site session_id extract_fields (new_run strict page m))))"
    using arg_cong [OF execute_blueprint_state [OF assms(1,2)], of "\<lambda>rs. ex_policy (rs_exec rs)"] close_page_policy
    by fastforce
  ultimately show ?thesis using no_click_policy unfolding rs_no_click_def by blast
qed

section \<open>A concrete run for the witnesses\<close>

definition calm_env :: "('p, mfa_payload keyspace, 'd) run_env" where
  "calm_env = \<lparr>en_page = (\<lambda>_ p. (PgOk JNull, p)),
     en_executor = \<lparr>xe_variables = [], xe_allow_js = True, xe_site = ''bank'', xe_str = (\<lambda>_. '''')\<rparr>,
     en_redis = ks_redis, en_now = 0, en_wait = (\<lambda>s m. (Some (Some ''123''), m)), en_push_clock = [],
     en_extract = (\<lambda>defs s. (Inr (JObj [(''balance'', JInt 5)], ''css_selectors''), s)), en_downloads = []\<rparr>"

definition calm_blueprint :: "'d \<Rightarrow> 'd blueprint" where
  "calm_blueprint d = \<lparr>bl_auth_steps = [fill_step], bl_mfa = None, bl_extract = [(''balance'', d)], bl_cleanup = [fill_step]\<rparr>"

definition calm_pool :: browser_pool where
  "calm_pool = (new_pool 1 300 True False)\<lparr>bp_browser := True, bp_running := True\<rparr>"

definition calm_mfa :: "mfa_payload keyspace mfa_manager" where
  "calm_mfa = \<lparr>mm_sessions = [], mm_redis = None\<rparr>"

lemmas calm_defs = calm_env_def calm_blueprint_def calm_pool_def calm_mfa_def new_pool_def


lemma calm_runs:
  "\<exists>out rs pool'. execute_blueprint env strict (Some dir) (\<lambda>p. p) bp site session_id extract_fields page m calm_pool = Some (out, rs, pool')"
proof -
  obtain res rs' where b: "run_body env bp site session_id extract_fields (new_run strict page m) = (res, rs')" by fastforce
  obtain c s where c: "close_page env (page_opens env (rs_exec (new_run strict page m))) (rs_exec rs') = (c, s)" by fastforce
  show ?thesis
    by (simp add: execute_blueprint_def calm_pool_def new_pool_def take_slot_def acquire_body_def Let_def b c)
qed

lemma calm_login:
  assumes "en_page env = (\<lambda>_ p. (PgOk JNull, p))" "xe_variables (en_executor env) = []"
  shows "fst (login env (calm_blueprint d) site session_id (new_run strict page m)) = None"
  using assms
  by (simp add: login_def thereafter_cases lift_exec_def perform_def send_def calm_blueprint_def new_run_def new_policy_def
      enter_phase_def set_phase_def fill_step_def execute_step.simps enforce_step_policy_def evaluate_step_def
      simple_step_def step_fill_def given_def or_str_def interpolate_opt_def andthen_def Let_def)

end
