(* ===== verification/Extraction_Pipeline.thy ===== *)
theory Extraction_Pipeline imports Extraction_Prompt Selector_Cache Dom_Simplifier Blueprint_Run begin

text \<open>
  \<^verbatim>\<open>src/core/engine.py\<close>, data extraction: by the selectors of the blueprint, or adaptively by four methods in turn: cached selectors, the
  language model on the simplified page, the language model on a screenshot, and the fallback selectors of the blueprint.

  The two singletons of the process that extraction changes, the selector cache and the circuit breaker of the language models, are carried
  beside the page: the page state of a run is a pair. Settings, clocks, HTTP and the tokens of \<^verbatim>\<open>html.parser\<close> are in \<open>ext_env\<close>. The clock is read
  three times: for the lookup in the cache (0), for the record of its use (1) and for a new entry (2). An error that is not one the code
  catches is \<open>XOther\<close>.
\<close>

section \<open>State and environment\<close>

record ext_state =
  xs_cache :: selector_cache
  xs_breaker :: circuit_breaker

record ext_env =
  xe_text :: text_lib
  xe_cache_lib :: cache_lib
  xe_llm_lib :: llm_lib
  xe_tokenize :: "string \<Rightarrow> html_event list"
  xe_dumps :: "json \<Rightarrow> string"
  xe_label :: "field_type \<Rightarrow> string"
  xe_system_prompt :: string
  xe_vision_prompt :: string
  xe_api_key :: "string option"
  xe_provider :: string
  xe_model :: "string option"
  xe_fallback_model :: "string option"
  xe_base_url :: "string option"
  xe_max_tokens :: int
  xe_temperature :: real
  xe_timeout :: real
  xe_token_budget :: nat
  xe_retries :: int
  xe_random :: "nat \<Rightarrow> real"
  xe_clock :: "nat \<Rightarrow> time"
  xe_latency :: real
  xe_post :: "provider \<Rightarrow> (string, json) dict \<Rightarrow> nat \<Rightarrow> (string, http_reply) outcome"
  xe_viewport :: "(int \<times> int) option"

record ext_blueprint =
  xb_domain :: string
  xb_llm_adaptive :: bool
  xb_page_context :: "string option"
  xb_fallback_selectors :: "(string, string) dict"

type_synonym 'p ext_exec = "('p \<times> ext_state) exec"

text \<open>The page knows nothing of the singletons.\<close>

definition lift_page :: "'p page_fun \<Rightarrow> ('p \<times> ext_state) page_fun" where
  "lift_page pg cmd px = (case pg cmd (fst px) of (r, p) \<Rightarrow> (r, (p, snd px)))"

definition singletons :: "'p ext_exec \<Rightarrow> ext_state" where
  "singletons s = snd (ex_page s)"

definition set_cache :: "selector_cache \<Rightarrow> 'p ext_exec \<Rightarrow> 'p ext_exec" where
  "set_cache c s = s\<lparr>ex_page := (fst (ex_page s), (singletons s)\<lparr>xs_cache := c\<rparr>)\<rparr>"

definition set_breaker :: "circuit_breaker \<Rightarrow> 'p ext_exec \<Rightarrow> 'p ext_exec" where
  "set_breaker b s = s\<lparr>ex_page := (fst (ex_page s), (singletons s)\<lparr>xs_breaker := b\<rparr>)\<rparr>"

section \<open>The language models\<close>

datatype llm_setup = No_key | Unknown_provider | Providers provider "provider option"

definition create_llm_provider :: "ext_env \<Rightarrow> llm_setup" where
  "create_llm_provider e =
     (case given (xe_api_key e) of
        None \<Rightarrow> No_key
      | Some key \<Rightarrow>
          let make = (\<lambda>model. create_provider (xe_provider e) key model (xe_base_url e) (xe_max_tokens e) (xe_temperature e) (xe_timeout e))
          in (case make (xe_model e) of
                None \<Rightarrow> Unknown_provider
              | Some p \<Rightarrow>
                  (case given (xe_fallback_model e) of
                     None \<Rightarrow> Providers p None
                   | Some m \<Rightarrow> (case make (Some m) of None \<Rightarrow> Unknown_provider | Some q \<Rightarrow> Providers p (Some q)))))"

text \<open>One call: a single provider is asked once, without retry and without breaker; a chain goes through both.\<close>

definition ask_llm ::
  "ext_env \<Rightarrow> provider \<Rightarrow> provider option \<Rightarrow> message list \<Rightarrow> json option \<Rightarrow> circuit_breaker \<Rightarrow> (llm_exc, llm_response) outcome \<times> circuit_breaker" where
  "ask_llm e p q messages fmt b =
     (let attempts = (\<lambda>p k. llm_call (xe_llm_lib e) p (xe_latency e) (xe_post e p (llm_payload p messages None None fmt) k))
      in case q of
           None \<Rightarrow> (attempts p 0, b)
         | Some q \<Rightarrow> chain_call (xe_clock e 1) (xe_clock e 2) (xe_retries e) (xe_random e) [attempts p, attempts q] b)"

text \<open>The answer to a call, as the engine handles it: \<^verbatim>\<open>except LLMProviderError\<close> gives up this method, other errors leave the engine.\<close>

datatype 'a attempt = Got 'a | Gave_up | Left step_exc

definition llm_answer :: "ext_env \<Rightarrow> provider \<Rightarrow> provider option \<Rightarrow> message list \<Rightarrow> json option \<Rightarrow> 'p ext_exec \<Rightarrow> llm_response attempt \<times> 'p ext_exec" where
  "llm_answer e p q messages fmt s =
     (case ask_llm e p q messages fmt (xs_breaker (singletons s)) of
        (r, b) \<Rightarrow>
          (case r of
             Returned a \<Rightarrow> Got a
           | Raised x \<Rightarrow> if provider_error x then Gave_up else Left (XOther (exc_message x))
           | Cancelled \<Rightarrow> Left XCancelled, set_breaker b s))"

section \<open>Cached selectors\<close>

text \<open>A selector that is no text is refused by the page, like a missing one.\<close>

definition selector_of :: "json \<Rightarrow> string option" where
  "selector_of v = (case v of JStr s \<Rightarrow> Some s | _ \<Rightarrow> None)"

text \<open>\<^verbatim>\<open>sel_info.get("fields", {}).get(col)\<close>; \<open>None\<close> is an \<^verbatim>\<open>AttributeError\<close>.\<close>

definition column_selector :: "(string, json) dict \<Rightarrow> string \<Rightarrow> json option" where
  "column_selector info col = (case jdefault info ''fields'' (JObj []) of JObj fs \<Rightarrow> Some (jget fs col) | _ \<Rightarrow> None)"

fun with_columns :: "(string, json) dict \<Rightarrow> (string, extraction_field) dict \<Rightarrow> (string, extraction_field) dict option" where
  "with_columns info [] = Some []"
| "with_columns info ((col, f) # cols) =
     (case (column_selector info col, with_columns info cols) of
        (Some v, Some rest) \<Rightarrow> Some ((col, if truthy v then f\<lparr>xf_selector := selector_of v\<rparr> else f) # rest)
      | _ \<Rightarrow> None)"

text \<open>The definition with its cached selectors: \<open>None\<close> for an exception, \<open>Some None\<close> when there is none.\<close>

definition cached_def :: "json \<Rightarrow> field_def \<Rightarrow> field_def option option" where
  "cached_def info d =
     (case info of
        JObj i \<Rightarrow>
          if map_of i ''row'' \<noteq> None
          then (case d of
                  Rows lf \<Rightarrow> map_option (\<lambda>cols. Some (Rows (lf\<lparr>lf_selector := selector_of (jget i ''row''), lf_fields := cols\<rparr>))) (with_columns i (lf_fields lf))
                | Scalar f \<Rightarrow> Some None)
          else (case d of Scalar f \<Rightarrow> Some (Some (Scalar (f\<lparr>xf_selector := None\<rparr>))) | Rows lf \<Rightarrow> Some None)
      | _ \<Rightarrow> (case d of Scalar f \<Rightarrow> Some (Some (Scalar (f\<lparr>xf_selector := selector_of info\<rparr>))) | Rows lf \<Rightarrow> Some None))"

fun cached_defs :: "(string, json) dict \<Rightarrow> (string, field_def) dict \<Rightarrow> (string, field_def) dict \<Rightarrow> (string, field_def) dict option" where
  "cached_defs [] defs temp = Some temp"
| "cached_defs ((name, info) # rest) defs temp =
     (case map_of defs name of
        None \<Rightarrow> cached_defs rest defs temp
      | Some d \<Rightarrow>
          (case cached_def info d of
             None \<Rightarrow> None
           | Some None \<Rightarrow> cached_defs rest defs temp
           | Some (Some d') \<Rightarrow> cached_defs rest defs (AList.update name d' temp)))"

definition extract_with_cached_selectors ::
  "ext_env \<Rightarrow> 'p page_fun \<Rightarrow> json \<Rightarrow> (string, field_def) dict \<Rightarrow> string \<Rightarrow> string \<Rightarrow> string \<Rightarrow> 'p ext_exec \<Rightarrow> (string, json) dict attempt \<times> 'p ext_exec" where
  "extract_with_cached_selectors e pg selectors defs site domain path s =
     (case selectors of
        JObj sels \<Rightarrow>
          (case cached_defs sels defs [] of
             None \<Rightarrow> (Left (XOther ''AttributeError''), s)
           | Some temp \<Rightarrow>
               if temp = [] then (Gave_up, s)
               else (case data_extract (xe_text e) (lift_page pg) site temp s of
                       (Inr data, s) \<Rightarrow> (Got data, set_cache (cache_success (xe_cache_lib e) (xe_clock e 1) domain path (xs_cache (singletons s))) s)
                     | (Inl XCancelled, s) \<Rightarrow> (Left XCancelled, s)
                     | (Inl x, s) \<Rightarrow> (Gave_up, set_cache (cache_failure (xe_cache_lib e) (xe_clock e 1) domain path (xs_cache (singletons s))) s)))
      | _ \<Rightarrow> (Left (XOther ''AttributeError''), s))"

section \<open>The model on the page's text\<close>

text \<open>\<^verbatim>\<open>len(v)\<close>, which the engine logs, raises a \<^verbatim>\<open>TypeError\<close> for other values.\<close>

fun has_len :: "json \<Rightarrow> bool" where
  "has_len (JObj d) = True"
| "has_len (JList xs) = True"
| "has_len (JStr s) = True"
| "has_len _ = False"

definition read_answer :: "ext_env \<Rightarrow> string \<Rightarrow> string \<Rightarrow> llm_response \<Rightarrow> 'p ext_exec \<Rightarrow> json attempt \<times> 'p ext_exec" where
  "read_answer e domain path a s =
     (case parse_extraction_json (xe_llm_lib e) a of
        Parsed (data, selectors, confidence) \<Rightarrow>
          if \<not> has_len data \<or> \<not> has_len selectors then (Left (XOther ''TypeError''), s)
          else (Got data,
            if truthy selectors \<and> confidence \<ge> 1 / 2
            then set_cache (cache_put (xe_cache_lib e) (xe_clock e 2) domain path selectors confidence None (xs_cache (singletons s))) s
            else s)
      | _ \<Rightarrow> (Left (XOther ''ValueError''), s))"

definition extract_with_llm ::
  "ext_env \<Rightarrow> 'p page_fun \<Rightarrow> ext_blueprint \<Rightarrow> (string, field_def) dict \<Rightarrow> string \<Rightarrow> string \<Rightarrow> 'p ext_exec \<Rightarrow> json attempt \<times> 'p ext_exec" where
  "extract_with_llm e pg bp defs domain path s =
     (case create_llm_provider e of
        No_key \<Rightarrow> (Gave_up, s)
      | Unknown_provider \<Rightarrow> (Left (XOther ''ValueError''), s)
      | Providers p q \<Rightarrow>
          (case ask (lift_page pg) PageContent s of
             (Inl x, s) \<Rightarrow> (Left x, s)
           | (Inr content, s) \<Rightarrow>
               let raw = jtext content; dom = simplify_html raw (xe_tokenize e raw) (xe_token_budget e);
                   prompt = build_extraction_prompt (xe_dumps e) (xe_label e) (sd_html dom) (defs_to_field_defs defs) (xb_page_context bp)
               in (case llm_answer e p q (extract_messages prompt (Some (xe_system_prompt e))) (Some (JObj [(''type'', JStr ''json_object'')])) s of
                     (Got a, s) \<Rightarrow> read_answer e domain path a s
                   | (Gave_up, s) \<Rightarrow> (Gave_up, s)
                   | (Left x, s) \<Rightarrow> (Left x, s))))"

section \<open>The model on a screenshot\<close>

definition MAX_SCREENSHOT_WIDTH :: int where "MAX_SCREENSHOT_WIDTH = 1280"
definition MAX_SCREENSHOT_HEIGHT :: int where "MAX_SCREENSHOT_HEIGHT = 1024"

definition capture_screenshot :: "ext_env \<Rightarrow> 'p page_fun \<Rightarrow> 'p ext_exec \<Rightarrow> (step_exc + json) \<times> 'p ext_exec" where
  "capture_screenshot e pg s =
     bindr (case xe_viewport e of
              Some (w, h) \<Rightarrow> if w > MAX_SCREENSHOT_WIDTH \<or> h > MAX_SCREENSHOT_HEIGHT
                then ask (lift_page pg) (SetViewport MAX_SCREENSHOT_WIDTH MAX_SCREENSHOT_HEIGHT) s else (Inr JNull, s)
            | None \<Rightarrow> (Inr JNull, s))
       (\<lambda>_. ask (lift_page pg) PageScreenshot)"

text \<open>\<open>_parse_vision_response\<close> turns a \<^verbatim>\<open>ValueError\<close> into an \<^verbatim>\<open>LLMProviderError\<close>; an answer that is no text still escapes.\<close>

definition read_vision_answer :: "ext_env \<Rightarrow> llm_response \<Rightarrow> json attempt" where
  "read_vision_answer e a =
     (case parse_extraction_json (xe_llm_lib e) a of
        Parsed (data, _, confidence) \<Rightarrow> if \<not> has_len data then Left (XOther ''TypeError'') else if confidence \<ge> 3 / 10 then Got data else Gave_up
      | Decode_error \<Rightarrow> Gave_up
      | Type_error \<Rightarrow> Left (XOther ''AttributeError''))"

definition extract_with_multimodal :: "ext_env \<Rightarrow> 'p page_fun \<Rightarrow> ext_blueprint \<Rightarrow> (string, field_def) dict \<Rightarrow> 'p ext_exec \<Rightarrow> json attempt \<times> 'p ext_exec" where
  "extract_with_multimodal e pg bp defs s =
     (case create_llm_provider e of
        No_key \<Rightarrow> (Gave_up, s)
      | Unknown_provider \<Rightarrow> (Left (XOther ''ValueError''), s)
      | Providers p q \<Rightarrow>
          (case capture_screenshot e pg s of
             (Inl x, s) \<Rightarrow> (Left x, s)
           | (Inr png, s) \<Rightarrow>
               let prompt = build_vision_prompt (xe_dumps e) (xe_label e) (defs_to_field_defs defs) (xb_page_context bp)
               in (case llm_answer e p q (vision_messages (xe_vision_prompt e) prompt (b64_encode (jtext png))) None s of
                     (Got a, s) \<Rightarrow> (read_vision_answer e a, s)
                   | (Gave_up, s) \<Rightarrow> (Gave_up, s)
                   | (Left x, s) \<Rightarrow> (Left x, s))))"

section \<open>Fallback selectors\<close>

fun fallback_defs :: "(string, string) dict \<Rightarrow> (string, field_def) dict \<Rightarrow> (string, field_def) dict" where
  "fallback_defs [] defs = []"
| "fallback_defs ((name, sel) # rest) defs =
     (case map_of defs name of
        Some (Scalar f) \<Rightarrow> (name, Scalar (f\<lparr>xf_selector := Some sel\<rparr>)) # fallback_defs rest defs
      | _ \<Rightarrow> fallback_defs rest defs)"

definition extract_with_fallback_selectors ::
  "ext_env \<Rightarrow> 'p page_fun \<Rightarrow> ext_blueprint \<Rightarrow> (string, field_def) dict \<Rightarrow> string \<Rightarrow> 'p ext_exec \<Rightarrow> (string, json) dict attempt \<times> 'p ext_exec" where
  "extract_with_fallback_selectors e pg bp defs site s =
     (let temp = fallback_defs (xb_fallback_selectors bp) defs
      in if temp = [] then (Gave_up, s)
         else (case data_extract (xe_text e) (lift_page pg) site temp s of
                 (Inr data, s) \<Rightarrow> (Got data, s)
               | (Inl XCancelled, s) \<Rightarrow> (Left XCancelled, s)
               | (Inl x, s) \<Rightarrow> (Gave_up, s)))"

section \<open>The cascade\<close>

definition page_path :: "'p page_fun \<Rightarrow> 'p ext_exec \<Rightarrow> string \<times> 'p ext_exec" where
  "page_path pg s =
     (case ask (lift_page pg) PageUrl s of
        (Inr (JStr u), s) \<Rightarrow> ((case urlparse u of Some p \<Rightarrow> if url_path p = '''' then ''/'' else url_path p | None \<Rightarrow> ''/''), s)
      | (_, s) \<Rightarrow> (''/'', s))"

text \<open>\<^verbatim>\<open>if data: return data, method\<close>, else the next method.\<close>

definition or_else ::
  "string \<Rightarrow> json attempt \<times> 'p ext_exec \<Rightarrow> ('p ext_exec \<Rightarrow> (step_exc + json \<times> string) \<times> 'p ext_exec) \<Rightarrow> (step_exc + json \<times> string) \<times> 'p ext_exec" where
  "or_else how m k =
     (case m of
        (Got data, s) \<Rightarrow> if truthy data then (Inr (data, how), s) else k s
      | (Gave_up, s) \<Rightarrow> k s
      | (Left x, s) \<Rightarrow> (Inl x, s))"

definition as_json :: "(string, json) dict attempt \<times> 's \<Rightarrow> json attempt \<times> 's" where
  "as_json m = (case m of (Got d, s) \<Rightarrow> (Got (JObj d), s) | (Gave_up, s) \<Rightarrow> (Gave_up, s) | (Left x, s) \<Rightarrow> (Left x, s))"

definition all_failed :: "string \<Rightarrow> step_exc" where
  "all_failed site = XErr (DataExtractionError site ''All extraction methods failed (cached selectors, LLM, multimodal, fallback selectors).'')"

definition after_cache ::
  "ext_env \<Rightarrow> 'p page_fun \<Rightarrow> ext_blueprint \<Rightarrow> (string, field_def) dict \<Rightarrow> string \<Rightarrow> string \<Rightarrow> 'p ext_exec \<Rightarrow> (step_exc + json \<times> string) \<times> 'p ext_exec" where
  "after_cache e pg bp defs site path s =
     or_else ''llm'' (extract_with_llm e pg bp defs (xb_domain bp) path s) (\<lambda>s.
     or_else ''multimodal'' (extract_with_multimodal e pg bp defs s) (\<lambda>s.
     or_else ''fallback_selectors'' (as_json (extract_with_fallback_selectors e pg bp defs site s)) (\<lambda>s.
       (Inl (all_failed site), s))))"

definition extract_llm_adaptive ::
  "ext_env \<Rightarrow> 'p page_fun \<Rightarrow> ext_blueprint \<Rightarrow> (string, field_def) dict \<Rightarrow> string \<Rightarrow> 'p ext_exec \<Rightarrow> (step_exc + json \<times> string) \<times> 'p ext_exec" where
  "extract_llm_adaptive e pg bp defs site s =
     (let (path, s) = page_path pg s
      in case cache_get (xe_cache_lib e) (xe_clock e 0) (xb_domain bp) path (xs_cache (singletons s)) of
           None \<Rightarrow> after_cache e pg bp defs site path s
         | Some entry \<Rightarrow>
             or_else ''cached_selectors'' (as_json (extract_with_cached_selectors e pg (ce_selectors entry) defs site (xb_domain bp) path s))
               (after_cache e pg bp defs site path))"

definition extract_data :: "ext_env \<Rightarrow> 'p page_fun \<Rightarrow> ext_blueprint \<Rightarrow> string \<Rightarrow> (string, field_def) dict \<Rightarrow> 'p ext_exec \<Rightarrow> (step_exc + json \<times> string) \<times> 'p ext_exec" where
  "extract_data e pg bp site defs s =
     (if xb_llm_adaptive bp then extract_llm_adaptive e pg bp defs site s
      else (case data_extract (xe_text e) (lift_page pg) site defs s of
              (Inr data, s) \<Rightarrow> (Inr (JObj data, ''css_selectors''), s)
            | (Inl x, s) \<Rightarrow> (Inl x, s)))"

section \<open>What extraction sends\<close>

text \<open>Extraction also changes the singletons; a relation that does not look at the page state is kept by it.\<close>

locale extraction_reader = page_reader R for R :: "'p ext_exec \<Rightarrow> 'p ext_exec \<Rightarrow> bool" +
  assumes R_page: "R s (s\<lparr>ex_page := x\<rparr>)"
begin

lemma R_setters: "R s (set_cache c s)" "R s (set_breaker b s)"
  by (simp_all add: set_cache_def set_breaker_def R_page)

lemma R_llm_answer: "R s (snd (llm_answer e p q messages fmt s))"
  by (simp add: llm_answer_def R_setters split: prod.split)

lemma R_cached: "R s (snd (extract_with_cached_selectors e pg sel defs site domain path s))"
proof -
  have "R s (snd (case data_extract lib pg site temp s of
      (Inr data, s) \<Rightarrow> (Got data, set_cache (a s) s) | (Inl XCancelled, s) \<Rightarrow> (Left XCancelled, s) | (Inl x, s) \<Rightarrow> (Gave_up, set_cache (b s) s)))"
    for lib pg site temp a b
    using R_data_extract [of s lib pg site temp]
    by (cases "data_extract lib pg site temp s") (auto intro: R_trans R_setters split: sum.split step_exc.split)
  then show ?thesis by (auto simp: extract_with_cached_selectors_def R_refl split: json.split option.split)
qed

lemma R_read_answer: "R s (snd (read_answer e domain path a s))"
  by (simp add: read_answer_def R_refl R_setters split: parsed.split prod.split)

lemma R_llm: "R s (snd (extract_with_llm e pg bp defs domain path s))"
proof (cases "create_llm_provider e")
  case (Providers p q)
  obtain r t where t: "ask (lift_page pg) PageContent s = (r, t)" by fastforce
  have "R s t" using R_ask [of PageContent s "lift_page pg"] t by simp
  moreover have "R t (snd (case llm_answer e p q ms fmt t of
      (Got a, s) \<Rightarrow> read_answer e domain path a s | (Gave_up, s) \<Rightarrow> (Gave_up, s) | (Left x, s) \<Rightarrow> (Left x, s)))" for ms fmt
    using R_llm_answer [of t e p q ms fmt] by (cases "llm_answer e p q ms fmt t") (auto intro: R_trans R_read_answer split: attempt.split)
  ultimately show ?thesis by (auto simp: extract_with_llm_def Providers t Let_def intro: R_trans split: sum.split)
qed (simp_all add: extract_with_llm_def R_refl)

lemma R_screenshot: "R s (snd (capture_screenshot e pg s))"
  by (auto simp: capture_screenshot_def intro!: R_bindr R_ask R_refl split: option.split prod.split)

lemma R_multimodal: "R s (snd (extract_with_multimodal e pg bp defs s))"
proof (cases "create_llm_provider e")
  case (Providers p q)
  obtain r t where t: "capture_screenshot e pg s = (r, t)" by fastforce
  have "R s t" using R_screenshot [of s e pg] t by simp
  moreover have "R t (snd (case llm_answer e p q ms fmt t of
      (Got a, s) \<Rightarrow> (read_vision_answer e a, s) | (Gave_up, s) \<Rightarrow> (Gave_up, s) | (Left x, s) \<Rightarrow> (Left x, s)))" for ms fmt
    using R_llm_answer [of t e p q ms fmt] by (cases "llm_answer e p q ms fmt t") (auto split: attempt.split)
  ultimately show ?thesis by (auto simp: extract_with_multimodal_def Providers t Let_def intro: R_trans split: sum.split)
qed (simp_all add: extract_with_multimodal_def R_refl)

lemma R_fallback: "R s (snd (extract_with_fallback_selectors e pg bp defs site s))"
  using R_data_extract [of s "xe_text e" "lift_page pg" site "fallback_defs (xb_fallback_selectors bp) defs"]
  by (cases "data_extract (xe_text e) (lift_page pg) site (fallback_defs (xb_fallback_selectors bp) defs) s")
    (auto simp: extract_with_fallback_selectors_def Let_def R_refl split: sum.split step_exc.split)

lemma R_or_else: "R s (snd m) \<Longrightarrow> (\<And>t. R t (snd (k t))) \<Longrightarrow> R s (snd (or_else how m k))"
  by (cases m) (auto simp: or_else_def intro: R_trans split: attempt.split)

lemma R_as_json: "R s (snd m) \<Longrightarrow> R s (snd (as_json m))"
  by (cases m) (auto simp: as_json_def split: attempt.split)

lemma R_after_cache: "R s (snd (after_cache e pg bp defs site path s))"
  by (auto simp: after_cache_def R_refl intro!: R_or_else R_as_json R_llm R_multimodal R_fallback)

lemma R_extract_data: "R s (snd (extract_data e pg bp site defs s))"
proof -
  obtain path t where t: "page_path pg s = (path, t)" by fastforce
  have "R s t" using R_ask [of PageUrl s "lift_page pg"] t by (auto simp: page_path_def split: prod.splits sum.splits json.splits)
  moreover have "R t (snd (or_else how (as_json (extract_with_cached_selectors e pg sel defs site domain path t)) (after_cache e pg bp defs site path)))" for how sel domain
    by (intro R_or_else R_as_json R_cached R_after_cache)
  ultimately have "R s (snd (extract_llm_adaptive e pg bp defs site s))"
    by (auto simp: extract_llm_adaptive_def t intro: R_trans R_after_cache split: option.split)
  moreover have "R s (snd (case data_extract lib pg site defs s of (Inr data, s) \<Rightarrow> (Inr (JObj data, m), s) | (Inl x, s) \<Rightarrow> (Inl x, s)))" for lib and m :: string and pg :: "('p \<times> ext_state) page_fun"
    using R_data_extract [of s lib pg site defs] by (cases "data_extract lib pg site defs s") (auto split: sum.split)
  ultimately show ?thesis by (simp add: extract_data_def)
qed

end

interpretation quiet_extraction: extraction_reader quiet
  by unfold_locales (simp add: quiet_def)

interpretation policy_extraction: extraction_reader "\<lambda>s t. ex_policy t = ex_policy s"
  by unfold_locales simp

text \<open>The engine's run with its own extraction.\<close>

definition extracting :: "ext_env \<Rightarrow> 'p page_fun \<Rightarrow> ext_blueprint \<Rightarrow> string \<Rightarrow> ('p \<times> ext_state, 'r, field_def) run_env \<Rightarrow> ('p \<times> ext_state, 'r, field_def) run_env" where
  "extracting e pg bp site env = env\<lparr>en_page := lift_page pg, en_extract := extract_data e pg bp site\<rparr>"

lemma extracting_extract [simp]: "en_extract (extracting e pg bp site env) = extract_data e pg bp site"
  by (simp add: extracting_def)

text \<open>C31. Under strict read-only mode nothing is written once the login is over, by whatever method the data are extracted: every command sent to the
  site after it, through extraction, cleanup and closing, enters no text, selects nothing and runs no script of the blueprint.\<close>

theorem strict_run_never_writes:
  assumes "execute_blueprint (extracting e pg xb site env) True (Some dir) pool_after bp site session_id extract_fields page m pool = Some (out, rs, pool')"
    and "bp_browser pool" and "login (extracting e pg xb site env) bp site session_id (new_run True page m) = (None, logged_in)"
  shows "\<exists>sent. ex_log (rs_exec rs) = ex_log (rs_exec logged_in) @ sent \<and> list_all harmless sent"
  by (rule no_writes_after_login [OF assms(1,2) _ assms(3)]) (simp add: quiet_extraction.R_extract_data)

text \<open>The guard against risky clicks never acts in a run. It only looks at clicks of the read phase, but the steps of a blueprint run in the
  authentication and cleanup phases, and extraction clicks without asking it: whatever a run clicks on, no click is ever recorded as blocked.\<close>

theorem click_guard_never_fires:
  assumes "execute_blueprint (extracting e pg xb site env) strict (Some dir) pool_after bp site session_id extract_fields page m pool = Some (out, rs, pool')"
    and "bp_browser pool"
  shows "no_click (rs_exec rs)"
  by (rule run_keeps_no_click [OF assms]) (simp add: no_click_def policy_extraction.R_extract_data)

section \<open>The cascade\<close>

lemma ask_ok: "pg cmd (fst (ex_page s)) = (PgOk v, fst (ex_page s)) \<Longrightarrow> ask (lift_page pg) cmd s = (Inr v, s\<lparr>ex_log := ex_log s @ [cmd]\<rparr>)"
  by (cases s) (simp add: ask_def send_def lift_page_def)

lemma page_path_ok:
  "pg PageUrl (fst (ex_page s)) = (PgOk (JStr u), fst (ex_page s)) \<Longrightarrow>
   page_path pg s = (fst (page_path pg s), s\<lparr>ex_log := ex_log s @ [PageUrl]\<rparr>)"
  by (simp add: page_path_def ask_ok split: option.split)

lemma singletons_log [simp]: "singletons (s\<lparr>ex_log := l\<rparr>) = singletons s"
  by (simp add: singletons_def)

lemma set_breaker_same [simp]: "set_breaker (xs_breaker (singletons s)) s = s"
  by (simp add: set_breaker_def singletons_def)

text \<open>An answer of the language model that is no JSON ends the extraction: \<^verbatim>\<open>_extract_with_llm\<close> catches only \<^verbatim>\<open>LLMProviderError\<close>, and the decoder
  raises a \<^verbatim>\<open>ValueError\<close>. Neither the screenshot nor the fallback selectors of the blueprint, which come next in the cascade, are tried.\<close>

theorem bad_answer_ends_cascade:
  assumes "xb_llm_adaptive bp" "create_llm_provider e = Providers p None"
    and page: "pg PageUrl (fst (ex_page s)) = (PgOk (JStr u), fst (ex_page s))" "pg PageContent (fst (ex_page s)) = (PgOk html, fst (ex_page s))"
    and "cache_get (xe_cache_lib e) (xe_clock e 0) (xb_domain bp) (fst (page_path pg s)) (xs_cache (singletons s)) = None"
    and answer: "\<And>payload. llm_call (xe_llm_lib e) p (xe_latency e) (xe_post e p payload 0) = Returned a" "parse_extraction_json (xe_llm_lib e) a = Decode_error"
  shows "extract_data e pg bp site defs s = (Inl (XOther ''ValueError''), s\<lparr>ex_log := ex_log s @ [PageUrl, PageContent]\<rparr>)"
proof -
  let ?s = "s\<lparr>ex_log := ex_log s @ [PageUrl]\<rparr>"
  have c: "ask (lift_page pg) PageContent ?s = (Inr html, ?s\<lparr>ex_log := ex_log ?s @ [PageContent]\<rparr>)" by (rule ask_ok) (simp add: page)
  have "llm_answer e p None ms fmt t = (Got a, t)" for ms fmt and t :: "'a ext_exec"
    by (simp add: llm_answer_def ask_llm_def answer)
  then have "extract_with_llm e pg bp defs (xb_domain bp) path ?s = (Left (XOther ''ValueError''), s\<lparr>ex_log := ex_log s @ [PageUrl, PageContent]\<rparr>)" for path
    by (simp add: extract_with_llm_def assms(2) c Let_def read_answer_def answer)
  then show ?thesis
    using assms(5) page_path_ok [of pg s u, OF page(1)]
    by (auto simp: extract_data_def extract_llm_adaptive_def assms(1) after_cache_def or_else_def Let_def split: prod.splits)
qed

text \<open>Cached selectors answer for the fields they were stored for, and for no other.\<close>

lemma cached_defs_keys:
  "cached_defs sels defs temp = Some temp' \<Longrightarrow> map_of temp' k \<noteq> None \<Longrightarrow> map_of temp k \<noteq> None \<or> map_of sels k \<noteq> None \<and> map_of defs k \<noteq> None"
proof (induction sels defs temp rule: cached_defs.induct)
  case (2 name info rest defs temp)
  show ?case
  proof (cases "map_of defs name")
    case None
    then show ?thesis using 2(1) 2(4,5) by (auto split: if_splits)
  next
    case (Some d)
    show ?thesis
    proof (cases "cached_def info d")
      case None
      then show ?thesis using 2(4) Some by simp
    next
      case new: (Some r)
      show ?thesis
      proof (cases r)
        case None
        then show ?thesis using 2(2) [OF Some new None] 2(4,5) Some new by (auto split: if_splits)
      next
        case d: (Some d')
        then show ?thesis using 2(3) [OF Some new d] 2(4,5) Some new by (auto simp: update_conv' split: if_splits)
      qed
    qed
  qed
qed simp

lemma extracted_keys:
  "extract_all lib pg site defs result s = (Inr data, s') \<Longrightarrow> map_of data k \<noteq> None \<Longrightarrow> map_of result k \<noteq> None \<or> map_of defs k \<noteq> None"
proof (induction lib pg site defs result s rule: extract_all.induct)
  case (2 lib pg site name d rest result s)
  obtain r t where e: "extract_one lib pg site name d s = (r, t)" by fastforce
  show ?case
  proof (cases r)
    case (Inl x)
    then show ?thesis using 2(1) [OF e [symmetric] Inl] 2(3,4) e by (auto simp: update_conv' split: if_splits)
  next
    case (Inr v)
    then show ?thesis using 2(2) [OF e [symmetric] Inr] 2(3,4) e by (auto simp: update_conv' split: if_splits)
  qed
qed simp

lemma method_or_else: "or_else how m k = (Inr (data, how'), s') \<Longrightarrow> how' = how \<and> (\<exists>s. m = (Got data, s)) \<or> (\<exists>s. k s = (Inr (data, how'), s'))"
  by (auto simp: or_else_def split: prod.splits attempt.splits if_splits)

lemma after_cache_method: "after_cache e pg bp defs site path s \<noteq> (Inr (data, ''cached_selectors''), s')"
  by (auto simp: after_cache_def dest!: method_or_else)

lemma cached_answer:
  assumes "extract_with_cached_selectors e pg sels defs site domain path s = (Got data, s')"
  obtains sel temp t u where "sels = JObj sel" "cached_defs sel defs [] = Some temp" "data_extract (xe_text e) (lift_page pg) site temp t = (Inr data, u)"
  using assms by (auto simp: extract_with_cached_selectors_def split: json.splits option.splits if_splits prod.splits sum.splits step_exc.splits)

text \<open>Cached selectors never fetch what they lack: an answer from the cache has only fields that were requested and that the cache has a selector
  for. A request for more fields than an earlier one is answered with the fields of the earlier one, without asking the model for the others.\<close>

theorem cached_answer_lacks_new_fields:
  assumes "extract_data e pg bp site defs s = (Inr (JObj data, ''cached_selectors''), s')"
    and "cache_get (xe_cache_lib e) (xe_clock e 0) (xb_domain bp) (fst (page_path pg s)) (xs_cache (singletons (snd (page_path pg s)))) = Some entry"
    and "ce_selectors entry = JObj sels" and "map_of sels k = None \<or> map_of defs k = None"
  shows "map_of data k = None"
proof -
  obtain path t where t: "page_path pg s = (path, t)" by fastforce
  have a: "xb_llm_adaptive bp" using assms(1) by (auto simp: extract_data_def split: if_splits prod.splits sum.splits)
  have "or_else ''cached_selectors'' (as_json (extract_with_cached_selectors e pg (JObj sels) defs site (xb_domain bp) path t))
      (after_cache e pg bp defs site path) = (Inr (JObj data, ''cached_selectors''), s')"
    using assms by (simp add: extract_data_def a extract_llm_adaptive_def t)
  from method_or_else [OF this] obtain u where "as_json (extract_with_cached_selectors e pg (JObj sels) defs site (xb_domain bp) path t) = (Got (JObj data), u)"
    by (auto simp: after_cache_method)
  then have "extract_with_cached_selectors e pg (JObj sels) defs site (xb_domain bp) path t = (Got data, u)"
    by (auto simp: as_json_def split: prod.splits attempt.splits)
  then obtain temp v w where "cached_defs sels defs [] = Some temp" and x: "data_extract (xe_text e) (lift_page pg) site temp v = (Inr data, w)"
    by (rule cached_answer) auto
  then show ?thesis
    using extracted_keys [OF x [unfolded data_extract_def], of k] cached_defs_keys [of sels defs "[]" temp k] assms(4) by (cases "map_of data k") auto
qed

text \<open>A cached row selector that no longer matches anything is never given up. The list it reads is empty, which is an answer: the empty list is
  returned as the data, and the cache counts a success, so the selectors stay in use until they expire.\<close>

theorem stale_list_counts_as_success:
  assumes "xb_llm_adaptive bp" "pg PageUrl (fst (ex_page s)) = (PgOk (JStr u), fst (ex_page s))"
    and "cache_get (xe_cache_lib e) (xe_clock e 0) (xb_domain bp) (fst (page_path pg s)) (xs_cache (singletons s)) = Some entry"
    and "ce_selectors entry = JObj [(name, JObj info)]" "map_of info ''row'' = Some (JStr row)"
    and "map_of defs name = Some (Rows lf)" "with_columns info (lf_fields lf) = Some cols" "lf_pagination lf = None"
    and "pg (QueryAll (Some row)) (fst (ex_page s)) = (PgOk (JList []), fst (ex_page s))"
  shows "\<exists>s'. extract_data e pg bp site defs s = (Inr (JObj [(name, JList [])], ''cached_selectors''), s') \<and>
    xs_cache (singletons s') = cache_success (xe_cache_lib e) (xe_clock e 1) (xb_domain bp) (fst (page_path pg s)) (xs_cache (singletons s))"
proof -
  let ?s = "s\<lparr>ex_log := ex_log s @ [PageUrl]\<rparr>"
  obtain path where path: "page_path pg s = (path, ?s)" using page_path_ok [of pg s u, OF assms(2)] by (metis)
  have q: "ask (lift_page pg) (QueryAll (Some row)) ?s = (Inr (JList []), ?s\<lparr>ex_log := ex_log ?s @ [QueryAll (Some row)]\<rparr>)"
    by (rule ask_ok) (simp add: assms(9))
  have "cached_defs [(name, JObj info)] defs [] = Some [(name, Rows (lf\<lparr>lf_selector := Some row, lf_fields := cols\<rparr>))]"
    by (simp add: assms cached_def_def jget_def selector_of_def)
  moreover have "data_extract (xe_text e) (lift_page pg) site [(name, Rows (lf\<lparr>lf_selector := Some row, lf_fields := cols\<rparr>))] ?s =
      (Inr [(name, JList [])], ?s\<lparr>ex_log := ex_log ?s @ [QueryAll (Some row)]\<rparr>)"
    by (simp add: data_extract_def extract_list_def assms(8) q bindr_def handles_def)
  ultimately show ?thesis
    using assms(3)
    by (simp add: extract_data_def assms(1) extract_llm_adaptive_def path assms(4) extract_with_cached_selectors_def as_json_def or_else_def)
      (simp add: set_cache_def singletons_def)
qed

section \<open>A concrete site for the witnesses\<close>

definition site_lib :: cache_lib where
  "site_lib = \<lparr>cl_sha = (\<lambda>_. ''bank''), cl_dumps = (\<lambda>_. ''''), cl_loads = (\<lambda>_. None)\<rparr>"

definition site_ext :: ext_env where
  "site_ext = \<lparr>xe_text = sample_text_lib, xe_cache_lib = site_lib, xe_llm_lib = sample_llm_lib, xe_tokenize = (\<lambda>_. []), xe_dumps = (\<lambda>_. ''''),
     xe_label = field_type_value, xe_system_prompt = '''', xe_vision_prompt = '''', xe_api_key = Some ''k'', xe_provider = ''openai'', xe_model = Some ''m'',
     xe_fallback_model = None, xe_base_url = Some ''u'', xe_max_tokens = 100, xe_temperature = 0, xe_timeout = 60, xe_token_budget = 1000, xe_retries = 2,
     xe_random = (\<lambda>_. 0), xe_clock = (\<lambda>_. 10), xe_latency = 1,
     xe_post = (\<lambda>_ _ _. Returned \<lparr>hr_status = 200, hr_retry_after = None, hr_text = '''',
       hr_json = Some (JObj [(''choices'', JList [JObj [(''message'', JObj [(''content'', JStr ''sorry'')])]])])\<rparr>),
     xe_viewport = None\<rparr>"

definition site_bp :: ext_blueprint where
  "site_bp = \<lparr>xb_domain = ''bank'', xb_llm_adaptive = True, xb_page_context = None, xb_fallback_selectors = []\<rparr>"

definition site_exec :: "cache_entry list \<Rightarrow> (unit \<times> ext_state) exec" where
  "site_exec entries = \<lparr>ex_page = ((), \<lparr>xs_cache = \<lparr>sc_store = map (Pair ''bank'') entries, sc_persistent = False, sc_default_ttl = 60, sc_file = None\<rparr>,
     xs_breaker = new_breaker ''llm'' 5 30\<rparr>), ex_log = [], ex_policy = None\<rparr>"

text \<open>The page of the site: at a URL, with one element of every kind and no rows.\<close>

fun site_page :: "page_cmd \<Rightarrow> unit \<Rightarrow> page_result \<times> unit" where
  "site_page PageUrl u = (PgOk (JStr ''/''), u)"
| "site_page PageContent u = (PgOk (JStr ''''), u)"
| "site_page (AwaitAttached sel t) u = (PgOk (JInt 1), u)"
| "site_page (ElementText el) u = (PgOk (JStr ''x''), u)"
| "site_page (QueryAll sel) u = (PgOk (JList []), u)"
| "site_page _ u = (PgOk JNull, u)"

definition site_entry :: "(string, json) dict \<Rightarrow> cache_entry" where
  "site_entry sels = \<lparr>ce_domain = ''bank'', ce_page_path = ''/'', ce_selectors = JObj sels, ce_confidence = 1, ce_created_at = 0, ce_ttl = 60,
     ce_failure_count = 0, ce_last_failure_at = None, ce_last_success_at = None, ce_hit_count = 0\<rparr>"

definition site_fields :: "(string, field_def) dict" where
  "site_fields = [(''name'', Scalar (sample_field ''.n'' T_EMAIL)), (''phone'', Scalar (sample_field ''.p'' T_EMAIL))]"

definition site_list :: list_extraction_field where
  "site_list = \<lparr>lf_selector = Some ''tr'', lf_type = T_LIST, lf_description = None, lf_fields = [], lf_max_items = None, lf_pagination = None\<rparr>"

lemma site_cache:
  "cache_get (xe_cache_lib site_ext) (xe_clock site_ext n) ''bank'' path (xs_cache (singletons (site_exec []))) = None"
  "cache_get (xe_cache_lib site_ext) (xe_clock site_ext n) ''bank'' path (xs_cache (singletons (site_exec [site_entry sels]))) = Some (site_entry sels)"
  by (simp_all add: cache_get_def site_exec_def singletons_def site_ext_def site_lib_def make_cache_key_def is_usable_def is_expired_def is_invalidated_def
      site_entry_def MAX_FAILURES_def)

lemma site_simps [simp]: "ce_selectors (site_entry sels) = JObj sels" "xb_llm_adaptive site_bp" "xb_domain site_bp = ''bank''"
  by (simp_all add: site_entry_def site_bp_def)

theorem bad_answer_ends_cascade_witness:
  "extract_data site_ext site_page site_bp ''bank'' site_fields (site_exec []) = (Inl (XOther ''ValueError''), (site_exec [])\<lparr>ex_log := [PageUrl, PageContent]\<rparr>)"
proof -
  have l: "py_strip (py_lower ''openai'') = ''openai''" by (simp add: py_strip_def py_lower_def lower_char_def rstrip_of_def is_space_def)
  let ?p = "\<lparr>pv_kind = OpenAI, pv_model = ''m'', pv_api_key = ''k'', pv_base_url = ''u'', pv_max_tokens = 100, pv_temperature = 0, pv_timeout = 60\<rparr>"
  have p: "create_llm_provider site_ext = Providers ?p None"
    by (simp add: create_llm_provider_def site_ext_def given_def create_provider_def l Let_def rstrip_slash_def rstrip_of_def)
  let ?a = "\<lparr>lr_content = JStr ''sorry'', lr_model = JStr ''m'', lr_usage = \<lparr>tu_prompt_tokens = JInt 0, tu_completion_tokens = JInt 0, tu_total_tokens = JInt 0\<rparr>,
     lr_latency_ms = 1, lr_provider = ''openai''\<rparr>"
  have a: "llm_call (xe_llm_lib site_ext) ?p (xe_latency site_ext) (xe_post site_ext ?p payload 0) = Returned ?a" for payload
    by (simp add: site_ext_def llm_call_def read_reply_def openai_answer_def jdefault_def usage_of_def)
  have d: "parse_extraction_json (xe_llm_lib site_ext) ?a = Decode_error"
    by (simp add: parse_extraction_json_def parse_json_def site_ext_def sample_llm_lib_def)
  have "xb_llm_adaptive site_bp" by (simp add: site_bp_def)
  from bad_answer_ends_cascade [OF this p _ _ _ a d, where pg = site_page and s = "site_exec []" and u = "''/''" and html = "JStr ''''"]
  show ?thesis by (simp add: site_cache) (simp add: site_exec_def)
qed

theorem cached_answer_lacks_new_fields_witness:
  "\<exists>data s'. extract_data site_ext site_page site_bp ''bank'' site_fields (site_exec [site_entry [(''name'', JStr ''.n'')]]) =
      (Inr (JObj data, ''cached_selectors''), s') \<and> map_of site_fields ''phone'' \<noteq> None \<and> map_of data ''phone'' = None"
proof -
  let ?s = "site_exec [site_entry [(''name'', JStr ''.n'')]]"
  obtain path where p: "page_path site_page ?s = (path, ?s\<lparr>ex_log := ex_log ?s @ [PageUrl]\<rparr>)"
    using page_path_ok [of site_page ?s "''/''"] by (metis fst_conv site_page.simps(1))
  obtain data s' where x: "extract_data site_ext site_page site_bp ''bank'' site_fields ?s = (Inr (JObj data, ''cached_selectors''), s')"
  proof -
    have c: "cached_defs [(''name'', JStr ''.n'')] site_fields [] = Some [(''name'', Scalar (sample_field ''.n'' T_EMAIL))]"
      by (simp add: site_fields_def cached_def_def selector_of_def sample_field_def)
    have ap: "apply_transform lib raw None = Inr (JStr raw)" for lib raw by (simp add: apply_transform_def)
    obtain v t where "data_extract (xe_text site_ext) (lift_page site_page) ''bank'' [(''name'', Scalar (sample_field ''.n'' T_EMAIL))]
        (?s\<lparr>ex_log := ex_log ?s @ [PageUrl]\<rparr>) = (Inr [(''name'', v)], t)"
      by (simp add: data_extract_def extract_field_def sample_field_def ask_def send_def lift_page_def read_element_def bindr_def given_def ap handle_of_def)
    then have "extract_data site_ext site_page site_bp ''bank'' site_fields ?s =
        (Inr (JObj [(''name'', v)], ''cached_selectors''), set_cache (cache_success (xe_cache_lib site_ext) (xe_clock site_ext 1) (xb_domain site_bp) path (xs_cache (singletons t))) t)"
      using site_cache(2) [of 0 path "[(''name'', JStr ''.n'')]"]
      by (simp add: extract_data_def extract_llm_adaptive_def p extract_with_cached_selectors_def c or_else_def as_json_def del: cached_defs.simps)
    then show ?thesis by (rule that)
  qed
  have "map_of data ''phone'' = None"
    by (rule cached_answer_lacks_new_fields [OF x, where entry = "site_entry [(''name'', JStr ''.n'')]" and sels = "[(''name'', JStr ''.n'')]"]) (simp_all add: p site_cache)
  with x show ?thesis by (auto simp: site_fields_def)
qed

theorem stale_list_counts_as_success_witness:
  "\<exists>s' path. extract_data site_ext site_page site_bp ''bank'' [(''rows'', Rows site_list)] (site_exec [site_entry [(''rows'', JObj [(''row'', JStr ''tr.old'')])]]) =
      (Inr (JObj [(''rows'', JList [])], ''cached_selectors''), s') \<and>
    xs_cache (singletons s') = cache_success (xe_cache_lib site_ext) (xe_clock site_ext 1) (xb_domain site_bp) path
      (xs_cache (singletons (site_exec [site_entry [(''rows'', JObj [(''row'', JStr ''tr.old'')])]])))"
proof -
  let ?sels = "[(''rows'', JObj [(''row'', JStr ''tr.old'')])]"
  have "\<exists>s'. extract_data site_ext site_page site_bp ''bank'' [(''rows'', Rows site_list)] (site_exec [site_entry ?sels]) =
      (Inr (JObj [(''rows'', JList [])], ''cached_selectors''), s') \<and>
    xs_cache (singletons s') = cache_success (xe_cache_lib site_ext) (xe_clock site_ext 1) (xb_domain site_bp) (fst (page_path site_page (site_exec [site_entry ?sels])))
      (xs_cache (singletons (site_exec [site_entry ?sels])))"
    by (rule stale_list_counts_as_success [where u = "''/''" and entry = "site_entry ?sels" and row = "''tr.old''" and lf = site_list and cols = "[]"
          and info = "[(''row'', JStr ''tr.old'')]"]) (simp_all add: site_cache site_list_def)
  then show ?thesis by auto
qed

definition site_run :: "(unit \<times> ext_state, mfa_payload keyspace, field_def) run_env" where
  "site_run = extracting site_ext (\<lambda>_ u. (PgOk JNull, u)) site_bp ''bank'' calm_env"

lemma site_run_page: "en_page site_run = (\<lambda>_ p. (PgOk JNull, p))" "xe_variables (en_executor site_run) = []"
  by (simp_all add: site_run_def extracting_def calm_env_def lift_page_def fun_eq_iff)

definition site_blueprint :: "field_def blueprint" where
  "site_blueprint = calm_blueprint (Scalar (sample_field ''.b'' T_CURRENCY))"

lemma site_runs:
  "\<exists>out rs pool'. execute_blueprint site_run strict (Some ''/tmp/d'') (\<lambda>p. p) site_blueprint ''bank'' ''s1'' None (ex_page (site_exec [])) calm_mfa calm_pool =
     Some (out, rs, pool')"
  by (rule calm_runs)

theorem strict_run_never_writes_witness:
  "\<exists>out rs pool' logged_in sent.
    execute_blueprint site_run True (Some ''/tmp/d'') (\<lambda>p. p) site_blueprint ''bank'' ''s1'' None (ex_page (site_exec [])) calm_mfa calm_pool = Some (out, rs, pool') \<and>
    login site_run site_blueprint ''bank'' ''s1'' (new_run True (ex_page (site_exec [])) calm_mfa) = (None, logged_in) \<and>
    ex_log (rs_exec rs) = ex_log (rs_exec logged_in) @ sent \<and> list_all harmless sent"
proof -
  obtain out rs pool' where x: "execute_blueprint site_run True (Some ''/tmp/d'') (\<lambda>p. p) site_blueprint ''bank'' ''s1'' None (ex_page (site_exec [])) calm_mfa calm_pool =
     Some (out, rs, pool')" using site_runs by blast
  obtain logged_in where l: "login site_run site_blueprint ''bank'' ''s1'' (new_run True (ex_page (site_exec [])) calm_mfa) = (None, logged_in)"
    using calm_login [OF site_run_page] unfolding site_blueprint_def by (metis prod.collapse)
  have "bp_browser calm_pool" by (simp add: calm_defs)
  from strict_run_never_writes [OF x [unfolded site_run_def] this l [unfolded site_run_def]] x l show ?thesis by blast
qed

theorem click_guard_never_fires_witness:
  "\<exists>out rs pool'. execute_blueprint site_run True (Some ''/tmp/d'') (\<lambda>p. p) site_blueprint ''bank'' ''s1'' None (ex_page (site_exec [])) calm_mfa calm_pool =
     Some (out, rs, pool') \<and> no_click (rs_exec rs)"
proof -
  obtain out rs pool' where x: "execute_blueprint site_run True (Some ''/tmp/d'') (\<lambda>p. p) site_blueprint ''bank'' ''s1'' None (ex_page (site_exec [])) calm_mfa calm_pool =
     Some (out, rs, pool')" using site_runs by blast
  have "bp_browser calm_pool" by (simp add: calm_defs)
  from click_guard_never_fires [OF x [unfolded site_run_def] this] x show ?thesis by blast
qed

end
