(* ===== verification/Blueprint_Format.thy ===== *)
theory Blueprint_Format imports Extraction_Pipeline "HOL-Library.Monad_Syntax" begin

text \<open>
  \<^verbatim>\<open>src/core/blueprint.py\<close>: the validation of a blueprint from its JSON text, the conversion of the old format, and which connectors are shown to
  the public.

  Pydantic is a library. Of it the models rely on what its documentation says of a declared field: a missing field takes its default, a missing
  required one is an error, \<^verbatim>\<open>Optional\<close> also takes \<^verbatim>\<open>null\<close>, a text must be a text, an enumeration must be one of its values, unknown keys are
  ignored. How it reads other values as numbers and truth values, and which member of a union it takes when both accept, are in \<open>pydantic\<close>. An
  error of validation is \<open>None\<close>.
\<close>

section \<open>Declared fields\<close>

record pydantic =
  pd_int :: "json \<Rightarrow> int option"
  pd_bool :: "json \<Rightarrow> bool option"
  pd_takes_list :: "json \<Rightarrow> bool"

definition pd_str :: "json \<Rightarrow> string option" where
  "pd_str v = (case v of JStr s \<Rightarrow> Some s | _ \<Rightarrow> None)"

definition pd_obj :: "json \<Rightarrow> (string, json) dict option" where
  "pd_obj v = (case v of JObj d \<Rightarrow> Some d | _ \<Rightarrow> None)"

definition pd_list :: "json \<Rightarrow> json list option" where
  "pd_list v = (case v of JList xs \<Rightarrow> Some xs | _ \<Rightarrow> None)"

definition pd_enum :: "('a \<Rightarrow> string) \<Rightarrow> 'a list \<Rightarrow> json \<Rightarrow> 'a option" where
  "pd_enum text values v = (case v of JStr s \<Rightarrow> find (\<lambda>x. text x = s) values | _ \<Rightarrow> None)"

definition required :: "(json \<Rightarrow> 'a option) \<Rightarrow> (string, json) dict \<Rightarrow> string \<Rightarrow> 'a option" where
  "required p d k = Option.bind (map_of d k) p"

definition with_default :: "(json \<Rightarrow> 'a option) \<Rightarrow> 'a \<Rightarrow> (string, json) dict \<Rightarrow> string \<Rightarrow> 'a option" where
  "with_default p x d k = (case map_of d k of None \<Rightarrow> Some x | Some v \<Rightarrow> p v)"

definition nullable :: "(json \<Rightarrow> 'a option) \<Rightarrow> json \<Rightarrow> 'a option option" where
  "nullable p v = (if v = JNull then Some None else map_option Some (p v))"

definition optional_field :: "(json \<Rightarrow> 'a option) \<Rightarrow> (string, json) dict \<Rightarrow> string \<Rightarrow> 'a option option" where
  "optional_field p d k = nullable p (jget d k)"

definition pd_dict :: "(json \<Rightarrow> 'a option) \<Rightarrow> json \<Rightarrow> (string, 'a) dict option" where
  "pd_dict p v = (case v of JObj d \<Rightarrow> those (map (\<lambda>(k, x). map_option (Pair k) (p x)) d) | _ \<Rightarrow> None)"

section \<open>Steps\<close>

definition all_actions :: "step_action list" where
  "all_actions = [GOTO, FILL, CLICK, WAIT, SCREENSHOT, EXTRACT, CONDITIONAL, SCROLL, SELECT, IFRAME, WAIT_FOR_NAVIGATION, EXECUTE_JS]"

lemma size_jget: "size (jget d k) < size (JObj d)"
proof (cases "map_of d k")
  case (Some v)
  then have "(k, v) \<in> set d" by (rule map_of_SomeD)
  then have "size v < Suc (size_list (size_prod (\<lambda>_. 0) size) d)" by (induction d) auto
  then show ?thesis using Some by (simp add: jget_def)
qed (simp add: jget_def)

text \<open>\<^verbatim>\<open>then_steps\<close> and \<^verbatim>\<open>else_steps\<close> hold steps again; a missing list acts as an empty one.\<close>

function parse_steps :: "pydantic \<Rightarrow> json \<Rightarrow> blueprint_step list option"
  and parse_step :: "pydantic \<Rightarrow> json \<Rightarrow> blueprint_step option" where
  "parse_steps P v =
     (case v of
        JNull \<Rightarrow> Some []
      | JList xs \<Rightarrow> those (map (parse_step P) xs)
      | _ \<Rightarrow> None)"
| "parse_step P v =
     (case v of
        JObj d \<Rightarrow>
          (case (required (pd_enum action_value all_actions) d ''action'', optional_field pd_str d ''url'', optional_field pd_str d ''selector'',
                 optional_field pd_str d ''value'', optional_field (pd_int P) d ''timeout'', optional_field (pd_bool P) d ''wait_for_navigation'',
                 optional_field pd_str d ''screenshot_name'', optional_field pd_str d ''script'', optional_field pd_str d ''condition_selector'',
                 parse_steps P (jget d ''then_steps''), parse_steps P (jget d ''else_steps''), optional_field pd_str d ''iframe_selector'',
                 optional_field pd_str d ''direction'', optional_field (pd_int P) d ''pixels'') of
             (Some action, Some url, Some selector, Some value, Some timeout, Some nav, Some shot, Some script, Some cond, Some thens, Some elses, Some iframe,
              Some direction, Some pixels) \<Rightarrow>
               Some (BlueprintStep action url selector value timeout (nav = Some True) shot script cond thens elses iframe direction pixels)
           | _ \<Rightarrow> None)
      | _ \<Rightarrow> None)"
  by pat_completeness auto
termination
proof (relation "measure (\<lambda>x. case x of Inl (P, v) \<Rightarrow> 2 * size v + 1 | Inr (P, v) \<Rightarrow> 2 * size (v :: json))")
  fix P v xs x
  assume v: "v = JList xs" and x: "(x :: json) \<in> set xs"
  have "size x \<le> size_list size xs" using x by (rule size_list_estimation') simp
  then show "(Inr (P, x), Inl (P, v)) \<in> measure (\<lambda>x. case x of Inl (P, v) \<Rightarrow> 2 * size v + 1 | Inr (P, v) \<Rightarrow> 2 * size (v :: json))"
    using v by simp
next
  fix P v d
  assume "v = JObj d"
  then show "(Inl (P, jget d ''then_steps''), Inr (P, v)) \<in> measure (\<lambda>x. case x of Inl (P, v) \<Rightarrow> 2 * size v + 1 | Inr (P, v) \<Rightarrow> 2 * size (v :: json))"
    "(Inl (P, jget d ''else_steps''), Inr (P, v)) \<in> measure (\<lambda>x. case x of Inl (P, v) \<Rightarrow> 2 * size v + 1 | Inr (P, v) \<Rightarrow> 2 * size (v :: json))"
    using size_jget [of d "''then_steps''"] size_jget [of d "''else_steps''"] by simp_all
qed simp

section \<open>Multi-factor authentication\<close>

definition all_mfa_types :: "mfa_type list" where
  "all_mfa_types = [OTP_INPUT, EMAIL_CODE, SECURITY_QUESTION, PUSH]"

datatype mfa_handler = USER_PROMPT | AUTO_DETECT

fun mfa_handler_value :: "mfa_handler \<Rightarrow> string" where
  "mfa_handler_value USER_PROMPT = ''user_prompt''"
| "mfa_handler_value AUTO_DETECT = ''auto_detect''"

record mfa_section =
  ms_config :: mfa_config
  ms_handler :: mfa_handler
  ms_poll_interval :: "int option"

definition parse_detection :: "pydantic \<Rightarrow> json \<Rightarrow> (string \<times> int) option" where
  "parse_detection P v = do {
     d \<leftarrow> pd_obj v;
     selector \<leftarrow> required pd_str d ''selector'';
     timeout \<leftarrow> with_default (pd_int P) 3000 d ''timeout'';
     Some (selector, timeout)
   }"

definition parse_mfa :: "pydantic \<Rightarrow> json \<Rightarrow> mfa_section option" where
  "parse_mfa P v = do {
     d \<leftarrow> pd_obj v;
     (selector, timeout) \<leftarrow> required (parse_detection P) d ''detection'';
     type \<leftarrow> required (pd_enum mfa_type_value all_mfa_types) d ''type'';
     handler \<leftarrow> with_default (pd_enum mfa_handler_value [USER_PROMPT, AUTO_DETECT]) USER_PROMPT d ''handler'';
     input_selector \<leftarrow> optional_field pd_str d ''input_selector'';
     submit_selector \<leftarrow> optional_field pd_str d ''submit_selector'';
     question_selector \<leftarrow> optional_field pd_str d ''question_selector'';
     poll_interval \<leftarrow> with_default (nullable (pd_int P)) (Some 2000) d ''poll_interval'';
     poll_timeout \<leftarrow> with_default (nullable (pd_int P)) (Some 60000) d ''poll_timeout'';
     Some \<lparr>ms_config = \<lparr>mf_selector = selector, mf_timeout = timeout, mf_type = type, mf_input_selector = input_selector,
         mf_submit_selector = submit_selector, mf_question_selector = question_selector, mf_poll_timeout = poll_timeout\<rparr>,
       ms_handler = handler, ms_poll_interval = poll_interval\<rparr>
   }"

section \<open>Fields to extract\<close>

definition all_field_types :: "field_type list" where
  "all_field_types = [T_TEXT, T_CURRENCY, T_DATE, T_NUMBER, T_EMAIL, T_PHONE, T_LIST, T_TABLE, T_BOOLEAN]"

definition parse_field :: "pydantic \<Rightarrow> json \<Rightarrow> extraction_field option" where
  "parse_field P v = do {
     d \<leftarrow> pd_obj v;
     selector \<leftarrow> optional_field pd_str d ''selector'';
     type \<leftarrow> with_default (pd_enum field_type_value all_field_types) T_TEXT d ''type'';
     description \<leftarrow> optional_field pd_str d ''description'';
     transform \<leftarrow> optional_field pd_str d ''transform'';
     sensitive \<leftarrow> with_default (pd_bool P) False d ''sensitive'';
     attribute \<leftarrow> optional_field pd_str d ''attribute'';
     timeout \<leftarrow> optional_field (pd_int P) d ''timeout'';
     example \<leftarrow> optional_field pd_str d ''example'';
     fallback_selector \<leftarrow> optional_field pd_str d ''fallback_selector'';
     Some \<lparr>xf_selector = selector, xf_type = type, xf_description = description, xf_transform = transform, xf_sensitive = sensitive,
       xf_attribute = attribute, xf_default = jget d ''default'', xf_timeout = timeout, xf_example = example,
       xf_fallback_selector = fallback_selector\<rparr>
   }"

definition parse_pagination :: "pydantic \<Rightarrow> json \<Rightarrow> pagination_config option" where
  "parse_pagination P v = do {
     d \<leftarrow> pd_obj v;
     next_selector \<leftarrow> required pd_str d ''next_selector'';
     max_pages \<leftarrow> with_default (pd_int P) 5 d ''max_pages'';
     wait_after_click \<leftarrow> with_default (pd_int P) 2000 d ''wait_after_click'';
     Some \<lparr>pg_next_selector = next_selector, pg_max_pages = max_pages, pg_wait_after_click = wait_after_click\<rparr>
   }"

definition parse_list_field :: "pydantic \<Rightarrow> json \<Rightarrow> list_extraction_field option" where
  "parse_list_field P v = do {
     d \<leftarrow> pd_obj v;
     selector \<leftarrow> optional_field pd_str d ''selector'';
     type \<leftarrow> with_default (pd_enum field_type_value all_field_types) T_LIST d ''type'';
     description \<leftarrow> optional_field pd_str d ''description'';
     columns \<leftarrow> required (pd_dict (parse_field P)) d ''fields'';
     max_items \<leftarrow> optional_field (pd_int P) d ''max_items'';
     pagination \<leftarrow> optional_field (parse_pagination P) d ''pagination'';
     Some \<lparr>lf_selector = selector, lf_type = type, lf_description = description, lf_fields = columns, lf_max_items = max_items,
       lf_pagination = pagination\<rparr>
   }"

text \<open>\<^verbatim>\<open>Union[ExtractionField, ListExtractionField]\<close>.\<close>

definition parse_field_def :: "pydantic \<Rightarrow> json \<Rightarrow> field_def option" where
  "parse_field_def P v =
     (case (parse_field P v, parse_list_field P v) of
        (Some f, Some l) \<Rightarrow> Some (if pd_takes_list P v then Rows l else Scalar f)
      | (Some f, None) \<Rightarrow> Some (Scalar f)
      | (None, Some l) \<Rightarrow> Some (Rows l)
      | (None, None) \<Rightarrow> None)"

section \<open>The blueprint\<close>

datatype extraction_strategy = SELECTOR | LLM_ADAPTIVE

fun strategy_value :: "extraction_strategy \<Rightarrow> string" where
  "strategy_value SELECTOR = ''selector''"
| "strategy_value LLM_ADAPTIVE = ''llm_adaptive''"

datatype auth_type = FORM | OAUTH | BASIC | API_KEY

fun auth_type_value :: "auth_type \<Rightarrow> string" where
  "auth_type_value FORM = ''form''"
| "auth_type_value OAUTH = ''oauth''"
| "auth_type_value BASIC = ''basic''"
| "auth_type_value API_KEY = ''api_key''"

record auth_config =
  ac_type :: auth_type
  ac_steps :: "blueprint_step list"

record rate_limit_config =
  rl_max_requests_per_hour :: int
  rl_min_interval_seconds :: int

record health_check_config =
  hc_url :: string
  hc_expected_status :: int

record blueprint_v2 =
  v2_schema_version :: string
  v2_name :: string
  v2_domain :: string
  v2_tags :: "string list"
  v2_auth :: auth_config
  v2_mfa :: "mfa_section option"
  v2_extraction_strategy :: extraction_strategy
  v2_extract :: "(string, field_def) dict"
  v2_page_context :: "string option"
  v2_fallback_selectors :: "(string, string) dict option"
  v2_cleanup :: "blueprint_step list option"
  v2_rate_limit :: "rate_limit_config option"
  v2_health_check :: "health_check_config option"
  v2_credential_schema :: "(string, json) dict option"
  v2_mfa_schema :: "(string, json) dict option"

definition parse_auth :: "pydantic \<Rightarrow> json \<Rightarrow> auth_config option" where
  "parse_auth P v = do {
     d \<leftarrow> pd_obj v;
     type \<leftarrow> with_default (pd_enum auth_type_value [FORM, OAUTH, BASIC, API_KEY]) FORM d ''type'';
     steps \<leftarrow> required (\<lambda>v. do { xs \<leftarrow> pd_list v; those (map (parse_step P) xs) }) d ''steps'';
     Some \<lparr>ac_type = type, ac_steps = steps\<rparr>
   }"

definition parse_rate_limit :: "pydantic \<Rightarrow> json \<Rightarrow> rate_limit_config option" where
  "parse_rate_limit P v = do {
     d \<leftarrow> pd_obj v;
     most \<leftarrow> with_default (pd_int P) 10 d ''max_requests_per_hour'';
     gap \<leftarrow> with_default (pd_int P) 30 d ''min_interval_seconds'';
     Some \<lparr>rl_max_requests_per_hour = most, rl_min_interval_seconds = gap\<rparr>
   }"

definition parse_health_check :: "pydantic \<Rightarrow> json \<Rightarrow> health_check_config option" where
  "parse_health_check P v = do {
     d \<leftarrow> pd_obj v;
     url \<leftarrow> required pd_str d ''url'';
     status \<leftarrow> with_default (pd_int P) 200 d ''expected_status'';
     Some \<lparr>hc_url = url, hc_expected_status = status\<rparr>
   }"

definition validate_schema_version :: "string \<Rightarrow> string option" where
  "validate_schema_version v = (if v \<in> {''1.0'', ''2.0'', ''3.0''} then Some v else None)"

definition parse_blueprint :: "pydantic \<Rightarrow> json \<Rightarrow> blueprint_v2 option" where
  "parse_blueprint P v = do {
     d \<leftarrow> pd_obj v;
     version \<leftarrow> with_default (\<lambda>v. do { s \<leftarrow> pd_str v; validate_schema_version s }) ''2.0'' d ''schema_version'';
     name \<leftarrow> required pd_str d ''name'';
     domain \<leftarrow> required pd_str d ''domain'';
     tags \<leftarrow> with_default (\<lambda>v. do { xs \<leftarrow> pd_list v; those (map pd_str xs) }) [] d ''tags'';
     auth \<leftarrow> required (parse_auth P) d ''auth'';
     mfa \<leftarrow> optional_field (parse_mfa P) d ''mfa'';
     strategy \<leftarrow> with_default (pd_enum strategy_value [SELECTOR, LLM_ADAPTIVE]) SELECTOR d ''extraction_strategy'';
     extract \<leftarrow> with_default (pd_dict (parse_field_def P)) [] d ''extract'';
     context \<leftarrow> optional_field pd_str d ''page_context'';
     fallback \<leftarrow> optional_field (pd_dict pd_str) d ''fallback_selectors'';
     cleanup \<leftarrow> optional_field (\<lambda>v. do { xs \<leftarrow> pd_list v; those (map (parse_step P) xs) }) d ''cleanup'';
     rate_limit \<leftarrow> optional_field (parse_rate_limit P) d ''rate_limit'';
     health_check \<leftarrow> optional_field (parse_health_check P) d ''health_check'';
     credential_schema \<leftarrow> optional_field pd_obj d ''credential_schema'';
     mfa_schema \<leftarrow> optional_field pd_obj d ''mfa_schema'';
     Some \<lparr>v2_schema_version = version, v2_name = name, v2_domain = domain, v2_tags = tags, v2_auth = auth, v2_mfa = mfa,
       v2_extraction_strategy = strategy, v2_extract = extract, v2_page_context = context, v2_fallback_selectors = fallback,
       v2_cleanup = cleanup, v2_rate_limit = rate_limit, v2_health_check = health_check, v2_credential_schema = credential_schema,
       v2_mfa_schema = mfa_schema\<rparr>
   }"

definition is_llm_adaptive :: "blueprint_v2 \<Rightarrow> bool" where
  "is_llm_adaptive bp \<longleftrightarrow> v2_extraction_strategy bp = LLM_ADAPTIVE"

text \<open>What the engine reads of a blueprint.\<close>

definition engine_blueprint :: "blueprint_v2 \<Rightarrow> field_def blueprint" where
  "engine_blueprint bp =
     \<lparr>bl_auth_steps = ac_steps (v2_auth bp), bl_mfa = map_option ms_config (v2_mfa bp), bl_extract = v2_extract bp,
      bl_cleanup = (case v2_cleanup bp of None \<Rightarrow> [] | Some sts \<Rightarrow> sts)\<rparr>"

definition extraction_view :: "blueprint_v2 \<Rightarrow> ext_blueprint" where
  "extraction_view bp =
     \<lparr>xb_domain = v2_domain bp, xb_llm_adaptive = is_llm_adaptive bp, xb_page_context = v2_page_context bp,
      xb_fallback_selectors = (case v2_fallback_selectors bp of None \<Rightarrow> [] | Some d \<Rightarrow> d)\<rparr>"

section \<open>The old format\<close>

definition goto_json :: "json \<Rightarrow> json" where
  "goto_json url = JObj [(''action'', JStr ''goto''), (''url'', url)]"

definition fill_json :: "json \<Rightarrow> string \<Rightarrow> json" where
  "fill_json selector value = JObj [(''action'', JStr ''fill''), (''selector'', selector), (''value'', JStr value)]"

definition submit_json :: "json \<Rightarrow> json" where
  "submit_json selector = JObj [(''action'', JStr ''click''), (''selector'', selector), (''wait_for_navigation'', JBool True)]"

definition wait_json :: "json \<Rightarrow> json" where
  "wait_json selector = JObj [(''action'', JStr ''wait''), (''selector'', selector)]"

definition text_field_json :: "json \<Rightarrow> json" where
  "text_field_json selector = JObj [(''selector'', selector), (''type'', JStr ''text'')]"

text \<open>One entry of \<^verbatim>\<open>post_login\<close>: the steps and the fields it adds; \<^verbatim>\<open>in\<close> also accepts texts and lists, which a subscript then does not.\<close>

fun v1_post_step :: "json \<Rightarrow> (json list \<times> (string, json) dict) option" where
  "v1_post_step (JObj s) =
     (let waits = (case map_of s ''wait'' of None \<Rightarrow> [] | Some w \<Rightarrow> [wait_json w])
      in case map_of s ''extract'' of
           None \<Rightarrow> Some (waits, [])
         | Some (JObj fs) \<Rightarrow> Some (waits, map (\<lambda>(k, sel). (k, text_field_json sel)) fs)
         | Some _ \<Rightarrow> None)"
| "v1_post_step (JStr s) = (if contains ''wait'' s \<or> contains ''extract'' s then None else Some ([], []))"
| "v1_post_step (JList xs) = (if JStr ''wait'' \<in> set xs \<or> JStr ''extract'' \<in> set xs then None else Some ([], []))"
| "v1_post_step _ = None"

fun v1_post_login :: "json list \<Rightarrow> json list \<times> (string, json) dict \<Rightarrow> (json list \<times> (string, json) dict) option" where
  "v1_post_login [] acc = Some acc"
| "v1_post_login (v # vs) (steps, extract) =
     (case v1_post_step v of
        None \<Rightarrow> None
      | Some (added, fs) \<Rightarrow> v1_post_login vs (steps @ added, dict_update extract fs))"

definition v1_login_steps :: "json \<Rightarrow> (string, json) dict \<Rightarrow> json list" where
  "v1_login_steps login_url fs =
     goto_json login_url #
     (if truthy (jget fs ''username'') then [fill_json (jget fs ''username'') ''{{username}}''] else []) @
     (if truthy (jget fs ''password'') then [fill_json (jget fs ''password'') ''{{password}}''] else []) @
     (if truthy (jget fs ''submit'') then [submit_json (jget fs ''submit'')] else [])"

text \<open>\<^verbatim>\<open>hostname\<close> is \<^verbatim>\<open>None\<close> when the authority is empty.\<close>

definition v1_domain :: "json \<Rightarrow> string option" where
  "v1_domain login_url =
     (if truthy login_url then (case login_url of JStr u \<Rightarrow> map_option url_netloc (urlparse u) | _ \<Rightarrow> None) else Some '''')"

definition convert_v1_to_v2 :: "pydantic \<Rightarrow> (string, json) dict \<Rightarrow> blueprint_v2 option" where
  "convert_v1_to_v2 P d = do {
     fs \<leftarrow> with_default pd_obj [] d ''fields'';
     let login_url = jdefault d ''login_url'' (JStr '''');
     posts \<leftarrow> json_iter (jdefault d ''post_login'' (JList []));
     (auth_steps, extract) \<leftarrow> v1_post_login posts (v1_login_steps login_url fs, []);
     domain \<leftarrow> v1_domain login_url;
     steps \<leftarrow> those (map (parse_step P) auth_steps);
     extract \<leftarrow> pd_dict (parse_field P) (JObj extract);
     name \<leftarrow> with_default pd_str ''Unknown Site'' d ''name'';
     Some \<lparr>v2_schema_version = ''2.0'', v2_name = name, v2_domain = domain, v2_tags = [], v2_auth = \<lparr>ac_type = FORM, ac_steps = steps\<rparr>,
       v2_mfa = None, v2_extraction_strategy = SELECTOR, v2_extract = map (\<lambda>(k, f). (k, Scalar f)) extract, v2_page_context = None,
       v2_fallback_selectors = None, v2_cleanup = None, v2_rate_limit = None, v2_health_check = None, v2_credential_schema = None,
       v2_mfa_schema = None\<rparr>
   }"

text \<open>\<^verbatim>\<open>load_blueprint\<close> is the same on the contents of a file.\<close>

definition load_blueprint_from_dict :: "pydantic \<Rightarrow> json \<Rightarrow> blueprint_v2 option" where
  "load_blueprint_from_dict P v =
     (case v of
        JObj d \<Rightarrow>
          if jdefault d ''schema_version'' (JStr ''1.0'') = JStr ''1.0'' \<or> map_of d ''login_url'' \<noteq> None
          then convert_v1_to_v2 P d
          else parse_blueprint P v
      | _ \<Rightarrow> None)"

definition load_blueprint :: "pydantic \<Rightarrow> (string \<Rightarrow> json option) \<Rightarrow> string \<Rightarrow> blueprint_v2 option" where
  "load_blueprint P loads contents = Option.bind (loads contents) (load_blueprint_from_dict P)"

section \<open>Public connectors\<close>

definition HIDDEN_CONNECTOR_TAGS :: "string set" where "HIDDEN_CONNECTOR_TAGS = {''internal'', ''fixture''}"
definition SANDBOX_CONNECTOR_TAGS :: "string set" where "SANDBOX_CONNECTOR_TAGS = {''sandbox'', ''demo''}"

definition blueprint_is_discoverable :: "string list option \<Rightarrow> bool \<Rightarrow> bool" where
  "blueprint_is_discoverable tags demo_mode =
     (let tag_set = py_lower ` set (case tags of None \<Rightarrow> [] | Some ts \<Rightarrow> ts)
      in if tag_set \<inter> HIDDEN_CONNECTOR_TAGS \<noteq> {} then False
         else if tag_set \<inter> SANDBOX_CONNECTOR_TAGS \<noteq> {} \<and> \<not> demo_mode then False
         else True)"

section \<open>Validation\<close>

lemma those_append: "those (xs @ ys) = (case those xs of None \<Rightarrow> None | Some a \<Rightarrow> map_option ((@) a) (those ys))"
  by (induction xs) (auto split: option.splits simp: option.map_comp comp_def option.map_ident fun_eq_iff cong: option.map_cong)

lemma those_length: "those xs = Some ys \<Longrightarrow> length ys = length xs"
  by (induction xs arbitrary: ys) (auto split: option.splits)

lemma those_Some_iff: "those xs = Some ys \<longleftrightarrow> xs = map Some ys"
  by (induction xs arbitrary: ys) (auto split: option.splits)

lemmas field_defs = required_def with_default_def optional_field_def nullable_def pd_str_def pd_obj_def pd_list_def pd_enum_def jget_def

lemma pd_enum_keeps_text: "pd_enum text values v = Some x \<Longrightarrow> v = JStr (text x) \<and> x \<in> set values"
  by (auto simp: pd_enum_def find_Some_iff split: json.splits)

lemma parse_step_action: "parse_step P (JObj d) = Some st \<Longrightarrow> map_of d ''action'' = Some (JStr (action_value (bs_action st)))"
  by (auto simp: required_def bind_eq_Some_conv dest: pd_enum_keeps_text split: option.splits)

lemma parse_step_selector: "parse_step P (JObj d) = Some st \<Longrightarrow> optional_field pd_str d ''selector'' = Some (bs_selector st)"
  by (auto split: option.splits)

lemma parse_step_url: "parse_step P (JObj d) = Some st \<Longrightarrow> optional_field pd_str d ''url'' = Some (bs_url st)"
  by (auto split: option.splits)

lemma action_value_inject: "action_value a = action_value b \<longleftrightarrow> a = b"
  by (cases a; cases b) simp_all

declare parse_step.simps [simp del] parse_steps.simps [simp del]

lemma parse_blueprint_parts:
  assumes "parse_blueprint P (JObj d) = Some bp"
  shows "required (parse_auth P) d ''auth'' = Some (v2_auth bp)"
    and "with_default (pd_enum strategy_value [SELECTOR, LLM_ADAPTIVE]) SELECTOR d ''extraction_strategy'' = Some (v2_extraction_strategy bp)"
    and "with_default (\<lambda>v. do { xs \<leftarrow> pd_list v; those (map pd_str xs) }) [] d ''tags'' = Some (v2_tags bp)"
    and "required pd_str d ''name'' = Some (v2_name bp)" and "required pd_str d ''domain'' = Some (v2_domain bp)"
  using assms by (auto simp: parse_blueprint_def pd_obj_def bind_eq_Some_conv)

lemma parse_auth_steps:
  assumes "parse_auth P (JObj d) = Some a" "map_of d ''steps'' = Some (JList xs)"
  shows "those (map (parse_step P) xs) = Some (ac_steps a)"
  using assms by (auto simp: parse_auth_def pd_obj_def pd_list_def required_def bind_eq_Some_conv)

section \<open>Steps that cannot run\<close>

lemma execute_steps_append:
  "execute_steps pg xe (sts @ sts') s =
     (case execute_steps pg xe sts s of (Some e, s') \<Rightarrow> (Some e, s') | (None, s') \<Rightarrow> execute_steps pg xe sts' s')"
  by (induction sts arbitrary: s) (auto split: prod.split option.split)

lemma failing_step_ends_run:
  assumes "\<And>s. fst (execute_step pg xe st s) \<noteq> None"
  shows "fst (execute_steps pg xe (sts @ st # rest) s) \<noteq> None"
  using assms by (auto simp: execute_steps_append split: prod.split option.split) (metis fst_conv option.distinct(1))+

lemma goto_without_url:
  assumes "bs_action st = GOTO" "given (bs_url st) = None"
  shows "fst (execute_step pg xe st s) \<noteq> None"
proof -
  have "given (interpolate_opt (xe_variables xe) (bs_url st)) = None"
    using assms(2) by (auto simp: given_def interpolate_opt_def split: option.splits if_splits)
  then show ?thesis
    using assms(1) by (simp add: config_error_def execute_step.simps simple_step_def step_goto_def split: prod.split option.split)
qed

lemma wait_without_selector:
  assumes "bs_action st = WAIT" "given (bs_selector st) = None"
  shows "fst (execute_step pg xe st s) \<noteq> None"
  using assms by (simp add: config_error_def execute_step.simps simple_step_def step_wait_def split: prod.split option.split)

section \<open>A file without a version\<close>

text \<open>The conversion of an object that has none of the keys of the old format.\<close>

definition bare_v1 :: "string \<Rightarrow> blueprint_step \<Rightarrow> blueprint_v2" where
  "bare_v1 name st = \<lparr>v2_schema_version = ''2.0'', v2_name = name, v2_domain = '''', v2_tags = [], v2_auth = \<lparr>ac_type = FORM, ac_steps = [st]\<rparr>,
     v2_mfa = None, v2_extraction_strategy = SELECTOR, v2_extract = [], v2_page_context = None, v2_fallback_selectors = None, v2_cleanup = None,
     v2_rate_limit = None, v2_health_check = None, v2_credential_schema = None, v2_mfa_schema = None\<rparr>"

lemma unversioned_loads:
  assumes "map_of d ''schema_version'' = None" "map_of d ''login_url'' = None" "map_of d ''fields'' = None" "map_of d ''post_login'' = None"
    and "with_default pd_str ''Unknown Site'' d ''name'' = Some name"
  obtains st where "load_blueprint_from_dict P (JObj d) = Some (bare_v1 name st)" "bs_action st = GOTO" "bs_url st = Some ''''"
proof -
  obtain st where st: "parse_step P (goto_json (JStr '''')) = Some st" "bs_action st = GOTO" "bs_url st = Some ''''"
    by (simp add: goto_json_def parse_step.simps parse_steps.simps field_defs all_actions_def)
  have "load_blueprint_from_dict P (JObj d) = Some (bare_v1 name st)"
    using assms st(1)
    by (simp add: load_blueprint_from_dict_def convert_v1_to_v2_def jdefault_def v1_login_steps_def v1_domain_def pd_dict_def
      with_default_def [of pd_obj] jget_def bare_v1_def)
  with st show thesis using that by blast
qed

text \<open>C37. A blueprint of the current format that leaves out its version, which the format allows (\<^verbatim>\<open>"2.0"\<close> is the declared default), is read as one
  of the old format: its login steps and fields are dropped without an error, and its only step, a \<^verbatim>\<open>goto\<close> without an address, fails on every
  page.\<close>

theorem unversioned_blueprint_loses_login:
  assumes "map_of d ''schema_version'' = None" "map_of d ''login_url'' = None" "map_of d ''fields'' = None" "map_of d ''post_login'' = None"
    and "with_default pd_str ''Unknown Site'' d ''name'' = Some name"
  shows "\<exists>bp. load_blueprint_from_dict P (JObj d) = Some bp \<and> v2_name bp = name \<and> v2_extract bp = [] \<and> v2_mfa bp = None \<and>
    length (ac_steps (v2_auth bp)) = 1 \<and> fst (execute_steps pg xe (ac_steps (v2_auth bp)) s) \<noteq> None"
proof -
  obtain st where st: "load_blueprint_from_dict P (JObj d) = Some (bare_v1 name st)" "bs_action st = GOTO" "bs_url st = Some ''''"
    using unversioned_loads [OF assms] by metis
  have "fst (execute_steps pg xe [st] s) \<noteq> None"
    using failing_step_ends_run [of pg xe st "[]" "[]" s, OF goto_without_url [OF st(2)]] st(3) by (simp add: given_def)
  with st(1) show ?thesis by (simp add: bare_v1_def)
qed

definition sample_pydantic :: pydantic where
  "sample_pydantic = \<lparr>pd_int = (\<lambda>v. case v of JInt i \<Rightarrow> Some i | _ \<Rightarrow> None), pd_bool = (\<lambda>v. case v of JBool b \<Rightarrow> Some b | _ \<Rightarrow> None),
     pd_takes_list = (\<lambda>v. case v of JObj d \<Rightarrow> map_of d ''fields'' \<noteq> None | _ \<Rightarrow> False)\<rparr>"

definition sample_file :: "(string, json) dict" where
  "sample_file = [(''name'', JStr ''Bank''), (''domain'', JStr ''bank.com''),
     (''auth'', JObj [(''steps'', JList [goto_json (JStr ''https://bank.com''), fill_json (JStr ''#user'') ''{{username}}'', submit_json (JStr ''#go'')])]),
     (''extract'', JObj [(''balance'', text_field_json (JStr ''.balance''))])]"

lemma sample_file_parses: "\<exists>bp. parse_blueprint sample_pydantic (JObj sample_file) = Some bp \<and> length (ac_steps (v2_auth bp)) = 3"
  by (simp add: sample_file_def sample_pydantic_def parse_blueprint_def field_defs pd_dict_def parse_auth_def parse_field_def_def parse_field_def
    parse_list_field_def text_field_json_def goto_json_def fill_json_def submit_json_def parse_step.simps parse_steps.simps all_actions_def
    all_field_types_def validate_schema_version_def)

theorem unversioned_blueprint_loses_login_witness:
  "(\<exists>bp. parse_blueprint sample_pydantic (JObj sample_file) = Some bp \<and> length (ac_steps (v2_auth bp)) = 3) \<and>
   (\<exists>bp. load_blueprint_from_dict sample_pydantic (JObj sample_file) = Some bp \<and> v2_name bp = ''Bank'' \<and> v2_extract bp = [] \<and> v2_mfa bp = None \<and>
    length (ac_steps (v2_auth bp)) = 1 \<and> fst (execute_steps (en_page calm_env) (en_executor calm_env) (ac_steps (v2_auth bp)) reading_exec) \<noteq> None)"
  using sample_file_parses unversioned_blueprint_loses_login [of sample_file "''Bank''"]
  by (simp add: sample_file_def field_defs)

section \<open>What the public sees\<close>

lemma discoverable_iff:
  "blueprint_is_discoverable tags demo \<longleftrightarrow>
     (\<forall>t \<in> set (case tags of None \<Rightarrow> [] | Some ts \<Rightarrow> ts). py_lower t \<notin> HIDDEN_CONNECTOR_TAGS \<and> (demo \<or> py_lower t \<notin> SANDBOX_CONNECTOR_TAGS))"
  by (auto simp: blueprint_is_discoverable_def Let_def)

end
