(* ===== verification/Credential_Crypto.thy ===== *)
theory Credential_Crypto imports Base64 begin

text \<open>
  The encryption of stored credentials: the first part of \<^verbatim>\<open>src/database.py\<close> and the local key provider of
  \<^verbatim>\<open>src/kms.py\<close>. A data key (DEK) per user encrypts the user's credentials and is itself wrapped by the master key.

  AES-GCM, Fernet and the external key services are libraries and services: \<open>ciphers\<close> and the argument of
  \<open>ExternalKMS\<close>. What the theorems use of them is \<open>aead_ok\<close> (what was sealed opens again) and, where a second
  key is tried, \<open>rejects_other_keys\<close> (a wrong key is refused). Random nonces are arguments. \<open>None\<close>: an exception.
\<close>

definition GCM_NONCE_BYTES :: nat where "GCM_NONCE_BYTES = 12"

record ciphers =
  gcm_encrypt :: "string \<Rightarrow> string \<Rightarrow> string \<Rightarrow> string"
  gcm_decrypt :: "string \<Rightarrow> string \<Rightarrow> string \<Rightarrow> string option"
  fernet_decrypt :: "string \<Rightarrow> string \<Rightarrow> string option"

record key_settings =
  encryption_key :: string
  encryption_key_previous :: "string option"
  encryption_key_version :: int

datatype key_error = NotBase64 | LegacyFernetKey | WrongKeyLength nat

text \<open>\<open>AESGCM(key)\<close> accepts keys of 128, 192 and 256 bits.\<close>

definition aes_key :: "string \<Rightarrow> bool" where
  "aes_key k \<longleftrightarrow> length k = 16 \<or> length k = 24 \<or> length k = 32"

definition aead_ok :: "ciphers \<Rightarrow> bool" where
  "aead_ok c \<longleftrightarrow> (\<forall>k n p. aes_key k \<longrightarrow> length n = GCM_NONCE_BYTES \<longrightarrow> gcm_decrypt c k n (gcm_encrypt c k n p) = Some p)"

definition rejects_other_keys :: "ciphers \<Rightarrow> bool" where
  "rejects_other_keys c \<longleftrightarrow>
     (\<forall>k k' n p. aes_key k \<longrightarrow> aes_key k' \<longrightarrow> k \<noteq> k' \<longrightarrow> length n = GCM_NONCE_BYTES \<longrightarrow> gcm_decrypt c k' n (gcm_encrypt c k n p) = None)"

section \<open>Sealing with a key\<close>

definition seal :: "ciphers \<Rightarrow> string \<Rightarrow> string \<Rightarrow> string \<Rightarrow> string" where
  "seal c key nonce plain = b64_encode (nonce @ gcm_encrypt c key nonce plain)"

definition open_raw :: "ciphers \<Rightarrow> string \<Rightarrow> string \<Rightarrow> string option" where
  "open_raw c key raw = gcm_decrypt c key (take GCM_NONCE_BYTES raw) (drop GCM_NONCE_BYTES raw)"

definition unseal :: "ciphers \<Rightarrow> string \<Rightarrow> string \<Rightarrow> string option" where
  "unseal c key text = (if aes_key key then Option.bind (b64_decode text) (open_raw c key) else None)"

lemma unseal_seal:
  "aead_ok c \<Longrightarrow> aes_key key \<Longrightarrow> length nonce = GCM_NONCE_BYTES \<Longrightarrow> unseal c key (seal c key nonce p) = Some p"
  by (simp add: unseal_def seal_def open_raw_def aead_ok_def)

lemma unseal_other_key:
  "rejects_other_keys c \<Longrightarrow> aes_key k \<Longrightarrow> aes_key k' \<Longrightarrow> k \<noteq> k' \<Longrightarrow> length nonce = GCM_NONCE_BYTES \<Longrightarrow>
   unseal c k' (seal c k nonce p) = None"
  by (simp add: unseal_def seal_def open_raw_def rejects_other_keys_def)

section \<open>The master key\<close>

definition get_encryption_key :: "key_settings \<Rightarrow> key_error + string" where
  "get_encryption_key ks =
     (case b64_decode (encryption_key ks) of
        None \<Rightarrow> Inl NotBase64
      | Some key_bytes \<Rightarrow>
          if length key_bytes \<noteq> 32 \<and> length key_bytes \<noteq> 44 then Inl (WrongKeyLength (length key_bytes))
          else if length key_bytes = 44 then Inl LegacyFernetKey
          else Inr key_bytes)"

definition encrypt_credential :: "ciphers \<Rightarrow> key_settings \<Rightarrow> string \<Rightarrow> string \<Rightarrow> string option" where
  "encrypt_credential c ks nonce plaintext =
     (case get_encryption_key ks of Inl _ \<Rightarrow> None | Inr key \<Rightarrow> Some (seal c key nonce plaintext))"

text \<open>An undecodable text raises; every failure of the AES path falls through to Fernet.\<close>

definition decrypt_credential :: "ciphers \<Rightarrow> key_settings \<Rightarrow> string \<Rightarrow> string option" where
  "decrypt_credential c ks ciphertext =
     (case b64_decode ciphertext of
        None \<Rightarrow> None
      | Some raw \<Rightarrow>
          case (if length raw > GCM_NONCE_BYTES
                then (case get_encryption_key ks of Inl _ \<Rightarrow> None | Inr key \<Rightarrow> Option.bind (open_raw c key raw) utf8_decode)
                else None) of
            Some p \<Rightarrow> Some p
          | None \<Rightarrow> Option.bind (fernet_decrypt c (encryption_key ks) ciphertext) utf8_decode)"

section \<open>Data keys\<close>

text \<open>\<open>LocalKMSProvider\<close> seals with the master key. Only it has the fallback to the previous key.\<close>

datatype kms = LocalKMS | ExternalKMS "string \<Rightarrow> string \<Rightarrow> string option" "string \<Rightarrow> string option"

definition wrap_key_sync :: "ciphers \<Rightarrow> key_settings \<Rightarrow> string \<Rightarrow> string \<Rightarrow> string option" where
  "wrap_key_sync c ks nonce plaintext_key = encrypt_credential c ks nonce plaintext_key"

definition unwrap_key_sync :: "ciphers \<Rightarrow> key_settings \<Rightarrow> string \<Rightarrow> string option" where
  "unwrap_key_sync c ks wrapped_key =
     Option.bind (b64_decode wrapped_key)
       (\<lambda>raw. case get_encryption_key ks of Inl _ \<Rightarrow> None | Inr key \<Rightarrow> open_raw c key raw)"

definition wrap_dek :: "ciphers \<Rightarrow> key_settings \<Rightarrow> kms \<Rightarrow> string \<Rightarrow> string \<Rightarrow> string option" where
  "wrap_dek c ks provider nonce dek =
     (case provider of LocalKMS \<Rightarrow> wrap_key_sync c ks nonce dek | ExternalKMS wrap unwrap \<Rightarrow> wrap nonce dek)"

definition unwrap_dek :: "ciphers \<Rightarrow> key_settings \<Rightarrow> kms \<Rightarrow> string \<Rightarrow> string option" where
  "unwrap_dek c ks provider wrapped_dek =
     (case provider of
        ExternalKMS wrap unwrap \<Rightarrow> unwrap wrapped_dek
      | LocalKMS \<Rightarrow>
          (case unwrap_key_sync c ks wrapped_dek of
             Some dek \<Rightarrow> Some dek
           | None \<Rightarrow>
               (case encryption_key_previous ks of
                  None \<Rightarrow> None
                | Some prev \<Rightarrow>
                    if prev = '''' then None
                    else (case (b64_decode wrapped_dek, b64_decode prev) of
                            (Some raw, Some prev_bytes) \<Rightarrow> if aes_key prev_bytes then open_raw c prev_bytes raw else None
                          | _ \<Rightarrow> None))))"

definition create_user_dek :: "ciphers \<Rightarrow> key_settings \<Rightarrow> kms \<Rightarrow> string \<Rightarrow> string \<Rightarrow> string option" where
  "create_user_dek c ks provider nonce random32 = wrap_dek c ks provider nonce random32"

section \<open>Credentials of a user\<close>

text \<open>The user's wrapped data key, \<open>None\<close> or empty before the migration.\<close>

definition encrypt_for_dek :: "ciphers \<Rightarrow> key_settings \<Rightarrow> kms \<Rightarrow> string option \<Rightarrow> string \<Rightarrow> string \<Rightarrow> string option" where
  "encrypt_for_dek c ks provider wrapped nonce plaintext =
     (case wrapped of
        Some w \<Rightarrow>
          if w = '''' then encrypt_credential c ks nonce plaintext
          else (case unwrap_dek c ks provider w of
                  None \<Rightarrow> None
                | Some dek \<Rightarrow> if aes_key dek then Some (seal c dek nonce plaintext) else None)
      | None \<Rightarrow> encrypt_credential c ks nonce plaintext)"

definition decrypt_for_dek :: "ciphers \<Rightarrow> key_settings \<Rightarrow> kms \<Rightarrow> string option \<Rightarrow> string \<Rightarrow> string option" where
  "decrypt_for_dek c ks provider wrapped ciphertext =
     (case wrapped of
        Some w \<Rightarrow>
          if w = '''' then decrypt_credential c ks ciphertext
          else (case unwrap_dek c ks provider w of
                  None \<Rightarrow> None
                | Some dek \<Rightarrow>
                    if \<not> aes_key dek then None
                    else (case b64_decode ciphertext of
                            None \<Rightarrow> None
                          | Some raw \<Rightarrow>
                              case Option.bind (open_raw c dek raw) utf8_decode of
                                Some p \<Rightarrow> Some p
                              | None \<Rightarrow> decrypt_credential c ks ciphertext))
      | None \<Rightarrow> decrypt_credential c ks ciphertext)"

section \<open>Round trips\<close>

lemma key_is_32: "get_encryption_key ks = Inr key \<Longrightarrow> aes_key key \<and> b64_decode (encryption_key ks) = Some key"
  by (auto simp: get_encryption_key_def aes_key_def split: option.splits if_splits)

lemma seal_decode: "b64_decode (seal c k n p) = Some (n @ gcm_encrypt c k n p)"
  by (simp add: seal_def)

lemma open_raw_seal:
  "aead_ok c \<Longrightarrow> aes_key k \<Longrightarrow> length n = GCM_NONCE_BYTES \<Longrightarrow> open_raw c k (n @ gcm_encrypt c k n p) = Some p"
  by (simp add: open_raw_def aead_ok_def)

text \<open>A ciphertext is longer than its nonce: AES-GCM appends a tag.\<close>

definition tagged :: "ciphers \<Rightarrow> bool" where
  "tagged c \<longleftrightarrow> (\<forall>k n p. gcm_encrypt c k n p \<noteq> [])"

lemma credential_roundtrip:
  assumes "aead_ok c" "tagged c" "length nonce = GCM_NONCE_BYTES" "utf8_ok p"
    and "encrypt_credential c ks nonce p = Some ct"
  shows "decrypt_credential c ks ct = Some p"
proof -
  obtain key where key: "get_encryption_key ks = Inr key" "ct = seal c key nonce p"
    using assms(5) by (auto simp: encrypt_credential_def split: sum.splits)
  moreover have "gcm_encrypt c key nonce p \<noteq> []" using assms(2) by (simp add: tagged_def)
  ultimately show ?thesis
    using assms key_is_32 [OF key(1)]
    by (simp add: decrypt_credential_def seal_decode open_raw_seal utf8_decode_def)
qed

lemma unwrap_wrap:
  assumes "aead_ok c" "length nonce = GCM_NONCE_BYTES" "wrap_dek c ks LocalKMS nonce dek = Some w"
  shows "unwrap_dek c ks LocalKMS w = Some dek"
proof -
  obtain key where key: "get_encryption_key ks = Inr key" "w = seal c key nonce dek"
    using assms(3) by (auto simp: wrap_dek_def wrap_key_sync_def encrypt_credential_def split: sum.splits)
  then show ?thesis
    using assms key_is_32 [OF key(1)] by (simp add: unwrap_dek_def unwrap_key_sync_def seal_decode open_raw_seal)
qed

lemma user_credential_decrypts:
  assumes "aead_ok c" "tagged c" "length nonce = GCM_NONCE_BYTES" "utf8_ok p"
    and "encrypt_for_dek c ks provider wrapped nonce p = Some ct"
  shows "decrypt_for_dek c ks provider wrapped ct = Some p"
proof (cases "wrapped = None \<or> wrapped = Some ''''")
  case True
  with assms credential_roundtrip [OF assms(1-4)] show ?thesis by (auto simp: encrypt_for_dek_def decrypt_for_dek_def)
next
  case False
  then obtain w dek where w: "wrapped = Some w" "w \<noteq> ''''" "unwrap_dek c ks provider w = Some dek" "aes_key dek" "ct = seal c dek nonce p"
    using assms(5) by (auto simp: encrypt_for_dek_def split: option.splits if_splits)
  then show ?thesis
    using assms by (simp add: decrypt_for_dek_def seal_decode open_raw_seal utf8_decode_def)
qed


text \<open>An instance of the ciphers: the key and the length of the text are kept before it.\<close>

definition sample_ciphers :: ciphers where
  "sample_ciphers = \<lparr>gcm_encrypt = (\<lambda>k n p. char_of (length k) # k @ p),
     gcm_decrypt = (\<lambda>k n ct. case ct of [] \<Rightarrow> None | l # r \<Rightarrow> if l = char_of (length k) \<and> take (length k) r = k then Some (drop (length k) r) else None),
     fernet_decrypt = (\<lambda>_ _. None)\<rparr>"

lemma sample_ciphers_ok: "aead_ok sample_ciphers" "tagged sample_ciphers" "rejects_other_keys sample_ciphers"
proof -
  show "aead_ok sample_ciphers" "tagged sample_ciphers" by (simp_all add: aead_ok_def tagged_def sample_ciphers_def)
  have "(char_of (length k) :: char) \<noteq> char_of (length k') \<or> take (length k') (k @ p) \<noteq> k'"
    if "aes_key k" "aes_key k'" "k \<noteq> k'" for k k' p :: string
    using that by (auto simp: aes_key_def)
  then show "rejects_other_keys sample_ciphers" by (auto simp: rejects_other_keys_def sample_ciphers_def)
qed


text \<open>A Fernet key is the base64 text of 32 random bytes, 44 characters long. The test for 44 bytes comes after the
  decoding, so no such key is refused: it is used as an AES-256 key.\<close>

theorem fernet_keys_are_accepted:
  assumes "length bytes = 32"
  shows "length (b64_encode bytes) = 44 \<and>
    get_encryption_key \<lparr>encryption_key = b64_encode bytes, encryption_key_previous = prev, encryption_key_version = v\<rparr> = Inr bytes"
  using assms by (simp add: length_b64_encode get_encryption_key_def)

theorem fernet_keys_are_accepted_witness:
  "length (b64_encode (replicate 32 (CHR ''k''))) = 44 \<and>
   get_encryption_key \<lparr>encryption_key = b64_encode (replicate 32 (CHR ''k'')), encryption_key_previous = None, encryption_key_version = 1\<rparr>
     = Inr (replicate 32 (CHR ''k''))"
  by (rule fernet_keys_are_accepted) simp

end
