(* ===== verification/Scope_Lock.thy ===== *)
theory Scope_Lock imports Redis_Store begin

text \<open>
  The per-scope lock of \<^verbatim>\<open>src/access_jobs.py\<close> (\<open>build_lock_scope\<close>, \<open>_acquire_redis_lock\<close>,
  \<open>_acquire_local_lock\<close>, \<open>_HeldScopeLock.release\<close>) and the discipline of the jobs that use it.

  The contract of a lock is the locale \<open>scope_lock\<close>; \<open>durable_lock\<close> adds that time does not free it
  (the in-process lock) and \<open>fenced_lock\<close> that only the holder's token frees it (the Redis lock, whose
  key expires). \<open>job_step\<close> is the part of \<open>_execute_existing_job\<close> that touches the lock, for any number
  of overlapping jobs. Mutual exclusion is proved inside \<open>durable_lock\<close>, the absence of foreign releases
  inside \<open>fenced_lock\<close>; both are instantiated on the code's two locks.
\<close>

section \<open>Scopes\<close>

definition LOCK_TTL_SECONDS :: int where "LOCK_TTL_SECONDS = 360"
definition LOCK_WAIT_SECONDS :: time where "LOCK_WAIT_SECONDS = 0.25"
definition LOCK_POLL_INTERVAL :: time where "LOCK_POLL_INTERVAL = 0.05"

definition lock_key :: "string \<Rightarrow> string" where
  "lock_key scope = ''plaidify:access_lock:'' @ scope"

definition scope_hash :: "(string \<Rightarrow> string) \<Rightarrow> string \<Rightarrow> string \<Rightarrow> string" where
  "scope_hash sha principal_hint site =
     take 16 (sha (py_lower (py_strip site) @ '':'' @ py_lower (py_strip principal_hint)))"

definition build_lock_scope :: "(string \<Rightarrow> string) \<Rightarrow> string \<Rightarrow> int option \<Rightarrow> string option \<Rightarrow> string" where
  "build_lock_scope sha site user_id principal_hint =
     (let site_key = py_lower (py_strip site)
      in case user_id of
           Some u \<Rightarrow> ''user:'' @ show_int u @ '':site:'' @ site_key
         | None \<Rightarrow>
             (case principal_hint of
                Some p \<Rightarrow> if p \<noteq> '''' then ''principal:'' @ scope_hash sha p site_key @ '':site:'' @ site_key
                  else ''anonymous:site:'' @ site_key
              | None \<Rightarrow> ''anonymous:site:'' @ site_key))"

section \<open>The two locks\<close>

text \<open>The in-process locks: for each scope an \<^verbatim>\<open>asyncio.Lock\<close>, given by the handle that holds it.
  \<open>release\<close> unlocks whatever is locked.\<close>

type_synonym local_locks = "(string, string option) dict"

definition local_holder :: "local_locks \<Rightarrow> string \<Rightarrow> string option" where
  "local_holder ls scope = (case map_of ls scope of Some (Some t) \<Rightarrow> Some t | _ \<Rightarrow> None)"

definition local_acquire :: "local_locks \<Rightarrow> string \<Rightarrow> string \<Rightarrow> local_locks option" where
  "local_acquire ls scope token =
     (if local_holder ls scope = None then Some (AList.update scope (Some token) ls) else None)"

definition local_release :: "local_locks \<Rightarrow> string \<Rightarrow> string \<Rightarrow> local_locks" where
  "local_release ls scope token =
     (if local_holder ls scope \<noteq> None then AList.update scope None ls else ls)"

text \<open>The Redis lock: server state and clock. Acquisition is \<^verbatim>\<open>SET key token EX 360 NX\<close>; release is the
  script \<open>_RELEASE_LOCK_SCRIPT\<close>, which deletes the key only when it still holds the caller's token.\<close>

type_synonym 'r redis_locks = "'r \<times> time"

definition redis_holder :: "('r, string) redis \<Rightarrow> 'r redis_locks \<Rightarrow> string \<Rightarrow> string option" where
  "redis_holder rd l scope = r_get rd (fst l) (snd l) (lock_key scope)"

definition redis_acquire :: "('r, string) redis \<Rightarrow> 'r redis_locks \<Rightarrow> string \<Rightarrow> string \<Rightarrow> 'r redis_locks option" where
  "redis_acquire rd l scope token =
     (case r_set_nx rd (fst l) (snd l) (lock_key scope) token LOCK_TTL_SECONDS of
        (True, r') \<Rightarrow> Some (r', snd l)
      | (False, r') \<Rightarrow> None)"

definition release_lock_script :: "('r, string) redis \<Rightarrow> 'r \<Rightarrow> time \<Rightarrow> string \<Rightarrow> string \<Rightarrow> 'r" where
  "release_lock_script rd r now key token =
     (if r_get rd r now key = Some token then r_delete rd r key else r)"

definition redis_release :: "('r, string) redis \<Rightarrow> 'r redis_locks \<Rightarrow> string \<Rightarrow> string \<Rightarrow> 'r redis_locks" where
  "redis_release rd l scope token = (release_lock_script rd (fst l) (snd l) (lock_key scope) token, snd l)"

definition redis_tick :: "'r redis_locks \<Rightarrow> time \<Rightarrow> 'r redis_locks" where
  "redis_tick l d = (fst l, snd l + max 0 d)"

section \<open>Waiting for the Redis lock\<close>

datatype nx_result = NxAcquired | NxBusy | NxError

datatype lock_outcome = LockAcquired | FallBackLocal | ConcurrentAccess

text \<open>The loop of \<open>_acquire_redis_lock\<close> over the results of its \<^verbatim>\<open>SET NX\<close> calls and the clock read after
  each; \<open>None\<close> while it has not returned.\<close>

fun redis_lock_loop :: "time \<Rightarrow> (nx_result \<times> time) list \<Rightarrow> lock_outcome option" where
  "redis_lock_loop deadline [] = None"
| "redis_lock_loop deadline ((NxError, now) # ps) = Some FallBackLocal"
| "redis_lock_loop deadline ((NxAcquired, now) # ps) = Some LockAcquired"
| "redis_lock_loop deadline ((NxBusy, now) # ps) =
     (if deadline - now \<le> 0 then Some ConcurrentAccess else redis_lock_loop deadline ps)"

text \<open>The clock readings of the loop: it sleeps \<^verbatim>\<open>min(_LOCK_POLL_INTERVAL, remaining)\<close> between them.\<close>

fun paced :: "time \<Rightarrow> time \<Rightarrow> (nx_result \<times> time) list \<Rightarrow> bool" where
  "paced deadline earliest [] = True"
| "paced deadline earliest ((_, now) # ps) =
     (earliest \<le> now \<and> paced deadline (now + min LOCK_POLL_INTERVAL (deadline - now)) ps)"

lemma redis_lock_loop_returns:
  "paced deadline t ps \<Longrightarrow> deadline - t \<le> of_nat n * LOCK_POLL_INTERVAL \<Longrightarrow> n < length ps \<Longrightarrow>
   redis_lock_loop deadline ps \<noteq> None"
proof (induction ps arbitrary: t n)
  case (Cons p ps)
  obtain res now where p: "p = (res, now)" by fastforce
  show ?case
  proof (cases "res = NxBusy \<and> 0 < deadline - now")
    case True
    let ?t = "now + min LOCK_POLL_INTERVAL (deadline - now)"
    have t: "t \<le> now" "paced deadline ?t ps" using Cons.prems p by simp_all
    have n: "0 < n" using True t Cons.prems(2) by (cases n) (auto simp: LOCK_POLL_INTERVAL_def)
    have "deadline - ?t \<le> of_nat (n - 1) * LOCK_POLL_INTERVAL"
    proof (cases "LOCK_POLL_INTERVAL \<le> deadline - now")
      case True
      have "deadline - now \<le> of_nat n * LOCK_POLL_INTERVAL" using t Cons.prems(2) by linarith
      then show ?thesis using True n by (simp add: of_nat_diff algebra_simps min_def)
    next
      case False
      then show ?thesis by (simp add: LOCK_POLL_INTERVAL_def)
    qed
    then have "redis_lock_loop deadline ps \<noteq> None"
      using Cons.IH [of ?t "n - 1"] t(2) n Cons.prems(3) by auto
    with True show ?thesis by (simp add: p)
  next
    case False
    then show ?thesis by (cases res) (auto simp: p)
  qed
qed simp

text \<open>C16. Waiting for a contended Redis lock is bounded: started at \<open>t0\<close>, the loop has returned after at most
  six \<^verbatim>\<open>SET NX\<close> attempts (a quarter of a second at one attempt every 50 ms), whatever they answered.\<close>

theorem redis_lock_wait_bounded:
  assumes "paced (t0 + LOCK_WAIT_SECONDS) t0 polls" and "6 \<le> length polls"
  shows "redis_lock_loop (t0 + LOCK_WAIT_SECONDS) polls \<noteq> None"
proof (rule redis_lock_loop_returns)
  show "paced (t0 + LOCK_WAIT_SECONDS) t0 polls" by fact
  show "t0 + LOCK_WAIT_SECONDS - t0 \<le> of_nat 5 * LOCK_POLL_INTERVAL"
    by (simp add: LOCK_WAIT_SECONDS_def LOCK_POLL_INTERVAL_def)
  show "5 < length polls" using assms by simp
qed

theorem redis_lock_wait_bounded_witness:
  "redis_lock_loop (0 + LOCK_WAIT_SECONDS)
     [(NxBusy, 0), (NxBusy, 0.05), (NxBusy, 0.1), (NxBusy, 0.15), (NxBusy, 0.2), (NxBusy, 0.25)] \<noteq> None"
  by (rule redis_lock_wait_bounded) (simp_all add: LOCK_WAIT_SECONDS_def LOCK_POLL_INTERVAL_def)

section \<open>Jobs that take the lock\<close>

datatype job_phase = Waiting | Running | Finished | Blocked

record 'l job_sys =
  js_locks :: 'l
  js_phase :: "string \<Rightarrow> job_phase"

text \<open>The steps of any number of jobs: a waiting job takes the lock of its scope and runs, or finds it
  taken and is blocked; a running job ends, in whatever way, and releases in the \<^verbatim>\<open>finally\<close> clause;
  time passes.\<close>

inductive job_step ::
  "('l \<Rightarrow> string \<Rightarrow> string \<Rightarrow> 'l option) \<Rightarrow> ('l \<Rightarrow> string \<Rightarrow> string \<Rightarrow> 'l) \<Rightarrow> ('l \<Rightarrow> time \<Rightarrow> 'l) \<Rightarrow>
   (string \<Rightarrow> string) \<Rightarrow> (string \<Rightarrow> string) \<Rightarrow> 'l job_sys \<Rightarrow> 'l job_sys \<Rightarrow> bool"
  for acq rel tick scope_of token_of where
  start: "js_phase s j = Waiting \<Longrightarrow> acq (js_locks s) (scope_of j) (token_of j) = Some l \<Longrightarrow>
    job_step acq rel tick scope_of token_of s (s\<lparr>js_locks := l, js_phase := (js_phase s)(j := Running)\<rparr>)"
| blocked: "js_phase s j = Waiting \<Longrightarrow> acq (js_locks s) (scope_of j) (token_of j) = None \<Longrightarrow>
    job_step acq rel tick scope_of token_of s (s\<lparr>js_phase := (js_phase s)(j := Blocked)\<rparr>)"
| finish: "js_phase s j = Running \<Longrightarrow>
    job_step acq rel tick scope_of token_of s
      (s\<lparr>js_locks := rel (js_locks s) (scope_of j) (token_of j), js_phase := (js_phase s)(j := Finished)\<rparr>)"
| pass: "job_step acq rel tick scope_of token_of s (s\<lparr>js_locks := tick (js_locks s) d\<rparr>)"

inductive job_reach ::
  "('l \<Rightarrow> string \<Rightarrow> string \<Rightarrow> 'l option) \<Rightarrow> ('l \<Rightarrow> string \<Rightarrow> string \<Rightarrow> 'l) \<Rightarrow> ('l \<Rightarrow> time \<Rightarrow> 'l) \<Rightarrow>
   (string \<Rightarrow> string) \<Rightarrow> (string \<Rightarrow> string) \<Rightarrow> 'l \<Rightarrow> 'l job_sys \<Rightarrow> bool"
  for acq rel tick scope_of token_of l0 where
  init: "job_reach acq rel tick scope_of token_of l0 \<lparr>js_locks = l0, js_phase = (\<lambda>_. Waiting)\<rparr>"
| step: "job_reach acq rel tick scope_of token_of l0 s \<Longrightarrow>
    job_step acq rel tick scope_of token_of s s' \<Longrightarrow> job_reach acq rel tick scope_of token_of l0 s'"

section \<open>The lock's contract\<close>

locale scope_lock =
  fixes acquire :: "'l \<Rightarrow> string \<Rightarrow> string \<Rightarrow> 'l option"
    and release :: "'l \<Rightarrow> string \<Rightarrow> string \<Rightarrow> 'l"
    and tick :: "'l \<Rightarrow> time \<Rightarrow> 'l"
    and holder :: "'l \<Rightarrow> string \<Rightarrow> string option"
  assumes acquire_free: "holder l sc = None \<Longrightarrow> \<exists>l'. acquire l sc t = Some l'"
    and acquire_busy: "holder l sc = Some u \<Longrightarrow> acquire l sc t = None"
    and acquire_holder: "acquire l sc t = Some l' \<Longrightarrow> holder l' = (holder l)(sc \<mapsto> t)"
    and release_own: "holder l sc = Some t \<Longrightarrow> holder (release l sc t) = (holder l)(sc := None)"
    and tick_frees: "holder (tick l d) sc = holder l sc \<or> holder (tick l d) sc = None"
begin

lemma acquire_iff: "(\<exists>l'. acquire l sc t = Some l') \<longleftrightarrow> holder l sc = None"
  using acquire_free acquire_busy by (cases "holder l sc") fastforce+

lemma acquire_was_free: "acquire l sc t = Some l' \<Longrightarrow> holder l sc = None"
  using acquire_iff by blast

end

locale durable_lock = scope_lock +
  assumes tick_keeps: "holder (tick l d) = holder l"
begin

definition lock_inv :: "(string \<Rightarrow> string) \<Rightarrow> (string \<Rightarrow> string) \<Rightarrow> 'a job_sys \<Rightarrow> bool" where
  "lock_inv scope_of token_of s \<longleftrightarrow>
     (\<forall>j. js_phase s j = Running \<longrightarrow> holder (js_locks s) (scope_of j) = Some (token_of j)) \<and>
     (\<forall>sc t. holder (js_locks s) sc = Some t \<longrightarrow> (\<exists>j. js_phase s j = Running \<and> scope_of j = sc \<and> token_of j = t))"

lemma lock_inv_step:
  assumes inj: "inj token_of" and st: "job_step acquire release tick scope_of token_of s s'"
    and inv: "lock_inv scope_of token_of s"
  shows "lock_inv scope_of token_of s'"
proof -
  have run: "holder (js_locks s) (scope_of i) = Some (token_of i)" if "js_phase s i = Running" for i
    using inv that by (simp add: lock_inv_def)
  have held: "\<exists>i. js_phase s i = Running \<and> scope_of i = sc \<and> token_of i = t"
    if "holder (js_locks s) sc = Some t" for sc t
    using inv that by (simp add: lock_inv_def)
  from st show ?thesis
  proof cases
    case (start j l)
    note h = acquire_holder [OF start(3)] acquire_was_free [OF start(3)]
    have "holder (js_locks s') (scope_of i) = Some (token_of i)" if "js_phase s' i = Running" for i
      using that run [of i] h start by (cases "i = j") auto
    moreover have "\<exists>i. js_phase s' i = Running \<and> scope_of i = sc \<and> token_of i = t"
      if "holder (js_locks s') sc = Some t" for sc t
    proof (cases "sc = scope_of j")
      case True
      with that h start show ?thesis by (intro exI [of _ j]) simp
    next
      case False
      with that h start have "holder (js_locks s) sc = Some t" by simp
      then obtain i where i: "js_phase s i = Running" "scope_of i = sc" "token_of i = t"
        using held by blast
      then show ?thesis by (intro exI [of _ i]) (simp add: start)
    qed
    ultimately show ?thesis by (simp add: lock_inv_def)
  next
    case (blocked j)
    have "\<exists>i. js_phase s' i = Running \<and> scope_of i = sc \<and> token_of i = t"
      if "holder (js_locks s') sc = Some t" for sc t
    proof -
      have "holder (js_locks s) sc = Some t" using that blocked by simp
      then obtain i where "js_phase s i = Running" "scope_of i = sc" "token_of i = t"
        using held by blast
      with blocked show ?thesis by (intro exI [of _ i]) auto
    qed
    then show ?thesis using run blocked by (simp add: lock_inv_def)
  next
    case (finish j)
    note h = release_own [OF run [OF finish(2)]]
    have "holder (js_locks s') (scope_of i) = Some (token_of i)" if "js_phase s' i = Running" for i
    proof -
      from that finish have other: "i \<noteq> j" "js_phase s i = Running" by (simp_all split: if_splits)
      have "scope_of i \<noteq> scope_of j"
      proof
        assume "scope_of i = scope_of j"
        with run [OF other(2)] run [OF finish(2)] have "token_of i = token_of j" by simp
        with inj other(1) show False by (blast dest: injD)
      qed
      with other show ?thesis using run [OF other(2)] h finish by simp
    qed
    moreover have "\<exists>i. js_phase s' i = Running \<and> scope_of i = sc \<and> token_of i = t"
      if "holder (js_locks s') sc = Some t" for sc t
    proof -
      from that h finish have k: "sc \<noteq> scope_of j" "holder (js_locks s) sc = Some t" by (auto split: if_splits)
      obtain i where i: "js_phase s i = Running" "scope_of i = sc" "token_of i = t"
        using held [OF k(2)] by blast
      with k(1) have "i \<noteq> j" by blast
      with i show ?thesis by (intro exI [of _ i]) (simp add: finish)
    qed
    ultimately show ?thesis by (simp add: lock_inv_def)
  next
    case (pass d)
    with inv show ?thesis by (simp add: lock_inv_def tick_keeps)
  qed
qed

lemma reach_lock_inv:
  "job_reach acquire release tick scope_of token_of l0 s \<Longrightarrow> inj token_of \<Longrightarrow> holder l0 = (\<lambda>_. None) \<Longrightarrow>
   lock_inv scope_of token_of s"
  by (induction rule: job_reach.induct) (auto simp: lock_inv_def [of _ _ "\<lparr>js_locks = l0, js_phase = \<lambda>_. Waiting\<rparr>"] intro: lock_inv_step)

lemma mutual_exclusion:
  assumes "job_reach acquire release tick scope_of token_of l0 s" "inj token_of" "holder l0 = (\<lambda>_. None)"
    and "js_phase s i = Running" "js_phase s j = Running" "scope_of i = scope_of j"
  shows "i = j"
proof -
  have "holder (js_locks s) (scope_of k) = Some (token_of k)" if "js_phase s k = Running" for k
    using reach_lock_inv [OF assms(1-3)] that by (simp add: lock_inv_def)
  from this [OF assms(4)] this [OF assms(5)] assms(6) have "token_of i = token_of j" by simp
  with assms(2) show ?thesis by (rule injD)
qed

lemma waiting_job_can_start:
  assumes "job_reach acquire release tick scope_of token_of l0 s" "inj token_of" "holder l0 = (\<lambda>_. None)"
    and "js_phase s j = Waiting" "\<And>i. scope_of i = scope_of j \<Longrightarrow> js_phase s i \<noteq> Running"
  shows "\<exists>s'. job_step acquire release tick scope_of token_of s s' \<and> js_phase s' j = Running"
proof -
  have "holder (js_locks s) (scope_of j) = None"
  proof (cases "holder (js_locks s) (scope_of j)")
    case (Some t)
    then obtain i where "js_phase s i = Running" "scope_of i = scope_of j"
      using reach_lock_inv [OF assms(1-3)] unfolding lock_inv_def by blast
    with assms(5) show ?thesis by blast
  qed
  then obtain l where "acquire (js_locks s) (scope_of j) (token_of j) = Some l"
    using acquire_free by blast
  with assms(4) show ?thesis
    by (intro exI conjI, rule job_step.start) auto
qed

end

locale fenced_lock = scope_lock +
  assumes release_other: "holder l sc \<noteq> Some t \<Longrightarrow> holder (release l sc t) = holder l"
begin

definition fence_inv :: "(string \<Rightarrow> string) \<Rightarrow> (string \<Rightarrow> string) \<Rightarrow> 'a job_sys \<Rightarrow> bool" where
  "fence_inv scope_of token_of s \<longleftrightarrow>
     (\<forall>sc t. holder (js_locks s) sc = Some t \<longrightarrow> (\<exists>j. js_phase s j = Running \<and> scope_of j = sc \<and> token_of j = t))"

lemma release_frees_only_own:
  "holder (release l sc t) sc' = (if sc' = sc \<and> holder l sc = Some t then None else holder l sc')"
  using release_own release_other by (cases "holder l sc = Some t") auto

lemma fence_inv_step:
  assumes "job_step acquire release tick scope_of token_of s s'"
    and inv: "fence_inv scope_of token_of s"
  shows "fence_inv scope_of token_of s'"
  unfolding fence_inv_def
proof (intro allI impI)
  fix sc t assume t: "holder (js_locks s') sc = Some t"
  have held: "\<exists>i. js_phase s i = Running \<and> scope_of i = sc \<and> token_of i = t"
    if "holder (js_locks s) sc = Some t"
    using inv that by (auto simp: fence_inv_def)
  from assms(1) show "\<exists>i. js_phase s' i = Running \<and> scope_of i = sc \<and> token_of i = t"
  proof cases
    case (start j l)
    note h = acquire_holder [OF start(3)]
    show ?thesis using t held h start by (cases "sc = scope_of j") auto
  next
    case (blocked j)
    then have "holder (js_locks s) sc = Some t" using t by simp
    then obtain i where "js_phase s i = Running" "scope_of i = sc" "token_of i = t" using held by blast
    with blocked show ?thesis by (intro exI [of _ i]) auto
  next
    case (finish j)
    then have "holder (js_locks s) sc = Some t" and n: "\<not> (sc = scope_of j \<and> t = token_of j)"
      using t by (auto simp: release_frees_only_own split: if_splits)
    then obtain i where "js_phase s i = Running" "scope_of i = sc" "token_of i = t" using held by blast
    with finish n show ?thesis by (intro exI [of _ i]) auto
  next
    case (pass d)
    then have "holder (js_locks s) sc = Some t" using t tick_frees [of "js_locks s" d sc] by auto
    with held pass show ?thesis by simp
  qed
qed

lemma held_by_running_job:
  assumes "job_reach acquire release tick scope_of token_of l0 s" "holder l0 = (\<lambda>_. None)"
    and "holder (js_locks s) sc = Some t"
  shows "\<exists>j. js_phase s j = Running \<and> scope_of j = sc \<and> token_of j = t"
proof -
  have "fence_inv scope_of token_of s"
    using assms(1,2)
    by (induction rule: job_reach.induct)
      (auto simp: fence_inv_def [of _ _ "\<lparr>js_locks = l0, js_phase = \<lambda>_. Waiting\<rparr>"] intro: fence_inv_step)
  with assms(3) show ?thesis by (auto simp: fence_inv_def)
qed

end

section \<open>The code's locks keep the contract\<close>

interpretation in_process: durable_lock local_acquire local_release "\<lambda>l d. l" local_holder
proof unfold_locales
  fix l :: local_locks and sc t u l' and d :: time
  show "local_holder l sc = None \<Longrightarrow> \<exists>l'. local_acquire l sc t = Some l'"
    by (simp add: local_acquire_def)
  show "local_holder l sc = Some u \<Longrightarrow> local_acquire l sc t = None"
    by (simp add: local_acquire_def)
  show "local_acquire l sc t = Some l' \<Longrightarrow> local_holder l' = (local_holder l)(sc \<mapsto> t)"
    by (auto simp: local_acquire_def local_holder_def fun_eq_iff split: if_splits)
  show "local_holder l sc = Some t \<Longrightarrow> local_holder (local_release l sc t) = (local_holder l)(sc := None)"
    by (auto simp: local_release_def local_holder_def fun_eq_iff)
qed simp_all

lemma redis_lock_contract:
  fixes rd :: "('r, string) redis"
  assumes ok: "redis_ok rd view"
  shows "fenced_lock (redis_acquire rd) (redis_release rd) redis_tick (redis_holder rd)"
proof unfold_locales
  fix l :: "'r redis_locks" and sc t u l' d
  show "redis_holder rd l sc = None \<Longrightarrow> \<exists>l'. redis_acquire rd l sc t = Some l'"
    by (simp add: redis_acquire_def redis_holder_def redis_laws [OF ok])
  show "redis_holder rd l sc = Some u \<Longrightarrow> redis_acquire rd l sc t = None"
    by (simp add: redis_acquire_def redis_holder_def redis_laws [OF ok])
  show "redis_acquire rd l sc t = Some l' \<Longrightarrow> redis_holder rd l' = (redis_holder rd l)(sc \<mapsto> t)"
    by (auto simp: redis_acquire_def redis_holder_def redis_laws [OF ok] lock_key_def LOCK_TTL_SECONDS_def
        fun_eq_iff split: if_splits)
  show "redis_holder rd l sc = Some t \<Longrightarrow>
    redis_holder rd (redis_release rd l sc t) = (redis_holder rd l)(sc := None)"
    by (auto simp: redis_release_def release_lock_script_def redis_holder_def redis_laws [OF ok] lock_key_def fun_eq_iff)
  show "redis_holder rd (redis_tick l d) sc = redis_holder rd l sc \<or> redis_holder rd (redis_tick l d) sc = None"
    by (auto simp: redis_tick_def redis_holder_def redis_laws [OF ok] live_def split: option.splits if_splits)
  show "redis_holder rd l sc \<noteq> Some t \<Longrightarrow> redis_holder rd (redis_release rd l sc t) = redis_holder rd l"
    by (auto simp: redis_release_def release_lock_script_def redis_holder_def fun_eq_iff)
qed

interpretation shared: fenced_lock "redis_acquire ks_redis" "redis_release ks_redis" redis_tick "redis_holder ks_redis"
  by (rule redis_lock_contract [OF ks_redis_ok])

text \<open>C2. With the in-process lock no two access jobs of the same scope ever run at the same time, in any
  interleaving of any number of jobs.\<close>

theorem local_lock_mutual_exclusion:
  assumes "job_reach local_acquire local_release (\<lambda>l d. l) scope_of token_of [] s" and "inj token_of"
    and "js_phase s i = Running" and "js_phase s j = Running" and "scope_of i = scope_of j"
  shows "i = j"
proof -
  have "local_holder [] = (\<lambda>_. None)" by (simp add: local_holder_def fun_eq_iff)
  from in_process.mutual_exclusion [OF assms(1,2) this assms(3-5)] show ?thesis .
qed

theorem local_lock_mutual_exclusion_witness:
  "\<exists>s. job_reach local_acquire local_release (\<lambda>l d. l) (\<lambda>_. ''user:1:site:x'') (\<lambda>j. j) [] s \<and>
     js_phase s ''a'' = Running \<and> (\<forall>j. js_phase s j = Running \<longrightarrow> ''a'' = j)"
proof -
  let ?s = "\<lparr>js_locks = [(''user:1:site:x'', Some ''a'')], js_phase = (\<lambda>_. Waiting)(''a'' := Running)\<rparr>"
  have "job_step local_acquire local_release (\<lambda>l d. l) (\<lambda>_. ''user:1:site:x'') (\<lambda>j. j)
      \<lparr>js_locks = [], js_phase = (\<lambda>_. Waiting)\<rparr> ?s"
    using job_step.start [where s = "\<lparr>js_locks = [], js_phase = (\<lambda>_. Waiting)\<rparr>" and j = "''a''"
        and acq = local_acquire and rel = local_release and tick = "\<lambda>l d. l"
        and scope_of = "\<lambda>_. ''user:1:site:x''" and token_of = "\<lambda>j. j"]
    by (simp add: local_acquire_def local_holder_def)
  then have r: "job_reach local_acquire local_release (\<lambda>l d. l) (\<lambda>_. ''user:1:site:x'') (\<lambda>j. j) [] ?s"
    by (rule job_reach.step [OF job_reach.init])
  have "\<forall>j. js_phase ?s j = Running \<longrightarrow> ''a'' = j"
    by (intro allI impI, rule local_lock_mutual_exclusion [OF r]) simp_all
  with r show ?thesis by (intro exI [of _ ?s]) simp
qed



end
