(* ===== verification/Audit_Chain.thy ===== *)
theory Audit_Chain imports Plaidify_Prelude begin

text \<open>
  \<^verbatim>\<open>src/audit.py\<close>: the tamper-evident audit log.

  A row of the table is an \<open>audit_log\<close> (the columns of \<^verbatim>\<open>AuditLog\<close> in \<^verbatim>\<open>src/database.py\<close>), the table
  a list of rows in ascending id order; inserting a row appends it, with the id the database gives.
  \<open>sha\<close> stands for \<^verbatim>\<open>hashlib.sha256(...).hexdigest()\<close>: the theorems hold for every such function,
  and tamper evidence exhibits two different payloads of the two logs with the same hash. Times are
  ISO strings without an offset, which is what the column stores and what is hashed.
\<close>

section \<open>Rows and their hash\<close>

record audit_log =
  al_id :: int
  al_event_type :: string
  al_user_id :: "int option"
  al_agent_id :: "string option"
  al_resource :: "string option"
  al_action :: string
  al_metadata_json :: "string option"
  al_ip_address :: "string option"
  al_timestamp :: string
  al_prev_hash :: "string option"
  al_entry_hash :: string

definition fmt_opt :: "string option \<Rightarrow> string" where
  "fmt_opt x = (case x of None \<Rightarrow> ''None'' | Some s \<Rightarrow> s)"

definition fmt_opt_int :: "int option \<Rightarrow> string" where
  "fmt_opt_int x = (case x of None \<Rightarrow> ''None'' | Some i \<Rightarrow> show_int i)"

definition hash_payload ::
  "string \<Rightarrow> int option \<Rightarrow> string option \<Rightarrow> string option \<Rightarrow> string \<Rightarrow> string option \<Rightarrow> string option \<Rightarrow>
   string \<Rightarrow> string option \<Rightarrow> string" where
  "hash_payload event_type user_id agent_id resource action metadata_json ip_address timestamp prev_hash =
     join (CHR ''|'')
       [event_type, fmt_opt_int user_id, fmt_opt agent_id, fmt_opt resource, action,
        fmt_opt metadata_json, fmt_opt ip_address, timestamp, fmt_opt prev_hash]"

definition compute_hash ::
  "(string \<Rightarrow> string) \<Rightarrow> string \<Rightarrow> int option \<Rightarrow> string option \<Rightarrow> string option \<Rightarrow> string \<Rightarrow>
   string option \<Rightarrow> string option \<Rightarrow> string \<Rightarrow> string option \<Rightarrow> string" where
  "compute_hash sha event_type user_id agent_id resource action metadata_json ip_address timestamp prev_hash =
     sha (hash_payload event_type user_id agent_id resource action metadata_json ip_address timestamp prev_hash)"

definition entry_payload :: "audit_log \<Rightarrow> string" where
  "entry_payload e = hash_payload (al_event_type e) (al_user_id e) (al_agent_id e) (al_resource e)
     (al_action e) (al_metadata_json e) (al_ip_address e) (al_timestamp e) (al_prev_hash e)"

section \<open>Recording\<close>

text \<open>The arguments of \<open>record_audit_event\<close>; \<open>metadata_json\<close> is the dumped metadata, \<open>None\<close> where
  the metadata is absent or empty. \<open>ts\<close> is the clock and \<open>new_id\<close> the id of the inserted row.\<close>

record audit_event =
  ev_event_type :: string
  ev_action :: string
  ev_user_id :: "int option"
  ev_agent_id :: "string option"
  ev_resource :: "string option"
  ev_metadata_json :: "string option"
  ev_ip_address :: "string option"

definition record_audit_event ::
  "(string \<Rightarrow> string) \<Rightarrow> int \<Rightarrow> string \<Rightarrow> audit_event \<Rightarrow> audit_log list \<Rightarrow> audit_log list" where
  "record_audit_event sha new_id ts ev rows =
     (let prev_hash = (if rows = [] then None else Some (al_entry_hash (last rows)));
          entry_hash = compute_hash sha (ev_event_type ev) (ev_user_id ev) (ev_agent_id ev)
            (ev_resource ev) (ev_action ev) (ev_metadata_json ev) (ev_ip_address ev) ts prev_hash
      in rows @ [\<lparr>al_id = new_id, al_event_type = ev_event_type ev, al_user_id = ev_user_id ev,
           al_agent_id = ev_agent_id ev, al_resource = ev_resource ev, al_action = ev_action ev,
           al_metadata_json = ev_metadata_json ev, al_ip_address = ev_ip_address ev,
           al_timestamp = ts, al_prev_hash = prev_hash, al_entry_hash = entry_hash\<rparr>])"

fun record_all ::
  "(string \<Rightarrow> string) \<Rightarrow> audit_log list \<Rightarrow> (int \<times> string \<times> audit_event) list \<Rightarrow> audit_log list" where
  "record_all sha rows [] = rows"
| "record_all sha rows ((i, ts, ev) # evs) = record_all sha (record_audit_event sha i ts ev rows) evs"

section \<open>Verification of the chain\<close>

datatype audit_error =
    PrevHashMismatch int "string option" "string option"
  | EntryHashMismatch int string string

fun verify_loop ::
  "(string \<Rightarrow> string) \<Rightarrow> string option \<Rightarrow> audit_log list \<Rightarrow> audit_error list" where
  "verify_loop sha prev_hash [] = []"
| "verify_loop sha prev_hash (e # es) =
     (if al_prev_hash e \<noteq> prev_hash then [PrevHashMismatch (al_id e) prev_hash (al_prev_hash e)] else []) @
     (let expected = compute_hash sha (al_event_type e) (al_user_id e) (al_agent_id e) (al_resource e)
            (al_action e) (al_metadata_json e) (al_ip_address e) (al_timestamp e) (al_prev_hash e)
      in if al_entry_hash e \<noteq> expected then [EntryHashMismatch (al_id e) expected (al_entry_hash e)] else []) @
     verify_loop sha (Some (al_entry_hash e)) es"

record verify_result =
  vr_valid :: bool
  vr_total :: nat
  vr_errors :: "audit_error list"

definition verify_audit_chain :: "(string \<Rightarrow> string) \<Rightarrow> audit_log list \<Rightarrow> verify_result" where
  "verify_audit_chain sha entries =
     (let errors = verify_loop sha None entries
      in \<lparr>vr_valid = (length errors = 0), vr_total = length entries, vr_errors = errors\<rparr>)"

section \<open>The chain\<close>

definition entry_ok :: "(string \<Rightarrow> string) \<Rightarrow> audit_log \<Rightarrow> bool" where
  "entry_ok sha e \<longleftrightarrow> al_entry_hash e = sha (entry_payload e)"

fun chained :: "string option \<Rightarrow> audit_log list \<Rightarrow> bool" where
  "chained prev [] = True"
| "chained prev (e # es) = (al_prev_hash e = prev \<and> chained (Some (al_entry_hash e)) es)"

definition end_hash :: "string option \<Rightarrow> audit_log list \<Rightarrow> string option" where
  "end_hash prev es = (if es = [] then prev else Some (al_entry_hash (last es)))"

lemma verify_loop_Nil: "verify_loop sha prev es = [] \<longleftrightarrow> chained prev es \<and> (\<forall>e \<in> set es. entry_ok sha e)"
  by (induction sha prev es rule: verify_loop.induct)
    (auto simp: entry_ok_def entry_payload_def compute_hash_def Let_def)

lemma valid_iff: "vr_valid (verify_audit_chain sha es) \<longleftrightarrow> chained None es \<and> (\<forall>e \<in> set es. entry_ok sha e)"
  by (simp add: verify_audit_chain_def verify_loop_Nil Let_def)

lemma chained_append: "chained prev (es @ fs) \<longleftrightarrow> chained prev es \<and> chained (end_hash prev es) fs"
  by (induction prev es rule: chained.induct) (auto simp: end_hash_def)

lemma record_keeps_valid:
  "vr_valid (verify_audit_chain sha rows) \<Longrightarrow>
   vr_valid (verify_audit_chain sha (record_audit_event sha i ts ev rows))"
  by (auto simp: valid_iff record_audit_event_def chained_append end_hash_def entry_ok_def
      entry_payload_def compute_hash_def Let_def)

lemma record_all_valid:
  "vr_valid (verify_audit_chain sha rows) \<Longrightarrow> vr_valid (verify_audit_chain sha (record_all sha rows evs))"
  by (induction sha rows evs rule: record_all.induct) (simp_all add: record_keeps_valid)

lemma length_record [simp]: "length (record_audit_event sha i ts ev rows) = Suc (length rows)"
  by (simp add: record_audit_event_def Let_def)

lemma record_all_length [simp]: "length (record_all sha rows evs) = length rows + length evs"
  by (induction sha rows evs rule: record_all.induct) simp_all

text \<open>C3. A log written only through \<open>record_audit_event\<close> always verifies, with no error reported
  and every entry counted.\<close>

theorem recorded_log_verifies:
  "verify_audit_chain sha (record_all sha [] evs) = \<lparr>vr_valid = True, vr_total = length evs, vr_errors = []\<rparr>"
proof -
  have "vr_valid (verify_audit_chain sha (record_all sha [] evs))"
    by (rule record_all_valid) (simp add: valid_iff)
  then show ?thesis by (simp add: verify_audit_chain_def Let_def record_all_length)
qed

section \<open>Tamper evidence\<close>

text \<open>Fields that the separator cannot split, and no optional text that reads \<^verbatim>\<open>None\<close>.\<close>

definition plain :: "string \<Rightarrow> bool" where
  "plain s \<longleftrightarrow> CHR ''|'' \<notin> set s"

definition plain_opt :: "string option \<Rightarrow> bool" where
  "plain_opt x \<longleftrightarrow> (case x of None \<Rightarrow> True | Some s \<Rightarrow> plain s \<and> s \<noteq> ''None'')"

definition plain_entry :: "audit_log \<Rightarrow> bool" where
  "plain_entry e \<longleftrightarrow> plain (al_event_type e) \<and> plain_opt (al_agent_id e) \<and> plain_opt (al_resource e) \<and>
     plain (al_action e) \<and> plain_opt (al_metadata_json e) \<and> plain_opt (al_ip_address e) \<and>
     plain (al_timestamp e) \<and> plain_opt (al_prev_hash e)"

text \<open>Everything but the id.\<close>

definition same_content :: "audit_log \<Rightarrow> audit_log \<Rightarrow> bool" where
  "same_content e f \<longleftrightarrow> e\<lparr>al_id := 0\<rparr> = f\<lparr>al_id := 0\<rparr>"

lemma plain_fmt_opt [simp]: "plain_opt x \<Longrightarrow> CHR ''|'' \<notin> set (fmt_opt x)"
  by (auto simp: plain_opt_def fmt_opt_def plain_def split: option.splits)

lemma plain_fmt_opt_int [simp]: "CHR ''|'' \<notin> set (fmt_opt_int x)"
  by (auto simp: fmt_opt_int_def dest: show_int_chars split: option.splits)

lemma fmt_opt_inj: "plain_opt x \<Longrightarrow> plain_opt y \<Longrightarrow> fmt_opt x = fmt_opt y \<longleftrightarrow> x = y"
  by (auto simp: plain_opt_def fmt_opt_def split: option.splits)

lemma show_int_not_None: "show_int i \<noteq> ''None''"
  using show_int_chars [of "CHR ''N''" i] by auto

lemma fmt_opt_int_inj [simp]: "fmt_opt_int x = fmt_opt_int y \<longleftrightarrow> x = y"
  by (auto simp: fmt_opt_int_def show_int_not_None show_int_not_None [symmetric] split: option.splits)

lemma entry_payload_inj:
  assumes "plain_entry e" "plain_entry f" "entry_payload e = entry_payload f"
    and "al_entry_hash e = al_entry_hash f"
  shows "same_content e f"
proof -
  let ?fs = "\<lambda>e. [al_event_type e, fmt_opt_int (al_user_id e), fmt_opt (al_agent_id e), fmt_opt (al_resource e),
    al_action e, fmt_opt (al_metadata_json e), fmt_opt (al_ip_address e), al_timestamp e, fmt_opt (al_prev_hash e)]"
  have "?fs e = ?fs f"
  proof (rule join_inj)
    show "join (CHR ''|'') (?fs e) = join (CHR ''|'') (?fs f)"
      using assms(3) by (simp add: entry_payload_def hash_payload_def)
    show "\<forall>x \<in> set (?fs e) \<union> set (?fs f). CHR ''|'' \<notin> set x"
      using assms(1,2) by (auto simp: plain_entry_def plain_def)
  qed simp
  with assms show ?thesis
    by (cases e, cases f) (auto simp: same_content_def plain_entry_def fmt_opt_inj)
qed

lemma tamper_evident_aux:
  "length es = length fs \<Longrightarrow> chained prev es \<Longrightarrow> chained prev fs \<Longrightarrow>
   \<forall>e \<in> set es \<union> set fs. entry_ok sha e \<and> plain_entry e \<Longrightarrow>
   end_hash prev es = end_hash prev fs \<Longrightarrow>
   list_all2 same_content es fs \<or>
   (\<exists>i < length es. entry_payload (es ! i) \<noteq> entry_payload (fs ! i) \<and>
      sha (entry_payload (es ! i)) = sha (entry_payload (fs ! i)))"
proof (induction es arbitrary: fs rule: rev_induct)
  case (snoc e es)
  then obtain gs f where fs: "fs = gs @ [f]" by (metis length_0_conv rev_exhaust snoc_eq_iff_butlast)
  let ?coll = "\<lambda>es fs. \<exists>i < length es. entry_payload (es ! i) \<noteq> entry_payload (fs ! i) \<and>
      sha (entry_payload (es ! i)) = sha (entry_payload (fs ! i))"
  have len: "length es = length gs" using snoc.prems fs by simp
  have hash: "al_entry_hash e = al_entry_hash f" using snoc.prems fs by (simp add: end_hash_def)
  then have sha: "sha (entry_payload e) = sha (entry_payload f)"
    using snoc.prems fs by (auto simp: entry_ok_def)
  show ?case
  proof (cases "entry_payload e = entry_payload f")
    case False
    then have "?coll (es @ [e]) fs"
      using sha len fs by (intro exI [of _ "length es"]) (simp add: nth_append)
    then show ?thesis ..
  next
    case True
    then have c: "same_content e f"
      using snoc.prems fs hash by (intro entry_payload_inj) auto
    then have "al_prev_hash e = al_prev_hash f"
      by (cases e, cases f) (simp add: same_content_def)
    then have "end_hash prev es = end_hash prev gs"
      using snoc.prems fs by (simp add: chained_append)
    then have "list_all2 same_content es gs \<or> ?coll es gs"
      using snoc.prems fs len by (intro snoc.IH) (auto simp: chained_append)
    then show ?thesis
    proof
      assume "list_all2 same_content es gs"
      with c show ?thesis by (simp add: fs list_all2_appendI)
    next
      assume "?coll es gs"
      then show ?thesis
        by (intro disjI2) (use fs len in \<open>auto simp: nth_append less_Suc_eq\<close>)
    qed
  qed
qed simp


definition sample_log :: "int \<Rightarrow> audit_log list" where
  "sample_log i = record_all (filter (\<lambda>c. c \<noteq> CHR ''|'')) []
     [(i, ''t0'', \<lparr>ev_event_type = ''auth'', ev_action = ''login'', ev_user_id = Some 7, ev_agent_id = None,
        ev_resource = None, ev_metadata_json = None, ev_ip_address = Some ''10.0.0.1''\<rparr>),
      (i + 1, ''t1'', \<lparr>ev_event_type = ''token'', ev_action = ''revoke'', ev_user_id = Some 7, ev_agent_id = None,
        ev_resource = Some ''acc-1'', ev_metadata_json = None, ev_ip_address = None\<rparr>)]"


section \<open>What the payload cannot tell apart\<close>

text \<open>Rows rewritten so that payload and hashes stay as they are verify as before.\<close>

lemma verify_loop_map:
  assumes "\<And>e. entry_payload (g e) = entry_payload e" "\<And>e. al_prev_hash (g e) = al_prev_hash e"
    and "\<And>e. al_entry_hash (g e) = al_entry_hash e" "\<And>e. al_id (g e) = al_id e"
  shows "verify_loop sha prev (map g es) = verify_loop sha prev es"
  using assms
  by (induction es arbitrary: prev) (simp_all add: compute_hash_def entry_payload_def Let_def)

definition forge_agent :: "audit_log \<Rightarrow> audit_log" where
  "forge_agent e = (if al_agent_id e = None then e\<lparr>al_agent_id := Some ''None''\<rparr> else e)"

definition move_separator :: "string \<Rightarrow> string \<Rightarrow> audit_log \<Rightarrow> audit_log" where
  "move_separator a b e =
     (if al_action e = a @ CHR ''|'' # b
      then e\<lparr>al_resource := Some (fmt_opt (al_resource e) @ CHR ''|'' # a), al_action := b\<rparr> else e)"

text \<open>The hashed text is not injective in the columns: writing the agent id \<^verbatim>\<open>None\<close> into every row
  that has no agent, or moving text around a separator from the action into the resource, is reported
  by no verification.\<close>

theorem audit_chain_blind_to_field_shifts:
  "verify_audit_chain sha (map (move_separator a b) (map forge_agent es)) = verify_audit_chain sha es"
proof -
  have "verify_loop sha None (map (move_separator a b) (map forge_agent es)) = verify_loop sha None (map forge_agent es)"
    by (rule verify_loop_map)
      (simp_all add: move_separator_def entry_payload_def hash_payload_def fmt_opt_def)
  also have "\<dots> = verify_loop sha None es"
    by (rule verify_loop_map) (simp_all add: forge_agent_def entry_payload_def hash_payload_def fmt_opt_def)
  finally show ?thesis by (simp add: verify_audit_chain_def Let_def)
qed

end
