(* ===== verification/Access_Jobs.thy ===== *)
theory Access_Jobs imports Scope_Lock MFA_Manager Audit_Chain Error_Taxonomy begin

text \<open>
  \<^verbatim>\<open>src/access_jobs.py\<close>, the execution of a tracked access job: the job row, its creation, the
  transition function \<open>_apply_job_state\<close>, persistence, the metadata helpers and \<open>_execute_existing_job\<close>
  on every branch, with its calls into the scope lock, the MFA manager and the audit log.

  The world a job acts on is \<open>aj_world\<close>. What lies outside the repository is in \<open>aj_env\<close>: the lock
  operations of the configured backend, Redis, SHA-256, the text \<open>json.dumps\<close> writes, the clocks and
  whether the two commits succeed. The executor is a function on the keyword arguments and the MFA
  manager. A JSON column holds the value \<open>json.dumps\<close> wrote, or a text that does not parse.
\<close>

section \<open>The job row\<close>

datatype job_status = Job_pending | Job_running | Job_completed | Job_mfa_required | Job_blocked | Job_failed | Job_cancelled

fun status_text :: "job_status \<Rightarrow> string" where
  "status_text Job_pending = ''pending''"
| "status_text Job_running = ''running''"
| "status_text Job_completed = ''completed''"
| "status_text Job_mfa_required = ''mfa_required''"
| "status_text Job_blocked = ''blocked''"
| "status_text Job_failed = ''failed''"
| "status_text Job_cancelled = ''cancelled''"

datatype json_text = Encoded json | RawText string

record access_job =
  aj_id :: string
  aj_user_id :: "int option"
  aj_site :: string
  aj_job_type :: string
  aj_status :: job_status
  aj_lock_scope :: string
  aj_session_id :: "string option"
  aj_metadata_json :: "json_text option"
  aj_result_json :: "json_text option"
  aj_error_message :: "string option"
  aj_created_at :: time
  aj_started_at :: "time option"
  aj_completed_at :: "time option"

type_synonym jdict = "(string, json) dict"

definition serialize_metadata :: "jdict option \<Rightarrow> json_text option" where
  "serialize_metadata metadata =
     (case metadata of None \<Rightarrow> None | Some d \<Rightarrow> if d = [] then None else Some (Encoded (JObj d)))"

definition deserialize_metadata :: "json_text option \<Rightarrow> json option" where
  "deserialize_metadata text =
     (case text of
        None \<Rightarrow> None
      | Some (Encoded v) \<Rightarrow> Some v
      | Some (RawText s) \<Rightarrow> if s = '''' then None else Some (JObj [(''raw'', JStr s)]))"

definition merge_metadata :: "jdict option list \<Rightarrow> jdict option" where
  "merge_metadata parts =
     (let merged = foldl (\<lambda>m part. case part of None \<Rightarrow> m | Some d \<Rightarrow> dict_update m d) [] parts
      in if merged = [] then None else Some merged)"

text \<open>\<open>len\<close> of a JSON container.\<close>

fun jlen :: "json \<Rightarrow> int" where
  "jlen (JList xs) = int (length xs)"
| "jlen (JObj xs) = int (length xs)"
| "jlen (JStr s) = int (length s)"
| "jlen _ = 0"

definition blocked_count :: "jdict \<Rightarrow> json" where
  "blocked_count policy =
     (case map_of policy ''blocked_action_count'' of
        Some v \<Rightarrow> v
      | None \<Rightarrow> JInt (case map_of policy ''blocked_actions'' of Some v \<Rightarrow> jlen v | None \<Rightarrow> 0))"

definition result_metadata :: "jdict \<Rightarrow> jdict" where
  "result_metadata result =
     (let m0 = (case map_of result ''status'' of Some v \<Rightarrow> [(''result_status'', v)] | None \<Rightarrow> []);
          m1 = (case map_of result ''data'' of
                  Some (JObj d) \<Rightarrow> dict_update m0
                    [(''result_field_count'', JInt (int (length d))),
                     (''result_fields'', JList (map JStr (sort_str (map fst d))))]
                | _ \<Rightarrow> m0)
      in case map_of result ''metadata'' of
           Some (JObj md) \<Rightarrow>
             (case map_of md ''read_only_policy'' of
                Some (JObj policy) \<Rightarrow> dict_update m1
                  [(''read_only_policy'', JObj policy),
                   (''read_only_policy_blocked_count'', blocked_count policy)]
              | _ \<Rightarrow> m1)
         | _ \<Rightarrow> m1)"

section \<open>State transitions\<close>

record job_patch =
  jp_status :: job_status
  jp_session_id :: "string option"
  jp_started_at :: "time option"
  jp_completed_at :: "time option"
  jp_error_message :: "string option"
  jp_metadata :: "jdict option"
  jp_result :: "jdict option"

definition patch :: "job_status \<Rightarrow> job_patch" where
  "patch st = \<lparr>jp_status = st, jp_session_id = None, jp_started_at = None, jp_completed_at = None,
     jp_error_message = None, jp_metadata = None, jp_result = None\<rparr>"

definition apply_job_state :: "access_job \<Rightarrow> job_patch \<Rightarrow> access_job" where
  "apply_job_state job p =
     (let job = job\<lparr>aj_status := jp_status p\<rparr>;
          job = (if jp_session_id p \<noteq> None then job\<lparr>aj_session_id := jp_session_id p\<rparr> else job);
          job = (if jp_started_at p \<noteq> None then job\<lparr>aj_started_at := jp_started_at p\<rparr> else job);
          job = (if jp_completed_at p \<noteq> None then job\<lparr>aj_completed_at := jp_completed_at p\<rparr> else job);
          job = (if jp_error_message p \<noteq> None then job\<lparr>aj_error_message := jp_error_message p\<rparr> else job);
          job = (if jp_metadata p \<noteq> None then job\<lparr>aj_metadata_json := serialize_metadata (jp_metadata p)\<rparr> else job)
      in if jp_result p \<noteq> None then job\<lparr>aj_result_json := serialize_metadata (jp_result p)\<rparr> else job)"

text \<open>\<open>_persist_job(strict=False)\<close>: a failed commit is rolled back, which also resets the object to the
  row of the database.\<close>

definition persist_job :: "bool \<Rightarrow> access_job \<Rightarrow> (string, access_job) dict \<Rightarrow> access_job \<times> (string, access_job) dict" where
  "persist_job commit_ok job jobs =
     (if commit_ok then (job, AList.update (aj_id job) job jobs)
      else ((case map_of jobs (aj_id job) of Some row \<Rightarrow> row | None \<Rightarrow> job), jobs))"

text \<open>\<open>_create_access_job\<close>, persisted with \<open>strict=True\<close>: a failed commit raises (\<open>None\<close>).\<close>

definition create_access_job ::
  "(string \<Rightarrow> string) \<Rightarrow> string \<Rightarrow> string \<Rightarrow> time \<Rightarrow> bool \<Rightarrow> string \<Rightarrow> string \<Rightarrow> int option \<Rightarrow> string option \<Rightarrow>
   string option \<Rightarrow> jdict option \<Rightarrow> (string, access_job) dict \<Rightarrow> (access_job \<times> (string, access_job) dict) option" where
  "create_access_job sha new_job_id new_session_id now commit_ok site job_type user_id principal_hint session_id metadata jobs =
     (let scope = build_lock_scope sha site user_id principal_hint;
          job = \<lparr>aj_id = new_job_id, aj_user_id = user_id, aj_site = site, aj_job_type = job_type,
            aj_status = Job_pending, aj_lock_scope = scope,
            aj_session_id = Some (case session_id of Some s \<Rightarrow> if s = '''' then new_session_id else s | None \<Rightarrow> new_session_id),
            aj_metadata_json = serialize_metadata metadata, aj_result_json = None, aj_error_message = None,
            aj_created_at = now, aj_started_at = None, aj_completed_at = None\<rparr>
      in if commit_ok then Some (job, AList.update new_job_id job jobs) else None)"

section \<open>The world of a job\<close>

record ('l, 'r) aj_world =
  aw_locks :: 'l
  aw_jobs :: "(string, access_job) dict"
  aw_mfa :: "'r mfa_manager"
  aw_audit :: "audit_log list"

record ('l, 'r) aj_env =
  ae_acquire :: "'l \<Rightarrow> string \<Rightarrow> string \<Rightarrow> 'l option"
  ae_release :: "'l \<Rightarrow> string \<Rightarrow> string \<Rightarrow> 'l"
  ae_token :: string
  ae_redis :: "('r, mfa_payload) redis"
  ae_sha :: "string \<Rightarrow> string"
  ae_dumps :: "json \<Rightarrow> string"
  ae_started :: time
  ae_ended :: time
  ae_ts :: string
  ae_audit_id :: int
  ae_commit_start :: bool
  ae_commit_end :: bool

definition record_policy_audit_if_needed ::
  "('l, 'r) aj_env \<Rightarrow> access_job \<Rightarrow> jdict option \<Rightarrow> string \<Rightarrow> audit_log list \<Rightarrow> audit_log list" where
  "record_policy_audit_if_needed env job metadata status rows =
     (case metadata of
        None \<Rightarrow> rows
      | Some md \<Rightarrow>
          (case map_of md ''read_only_policy'' of
             Some (JObj policy) \<Rightarrow>
               (let count = blocked_count policy
                in if \<not> truthy count then rows
                   else record_audit_event (ae_sha env) (ae_audit_id env) (ae_ts env)
                     \<lparr>ev_event_type = ''access_job'', ev_action = ''read_only_policy_blocked'',
                      ev_user_id = aj_user_id job,
                      ev_agent_id = (case map_of md ''agent_id'' of Some (JStr a) \<Rightarrow> Some a | _ \<Rightarrow> None),
                      ev_resource = Some (aj_id job),
                      ev_metadata_json = Some (ae_dumps env (JObj
                        [(''site'', JStr (aj_site job)), (''job_type'', JStr (aj_job_type job)),
                         (''status'', JStr status), (''blocked_action_count'', count),
                         (''blocked_actions'', case map_of policy ''blocked_actions'' of Some v \<Rightarrow> v | None \<Rightarrow> JList [])])),
                      ev_ip_address = None\<rparr> rows)
           | _ \<Rightarrow> rows))"

text \<open>\<open>scope.split(":site:")[-1]\<close>.\<close>

fun drop_prefix :: "string \<Rightarrow> string \<Rightarrow> string option" where
  "drop_prefix [] s = Some s"
| "drop_prefix (p # ps) [] = None"
| "drop_prefix (p # ps) (c # cs) = (if p = c then drop_prefix ps cs else None)"

fun split_after :: "string \<Rightarrow> string \<Rightarrow> string option" where
  "split_after sep [] = None"
| "split_after sep (c # cs) = (case drop_prefix sep (c # cs) of Some r \<Rightarrow> Some r | None \<Rightarrow> split_after sep cs)"

lemma drop_prefix_length: "drop_prefix ps s = Some r \<Longrightarrow> length s = length ps + length r"
  by (induction ps s rule: drop_prefix.induct) (auto split: if_splits)

lemma split_after_length: "sep \<noteq> [] \<Longrightarrow> split_after sep s = Some r \<Longrightarrow> length r < length s"
proof (induction sep s rule: split_after.induct)
  case (2 sep c cs)
  show ?case
  proof (cases "drop_prefix sep (c # cs)")
    case None
    with 2 show ?thesis by fastforce
  next
    case (Some t)
    with 2 have "r = t" by simp
    with drop_prefix_length [OF Some] 2 show ?thesis by (cases sep) auto
  qed
qed simp

function scope_site :: "string \<Rightarrow> string" where
  "scope_site s = (case split_after '':site:'' s of Some r \<Rightarrow> scope_site r | None \<Rightarrow> s)"
  by pat_completeness auto
termination
  by (relation "measure length") (auto dest: split_after_length [rotated])

declare scope_site.simps [simp del]

definition remove_job_session :: "('l, 'r) aj_env \<Rightarrow> access_job \<Rightarrow> 'r mfa_manager \<Rightarrow> 'r mfa_manager" where
  "remove_job_session env job m =
     (case aj_session_id job of Some sid \<Rightarrow> mfa_remove_session (ae_redis env) sid m | None \<Rightarrow> m)"

text \<open>\<open>execution_kwargs.setdefault("session_id", job.session_id)\<close>.\<close>

definition set_default_session :: "string option \<Rightarrow> jdict \<Rightarrow> jdict" where
  "set_default_session sid kw = (if map_of kw ''session_id'' = None then AList.update ''session_id'' (jopt sid) kw else kw)"

section \<open>Execution\<close>

text \<open>The exception raised to the caller, with the job id that \<open>MFARequiredError\<close> is given.\<close>

type_synonym job_exc = "exc \<times> string option"

text \<open>The rest of the execution once the lock of \<open>scope\<close> is held is \<open>run_and_finish\<close>; the handle releases
  the scope it was acquired for. \<open>finish_job\<close>: apply the patch, persist it (\<open>strict=False\<close>) and keep the world's jobs.\<close>

definition finish_job ::
  "('l, 'r) aj_env \<Rightarrow> access_job \<Rightarrow> job_patch \<Rightarrow> ('l, 'r) aj_world \<Rightarrow> access_job \<times> ('l, 'r) aj_world" where
  "finish_job env job p w =
     (let (job', jobs) = persist_job (ae_commit_end env) (apply_job_state job p) (aw_jobs w)
      in (job', w\<lparr>aw_jobs := jobs\<rparr>))"

definition release_world :: "('l, 'r) aj_env \<Rightarrow> string \<Rightarrow> ('l, 'r) aj_world \<Rightarrow> ('l, 'r) aj_world" where
  "release_world env scope w = w\<lparr>aw_locks := ae_release env (aw_locks w) scope (ae_token env)\<rparr>"

definition run_and_finish ::
  "('l, 'r) aj_env \<Rightarrow> string \<Rightarrow> (jdict \<Rightarrow> 'r mfa_manager \<Rightarrow> (exc, jdict) outcome \<times> 'r mfa_manager) \<Rightarrow>
   access_job \<Rightarrow> jdict \<Rightarrow> jdict option \<Rightarrow> ('l, 'r) aj_world \<Rightarrow>
   (job_exc, access_job \<times> jdict) outcome \<times> ('l, 'r) aj_world" where
  "run_and_finish env scope executor job executor_kwargs metadata w =
     (let done_at = (patch Job_failed)\<lparr>jp_completed_at := Some (ae_ended env)\<rparr>;
          (res, mfa) = executor (set_default_session (aj_session_id job) executor_kwargs) (aw_mfa w);
          w = w\<lparr>aw_mfa := mfa\<rparr>
      in case res of
           Cancelled \<Rightarrow>
             (let w = w\<lparr>aw_mfa := remove_job_session env job mfa\<rparr>;
                  (job, w) = finish_job env job (done_at\<lparr>jp_status := Job_cancelled,
                    jp_error_message := Some ''Access job cancelled before completion.''\<rparr>) w
              in (Cancelled, release_world env scope w))
         | Raised (Plaidify (MFARequiredError site mfa_type sid)) \<Rightarrow>
             (let e = MFARequiredError site mfa_type sid;
                  (job, w) = finish_job env job (done_at\<lparr>jp_status := Job_mfa_required,
                    jp_session_id := (if sid \<noteq> '''' then Some sid else aj_session_id job),
                    jp_error_message := Some (err_message e),
                    jp_metadata := merge_metadata [metadata, Some [(''mfa_type'', JStr mfa_type)]]\<rparr>) w
              in (Raised (Plaidify e, Some (aj_id job)), release_world env scope w))
         | Raised (Plaidify e) \<Rightarrow>
             (let w = w\<lparr>aw_mfa := remove_job_session env job mfa\<rparr>;
                  error_metadata = merge_metadata [metadata, err_metadata e];
                  (job, w) = finish_job env job (done_at\<lparr>jp_error_message := Some (err_message e),
                    jp_metadata := error_metadata\<rparr>) w;
                  w = w\<lparr>aw_audit := record_policy_audit_if_needed env job error_metadata ''failed'' (aw_audit w)\<rparr>
              in (Raised (Plaidify e, None), release_world env scope w))
         | Raised (OtherExc name text) \<Rightarrow>
             (let w = w\<lparr>aw_mfa := remove_job_session env job mfa\<rparr>;
                  (job, w) = finish_job env job (done_at\<lparr>jp_error_message := Some text\<rparr>) w
              in (Raised (OtherExc name text, None), release_world env scope w))
         | Returned result \<Rightarrow>
             (let w = release_world env scope w;
                  completed_metadata = merge_metadata [metadata, Some (result_metadata result)];
                  (job, w) = finish_job env job (done_at\<lparr>jp_status := Job_completed,
                    jp_metadata := completed_metadata, jp_result := Some result\<rparr>) w;
                  w = w\<lparr>aw_audit := record_policy_audit_if_needed env job completed_metadata ''completed'' (aw_audit w)\<rparr>;
                  w = w\<lparr>aw_mfa := remove_job_session env job (aw_mfa w)\<rparr>
              in (Returned (job, result), w)))"

definition execute_existing_job ::
  "('l, 'r) aj_env \<Rightarrow> (jdict \<Rightarrow> 'r mfa_manager \<Rightarrow> (exc, jdict) outcome \<times> 'r mfa_manager) \<Rightarrow>
   access_job \<Rightarrow> jdict \<Rightarrow> jdict option \<Rightarrow> ('l, 'r) aj_world \<Rightarrow>
   (job_exc, access_job \<times> jdict) outcome \<times> ('l, 'r) aj_world" where
  "execute_existing_job env executor job executor_kwargs metadata w =
     (case ae_acquire env (aw_locks w) (aj_lock_scope job) (ae_token env) of
        None \<Rightarrow>
          (let e = ConcurrentAccessError (scope_site (aj_lock_scope job));
               (job, w) = finish_job env job ((patch Job_blocked)\<lparr>jp_completed_at := Some (ae_ended env),
                 jp_error_message := Some (err_message e)\<rparr>) w
           in (Raised (Plaidify e, None), w))
      | Some locks \<Rightarrow>
          (let (job', jobs) = persist_job (ae_commit_start env)
                 (apply_job_state job ((patch Job_running)\<lparr>jp_started_at := Some (ae_started env)\<rparr>)) (aw_jobs w)
           in run_and_finish env (aj_lock_scope job) executor job' executor_kwargs metadata (w\<lparr>aw_locks := locks, aw_jobs := jobs\<rparr>)))"

section \<open>What every execution does\<close>

fun outcome_status :: "(exc, jdict) outcome \<Rightarrow> job_status" where
  "outcome_status (Returned r) = Job_completed"
| "outcome_status Cancelled = Job_cancelled"
| "outcome_status (Raised (Plaidify (MFARequiredError site ty sid))) = Job_mfa_required"
| "outcome_status (Raised _) = Job_failed"

definition terminal :: "job_status \<Rightarrow> bool" where
  "terminal st \<longleftrightarrow> st \<noteq> Job_pending \<and> st \<noteq> Job_running"

lemma terminal_outcome [simp]: "terminal (outcome_status r)"
  by (cases r rule: outcome_status.cases) (simp_all add: terminal_def)

lemmas patch_simps = apply_job_state_def patch_def Let_def

lemma apply_job_state_simps [simp]:
  "aj_id (apply_job_state job p) = aj_id job"
  "aj_status (apply_job_state job p) = jp_status p"
  "aj_lock_scope (apply_job_state job p) = aj_lock_scope job"
  "aj_completed_at (apply_job_state job p) = (if jp_completed_at p = None then aj_completed_at job else jp_completed_at p)"
  "aj_started_at (apply_job_state job p) = (if jp_started_at p = None then aj_started_at job else jp_started_at p)"
  "aj_session_id (apply_job_state job p) = (if jp_session_id p = None then aj_session_id job else jp_session_id p)"
  by (simp_all add: apply_job_state_def Let_def)

lemma finish_job_ok:
  "ae_commit_end env \<Longrightarrow> finish_job env job p w =
     (apply_job_state job p, w\<lparr>aw_jobs := AList.update (aj_id job) (apply_job_state job p) (aw_jobs w)\<rparr>)"
  by (simp add: finish_job_def persist_job_def)

lemma finish_job_frame [simp]:
  "aw_locks (snd (finish_job env job p w)) = aw_locks w"
  "aw_mfa (snd (finish_job env job p w)) = aw_mfa w"
  "aw_audit (snd (finish_job env job p w)) = aw_audit w"
  by (simp_all add: finish_job_def split: prod.splits)

lemma run_and_finish_locks:
  "aw_locks (snd (run_and_finish env scope executor job kw md w)) = ae_release env (aw_locks w) scope (ae_token env)"
proof -
  obtain res m where x: "executor (set_default_session (aj_session_id job) kw) (aw_mfa w) = (res, m)" by fastforce
  show ?thesis
    unfolding run_and_finish_def
    by (cases res rule: outcome_status.cases)
      (simp_all add: x Let_def release_world_def finish_job_def split: prod.split)
qed

lemma run_and_finish_job:
  assumes "ae_commit_end env"
    and "executor (set_default_session (aj_session_id job) kw) (aw_mfa w) = (res, m)"
  shows "\<exists>p. aw_jobs (snd (run_and_finish env scope executor job kw md w)) =
      AList.update (aj_id job) (apply_job_state job p) (aw_jobs w) \<and>
    jp_status p = outcome_status res \<and> jp_completed_at p = Some (ae_ended env) \<and> jp_started_at p = None"
  unfolding run_and_finish_def
  by (cases res rule: outcome_status.cases;
      simp add: assms Let_def release_world_def finish_job_ok patch_def split del: if_split;
      rule exI, intro conjI, rule refl, simp_all)

context scope_lock
begin

text \<open>Under the contract of the lock, an execution leaves no lock behind, however it ends.\<close>

lemma execute_restores_holders:
  assumes "ae_acquire env = acquire" "ae_release env = release"
  shows "holder (aw_locks (snd (execute_existing_job env executor job kw md w))) = holder (aw_locks w)"
proof (cases "acquire (aw_locks w) (aj_lock_scope job) (ae_token env)")
  case None
  have "snd (execute_existing_job env executor job kw md w) =
    snd (finish_job env job ((patch Job_blocked)\<lparr>jp_completed_at := Some (ae_ended env),
      jp_error_message := Some (err_message (ConcurrentAccessError (scope_site (aj_lock_scope job))))\<rparr>) w)"
    using None assms by (simp add: execute_existing_job_def Let_def split: prod.split)
  then show ?thesis by simp
next
  case (Some l)
  obtain j js where p: "persist_job (ae_commit_start env)
      (apply_job_state job ((patch Job_running)\<lparr>jp_started_at := Some (ae_started env)\<rparr>)) (aw_jobs w) = (j, js)"
    by fastforce
  have "aw_locks (snd (execute_existing_job env executor job kw md w)) =
      release l (aj_lock_scope job) (ae_token env)"
    using assms Some by (simp add: execute_existing_job_def p run_and_finish_locks)
  moreover have "holder l = (holder (aw_locks w))(aj_lock_scope job \<mapsto> ae_token env)"
    and free: "holder (aw_locks w) (aj_lock_scope job) = None"
    using Some acquire_holder acquire_was_free by blast+
  ultimately show ?thesis using release_own [of l "aj_lock_scope job" "ae_token env"] by auto
qed

end

lemma execute_acquired:
  assumes "ae_acquire env (aw_locks w) (aj_lock_scope job) (ae_token env) = Some locks" "ae_commit_start env"
  shows "execute_existing_job env executor job kw md w =
    (let job' = apply_job_state job ((patch Job_running)\<lparr>jp_started_at := Some (ae_started env)\<rparr>)
     in run_and_finish env (aj_lock_scope job) executor job' kw md
          (w\<lparr>aw_locks := locks, aw_jobs := AList.update (aj_id job) job' (aw_jobs w)\<rparr>))"
  using assms by (simp add: execute_existing_job_def persist_job_def Let_def)

lemma run_and_finish_mfa:
  assumes "executor (set_default_session (aj_session_id job) kw) (aw_mfa w) = (res, m)"
    and "outcome_status res \<noteq> Job_mfa_required" and "ae_commit_end env"
  shows "aw_mfa (snd (run_and_finish env scope executor job kw md w)) = remove_job_session env job m"
  using assms unfolding run_and_finish_def
  by (cases res rule: outcome_status.cases; cases "aj_session_id job")
    (simp_all add: Let_def release_world_def finish_job_ok patch_def remove_job_session_def)

lemma execute_row:
  assumes "ae_acquire env (aw_locks w) (aj_lock_scope job) (ae_token env) = Some locks"
    and "ae_commit_start env" "ae_commit_end env"
    and "executor (set_default_session (aj_session_id job) kw) (aw_mfa w) = (res, m)"
  shows "\<exists>j'. map_of (aw_jobs (snd (execute_existing_job env executor job kw md w))) = (map_of (aw_jobs w))(aj_id job \<mapsto> j') \<and>
    aj_status j' = outcome_status res \<and> aj_started_at j' = Some (ae_started env) \<and> aj_completed_at j' = Some (ae_ended env)"
proof -
  let ?j = "apply_job_state job ((patch Job_running)\<lparr>jp_started_at := Some (ae_started env)\<rparr>)"
  let ?w = "w\<lparr>aw_locks := locks, aw_jobs := AList.update (aj_id job) ?j (aw_jobs w)\<rparr>"
  have ex: "executor (set_default_session (aj_session_id ?j) kw) (aw_mfa ?w) = (res, m)"
    using assms(4) by (simp add: patch_def)
  obtain p where p: "aw_jobs (snd (run_and_finish env (aj_lock_scope job) executor ?j kw md ?w)) =
      AList.update (aj_id ?j) (apply_job_state ?j p) (aw_jobs ?w)"
    "jp_status p = outcome_status res" "jp_completed_at p = Some (ae_ended env)" "jp_started_at p = None"
    using run_and_finish_job [where job = ?j and w = ?w and executor = executor and kw = kw, OF assms(3) ex] by blast
  show ?thesis
    unfolding execute_acquired [OF assms(1,2)] Let_def p(1)
    by (intro exI [of _ "apply_job_state ?j p"]) (simp add: p(2-4) patch_def)
qed

lemma execute_blocked:
  assumes "ae_acquire env (aw_locks w) (aj_lock_scope job) (ae_token env) = None" "ae_commit_end env"
  shows "\<exists>j'. execute_existing_job env executor job kw md w =
      (Raised (Plaidify (ConcurrentAccessError (scope_site (aj_lock_scope job))), None),
       w\<lparr>aw_jobs := AList.update (aj_id job) j' (aw_jobs w)\<rparr>) \<and>
    aj_id j' = aj_id job \<and> aj_status j' = Job_blocked \<and> aj_started_at j' = aj_started_at job \<and>
    aj_completed_at j' = Some (ae_ended env)"
  using assms by (auto simp: execute_existing_job_def Let_def finish_job_ok patch_def)

text \<open>Either way the row of the job is settled.\<close>

lemma execute_settles:
  assumes "ae_commit_start env" "ae_commit_end env"
  shows "\<exists>j'. map_of (aw_jobs (snd (execute_existing_job env executor job kw md w))) = (map_of (aw_jobs w))(aj_id job \<mapsto> j') \<and>
    terminal (aj_status j')"
proof (cases "ae_acquire env (aw_locks w) (aj_lock_scope job) (ae_token env)")
  case None
  from execute_blocked [OF None assms(2), of executor kw md] obtain j' where
    "execute_existing_job env executor job kw md w =
      (Raised (Plaidify (ConcurrentAccessError (scope_site (aj_lock_scope job))), None),
       w\<lparr>aw_jobs := AList.update (aj_id job) j' (aw_jobs w)\<rparr>)" "aj_status j' = Job_blocked" by blast
  then show ?thesis by (auto simp: terminal_def)
next
  case (Some l)
  obtain res m where "executor (set_default_session (aj_session_id job) kw) (aw_mfa w) = (res, m)" by fastforce
  from execute_row [where executor = executor and kw = kw and md = md, OF Some assms this] show ?thesis using terminal_outcome by metis
qed

section \<open>A concrete environment for the witnesses\<close>

definition sample_env :: "(local_locks, mfa_payload keyspace) aj_env" where
  "sample_env = \<lparr>ae_acquire = local_acquire, ae_release = local_release, ae_token = ''t1'', ae_redis = ks_redis,
     ae_sha = (\<lambda>s. s), ae_dumps = (\<lambda>_. ''{}''), ae_started = 10, ae_ended = 20, ae_ts = ''now'', ae_audit_id = 1,
     ae_commit_start = True, ae_commit_end = True\<rparr>"

definition sample_job :: access_job where
  "sample_job = \<lparr>aj_id = ''j1'', aj_user_id = Some 1, aj_site = ''bank'', aj_job_type = ''connect'',
     aj_status = Job_pending, aj_lock_scope = ''user:1:site:bank'', aj_session_id = Some ''s1'',
     aj_metadata_json = None, aj_result_json = None, aj_error_message = None, aj_created_at = 5,
     aj_started_at = None, aj_completed_at = None\<rparr>"

definition sample_world :: "(local_locks, mfa_payload keyspace) aj_world" where
  "sample_world = \<lparr>aw_locks = [], aw_jobs = [(''j1'', sample_job)],
     aw_mfa = \<lparr>mm_sessions = [], mm_redis = None\<rparr>, aw_audit = []\<rparr>"

lemmas sample_defs = sample_env_def sample_job_def sample_world_def

section \<open>Properties of an execution\<close>

text \<open>C5. An execution under the in-process lock leaves every scope held by whom it was held before: the lock
  it takes is released on every path (success, MFA, program error, foreign error, cancellation), and a
  blocked job touches no lock.\<close>

theorem job_releases_local_lock:
  assumes "ae_acquire env = local_acquire" and "ae_release env = local_release"
  shows "local_holder (aw_locks (snd (execute_existing_job env executor job kw md w))) = local_holder (aw_locks w)"
  by (rule in_process.execute_restores_holders [OF assms])

theorem job_releases_local_lock_witness:
  "local_holder (aw_locks (snd (execute_existing_job sample_env (\<lambda>_ m. (Cancelled, m)) sample_job [] None sample_world))) =
   local_holder []"
  using job_releases_local_lock [of sample_env "\<lambda>_ m. (Cancelled, m)" sample_job "[]" None sample_world]
  by (simp add: sample_defs)

text \<open>The same under the Redis lock, for any server that behaves as Redis documents, as long as the clock
  of the lock does not move past the key's expiry during the execution.\<close>

theorem job_releases_redis_lock:
  assumes "redis_ok rd view" and "ae_acquire env = redis_acquire rd" and "ae_release env = redis_release rd"
  shows "redis_holder rd (aw_locks (snd (execute_existing_job env executor job kw md w))) = redis_holder rd (aw_locks w)"
  by (rule scope_lock.execute_restores_holders [OF fenced_lock.axioms(1) [OF redis_lock_contract [OF assms(1)]] assms(2,3)])

theorem job_releases_redis_lock_witness:
  "redis_holder ks_redis (aw_locks (snd (execute_existing_job
     \<lparr>ae_acquire = redis_acquire ks_redis, ae_release = redis_release ks_redis, ae_token = ''t1'',
      ae_redis = ks_redis, ae_sha = (\<lambda>s. s), ae_dumps = (\<lambda>_. ''{}''), ae_started = 10, ae_ended = 20, ae_ts = ''now'',
      ae_audit_id = 1, ae_commit_start = True, ae_commit_end = True\<rparr>
     (\<lambda>_ m. (Raised (OtherExc ''KeyError'' ''x''), m)) sample_job [] None
     \<lparr>aw_locks = (\<lambda>_. None, 0), aw_jobs = [], aw_mfa = \<lparr>mm_sessions = [], mm_redis = None\<rparr>, aw_audit = []\<rparr>))) =
   redis_holder ks_redis (\<lambda>_. None, 0)"
  by (subst job_releases_redis_lock [OF ks_redis_ok]) simp_all

text \<open>C7. When the scope is free, the row of the job ends with the status its executor's outcome prescribes
  (completed, mfa_required, failed, cancelled), started and completed at the clocks of the run, and no
  other row changes.\<close>

theorem job_ends_as_executor_did:
  assumes "ae_acquire env (aw_locks w) (aj_lock_scope job) (ae_token env) = Some locks"
    and "ae_commit_start env" and "ae_commit_end env"
    and "executor (set_default_session (aj_session_id job) kw) (aw_mfa w) = (res, m)"
  shows "\<exists>j'. map_of (aw_jobs (snd (execute_existing_job env executor job kw md w))) =
      (map_of (aw_jobs w))(aj_id job \<mapsto> j') \<and>
    aj_status j' = outcome_status res \<and> terminal (aj_status j') \<and>
    aj_started_at j' = Some (ae_started env) \<and> aj_completed_at j' = Some (ae_ended env)"
  using execute_row [where executor = executor and kw = kw and md = md, OF assms] by auto

theorem job_ends_as_executor_did_witness:
  "\<exists>j'. map_of (aw_jobs (snd (execute_existing_job sample_env
      (\<lambda>_ m. (Raised (Plaidify (MFARequiredError ''bank'' ''otp'' ''s9'')), m)) sample_job [] None sample_world))) =
      (map_of (aw_jobs sample_world))(''j1'' \<mapsto> j') \<and>
    aj_status j' = Job_mfa_required \<and> aj_completed_at j' = Some 20"
proof -
  let ?ex = "\<lambda>_ m. (Raised (Plaidify (MFARequiredError ''bank'' ''otp'' ''s9'')) :: (exc, jdict) outcome,
    m :: mfa_payload keyspace mfa_manager)"
  have "ae_acquire sample_env (aw_locks sample_world) (aj_lock_scope sample_job) (ae_token sample_env) =
      Some [(''user:1:site:bank'', Some ''t1'')]" "ae_commit_start sample_env" "ae_commit_end sample_env"
    by (simp_all add: sample_defs local_acquire_def local_holder_def)
  from job_ends_as_executor_did [OF this, of ?ex "[]" _ _ None] show ?thesis
    by (fastforce simp: sample_env_def sample_job_def)
qed

text \<open>When another job holds the scope, the job is blocked at once: the executor is not run, MFA sessions, audit
  log and locks stay as they are, and the caller gets the 409 error for the site of the scope.\<close>

theorem busy_scope_blocks_job:
  assumes "ae_acquire env (aw_locks w) (aj_lock_scope job) (ae_token env) = None" and "ae_commit_end env"
  shows "\<exists>j'. execute_existing_job env executor job kw md w =
      (Raised (Plaidify (ConcurrentAccessError (scope_site (aj_lock_scope job))), None),
       w\<lparr>aw_jobs := AList.update (aj_id job) j' (aw_jobs w)\<rparr>) \<and>
    aj_status j' = Job_blocked \<and> aj_started_at j' = aj_started_at job \<and> aj_completed_at j' = Some (ae_ended env)"
  using execute_blocked [OF assms] by blast

theorem busy_scope_blocks_job_witness:
  "\<exists>j'. execute_existing_job sample_env (\<lambda>_ m. (Cancelled, m)) sample_job [] None
      (sample_world\<lparr>aw_locks := [(''user:1:site:bank'', Some ''other'')]\<rparr>) =
      (Raised (Plaidify (ConcurrentAccessError ''bank''), None),
       sample_world\<lparr>aw_locks := [(''user:1:site:bank'', Some ''other'')], aw_jobs := [(''j1'', j')]\<rparr>) \<and>
    aj_status j' = Job_blocked"
proof -
  let ?w = "sample_world\<lparr>aw_locks := [(''user:1:site:bank'', Some ''other'')]\<rparr>"
  have h: "ae_acquire sample_env (aw_locks ?w) (aj_lock_scope sample_job) (ae_token sample_env) = None"
    "ae_commit_end sample_env"
    by (simp_all add: sample_defs local_acquire_def local_holder_def)
  have "scope_site (aj_lock_scope sample_job) = ''bank''"
    by (simp add: sample_job_def scope_site.simps)
  with busy_scope_blocks_job [OF h, of "\<lambda>_ m. (Cancelled, m)" "[]" None] show ?thesis
    by (auto simp: sample_world_def sample_job_def)
qed

text \<open>Unless the site asked for a second factor, the end of a job removes its MFA session from the worker
  and from Redis: no later lookup finds it.\<close>

theorem finished_job_has_no_mfa_session:
  assumes "redis_ok (ae_redis env) view"
    and "ae_acquire env (aw_locks w) (aj_lock_scope job) (ae_token env) = Some locks"
    and "ae_commit_start env" and "ae_commit_end env"
    and "executor (set_default_session (aj_session_id job) kw) (aw_mfa w) = (res, m)"
    and "outcome_status res \<noteq> Job_mfa_required" and "aj_session_id job = Some sid"
  shows "fst (mfa_get_session (ae_redis env) later sid
    (aw_mfa (snd (execute_existing_job env executor job kw md w)))) = None"
proof -
  let ?j = "apply_job_state job ((patch Job_running)\<lparr>jp_started_at := Some (ae_started env)\<rparr>)"
  let ?w = "w\<lparr>aw_locks := locks, aw_jobs := AList.update (aj_id job) ?j (aw_jobs w)\<rparr>"
  have "executor (set_default_session (aj_session_id ?j) kw) (aw_mfa ?w) = (res, m)"
    using assms(5) by (simp add: patch_def)
  then have "aw_mfa (snd (run_and_finish env (aj_lock_scope job) executor ?j kw md ?w)) = remove_job_session env ?j m"
    using assms(4,6) by (intro run_and_finish_mfa)
  then show ?thesis
    using assms(7)
    by (simp add: execute_acquired [OF assms(2,3)] Let_def remove_job_session_def patch_def
        mfa_removed_is_gone [OF assms(1)])
qed

theorem finished_job_has_no_mfa_session_witness:
  "fst (mfa_get_session ks_redis 21 ''s1'' (aw_mfa (snd (execute_existing_job sample_env
     (\<lambda>_ m. (Returned [(''status'', JStr ''connected'')],
        snd (mfa_create_session ks_redis 12 ''s1'' ''bank'' ''otp'' [] 300 m))) sample_job [] None sample_world)))) = None"
proof -
  let ?ex = "\<lambda>_ m. (Returned [(''status'', JStr ''connected'')] :: (exc, jdict) outcome,
        snd (mfa_create_session ks_redis 12 ''s1'' ''bank'' ''otp'' [] 300 (m :: mfa_payload keyspace mfa_manager)))"
  have e: "ae_redis sample_env = ks_redis" by (simp add: sample_env_def)
  have "fst (mfa_get_session (ae_redis sample_env) 21 ''s1''
      (aw_mfa (snd (execute_existing_job sample_env ?ex sample_job [] None sample_world)))) = None"
    by (rule finished_job_has_no_mfa_session [where view = "\<lambda>r. r" and res = "Returned [(''status'', JStr ''connected'')]"])
      (simp_all add: sample_defs local_acquire_def local_holder_def ks_redis_ok)
  then show ?thesis by (simp add: e)
qed

end
