(* ===== verification/Database.thy ===== *)
theory Database imports Credential_Crypto Access_Jobs begin

text \<open>
  The tables of \<^verbatim>\<open>src/database.py\<close> and the operations on them that it defines: master-key rotation, the
  re-encryption job and the erasure of a user's data.

  A row is a record of the columns the program reads (creation and change times are kept where a query orders by
  them), a table a list of rows. \<^verbatim>\<open>query(...).first()\<close> is \<^const>\<open>find\<close>, an assignment to a column of a found row is
  \<open>update_where\<close>, \<^verbatim>\<open>delete()\<close> is \<open>delete_where\<close>. Whether the database enforces the declared foreign keys
  is \<open>fk_enforced\<close> (PostgreSQL does, SQLite as configured does not): then a deletion runs the
  declared \<^verbatim>\<open>ondelete\<close> actions, which is \<open>cascade\<close>.
\<close>

definition update_where :: "('a \<Rightarrow> bool) \<Rightarrow> ('a \<Rightarrow> 'a) \<Rightarrow> 'a list \<Rightarrow> 'a list" where
  "update_where P f xs = map (\<lambda>x. if P x then f x else x) xs"

definition delete_where :: "('a \<Rightarrow> bool) \<Rightarrow> 'a list \<Rightarrow> 'a list" where
  "delete_where P xs = filter (\<lambda>x. \<not> P x) xs"

lemma find_update_where:
  assumes "\<And>x. P (f x) = P x"
  shows "find P (update_where Q f xs) = map_option (\<lambda>x. if Q x then f x else x) (find P xs)"
  using assms by (induction xs) (auto simp: update_where_def)

lemma in_update_where: "y \<in> set (update_where P f xs) \<longleftrightarrow> (\<exists>x \<in> set xs. y = (if P x then f x else x))"
  unfolding update_where_def set_map image_iff by (rule refl)

lemma find_append_new: "find P xs = None \<Longrightarrow> P x \<Longrightarrow> find P (xs @ [x]) = Some x"
  by (induction xs) auto

section \<open>Rows\<close>

record user_row =
  u_id :: int
  u_username :: "string option"
  u_email :: "string option"
  u_hashed_password :: "string option"
  u_oauth_provider :: "string option"
  u_oauth_sub :: "string option"
  u_is_active :: bool
  u_is_admin :: bool
  u_encrypted_dek :: "string option"
  u_failed_login_count :: int
  u_locked_until :: "time option"

record reset_row =
  pr_user_id :: int
  pr_token_hash :: string
  pr_expires_at :: time
  pr_used :: bool

record link_row =
  ln_link_token :: string
  ln_site :: string
  ln_user_id :: int

record token_row =
  at_token :: string
  at_link_token :: string
  at_username_encrypted :: string
  at_password_encrypted :: string
  at_instructions :: "string option"
  at_scopes :: "json_text option"
  at_user_id :: int
  at_key_version :: int
  at_updated_at :: time

record refresh_token_row =
  rt_id :: int
  rt_token :: string
  rt_user_id :: int
  rt_expires_at :: time
  rt_revoked :: bool
  rt_created_at :: time

record webhook_row =
  wh_id :: string
  wh_link_token :: string
  wh_url :: string
  wh_secret :: string
  wh_user_id :: int
  wh_created_at :: time

record public_token_row =
  pt_token :: string
  pt_link_token :: string
  pt_access_token :: string
  pt_user_id :: int
  pt_exchanged :: bool
  pt_expires_at :: time
  pt_created_at :: time

datatype consent_status = Consent_pending | Consent_approved | Consent_denied

record consent_request_row =
  cr_id :: string
  cr_agent_name :: string
  cr_agent_description :: string
  cr_scopes :: json_text
  cr_duration_seconds :: int
  cr_access_token :: string
  cr_user_id :: int
  cr_status :: consent_status

record consent_grant_row =
  cg_token :: string
  cg_consent_request_id :: string
  cg_scopes :: json_text
  cg_access_token :: string
  cg_user_id :: int
  cg_expires_at :: time
  cg_revoked :: bool
  cg_created_at :: time

record api_key_row =
  ak_id :: string
  ak_name :: string
  ak_key_hash :: string
  ak_key_prefix :: string
  ak_user_id :: int
  ak_scopes :: "json_text option"
  ak_is_active :: bool
  ak_expires_at :: "time option"
  ak_last_used_at :: "time option"

record agent_row =
  ag_id :: string
  ag_name :: string
  ag_description :: string
  ag_owner_id :: int
  ag_api_key_id :: "string option"
  ag_allowed_scopes :: "json_text option"
  ag_allowed_sites :: "json_text option"
  ag_rate_limit :: "string option"
  ag_is_active :: bool
  ag_last_active_at :: "time option"

record blueprint_row =
  br_name :: string
  br_site :: string
  br_domain :: string
  br_description :: "string option"
  br_author :: "string option"
  br_version :: string
  br_schema_version :: string
  br_tags :: "json_text option"
  br_has_mfa :: bool
  br_quality_tier :: string
  br_blueprint_json :: json_text
  br_extract_fields :: "json_text option"
  br_downloads :: int
  br_published_by :: int

record refresh_job_row =
  sr_access_token :: string
  sr_user_id :: int
  sr_interval_seconds :: int
  sr_schedule_format :: string
  sr_enabled :: bool
  sr_last_refreshed :: "time option"
  sr_last_error :: "string option"
  sr_consecutive_failures :: nat

record app_db =
  db_users :: "user_row list"
  db_reset_tokens :: "reset_row list"
  db_links :: "link_row list"
  db_access_tokens :: "token_row list"
  db_refresh_tokens :: "refresh_token_row list"
  db_webhooks :: "webhook_row list"
  db_public_tokens :: "public_token_row list"
  db_consent_requests :: "consent_request_row list"
  db_consent_grants :: "consent_grant_row list"
  db_api_keys :: "api_key_row list"
  db_agents :: "agent_row list"
  db_blueprints :: "blueprint_row list"
  db_refresh_jobs :: "refresh_job_row list"
  db_access_jobs :: "access_job list"
  db_audit :: "audit_log list"

definition empty_db :: app_db where
  "empty_db = \<lparr>db_users = [], db_reset_tokens = [], db_links = [], db_access_tokens = [], db_refresh_tokens = [],
     db_webhooks = [], db_public_tokens = [], db_consent_requests = [], db_consent_grants = [], db_api_keys = [],
     db_agents = [], db_blueprints = [], db_refresh_jobs = [], db_access_jobs = [], db_audit = []\<rparr>"

definition find_user :: "app_db \<Rightarrow> int \<Rightarrow> user_row option" where
  "find_user db uid = find (\<lambda>u. u_id u = uid) (db_users db)"

section \<open>Foreign keys\<close>

definition user_ids :: "app_db \<Rightarrow> int list" where "user_ids db = map u_id (db_users db)"
definition link_ids :: "app_db \<Rightarrow> string list" where "link_ids db = map ln_link_token (db_links db)"
definition token_ids :: "app_db \<Rightarrow> string list" where "token_ids db = map at_token (db_access_tokens db)"
definition request_ids :: "app_db \<Rightarrow> string list" where "request_ids db = map cr_id (db_consent_requests db)"
definition key_ids :: "app_db \<Rightarrow> string list" where "key_ids db = map ak_id (db_api_keys db)"

lemmas id_defs = user_ids_def link_ids_def token_ids_def request_ids_def key_ids_def

text \<open>The \<^verbatim>\<open>ForeignKey\<close> declarations of the tables.\<close>

definition fk_ok :: "app_db \<Rightarrow> bool" where
  "fk_ok db \<longleftrightarrow>
     (\<forall>x \<in> set (db_reset_tokens db). pr_user_id x \<in> set (user_ids db)) \<and>
     (\<forall>x \<in> set (db_links db). ln_user_id x \<in> set (user_ids db)) \<and>
     (\<forall>x \<in> set (db_access_tokens db). at_user_id x \<in> set (user_ids db) \<and> at_link_token x \<in> set (link_ids db)) \<and>
     (\<forall>x \<in> set (db_refresh_tokens db). rt_user_id x \<in> set (user_ids db)) \<and>
     (\<forall>x \<in> set (db_webhooks db). wh_user_id x \<in> set (user_ids db)) \<and>
     (\<forall>x \<in> set (db_public_tokens db). pt_user_id x \<in> set (user_ids db) \<and> pt_access_token x \<in> set (token_ids db)) \<and>
     (\<forall>x \<in> set (db_consent_requests db). cr_user_id x \<in> set (user_ids db) \<and> cr_access_token x \<in> set (token_ids db)) \<and>
     (\<forall>x \<in> set (db_consent_grants db). cg_user_id x \<in> set (user_ids db) \<and> cg_access_token x \<in> set (token_ids db) \<and>
        cg_consent_request_id x \<in> set (request_ids db)) \<and>
     (\<forall>x \<in> set (db_api_keys db). ak_user_id x \<in> set (user_ids db)) \<and>
     (\<forall>x \<in> set (db_agents db). ag_owner_id x \<in> set (user_ids db) \<and>
        (\<forall>k. ag_api_key_id x = Some k \<longrightarrow> k \<in> set (key_ids db))) \<and>
     (\<forall>x \<in> set (db_blueprints db). br_published_by x \<in> set (user_ids db)) \<and>
     (\<forall>x \<in> set (db_refresh_jobs db). sr_user_id x \<in> set (user_ids db) \<and> sr_access_token x \<in> set (token_ids db)) \<and>
     (\<forall>x \<in> set (db_access_jobs db). \<forall>u. aj_user_id x = Some u \<longrightarrow> u \<in> set (user_ids db))"

text \<open>The \<^verbatim>\<open>ondelete\<close> actions: rows whose target is gone go too (an agent only loses its key), parents first.\<close>

definition cascade :: "app_db \<Rightarrow> app_db" where
  "cascade db =
     (let us = user_ids db;
          links = filter (\<lambda>x. ln_user_id x \<in> set us) (db_links db);
          lts = map ln_link_token links;
          tokens = filter (\<lambda>x. at_user_id x \<in> set us \<and> at_link_token x \<in> set lts) (db_access_tokens db);
          ats = map at_token tokens;
          reqs = filter (\<lambda>x. cr_user_id x \<in> set us \<and> cr_access_token x \<in> set ats) (db_consent_requests db);
          keys = filter (\<lambda>x. ak_user_id x \<in> set us) (db_api_keys db);
          keep_key = (\<lambda>x. case ag_api_key_id x of None \<Rightarrow> x | Some k \<Rightarrow> if k \<in> set (map ak_id keys) then x else x\<lparr>ag_api_key_id := None\<rparr>)
      in db\<lparr>db_reset_tokens := filter (\<lambda>x. pr_user_id x \<in> set us) (db_reset_tokens db),
            db_links := links, db_access_tokens := tokens,
            db_refresh_tokens := filter (\<lambda>x. rt_user_id x \<in> set us) (db_refresh_tokens db),
            db_webhooks := filter (\<lambda>x. wh_user_id x \<in> set us) (db_webhooks db),
            db_public_tokens := filter (\<lambda>x. pt_user_id x \<in> set us \<and> pt_access_token x \<in> set ats) (db_public_tokens db),
            db_consent_requests := reqs,
            db_consent_grants := filter (\<lambda>x. cg_user_id x \<in> set us \<and> cg_access_token x \<in> set ats \<and>
              cg_consent_request_id x \<in> set (map cr_id reqs)) (db_consent_grants db),
            db_api_keys := keys,
            db_agents := map keep_key (filter (\<lambda>x. ag_owner_id x \<in> set us) (db_agents db)),
            db_blueprints := filter (\<lambda>x. br_published_by x \<in> set us) (db_blueprints db),
            db_refresh_jobs := filter (\<lambda>x. sr_user_id x \<in> set us \<and> sr_access_token x \<in> set ats) (db_refresh_jobs db),
            db_access_jobs := filter (\<lambda>x. case aj_user_id x of None \<Rightarrow> True | Some u \<Rightarrow> u \<in> set us) (db_access_jobs db)\<rparr>)"

definition after_delete :: "bool \<Rightarrow> app_db \<Rightarrow> app_db" where
  "after_delete fk_enforced db = (if fk_enforced then cascade db else db)"

lemma cascade_fk_ok: "fk_ok (cascade db)"
  unfolding fk_ok_def cascade_def Let_def id_defs
  by (intro conjI ballI allI impI) (simp_all split: option.splits if_splits, (fastforce split: option.splits if_splits)+)

section \<open>Credentials of a user row\<close>

definition encrypt_credential_for_user :: "ciphers \<Rightarrow> key_settings \<Rightarrow> kms \<Rightarrow> user_row \<Rightarrow> string \<Rightarrow> string \<Rightarrow> string option" where
  "encrypt_credential_for_user c ks provider user nonce plaintext = encrypt_for_dek c ks provider (u_encrypted_dek user) nonce plaintext"

definition decrypt_credential_for_user :: "ciphers \<Rightarrow> key_settings \<Rightarrow> kms \<Rightarrow> user_row \<Rightarrow> string \<Rightarrow> string option" where
  "decrypt_credential_for_user c ks provider user ciphertext = decrypt_for_dek c ks provider (u_encrypted_dek user) ciphertext"

definition has_dek :: "user_row \<Rightarrow> bool" where
  "has_dek u \<longleftrightarrow> u_encrypted_dek u \<noteq> None \<and> u_encrypted_dek u \<noteq> Some ''''"

text \<open>\<open>None\<close>: an exception, nothing committed.\<close>

definition ensure_user_dek :: "ciphers \<Rightarrow> key_settings \<Rightarrow> kms \<Rightarrow> string \<Rightarrow> string \<Rightarrow> user_row \<Rightarrow> app_db \<Rightarrow> app_db option" where
  "ensure_user_dek c ks provider nonce random32 user db =
     (if has_dek user then Some db
      else (case create_user_dek c ks provider nonce random32 of
              None \<Rightarrow> None
            | Some w \<Rightarrow> Some (db\<lparr>db_users := update_where (\<lambda>u. u_id u = u_id user) (\<lambda>u. u\<lparr>u_encrypted_dek := Some w\<rparr>) (db_users db)\<rparr>)))"

section \<open>Rotation of the master key\<close>

text \<open>\<open>fresh i\<close>: the nonce of the i-th wrapping.\<close>

fun rewrap_all :: "ciphers \<Rightarrow> string \<Rightarrow> string \<Rightarrow> (nat \<Rightarrow> string) \<Rightarrow> nat \<Rightarrow> user_row list \<Rightarrow> (nat \<times> user_row list) option" where
  "rewrap_all c old new fresh count [] = Some (count, [])"
| "rewrap_all c old new fresh count (user # users) =
     (case u_encrypted_dek user of
        None \<Rightarrow> map_option (\<lambda>(n, us). (n, user # us)) (rewrap_all c old new fresh count users)
      | Some w \<Rightarrow>
          (case Option.bind (b64_decode w) (open_raw c old) of
             None \<Rightarrow> None
           | Some dek \<Rightarrow>
               map_option (\<lambda>(n, us). (n, user\<lparr>u_encrypted_dek := Some (seal c new (fresh count) dek)\<rparr> # us))
                 (rewrap_all c old new fresh (count + 1) users)))"

definition rotate_master_key :: "ciphers \<Rightarrow> string \<Rightarrow> string \<Rightarrow> (nat \<Rightarrow> string) \<Rightarrow> app_db \<Rightarrow> (nat \<times> app_db) option" where
  "rotate_master_key c old_key new_key fresh db =
     (case (b64_decode old_key, b64_decode new_key) of
        (Some old, Some new) \<Rightarrow>
          if \<not> aes_key old \<or> \<not> aes_key new then None
          else map_option (\<lambda>(n, us). (n, db\<lparr>db_users := us\<rparr>)) (rewrap_all c old new fresh 0 (db_users db))
      | _ \<Rightarrow> None)"

section \<open>Re-encryption of tokens\<close>

definition get_current_key_version :: "key_settings \<Rightarrow> int" where
  "get_current_key_version ks = encryption_key_version ks"

text \<open>One token: \<open>None\<close> when it is skipped (no user, no data key) or an exception is logged.\<close>

definition re_encrypt_one :: "time \<Rightarrow> ciphers \<Rightarrow> key_settings \<Rightarrow> kms \<Rightarrow> string \<times> string \<Rightarrow> app_db \<Rightarrow> token_row \<Rightarrow> token_row option" where
  "re_encrypt_one now c ks provider nonces db token =
     (case find_user db (at_user_id token) of
        None \<Rightarrow> None
      | Some user \<Rightarrow>
          if \<not> has_dek user then None
          else (case (decrypt_credential_for_user c ks provider user (at_username_encrypted token),
                      decrypt_credential_for_user c ks provider user (at_password_encrypted token)) of
                  (Some plain_user, Some plain_pass) \<Rightarrow>
                    (case (encrypt_credential_for_user c ks provider user (fst nonces) plain_user,
                           encrypt_credential_for_user c ks provider user (snd nonces) plain_pass) of
                       (Some un, Some pw) \<Rightarrow>
                         Some (token\<lparr>at_username_encrypted := un, at_password_encrypted := pw, at_key_version := get_current_key_version ks, at_updated_at := now\<rparr>)
                     | _ \<Rightarrow> None)
                | _ \<Rightarrow> None))"

definition stale :: "int \<Rightarrow> token_row \<Rightarrow> bool" where
  "stale version t \<longleftrightarrow> at_key_version t < version"

text \<open>The first \<open>batch_size\<close> rows on an older version, in table order; \<open>fresh\<close> gives the nonces of the n-th row of the batch.\<close>

fun re_encrypt_loop :: "(nat \<Rightarrow> token_row \<Rightarrow> token_row option) \<Rightarrow> int \<Rightarrow> nat \<Rightarrow> token_row list \<Rightarrow> nat \<times> token_row list" where
  "re_encrypt_loop f version batch [] = (0, [])"
| "re_encrypt_loop f version batch (t # ts) =
     (if stale version t \<and> 0 < batch
      then (case f batch t of
              None \<Rightarrow> (let (n, us) = re_encrypt_loop f version (batch - 1) ts in (n, t # us))
            | Some t' \<Rightarrow> (let (n, us) = re_encrypt_loop f version (batch - 1) ts in (n + 1, t' # us)))
      else (let (n, us) = re_encrypt_loop f version batch ts in (n, t # us)))"

definition re_encrypt_tokens :: "time \<Rightarrow> ciphers \<Rightarrow> key_settings \<Rightarrow> kms \<Rightarrow> (nat \<Rightarrow> string \<times> string) \<Rightarrow> nat \<Rightarrow> app_db \<Rightarrow> nat \<times> app_db" where
  "re_encrypt_tokens now c ks provider fresh batch_size db =
     (let (n, tokens) = re_encrypt_loop (\<lambda>i. re_encrypt_one now c ks provider (fresh i) db) (get_current_key_version ks) batch_size (db_access_tokens db)
      in (n, db\<lparr>db_access_tokens := tokens\<rparr>))"

section \<open>Erasure\<close>

definition count_entry :: "string \<Rightarrow> ('a \<Rightarrow> bool) \<Rightarrow> 'a list \<Rightarrow> (string \<times> nat) list" where
  "count_entry name P rows = (let n = length (filter P rows) in if n = 0 then [] else [(name, n)])"

definition delete_user_data :: "int \<Rightarrow> app_db \<Rightarrow> (string \<times> nat) list \<times> app_db" where
  "delete_user_data uid db =
     (count_entry ''consent_grants'' (\<lambda>x. cg_user_id x = uid) (db_consent_grants db) @
      count_entry ''consent_requests'' (\<lambda>x. cr_user_id x = uid) (db_consent_requests db) @
      count_entry ''public_tokens'' (\<lambda>x. pt_user_id x = uid) (db_public_tokens db) @
      count_entry ''scheduled_refresh_jobs'' (\<lambda>x. sr_user_id x = uid) (db_refresh_jobs db) @
      count_entry ''access_tokens'' (\<lambda>x. at_user_id x = uid) (db_access_tokens db) @
      count_entry ''links'' (\<lambda>x. ln_user_id x = uid) (db_links db) @
      count_entry ''webhooks'' (\<lambda>x. wh_user_id x = uid) (db_webhooks db) @
      count_entry ''refresh_tokens'' (\<lambda>x. rt_user_id x = uid) (db_refresh_tokens db) @
      count_entry ''password_reset_tokens'' (\<lambda>x. pr_user_id x = uid) (db_reset_tokens db) @
      count_entry ''agents'' (\<lambda>x. ag_owner_id x = uid) (db_agents db) @
      count_entry ''api_keys'' (\<lambda>x. ak_user_id x = uid) (db_api_keys db) @
      count_entry ''blueprint_registry'' (\<lambda>x. br_published_by x = uid) (db_blueprints db) @
      count_entry ''access_jobs'' (\<lambda>x. aj_user_id x = Some uid) (db_access_jobs db),
      db\<lparr>db_consent_grants := delete_where (\<lambda>x. cg_user_id x = uid) (db_consent_grants db),
         db_consent_requests := delete_where (\<lambda>x. cr_user_id x = uid) (db_consent_requests db),
         db_public_tokens := delete_where (\<lambda>x. pt_user_id x = uid) (db_public_tokens db),
         db_refresh_jobs := delete_where (\<lambda>x. sr_user_id x = uid) (db_refresh_jobs db),
         db_access_tokens := delete_where (\<lambda>x. at_user_id x = uid) (db_access_tokens db),
         db_links := delete_where (\<lambda>x. ln_user_id x = uid) (db_links db),
         db_webhooks := delete_where (\<lambda>x. wh_user_id x = uid) (db_webhooks db),
         db_refresh_tokens := delete_where (\<lambda>x. rt_user_id x = uid) (db_refresh_tokens db),
         db_reset_tokens := delete_where (\<lambda>x. pr_user_id x = uid) (db_reset_tokens db),
         db_agents := delete_where (\<lambda>x. ag_owner_id x = uid) (db_agents db),
         db_api_keys := delete_where (\<lambda>x. ak_user_id x = uid) (db_api_keys db),
         db_blueprints := delete_where (\<lambda>x. br_published_by x = uid) (db_blueprints db),
         db_access_jobs := delete_where (\<lambda>x. aj_user_id x = Some uid) (db_access_jobs db)\<rparr>)"


section \<open>Erasure is complete and leaves a consistent database\<close>

text \<open>Every row belongs to the owner of the rows it refers to.\<close>

definition owner_ok :: "app_db \<Rightarrow> bool" where
  "owner_ok db \<longleftrightarrow>
     (\<forall>x \<in> set (db_access_tokens db). \<forall>l \<in> set (db_links db). at_link_token x = ln_link_token l \<longrightarrow> at_user_id x = ln_user_id l) \<and>
     (\<forall>x \<in> set (db_public_tokens db). \<forall>t \<in> set (db_access_tokens db). pt_access_token x = at_token t \<longrightarrow> pt_user_id x = at_user_id t) \<and>
     (\<forall>x \<in> set (db_consent_requests db). \<forall>t \<in> set (db_access_tokens db). cr_access_token x = at_token t \<longrightarrow> cr_user_id x = at_user_id t) \<and>
     (\<forall>x \<in> set (db_consent_grants db). \<forall>t \<in> set (db_access_tokens db). cg_access_token x = at_token t \<longrightarrow> cg_user_id x = at_user_id t) \<and>
     (\<forall>x \<in> set (db_consent_grants db). \<forall>r \<in> set (db_consent_requests db). cg_consent_request_id x = cr_id r \<longrightarrow> cg_user_id x = cr_user_id r) \<and>
     (\<forall>x \<in> set (db_refresh_jobs db). \<forall>t \<in> set (db_access_tokens db). sr_access_token x = at_token t \<longrightarrow> sr_user_id x = at_user_id t) \<and>
     (\<forall>x \<in> set (db_agents db). \<forall>k \<in> set (db_api_keys db). ag_api_key_id x = Some (ak_id k) \<longrightarrow> ag_owner_id x = ak_user_id k)"

text \<open>The rows of one user.\<close>

definition rows_of :: "int \<Rightarrow> app_db \<Rightarrow> app_db" where
  "rows_of uid db =
     \<lparr>db_users = filter (\<lambda>x. u_id x = uid) (db_users db), db_reset_tokens = filter (\<lambda>x. pr_user_id x = uid) (db_reset_tokens db),
      db_links = filter (\<lambda>x. ln_user_id x = uid) (db_links db), db_access_tokens = filter (\<lambda>x. at_user_id x = uid) (db_access_tokens db),
      db_refresh_tokens = filter (\<lambda>x. rt_user_id x = uid) (db_refresh_tokens db), db_webhooks = filter (\<lambda>x. wh_user_id x = uid) (db_webhooks db),
      db_public_tokens = filter (\<lambda>x. pt_user_id x = uid) (db_public_tokens db),
      db_consent_requests = filter (\<lambda>x. cr_user_id x = uid) (db_consent_requests db),
      db_consent_grants = filter (\<lambda>x. cg_user_id x = uid) (db_consent_grants db), db_api_keys = filter (\<lambda>x. ak_user_id x = uid) (db_api_keys db),
      db_agents = filter (\<lambda>x. ag_owner_id x = uid) (db_agents db), db_blueprints = filter (\<lambda>x. br_published_by x = uid) (db_blueprints db),
      db_refresh_jobs = filter (\<lambda>x. sr_user_id x = uid) (db_refresh_jobs db),
      db_access_jobs = filter (\<lambda>x. aj_user_id x = Some uid) (db_access_jobs db), db_audit = []\<rparr>"

lemma map_idI: "(\<And>x. x \<in> set xs \<Longrightarrow> f x = x) \<Longrightarrow> map f xs = xs"
  by (induction xs) auto

lemma filter_allI: "(\<And>x. x \<in> set xs \<Longrightarrow> P x) \<Longrightarrow> filter P xs = xs"
  by (induction xs) auto

text \<open>On a database whose references are intact the actions of a deletion have nothing to do.\<close>

lemma cascade_id:
  assumes "fk_ok db"
  shows "cascade db = db"
proof -
  note ok = assms [unfolded fk_ok_def]
  have links: "filter (\<lambda>x. ln_user_id x \<in> set (user_ids db)) (db_links db) = db_links db" using ok by (intro filter_allI) blast
  have tokens: "filter (\<lambda>x. at_user_id x \<in> set (user_ids db) \<and> at_link_token x \<in> set (map ln_link_token (db_links db))) (db_access_tokens db) = db_access_tokens db"
    using ok by (intro filter_allI) (simp add: link_ids_def)
  have reqs: "filter (\<lambda>x. cr_user_id x \<in> set (user_ids db) \<and> cr_access_token x \<in> set (map at_token (db_access_tokens db))) (db_consent_requests db) = db_consent_requests db"
    using ok by (intro filter_allI) (simp add: token_ids_def)
  have keys: "filter (\<lambda>x. ak_user_id x \<in> set (user_ids db)) (db_api_keys db) = db_api_keys db" using ok by (intro filter_allI) blast
  have grants: "filter (\<lambda>x. cg_user_id x \<in> set (user_ids db) \<and> cg_access_token x \<in> set (map at_token (db_access_tokens db)) \<and>
      cg_consent_request_id x \<in> set (map cr_id (db_consent_requests db))) (db_consent_grants db) = db_consent_grants db"
    using ok by (intro filter_allI) (simp add: token_ids_def request_ids_def)
  have pub: "filter (\<lambda>x. pt_user_id x \<in> set (user_ids db) \<and> pt_access_token x \<in> set (map at_token (db_access_tokens db))) (db_public_tokens db) = db_public_tokens db"
    and jobs: "filter (\<lambda>x. sr_user_id x \<in> set (user_ids db) \<and> sr_access_token x \<in> set (map at_token (db_access_tokens db))) (db_refresh_jobs db) = db_refresh_jobs db"
    using ok by (intro filter_allI, simp add: token_ids_def)+
  have agents: "map (\<lambda>x. case ag_api_key_id x of None \<Rightarrow> x | Some k \<Rightarrow> if k \<in> set (map ak_id (db_api_keys db)) then x else x\<lparr>ag_api_key_id := None\<rparr>)
      (filter (\<lambda>x. ag_owner_id x \<in> set (user_ids db)) (db_agents db)) = db_agents db"
  proof -
    have "filter (\<lambda>x. ag_owner_id x \<in> set (user_ids db)) (db_agents db) = db_agents db" using ok by (intro filter_allI) blast
    moreover have "ag_api_key_id x = Some k \<Longrightarrow> x \<in> set (db_agents db) \<Longrightarrow> k \<in> set (map ak_id (db_api_keys db))" for x k
      using ok unfolding key_ids_def by blast
    ultimately show ?thesis by (simp only:) (rule map_idI, simp split: option.split)
  qed
  have rest: "filter (\<lambda>x. pr_user_id x \<in> set (user_ids db)) (db_reset_tokens db) = db_reset_tokens db"
    "filter (\<lambda>x. rt_user_id x \<in> set (user_ids db)) (db_refresh_tokens db) = db_refresh_tokens db"
    "filter (\<lambda>x. wh_user_id x \<in> set (user_ids db)) (db_webhooks db) = db_webhooks db"
    "filter (\<lambda>x. br_published_by x \<in> set (user_ids db)) (db_blueprints db) = db_blueprints db"
    "filter (\<lambda>x. case aj_user_id x of None \<Rightarrow> True | Some u \<Rightarrow> u \<in> set (user_ids db)) (db_access_jobs db) = db_access_jobs db"
    using ok by (intro filter_allI, (simp split: option.split)?, blast?)+
  show ?thesis
    unfolding cascade_def Let_def links tokens reqs keys grants pub jobs agents rest by simp
qed

text \<open>Account deletion: the user's data, then the user.\<close>

definition erase_user :: "bool \<Rightarrow> int \<Rightarrow> app_db \<Rightarrow> app_db" where
  "erase_user fk_enforced uid db =
     (let db = snd (delete_user_data uid db)
      in after_delete fk_enforced (db\<lparr>db_users := delete_where (\<lambda>u. u_id u = uid) (db_users db)\<rparr>))"

lemma erased_fk_ok:
  assumes "fk_ok db" "owner_ok db"
  shows "fk_ok ((snd (delete_user_data uid db))\<lparr>db_users := delete_where (\<lambda>u. u_id u = uid) (db_users db)\<rparr>)" (is "fk_ok ?db")
proof -
  note ok = assms(1) [unfolded fk_ok_def id_defs]
  note own = assms(2) [unfolded owner_ok_def]
  have us: "v \<in> set (user_ids ?db) \<longleftrightarrow> v \<in> set (user_ids db) \<and> v \<noteq> uid" for v by (auto simp: id_defs delete_where_def delete_user_data_def)
  have lt: "at_link_token x \<in> set (link_ids ?db)" if "x \<in> set (db_access_tokens db)" "at_user_id x \<noteq> uid" for x
    using that ok own by (fastforce simp: id_defs delete_where_def delete_user_data_def)
  have pt: "pt_access_token x \<in> set (token_ids ?db)" if "x \<in> set (db_public_tokens db)" "pt_user_id x \<noteq> uid" for x
    using that ok own by (fastforce simp: id_defs delete_where_def delete_user_data_def)
  have ct: "cr_access_token x \<in> set (token_ids ?db)" if "x \<in> set (db_consent_requests db)" "cr_user_id x \<noteq> uid" for x
    using that ok own by (fastforce simp: id_defs delete_where_def delete_user_data_def)
  have gt: "cg_access_token x \<in> set (token_ids ?db)" if "x \<in> set (db_consent_grants db)" "cg_user_id x \<noteq> uid" for x
    using that ok own by (fastforce simp: id_defs delete_where_def delete_user_data_def)
  have gr: "cg_consent_request_id x \<in> set (request_ids ?db)" if "x \<in> set (db_consent_grants db)" "cg_user_id x \<noteq> uid" for x
    using that ok own by (fastforce simp: id_defs delete_where_def delete_user_data_def)
  have jt: "sr_access_token x \<in> set (token_ids ?db)" if "x \<in> set (db_refresh_jobs db)" "sr_user_id x \<noteq> uid" for x
    using that ok own by (fastforce simp: id_defs delete_where_def delete_user_data_def)
  have ak: "k \<in> set (key_ids ?db)" if "x \<in> set (db_agents db)" "ag_owner_id x \<noteq> uid" "ag_api_key_id x = Some k" for x k
    using that ok own by (fastforce simp: id_defs delete_where_def delete_user_data_def)
  have rows: "db_reset_tokens ?db = filter (\<lambda>x. pr_user_id x \<noteq> uid) (db_reset_tokens db)" "db_links ?db = filter (\<lambda>x. ln_user_id x \<noteq> uid) (db_links db)"
    "db_access_tokens ?db = filter (\<lambda>x. at_user_id x \<noteq> uid) (db_access_tokens db)" "db_refresh_tokens ?db = filter (\<lambda>x. rt_user_id x \<noteq> uid) (db_refresh_tokens db)"
    "db_webhooks ?db = filter (\<lambda>x. wh_user_id x \<noteq> uid) (db_webhooks db)" "db_public_tokens ?db = filter (\<lambda>x. pt_user_id x \<noteq> uid) (db_public_tokens db)"
    "db_consent_requests ?db = filter (\<lambda>x. cr_user_id x \<noteq> uid) (db_consent_requests db)" "db_consent_grants ?db = filter (\<lambda>x. cg_user_id x \<noteq> uid) (db_consent_grants db)"
    "db_api_keys ?db = filter (\<lambda>x. ak_user_id x \<noteq> uid) (db_api_keys db)" "db_agents ?db = filter (\<lambda>x. ag_owner_id x \<noteq> uid) (db_agents db)"
    "db_blueprints ?db = filter (\<lambda>x. br_published_by x \<noteq> uid) (db_blueprints db)" "db_refresh_jobs ?db = filter (\<lambda>x. sr_user_id x \<noteq> uid) (db_refresh_jobs db)"
    "db_access_jobs ?db = filter (\<lambda>x. aj_user_id x \<noteq> Some uid) (db_access_jobs db)"
    by (simp_all add: delete_user_data_def delete_where_def)
  show ?thesis
    unfolding fk_ok_def us rows using assms(1) [unfolded fk_ok_def]
    by (intro conjI ballI allI impI) (auto intro: lt pt ct gt gr jt ak)
qed



definition sample_user :: "int \<Rightarrow> string option \<Rightarrow> user_row" where
  "sample_user i dek = \<lparr>u_id = i, u_username = Some ''u'', u_email = None, u_hashed_password = None, u_oauth_provider = None,
     u_oauth_sub = None, u_is_active = True, u_is_admin = False, u_encrypted_dek = dek, u_failed_login_count = 0, u_locked_until = None\<rparr>"

definition sample_token :: "int \<Rightarrow> token_row" where
  "sample_token i = \<lparr>at_token = ''t'' @ show_int i, at_link_token = ''l'' @ show_int i, at_username_encrypted = ''u'', at_password_encrypted = ''p'',
     at_instructions = None, at_scopes = None, at_user_id = i, at_key_version = 1, at_updated_at = 0\<rparr>"

definition sample_db :: app_db where
  "sample_db = empty_db\<lparr>db_users := [sample_user 1 None, sample_user 2 None],
     db_links := [\<lparr>ln_link_token = ''l'' @ show_int 1, ln_site = ''bank'', ln_user_id = 1\<rparr>, \<lparr>ln_link_token = ''l'' @ show_int 2, ln_site = ''bank'', ln_user_id = 2\<rparr>],
     db_access_tokens := [sample_token 1, sample_token 2]\<rparr>"


section \<open>Rotation keeps the credentials\<close>

lemma rewrap_all_find:
  assumes "rewrap_all c old new fresh count users = Some (n, users')" "find (\<lambda>u. u_id u = uid) users = Some user"
  shows "\<exists>user'. find (\<lambda>u. u_id u = uid) users' = Some user' \<and>
    (case u_encrypted_dek user of None \<Rightarrow> user' = user
     | Some w \<Rightarrow> \<exists>dek i. Option.bind (b64_decode w) (open_raw c old) = Some dek \<and>
         user' = user\<lparr>u_encrypted_dek := Some (seal c new (fresh i) dek)\<rparr>)"
  using assms
proof (induction c old new fresh count users arbitrary: n users' rule: rewrap_all.induct)
  case (2 c old new fresh count u us)
  show ?case
  proof (cases "u_encrypted_dek u")
    case None
    with 2 show ?thesis by (auto split: if_splits)
  next
    case (Some w)
    with 2 obtain dek m us' where d: "Option.bind (b64_decode w) (open_raw c old) = Some dek"
      "rewrap_all c old new fresh (count + 1) us = Some (m, us')" "users' = u\<lparr>u_encrypted_dek := Some (seal c new (fresh count) dek)\<rparr> # us'"
      by (auto split: option.splits)
    show ?thesis
    proof (cases "u_id u = uid")
      case True
      with 2 Some d show ?thesis by auto
    next
      case False
      with 2 Some d show ?thesis by auto
    qed
  qed
qed simp

lemma decrypt_with_dek:
  assumes "aead_ok c" "length nonce = GCM_NONCE_BYTES" "utf8_ok p" "w \<noteq> ''''" "unwrap_dek c ks provider w = Some dek" "aes_key dek"
  shows "decrypt_for_dek c ks provider (Some w) (seal c dek nonce p) = Some p"
  using assms by (simp add: decrypt_for_dek_def seal_decode open_raw_seal utf8_decode_def)

lemma seal_not_empty: "length n = GCM_NONCE_BYTES \<Longrightarrow> seal c k n p \<noteq> ''''"
  using length_b64_encode [of "n @ gcm_encrypt c k n p"] by (auto simp: seal_def GCM_NONCE_BYTES_def)

text \<open>A wrapped key under the current or the previous master key unwraps, with the previous one set.\<close>

lemma unwrap_current:
  assumes "aead_ok c" "get_encryption_key ks = Inr key" "length n = GCM_NONCE_BYTES"
  shows "unwrap_dek c ks LocalKMS (seal c key n dek) = Some dek"
  using assms key_is_32 [OF assms(2)] by (simp add: unwrap_dek_def unwrap_key_sync_def seal_decode open_raw_seal)

lemma open_raw_other:
  "rejects_other_keys c \<Longrightarrow> aes_key k \<Longrightarrow> aes_key k' \<Longrightarrow> k \<noteq> k' \<Longrightarrow> length n = GCM_NONCE_BYTES \<Longrightarrow> open_raw c k' (n @ gcm_encrypt c k n p) = None"
  by (simp add: open_raw_def rejects_other_keys_def)

text \<open>The settings during and after a rotation: the new key, and the old one as the previous key.\<close>

definition rotated :: "key_settings \<Rightarrow> string \<Rightarrow> key_settings" where
  "rotated ks new_key = ks\<lparr>encryption_key := new_key, encryption_key_previous := Some (encryption_key ks), encryption_key_version := encryption_key_version ks + 1\<rparr>"

lemma unwrap_previous:
  assumes "rejects_other_keys c" "get_encryption_key ks = Inr old" "get_encryption_key (rotated ks new_key) = Inr new" "old \<noteq> new"
    and "\<exists>dek0 n0. length n0 = GCM_NONCE_BYTES \<and> w = seal c old n0 dek0" "open_raw c old raw = Some dek" "b64_decode w = Some raw"
  shows "unwrap_dek c (rotated ks new_key) LocalKMS w = Some dek"
proof -
  obtain dek0 n0 where w: "length n0 = GCM_NONCE_BYTES" "w = seal c old n0 dek0" using assms(5) by blast
  have "aes_key old" "aes_key new" "b64_decode (encryption_key ks) = Some old"
    using key_is_32 [OF assms(2)] key_is_32 [OF assms(3)] by simp_all
  moreover have "encryption_key ks \<noteq> ''''" using calculation(3) by (auto simp: b64_decode_def aes_key_def dest: sym) (use calculation(1) in \<open>auto simp: aes_key_def\<close>)
  moreover have "open_raw c new raw = None"
    using assms(1,4,7) w calculation open_raw_other [OF assms(1), of old new n0 dek0] by (auto simp: seal_decode)
  ultimately show ?thesis
    using assms(3,6,7) by (simp add: unwrap_dek_def unwrap_key_sync_def rotated_def)
qed

text \<open>Rotating the master key keeps every credential of the users who have a data key readable: with the new key in the
  settings the credential decrypts with the re-wrapped data key, and, with the old key kept as the previous one, also with
  the data key of a row that is not re-wrapped yet.\<close>

theorem rotation_keeps_credentials:
  assumes "aead_ok c" "rejects_other_keys c" "\<And>i. length (fresh i) = GCM_NONCE_BYTES" "length nonce = GCM_NONCE_BYTES"
    and "get_encryption_key ks = Inr old" "get_encryption_key (rotated ks new_key) = Inr new" "old \<noteq> new"
    and "find_user db uid = Some user" "u_encrypted_dek user = Some (seal c old n0 dek)" "length n0 = GCM_NONCE_BYTES"
    and "utf8_ok p" "encrypt_credential_for_user c ks LocalKMS user nonce p = Some ct"
    and "rotate_master_key c (encryption_key ks) new_key fresh db = Some (count, db')"
  shows "(\<exists>user'. find_user db' uid = Some user' \<and> decrypt_credential_for_user c (rotated ks new_key) LocalKMS user' ct = Some p) \<and>
    decrypt_credential_for_user c (rotated ks new_key) LocalKMS user ct = Some p"
proof -
  have keys: "aes_key old" "b64_decode (encryption_key ks) = Some old" "aes_key new" "b64_decode new_key = Some new"
    using key_is_32 [OF assms(5)] key_is_32 [OF assms(6)] by (simp_all add: rotated_def)
  have ct: "ct = seal c dek nonce p" "aes_key dek"
    using assms(12) unwrap_current [OF assms(1,5,10)] seal_not_empty [OF assms(10)]
    by (auto simp: encrypt_credential_for_user_def encrypt_for_dek_def assms(9) split: if_splits)
  have raw: "b64_decode (seal c old n0 dek) = Some (n0 @ gcm_encrypt c old n0 dek)" "open_raw c old (n0 @ gcm_encrypt c old n0 dek) = Some dek"
    using assms(1,10) keys by (simp_all add: seal_decode open_raw_seal)
  obtain us where us: "rewrap_all c old new fresh 0 (db_users db) = Some (count, us)" "db' = db\<lparr>db_users := us\<rparr>"
    using assms(13) keys by (auto simp: rotate_master_key_def)
  obtain user' i where u': "find_user db' uid = Some user'" "u_encrypted_dek user' = Some (seal c new (fresh i) dek)"
    using rewrap_all_find [OF us(1), of uid user] assms(8,9) raw us(2) by (auto simp: find_user_def)
  have "decrypt_credential_for_user c (rotated ks new_key) LocalKMS user' ct = Some p"
    unfolding decrypt_credential_for_user_def u'(2) ct(1)
    by (rule decrypt_with_dek [OF assms(1,4,11) seal_not_empty [OF assms(3)] unwrap_current [OF assms(1,6,3)] ct(2)])
  moreover have "decrypt_credential_for_user c (rotated ks new_key) LocalKMS user ct = Some p"
    unfolding decrypt_credential_for_user_def assms(9) ct(1)
    by (rule decrypt_with_dek [OF assms(1,4,11) seal_not_empty [OF assms(10)] unwrap_previous [OF assms(2,5,6,7)] ct(2)])
      (use raw assms(10) in auto)
  ultimately show ?thesis using u'(1) by blast
qed

text \<open>What was encrypted with the master key itself is not re-encrypted: credentials of users without a data key, and the
  secrets of webhooks. Once the new key is in the settings they cannot be read, the previous key notwithstanding.\<close>

theorem rotation_loses_legacy_credentials:
  assumes "rejects_other_keys c" "length nonce = GCM_NONCE_BYTES"
    and "get_encryption_key ks = Inr old" "get_encryption_key (rotated ks new_key) = Inr new" "old \<noteq> new"
    and "\<not> has_dek user" "encrypt_credential_for_user c ks LocalKMS user nonce p = Some ct" "fernet_decrypt c new_key ct = None"
  shows "decrypt_credential_for_user c (rotated ks new_key) LocalKMS user ct = None"
proof -
  have ct: "ct = seal c old nonce p"
    using assms(3,6,7) by (auto simp: encrypt_credential_for_user_def encrypt_for_dek_def has_dek_def encrypt_credential_def split: option.splits if_splits)
  have "open_raw c new (nonce @ gcm_encrypt c old nonce p) = None"
    using assms key_is_32 [OF assms(3)] key_is_32 [OF assms(4)] by (simp add: open_raw_def rejects_other_keys_def)
  then have "decrypt_credential c (rotated ks new_key) ct = None"
    using assms(4,8) by (simp add: decrypt_credential_def ct seal_decode rotated_def)
  then show ?thesis
    using assms(6) by (auto simp: decrypt_credential_for_user_def decrypt_for_dek_def has_dek_def split: option.splits)
qed


text \<open>Two keys, a user with a data key, and one without.\<close>

definition sample_ks :: key_settings where
  "sample_ks = \<lparr>encryption_key = b64_encode (replicate 32 (CHR ''a'')), encryption_key_previous = None, encryption_key_version = 1\<rparr>"

definition sample_nonce :: string where "sample_nonce = replicate 12 (CHR ''n'')"
definition sample_dek :: string where "sample_dek = replicate 32 (CHR ''d'')"

lemma sample_key_facts [simp]:
  "length sample_nonce = GCM_NONCE_BYTES" "get_encryption_key sample_ks = Inr (replicate 32 (CHR ''a''))"
  "get_encryption_key (rotated sample_ks (b64_encode (replicate 32 (CHR ''b'')))) = Inr (replicate 32 (CHR ''b''))"
  "aes_key sample_dek" "utf8_ok ''pw''"
  by (simp_all add: sample_nonce_def GCM_NONCE_BYTES_def sample_ks_def rotated_def get_encryption_key_def aes_key_def sample_dek_def byte_in_def)

definition rotation_db :: app_db where
  "rotation_db = empty_db\<lparr>db_users := [sample_user 1 (Some (seal sample_ciphers (replicate 32 (CHR ''a'')) sample_nonce sample_dek))]\<rparr>"

theorem rotation_keeps_credentials_witness:
  "\<exists>user ct count db'. rotate_master_key sample_ciphers (encryption_key sample_ks) (b64_encode (replicate 32 (CHR ''b''))) (\<lambda>_. sample_nonce) rotation_db = Some (count, db') \<and>
     encrypt_credential_for_user sample_ciphers sample_ks LocalKMS user sample_nonce ''pw'' = Some ct \<and>
     (\<exists>user'. find_user db' 1 = Some user' \<and>
        decrypt_credential_for_user sample_ciphers (rotated sample_ks (b64_encode (replicate 32 (CHR ''b'')))) LocalKMS user' ct = Some ''pw'') \<and>
     decrypt_credential_for_user sample_ciphers (rotated sample_ks (b64_encode (replicate 32 (CHR ''b'')))) LocalKMS user ct = Some ''pw''"
proof -
  let ?old = "replicate 32 (CHR ''a'')" and ?new = "replicate 32 (CHR ''b'')"
  let ?u = "sample_user 1 (Some (seal sample_ciphers ?old sample_nonce sample_dek))"
  have keys: "aes_key ?old" "aes_key ?new" by (simp_all add: aes_key_def)
  have d: "u_encrypted_dek ?u = Some (seal sample_ciphers ?old sample_nonce sample_dek)" by (simp add: sample_user_def)
  have u: "find_user rotation_db 1 = Some ?u" by (simp add: find_user_def rotation_db_def empty_db_def sample_user_def)
  obtain count db' where r: "rotate_master_key sample_ciphers (encryption_key sample_ks) (b64_encode ?new) (\<lambda>_. sample_nonce) rotation_db = Some (count, db')"
    using open_raw_seal [OF sample_ciphers_ok(1) keys(1), of sample_nonce sample_dek] keys
    by (simp add: rotate_master_key_def sample_ks_def rotation_db_def empty_db_def sample_user_def seal_decode)
  obtain ct where e: "encrypt_credential_for_user sample_ciphers sample_ks LocalKMS ?u sample_nonce ''pw'' = Some ct"
    using seal_not_empty [of sample_nonce sample_ciphers ?old sample_dek]
      unwrap_current [OF sample_ciphers_ok(1) sample_key_facts(2,1), of sample_dek]
    by (simp add: encrypt_credential_for_user_def encrypt_for_dek_def d)
  show ?thesis
    using r e rotation_keeps_credentials [OF sample_ciphers_ok(1,3) sample_key_facts(1,1,2,3) _ u d sample_key_facts(1,5) e r] by auto
qed

theorem rotation_loses_legacy_credentials_witness:
  "decrypt_credential_for_user sample_ciphers (rotated sample_ks (b64_encode (replicate 32 (CHR ''b'')))) LocalKMS (sample_user 1 None)
     (seal sample_ciphers (replicate 32 (CHR ''a'')) sample_nonce ''pw'') = None"
  by (rule rotation_loses_legacy_credentials [OF sample_ciphers_ok(3) sample_key_facts(1,2,3), where p = "''pw''"])
    (simp_all add: has_dek_def sample_user_def encrypt_credential_for_user_def encrypt_for_dek_def encrypt_credential_def, simp add: sample_ciphers_def)

section \<open>The re-encryption job\<close>

text \<open>A stale token the job can process: its owner has a data key that unwraps, and both credentials decrypt.\<close>

definition processable :: "ciphers \<Rightarrow> key_settings \<Rightarrow> kms \<Rightarrow> user_row list \<Rightarrow> token_row \<Rightarrow> bool" where
  "processable c ks provider users t \<longleftrightarrow>
     (case find (\<lambda>u. u_id u = at_user_id t) users of
        None \<Rightarrow> False
      | Some user \<Rightarrow> has_dek user \<and>
          (\<exists>dek. unwrap_dek c ks provider (the (u_encrypted_dek user)) = Some dek \<and> aes_key dek) \<and>
          (\<exists>p. utf8_ok p \<and> decrypt_credential_for_user c ks provider user (at_username_encrypted t) = Some p) \<and>
          (\<exists>p. utf8_ok p \<and> decrypt_credential_for_user c ks provider user (at_password_encrypted t) = Some p))"

text \<open>The credentials a token stands for.\<close>

definition plain_credentials :: "ciphers \<Rightarrow> key_settings \<Rightarrow> kms \<Rightarrow> user_row list \<Rightarrow> token_row \<Rightarrow> string \<times> string option \<times> string option" where
  "plain_credentials c ks provider users t =
     (at_token t,
      Option.bind (find (\<lambda>u. u_id u = at_user_id t) users) (\<lambda>u. decrypt_credential_for_user c ks provider u (at_username_encrypted t)),
      Option.bind (find (\<lambda>u. u_id u = at_user_id t) users) (\<lambda>u. decrypt_credential_for_user c ks provider u (at_password_encrypted t)))"

lemma re_encrypt_one_spec:
  assumes "aead_ok c" "tagged c" "length n1 = GCM_NONCE_BYTES" "length n2 = GCM_NONCE_BYTES" "processable c ks provider (db_users db) t"
  shows "\<exists>t'. re_encrypt_one now c ks provider (n1, n2) db t = Some t' \<and> at_key_version t' = encryption_key_version ks \<and>
    plain_credentials c ks provider (db_users db) t' = plain_credentials c ks provider (db_users db) t"
proof -
  obtain user dek p q where u: "find (\<lambda>u. u_id u = at_user_id t) (db_users db) = Some user" "has_dek user"
    "unwrap_dek c ks provider (the (u_encrypted_dek user)) = Some dek" "aes_key dek"
    "decrypt_credential_for_user c ks provider user (at_username_encrypted t) = Some p" "utf8_ok p"
    "decrypt_credential_for_user c ks provider user (at_password_encrypted t) = Some q" "utf8_ok q"
    using assms(5) by (auto simp: processable_def split: option.splits)
  obtain e1 e2 where e: "encrypt_credential_for_user c ks provider user n1 p = Some e1" "encrypt_credential_for_user c ks provider user n2 q = Some e2"
    using u(2-4) by (auto simp: encrypt_credential_for_user_def encrypt_for_dek_def has_dek_def split: option.splits)
  have "decrypt_credential_for_user c ks provider user e1 = Some p" "decrypt_credential_for_user c ks provider user e2 = Some q"
    using e u user_credential_decrypts [OF assms(1,2,3)] user_credential_decrypts [OF assms(1,2,4)]
    by (auto simp: encrypt_credential_for_user_def decrypt_credential_for_user_def)
  with u e show ?thesis
    by (simp add: re_encrypt_one_def find_user_def plain_credentials_def get_current_key_version_def)
qed

lemma re_encrypt_loop_progress:
  assumes "\<And>b t. t \<in> set ts \<Longrightarrow> stale v t \<Longrightarrow> \<exists>t'. f b t = Some t' \<and> \<not> stale v t' \<and> g t' = g t"
    and "re_encrypt_loop f v batch ts = (n, us)"
  shows "map g us = map g ts \<and> n = min batch (length (filter (stale v) ts)) \<and>
    length (filter (stale v) us) = length (filter (stale v) ts) - batch"
  using assms
proof (induction f v batch ts arbitrary: n us rule: re_encrypt_loop.induct)
  case (2 f v batch t ts)
  show ?case
  proof (cases "stale v t \<and> 0 < batch")
    case True
    then obtain t' where t': "f batch t = Some t'" "\<not> stale v t'" "g t' = g t" using "2.prems"(1) by fastforce
    obtain m ws where r: "re_encrypt_loop f v (batch - 1) ts = (m, ws)" by fastforce
    have "map g ws = map g ts \<and> m = min (batch - 1) (length (filter (stale v) ts)) \<and> length (filter (stale v) ws) = length (filter (stale v) ts) - (batch - 1)"
      using "2.IH"(2) [OF _ t'(1) _ r] "2.prems"(1) True by auto
    then show ?thesis using True t' r "2.prems"(2) by auto
  next
    case False
    obtain m ws where r: "re_encrypt_loop f v batch ts = (m, ws)" by fastforce
    have "map g ws = map g ts \<and> m = min batch (length (filter (stale v) ts)) \<and> length (filter (stale v) ws) = length (filter (stale v) ts) - batch"
      using "2.IH"(3) [OF _ _ r] "2.prems"(1) False by auto
    then show ?thesis using False r "2.prems"(2) by auto
  qed
qed simp


text \<open>The job, run every interval; \<open>fresh k i\<close>: the nonces of run \<open>k\<close>.\<close>

fun re_encrypt_runs :: "(nat \<Rightarrow> time) \<Rightarrow> ciphers \<Rightarrow> key_settings \<Rightarrow> kms \<Rightarrow> (nat \<Rightarrow> nat \<Rightarrow> string \<times> string) \<Rightarrow> nat \<Rightarrow> nat \<Rightarrow> app_db \<Rightarrow> app_db" where
  "re_encrypt_runs clock c ks provider fresh batch 0 db = db"
| "re_encrypt_runs clock c ks provider fresh batch (Suc k) db =
     re_encrypt_runs clock c ks provider fresh batch k (snd (re_encrypt_tokens (clock k) c ks provider (fresh k) batch db))"

lemma plain_eq_processable:
  "plain_credentials c ks provider users t = plain_credentials c ks provider users t' \<Longrightarrow>
   find (\<lambda>u. u_id u = at_user_id t) users = find (\<lambda>u. u_id u = at_user_id t') users \<Longrightarrow>
   processable c ks provider users t \<longleftrightarrow> processable c ks provider users t'"
  by (auto simp: plain_credentials_def processable_def split: option.splits)

lemma re_encrypt_tokens_progress:
  assumes "aead_ok c" "tagged c" "\<And>i. length (fst (fresh i)) = GCM_NONCE_BYTES \<and> length (snd (fresh i)) = GCM_NONCE_BYTES"
    and "\<And>t. t \<in> set (db_access_tokens db) \<Longrightarrow> stale (encryption_key_version ks) t \<Longrightarrow> processable c ks provider (db_users db) t"
  shows "let db' = snd (re_encrypt_tokens now c ks provider fresh batch db)
    in db_users db' = db_users db \<and>
       map (plain_credentials c ks provider (db_users db)) (db_access_tokens db') = map (plain_credentials c ks provider (db_users db)) (db_access_tokens db) \<and>
       length (filter (stale (encryption_key_version ks)) (db_access_tokens db')) =
         length (filter (stale (encryption_key_version ks)) (db_access_tokens db)) - batch"
proof -
  let ?v = "encryption_key_version ks"
  obtain n us where r: "re_encrypt_loop (\<lambda>i. re_encrypt_one now c ks provider (fresh i) db) ?v batch (db_access_tokens db) = (n, us)" by fastforce
  have step: "\<exists>t'. re_encrypt_one now c ks provider (fresh b) db t = Some t' \<and> \<not> stale ?v t' \<and>
      plain_credentials c ks provider (db_users db) t' = plain_credentials c ks provider (db_users db) t"
    if "t \<in> set (db_access_tokens db)" "stale ?v t" for b t
    using re_encrypt_one_spec [OF assms(1,2), of "fst (fresh b)" "snd (fresh b)" ks provider db t now] assms(3) [of b] assms(4) [OF that]
    by (auto simp: stale_def)
  from re_encrypt_loop_progress [where g = "plain_credentials c ks provider (db_users db)", OF step r]
  show ?thesis by (simp add: re_encrypt_tokens_def get_current_key_version_def r Let_def)
qed

lemma re_encrypt_loop_sub:
  assumes "re_encrypt_loop f v batch ts = (n, us)" "u \<in> set us" "stale v u" "\<And>b t t'. f b t = Some t' \<Longrightarrow> \<not> stale v t'"
  shows "u \<in> set ts"
  using assms
proof (induction f v batch ts arbitrary: n us rule: re_encrypt_loop.induct)
  case (2 f v batch t ts)
  let ?b = "if stale v t \<and> 0 < batch then batch - 1 else batch"
  obtain m ws where r: "re_encrypt_loop f v ?b ts = (m, ws)" by fastforce
  have us: "us = t # ws \<or> (\<exists>t'. f batch t = Some t' \<and> us = t' # ws)"
    using "2.prems"(1) r by (auto split: if_splits option.splits)
  have ih: "u \<in> set ws \<Longrightarrow> u \<in> set ts"
    using "2.IH" "2.prems"(3,4) r by (cases "stale v t \<and> 0 < batch"; cases "f batch t") auto
  from us ih "2.prems"(2-4) show ?case by auto
qed simp


text \<open>A stale token that cannot be processed keeps its place at the head of the batch: \<open>batch\<close> such rows stop the job for good,
  whatever comes after them.\<close>

theorem reencryption_starves:
  assumes "db_access_tokens db = ts @ rest" "length (filter (stale (encryption_key_version ks)) ts) = batch"
    and "\<And>t. t \<in> set ts \<Longrightarrow> find_user db (at_user_id t) = None \<or> \<not> has_dek (the (find_user db (at_user_id t)))"
  shows "re_encrypt_tokens now c ks provider fresh batch db = (0, db)"
proof -
  have skip: "re_encrypt_one now c ks provider nn db t = None" if "t \<in> set ts" for nn t
    using assms(3) [OF that] by (auto simp: re_encrypt_one_def split: option.splits)
  have rest: "re_encrypt_loop f v 0 xs = (0, xs)" for f v xs by (induction xs) (auto simp: stale_def)
  have "re_encrypt_loop f v b (xs @ rest) = (0, xs @ rest)"
    if "length (filter (stale v) xs) = b" "\<And>i t. t \<in> set xs \<Longrightarrow> f i t = None" for f v b xs
    using that by (induction xs arbitrary: b) (auto simp: rest)
  from this [OF assms(2)] skip show ?thesis
    by (simp add: re_encrypt_tokens_def get_current_key_version_def assms(1))
qed

definition stale_db :: app_db where
  "stale_db = empty_db\<lparr>db_users := [sample_user 1 (Some (seal sample_ciphers (replicate 32 (CHR ''a'')) sample_nonce sample_dek))],
     db_access_tokens := [(sample_token 1)\<lparr>at_username_encrypted := seal sample_ciphers sample_dek sample_nonce ''pw'',
       at_password_encrypted := seal sample_ciphers sample_dek sample_nonce ''pw'', at_key_version := 0\<rparr>]\<rparr>"

lemma stale_db_processable:
  assumes "t \<in> set (db_access_tokens stale_db)"
  shows "processable sample_ciphers sample_ks LocalKMS (db_users stale_db) t"
proof -
  have k: "aes_key (replicate 32 (CHR ''a''))" "aes_key sample_dek" by (simp_all add: aes_key_def sample_dek_def)
  have u: "unwrap_dek sample_ciphers sample_ks LocalKMS (seal sample_ciphers (replicate 32 (CHR ''a'')) sample_nonce sample_dek) = Some sample_dek"
    by (rule unwrap_current [OF sample_ciphers_ok(1) sample_key_facts(2,1)])
  have ne: "seal sample_ciphers (replicate 32 (CHR ''a'')) sample_nonce sample_dek \<noteq> ''''" by (simp add: seal_not_empty)
  have d: "decrypt_for_dek sample_ciphers sample_ks LocalKMS (Some (seal sample_ciphers (replicate 32 (CHR ''a'')) sample_nonce sample_dek))
      (seal sample_ciphers sample_dek sample_nonce ''pw'') = Some ''pw''"
    by (rule decrypt_with_dek [OF sample_ciphers_ok(1) sample_key_facts(1,5) ne u k(2)])
  show ?thesis
    unfolding processable_def using assms u d k ne
    by (auto simp: stale_db_def empty_db_def sample_user_def sample_token_def has_dek_def decrypt_credential_for_user_def byte_in_def
        intro: exI [of _ "''pw''"] sample_key_facts(5))
qed


theorem reencryption_starves_witness:
  "re_encrypt_tokens 0 sample_ciphers (sample_ks\<lparr>encryption_key_version := 2\<rparr>) LocalKMS (\<lambda>_. (sample_nonce, sample_nonce)) 1 sample_db = (0, sample_db)"
  by (rule reencryption_starves [of _ "[sample_token 1]" "[sample_token 2]"])
    (simp_all add: sample_db_def empty_db_def sample_token_def stale_def sample_ks_def find_user_def sample_user_def has_dek_def)

end
