(* ===== verification/Access_Control.thy ===== *)
theory Access_Control imports Database Py_Text begin

text \<open>
  Who may do what: \<^verbatim>\<open>src/dependencies.py\<close> (authentication by JWT or API key, the scope and site constraints of the
  principal), \<^verbatim>\<open>src/routers/api_keys.py\<close> and \<^verbatim>\<open>src/routers/agents.py\<close>.

  A set of names is a list without duplicates. A JSON column is a \<^typ>\<open>json_text\<close>: \<open>Encoded v\<close> for a text that
  \<^verbatim>\<open>json.loads\<close> reads as \<open>v\<close>, \<open>RawText\<close> for one it does not read. \<open>sha\<close> is SHA-256, \<open>jwt_decode\<close> the PyJWT
  library, \<open>rep\<close> the \<^verbatim>\<open>repr\<close> of floats and containers. An exception that no handler maps is the 500 response of the server.
  The creation times of keys and agents, which the program only prints in its listings, are left out of rows and listings.
\<close>

definition server_error :: http_error where
  "server_error = HTTPException 500 ''Internal Server Error''"

section \<open>Scopes and sites\<close>

definition normalize_scope_name :: "string \<Rightarrow> string" where
  "normalize_scope_name scope =
     (let value = py_strip scope;
          value = (if CHR '':'' \<in> set value then after_first (CHR '':'') value else value)
      in py_strip value)"

text \<open>The element of a collection of distinct names; empty names are dropped.\<close>

definition name_set :: "(json \<Rightarrow> string) \<Rightarrow> json list \<Rightarrow> string list" where
  "name_set f vs = remdups (filter (\<lambda>s. s \<noteq> '''') (map f vs))"

definition scope_names :: "(json \<Rightarrow> string) \<Rightarrow> json list \<Rightarrow> string list" where
  "scope_names rep vs = name_set (\<lambda>v. normalize_scope_name (py_str rep v)) vs"

definition load_scope_set :: "(json \<Rightarrow> string) \<Rightarrow> json_text option \<Rightarrow> string list option" where
  "load_scope_set rep scopes_json =
     (case scopes_json of
        Some (Encoded (JList values)) \<Rightarrow> Some (scope_names rep values)
      | _ \<Rightarrow> None)"

definition load_site_set :: "(json \<Rightarrow> string) \<Rightarrow> json_text option \<Rightarrow> string list option" where
  "load_site_set rep sites_json =
     (case sites_json of
        Some (Encoded (JList values)) \<Rightarrow> Some (name_set (\<lambda>v. py_lower (py_strip (py_str rep v))) values)
      | _ \<Rightarrow> None)"

definition inter_names :: "string list \<Rightarrow> string list \<Rightarrow> string list" where
  "inter_names xs ys = filter (\<lambda>x. x \<in> set ys) xs"

definition combine_scope_sets :: "string list option \<Rightarrow> string list option \<Rightarrow> string list option" where
  "combine_scope_sets left right =
     (case left of None \<Rightarrow> right | Some l \<Rightarrow> (case right of None \<Rightarrow> Some l | Some r \<Rightarrow> Some (inter_names l r)))"

record auth_context =
  ac_user :: int
  ac_auth_method :: string
  ac_api_key_id :: "string option"
  ac_agent_id :: "string option"
  ac_allowed_scopes :: "string list option"
  ac_allowed_sites :: "string list option"

definition get_principal_allowed_scopes :: "auth_context option \<Rightarrow> string list option" where
  "get_principal_allowed_scopes ctx = (case ctx of None \<Rightarrow> None | Some a \<Rightarrow> ac_allowed_scopes a)"

definition ensure_site_allowed_for_request :: "auth_context option \<Rightarrow> string \<Rightarrow> http_error + auth_context option" where
  "ensure_site_allowed_for_request ctx site =
     (case ctx of
        None \<Rightarrow> Inr None
      | Some a \<Rightarrow>
          case ac_allowed_sites a of
            None \<Rightarrow> Inr (Some a)
          | Some sites \<Rightarrow>
              if py_lower (py_strip site) \<notin> set sites
              then Inl (HTTPException 403 ''This API key or agent is not allowed to access the requested site.'')
              else Inr (Some a))"

text \<open>The requested scopes are any JSON value of a request body; \<open>JNull\<close> is \<open>None\<close>.\<close>

definition constrain_requested_scopes :: "(json \<Rightarrow> string) \<Rightarrow> auth_context option \<Rightarrow> json \<Rightarrow> http_error + json" where
  "constrain_requested_scopes rep ctx requested =
     (case get_principal_allowed_scopes ctx of
        None \<Rightarrow> Inr requested
      | Some allowed \<Rightarrow>
          if requested = JNull then Inr (JList (map JStr (sort_str allowed)))
          else (case json_iter requested of
                  None \<Rightarrow> Inl server_error
                | Some scopes \<Rightarrow>
                    let requested_set = scope_names rep scopes
                    in if filter (\<lambda>s. s \<notin> set allowed) requested_set \<noteq> []
                       then Inl (HTTPException 403 ''Requested scopes exceed API key or agent permissions.'')
                       else Inr (JList (map JStr (sort_str requested_set)))))"

section \<open>Authentication\<close>

datatype jwt_result = JwtExpired | JwtInvalid | JwtPayload "(string, json) dict"

definition get_current_user :: "(string \<Rightarrow> jwt_result) \<Rightarrow> string \<Rightarrow> app_db \<Rightarrow> http_error + user_row" where
  "get_current_user jwt_decode token db =
     (case jwt_decode token of
        JwtExpired \<Rightarrow> Inl (HTTPException 401 ''Token has expired.'')
      | JwtInvalid \<Rightarrow> Inl (HTTPException 401 ''Invalid authentication credentials.'')
      | JwtPayload payload \<Rightarrow>
          if jget payload ''sub'' = JNull then Inl (HTTPException 401 ''Invalid or expired token.'')
          else (case json_int (jget payload ''sub'') of
                  None \<Rightarrow> Inl server_error
                | Some uid \<Rightarrow>
                    (case find_user db uid of
                       None \<Rightarrow> Inl (HTTPException 401 ''User not found.'')
                     | Some user \<Rightarrow> Inr user)))"

definition get_admin_user :: "user_row \<Rightarrow> http_error + user_row" where
  "get_admin_user user =
     (if \<not> u_is_admin user then Inl (HTTPException 403 ''Administrator access required.'') else Inr user)"

text \<open>The branch of an \<open>X-API-Key\<close> header. Nothing is committed on an error.\<close>

definition api_key_user :: "(string \<Rightarrow> string) \<Rightarrow> (json \<Rightarrow> string) \<Rightarrow> time \<Rightarrow> string \<Rightarrow> app_db \<Rightarrow> (http_error + user_row \<times> auth_context) \<times> app_db" where
  "api_key_user sha rep now api_key db =
     (case find (\<lambda>k. ak_key_hash k = sha api_key \<and> ak_is_active k) (db_api_keys db) of
        None \<Rightarrow> (Inl (HTTPException 401 ''Invalid API key.''), db)
      | Some key \<Rightarrow>
          if (case ak_expires_at key of None \<Rightarrow> False | Some e \<Rightarrow> now > e)
          then (Inl (HTTPException 401 ''API key has expired.''), db)
          else
            let agent = find (\<lambda>a. ag_api_key_id a = Some (ak_id key)) (db_agents db)
            in if (case agent of None \<Rightarrow> False | Some a \<Rightarrow> \<not> ag_is_active a)
               then (Inl (HTTPException 401 ''Agent is inactive.''), db)
               else (case find_user db (ak_user_id key) of
                       None \<Rightarrow> (Inl (HTTPException 401 ''API key owner not found.''), db)
                     | Some user \<Rightarrow>
                         (Inr (user,
                            \<lparr>ac_user = u_id user, ac_auth_method = ''api_key'', ac_api_key_id = Some (ak_id key),
                             ac_agent_id = map_option ag_id agent,
                             ac_allowed_scopes = combine_scope_sets (load_scope_set rep (ak_scopes key))
                               (case agent of None \<Rightarrow> None | Some a \<Rightarrow> load_scope_set rep (ag_allowed_scopes a)),
                             ac_allowed_sites = (case agent of None \<Rightarrow> None | Some a \<Rightarrow> load_site_set rep (ag_allowed_sites a))\<rparr>),
                          db\<lparr>db_api_keys := update_where (\<lambda>k. ak_id k = ak_id key) (\<lambda>k. k\<lparr>ak_last_used_at := Some now\<rparr>) (db_api_keys db),
                             db_agents := (case agent of None \<Rightarrow> db_agents db
                               | Some a \<Rightarrow> update_where (\<lambda>x. ag_id x = ag_id a) (\<lambda>x. x\<lparr>ag_last_active_at := Some now\<rparr>) (db_agents db))\<rparr>)))"


definition bearer_user :: "(string \<Rightarrow> jwt_result) \<Rightarrow> (string, string) dict \<Rightarrow> app_db \<Rightarrow> (http_error + user_row \<times> auth_context) \<times> app_db" where
  "bearer_user jwt_decode headers db =
     (let auth_header = (case map_of headers ''authorization'' of None \<Rightarrow> '''' | Some h \<Rightarrow> h)
      in if \<not> starts_with ''Bearer '' auth_header then (Inl (HTTPException 401 ''Missing authentication.''), db)
         else (case get_current_user jwt_decode (drop 7 auth_header) db of
                 Inl e \<Rightarrow> (Inl e, db)
               | Inr user \<Rightarrow>
                   (Inr (user, \<lparr>ac_user = u_id user, ac_auth_method = ''jwt'', ac_api_key_id = None, ac_agent_id = None,
                      ac_allowed_scopes = None, ac_allowed_sites = None\<rparr>), db)))"

definition get_current_user_or_api_key ::
  "(string \<Rightarrow> string) \<Rightarrow> (json \<Rightarrow> string) \<Rightarrow> (string \<Rightarrow> jwt_result) \<Rightarrow> time \<Rightarrow> (string, string) dict \<Rightarrow> app_db \<Rightarrow>
   (http_error + user_row \<times> auth_context) \<times> app_db" where
  "get_current_user_or_api_key sha rep jwt_decode now headers db =
     (case map_of headers ''x-api-key'' of
        Some api_key \<Rightarrow>
          if api_key \<noteq> '''' then api_key_user sha rep now api_key db else bearer_user jwt_decode headers db
      | None \<Rightarrow> bearer_user jwt_decode headers db)"

section \<open>The environment of a request handler\<close>

text \<open>What a handler uses and the repository does not define: SHA-256, \<^verbatim>\<open>repr\<close>, the text \<^verbatim>\<open>json.dumps\<close> writes, how
  \<^verbatim>\<open>json.loads\<close> reads a text, the ISO format, the clock, and the id and time of an audit row.\<close>

record api_env =
  en_sha :: "string \<Rightarrow> string"
  en_rep :: "json \<Rightarrow> string"
  en_dumps :: "json \<Rightarrow> string"
  en_parse :: "string \<Rightarrow> json_text"
  en_isoformat :: "time \<Rightarrow> string"
  en_now :: time
  en_audit_id :: int
  en_audit_ts :: string

type_synonym 'a reply = "(http_error + 'a) \<times> app_db"

definition audited :: "api_env \<Rightarrow> string \<Rightarrow> string \<Rightarrow> int option \<Rightarrow> string option \<Rightarrow> (string, json) dict \<Rightarrow> string option \<Rightarrow> app_db \<Rightarrow> app_db" where
  "audited env event_type action user_id resource metadata ip_address db =
     db\<lparr>db_audit := record_audit_event (en_sha env) (en_audit_id env) (en_audit_ts env)
       \<lparr>ev_event_type = event_type, ev_action = action, ev_user_id = user_id, ev_agent_id = None, ev_resource = resource,
        ev_metadata_json = (if metadata = [] then None else Some (en_dumps env (JObj metadata))), ev_ip_address = ip_address\<rparr> (db_audit db)\<rparr>"

text \<open>A value of a request body stored in a text column: \<open>None\<close> is the driver's refusal of a value that is no text.\<close>

fun column_text :: "json \<Rightarrow> string option option" where
  "column_text JNull = Some None"
| "column_text (JStr s) = Some (Some s)"
| "column_text _ = None"

definition required_text :: "json \<Rightarrow> string option" where
  "required_text v = (case column_text v of Some (Some s) \<Rightarrow> Some s | _ \<Rightarrow> None)"

definition jget_default :: "(string, json) dict \<Rightarrow> string \<Rightarrow> json \<Rightarrow> json" where
  "jget_default d k v = (case map_of d k of None \<Rightarrow> v | Some x \<Rightarrow> x)"

definition iso_or_null :: "api_env \<Rightarrow> time option \<Rightarrow> json" where
  "iso_or_null env t = (case t of None \<Rightarrow> JNull | Some t \<Rightarrow> JStr (en_isoformat env t))"

section \<open>API keys\<close>

text \<open>\<open>body["scopes"]\<close> goes into the column as it is: only a text can be stored.\<close>

definition create_api_key :: "api_env \<Rightarrow> string \<Rightarrow> string \<Rightarrow> int \<Rightarrow> (string, json) dict \<Rightarrow> app_db \<Rightarrow> (string, json) dict reply" where
  "create_api_key env key_id random uid body db =
     (let raw_key = ''pk_'' @ random;
          expires = (if truthy (jget body ''expires_days'') then map_option (\<lambda>d. Some (en_now env + 86400 * of_int d)) (json_int (jget body ''expires_days''))
                     else Some None)
      in case (expires, required_text (jget_default body ''name'' (JStr ''default'')), column_text (jget body ''scopes'')) of
           (Some expires_at, Some name, Some scopes) \<Rightarrow>
             (Inr [(''id'', JStr key_id), (''name'', JStr name), (''key'', JStr raw_key), (''key_prefix'', JStr (take 12 raw_key)),
                (''expires_at'', iso_or_null env expires_at), (''created_at'', JStr (en_isoformat env (en_now env)))],
              db\<lparr>db_api_keys := db_api_keys db @ [\<lparr>ak_id = key_id, ak_name = name, ak_key_hash = en_sha env raw_key,
                ak_key_prefix = take 12 raw_key, ak_user_id = uid, ak_scopes = map_option (en_parse env) scopes, ak_is_active = True,
                ak_expires_at = expires_at, ak_last_used_at = None\<rparr>]\<rparr>)
         | _ \<Rightarrow> (Inl server_error, db))"

fun json_column :: "json_text option \<Rightarrow> json" where
  "json_column None = JNull"
| "json_column (Some (Encoded v)) = v"
| "json_column (Some (RawText s)) = JStr s"

definition list_api_keys :: "api_env \<Rightarrow> int \<Rightarrow> app_db \<Rightarrow> json" where
  "list_api_keys env uid db =
     JList (map (\<lambda>k. JObj [(''id'', JStr (ak_id k)), (''name'', JStr (ak_name k)), (''key_prefix'', JStr (ak_key_prefix k)),
         (''scopes'', (case ak_scopes k of None \<Rightarrow> JNull | Some (RawText s) \<Rightarrow> JStr s | Some (Encoded v) \<Rightarrow> JStr (en_dumps env v))),
         (''expires_at'', iso_or_null env (ak_expires_at k)), (''last_used_at'', iso_or_null env (ak_last_used_at k))])
       (filter (\<lambda>k. ak_user_id k = uid \<and> ak_is_active k) (db_api_keys db)))"

definition revoke_api_key :: "string \<Rightarrow> int \<Rightarrow> app_db \<Rightarrow> (string, json) dict reply" where
  "revoke_api_key key_id uid db =
     (case find (\<lambda>k. ak_id k = key_id \<and> ak_user_id k = uid) (db_api_keys db) of
        None \<Rightarrow> (Inl (HTTPException 404 ''API key not found.''), db)
      | Some key \<Rightarrow>
          (Inr [(''status'', JStr ''revoked''), (''key_id'', JStr key_id)],
           db\<lparr>db_api_keys := update_where (\<lambda>k. ak_id k = key_id) (\<lambda>k. k\<lparr>ak_is_active := False\<rparr>) (db_api_keys db)\<rparr>))"

section \<open>Agents\<close>

text \<open>A falsy list is stored as no restriction.\<close>

definition restriction :: "json \<Rightarrow> json_text option" where
  "restriction v = (if truthy v then Some (Encoded v) else None)"

definition register_agent :: "api_env \<Rightarrow> string \<Rightarrow> string \<Rightarrow> string \<Rightarrow> int \<Rightarrow> (string, json) dict \<Rightarrow> app_db \<Rightarrow> (string, json) dict reply" where
  "register_agent env agent_uuid key_id random uid body db =
     (if \<not> truthy (jget body ''name'') then (Inl (HTTPException 422 (CHR 0x27 # ''name'' @ CHR 0x27 # '' is required.'')), db)
      else
        let agent_id = ''agent-'' @ agent_uuid; raw_key = ''pk_agent_'' @ random; key_prefix = take 16 raw_key
        in case (required_text (jget body ''name''), required_text (jget_default body ''description'' (JStr '''')), column_text (jget body ''rate_limit'')) of
             (Some name, Some description, Some rate_limit) \<Rightarrow>
               (Inr [(''agent_id'', JStr agent_id), (''name'', JStr name), (''api_key'', JStr raw_key), (''api_key_prefix'', JStr key_prefix),
                  (''allowed_scopes'', jget body ''allowed_scopes''), (''allowed_sites'', jget body ''allowed_sites'')],
                audited env ''agent'' ''register'' (Some uid) (Some agent_id) [(''name'', JStr name)] None
                 (db\<lparr>db_api_keys := db_api_keys db @ [\<lparr>ak_id = key_id, ak_name = ''Agent: '' @ name, ak_key_hash = en_sha env raw_key,
                       ak_key_prefix = key_prefix, ak_user_id = uid, ak_scopes = restriction (jget body ''allowed_scopes''), ak_is_active = True,
                       ak_expires_at = None, ak_last_used_at = None\<rparr>],
                     db_agents := db_agents db @ [\<lparr>ag_id = agent_id, ag_name = name, ag_description = description, ag_owner_id = uid,
                       ag_api_key_id = Some key_id, ag_allowed_scopes = restriction (jget body ''allowed_scopes''),
                       ag_allowed_sites = restriction (jget body ''allowed_sites''), ag_rate_limit = rate_limit, ag_is_active = True,
                       ag_last_active_at = None\<rparr>]\<rparr>))
           | _ \<Rightarrow> (Inl server_error, db))"

definition agent_json :: "api_env \<Rightarrow> agent_row \<Rightarrow> (string, json) dict" where
  "agent_json env a =
     [(''agent_id'', JStr (ag_id a)), (''name'', JStr (ag_name a)), (''description'', JStr (ag_description a)),
      (''allowed_scopes'', json_column (ag_allowed_scopes a)), (''allowed_sites'', json_column (ag_allowed_sites a)),
      (''rate_limit'', jopt (ag_rate_limit a)), (''last_active_at'', iso_or_null env (ag_last_active_at a))]"

definition list_agents :: "api_env \<Rightarrow> int \<Rightarrow> app_db \<Rightarrow> (string, json) dict" where
  "list_agents env uid db =
     (let agents = filter (\<lambda>a. ag_owner_id a = uid \<and> ag_is_active a) (db_agents db)
      in [(''agents'', JList (map (\<lambda>a. JObj (agent_json env a)) agents)), (''count'', JInt (int (length agents)))])"

definition owned_agent :: "string \<Rightarrow> int \<Rightarrow> app_db \<Rightarrow> agent_row option" where
  "owned_agent agent_id uid db = find (\<lambda>a. ag_id a = agent_id \<and> ag_owner_id a = uid) (db_agents db)"

definition get_agent :: "api_env \<Rightarrow> string \<Rightarrow> int \<Rightarrow> app_db \<Rightarrow> http_error + (string, json) dict" where
  "get_agent env agent_id uid db =
     (case owned_agent agent_id uid db of
        None \<Rightarrow> Inl (HTTPException 404 ''Agent not found.'')
      | Some a \<Rightarrow> Inr (agent_json env a @ [(''is_active'', JBool (ag_is_active a))]))"

definition patch_text :: "(string, json) dict \<Rightarrow> string \<Rightarrow> string \<Rightarrow> string option" where
  "patch_text body k old = (case map_of body k of None \<Rightarrow> Some old | Some v \<Rightarrow> required_text v)"

definition update_agent :: "api_env \<Rightarrow> string \<Rightarrow> int \<Rightarrow> (string, json) dict \<Rightarrow> app_db \<Rightarrow> (string, json) dict reply" where
  "update_agent env agent_id uid body db =
     (case owned_agent agent_id uid db of
        None \<Rightarrow> (Inl (HTTPException 404 ''Agent not found.''), db)
      | Some a \<Rightarrow>
          case (patch_text body ''name'' (ag_name a), patch_text body ''description'' (ag_description a),
                (case map_of body ''rate_limit'' of None \<Rightarrow> Some (ag_rate_limit a) | Some v \<Rightarrow> column_text v)) of
            (Some name, Some description, Some rate_limit) \<Rightarrow>
              (Inr [(''status'', JStr ''updated''), (''agent_id'', JStr agent_id)],
               audited env ''agent'' ''update'' (Some uid) (Some agent_id) [(''fields'', JList (map (\<lambda>(k, _). JStr k) body))] None
                 (db\<lparr>db_agents := update_where (\<lambda>x. ag_id x = agent_id)
                    (\<lambda>x. x\<lparr>ag_name := name, ag_description := description, ag_rate_limit := rate_limit,
                       ag_allowed_scopes := (case map_of body ''allowed_scopes'' of None \<Rightarrow> ag_allowed_scopes x | Some v \<Rightarrow> restriction v),
                       ag_allowed_sites := (case map_of body ''allowed_sites'' of None \<Rightarrow> ag_allowed_sites x | Some v \<Rightarrow> restriction v)\<rparr>) (db_agents db)\<rparr>))
          | _ \<Rightarrow> (Inl server_error, db))"

definition deactivate_agent :: "api_env \<Rightarrow> string \<Rightarrow> int \<Rightarrow> app_db \<Rightarrow> (string, json) dict reply" where
  "deactivate_agent env agent_id uid db =
     (case owned_agent agent_id uid db of
        None \<Rightarrow> (Inl (HTTPException 404 ''Agent not found.''), db)
      | Some a \<Rightarrow>
          (Inr [(''status'', JStr ''deactivated''), (''agent_id'', JStr agent_id)],
           audited env ''agent'' ''deactivate'' (Some uid) (Some agent_id) [] None
             (db\<lparr>db_agents := update_where (\<lambda>x. ag_id x = agent_id) (\<lambda>x. x\<lparr>ag_is_active := False\<rparr>) (db_agents db),
                db_api_keys := (case ag_api_key_id a of None \<Rightarrow> db_api_keys db
                  | Some k \<Rightarrow> if k = '''' then db_api_keys db
                      else update_where (\<lambda>x. ak_id x = k) (\<lambda>x. x\<lparr>ak_is_active := False\<rparr>) (db_api_keys db))\<rparr>)))"


section \<open>A key never grants more than it was given\<close>

lemma set_name_set: "set (name_set f vs) = f ` set vs - {''''}"
  by (auto simp: name_set_def)

lemma scope_names_sorted_idem: "set (sort_str xs) = set xs"
  by simp

lemma constrain_within:
  assumes "get_principal_allowed_scopes ctx = Some allowed" "constrain_requested_scopes rep ctx requested = Inr granted"
  shows "\<exists>gs. granted = JList (map JStr gs) \<and> set gs \<subseteq> set allowed"
  using assms
  by (auto simp: constrain_requested_scopes_def Let_def filter_empty_conv split: option.splits if_splits intro!: exI)

lemma combine_within:
  "combine_scope_sets l r = Some s \<Longrightarrow> (\<forall>x. l = Some x \<longrightarrow> set s \<subseteq> set x) \<and> (\<forall>x. r = Some x \<longrightarrow> set s \<subseteq> set x)"
  by (auto simp: combine_scope_sets_def inter_names_def split: option.splits)

lemma combine_None: "combine_scope_sets l r = None \<longleftrightarrow> l = None \<and> r = None"
  by (auto simp: combine_scope_sets_def split: option.splits)

text \<open>What a successful authentication by key establishes.\<close>

lemma api_key_user_cases:
  assumes "api_key_user sha rep now api_key db = (Inr (user, ctx), db')"
  obtains key where "find (\<lambda>k. ak_key_hash k = sha api_key \<and> ak_is_active k) (db_api_keys db) = Some key"
    and "\<forall>e. ak_expires_at key = Some e \<longrightarrow> now \<le> e" and "find_user db (ak_user_id key) = Some user"
    and "\<forall>a. find (\<lambda>a. ag_api_key_id a = Some (ak_id key)) (db_agents db) = Some a \<longrightarrow> ag_is_active a"
    and "ac_allowed_scopes ctx = combine_scope_sets (load_scope_set rep (ak_scopes key))
      (Option.bind (find (\<lambda>a. ag_api_key_id a = Some (ak_id key)) (db_agents db)) (\<lambda>a. load_scope_set rep (ag_allowed_scopes a)))"
    and "ac_allowed_sites ctx = Option.bind (find (\<lambda>a. ag_api_key_id a = Some (ak_id key)) (db_agents db)) (\<lambda>a. load_site_set rep (ag_allowed_sites a))"
  using assms
  by (fastforce simp: api_key_user_def Let_def split: option.splits if_splits)

definition scopes_within :: "(json \<Rightarrow> string) \<Rightarrow> json_text option \<Rightarrow> json \<Rightarrow> bool" where
  "scopes_within rep column granted \<longleftrightarrow>
     (\<forall>vs. column = Some (Encoded (JList vs)) \<longrightarrow> (\<exists>gs. granted = JList (map JStr gs) \<and> set gs \<subseteq> set (scope_names rep vs)))"


definition sample_key :: "json_text option \<Rightarrow> api_key_row" where
  "sample_key scopes = \<lparr>ak_id = ''k1'', ak_name = ''key'', ak_key_hash = ''pk_x'', ak_key_prefix = ''pk_x'', ak_user_id = 1, ak_scopes = scopes,
     ak_is_active = True, ak_expires_at = None, ak_last_used_at = None\<rparr>"

definition sample_agent :: agent_row where
  "sample_agent = \<lparr>ag_id = ''agent-1'', ag_name = ''a'', ag_description = '''', ag_owner_id = 1, ag_api_key_id = Some ''k1'',
     ag_allowed_scopes = Some (Encoded (JList [JStr ''bills''])), ag_allowed_sites = Some (Encoded (JList [JStr ''Bank''])), ag_rate_limit = None,
     ag_is_active = True, ag_last_active_at = None\<rparr>"

definition key_db :: app_db where
  "key_db = empty_db\<lparr>db_users := [sample_user 1 None], db_api_keys := [sample_key (Some (Encoded (JList [JStr ''read:balance'', JStr ''bills''])))],
     db_agents := [sample_agent]\<rparr>"

definition key_ctx :: auth_context where
  "key_ctx = \<lparr>ac_user = 1, ac_auth_method = ''api_key'', ac_api_key_id = Some ''k1'', ac_agent_id = Some ''agent-1'',
     ac_allowed_scopes = Some [''bills''], ac_allowed_sites = Some [''bank'']\<rparr>"

lemma normalize_samples [simp]:
  "normalize_scope_name ''bills'' = ''bills''" "normalize_scope_name ''read:balance'' = ''balance''" "py_lower (py_strip ''Bank'') = ''bank''"
  by code_simp+

lemma key_ctx_run: "fst (api_key_user (\<lambda>s. s) (\<lambda>_. '''') 5 ''pk_x'' key_db) = Inr (sample_user 1 None, key_ctx)"
  by (simp add: api_key_user_def key_db_def sample_agent_def empty_db_def sample_key_def key_ctx_def find_user_def sample_user_def load_scope_set_def
      load_site_set_def scope_names_def name_set_def combine_scope_sets_def inter_names_def)


section \<open>A text that is not a JSON list restricts nothing\<close>

lemma find_app_None: "find P xs = None \<Longrightarrow> find P (xs @ ys) = find P ys"
  by (induction xs) (auto split: if_splits)

text \<open>An API key created with scopes that are not the text of a JSON list - a comma-separated list, say, which is what the
  client library documents - passes every request for scopes unchanged, none requested included.\<close>

theorem unparsed_scopes_grant_everything:
  assumes "en_parse env scopes = RawText text" "create_api_key env key_id random uid [(''scopes'', JStr scopes)] db = (Inr response, db')"
    and "\<And>k. k \<in> set (db_api_keys db) \<Longrightarrow> ak_key_hash k \<noteq> en_sha env (''pk_'' @ random)"
    and "\<And>a. a \<in> set (db_agents db) \<Longrightarrow> ag_api_key_id a \<noteq> Some key_id" "find_user db uid = Some user"
  shows "\<exists>ctx db''. api_key_user (en_sha env) rep now (''pk_'' @ random) db' = (Inr (user, ctx), db'') \<and>
    constrain_requested_scopes rep (Some ctx) requested = Inr requested"
proof -
  let ?key = "\<lparr>ak_id = key_id, ak_name = ''default'', ak_key_hash = en_sha env (''pk_'' @ random), ak_key_prefix = take 12 (''pk_'' @ random),
    ak_user_id = uid, ak_scopes = Some (RawText text), ak_is_active = True, ak_expires_at = None, ak_last_used_at = None\<rparr>"
  have db': "db' = db\<lparr>db_api_keys := db_api_keys db @ [?key]\<rparr>"
    using assms(1,2) by (simp add: create_api_key_def jget_def jget_default_def required_text_def Let_def)
  have "find (\<lambda>k. ak_key_hash k = en_sha env (''pk_'' @ random) \<and> ak_is_active k) (db_api_keys db) = None"
    using assms(3) by (auto simp: find_None_iff)
  then have "find (\<lambda>k. ak_key_hash k = en_sha env (''pk_'' @ random) \<and> ak_is_active k) (db_api_keys db @ [?key]) = Some ?key"
    by (simp add: find_app_None)
  moreover have "find (\<lambda>a. ag_api_key_id a = Some key_id) (db_agents db) = None" using assms(4) by (simp add: find_None_iff)
  ultimately show ?thesis
    using assms(5)
    by (simp add: api_key_user_def db' find_user_def load_scope_set_def combine_scope_sets_def constrain_requested_scopes_def
        get_principal_allowed_scopes_def Let_def)
qed


definition sample_api_env :: api_env where
  "sample_api_env = \<lparr>en_sha = (\<lambda>s. s), en_rep = (\<lambda>_. ''''), en_dumps = (\<lambda>_. ''{}''), en_parse = RawText, en_isoformat = (\<lambda>_. ''t''), en_now = 5,
     en_audit_id = 1, en_audit_ts = ''now''\<rparr>"

theorem unparsed_scopes_grant_everything_witness:
  "\<exists>ctx db''. api_key_user (en_sha sample_api_env) (\<lambda>_. '''') 6 (''pk_'' @ ''r'')
      (snd (create_api_key sample_api_env ''k'' ''r'' 1 [(''scopes'', JStr ''balance,bills'')] sample_db)) = (Inr (sample_user 1 None, ctx), db'') \<and>
    constrain_requested_scopes (\<lambda>_. '''') (Some ctx) JNull = Inr JNull"
proof -
  have run: "create_api_key sample_api_env ''k'' ''r'' 1 [(''scopes'', JStr ''balance,bills'')] sample_db =
      (Inr (projr (fst (create_api_key sample_api_env ''k'' ''r'' 1 [(''scopes'', JStr ''balance,bills'')] sample_db))),
       snd (create_api_key sample_api_env ''k'' ''r'' 1 [(''scopes'', JStr ''balance,bills'')] sample_db))"
    by (simp add: create_api_key_def jget_def jget_default_def required_text_def Let_def)
  have p: "en_parse sample_api_env ''balance,bills'' = RawText ''balance,bills''" by (simp add: sample_api_env_def)
  show ?thesis
    by (rule unparsed_scopes_grant_everything [OF p run]) (simp_all add: sample_db_def empty_db_def find_user_def sample_user_def)
qed

section \<open>A revoked key stays revoked\<close>

text \<open>The operations on keys and agents, as steps. A new key has another hash than \<open>h\<close>: keys are random.\<close>

inductive key_step :: "string \<Rightarrow> app_db \<Rightarrow> app_db \<Rightarrow> bool" for h where
  created: "create_api_key env kid random uid body db = (r, db') \<Longrightarrow> en_sha env (''pk_'' @ random) \<noteq> h \<Longrightarrow> key_step h db db'"
| registered: "register_agent env auid kid random uid body db = (r, db') \<Longrightarrow> en_sha env (''pk_agent_'' @ random) \<noteq> h \<Longrightarrow> key_step h db db'"
| revoked: "revoke_api_key kid uid db = (r, db') \<Longrightarrow> key_step h db db'"
| updated: "update_agent env aid uid body db = (r, db') \<Longrightarrow> key_step h db db'"
| deactivated: "deactivate_agent env aid uid db = (r, db') \<Longrightarrow> key_step h db db'"
| used: "api_key_user sha rep now api_key db = (r', db') \<Longrightarrow> key_step h db db'"

inductive_cases key_stepE: "key_step h db db'"

definition barred :: "string \<Rightarrow> app_db \<Rightarrow> bool" where
  "barred h db \<longleftrightarrow> (\<forall>k \<in> set (db_api_keys db). ak_key_hash k = h \<longrightarrow> \<not> ak_is_active k)"

lemma audited_tables [simp]:
  "db_api_keys (audited env t a u r m ip db) = db_api_keys db" "db_agents (audited env t a u r m ip db) = db_agents db"
  "db_users (audited env t a u r m ip db) = db_users db" "db_access_tokens (audited env t a u r m ip db) = db_access_tokens db"
  "db_links (audited env t a u r m ip db) = db_links db" "db_consent_grants (audited env t a u r m ip db) = db_consent_grants db"
  "db_consent_requests (audited env t a u r m ip db) = db_consent_requests db" "db_public_tokens (audited env t a u r m ip db) = db_public_tokens db"
  "db_refresh_tokens (audited env t a u r m ip db) = db_refresh_tokens db" "db_reset_tokens (audited env t a u r m ip db) = db_reset_tokens db"
  "db_webhooks (audited env t a u r m ip db) = db_webhooks db" "db_refresh_jobs (audited env t a u r m ip db) = db_refresh_jobs db"
  "db_blueprints (audited env t a u r m ip db) = db_blueprints db" "db_access_jobs (audited env t a u r m ip db) = db_access_jobs db"
  by (simp_all add: audited_def)

lemma barred_update: "barred h db \<Longrightarrow> (\<And>k. ak_key_hash (f k) = ak_key_hash k \<and> (ak_is_active (f k) \<longrightarrow> ak_is_active k)) \<Longrightarrow>
  barred h (db\<lparr>db_api_keys := update_where P f (db_api_keys db)\<rparr>)"
  by (auto simp: barred_def update_where_def)

lemma barred_cong: "db_api_keys db = db_api_keys db' \<Longrightarrow> barred h db = barred h db'"
  by (simp add: barred_def)

lemma barred_step: "key_step h db db' \<Longrightarrow> barred h db \<Longrightarrow> barred h db'"
proof (induction rule: key_step.induct)
  case (created env kid random uid body db r db')
  then show ?case by (auto simp: create_api_key_def barred_def Let_def split: option.splits)
next
  case (registered env auid kid random uid body db r db')
  then show ?case by (auto simp: register_agent_def barred_def Let_def split: option.splits if_splits)
next
  case (revoked kid uid db r db')
  then show ?case by (auto simp: revoke_api_key_def intro: barred_update split: option.splits)
next
  case (updated env aid uid body db r db')
  then show ?case by (auto simp: update_agent_def barred_def split: option.splits)
next
  case (deactivated env aid uid db r db')
  then show ?case by (auto simp: deactivate_agent_def barred_def update_where_def split: option.splits if_splits)
next
  case (used sha rep now api_key db r' db')
  then show ?case by (auto simp: api_key_user_def barred_def update_where_def Let_def split: option.splits if_splits)
qed

lemma barred_refused: "barred (sha api_key) db \<Longrightarrow> fst (api_key_user sha rep now api_key db) = Inl (HTTPException 401 ''Invalid API key.'')"
  by (auto simp: barred_def api_key_user_def find_Some_iff split: option.splits)

text \<open>Once a key is revoked, or the agent it belongs to deactivated, the key authenticates no request any more, whatever is
  done to keys and agents afterwards.\<close>

theorem revoked_key_stays_out:
  assumes "revoke_api_key kid uid db = (Inr response, db1) \<or>
      (\<exists>a. owned_agent aid uid db = Some a \<and> ag_api_key_id a = Some kid \<and> deactivate_agent env aid uid db = (Inr response, db1))"
    and "key \<in> set (db_api_keys db)" "ak_id key = kid" "kid \<noteq> ''''" "distinct (map ak_key_hash (db_api_keys db))"
    and "(key_step (ak_key_hash key))\<^sup>*\<^sup>* db1 db2" "sha api_key = ak_key_hash key"
  shows "fst (api_key_user sha rep now api_key db2) = Inl (HTTPException 401 ''Invalid API key.'')"
proof -
  have keys: "db_api_keys db1 = update_where (\<lambda>k. ak_id k = kid) (\<lambda>k. k\<lparr>ak_is_active := False\<rparr>) (db_api_keys db)"
    using assms(1,4) by (auto simp: revoke_api_key_def deactivate_agent_def split: option.splits)
  have same: "ak_id k = kid" if "k \<in> set (db_api_keys db)" "ak_key_hash k = ak_key_hash key" for k
    using that assms(2,3,5) unfolding distinct_map by (metis inj_onD)
  have "barred (ak_key_hash key) db1"
    unfolding barred_def keys update_where_def
  proof (intro ballI impI)
    fix k assume "k \<in> set (map (\<lambda>k. if ak_id k = kid then k\<lparr>ak_is_active := False\<rparr> else k) (db_api_keys db))" "ak_key_hash k = ak_key_hash key"
    then obtain k' where k: "k' \<in> set (db_api_keys db)" "k = (if ak_id k' = kid then k'\<lparr>ak_is_active := False\<rparr> else k')" by auto
    moreover from this \<open>ak_key_hash k = ak_key_hash key\<close> have "ak_key_hash k' = ak_key_hash key" by (cases "ak_id k' = kid") simp_all
    ultimately show "\<not> ak_is_active k" using same [OF k(1)] by simp
  qed
  from assms(6) this have "barred (ak_key_hash key) db2"
    by (induction rule: rtranclp_induct) (auto intro: barred_step)
  then show ?thesis using assms(7) by (simp add: barred_refused)
qed

theorem revoked_key_stays_out_witness:
  "fst (api_key_user (\<lambda>s. s) (\<lambda>_. '''') 9 ''pk_x'' (snd (update_agent sample_api_env ''agent-1'' 1 [] (snd (deactivate_agent sample_api_env ''agent-1'' 1 key_db)))))
    = Inl (HTTPException 401 ''Invalid API key.'')"
proof -
  let ?db1 = "snd (deactivate_agent sample_api_env ''agent-1'' 1 key_db)"
  have a: "\<exists>a. owned_agent ''agent-1'' 1 key_db = Some a \<and> ag_api_key_id a = Some ''k1'' \<and>
      deactivate_agent sample_api_env ''agent-1'' 1 key_db = (Inr [(''status'', JStr ''deactivated''), (''agent_id'', JStr ''agent-1'')], ?db1)"
  proof (intro exI conjI)
    show o: "owned_agent ''agent-1'' 1 key_db = Some sample_agent" by (simp add: owned_agent_def key_db_def sample_agent_def)
    show "ag_api_key_id sample_agent = Some ''k1''" by (simp add: sample_agent_def)
    show "deactivate_agent sample_api_env ''agent-1'' 1 key_db = (Inr [(''status'', JStr ''deactivated''), (''agent_id'', JStr ''agent-1'')], ?db1)"
      by (simp add: deactivate_agent_def o)
  qed
  let ?k = "sample_key (Some (Encoded (JList [JStr ''read:balance'', JStr ''bills''])))"
  have k: "?k \<in> set (db_api_keys key_db)" "ak_id ?k = ''k1''" "''k1'' \<noteq> ''''" "distinct (map ak_key_hash (db_api_keys key_db))"
    and h: "''pk_x'' = ak_key_hash ?k"
    by (simp_all add: key_db_def empty_db_def sample_key_def)
  have s: "(key_step (ak_key_hash ?k))\<^sup>*\<^sup>* ?db1 (snd (update_agent sample_api_env ''agent-1'' 1 [] ?db1))"
    by (rule r_into_rtranclp, rule updated) (rule surjective_pairing)
  show ?thesis
    by (rule revoked_key_stays_out [where sha = "\<lambda>s. s", OF disjI2 [OF a] k s h])
qed

end
