(* ===== verification/Consent.thy ===== *)
theory Consent imports Access_Control begin

text \<open>
  \<^verbatim>\<open>src/routers/consent.py\<close>: the consent engine. An agent requests consent for scopes of an access token and a duration; the user
  approves, which makes a grant with an end, or denies; a grant can be revoked.

  Times are numbers of seconds, identifiers (\<^verbatim>\<open>uuid4\<close>) arguments. A body value of a type its column cannot hold is refused by the
  driver (the 500 response); a duration that is not an integer is counted among these.
\<close>

definition MAX_CONSENT_DURATION :: int where "MAX_CONSENT_DURATION = 2592000"

fun json_whole :: "json \<Rightarrow> int option" where
  "json_whole (JInt i) = Some i"
| "json_whole (JBool b) = Some (if b then 1 else 0)"
| "json_whole _ = None"

fun is_list :: "json \<Rightarrow> bool" where
  "is_list (JList xs) = True"
| "is_list _ = False"

definition unprocessable :: "string \<Rightarrow> http_error" where
  "unprocessable detail = HTTPException 422 detail"

definition consent_request :: "string \<Rightarrow> int \<Rightarrow> (string, json) dict \<Rightarrow> app_db \<Rightarrow> (string, json) dict reply" where
  "consent_request new_uuid uid body db =
     (let agent_name = jget body ''agent_name''; scopes = jget body ''scopes''; access_token = jget body ''access_token'';
          duration = jget_default body ''duration_seconds'' (JInt 3600)
      in if \<not> truthy agent_name then (Inl (unprocessable (CHR 0x27 # ''agent_name'' @ CHR 0x27 # '' is required.'')), db)
         else if \<not> truthy scopes \<or> \<not> is_list scopes
           then (Inl (unprocessable (CHR 0x27 # ''scopes'' @ CHR 0x27 # '' must be a non-empty list of scope strings.'')), db)
         else if \<not> truthy access_token then (Inl (unprocessable (CHR 0x27 # ''access_token'' @ CHR 0x27 # '' is required.'')), db)
         else case json_whole duration of
           None \<Rightarrow> (Inl server_error, db)
         | Some d \<Rightarrow>
             if d > MAX_CONSENT_DURATION then (Inl (unprocessable ''Duration cannot exceed 2592000 seconds (30 days).''), db)
             else if d < 60 then (Inl (unprocessable ''Duration must be at least 60 seconds.''), db)
             else case access_token of
               JStr tok \<Rightarrow>
                 (case find (\<lambda>t. at_token t = tok \<and> at_user_id t = uid) (db_access_tokens db) of
                    None \<Rightarrow> (Inl (HTTPException 401 ''Invalid access token.''), db)
                  | Some t \<Rightarrow>
                      (case (required_text agent_name, required_text (jget_default body ''agent_description'' (JStr ''''))) of
                         (Some name, Some description) \<Rightarrow>
                           (let request_id = ''creq-'' @ new_uuid
                            in (Inr [(''request_id'', JStr request_id), (''agent_name'', JStr name), (''scopes'', scopes), (''duration_seconds'', JInt d),
                                  (''status'', JStr ''pending'')],
                                db\<lparr>db_consent_requests := db_consent_requests db @ [\<lparr>cr_id = request_id, cr_agent_name = name, cr_agent_description = description,
                                  cr_scopes = Encoded scopes, cr_duration_seconds = d, cr_access_token = tok, cr_user_id = uid, cr_status = Consent_pending\<rparr>]\<rparr>))
                       | _ \<Rightarrow> (Inl server_error, db)))
             | _ \<Rightarrow> (Inl server_error, db))"

definition status_name :: "consent_status \<Rightarrow> string" where
  "status_name s = (case s of Consent_pending \<Rightarrow> ''pending'' | Consent_approved \<Rightarrow> ''approved'' | Consent_denied \<Rightarrow> ''denied'')"

definition already :: "consent_request_row \<Rightarrow> http_error" where
  "already cr = HTTPException 409 (''Consent request is already '' @ CHR 0x27 # status_name (cr_status cr) @ CHR 0x27 # ''.'')"

definition owned_request :: "string \<Rightarrow> int \<Rightarrow> app_db \<Rightarrow> consent_request_row option" where
  "owned_request request_id uid db = find (\<lambda>r. cr_id r = request_id \<and> cr_user_id r = uid) (db_consent_requests db)"

definition settle_request :: "string \<Rightarrow> consent_status \<Rightarrow> app_db \<Rightarrow> app_db" where
  "settle_request request_id st db =
     db\<lparr>db_consent_requests := update_where (\<lambda>r. cr_id r = request_id) (\<lambda>r. r\<lparr>cr_status := st\<rparr>) (db_consent_requests db)\<rparr>"

text \<open>The stored scopes as \<^verbatim>\<open>json.loads\<close> gives them back.\<close>

fun loaded :: "json_text \<Rightarrow> json option" where
  "loaded (Encoded v) = Some v"
| "loaded (RawText s) = None"

definition consent_approve :: "api_env \<Rightarrow> string \<Rightarrow> string \<Rightarrow> int \<Rightarrow> app_db \<Rightarrow> (string, json) dict reply" where
  "consent_approve env new_uuid request_id uid db =
     (case owned_request request_id uid db of
        None \<Rightarrow> (Inl (HTTPException 404 ''Consent request not found.''), db)
      | Some cr \<Rightarrow>
          if cr_status cr \<noteq> Consent_pending then (Inl (already cr), db)
          else
            let consent_token = ''consent-'' @ new_uuid;
                expires_at = en_now env + of_int (cr_duration_seconds cr);
                db = settle_request request_id Consent_approved db;
                db = db\<lparr>db_consent_grants := db_consent_grants db @ [\<lparr>cg_token = consent_token, cg_consent_request_id = request_id, cg_scopes = cr_scopes cr,
                       cg_access_token = cr_access_token cr, cg_user_id = uid, cg_expires_at = expires_at, cg_revoked = False, cg_created_at = en_now env\<rparr>]\<rparr>
            in (case loaded (cr_scopes cr) of
                  None \<Rightarrow> (Inl server_error, db)
                | Some scopes \<Rightarrow>
                    (Inr [(''consent_token'', JStr consent_token), (''scopes'', scopes), (''expires_at'', JStr (en_isoformat env expires_at)),
                       (''status'', JStr ''approved'')], db)))"

definition consent_deny :: "string \<Rightarrow> int \<Rightarrow> app_db \<Rightarrow> (string, json) dict reply" where
  "consent_deny request_id uid db =
     (case owned_request request_id uid db of
        None \<Rightarrow> (Inl (HTTPException 404 ''Consent request not found.''), db)
      | Some cr \<Rightarrow>
          if cr_status cr \<noteq> Consent_pending then (Inl (already cr), db)
          else (Inr [(''request_id'', JStr request_id), (''status'', JStr ''denied'')], settle_request request_id Consent_denied db))"

definition grant_json :: "api_env \<Rightarrow> app_db \<Rightarrow> consent_grant_row \<Rightarrow> json option" where
  "grant_json env db g =
     map_option (\<lambda>scopes. JObj [(''consent_token'', JStr (cg_token g)),
         (''agent_name'', JStr (case find (\<lambda>r. cr_id r = cg_consent_request_id g) (db_consent_requests db) of Some r \<Rightarrow> cr_agent_name r | None \<Rightarrow> ''unknown'')),
         (''scopes'', scopes), (''access_token'', JStr (cg_access_token g)), (''expires_at'', JStr (en_isoformat env (cg_expires_at g))),
         (''created_at'', JStr (en_isoformat env (cg_created_at g)))]) (loaded (cg_scopes g))"

fun all_some :: "'a option list \<Rightarrow> 'a list option" where
  "all_some [] = Some []"
| "all_some (x # xs) = (case (x, all_some xs) of (Some a, Some as) \<Rightarrow> Some (a # as) | _ \<Rightarrow> None)"

definition list_consents :: "api_env \<Rightarrow> int \<Rightarrow> app_db \<Rightarrow> http_error + (string, json) dict" where
  "list_consents env uid db =
     (let grants = filter (\<lambda>g. cg_user_id g = uid \<and> \<not> cg_revoked g) (db_consent_grants db);
          active = filter (\<lambda>g. \<not> en_now env > cg_expires_at g) grants
      in case all_some (map (grant_json env db) active) of
           None \<Rightarrow> Inl server_error
         | Some results \<Rightarrow> Inr [(''grants'', JList results), (''count'', JInt (int (length results)))])"

definition revoke_consent :: "api_env \<Rightarrow> string \<Rightarrow> int \<Rightarrow> app_db \<Rightarrow> (string, json) dict reply" where
  "revoke_consent env consent_token uid db =
     (case find (\<lambda>g. cg_token g = consent_token \<and> cg_user_id g = uid) (db_consent_grants db) of
        None \<Rightarrow> (Inl (HTTPException 404 ''Consent grant not found.''), db)
      | Some g \<Rightarrow>
          if cg_revoked g then (Inl (HTTPException 409 ''Consent already revoked.''), db)
          else (Inr [(''status'', JStr ''revoked''), (''consent_token'', JStr consent_token)],
                audited env ''consent'' ''revoke'' (Some uid) (Some consent_token) [] None
                  (db\<lparr>db_consent_grants := update_where (\<lambda>g. cg_token g = consent_token) (\<lambda>g. g\<lparr>cg_revoked := True\<rparr>) (db_consent_grants db)\<rparr>)))"

section \<open>The use of a grant\<close>

text \<open>The check of \<open>fetch_data\<close> (\<^verbatim>\<open>src/routers/links.py\<close>).\<close>

definition consent_refusal :: "time \<Rightarrow> string \<Rightarrow> int \<Rightarrow> string \<Rightarrow> app_db \<Rightarrow> http_error + consent_grant_row" where
  "consent_refusal now consent_token uid access_token db =
     (case find (\<lambda>g. cg_token g = consent_token \<and> cg_user_id g = uid) (db_consent_grants db) of
        None \<Rightarrow> Inl (HTTPException 401 ''Invalid consent token.'')
      | Some g \<Rightarrow>
          if cg_revoked g then Inl (HTTPException 403 ''Consent has been revoked.'')
          else if now > cg_expires_at g then Inl (HTTPException 403 ''Consent token has expired.'')
          else if cg_access_token g \<noteq> access_token then Inl (HTTPException 403 ''Consent token does not match the access token.'')
          else Inr g)"

section \<open>The requests, in any order\<close>

text \<open>\<open>decided\<close>: the identifiers approved so far, with the time of the approval, as a log of what the users did.\<close>

inductive consent_step :: "api_env \<Rightarrow> (string \<times> time) list \<times> app_db \<Rightarrow> (string \<times> time) list \<times> app_db \<Rightarrow> bool" for env where
  requested: "consent_request u uid body db = (r, db') \<Longrightarrow> ''creq-'' @ u \<notin> set (request_ids db) \<Longrightarrow> consent_step env (h, db) (h, db')"
| approved: "consent_approve (env\<lparr>en_now := now\<rparr>) u rid uid db = (Inr reply, db') \<Longrightarrow> ''consent-'' @ u \<notin> set (map cg_token (db_consent_grants db)) \<Longrightarrow>
    consent_step env (h, db) (h @ [(rid, now)], db')"
| refused: "consent_approve (env\<lparr>en_now := now\<rparr>) u rid uid db = (Inl err, db') \<Longrightarrow> ''consent-'' @ u \<notin> set (map cg_token (db_consent_grants db)) \<Longrightarrow>
    consent_step env (h, db) (h, db')"
| denied: "consent_deny rid uid db = (r, db') \<Longrightarrow> consent_step env (h, db) (h, db')"
| revoked: "revoke_consent (env\<lparr>en_now := now\<rparr>) ctok uid db = (r, db') \<Longrightarrow> consent_step env (h, db) (h, db')"

inductive_cases consent_stepE: "consent_step env s s'"

definition justified :: "(string \<times> time) list \<Rightarrow> consent_request_row list \<Rightarrow> consent_grant_row \<Rightarrow> bool" where
  "justified h rs g \<longleftrightarrow> (\<exists>r \<in> set rs. \<exists>t. cr_id r = cg_consent_request_id g \<and> cr_status r = Consent_approved \<and> cr_user_id r = cg_user_id g \<and>
     cr_scopes r = cg_scopes g \<and> cr_access_token r = cg_access_token g \<and> (cr_id r, t) \<in> set h \<and> cg_expires_at g = t + of_int (cr_duration_seconds r) \<and>
     60 \<le> cr_duration_seconds r \<and> cr_duration_seconds r \<le> MAX_CONSENT_DURATION)"

definition consent_inv :: "(string \<times> time) list \<times> app_db \<Rightarrow> bool" where
  "consent_inv s \<longleftrightarrow> (case s of (h, db) \<Rightarrow>
     distinct (request_ids db) \<and> distinct (map cg_consent_request_id (db_consent_grants db)) \<and>
     (\<forall>r \<in> set (db_consent_requests db). 60 \<le> cr_duration_seconds r \<and> cr_duration_seconds r \<le> MAX_CONSENT_DURATION \<and> loaded (cr_scopes r) \<noteq> None) \<and>
     (\<forall>g \<in> set (db_consent_grants db). justified h (db_consent_requests db) g))"

lemma request_cases:
  assumes "consent_request u uid body db = (r, db')"
  obtains "db' = db"
  | row where "db' = db\<lparr>db_consent_requests := db_consent_requests db @ [row]\<rparr>" "cr_id row = ''creq-'' @ u" "60 \<le> cr_duration_seconds row"
      "cr_duration_seconds row \<le> MAX_CONSENT_DURATION" "loaded (cr_scopes row) \<noteq> None"
  using assms unfolding consent_request_def Let_def
  by (fastforce split: if_split_asm option.split_asm json.split_asm)

lemma settled_requests:
  "request_ids (settle_request rid st db) = request_ids db" "db_consent_grants (settle_request rid st db) = db_consent_grants db"
  "set (db_consent_requests (settle_request rid st db)) =
     (\<lambda>r. if cr_id r = rid then r\<lparr>cr_status := st\<rparr> else r) ` set (db_consent_requests db)"
  by (simp_all add: settle_request_def update_where_def request_ids_def comp_def if_distrib cong: if_cong)

lemma owned_requestD: "owned_request rid uid db = Some cr \<Longrightarrow> cr \<in> set (db_consent_requests db) \<and> cr_id cr = rid \<and> cr_user_id cr = uid"
  by (auto simp: owned_request_def find_Some_iff)

lemma same_request: "distinct (request_ids db) \<Longrightarrow> r \<in> set (db_consent_requests db) \<Longrightarrow> r' \<in> set (db_consent_requests db) \<Longrightarrow> cr_id r = cr_id r' \<Longrightarrow> r = r'"
  by (auto simp: request_ids_def distinct_map inj_on_def)

lemma justified_settle:
  assumes "justified h (db_consent_requests db) g" "distinct (request_ids db)" "cr \<in> set (db_consent_requests db)" "cr_status cr = Consent_pending"
  shows "justified h (db_consent_requests (settle_request (cr_id cr) st db)) g \<and> cg_consent_request_id g \<noteq> cr_id cr"
proof -
  from assms(1) obtain r t where r: "r \<in> set (db_consent_requests db)" "cr_id r = cg_consent_request_id g" "cr_status r = Consent_approved"
      "cr_user_id r = cg_user_id g" "cr_scopes r = cg_scopes g" "cr_access_token r = cg_access_token g" "(cr_id r, t) \<in> set h"
      "cg_expires_at g = t + of_int (cr_duration_seconds r)" "60 \<le> cr_duration_seconds r" "cr_duration_seconds r \<le> MAX_CONSENT_DURATION"
    by (auto simp: justified_def)
  have ne: "cr_id r \<noteq> cr_id cr" using same_request [OF assms(2) r(1) assms(3)] r(3) assms(4) by auto
  then have "r \<in> set (db_consent_requests (settle_request (cr_id cr) st db))" unfolding settled_requests(3) using r(1) by force
  with r ne show ?thesis unfolding justified_def by (auto intro!: bexI [of _ r] exI [of _ t])
qed

lemma settled_inv:
  assumes "consent_inv (h, db)" "owned_request rid uid db = Some cr" "cr_status cr = Consent_pending"
  shows "consent_inv (h, settle_request rid st db)" "rid \<notin> set (map cg_consent_request_id (db_consent_grants db))"
proof -
  have cr: "cr \<in> set (db_consent_requests db)" "cr_id cr = rid" using owned_requestD [OF assms(2)] by auto
  from justified_settle [OF _ _ cr(1) assms(3), of h _ st] assms(1) cr
  have "g \<in> set (db_consent_grants db) \<Longrightarrow> justified h (db_consent_requests (settle_request rid st db)) g \<and> cg_consent_request_id g \<noteq> rid" for g
    by (simp add: consent_inv_def)
  with assms(1) show "consent_inv (h, settle_request rid st db)" "rid \<notin> set (map cg_consent_request_id (db_consent_grants db))"
    by (auto simp: consent_inv_def settled_requests)
qed

lemma approve_cases:
  assumes "consent_approve env u rid uid db = (r, db')" "consent_inv (h, db)"
  obtains err where "r = Inl err" "db' = db"
  | reply cr where "r = Inr reply" "owned_request rid uid db = Some cr" "cr_status cr = Consent_pending"
      "db' = (settle_request rid Consent_approved db)\<lparr>db_consent_grants := db_consent_grants db @ [\<lparr>cg_token = ''consent-'' @ u, cg_consent_request_id = rid,
         cg_scopes = cr_scopes cr, cg_access_token = cr_access_token cr, cg_user_id = uid, cg_expires_at = en_now env + of_int (cr_duration_seconds cr),
         cg_revoked = False, cg_created_at = en_now env\<rparr>]\<rparr>"
proof (cases "owned_request rid uid db")
  case None
  with assms(1) that(1) show ?thesis by (auto simp: consent_approve_def)
next
  case (Some cr)
  from owned_requestD [OF Some] assms(2) obtain v where v: "loaded (cr_scopes cr) = Some v" by (auto simp: consent_inv_def)
  show ?thesis
  proof (cases "cr_status cr = Consent_pending")
    case True
    with Some v assms(1) show ?thesis by (auto simp: consent_approve_def Let_def settled_requests intro!: that(2))
  next
    case False
    with Some assms(1) that(1) show ?thesis by (auto simp: consent_approve_def)
  qed
qed

lemma map_update_where: "(\<And>x. f (g x) = f x) \<Longrightarrow> map f (update_where P g xs) = map f xs"
  by (simp add: update_where_def)

lemma justified_mono: "justified h rs g \<Longrightarrow> set h \<subseteq> set h' \<Longrightarrow> set rs \<subseteq> set rs' \<Longrightarrow> justified h' rs' g"
  unfolding justified_def by blast

lemma consent_inv_revoke:
  assumes "consent_inv (h, db)"
  shows "consent_inv (h, audited env a b c d e f (db\<lparr>db_consent_grants := update_where P (\<lambda>g. g\<lparr>cg_revoked := True\<rparr>) (db_consent_grants db)\<rparr>))"
proof -
  have "map cg_consent_request_id (update_where P (\<lambda>g. g\<lparr>cg_revoked := True\<rparr>) gs) = map cg_consent_request_id gs" for gs
    by (rule map_update_where) simp
  moreover have "justified h rs (g\<lparr>cg_revoked := True\<rparr>) = justified h rs g" for rs g by (simp add: justified_def)
  then have "\<forall>g \<in> set (update_where P (\<lambda>g. g\<lparr>cg_revoked := True\<rparr>) (db_consent_grants db)). justified h (db_consent_requests db) g"
    using assms by (auto simp: consent_inv_def update_where_def)
  ultimately show ?thesis using assms by (simp add: consent_inv_def audited_def request_ids_def)
qed

lemma consent_inv_step: "consent_step env s s' \<Longrightarrow> consent_inv s \<Longrightarrow> consent_inv s'"
proof (induction rule: consent_step.induct)
  case (requested u uid body db r db' h)
  from requested.hyps(1) show ?case
  proof (cases rule: request_cases)
    case (2 row)
    have "justified h (db_consent_requests db) g \<Longrightarrow> justified h (db_consent_requests db') g" for g
      by (rule justified_mono) (auto simp: 2(1))
    with requested.prems requested.hyps(2) 2 show ?thesis by (auto simp: consent_inv_def request_ids_def)
  qed (use requested.prems in simp)
next
  case (approved now u rid uid db reply db' h)
  from approved.hyps(1) approved.prems show ?case
  proof (cases rule: approve_cases)
    case (2 reply' cr)
    let ?db = "settle_request rid Consent_approved db"
    note s = settled_inv(1) [OF approved.prems 2(2,3), of Consent_approved] settled_inv(2) [OF approved.prems 2(2,3)]
    have cr: "cr \<in> set (db_consent_requests db)" "cr_id cr = rid" "cr_user_id cr = uid" using owned_requestD [OF 2(2)] by auto
    have old: "justified (h @ [(rid, now)]) (db_consent_requests ?db) g" if "g \<in> set (db_consent_grants db)" for g
      using s(1) that by (auto simp: consent_inv_def settled_requests(2) intro: justified_mono)
    have in_db: "cr\<lparr>cr_status := Consent_approved\<rparr> \<in> set (db_consent_requests ?db)" unfolding settled_requests(3) using cr by force
    have "60 \<le> cr_duration_seconds cr \<and> cr_duration_seconds cr \<le> MAX_CONSENT_DURATION"
      using approved.prems cr(1) by (simp add: consent_inv_def)
    then have "justified (h @ [(rid, now)]) (db_consent_requests ?db) \<lparr>cg_token = ''consent-'' @ u, cg_consent_request_id = rid,
         cg_scopes = cr_scopes cr, cg_access_token = cr_access_token cr, cg_user_id = uid, cg_expires_at = now + of_int (cr_duration_seconds cr),
         cg_revoked = False, cg_created_at = now\<rparr>"
      unfolding justified_def by (intro bexI [OF _ in_db] exI [of _ now]) (simp add: cr)
    then have all: "\<forall>g \<in> set (db_consent_grants db'). justified (h @ [(rid, now)]) (db_consent_requests ?db) g"
      using old unfolding 2(4) by auto
    have "distinct (map cg_consent_request_id (db_consent_grants db))" using approved.prems by (simp add: consent_inv_def)
    then have grants: "distinct (map cg_consent_request_id (db_consent_grants db'))" using s(2) unfolding 2(4) by simp
    have reqs: "db_consent_requests db' = db_consent_requests ?db" unfolding 2(4) by simp
    from s(1) all grants show ?thesis unfolding consent_inv_def prod.case request_ids_def reqs by blast
  qed simp
next
  case (refused now u rid uid db err db' h)
  from refused.hyps(1) refused.prems show ?case
    by (cases rule: approve_cases) (use refused.prems in simp_all)
next
  case (denied rid uid db r db' h)
  show ?case
  proof (cases "\<exists>cr. owned_request rid uid db = Some cr \<and> cr_status cr = Consent_pending")
    case True
    then obtain cr where cr: "owned_request rid uid db = Some cr" "cr_status cr = Consent_pending" by blast
    with denied.hyps have "db' = settle_request rid Consent_denied db" by (simp add: consent_deny_def)
    with settled_inv(1) [OF denied.prems cr] show ?thesis by simp
  next
    case False
    with denied.hyps denied.prems show ?thesis by (auto simp: consent_deny_def split: option.splits if_splits)
  qed
next
  case (revoked now ctok uid db r db' h)
  then show ?case by (auto simp: revoke_consent_def consent_inv_revoke split: option.splits if_splits)
qed

text \<open>C19. Whatever requests arrive, a consent token is honoured only for the access token and with the scopes of a request that its
  owner approved, and never later than the requested duration, at most thirty days, after the approval; a request gives at most one token.\<close>

theorem consent_needs_approval:
  assumes "(consent_step env)\<^sup>*\<^sup>* ([], db) (h, db')" "db_consent_requests db = []" "db_consent_grants db = []"
    and "consent_refusal now ctok uid tok db' = Inr g"
  shows "distinct (map cg_consent_request_id (db_consent_grants db')) \<and>
    (\<exists>r \<in> set (db_consent_requests db'). \<exists>t. (cr_id r, t) \<in> set h \<and> cr_status r = Consent_approved \<and> cr_user_id r = uid \<and> cr_access_token r = tok \<and>
      cr_scopes r = cg_scopes g \<and> now \<le> t + of_int (cr_duration_seconds r) \<and> cr_duration_seconds r \<le> MAX_CONSENT_DURATION)"
proof -
  have "consent_inv ([], db)" using assms(2,3) by (simp add: consent_inv_def request_ids_def)
  from assms(1) this have inv: "consent_inv (h, db')" by (induction rule: rtranclp_induct) (auto intro: consent_inv_step)
  from assms(4) have g: "g \<in> set (db_consent_grants db')" "cg_user_id g = uid" "cg_access_token g = tok" "now \<le> cg_expires_at g"
    by (auto simp: consent_refusal_def find_Some_iff split: option.splits if_splits)
  with inv show ?thesis by (force simp: consent_inv_def justified_def)
qed

text \<open>Once revoked, a consent token is refused for ever.\<close>

definition revoked_in :: "string \<Rightarrow> app_db \<Rightarrow> bool" where
  "revoked_in ctok db \<longleftrightarrow> ctok \<in> set (map cg_token (db_consent_grants db)) \<and>
     (\<forall>g \<in> set (db_consent_grants db). cg_token g = ctok \<longrightarrow> cg_revoked g)"

lemma revoked_refused: "revoked_in ctok db \<Longrightarrow> consent_refusal now ctok uid tok db \<noteq> Inr g"
  by (auto simp: consent_refusal_def revoked_in_def find_Some_iff split: option.splits)

lemma settle_grants: "db_consent_grants (settle_request rid st db) = db_consent_grants db"
  by (simp add: settle_request_def)

lemma revoked_in_cong: "db_consent_grants db' = db_consent_grants db \<Longrightarrow> revoked_in ctok db' = revoked_in ctok db"
  by (simp add: revoked_in_def)

lemma revoked_in_revoke: "revoked_in ctok db \<Longrightarrow>
  revoked_in ctok (audited env a b c d e f (db\<lparr>db_consent_grants := update_where P (\<lambda>g. g\<lparr>cg_revoked := True\<rparr>) (db_consent_grants db)\<rparr>))"
  unfolding revoked_in_def audited_def by (simp add: map_update_where) (auto simp: update_where_def)

lemma revoked_in_step: "consent_step env s s' \<Longrightarrow> revoked_in ctok (snd s) \<Longrightarrow> revoked_in ctok (snd s')"
proof (induction rule: consent_step.induct)
  case (requested u uid body db r db' h)
  from requested.hyps(1) show ?case using requested.prems by (cases rule: request_cases) (auto simp: revoked_in_def)
next
  case (approved now u rid uid db reply db' h)
  then show ?case by (auto simp: consent_approve_def Let_def revoked_in_def settle_grants split: option.splits if_splits)
next
  case (refused now u rid uid db err db' h)
  then show ?case by (auto simp: consent_approve_def Let_def revoked_in_def settle_grants split: option.splits if_splits)
next
  case (denied rid uid db r db' h)
  then show ?case by (auto simp: consent_deny_def revoked_in_def settle_grants split: option.splits if_splits)
next
  case (revoked now c uid db r db' h)
  then show ?case by (auto simp: revoke_consent_def revoked_in_revoke split: option.splits if_splits)
qed

theorem revoked_consent_stays_revoked:
  assumes "revoke_consent env0 ctok uid db = (Inr reply, db1)" "(consent_step env)\<^sup>*\<^sup>* (h1, db1) (h2, db2)"
  shows "consent_refusal now ctok uid' tok db2 \<noteq> Inr g"
proof -
  have tokens: "map cg_token (update_where P (\<lambda>g. g\<lparr>cg_revoked := True\<rparr>) gs) = map cg_token gs" for P gs
    by (rule map_update_where) simp
  from assms(1) obtain g0 where g0: "find (\<lambda>g. cg_token g = ctok \<and> cg_user_id g = uid) (db_consent_grants db) = Some g0"
    and db1: "db_consent_grants db1 = update_where (\<lambda>g. cg_token g = ctok) (\<lambda>g. g\<lparr>cg_revoked := True\<rparr>) (db_consent_grants db)"
    by (auto simp: revoke_consent_def audited_def split: option.splits if_splits)
  from g0 have "ctok \<in> set (map cg_token (db_consent_grants db))" by (auto simp: find_Some_iff)
  then have "revoked_in ctok db1"
    unfolding revoked_in_def db1 tokens by (auto simp: update_where_def)
  then have "revoked_in ctok (snd (h1, db1))" by simp
  from assms(2) this have "revoked_in ctok (snd (h2, db2))" by (induction rule: rtranclp_induct) (auto intro: revoked_in_step)
  then show ?thesis using revoked_refused by simp
qed

definition consent_body :: "(string, json) dict" where
  "consent_body = [(''agent_name'', JStr ''bot''), (''scopes'', JList [JStr ''read:balance'']), (''access_token'', JStr ''acc'')]"

definition consent_db :: app_db where
  "consent_db = sample_db\<lparr>db_access_tokens := [(sample_token 1)\<lparr>at_token := ''acc''\<rparr>]\<rparr>"

definition bot_request :: consent_request_row where
  "bot_request = \<lparr>cr_id = ''creq-1'', cr_agent_name = ''bot'', cr_agent_description = '''', cr_scopes = Encoded (JList [JStr ''read:balance'']),
     cr_duration_seconds = 3600, cr_access_token = ''acc'', cr_user_id = 1, cr_status = Consent_pending\<rparr>"

definition bot_grant :: consent_grant_row where
  "bot_grant = \<lparr>cg_token = ''consent-1'', cg_consent_request_id = ''creq-1'', cg_scopes = Encoded (JList [JStr ''read:balance'']), cg_access_token = ''acc'',
     cg_user_id = 1, cg_expires_at = 3605, cg_revoked = False, cg_created_at = 5\<rparr>"

definition approved_db :: app_db where
  "approved_db = consent_db\<lparr>db_consent_requests := [bot_request\<lparr>cr_status := Consent_approved\<rparr>], db_consent_grants := [bot_grant]\<rparr>"

lemma consent_run: "(consent_step sample_api_env)\<^sup>*\<^sup>* ([], consent_db) ([(''creq-1'', 5)], approved_db)"
proof -
  have "consent_request ''1'' 1 consent_body consent_db =
    (fst (consent_request ''1'' 1 consent_body consent_db), consent_db\<lparr>db_consent_requests := [bot_request]\<rparr>)"
    by (simp add: consent_request_def consent_body_def jget_def jget_default_def consent_db_def sample_token_def MAX_CONSENT_DURATION_def Let_def
        bot_request_def required_text_def sample_db_def empty_db_def)
  then have "consent_step sample_api_env ([], consent_db) ([], consent_db\<lparr>db_consent_requests := [bot_request]\<rparr>)"
    by (rule requested) (simp add: request_ids_def consent_db_def sample_db_def empty_db_def)
  moreover have "consent_approve (sample_api_env\<lparr>en_now := 5\<rparr>) ''1'' ''creq-1'' 1 (consent_db\<lparr>db_consent_requests := [bot_request]\<rparr>) =
     (Inr [(''consent_token'', JStr ''consent-1''), (''scopes'', JList [JStr ''read:balance'']), (''expires_at'', JStr ''t''), (''status'', JStr ''approved'')], approved_db)"
    by (simp add: consent_approve_def owned_request_def bot_request_def settle_request_def update_where_def approved_db_def bot_grant_def Let_def
        sample_api_env_def consent_db_def sample_db_def empty_db_def)
  then have "consent_step sample_api_env ([], consent_db\<lparr>db_consent_requests := [bot_request]\<rparr>) ([] @ [(''creq-1'', 5)], approved_db)"
    by (rule approved) (simp add: consent_db_def sample_db_def empty_db_def)
  ultimately show ?thesis by simp
qed

theorem consent_needs_approval_witness:
  "consent_refusal 100 ''consent-1'' 1 ''acc'' approved_db = Inr bot_grant \<and> (\<exists>r \<in> set (db_consent_requests approved_db). cr_status r = Consent_approved \<and> cr_user_id r = 1)"
proof -
  have r: "consent_refusal 100 ''consent-1'' 1 ''acc'' approved_db = Inr bot_grant"
    by (simp add: consent_refusal_def approved_db_def bot_grant_def)
  have "db_consent_requests consent_db = []" "db_consent_grants consent_db = []" by (simp_all add: consent_db_def sample_db_def empty_db_def)
  from consent_needs_approval [OF consent_run this r] r show ?thesis by blast
qed

theorem revoked_consent_stays_revoked_witness:
  "consent_refusal 100 ''consent-1'' 1 ''acc'' (snd (revoke_consent sample_api_env ''consent-1'' 1 approved_db)) \<noteq> Inr bot_grant"
proof -
  let ?r = "revoke_consent sample_api_env ''consent-1'' 1 approved_db"
  have "?r = (Inr [(''status'', JStr ''revoked''), (''consent_token'', JStr ''consent-1'')], snd ?r)"
    by (simp add: revoke_consent_def approved_db_def bot_grant_def)
  then show ?thesis by (rule revoked_consent_stays_revoked [where env = sample_api_env and ?h1.0 = "[]" and ?h2.0 = "[]"]) simp
qed

end
