(* ===== verification/Registry.thy ===== *)
theory Registry imports Blueprint_Format Consent begin

text \<open>
  \<^verbatim>\<open>src/routers/registry.py\<close>: publishing, searching, downloading and deleting shared blueprints, over the rows of \<open>db_blueprints\<close>.

  A request body of a shape the handler does not expect, and a value its column cannot hold, end as the 500 response. The order of rows with the same
  number of downloads is the order of the table.
\<close>

section \<open>Publishing\<close>

definition VALID_QUALITY_TIERS :: "string set" where
  "VALID_QUALITY_TIERS = {''community'', ''tested'', ''certified''}"

definition underscored :: "string \<Rightarrow> string" where
  "underscored s = map (\<lambda>c. if c = CHR '' '' then CHR ''_'' else c) s"

text \<open>The key of a blueprint: from the domain the raw object states, or from the name. \<open>None\<close>: a domain that is no text.\<close>

definition registry_site :: "(string, json) dict \<Rightarrow> string \<Rightarrow> string option" where
  "registry_site blueprint_json name =
     (case jget_default blueprint_json ''domain'' (JStr '''') of
        JStr domain \<Rightarrow>
          (let site = py_lower (underscored (map (\<lambda>c. if c = CHR ''.'' then CHR ''_'' else c) domain))
           in Some (if site = '''' then underscored (py_lower name) else site))
      | _ \<Rightarrow> None)"

definition find_blueprint :: "app_db \<Rightarrow> string \<Rightarrow> blueprint_row option" where
  "find_blueprint db site = find (\<lambda>r. br_site r = site) (db_blueprints db)"

definition update_blueprint :: "string \<Rightarrow> (blueprint_row \<Rightarrow> blueprint_row) \<Rightarrow> app_db \<Rightarrow> app_db" where
  "update_blueprint site f db = db\<lparr>db_blueprints := update_where (\<lambda>r. br_site r = site) f (db_blueprints db)\<rparr>"

text \<open>\<^verbatim>\<open>parts[-1] = str(int(parts[-1]) + 1)\<close>; \<open>None\<close> is a \<^verbatim>\<open>ValueError\<close>.\<close>

definition bump_version :: "string \<Rightarrow> string option" where
  "bump_version version =
     (let parts = split_on (CHR ''.'') version
      in map_option (\<lambda>n. join (CHR ''.'') (butlast parts @ [show_int (n + 1)])) (py_int (last parts)))"

definition text_array :: "string list \<Rightarrow> json" where
  "text_array xs = JList (map JStr xs)"

text \<open>The blueprint of the request body: an object, or a text to be parsed as one.\<close>

definition submitted_blueprint :: "(string \<Rightarrow> json option) \<Rightarrow> (string, json) dict \<Rightarrow> http_error + json" where
  "submitted_blueprint loads body =
     (let b = jget body ''blueprint''
      in if \<not> truthy b then Inl (unprocessable (CHR 0x27 # ''blueprint'' @ CHR 0x27 # '' field is required (the full blueprint JSON object).''))
         else case b of
           JStr text \<Rightarrow> (case loads text of Some v \<Rightarrow> Inr v
              | None \<Rightarrow> Inl (unprocessable (CHR 0x27 # ''blueprint'' @ CHR 0x27 # '' is not valid JSON.'')))
         | v \<Rightarrow> Inr v)"

definition new_description :: "json \<Rightarrow> string option \<Rightarrow> string option option" where
  "new_description description old = (if truthy description then column_text description else Some old)"

text \<open>A row that is published again, and a new one.\<close>

definition republished :: "blueprint_v2 \<Rightarrow> json \<Rightarrow> string option \<Rightarrow> string \<Rightarrow> blueprint_row \<Rightarrow> blueprint_row" where
  "republished bp v description version r = r\<lparr>br_name := v2_name bp, br_domain := v2_domain bp, br_description := description,
     br_version := version, br_schema_version := v2_schema_version bp, br_tags := Some (Encoded (text_array (v2_tags bp))),
     br_has_mfa := v2_mfa bp \<noteq> None, br_blueprint_json := Encoded v, br_extract_fields := Some (Encoded (text_array (map fst (v2_extract bp))))\<rparr>"

definition new_registry_row :: "user_row \<Rightarrow> string \<Rightarrow> blueprint_v2 \<Rightarrow> json \<Rightarrow> string option \<Rightarrow> blueprint_row" where
  "new_registry_row user site bp v description =
     \<lparr>br_name = v2_name bp, br_site = site, br_domain = v2_domain bp, br_description = description,
      br_author = (if u_username user \<noteq> None \<and> u_username user \<noteq> Some '''' then u_username user else u_email user),
      br_version = ''1.0.0'', br_schema_version = v2_schema_version bp, br_tags = Some (Encoded (text_array (v2_tags bp))),
      br_has_mfa = v2_mfa bp \<noteq> None, br_quality_tier = ''community'', br_blueprint_json = Encoded v,
      br_extract_fields = Some (Encoded (text_array (map fst (v2_extract bp)))), br_downloads = 0, br_published_by = u_id user\<rparr>"

definition store_blueprint :: "user_row \<Rightarrow> string \<Rightarrow> blueprint_v2 \<Rightarrow> json \<Rightarrow> json \<Rightarrow> app_db \<Rightarrow> (string, json) dict reply" where
  "store_blueprint user site bp v description db =
     (case find_blueprint db site of
        Some existing \<Rightarrow>
          if br_published_by existing \<noteq> u_id user
          then (Inl (HTTPException 403 ''A blueprint for this site already exists and belongs to another user.''), db)
          else (case (bump_version (br_version existing), new_description description (br_description existing)) of
                  (Some version, Some description) \<Rightarrow>
                    (Inr [(''status'', JStr ''updated''), (''site'', JStr site), (''version'', JStr version)],
                     update_blueprint site (republished bp v description version) db)
                | _ \<Rightarrow> (Inl server_error, db))
      | None \<Rightarrow>
          (case column_text description of
             None \<Rightarrow> (Inl server_error, db)
           | Some description \<Rightarrow>
               (Inr [(''status'', JStr ''published''), (''site'', JStr site), (''version'', JStr ''1.0.0''), (''quality_tier'', JStr ''community'')],
                db\<lparr>db_blueprints := db_blueprints db @ [new_registry_row user site bp v description]\<rparr>)))"

definition registry_publish ::
  "pydantic \<Rightarrow> (string \<Rightarrow> json option) \<Rightarrow> user_row \<Rightarrow> (string, json) dict \<Rightarrow> app_db \<Rightarrow> (string, json) dict reply" where
  "registry_publish P loads user body db =
     (case submitted_blueprint loads body of
        Inl e \<Rightarrow> (Inl e, db)
      | Inr v \<Rightarrow>
          (case (load_blueprint_from_dict P v, v) of
             (Some bp, JObj d) \<Rightarrow>
               (case registry_site d (v2_name bp) of
                  None \<Rightarrow> (Inl server_error, db)
                | Some site \<Rightarrow> store_blueprint user site bp v (jget_default body ''description'' (JStr '''')) db)
           | _ \<Rightarrow> (Inl (unprocessable ''Invalid blueprint''), db)))"

section \<open>Searching\<close>

text \<open>\<^verbatim>\<open>ILIKE\<close>: the percent sign stands for any text, the underscore for any character, in what the client sends too.\<close>

fun like :: "string \<Rightarrow> string \<Rightarrow> bool" where
  "like [] s = (s = [])"
| "like (p # ps) [] = (p = CHR ''%'' \<and> like ps [])"
| "like (p # ps) (c # s) =
     (if p = CHR ''%'' then like ps (c # s) \<or> like (p # ps) s
      else if p = CHR ''_'' then like ps s
      else p = c \<and> like ps s)"

definition ilike :: "string option \<Rightarrow> string \<Rightarrow> bool" where
  "ilike column pattern = (case column of None \<Rightarrow> False | Some s \<Rightarrow> like (py_lower pattern) (py_lower s))"

text \<open>The text of a column that holds JSON.\<close>

definition stored_text :: "(json \<Rightarrow> string) \<Rightarrow> json_text \<Rightarrow> string" where
  "stored_text dumps t = (case t of Encoded v \<Rightarrow> dumps v | RawText s \<Rightarrow> s)"

definition loads_or_empty :: "json_text option \<Rightarrow> json option" where
  "loads_or_empty t = (case t of None \<Rightarrow> Some (JList []) | Some (RawText s) \<Rightarrow> if s = '''' then Some (JList []) else None | Some (Encoded v) \<Rightarrow> Some v)"

definition opt_text :: "string option \<Rightarrow> json" where
  "opt_text t = (case t of None \<Rightarrow> JNull | Some s \<Rightarrow> JStr s)"

text \<open>What is shown of a row; \<open>None\<close> when a column does not parse.\<close>

definition row_json :: "blueprint_row \<Rightarrow> (string, json) dict option" where
  "row_json r = do {
     tags \<leftarrow> loads_or_empty (br_tags r);
     extract \<leftarrow> loads_or_empty (br_extract_fields r);
     Some [(''site'', JStr (br_site r)), (''name'', JStr (br_name r)), (''domain'', JStr (br_domain r)), (''description'', opt_text (br_description r)),
       (''author'', opt_text (br_author r)), (''version'', JStr (br_version r)), (''schema_version'', JStr (br_schema_version r)), (''tags'', tags),
       (''has_mfa'', JBool (br_has_mfa r)), (''quality_tier'', JStr (br_quality_tier r)), (''extract_fields'', extract),
       (''downloads'', JInt (br_downloads r))]
   }"

definition matches_query :: "string option \<Rightarrow> blueprint_row \<Rightarrow> bool" where
  "matches_query q r =
     (case given q of
        None \<Rightarrow> True
      | Some q \<Rightarrow> let term = ''%'' @ q @ ''%''
          in ilike (Some (br_name r)) term \<or> ilike (Some (br_domain r)) term \<or> ilike (Some (br_site r)) term \<or> ilike (br_description r) term)"

definition matches_tag :: "(json \<Rightarrow> string) \<Rightarrow> string option \<Rightarrow> blueprint_row \<Rightarrow> bool" where
  "matches_tag dumps tag r =
     (case given tag of
        None \<Rightarrow> True
      | Some tag \<Rightarrow> ilike (map_option (stored_text dumps) (br_tags r)) (''%'' @ [CHR 0x22] @ tag @ [CHR 0x22] @ ''%''))"

definition registry_search ::
  "(json \<Rightarrow> string) \<Rightarrow> string option \<Rightarrow> string option \<Rightarrow> string option \<Rightarrow> app_db \<Rightarrow> http_error + (string, json) dict" where
  "registry_search dumps q tag tier db =
     (if (case given tier of None \<Rightarrow> False | Some t \<Rightarrow> t \<notin> VALID_QUALITY_TIERS)
      then Inl (unprocessable ''Invalid tier.'')
      else let found = filter (\<lambda>r. matches_query q r \<and> matches_tag dumps tag r \<and> (case given tier of None \<Rightarrow> True | Some t \<Rightarrow> br_quality_tier r = t))
                   (db_blueprints db);
               results = sort_key (\<lambda>r. - br_downloads r) found
           in (case those (map row_json results) of
                 None \<Rightarrow> Inl server_error
               | Some rows \<Rightarrow> Inr [(''results'', JList (map JObj rows)), (''count'', JInt (int (length results)))]))"

section \<open>Downloading and deleting\<close>

definition not_in_registry :: "string \<Rightarrow> http_error" where
  "not_in_registry site = HTTPException 404 (''Blueprint '' @ CHR 0x27 # site @ CHR 0x27 # '' not found in registry.'')"

definition registry_get :: "string \<Rightarrow> app_db \<Rightarrow> (string, json) dict reply" where
  "registry_get site db =
     (case find_blueprint db site of
        None \<Rightarrow> (Inl (not_in_registry site), db)
      | Some record \<Rightarrow>
          let db = update_blueprint site (\<lambda>r. r\<lparr>br_downloads := br_downloads r + 1\<rparr>) db
          in (case (row_json (record\<lparr>br_downloads := br_downloads record + 1\<rparr>), loaded (br_blueprint_json record)) of
                (Some d, Some v) \<Rightarrow> (Inr (d @ [(''blueprint'', v)]), db)
              | _ \<Rightarrow> (Inl server_error, db)))"

definition registry_delete :: "string \<Rightarrow> user_row \<Rightarrow> app_db \<Rightarrow> (string, json) dict reply" where
  "registry_delete site user db =
     (case find_blueprint db site of
        None \<Rightarrow> (Inl (not_in_registry site), db)
      | Some record \<Rightarrow>
          if br_published_by record \<noteq> u_id user then (Inl (HTTPException 403 ''Only the blueprint owner can delete it.''), db)
          else (Inr [(''status'', JStr ''deleted''), (''site'', JStr site)],
            db\<lparr>db_blueprints := filter (\<lambda>r. br_site r \<noteq> site) (db_blueprints db)\<rparr>))"

section \<open>What publishing does\<close>

lemma store_cases:
  assumes "store_blueprint user site bp v d db = (r, db')"
  obtains (refused) e where "db' = db" "r = Inl e"
  | (created) description where "find_blueprint db site = None" "db' = db\<lparr>db_blueprints := db_blueprints db @ [new_registry_row user site bp v description]\<rparr>"
      "\<exists>d. r = Inr d"
  | (updated) existing version description where "find_blueprint db site = Some existing" "br_published_by existing = u_id user"
      "bump_version (br_version existing) = Some version" "db' = update_blueprint site (republished bp v description version) db"
      "r = Inr [(''status'', JStr ''updated''), (''site'', JStr site), (''version'', JStr version)]"
  using assms unfolding store_blueprint_def by (simp split: option.splits if_splits) (auto dest!: sym [of _ db'] sym [of _ r])

text \<open>A request either is refused, or stores its blueprint under the key of its site.\<close>

lemma publish_stores:
  assumes "registry_publish P loads user body db = (r, db')"
  obtains (refused) e where "db' = db" "r = Inl e"
  | (stored) v bp d site where "submitted_blueprint loads body = Inr v" "v = JObj d" "load_blueprint_from_dict P v = Some bp"
      "registry_site d (v2_name bp) = Some site" "store_blueprint user site bp v (jget_default body ''description'' (JStr '''')) db = (r, db')"
  using assms unfolding registry_publish_def by (simp split: sum.splits option.splits json.splits) (auto dest!: sym [of _ db'] sym [of _ r])

lemma republished_keeps [simp]:
  "br_site (republished bp v d n r) = br_site r" "br_published_by (republished bp v d n r) = br_published_by r"
  "br_quality_tier (republished bp v d n r) = br_quality_tier r" "br_version (republished bp v d n r) = n"
  "br_downloads (republished bp v d n r) = br_downloads r" "br_blueprint_json (republished bp v d n r) = Encoded v"
  by (simp_all add: republished_def)

lemma new_registry_row_sel [simp]:
  "br_site (new_registry_row user site bp v d) = site" "br_published_by (new_registry_row user site bp v d) = u_id user"
  "br_version (new_registry_row user site bp v d) = ''1.0.0''" "br_blueprint_json (new_registry_row user site bp v d) = Encoded v"
  by (simp_all add: new_registry_row_def)

lemma find_update_blueprint:
  assumes "\<And>r. br_site (f r) = br_site r"
  shows "find_blueprint (update_blueprint site f db) site' = map_option (\<lambda>r. if site' = site then f r else r) (find_blueprint db site')"
proof (cases "find_blueprint db site'")
  case (Some r)
  then have "br_site r = site'" by (auto simp: find_blueprint_def find_Some_iff)
  with Some show ?thesis using assms by (auto simp: find_blueprint_def update_blueprint_def find_update_where)
qed (use assms in \<open>simp add: find_blueprint_def update_blueprint_def find_update_where\<close>)

lemma find_new_blueprint:
  "find_blueprint db (br_site row) = None \<Longrightarrow>
     find_blueprint (db\<lparr>db_blueprints := db_blueprints db @ [row]\<rparr>) site = (if site = br_site row then Some row else find_blueprint db site)"
proof -
  have "find P (rs @ [row]) = (if find P rs = None \<and> P row then Some row else find P rs)" for P and rs :: "blueprint_row list"
    by (induction rs) auto
  then show "find_blueprint db (br_site row) = None \<Longrightarrow> ?thesis" by (simp add: find_blueprint_def)
qed

section \<open>Requests\<close>

datatype registry_op = Publish user_row "(string, json) dict" | Download string | Remove string user_row

fun registry_step :: "pydantic \<Rightarrow> (string \<Rightarrow> json option) \<Rightarrow> registry_op \<Rightarrow> app_db \<Rightarrow> app_db" where
  "registry_step P loads (Publish user body) db = snd (registry_publish P loads user body db)"
| "registry_step P loads (Download site) db = snd (registry_get site db)"
| "registry_step P loads (Remove site user) db = snd (registry_delete site user db)"

fun acts_as :: "registry_op \<Rightarrow> int option" where
  "acts_as (Publish user body) = Some (u_id user)"
| "acts_as (Download site) = None"
| "acts_as (Remove site user) = Some (u_id user)"

text \<open>A row apart from its downloads, which are only counted up.\<close>

definition same_entry :: "blueprint_row \<Rightarrow> blueprint_row \<Rightarrow> bool" where
  "same_entry r r' \<longleftrightarrow> (\<exists>n :: nat. r' = r\<lparr>br_downloads := br_downloads r + int n\<rparr>)"

lemma same_entry_refl [simp]: "same_entry r r"
  unfolding same_entry_def by (intro exI [of _ 0]) simp

lemma same_entry_trans: "same_entry r r' \<Longrightarrow> same_entry r' r'' \<Longrightarrow> same_entry r r''"
  unfolding same_entry_def by (auto simp: add.assoc simp flip: of_nat_add)

lemma find_removed:
  "find_blueprint (db\<lparr>db_blueprints := filter (\<lambda>r. br_site r \<noteq> s) (db_blueprints db)\<rparr>) site = (if site = s then None else find_blueprint db site)"
proof -
  have "find (\<lambda>r. br_site r = site) (filter (\<lambda>r. br_site r \<noteq> s) rs) = (if site = s then None else find (\<lambda>r. br_site r = site) rs)" for rs :: "blueprint_row list"
    by (induction rs) auto
  then show ?thesis by (simp add: find_blueprint_def)
qed

lemma step_keeps_entry:
  assumes "find_blueprint db site = Some r" "acts_as op \<noteq> Some (br_published_by r)"
  shows "\<exists>r'. find_blueprint (registry_step P loads op db) site = Some r' \<and> same_entry r r'"
proof (cases op)
  case (Publish user body)
  obtain x db' where run: "registry_publish P loads user body db = (x, db')" by fastforce
  from run show ?thesis
  proof (cases rule: publish_stores)
    case (stored v bp d s)
    from stored(5) show ?thesis
    proof (cases rule: store_cases)
      case (created description)
      have "find_blueprint db' site = Some r"
        using find_new_blueprint [of db "new_registry_row user s bp v description" site] assms(1) created by (simp split: if_splits)
      then show ?thesis using run Publish by auto
    next
      case (updated existing version description)
      then have "s \<noteq> site" using assms Publish by auto
      then have "find_blueprint db' site = Some r" using assms(1) updated(4) by (simp add: find_update_blueprint)
      then show ?thesis using run Publish by auto
    qed (use run assms Publish in auto)
  qed (use run assms Publish in auto)
next
  case (Download s)
  have "same_entry r (r\<lparr>br_downloads := br_downloads r + 1\<rparr>)" unfolding same_entry_def by (intro exI [of _ 1]) simp
  then show ?thesis using Download assms(1)
    by (auto simp: registry_get_def Let_def find_update_blueprint split: option.splits)
next
  case (Remove s user)
  have "snd (registry_delete s user db) = db \<or>
      s \<noteq> site \<and> snd (registry_delete s user db) = db\<lparr>db_blueprints := filter (\<lambda>r. br_site r \<noteq> s) (db_blueprints db)\<rparr>"
    using assms Remove by (auto simp: registry_delete_def split: option.split)
  then show ?thesis using Remove assms(1) by (elim disjE) (auto simp: find_removed)
qed

lemma step_entry_owner: "same_entry r r' \<Longrightarrow> br_published_by r' = br_published_by r"
  by (auto simp: same_entry_def)

text \<open>C29. A published blueprint belongs to its publisher: whatever everybody else publishes, downloads or deletes, in any order, it stays as it is, and
  only its downloads are counted up.\<close>

theorem registry_entry_is_publishers:
  assumes "find_blueprint db site = Some r" "\<forall>op \<in> set ops. acts_as op \<noteq> Some (br_published_by r)"
  shows "\<exists>n :: nat. find_blueprint (fold (registry_step P loads) ops db) site = Some (r\<lparr>br_downloads := br_downloads r + int n\<rparr>)"
proof -
  have "\<exists>r'. find_blueprint (fold (registry_step P loads) ops db) site = Some r' \<and> same_entry r r'" using assms
  proof (induction ops arbitrary: db r)
    case (Cons op ops)
    obtain r1 where r1: "find_blueprint (registry_step P loads op db) site = Some r1" "same_entry r r1"
      using step_keeps_entry Cons.prems by (metis list.set_intros(1))
    with Cons.IH [OF r1(1)] Cons.prems(2) step_entry_owner [OF r1(2)] show ?case by (auto intro: same_entry_trans)
  qed simp
  then show ?thesis by (auto simp: same_entry_def)
qed

section \<open>Versions\<close>

lemma split_on_absent: "c \<notin> set s \<Longrightarrow> split_on c s = [s]"
  by (induction s) auto

lemma no_dot_in_numeral: "CHR ''.'' \<notin> set (show_nat n)"
  using show_nat_digits [of n] by auto

lemma bump_first_version: "bump_version (''1.0.'' @ show_nat n) = Some (''1.0.'' @ show_nat (n + 1))"
  by (simp add: bump_version_def Let_def split_on_absent [OF no_dot_in_numeral] show_int_def nat_add_distrib add.commute)

text \<open>The rows of the registry: one for each site, at a version that its updates count.\<close>

definition registry_entries_ok :: "app_db \<Rightarrow> bool" where
  "registry_entries_ok db \<longleftrightarrow> distinct (map br_site (db_blueprints db)) \<and> (\<forall>r \<in> set (db_blueprints db). \<exists>n. br_version r = ''1.0.'' @ show_nat n)"

lemma map_site_update: "(\<And>r. br_site (f r) = br_site r) \<Longrightarrow> map br_site (update_where P f rs) = map br_site rs"
  by (simp add: update_where_def)

lemma find_blueprint_in: "find_blueprint db site = Some r \<Longrightarrow> r \<in> set (db_blueprints db) \<and> br_site r = site"
  by (auto simp: find_blueprint_def find_Some_iff)

lemma first_version: "\<exists>n. ''1.0.0'' = ''1.0.'' @ show_nat n"
proof -
  have "show_nat 0 = ''0''" by code_simp
  then show ?thesis by (intro exI [of _ 0]) simp
qed

lemma store_keeps_ok:
  assumes "registry_entries_ok db" "store_blueprint user site bp v d db = (x, db')"
  shows "registry_entries_ok db'"
  using assms(2)
proof (cases rule: store_cases)
  case (created description)
  then have "site \<notin> br_site ` set (db_blueprints db)" by (auto simp: find_blueprint_def find_None_iff)
  then show ?thesis using assms(1) created first_version by (auto simp: registry_entries_ok_def)
next
  case (updated existing version description)
  then obtain n where "br_version existing = ''1.0.'' @ show_nat n" using assms(1) find_blueprint_in by (fastforce simp: registry_entries_ok_def)
  then have "version = ''1.0.'' @ show_nat (n + 1)" using updated(3) bump_first_version [of n] by simp
  then show ?thesis using assms(1) updated(4)
    by (auto simp: registry_entries_ok_def update_blueprint_def map_site_update in_update_where)
qed (use assms in auto)

lemma registry_step_ok: "registry_entries_ok db \<Longrightarrow> registry_entries_ok (registry_step P loads op db)"
proof (cases op)
  case (Publish user body)
  assume ok: "registry_entries_ok db"
  obtain x db' where run: "registry_publish P loads user body db = (x, db')" by fastforce
  then have "registry_entries_ok db'" using ok by (cases rule: publish_stores) (auto dest: store_keeps_ok)
  then show ?thesis using run Publish by simp
next
  case (Download s)
  assume "registry_entries_ok db"
  then show ?thesis using Download
    by (auto simp: registry_get_def registry_entries_ok_def Let_def update_blueprint_def map_site_update in_update_where split: option.split)
next
  case (Remove s user)
  assume "registry_entries_ok db"
  then show ?thesis using Remove by (auto simp: registry_delete_def registry_entries_ok_def distinct_map_filter split: option.split)
qed

text \<open>What was published is what is downloaded: the reply names the key under which the next download gives the very object of the request, at the
  version of the reply.\<close>

definition reply_site :: "(string, json) dict \<Rightarrow> string" where
  "reply_site d = jtext (jget d ''site'')"

theorem published_blueprint_is_downloaded:
  assumes "registry_publish P loads user body db = (Inr d, db')"
  shows "\<exists>v d' db''. submitted_blueprint loads body = Inr v \<and> registry_get (reply_site d) db' = (Inr d', db'') \<and>
    jget d' ''blueprint'' = v \<and> jget d' ''version'' = jget d ''version''"
  using assms
proof (cases rule: publish_stores)
  case (stored v bp o site)
  have got: "\<exists>d' db''. registry_get site db' = (Inr d', db'') \<and> jget d' ''blueprint'' = v \<and> jget d' ''version'' = JStr (br_version row)"
    if "find_blueprint db' site = Some row" "br_blueprint_json row = Encoded v" "br_tags row = Some (Encoded t)" "br_extract_fields row = Some (Encoded x)"
    for row t x
    using that by (simp add: registry_get_def Let_def row_json_def loads_or_empty_def jget_def)
  from stored(5) show ?thesis
  proof (cases rule: store_cases)
    case (created description)
    have "find_blueprint db' site = Some (new_registry_row user site bp v description)"
      using find_new_blueprint [of db "new_registry_row user site bp v description" site] created by simp
    moreover have "reply_site d = site" "jget d ''version'' = JStr ''1.0.0''"
      using stored(5) created(1) by (auto simp: store_blueprint_def reply_site_def jget_def jtext_def split: option.splits)
    ultimately show ?thesis using got [of "new_registry_row user site bp v description"] stored(1) by (simp add: new_registry_row_def)
  next
    case (updated existing version description)
    have "find_blueprint db' site = Some (republished bp v description version existing)"
      using updated(1,4) by (simp add: find_update_blueprint)
    moreover have "reply_site d = site" "jget d ''version'' = JStr version"
      using updated(5) by (simp_all add: reply_site_def jget_def jtext_def)
    ultimately show ?thesis using got [of "republished bp v description version existing"] stored(1) by (simp add: republished_def)
  qed simp
qed simp

text \<open>A quality tier is not tied to what was reviewed: replacing the blueprint keeps the tier of the old one.\<close>

theorem certified_tier_survives_replacement:
  assumes "find_blueprint db site = Some r" "registry_publish P loads user body db = (Inr d, db')" "reply_site d = site"
  shows "\<exists>r' v. find_blueprint db' site = Some r' \<and> submitted_blueprint loads body = Inr v \<and> br_blueprint_json r' = Encoded v \<and>
    br_quality_tier r' = br_quality_tier r"
  using assms(2)
proof (cases rule: publish_stores)
  case (stored v bp o s)
  from stored(5) show ?thesis
  proof (cases rule: store_cases)
    case (created description)
    then have "reply_site d = s"
      using stored(5) by (auto simp: store_blueprint_def reply_site_def jget_def jtext_def split: option.splits)
    then show ?thesis using assms(1,3) created(1) by simp
  next
    case (updated existing version description)
    then have "reply_site d = s" by (simp add: reply_site_def jget_def jtext_def)
    then show ?thesis using assms(1,3) updated(1,4) stored(1) by (simp add: find_update_blueprint)
  qed simp
qed simp

section \<open>Squatting\<close>

definition domain_key :: "string \<Rightarrow> string" where
  "domain_key domain = py_lower (underscored (map (\<lambda>c. if c = CHR ''.'' then CHR ''_'' else c) domain))"


lemma underscored_key: "underscored (py_lower (underscored s)) = py_lower (underscored s)"
proof -
  have "lower_char (if c = CHR '' '' then CHR ''_'' else c) \<noteq> CHR '' ''" for c
  proof (cases "65 \<le> (of_char c :: nat) \<and> (of_char c :: nat) \<le> 90")
    case True
    then have "(of_char (lower_char c) :: nat) = of_char c + 32" by (simp add: lower_char_def Let_def of_char_of)
    then have "(of_char (lower_char c) :: nat) \<noteq> of_char (CHR '' '')" using True by simp
    then show ?thesis using True by auto
  next
    case False
    then have "lower_char c = c" by (auto simp: lower_char_def Let_def)
    moreover have "lower_char (CHR ''_'') = CHR ''_''" by code_simp
    ultimately show ?thesis by simp
  qed
  then show ?thesis by (simp add: underscored_def py_lower_def)
qed

definition squat :: "string \<Rightarrow> (string, json) dict" where
  "squat key = [(''name'', JStr key)]"

text \<open>The key of a site is taken from the name when the object states no domain: then anybody can take the key of a domain, whose owner is refused
  from then on.\<close>

theorem site_key_can_be_squatted:
  assumes "domain_key domain \<noteq> ''''" "find_blueprint db (domain_key domain) = None" "u_id owner \<noteq> u_id mallory"
    and "load_blueprint_from_dict P (JObj d) = Some bp" "map_of d ''domain'' = Some (JStr domain)"
  shows "\<exists>db1 r. registry_publish P loads mallory [(''blueprint'', JObj (squat (domain_key domain)))] db = (Inr r, db1) \<and>
    registry_publish P loads owner [(''blueprint'', JObj d)] db1 =
      (Inl (HTTPException 403 ''A blueprint for this site already exists and belongs to another user.''), db1)"
proof -
  let ?k = "domain_key domain"
  obtain st where st: "load_blueprint_from_dict P (JObj (squat ?k)) = Some (bare_v1 ?k st)"
    by (rule unversioned_loads [of "squat ?k" ?k]) (simp_all add: squat_def with_default_def pd_str_def)
  have squatted: "registry_site (squat ?k) ?k = Some ?k"
  proof -
    have "underscored (py_lower ?k) = ?k" using underscored_key by (simp add: domain_key_def)
    moreover have "underscored [] = []" "py_lower [] = []" by (simp_all add: underscored_def py_lower_def)
    ultimately show ?thesis by (simp add: registry_site_def squat_def jget_default_def)
  qed
  have owned: "registry_site d (v2_name bp) = Some ?k"
    using assms(1,5) by (simp add: registry_site_def jget_default_def domain_key_def)
  have sent: "submitted_blueprint loads [(''blueprint'', JObj x)] = Inr (JObj x)" if "x \<noteq> []" for x
    using that by (simp add: submitted_blueprint_def jget_def)
  have desc: "jget_default [(''blueprint'', JObj x)] ''description'' (JStr '''') = JStr ''''" for x by (simp add: jget_default_def)
  let ?row = "new_registry_row mallory ?k (bare_v1 ?k st) (JObj (squat ?k)) (Some '''')"
  let ?db1 = "db\<lparr>db_blueprints := db_blueprints db @ [?row]\<rparr>"
  have "v2_name (bare_v1 ?k st) = ?k" by (simp add: bare_v1_def)
  then have first: "\<exists>r. registry_publish P loads mallory [(''blueprint'', JObj (squat ?k))] db = (Inr r, ?db1)"
    using sent [of "squat ?k"] st squatted assms(2) by (simp add: registry_publish_def desc store_blueprint_def squat_def)
  have "find_blueprint ?db1 ?k = Some ?row" using find_new_blueprint [of db ?row ?k] assms(2) by simp
  moreover have "d \<noteq> []" using assms(5) by auto
  ultimately have "registry_publish P loads owner [(''blueprint'', JObj d)] ?db1 =
      (Inl (HTTPException 403 ''A blueprint for this site already exists and belongs to another user.''), ?db1)"
    using sent [of d] assms(3,4) owned by (simp add: registry_publish_def store_blueprint_def)
  with first show ?thesis by blast
qed

section \<open>An example\<close>

definition registry_user :: "int \<Rightarrow> user_row" where
  "registry_user i = (sample_user i None)\<lparr>u_username := Some ''ann''\<rparr>"

definition bank_body :: "(string, json) dict" where
  "bank_body = [(''blueprint'', JObj [(''name'', JStr ''Bank''), (''domain'', JStr ''bank.com'')])]"

lemma bank_published:
  "\<exists>d db r. registry_publish sample_pydantic (\<lambda>_. None) (registry_user 1) bank_body empty_db = (Inr d, db) \<and> reply_site d = ''bank_com'' \<and>
     find_blueprint db ''bank_com'' = Some r \<and> br_published_by r = 1"
proof -
  obtain st where st: "load_blueprint_from_dict sample_pydantic (JObj [(''name'', JStr ''Bank''), (''domain'', JStr ''bank.com'')]) = Some (bare_v1 ''Bank'' st)"
    by (rule unversioned_loads [of "[(''name'', JStr ''Bank''), (''domain'', JStr ''bank.com'')]" "''Bank''"]) (simp_all add: with_default_def pd_str_def)
  have key: "registry_site [(''name'', JStr ''Bank''), (''domain'', JStr ''bank.com'')] ''Bank'' = Some ''bank_com''" by code_simp
  have name: "v2_name (bare_v1 ''Bank'' st) = ''Bank''" by (simp add: bare_v1_def)
  show ?thesis
    by (simp add: registry_publish_def submitted_blueprint_def bank_body_def jget_def jget_default_def st key name store_blueprint_def find_blueprint_def
      empty_db_def reply_site_def jtext_def registry_user_def sample_user_def)
qed

theorem registry_entry_is_publishers_witness:
  "\<exists>db r n. find_blueprint db ''bank_com'' = Some r \<and> br_published_by r = 1 \<and>
     find_blueprint (fold (registry_step sample_pydantic (\<lambda>_. None)) [Remove ''bank_com'' (registry_user 2), Download ''bank_com''] db) ''bank_com'' =
       Some (r\<lparr>br_downloads := br_downloads r + int n\<rparr>)"
proof -
  obtain db r where "find_blueprint db ''bank_com'' = Some r" "br_published_by r = 1" using bank_published by blast
  then show ?thesis
    using registry_entry_is_publishers [of db "''bank_com''" r "[Remove ''bank_com'' (registry_user 2), Download ''bank_com'']" sample_pydantic "\<lambda>_. None"]
    by (fastforce simp: registry_user_def sample_user_def)
qed

theorem published_blueprint_is_downloaded_witness:
  "\<exists>d db v d' db'. registry_publish sample_pydantic (\<lambda>_. None) (registry_user 1) bank_body empty_db = (Inr d, db) \<and>
     submitted_blueprint (\<lambda>_. None) bank_body = Inr v \<and> registry_get (reply_site d) db = (Inr d', db') \<and> jget d' ''blueprint'' = v \<and>
     jget d' ''version'' = jget d ''version''"
proof -
  obtain d db where run: "registry_publish sample_pydantic (\<lambda>_. None) (registry_user 1) bank_body empty_db = (Inr d, db)"
    using bank_published by blast
  with published_blueprint_is_downloaded [OF run] show ?thesis by blast
qed

theorem certified_tier_survives_replacement_witness:
  "\<exists>db r d db' r' v. find_blueprint db ''bank_com'' = Some r \<and> br_quality_tier r = ''certified'' \<and>
     registry_publish sample_pydantic (\<lambda>_. None) (registry_user 1) bank_body db = (Inr d, db') \<and>
     find_blueprint db' ''bank_com'' = Some r' \<and> submitted_blueprint (\<lambda>_. None) bank_body = Inr v \<and> br_blueprint_json r' = Encoded v \<and>
     br_quality_tier r' = br_quality_tier r"
proof -
  let ?o = "[(''name'', JStr ''Bank''), (''domain'', JStr ''bank.com'')]"
  obtain st where st: "load_blueprint_from_dict sample_pydantic (JObj ?o) = Some (bare_v1 ''Bank'' st)"
    by (rule unversioned_loads [of ?o "''Bank''"]) (simp_all add: with_default_def pd_str_def)
  have key: "registry_site ?o ''Bank'' = Some ''bank_com''" by code_simp
  have name: "v2_name (bare_v1 ''Bank'' st) = ''Bank''" by (simp add: bare_v1_def)
  define row where "row = (new_registry_row (registry_user 1) ''bank_com'' (bare_v1 ''Bank'' st) JNull None)
    \<lparr>br_version := ''1.0.'' @ show_nat 0, br_quality_tier := ''certified''\<rparr>"
  define db where "db = empty_db\<lparr>db_blueprints := [row]\<rparr>"
  have row: "br_version row = ''1.0.'' @ show_nat 0" "br_quality_tier row = ''certified''" "br_published_by row = u_id (registry_user 1)"
    "br_site row = ''bank_com''" by (simp_all add: row_def)
  have found: "find_blueprint db ''bank_com'' = Some row" by (simp add: find_blueprint_def db_def row)
  obtain d db' where run: "registry_publish sample_pydantic (\<lambda>_. None) (registry_user 1) bank_body db = (Inr d, db')" "reply_site d = ''bank_com''"
    using bump_first_version [of 0]
    by (simp add: registry_publish_def submitted_blueprint_def bank_body_def jget_def jget_default_def st key name store_blueprint_def found row
      reply_site_def jtext_def new_description_def)
  show ?thesis using certified_tier_survives_replacement [OF found run(1) run(2)] found run(1) row(2) by fastforce
qed

theorem site_key_can_be_squatted_witness:
  "\<exists>db1 r. registry_publish sample_pydantic (\<lambda>_. None) (registry_user 2) [(''blueprint'', JObj (squat ''bank_com''))] empty_db = (Inr r, db1) \<and>
    registry_publish sample_pydantic (\<lambda>_. None) (registry_user 1) bank_body db1 =
      (Inl (HTTPException 403 ''A blueprint for this site already exists and belongs to another user.''), db1)"
proof -
  let ?o = "[(''name'', JStr ''Bank''), (''domain'', JStr ''bank.com'')]"
  obtain st where st: "load_blueprint_from_dict sample_pydantic (JObj ?o) = Some (bare_v1 ''Bank'' st)"
    by (rule unversioned_loads [of ?o "''Bank''"]) (simp_all add: with_default_def pd_str_def)
  have key: "domain_key ''bank.com'' = ''bank_com''" by code_simp
  have "u_id (registry_user 1) \<noteq> u_id (registry_user 2)" by (simp add: registry_user_def sample_user_def)
  from site_key_can_be_squatted [of "''bank.com''" empty_db "registry_user 1" "registry_user 2" sample_pydantic ?o _ "\<lambda>_. None", OF _ _ this st]
  show ?thesis by (simp add: key bank_body_def find_blueprint_def empty_db_def)
qed

end
