(* ===== verification/Blueprint_Generator.thy ===== *)
theory Blueprint_Generator imports Blueprint_Format begin

text \<open>
  \<^verbatim>\<open>src/core/blueprint_generator.py\<close>: a blueprint for an arbitrary site from what a language model says of its login page.

  The language model, the page and Pydantic are parameters; the prompts are texts no theorem looks at. A run that ends in \<open>None\<close> raised an
  exception of the code itself: an answer of another shape, a number that is none, or a blueprint that does not validate.
\<close>

section \<open>Discovery of the login form\<close>

record login_form_discovery =
  ld_username_selector :: json
  ld_password_selector :: json
  ld_submit_selector :: json
  ld_pre_login_steps :: json
  ld_mfa_likely :: bool
  ld_mfa_hints :: string
  ld_page_title :: string
  ld_confidence :: real

record generator =
  bg_provider :: provider
  bg_vision_provider :: provider
  bg_llm_lib :: llm_lib
  bg_pydantic :: pydantic
  bg_tokenize :: "string \<Rightarrow> html_event list"
  bg_str :: "json \<Rightarrow> string"
  bg_latency :: real
  bg_post :: "provider \<Rightarrow> (string, json) dict \<Rightarrow> (string, http_reply) outcome"
  bg_login_prompt :: string
  bg_vision_prompt :: string
  bg_field_prompt :: string

text \<open>The discovery of a page that could not be read.\<close>

definition no_discovery :: login_form_discovery where
  "no_discovery = \<lparr>ld_username_selector = JNull, ld_password_selector = JNull, ld_submit_selector = JNull, ld_pre_login_steps = JList [],
     ld_mfa_likely = False, ld_mfa_hints = '''', ld_page_title = '''', ld_confidence = 0\<rparr>"

text \<open>\<^verbatim>\<open>float(v)\<close>; \<open>None\<close> is a \<^verbatim>\<open>TypeError\<close> or \<^verbatim>\<open>ValueError\<close>.\<close>

fun json_float :: "(string \<Rightarrow> real option) \<Rightarrow> json \<Rightarrow> real option" where
  "json_float f (JInt i) = Some (of_int i)"
| "json_float f (JNum r) = Some r"
| "json_float f (JBool b) = Some (if b then 1 else 0)"
| "json_float f (JStr s) = f s"
| "json_float f _ = None"

definition read_discovery :: "generator \<Rightarrow> json \<Rightarrow> login_form_discovery option" where
  "read_discovery g v = do {
     r \<leftarrow> pd_obj v;
     confidence \<leftarrow> json_float (ll_float (bg_llm_lib g)) (jdefault r ''confidence'' (JNum 0));
     Some \<lparr>ld_username_selector = jget r ''username_selector'', ld_password_selector = jget r ''password_selector'',
       ld_submit_selector = jget r ''submit_selector'', ld_pre_login_steps = jdefault r ''pre_login_steps'' (JList []),
       ld_mfa_likely = truthy (jdefault r ''mfa_likely'' (JBool False)), ld_mfa_hints = py_str (bg_str g) (jdefault r ''mfa_hints'' (JStr '''')),
       ld_page_title = py_str (bg_str g) (jdefault r ''page_title'' (JStr '''')), ld_confidence = confidence\<rparr>
   }"

text \<open>\<^verbatim>\<open>except (LLMProviderError, JSONDecodeError, ValueError)\<close> around a call and the reading of its answer; of the other errors of a call only the
  one for a \<^verbatim>\<open>retry-after\<close> that is no number is a \<^verbatim>\<open>ValueError\<close>. \<open>None\<close>: another exception or a cancellation.\<close>

definition value_error :: "llm_exc \<Rightarrow> bool" where
  "value_error e \<longleftrightarrow> e = LLM_other ''could not convert string to float''"

definition answer_or :: "(string \<Rightarrow> json option) \<Rightarrow> (llm_exc, llm_response) outcome \<Rightarrow> 'a \<Rightarrow> (json \<Rightarrow> 'a option) \<Rightarrow> 'a option" where
  "answer_or loads r fallback k =
     (case r of
        Returned a \<Rightarrow> (case parse_json loads a of Parsed v \<Rightarrow> k v | Decode_error \<Rightarrow> Some fallback | Type_error \<Rightarrow> None)
      | Raised e \<Rightarrow> if provider_error e \<or> value_error e then Some fallback else None
      | Cancelled \<Rightarrow> None)"

definition generator_extract :: "generator \<Rightarrow> string \<Rightarrow> string \<Rightarrow> (llm_exc, llm_response) outcome" where
  "generator_extract g prompt system_prompt =
     llm_call (bg_llm_lib g) (bg_provider g) (bg_latency g)
       (bg_post g (bg_provider g) (llm_payload (bg_provider g) (extract_messages prompt (Some system_prompt)) (Some 2048) None
         (Some (JObj [(''type'', JStr ''json_object'')]))))"

definition login_page_prompt :: "string \<Rightarrow> string" where
  "login_page_prompt html = ''## Login Page HTML'' @ [newline] @
     ''Analyze this simplified HTML and identify the login form elements.'' @ [newline, newline] @
     fence @ ''html'' @ [newline] @ html @ [newline] @ fence @ [newline]"

definition discover_login_form_dom :: "generator \<Rightarrow> string \<Rightarrow> login_form_discovery option" where
  "discover_login_form_dom g content =
     (let dom = simplify_html content (bg_tokenize g content) DEFAULT_TOKEN_BUDGET
      in answer_or (ll_loads (bg_llm_lib g)) (generator_extract g (login_page_prompt (sd_html dom)) (bg_login_prompt g)) no_discovery (read_discovery g))"

text \<open>\<open>screenshot\<close>: the bytes, or \<open>None\<close> when the page raised.\<close>

definition discover_login_form_vision :: "generator \<Rightarrow> string option \<Rightarrow> login_form_discovery option" where
  "discover_login_form_vision g screenshot =
     (case screenshot of
        None \<Rightarrow> Some no_discovery
      | Some png \<Rightarrow>
          answer_or (ll_loads (bg_llm_lib g))
            (llm_call (bg_llm_lib g) (bg_vision_provider g) (bg_latency g)
              (bg_post g (bg_vision_provider g) (llm_payload (bg_vision_provider g)
                (vision_messages (bg_vision_prompt g) ''Analyze this login page screenshot and identify the form elements.'' (b64_encode png)) None None None)))
            no_discovery (read_discovery g))"

section \<open>Discovery of the fields\<close>

definition field_json :: "string \<Rightarrow> string \<Rightarrow> string \<Rightarrow> bool \<Rightarrow> json" where
  "field_json name type description sensitive =
     JObj [(''name'', JStr name), (''type'', JStr type), (''description'', JStr description), (''sensitive'', JBool sensitive)]"

definition default_fields :: "string \<Rightarrow> json" where
  "default_fields domain =
     JObj [(''fields'', JList [field_json ''account_name'' ''text'' ''Account holder name'' False,
         field_json ''account_number'' ''text'' ''Account number or identifier'' True,
         field_json ''balance'' ''currency'' ''Current account balance'' False]),
       (''page_context'', JStr (''Dashboard for '' @ domain))]"

definition site_prompt :: "string option \<Rightarrow> string \<Rightarrow> string \<Rightarrow> string" where
  "site_prompt site_type domain page_title = ''## Site Information'' @ [newline] @
     ''- Domain: '' @ domain @ [newline] @ ''- Page Title: '' @ page_title @ [newline] @
     ''- Site Type: '' @ or_str site_type ''general website'' @ [newline, newline] @
     ''Suggest data fields that could be extracted after logging in to this type of site.''"

definition discover_fields :: "generator \<Rightarrow> string option \<Rightarrow> string \<Rightarrow> string \<Rightarrow> json option" where
  "discover_fields g site_type domain page_title =
     answer_or (ll_loads (bg_llm_lib g)) (generator_extract g (site_prompt site_type domain page_title) (bg_field_prompt g)) (default_fields domain) Some"

section \<open>The blueprint\<close>

text \<open>The steps before the login: entries without a selector are dropped; \<open>None\<close> when an entry is no object.\<close>

fun pre_steps :: "json list \<Rightarrow> json list option" where
  "pre_steps [] = Some []"
| "pre_steps (JObj d # vs) =
     map_option (\<lambda>rest. (if truthy (jget d ''selector'')
         then [JObj [(''action'', jdefault d ''action'' (JStr ''click'')), (''selector'', jget d ''selector'')]] else []) @ rest) (pre_steps vs)"
| "pre_steps (_ # vs) = None"

definition final_wait :: json where
  "final_wait = JObj [(''action'', JStr ''wait''), (''timeout'', JInt 10000)]"

definition login_steps_json :: "json \<Rightarrow> login_form_discovery \<Rightarrow> json list \<Rightarrow> json list" where
  "login_steps_json url ld pre =
     goto_json url # pre @
     (if truthy (ld_username_selector ld) then [fill_json (ld_username_selector ld) ''{{username}}''] else []) @
     (if truthy (ld_password_selector ld) then [fill_json (ld_password_selector ld) ''{{password}}''] else []) @
     (if truthy (ld_submit_selector ld) then [submit_json (ld_submit_selector ld)] else []) @
     [final_wait]"

text \<open>The fields, by name; the entry of a name given twice is replaced. \<open>None\<close> when an entry is no object or has a name that is no text.\<close>

fun extract_json :: "json list \<Rightarrow> (string, json) dict \<Rightarrow> (string, json) dict option" where
  "extract_json [] acc = Some acc"
| "extract_json (JObj f # fs) acc =
     (case jdefault f ''name'' (JStr ''unnamed'') of
        JStr name \<Rightarrow>
          extract_json fs (AList.update name (JObj (
            [(''type'', jdefault f ''type'' (JStr ''text'')), (''description'', jdefault f ''description'' (JStr ''''))] @
            (if truthy (jget f ''example'') then [(''example'', jget f ''example'')] else []) @
            (if truthy (jget f ''sensitive'') then [(''sensitive'', JBool True)] else []))) acc)
      | _ \<Rightarrow> None)"
| "extract_json (_ # fs) acc = None"

text \<open>The selectors quote their values with single quotes, \<open>Q\<close>.\<close>

definition Q :: string where "Q = [CHR 0x27]"

definition mfa_json :: json where
  "mfa_json = JObj [
     (''detection'', JObj [
        (''selector'', JStr (''input[type='' @ Q @ ''tel'' @ Q @ ''], input[name*='' @ Q @ ''otp'' @ Q @ ''], input[name*='' @ Q @ ''code'' @ Q @
           ''], input[name*='' @ Q @ ''mfa'' @ Q @ ''], [class*='' @ Q @ ''mfa'' @ Q @ ''], [class*='' @ Q @ ''otp'' @ Q @ ''], [class*='' @ Q @ ''verification'' @ Q @ '']'')),
        (''timeout'', JInt 5000)]),
     (''type'', JStr ''otp_input''), (''handler'', JStr ''user_prompt''),
     (''input_selector'', JStr (''input[type='' @ Q @ ''tel'' @ Q @ ''], input[name*='' @ Q @ ''otp'' @ Q @ ''], input[name*='' @ Q @ ''code'' @ Q @ '']'')),
     (''submit_selector'', JStr (''button[type='' @ Q @ ''submit'' @ Q @ ''], input[type='' @ Q @ ''submit'' @ Q @ '']''))]"

definition build_blueprint_json :: "json \<Rightarrow> string \<Rightarrow> string \<Rightarrow> login_form_discovery \<Rightarrow> (string, json) dict \<Rightarrow> string option \<Rightarrow> (string, json) dict option" where
  "build_blueprint_json url domain site_name ld extraction_fields site_type = do {
     entries \<leftarrow> json_iter (ld_pre_login_steps ld);
     pre \<leftarrow> pre_steps entries;
     fs \<leftarrow> json_iter (jdefault extraction_fields ''fields'' (JList []));
     extract \<leftarrow> extract_json fs [];
     Some ([(''schema_version'', JStr ''3.0''), (''name'', JStr site_name), (''domain'', JStr domain),
        (''tags'', JList (JStr ''auto_generated'' # (case given site_type of None \<Rightarrow> [] | Some t \<Rightarrow> [JStr t]))),
        (''extraction_strategy'', JStr ''llm_adaptive''),
        (''page_context'', jdefault extraction_fields ''page_context'' (JStr (''Dashboard for '' @ site_name))),
        (''auth'', JObj [(''type'', JStr ''form''), (''steps'', JList (login_steps_json url ld pre))]),
        (''extract'', JObj extract),
        (''rate_limit'', JObj [(''max_requests_per_hour'', JInt 10), (''min_interval_seconds'', JInt 30)])] @
       (if ld_mfa_likely ld then [(''mfa'', mfa_json)] else []))
   }"

section \<open>The key of a site\<close>

definition is_separator :: "char \<Rightarrow> bool" where
  "is_separator c \<longleftrightarrow> c = CHR ''.'' \<or> c = CHR ''-''"

text \<open>\<^verbatim>\<open>re.sub(r"[.\-]+", "_", s)\<close>.\<close>

fun join_separators :: "string \<Rightarrow> string" where
  "join_separators [] = []"
| "join_separators (c # s) =
     (if is_separator c then (case s of d # _ \<Rightarrow> if is_separator d then join_separators s else CHR ''_'' # join_separators s | [] \<Rightarrow> [CHR ''_''])
      else c # join_separators s)"

definition key_char :: "char \<Rightarrow> bool" where
  "key_char c \<longleftrightarrow> is_alpha c \<or> is_digit c \<or> c = CHR ''_''"

definition strip_underscores :: "string \<Rightarrow> string" where
  "strip_underscores s = rstrip_of (\<lambda>c. c = CHR ''_'') (dropWhile (\<lambda>c. c = CHR ''_'') s)"

definition domain_to_site_key :: "string \<Rightarrow> string" where
  "domain_to_site_key domain =
     (let host = hd (split_on (CHR '':'') domain);
          key = py_lower (strip_underscores (filter key_char (join_separators host)))
      in if key = '''' then ''unknown_site'' else key)"

section \<open>Generation\<close>

record generated_blueprint =
  gb_blueprint :: blueprint_v2
  gb_blueprint_json :: "(string, json) dict"
  gb_confidence :: real
  gb_login_url :: string
  gb_domain :: string
  gb_site_key :: string
  gb_warnings :: "string list"

text \<open>The discovery the blueprint is built from, and whether it came from the screenshot.\<close>

definition better_discovery :: "generator \<Rightarrow> string option \<Rightarrow> login_form_discovery \<Rightarrow> (login_form_discovery \<times> bool) option" where
  "better_discovery g screenshot ld =
     (if ld_confidence ld < 1 / 2
      then map_option (\<lambda>v. if ld_confidence v > ld_confidence ld then (v, True) else (ld, False)) (discover_login_form_vision g screenshot)
      else Some (ld, False))"

definition generator_warnings :: "login_form_discovery \<times> bool \<Rightarrow> string list" where
  "generator_warnings x =
     (if snd x then [''Used vision-based analysis (DOM analysis was low confidence).''] else []) @
     (if \<not> truthy (ld_username_selector (fst x)) \<or> \<not> truthy (ld_password_selector (fst x))
      then [''Could not identify username and/or password fields. Blueprint auth steps may need manual correction.''] else []) @
     (if \<not> truthy (ld_submit_selector (fst x))
      then [''Could not identify login submit button. Blueprint uses form submit fallback.''] else [])"

text \<open>\<^verbatim>\<open>extraction_fields["fields"].append(ef)\<close> for each field of the request.\<close>

definition add_fields :: "json list option \<Rightarrow> (string, json) dict \<Rightarrow> (string, json) dict option" where
  "add_fields extra d =
     (case extra of
        None \<Rightarrow> Some d
      | Some efs \<Rightarrow>
          if efs = [] then Some d
          else (case map_of d ''fields'' of Some (JList fs) \<Rightarrow> Some (AList.update ''fields'' (JList (fs @ efs)) d) | _ \<Rightarrow> None))"

definition generate :: "generator \<Rightarrow> string \<Rightarrow> string option \<Rightarrow> string option \<Rightarrow> string option \<Rightarrow> string option \<Rightarrow> json list option \<Rightarrow> generated_blueprint option" where
  "generate g url content screenshot site_type site_name extra_fields = do {
     parsed \<leftarrow> urlparse url;
     let domain = or_str (Some (url_netloc parsed)) ''unknown'';
     content \<leftarrow> content;
     ld \<leftarrow> discover_login_form_dom g content;
     found \<leftarrow> better_discovery g screenshot ld;
     let ld = fst found;
     fields_answer \<leftarrow> discover_fields g site_type domain (or_str (Some (ld_page_title ld)) (or_str site_name domain));
     fields_dict \<leftarrow> pd_obj fields_answer;
     extraction_fields \<leftarrow> add_fields extra_fields fields_dict;
     bp_json \<leftarrow> build_blueprint_json (JStr url) domain (or_str site_name (or_str (Some (ld_page_title ld)) domain)) ld extraction_fields site_type;
     bp \<leftarrow> parse_blueprint (bg_pydantic g) (JObj bp_json);
     Some \<lparr>gb_blueprint = bp, gb_blueprint_json = bp_json, gb_confidence = ld_confidence ld, gb_login_url = url, gb_domain = domain,
       gb_site_key = domain_to_site_key domain, gb_warnings = generator_warnings found\<rparr>
   }"

section \<open>The key is a safe file name\<close>

lemma lower_key_char: "key_char c \<Longrightarrow> key_char (lower_char c)"
proof (cases "65 \<le> (of_char c :: nat) \<and> (of_char c :: nat) \<le> 90")
  case True
  then have "is_alpha (lower_char c)" by (simp add: lower_char_def is_alpha_def Let_def of_char_of)
  then show ?thesis by (simp add: key_char_def)
next
  case False
  then have "lower_char c = c" by (auto simp: lower_char_def Let_def)
  then show "key_char c \<Longrightarrow> ?thesis" by simp
qed

lemma set_strip_underscores: "set (strip_underscores s) \<subseteq> set s"
  by (auto simp: strip_underscores_def rstrip_of_def dest!: set_dropWhileD)

text \<open>The key of a site is never empty and has only letters, digits and underscores: as a file name it stays in the directory of the
  connectors, and the route that describes a connector accepts it.\<close>

theorem site_key_is_safe: "domain_to_site_key domain \<noteq> '''' \<and> list_all key_char (domain_to_site_key domain)"
proof -
  have "list_all key_char (strip_underscores (filter key_char s))" for s
    using set_strip_underscores [of "filter key_char s"] by (auto simp: list_all_iff)
  then have "list_all key_char (py_lower (strip_underscores (filter key_char s)))" for s
    using lower_key_char by (auto simp: list_all_iff py_lower_def)
  moreover have "list_all key_char ''unknown_site''" by code_simp
  ultimately show ?thesis by (simp add: domain_to_site_key_def Let_def)
qed

section \<open>A generated blueprint\<close>

lemma generated:
  assumes "generate g url content screenshot site_type site_name extra = Some r"
  obtains ld fs domain where
    "build_blueprint_json (JStr url) domain (or_str site_name (or_str (Some (ld_page_title ld)) domain)) ld fs site_type = Some (gb_blueprint_json r)"
    "parse_blueprint (bg_pydantic g) (JObj (gb_blueprint_json r)) = Some (gb_blueprint r)"
    "gb_site_key r = domain_to_site_key domain"
  using assms by (auto simp: generate_def Let_def bind_eq_Some_conv split: option.splits)

lemma generated_json:
  assumes "build_blueprint_json url domain name ld fs site_type = Some d"
  obtains pre where "map_of d ''auth'' = Some (JObj [(''type'', JStr ''form''), (''steps'', JList (login_steps_json url ld pre))])"
    "map_of d ''schema_version'' = Some (JStr ''3.0'')" "map_of d ''login_url'' = None" "map_of d ''extraction_strategy'' = Some (JStr ''llm_adaptive'')"
  using assms by (auto simp: build_blueprint_json_def bind_eq_Some_conv)

lemma login_steps_end: "\<exists>steps. login_steps_json url ld pre = steps @ [final_wait]"
  by (simp add: login_steps_json_def)

text \<open>What the generator saves is read back as the blueprint it validated, and is extracted with the language model.\<close>

theorem generated_file_loads_back:
  assumes "generate g url content screenshot site_type site_name extra = Some r"
  shows "load_blueprint_from_dict (bg_pydantic g) (JObj (gb_blueprint_json r)) = Some (gb_blueprint r) \<and>
    is_llm_adaptive (gb_blueprint r)"
proof -
  obtain ld fs domain where b: "build_blueprint_json (JStr url) domain (or_str site_name (or_str (Some (ld_page_title ld)) domain)) ld fs site_type = Some (gb_blueprint_json r)"
    and p: "parse_blueprint (bg_pydantic g) (JObj (gb_blueprint_json r)) = Some (gb_blueprint r)"
    using generated [OF assms] by metis
  from generated_json [OF b] have "map_of (gb_blueprint_json r) ''schema_version'' = Some (JStr ''3.0'')" "map_of (gb_blueprint_json r) ''login_url'' = None"
    "map_of (gb_blueprint_json r) ''extraction_strategy'' = Some (JStr ''llm_adaptive'')" by metis+
  with p show ?thesis
    using parse_blueprint_parts(2) [OF p] by (simp add: load_blueprint_from_dict_def jdefault_def is_llm_adaptive_def with_default_def pd_enum_def)
qed

text \<open>C8. No blueprint the generator returns can log in: its last login step waits without saying for what, which the executor refuses, whatever the
  page does and wherever the steps before it end.\<close>

theorem generated_login_fails:
  assumes "generate g url content screenshot site_type site_name extra = Some r"
  shows "fst (execute_steps pg xe (ac_steps (v2_auth (gb_blueprint r))) s) \<noteq> None"
proof -
  obtain ld fs domain where b: "build_blueprint_json (JStr url) domain (or_str site_name (or_str (Some (ld_page_title ld)) domain)) ld fs site_type = Some (gb_blueprint_json r)"
    and p: "parse_blueprint (bg_pydantic g) (JObj (gb_blueprint_json r)) = Some (gb_blueprint r)"
    using generated [OF assms] by metis
  obtain pre where auth: "map_of (gb_blueprint_json r) ''auth'' = Some (JObj [(''type'', JStr ''form''), (''steps'', JList (login_steps_json (JStr url) ld pre))])"
    using generated_json [OF b] by metis
  obtain js where js: "login_steps_json (JStr url) ld pre = js @ [final_wait]" using login_steps_end by blast
  have "parse_auth (bg_pydantic g) (JObj [(''type'', JStr ''form''), (''steps'', JList (js @ [final_wait]))]) = Some (v2_auth (gb_blueprint r))"
    using parse_blueprint_parts(1) [OF p] auth js by (simp add: required_def)
  then have "those (map (parse_step (bg_pydantic g)) (js @ [final_wait])) = Some (ac_steps (v2_auth (gb_blueprint r)))"
    by (rule parse_auth_steps) simp
  then obtain sts st where sts: "ac_steps (v2_auth (gb_blueprint r)) = sts @ [st]" "parse_step (bg_pydantic g) final_wait = Some st"
    by (auto simp: those_append split: option.splits) (metis)
  have "bs_action st = WAIT" "given (bs_selector st) = None"
    using parse_step_action [OF sts(2) [unfolded final_wait_def]] parse_step_selector [OF sts(2) [unfolded final_wait_def]]
    by (auto simp: field_defs given_def) (cases "bs_action st"; simp)
  then show ?thesis using failing_step_ends_run [of pg xe st sts "[]" s] wait_without_selector sts(1) by metis
qed

section \<open>An example\<close>

definition sample_generator :: generator where
  "sample_generator = \<lparr>bg_provider = sample_provider, bg_vision_provider = sample_provider, bg_llm_lib = sample_llm_lib, bg_pydantic = sample_pydantic,
     bg_tokenize = (\<lambda>_. []), bg_str = (\<lambda>_. ''''), bg_latency = 0,
     bg_post = (\<lambda>_ _. Returned \<lparr>hr_status = 401, hr_retry_after = None, hr_text = '''', hr_json = None\<rparr>),
     bg_login_prompt = '''', bg_vision_prompt = '''', bg_field_prompt = ''''\<rparr>"

lemma sample_answer_or: "answer_or loads (llm_call l sample_provider t (bg_post sample_generator p x)) d k = Some d"
  by (simp add: llm_call_def read_reply_def sample_generator_def sample_provider_def answer_or_def)

definition sample_defaults :: "(string, json) dict" where
  "sample_defaults = (case default_fields ''a-b.com'' of JObj d \<Rightarrow> d | _ \<Rightarrow> [])"

lemma sample_built:
  "\<exists>d. build_blueprint_json (JStr ''https://a-b.com/in'') ''a-b.com'' ''a-b.com'' no_discovery sample_defaults None = Some d \<and>
     (\<exists>bp. parse_blueprint sample_pydantic (JObj d) = Some bp)"
  by (simp add: build_blueprint_json_def no_discovery_def sample_defaults_def default_fields_def field_json_def jdefault_def jget_def login_steps_json_def
    goto_json_def final_wait_def given_def parse_blueprint_def field_defs pd_dict_def parse_auth_def parse_field_def_def parse_field_def
    parse_list_field_def sample_pydantic_def parse_step.simps parse_steps.simps all_actions_def all_field_types_def validate_schema_version_def
    parse_rate_limit_def)

lemma sample_generated: "\<exists>r. generate sample_generator ''https://a-b.com/in'' (Some ''<html>'') None None None None = Some r"
proof -
  obtain d bp where b: "build_blueprint_json (JStr ''https://a-b.com/in'') ''a-b.com'' ''a-b.com'' no_discovery sample_defaults None = Some d"
    "parse_blueprint sample_pydantic (JObj d) = Some bp" using sample_built by blast
  have pv: "bg_provider sample_generator = sample_provider" "bg_vision_provider sample_generator = sample_provider"
    "bg_pydantic sample_generator = sample_pydantic" by (simp_all add: sample_generator_def)
  have names: "or_str (Some ''a-b.com'') x = ''a-b.com''" "or_str (Some (ld_page_title no_discovery)) x = x" "or_str None x = x" for x
    by (simp_all add: or_str_def no_discovery_def)
  have dflt: "pd_obj (default_fields ''a-b.com'') = Some sample_defaults" by (simp add: pd_obj_def default_fields_def sample_defaults_def)
  have low: "better_discovery sample_generator None no_discovery = Some (no_discovery, False)"
    by (simp add: better_discovery_def discover_login_form_vision_def no_discovery_def)
  obtain u where u: "urlparse ''https://a-b.com/in'' = Some u" "url_netloc u = ''a-b.com''"
  proof -
    have "map_option url_netloc (urlparse ''https://a-b.com/in'') = Some ''a-b.com''" by code_simp
    then show thesis using that by auto
  qed
  show ?thesis
    by (simp add: generate_def u names dflt low b pv discover_login_form_dom_def discover_fields_def generator_extract_def sample_answer_or Let_def
      add_fields_def)
qed

theorem generated_login_fails_witness:
  "\<exists>r. generate sample_generator ''https://a-b.com/in'' (Some ''<html>'') None None None None = Some r \<and>
     fst (execute_steps (en_page calm_env) (en_executor calm_env) (ac_steps (v2_auth (gb_blueprint r))) reading_exec) \<noteq> None"
  using sample_generated generated_login_fails [of sample_generator] by blast

theorem generated_file_loads_back_witness:
  "\<exists>r. generate sample_generator ''https://a-b.com/in'' (Some ''<html>'') None None None None = Some r \<and>
     load_blueprint_from_dict (bg_pydantic sample_generator) (JObj (gb_blueprint_json r)) = Some (gb_blueprint r) \<and>
     is_llm_adaptive (gb_blueprint r)"
  using sample_generated generated_file_loads_back [of sample_generator] by blast

end
