(* ===== verification/System_Routes.thy ===== *)
theory System_Routes imports Blueprint_Generator Consent begin

text \<open>
  \<^verbatim>\<open>src/routers/system.py\<close> and \<^verbatim>\<open>src/routers/audit.py\<close>: the health checks, the listing and description of connectors, the route that generates a
  blueprint, and the audit log as a user sees it.

  The directory of the connectors is a list of file names without their extension and contents, in the order of the names. What a probe of a
  dependency ends with, name resolution and the properties of an address are arguments.
\<close>

section \<open>Health\<close>

text \<open>What a probe under \<^verbatim>\<open>asyncio.wait_for\<close> ends with.\<close>

datatype 'a probe = Answered 'a | Timed_out | Failed_probe

definition health :: "bool \<Rightarrow> nat \<times> (string, json) dict" where
  "health db_ok = (if db_ok then (200, [(''status'', JStr ''healthy'')]) else (503, [(''status'', JStr ''unhealthy'')]))"

text \<open>The status of Redis: \<open>None\<close> inside an answer means that it is not configured. The key service answers a dictionary.\<close>

definition pool_status :: "unit probe \<Rightarrow> string" where
  "pool_status p = (case p of Answered _ \<Rightarrow> ''ok'' | Timed_out \<Rightarrow> ''timeout'' | Failed_probe \<Rightarrow> ''unavailable'')"

definition redis_status :: "unit option probe \<Rightarrow> string" where
  "redis_status p =
     (case p of Answered None \<Rightarrow> ''not_configured'' | Answered (Some _) \<Rightarrow> ''ok'' | Timed_out \<Rightarrow> ''timeout'' | Failed_probe \<Rightarrow> ''error'')"

definition kms_status :: "(string, string) dict probe \<Rightarrow> string" where
  "kms_status p =
     (case p of
        Answered d \<Rightarrow> (let s = (case map_of d ''status'' of Some s \<Rightarrow> s | None \<Rightarrow> ''unknown'') in if s = ''healthy'' then ''ok'' else s)
      | Timed_out \<Rightarrow> ''timeout''
      | Failed_probe \<Rightarrow> ''error'')"

definition error_states :: "string set" where
  "error_states = {''error'', ''unhealthy'', ''degraded'', ''timeout''}"

definition health_report :: "string \<Rightarrow> bool \<Rightarrow> unit probe \<Rightarrow> unit option probe \<Rightarrow> (string, string) dict probe \<Rightarrow> nat \<times> (string, json) dict" where
  "health_report version db_ok pool redis kms =
     (let checks = [(''database'', if db_ok then ''ok'' else ''error''), (''browser_pool'', pool_status pool), (''redis'', redis_status redis),
            (''kms'', kms_status kms)];
          has_errors = list_ex (\<lambda>name. case map_of checks name of None \<Rightarrow> False | Some s \<Rightarrow> s \<in> error_states) [''database'', ''redis'', ''kms'']
      in (if has_errors then 503 else 200,
          [(''status'', JStr (if has_errors then ''degraded'' else ''healthy'')), (''version'', JStr version),
           (''checks'', JObj (map (\<lambda>(k, s). (k, JStr s)) checks))]))"

text \<open>The gate: the configured token, or anybody who is authenticated.\<close>

definition health_gate ::
  "string option \<Rightarrow> (string, string) dict \<Rightarrow> ((http_error + user_row \<times> auth_context) \<times> app_db) \<Rightarrow> app_db \<Rightarrow> http_error option \<times> app_db" where
  "health_gate health_check_token headers auth db =
     (case given health_check_token of
        None \<Rightarrow> (None, db)
      | Some token \<Rightarrow>
          let auth_header = (case map_of headers ''authorization'' of None \<Rightarrow> '''' | Some h \<Rightarrow> h);
              bearer_token = (if starts_with ''Bearer '' auth_header then Some (drop 7 auth_header) else None)
          in if given bearer_token = Some token then (None, db)
             else (case auth of
                     (Inr _, db') \<Rightarrow> (None, db')
                   | (Inl (HTTPException code detail), db') \<Rightarrow>
                       (Some (if code = 401 then HTTPException 401 ''Invalid health check token or authentication.'' else HTTPException code detail), db')))"

definition health_detailed ::
  "string option \<Rightarrow> (string, string) dict \<Rightarrow> ((http_error + user_row \<times> auth_context) \<times> app_db) \<Rightarrow> string \<Rightarrow> bool \<Rightarrow> unit probe \<Rightarrow>
   unit option probe \<Rightarrow> (string, string) dict probe \<Rightarrow> app_db \<Rightarrow> (http_error + nat \<times> (string, json) dict) \<times> app_db" where
  "health_detailed health_check_token headers auth version db_ok pool redis kms db =
     (case health_gate health_check_token headers auth db of
        (Some e, db') \<Rightarrow> (Inl e, db')
      | (None, db') \<Rightarrow> (Inr (health_report version db_ok pool redis kms), db'))"

section \<open>The connectors\<close>

type_synonym connector_files = "(string \<times> string) list"

definition blueprint_entry :: "string \<Rightarrow> blueprint_v2 \<Rightarrow> (string, json) dict" where
  "blueprint_entry site bp =
     [(''site'', JStr site), (''name'', JStr (v2_name bp)), (''domain'', JStr (v2_domain bp)), (''tags'', JList (map JStr (v2_tags bp))),
      (''has_mfa'', JBool (v2_mfa bp \<noteq> None)), (''schema_version'', JStr (v2_schema_version bp))]"

fun list_blueprints :: "pydantic \<Rightarrow> (string \<Rightarrow> json option) \<Rightarrow> bool \<Rightarrow> connector_files \<Rightarrow> (string, json) dict list" where
  "list_blueprints P loads demo_mode [] = []"
| "list_blueprints P loads demo_mode ((site, contents) # files) =
     (case load_blueprint P loads contents of
        None \<Rightarrow> list_blueprints P loads demo_mode files
      | Some bp \<Rightarrow>
          if blueprint_is_discoverable (Some (v2_tags bp)) demo_mode then blueprint_entry site bp # list_blueprints P loads demo_mode files
          else list_blueprints P loads demo_mode files)"

text \<open>\<^verbatim>\<open>^[a-zA-Z0-9_-]+$\<close>; the dollar sign also matches before a final newline.\<close>

definition site_name_char :: "char \<Rightarrow> bool" where
  "site_name_char c \<longleftrightarrow> key_char c \<or> c = CHR ''-''"

definition site_name_ok :: "string \<Rightarrow> bool" where
  "site_name_ok s = (let t = (if s \<noteq> [] \<and> last s = newline then butlast s else s) in t \<noteq> [] \<and> list_all site_name_char t)"

definition blueprint_details :: "blueprint_v2 \<Rightarrow> (string, json) dict" where
  "blueprint_details bp =
     [(''name'', JStr (v2_name bp)), (''domain'', JStr (v2_domain bp)), (''tags'', JList (map JStr (v2_tags bp))), (''has_mfa'', JBool (v2_mfa bp \<noteq> None)),
      (''extract_fields'', JList (map (\<lambda>(k, _). JStr k) (v2_extract bp))), (''schema_version'', JStr (v2_schema_version bp)),
      (''rate_limit'', case v2_rate_limit bp of None \<Rightarrow> JNull | Some r \<Rightarrow>
         JObj [(''max_requests_per_hour'', JInt (rl_max_requests_per_hour r)), (''min_interval_seconds'', JInt (rl_min_interval_seconds r))])]"

definition blueprint_not_found :: "string \<Rightarrow> http_error" where
  "blueprint_not_found site = HTTPException 404 (''Blueprint not found: '' @ site)"

text \<open>\<open>inside\<close> tells whether the resolved path stays in the directory.\<close>

definition get_blueprint_info ::
  "pydantic \<Rightarrow> (string \<Rightarrow> json option) \<Rightarrow> bool \<Rightarrow> (string \<Rightarrow> bool) \<Rightarrow> connector_files \<Rightarrow> string \<Rightarrow> http_error + (string, json) dict" where
  "get_blueprint_info P loads demo_mode inside files site =
     (if \<not> site_name_ok site then Inl (HTTPException 400 ''Invalid site name.'')
      else if \<not> inside site then Inl (HTTPException 400 ''Invalid site name.'')
      else case map_of files site of
             None \<Rightarrow> Inl (blueprint_not_found site)
           | Some contents \<Rightarrow>
               (case load_blueprint P loads contents of
                  None \<Rightarrow> Inl server_error
                | Some bp \<Rightarrow>
                    if blueprint_is_discoverable (Some (v2_tags bp)) demo_mode then Inr (blueprint_details bp) else Inl (blueprint_not_found site)))"

section \<open>Generating a blueprint\<close>

text \<open>\<^verbatim>\<open>urlparse(url).hostname\<close>.\<close>

definition url_hostname :: "string \<Rightarrow> string option" where
  "url_hostname netloc =
     (let hostinfo = snd (split_last (CHR ''@'') netloc);
          host = (if CHR ''['' \<in> set hostinfo then before_first (CHR '']'') (after_first (CHR ''['') hostinfo) else before_first (CHR '':'') hostinfo)
      in if host = '''' then None
         else Some (py_lower (before_first (CHR ''%'') host) @ dropWhile (\<lambda>c. c \<noteq> CHR ''%'') host))"

record ip_address =
  ip_is_private :: bool
  ip_is_loopback :: bool
  ip_is_link_local :: bool
  ip_is_reserved :: bool

definition internal_address :: "ip_address \<Rightarrow> bool" where
  "internal_address ip \<longleftrightarrow> ip_is_private ip \<or> ip_is_loopback ip \<or> ip_is_link_local ip \<or> ip_is_reserved ip"

text \<open>The checks before anything is opened; \<open>resolve\<close> gives nothing for a \<^verbatim>\<open>gaierror\<close>.\<close>

definition check_url :: "(string \<Rightarrow> ip_address list option) \<Rightarrow> json \<Rightarrow> http_error + string" where
  "check_url resolve v =
     (if \<not> truthy v then Inl (unprocessable (CHR 0x27 # ''url'' @ CHR 0x27 # '' field is required.''))
      else case v of
        JStr url \<Rightarrow>
          (case urlparse url of
             None \<Rightarrow> Inl server_error
           | Some parsed \<Rightarrow>
               if url_scheme parsed \<notin> {''http'', ''https''} then Inl (unprocessable ''URL must use http or https scheme.'')
               else if url_netloc parsed = '''' then Inl (unprocessable ''Invalid URL: missing hostname.'')
               else case url_hostname (url_netloc parsed) of
                      None \<Rightarrow> Inl (unprocessable ''Invalid URL: missing hostname.'')
                    | Some hostname \<Rightarrow>
                        (case resolve hostname of
                           None \<Rightarrow> Inl (unprocessable (''Cannot resolve hostname: '' @ hostname))
                         | Some ips \<Rightarrow>
                             if list_ex internal_address ips
                             then Inl (unprocessable ''URL resolves to a private/internal address. Only public URLs are allowed.'')
                             else Inr url))
      | _ \<Rightarrow> Inl server_error)"

text \<open>The route calls \<^verbatim>\<open>get_browser_pool()\<close>, which is asynchronous, without awaiting it: what it holds is the coroutine, which has no \<open>acquire\<close>.\<close>

datatype pool_handle = Coroutine | Awaited_pool

definition get_browser_pool_called :: pool_handle where
  "get_browser_pool_called = Coroutine"

definition acquire_attribute :: "pool_handle \<Rightarrow> string option" where
  "acquire_attribute h =
     (case h of Coroutine \<Rightarrow> Some (CHR 0x27 # ''coroutine'' @ CHR 0x27 # '' object has no attribute '' @ CHR 0x27 # ''acquire'' @ [CHR 0x27]) | Awaited_pool \<Rightarrow> None)"

text \<open>The result, and the files of the connectors. \<open>analyse\<close> is the work on an acquired context: an exception's text, or what was generated.\<close>

definition generate_blueprint ::
  "(string \<Rightarrow> ip_address list option) \<Rightarrow> string option \<Rightarrow> bool \<Rightarrow> (json \<Rightarrow> string) \<Rightarrow> (string \<Rightarrow> string + generated_blueprint) \<Rightarrow> (string, json) dict \<Rightarrow>
   connector_files \<Rightarrow> (http_error + (string, json) dict) \<times> connector_files" where
  "generate_blueprint resolve llm_api_key provider_known dumps analyse body files =
     (case check_url resolve (jget body ''url'') of
        Inl e \<Rightarrow> (Inl e, files)
      | Inr url \<Rightarrow>
          if given llm_api_key = None
          then (Inl (HTTPException 503 ''LLM provider not configured. Set LLM_API_KEY to enable blueprint generation.''), files)
          else if \<not> provider_known then (Inl server_error, files)
          else case (case acquire_attribute get_browser_pool_called of Some m \<Rightarrow> Inl m | None \<Rightarrow> analyse url) of
                 Inl m \<Rightarrow> (Inl (HTTPException 500 (''Blueprint generation failed: '' @ m)), files)
               | Inr r \<Rightarrow>
                   let save = truthy (jget_default body ''save'' (JBool False)); key = gb_site_key r;
                       answer = [(''blueprint'', JObj (gb_blueprint_json r)), (''site_key'', JStr key), (''domain'', JStr (gb_domain r)),
                         (''confidence'', JNum (gb_confidence r)), (''warnings'', JList (map JStr (gb_warnings r)))]
                   in if save \<and> map_of files key \<noteq> None
                      then (Inl (HTTPException 409 (''Blueprint already exists for site key '' @ CHR 0x27 # key @ CHR 0x27 # ''. Use PUT to update.'')), files)
                      else if save then (Inr (answer @ [(''saved'', JStr (key @ ''.json''))]), files @ [(key, dumps (JObj (gb_blueprint_json r)))])
                      else (Inr (answer @ [(''saved'', JNull)]), files))"

section \<open>The audit log of a user\<close>

text \<open>\<^verbatim>\<open>OFFSET\<close> and \<^verbatim>\<open>LIMIT\<close>: SQLite takes a negative limit as none and a negative offset as zero, PostgreSQL refuses both.\<close>

definition sql_page :: "bool \<Rightarrow> int \<Rightarrow> int \<Rightarrow> 'a list \<Rightarrow> 'a list option" where
  "sql_page sqlite off limit xs =
     (if \<not> sqlite \<and> (limit < 0 \<or> off < 0) then None
      else let ys = drop (nat off) xs in Some (if limit < 0 then ys else take (nat limit) ys))"

definition audit_json :: "(string \<Rightarrow> json option) \<Rightarrow> audit_log \<Rightarrow> json option" where
  "audit_json loads e = do {
     metadata \<leftarrow> (case given (al_metadata_json e) of None \<Rightarrow> Some JNull | Some m \<Rightarrow> loads m);
     let text = (\<lambda>t. case t of None \<Rightarrow> JNull | Some s \<Rightarrow> JStr s);
     Some (JObj [(''id'', JInt (al_id e)), (''event_type'', JStr (al_event_type e)),
       (''user_id'', case al_user_id e of None \<Rightarrow> JNull | Some i \<Rightarrow> JInt i), (''resource'', text (al_resource e)), (''action'', JStr (al_action e)),
       (''agent_id'', text (al_agent_id e)), (''metadata'', metadata), (''ip_address'', text (al_ip_address e)), (''timestamp'', JStr (al_timestamp e)),
       (''entry_hash'', JStr (al_entry_hash e))])
   }"

text \<open>The rows a request is about. Both cases of \<open>user_id\<close> come to the user's own events.\<close>

definition audit_rows :: "string option \<Rightarrow> int option \<Rightarrow> user_row \<Rightarrow> audit_log list \<Rightarrow> audit_log list" where
  "audit_rows event_type user_id user rows =
     (let mine = (if (case user_id of None \<Rightarrow> False | Some i \<Rightarrow> i \<noteq> 0 \<and> i = u_id user)
            then filter (\<lambda>e. al_user_id e = user_id) rows else filter (\<lambda>e. al_user_id e = Some (u_id user)) rows)
      in case given event_type of None \<Rightarrow> mine | Some ty \<Rightarrow> filter (\<lambda>e. al_event_type e = ty) mine)"

definition get_audit_logs ::
  "bool \<Rightarrow> (string \<Rightarrow> json option) \<Rightarrow> string option \<Rightarrow> int option \<Rightarrow> int \<Rightarrow> int \<Rightarrow> user_row \<Rightarrow> audit_log list \<Rightarrow> http_error + (string, json) dict" where
  "get_audit_logs sqlite loads event_type user_id limit off user rows =
     (let found = audit_rows event_type user_id user rows
      in case Option.bind (sql_page sqlite off (min limit 500) (rev (sort_key al_id found))) (\<lambda>es. those (map (audit_json loads) es)) of
           None \<Rightarrow> Inl server_error
         | Some entries \<Rightarrow>
             Inr [(''total'', JInt (int (length found))), (''offset'', JInt off), (''limit'', JInt (min limit 500)), (''entries'', JList entries)])"

definition verify_audit_logs :: "(string \<Rightarrow> string) \<Rightarrow> user_row \<Rightarrow> app_db \<Rightarrow> verify_result" where
  "verify_audit_logs sha user db = verify_audit_chain sha (db_audit db)"

section \<open>Properties\<close>

text \<open>The detailed health check reports 503 exactly when the database fails, when Redis is configured and does not answer in time, or when the key
  service answers that it is not healthy or does not answer; the browser pool never counts.\<close>

theorem health_degraded_iff:
  "fst (health_report version db_ok pool redis kms) = 503 \<longleftrightarrow>
     \<not> db_ok \<or> redis \<in> {Timed_out, Failed_probe} \<or> kms \<in> {Timed_out, Failed_probe} \<or>
     (\<exists>d s. kms = Answered d \<and> map_of d ''status'' = Some s \<and> s \<in> error_states)"
  by (cases redis; cases kms)
    (auto simp: health_report_def redis_status_def kms_status_def error_states_def Let_def split: option.splits)

lemma listed_iff:
  "(\<exists>e \<in> set (list_blueprints P loads demo files). jget e ''site'' = JStr site) \<longleftrightarrow>
     (\<exists>contents bp. (site, contents) \<in> set files \<and> load_blueprint P loads contents = Some bp \<and> blueprint_is_discoverable (Some (v2_tags bp)) demo)"
  by (induction P loads demo files rule: list_blueprints.induct) (auto simp: blueprint_entry_def jget_def split: option.splits)

text \<open>The two public routes agree: a connector whose name the description route accepts is listed exactly when it is described, and then it loads
  and carries no tag that hides it.\<close>

theorem blueprint_listed_iff_described:
  assumes "dict_ok files" "site_name_ok site" "inside site"
  shows "((\<exists>e \<in> set (list_blueprints P loads demo files). jget e ''site'' = JStr site) \<longleftrightarrow>
      (\<exists>d. get_blueprint_info P loads demo inside files site = Inr d)) \<and>
    (\<forall>d. get_blueprint_info P loads demo inside files site = Inr d \<longrightarrow>
      (\<exists>contents bp. map_of files site = Some contents \<and> load_blueprint P loads contents = Some bp \<and> d = blueprint_details bp \<and>
        (\<forall>t \<in> set (v2_tags bp). py_lower t \<notin> HIDDEN_CONNECTOR_TAGS \<and> (demo \<or> py_lower t \<notin> SANDBOX_CONNECTOR_TAGS))))"
proof -
  have "(site, c) \<in> set files \<longleftrightarrow> map_of files site = Some c" for c
    using assms(1) by (simp add: dict_ok_def)
  then show ?thesis using assms(2,3)
    by (auto simp: listed_iff get_blueprint_info_def discoverable_iff split: option.splits if_splits)
qed

text \<open>The route that generates a blueprint fails on every request, and saves nothing.\<close>

theorem blueprint_generation_always_fails:
  "\<exists>e. generate_blueprint resolve key known dumps analyse body files = (Inl e, files)"
  by (simp add: generate_blueprint_def get_browser_pool_called_def acquire_attribute_def split: sum.split)

lemma set_audit_rows:
  "set (audit_rows event_type user_id user rows) =
     {e \<in> set rows. al_user_id e = Some (u_id user) \<and> (\<forall>ty. given event_type = Some ty \<longrightarrow> al_event_type e = ty)}"
  by (auto simp: audit_rows_def Let_def split: option.splits if_splits)

lemma those_set: "those (map f xs) = Some ys \<Longrightarrow> set ys = {y. \<exists>x \<in> set xs. f x = Some y}"
  by (induction xs arbitrary: ys) (auto split: option.splits)

lemma sql_page_set: "sql_page sqlite off limit xs = Some ys \<Longrightarrow> set ys \<subseteq> set xs"
  by (auto simp: sql_page_def Let_def split: if_splits dest: in_set_dropD in_set_takeD)

text \<open>A user sees only the events of the own account, whatever user the request names, at most 500 at a time, and the total counts them all.\<close>

theorem audit_log_shows_own_events:
  assumes "get_audit_logs sqlite loads event_type user_id limit off user rows = Inr d" "0 \<le> limit"
  shows "\<exists>es. jget d ''entries'' = JList es \<and> length es \<le> 500 \<and>
    (\<forall>j \<in> set es. \<exists>e \<in> set rows. audit_json loads e = Some j \<and> al_user_id e = Some (u_id user)) \<and>
    jget d ''total'' = JInt (int (length (audit_rows event_type user_id user rows)))"
proof -
  let ?f = "audit_rows event_type user_id user rows"
  obtain page es where page: "sql_page sqlite off (min limit 500) (rev (sort_key al_id ?f)) = Some page" "those (map (audit_json loads) page) = Some es"
    and d: "d = [(''total'', JInt (int (length ?f))), (''offset'', JInt off), (''limit'', JInt (min limit 500)), (''entries'', JList es)]"
    using assms(1) by (auto simp: get_audit_logs_def Let_def bind_eq_Some_conv split: option.splits)
  have "length page \<le> 500" using page(1) assms(2) by (auto simp: sql_page_def Let_def split: if_splits)
  then have "length es \<le> 500" using those_length [OF page(2)] by simp
  moreover have "\<exists>e \<in> set rows. audit_json loads e = Some j \<and> al_user_id e = Some (u_id user)" if "j \<in> set es" for j
    using that those_set [OF page(2)] sql_page_set [OF page(1)] set_audit_rows [of event_type user_id user rows] by auto
  ultimately show ?thesis using d by (simp add: jget_def)
qed

text \<open>On SQLite the bound of 500 is no bound: a negative limit passes \<open>min\<close> and shows every event at once.\<close>

theorem negative_limit_shows_all:
  assumes "limit < 0" "\<forall>e \<in> set rows. audit_json loads e \<noteq> None"
  shows "\<exists>d es. get_audit_logs True loads event_type user_id limit 0 user rows = Inr d \<and> jget d ''entries'' = JList es \<and>
    length es = length (audit_rows event_type user_id user rows)"
proof -
  let ?f = "audit_rows event_type user_id user rows"
  let ?p = "rev (sort_key al_id ?f)"
  have "\<forall>e \<in> set ?p. audit_json loads e \<noteq> None" using assms(2) set_audit_rows [of event_type user_id user rows] by auto
  then have "those (map (audit_json loads) ?p) = Some (map (the \<circ> audit_json loads) ?p)"
    unfolding those_Some_iff by (simp add: comp_def)
  then show ?thesis using assms(1) by (auto simp: get_audit_logs_def sql_page_def Let_def jget_def)
qed

section \<open>Examples\<close>

theorem blueprint_listed_iff_described_witness:
  "((\<exists>e \<in> set (list_blueprints sample_pydantic (\<lambda>_. Some (JObj sample_file)) False [(''bank'', ''x'')]). jget e ''site'' = JStr ''bank'') \<longleftrightarrow>
      (\<exists>d. get_blueprint_info sample_pydantic (\<lambda>_. Some (JObj sample_file)) False (\<lambda>_. True) [(''bank'', ''x'')] ''bank'' = Inr d)) \<and>
   (\<exists>d. get_blueprint_info sample_pydantic (\<lambda>_. Some (JObj sample_file)) False (\<lambda>_. True) [(''bank'', ''x'')] ''bank'' = Inr d)"
proof -
  have ok: "site_name_ok ''bank''" by code_simp
  obtain st where st: "load_blueprint_from_dict sample_pydantic (JObj sample_file) = Some (bare_v1 ''Bank'' st)"
    by (rule unversioned_loads [of sample_file "''Bank''"]) (simp_all add: sample_file_def with_default_def pd_str_def)
  have "\<exists>d. get_blueprint_info sample_pydantic (\<lambda>_. Some (JObj sample_file)) False (\<lambda>_. True) [(''bank'', ''x'')] ''bank'' = Inr d"
    by (simp add: get_blueprint_info_def ok load_blueprint_def st discoverable_iff bare_v1_def)
  then show ?thesis
    using blueprint_listed_iff_described [of "[(''bank'', ''x'')]" "''bank''" "\<lambda>_. True" sample_pydantic "\<lambda>_. Some (JObj sample_file)" False] ok
    by (simp add: dict_ok_def)
qed

definition sample_event :: "int \<Rightarrow> int \<Rightarrow> audit_log" where
  "sample_event i u = \<lparr>al_id = i, al_event_type = ''auth'', al_user_id = Some u, al_agent_id = None, al_resource = None, al_action = ''login'',
     al_metadata_json = None, al_ip_address = None, al_timestamp = ''t'', al_prev_hash = None, al_entry_hash = ''h''\<rparr>"

lemma sample_audit_reply:
  "\<exists>d. get_audit_logs True (\<lambda>_. None) None None 100 0 (sample_user 1 None) [sample_event 1 1, sample_event 2 2, sample_event 3 1] = Inr d"
  by (simp add: get_audit_logs_def audit_rows_def sample_event_def sample_user_def given_def sql_page_def audit_json_def)

theorem audit_log_shows_own_events_witness:
  "\<exists>d es. get_audit_logs True (\<lambda>_. None) None None 100 0 (sample_user 1 None) [sample_event 1 1, sample_event 2 2, sample_event 3 1] = Inr d \<and>
     jget d ''entries'' = JList es \<and> length es \<le> 500"
proof -
  obtain d where d: "get_audit_logs True (\<lambda>_. None) None None 100 0 (sample_user 1 None) [sample_event 1 1, sample_event 2 2, sample_event 3 1] = Inr d"
    using sample_audit_reply by blast
  with audit_log_shows_own_events [OF d] show ?thesis by auto
qed

theorem negative_limit_shows_all_witness:
  "\<exists>d es. get_audit_logs True (\<lambda>_. None) None None (- 1) 0 (sample_user 1 None) [sample_event 1 1, sample_event 2 2, sample_event 3 1] = Inr d \<and>
     jget d ''entries'' = JList es \<and> length es = 2"
proof -
  let ?rows = "[sample_event 1 1, sample_event 2 2, sample_event 3 1]"
  have n: "length (audit_rows None None (sample_user 1 None) ?rows) = 2"
    by (simp add: audit_rows_def sample_event_def sample_user_def given_def)
  have "\<forall>e \<in> set ?rows. audit_json (\<lambda>_. None) e \<noteq> None" by (simp add: audit_json_def sample_event_def given_def)
  from negative_limit_shows_all [OF _ this, of "- 1" None None "sample_user 1 None"] n show ?thesis by simp
qed

end
