(* ===== verification/Organization_Catalog.thy ===== *)
theory Organization_Catalog
  imports System_Routes "HOL-Library.Multiset" "HOL-Library.Product_Lexorder" "HOL-Library.List_Lexorder" "HOL-Library.Char_ord"
begin

text \<open>
  \<^verbatim>\<open>src/organization_catalog.py\<close> and its routes: the directory of institutions that is generated from two tables of regions and six
  categories, the entries of the sandbox, and the search with its filters, ranking and pages.

  The connector files are an argument, in the order of their names. Both \<^verbatim>\<open>lru_cache\<close>s keep what the first call computed, so a directory here
  is the one of the files at that time. The tables are the literals of the source.
\<close>

section \<open>The tables\<close>

definition US_REGIONS :: "(string \<times> string) list" where
  "US_REGIONS =
     [(''AL'', ''Alabama''), (''AK'', ''Alaska''), (''AZ'', ''Arizona''), (''AR'', ''Arkansas''), (''CA'', ''California''), (''CO'', ''Colorado''),
     (''CT'', ''Connecticut''), (''DE'', ''Delaware''), (''FL'', ''Florida''), (''GA'', ''Georgia''), (''HI'', ''Hawaii''), (''ID'', ''Idaho''),
     (''IL'', ''Illinois''), (''IN'', ''Indiana''), (''IA'', ''Iowa''), (''KS'', ''Kansas''), (''KY'', ''Kentucky''), (''LA'', ''Louisiana''),
     (''ME'', ''Maine''), (''MD'', ''Maryland''), (''MA'', ''Massachusetts''), (''MI'', ''Michigan''), (''MN'', ''Minnesota''), (''MS'',
     ''Mississippi''), (''MO'', ''Missouri''), (''MT'', ''Montana''), (''NE'', ''Nebraska''), (''NV'', ''Nevada''), (''NH'', ''New Hampshire''),
     (''NJ'', ''New Jersey''), (''NM'', ''New Mexico''), (''NY'', ''New York''), (''NC'', ''North Carolina''), (''ND'', ''North Dakota''), (''OH'',
     ''Ohio''), (''OK'', ''Oklahoma''), (''OR'', ''Oregon''), (''PA'', ''Pennsylvania''), (''RI'', ''Rhode Island''), (''SC'', ''South Carolina''),
     (''SD'', ''South Dakota''), (''TN'', ''Tennessee''), (''TX'', ''Texas''), (''UT'', ''Utah''), (''VT'', ''Vermont''), (''VA'', ''Virginia''),
     (''WA'', ''Washington''), (''WV'', ''West Virginia''), (''WI'', ''Wisconsin''), (''WY'', ''Wyoming''), (''DC'', ''District of Columbia'')]"

definition CANADA_REGIONS :: "(string \<times> string) list" where
  "CANADA_REGIONS =
     [(''AB'', ''Alberta''), (''BC'', ''British Columbia''), (''MB'', ''Manitoba''), (''NB'', ''New Brunswick''), (''NL'',
     ''Newfoundland and Labrador''), (''NS'', ''Nova Scotia''), (''NT'', ''Northwest Territories''), (''NU'', ''Nunavut''), (''ON'', ''Ontario''),
     (''PE'', ''Prince Edward Island''), (''QC'', ''Quebec''), (''SK'', ''Saskatchewan''), (''YT'', ''Yukon'')]"

record category_spec =
  cs_key :: string
  cs_label :: string
  cs_branding :: "(string, string) dict"
  cs_brands :: "string list"
  cs_variants :: "string list"
  cs_search_terms :: "string list"

definition finance_spec :: category_spec where
  "finance_spec = \<lparr>cs_key = ''finance'', cs_label = ''Finance'',
     cs_branding =
       [(''primary_color'', ''#0f4c81''), (''secondary_color'', ''#e6efff''), (''accent_color'', ''#f4a261''), (''hint_copy'',
       ''Use the same username and password you use for online banking.''), (''auth_style'', ''username_password'')],
     cs_brands =
       [''North Harbor Bank'', ''Summit Credit Union'', ''Civic First Financial'', ''Maple Trust'', ''Riverstone Banking Group'', ''Prairie Savings'',
       ''Anchor Point Bank'', ''Lakeside Financial'', ''Northern Ledger Bank'', ''Cedar Peak Credit Union'', ''Frontier Capital Bank'',
       ''Community Horizon Bank'', ''Granite State Trust'', ''Everline Credit Union'', ''Redwood Reserve Bank'', ''Aurora Financial Co.''],
     cs_variants = [''Digital Banking'', ''Member Center'', ''Regional Branch'', ''Commercial Banking''],
     cs_search_terms = [''bank'', ''credit union'', ''finance'', ''lending'']\<rparr>"

definition utility_spec :: category_spec where
  "utility_spec = \<lparr>cs_key = ''utility'', cs_label = ''Utilities'',
     cs_branding =
       [(''primary_color'', ''#1f6f43''), (''secondary_color'', ''#e7f4ec''), (''accent_color'', ''#f2c14e''), (''hint_copy'',
       ''Sign in with the email or account number on your utility bill.''), (''auth_style'', ''email_password'')],
     cs_brands =
       [''Everstream Electric'', ''Northline Utilities'', ''Cedar Ridge Power'', ''Riverbend Energy'', ''Summit Grid Services'',
       ''Lakeshore Utility Co.'', ''Prairie Light & Power'', ''Maple Current Energy'', ''Frontier Water & Power'', ''HarborView Utilities''],
     cs_variants = [''Customer Portal'', ''Residential Service'', ''Energy Services'', ''Community Utility''],
     cs_search_terms = [''utility'', ''electric'', ''power'', ''hydro'', ''water'']\<rparr>"

definition insurance_spec :: category_spec where
  "insurance_spec = \<lparr>cs_key = ''insurance'', cs_label = ''Insurance'',
     cs_branding =
       [(''primary_color'', ''#6a1b9a''), (''secondary_color'', ''#f3e8ff''), (''accent_color'', ''#ffb703''), (''hint_copy'',
       (''Enter your policy portal credentials '' @ [CHR 0xE2] @ [CHR 0x80] @ [CHR 0x94] @ '' usually the email on file.'')), (''auth_style'',
       ''email_password'')],
     cs_brands =
       [''Harbor Shield Insurance'', ''Summit Mutual'', ''Maple Guard Assurance'', ''Civic Benefit Group'', ''Riverstone Coverage'',
       ''North Peak Assurance'', ''Anchor Policy Network'', ''Prairie Risk Partners''],
     cs_variants = [''Policy Portal'', ''Claims Center'', ''Member Services'', ''Coverage Hub''],
     cs_search_terms = [''insurance'', ''policy'', ''claims'', ''benefits'']\<rparr>"

definition telecom_spec :: category_spec where
  "telecom_spec = \<lparr>cs_key = ''telecom'', cs_label = ''Telecom'',
     cs_branding =
       [(''primary_color'', ''#c2410c''), (''secondary_color'', ''#ffedd5''), (''accent_color'', ''#0ea5e9''), (''hint_copy'',
       ''Use your wireless or subscriber account login.''), (''auth_style'', ''username_password'')],
     cs_brands =
       [''Northern Signal'', ''Prairie Connect'', ''Harbor Wireless'', ''Maple Fiber'', ''Summit Mobile'', ''Riverline Communications''],
     cs_variants = [''Wireless Account'', ''Home Internet'', ''Business Service'', ''Subscriber Portal''],
     cs_search_terms = [''telecom'', ''wireless'', ''internet'', ''mobile'']\<rparr>"

definition healthcare_spec :: category_spec where
  "healthcare_spec = \<lparr>cs_key = ''healthcare'', cs_label = ''Healthcare'',
     cs_branding =
       [(''primary_color'', ''#0d9488''), (''secondary_color'', ''#e0f7f4''), (''accent_color'', ''#f43f5e''), (''hint_copy'',
       ''Sign in with your patient portal or member-services credentials.''), (''auth_style'', ''email_password'')],
     cs_brands =
       [''Civic Health Network'', ''Maple Care Alliance'', ''Northern Family Health'', ''Summit Medical Group'', ''River Valley Health''],
     cs_variants = [''Patient Portal'', ''Benefits Center'', ''Member Access'', ''Care Account''],
     cs_search_terms = [''health'', ''patient'', ''medical'', ''benefits'']\<rparr>"

definition government_spec :: category_spec where
  "government_spec = \<lparr>cs_key = ''government'', cs_label = ''Government'',
     cs_branding =
       [(''primary_color'', ''#1e293b''), (''secondary_color'', ''#e2e8f0''), (''accent_color'', ''#2563eb''), (''hint_copy'',
       ''Use your citizen or resident services sign-in.''), (''auth_style'', ''member_number'')],
     cs_brands =
       [''Civic Services Office'', ''Regional Benefits Administration'', ''Citizen Access Bureau'', ''State Revenue Center''],
     cs_variants = [''Citizen Services'', ''Benefits Portal'', ''Tax Center'', ''Resident Access''],
     cs_search_terms = [''government'', ''benefits'', ''tax'', ''citizen'']\<rparr>"

definition CATEGORY_SPECS :: "category_spec list" where
  "CATEGORY_SPECS = [finance_spec, utility_spec, insurance_spec, telecom_spec, healthcare_spec, government_spec]"

definition DEFAULT_CREDENTIAL_SCHEMAS :: "(string, json) dict" where
  "DEFAULT_CREDENTIAL_SCHEMAS =
     [(''username_password'', JObj [(''submit_label'', JStr ''Connect securely''), (''fields'', JList [JObj [(''id'', JStr ''username''), (''label'',
     JStr ''Username''), (''type'', JStr ''text''), (''autocomplete'', JStr ''username''), (''required'', JBool True), (''min_length'', JInt 3),
     (''max_length'', JInt 128)], JObj [(''id'', JStr ''password''), (''label'', JStr ''Password''), (''type'', JStr ''password''), (''autocomplete'',
     JStr ''current-password''), (''required'', JBool True), (''secret'', JBool True), (''reveal'', JBool True), (''min_length'', JInt 6),
     (''max_length'', JInt 128)]])]), (''email_password'', JObj [(''submit_label'', JStr ''Connect securely''), (''fields'', JList [JObj [(''id'',
     JStr ''username''), (''label'', JStr ''Email''), (''type'', JStr ''email''), (''autocomplete'', JStr ''email''), (''required'', JBool True),
     (''pattern'', JStr (''^[^@'' @ [CHR 0x5C] @ ''s]+@[^@'' @ [CHR 0x5C] @ ''s]+'' @ [CHR 0x5C] @ ''.[^@'' @ [CHR 0x5C] @ ''s]+$'')), (''help_text'',
     JStr ''Use the email address on file with your account.''), (''min_length'', JInt 5), (''max_length'', JInt 254)], JObj [(''id'',
     JStr ''password''), (''label'', JStr ''Password''), (''type'', JStr ''password''), (''autocomplete'', JStr ''current-password''), (''required'',
     JBool True), (''secret'', JBool True), (''reveal'', JBool True), (''min_length'', JInt 6), (''max_length'', JInt 128)]])]), (''member_number'',
     JObj [(''submit_label'', JStr ''Connect securely''), (''fields'', JList [JObj [(''id'', JStr ''username''), (''label'', JStr ''Member number''),
     (''type'', JStr ''text''), (''autocomplete'', JStr ''username''), (''inputmode'', JStr ''numeric''), (''pattern'',
     JStr (''^[0-9'' @ [CHR 0x5C] @ ''-]{4,32}$'')), (''help_text'', JStr ''Your member or account number as it appears on your statement.''),
     (''required'', JBool True), (''min_length'', JInt 4), (''max_length'', JInt 32)], JObj [(''id'', JStr ''password''), (''label'',
     JStr ''Password''), (''type'', JStr ''password''), (''autocomplete'', JStr ''current-password''), (''required'', JBool True), (''secret'',
     JBool True), (''reveal'', JBool True), (''min_length'', JInt 6), (''max_length'', JInt 128)]])])]"

definition DEFAULT_MFA_SCHEMA :: "(string, json) dict" where
  "DEFAULT_MFA_SCHEMA =
     [(''otp_input'', JObj [(''title'', JStr ''Enter your verification code''), (''help_text'', JStr ''Check your phone, email,
     or authenticator app for the code.''), (''submit_label'', JStr ''Verify and continue''), (''fields'', JList [JObj [(''id'', JStr ''code''),
     (''label'', JStr ''Verification code''), (''type'', JStr ''text''), (''inputmode'', JStr ''numeric''), (''autocomplete'',
     JStr ''one-time-code''), (''pattern'', JStr (''^'' @ [CHR 0x5C] @ ''d{4,8}$'')), (''min_length'', JInt 4), (''max_length'', JInt 8),
     (''required'', JBool True)]])]), (''security_question'', JObj [(''title'', JStr ''Answer your security question''), (''submit_label'',
     JStr ''Continue''), (''fields'', JList [JObj [(''id'', JStr ''code''), (''label'', JStr ''Answer''), (''type'', JStr ''text''),
     (''autocomplete'', JStr ''off''), (''required'', JBool True), (''min_length'', JInt 1), (''max_length'', JInt 128)]])]), (''push'',
     JObj [(''title'', JStr ''Approve the push notification on your device''), (''help_text'',
     JStr ''Waiting for you to approve the sign-in from your authenticator app.''), (''submit_label'', JStr ''I approved it''), (''fields'',
     JList [])])]"

definition DEMO_SITE_META :: "(string \<times> (string, string) dict) list" where
  "DEMO_SITE_META =
     [(''demo_utility'', [(''category'', ''utility''), (''label'', ''Utilities''), (''primary'', ''#0b8f73''), (''secondary'', ''#e7f4ec''),
     (''accent'', ''#f2c14e''), (''auth_style'', ''username_password'')]), (''demo_bank'', [(''category'', ''finance''), (''label'', ''Finance''),
     (''primary'', ''#0a2540''), (''secondary'', ''#e6efff''), (''accent'', ''#635bff''), (''auth_style'', ''email_password'')]), (''demo_saas'',
     [(''category'', ''saas''), (''label'', ''Productivity''), (''primary'', ''#4f46e5''), (''secondary'', ''#eef2ff''), (''accent'', ''#22d3ee''),
     (''auth_style'', ''username_password'')])]"

section \<open>Texts of an entry\<close>

definition slug_char :: "char \<Rightarrow> bool" where
  "slug_char c \<longleftrightarrow> is_digit c \<or> 97 \<le> (of_char c :: nat) \<and> (of_char c :: nat) \<le> 122"

text \<open>\<open>sub_other\<close>: each run of other characters becomes a dash.\<close>

fun sub_other :: "bool \<Rightarrow> string \<Rightarrow> string" where
  "sub_other in_run [] = []"
| "sub_other in_run (c # cs) =
     (if slug_char c then c # sub_other False cs else if in_run then sub_other True cs else CHR ''-'' # sub_other True cs)"

definition slugify :: "string \<Rightarrow> string" where
  "slugify v = rstrip_of (\<lambda>c. c = CHR ''-'') (dropWhile (\<lambda>c. c = CHR ''-'') (sub_other False (py_lower v)))"

definition split_spaces :: "string \<Rightarrow> string list" where
  "split_spaces s = runs (\<lambda>c. \<not> is_space c) s"

definition monogram :: "string \<Rightarrow> string" where
  "monogram name =
     (let ws = split_spaces (map (\<lambda>c. if is_alpha c \<or> is_space c then c else CHR '' '') name)
      in if ws = [] then ''?''
         else let meaningful = filter (\<lambda>w. py_lower w \<notin> {''the'', ''of'', ''and'', ''for'', ''co'', ''inc'', ''ltd''}) ws;
                  letters = py_upper (map hd (take 2 (if meaningful = [] then ws else meaningful)))
              in if letters = '''' then ''?'' else letters)"

definition logo_svg :: "string \<Rightarrow> string \<Rightarrow> string \<Rightarrow> string" where
  "logo_svg letters primary secondary =
     ''<svg xmlns='' @ quoted ''http://www.w3.org/2000/svg'' @ '' viewBox='' @ quoted ''0 0 64 64'' @ '' role='' @ quoted ''img'' @ ''>'' @
     ''<rect width='' @ quoted ''64'' @ '' height='' @ quoted ''64'' @ '' rx='' @ quoted ''14'' @ '' fill='' @ quoted primary @ ''/>'' @
     ''<text x='' @ quoted ''50%'' @ '' y='' @ quoted ''54%'' @ '' text-anchor='' @ quoted ''middle'' @ '' dominant-baseline='' @ quoted ''middle'' @ '' '' @
     ''font-family='' @ quoted ''Inter, Segoe UI, system-ui, sans-serif'' @ '' font-size='' @ quoted ''24'' @ '' '' @
     ''font-weight='' @ quoted ''600'' @ '' fill='' @ quoted secondary @ ''>'' @ letters @ ''</text>'' @
     ''</svg>''"

definition logo_data_url :: "string \<Rightarrow> string \<Rightarrow> string \<Rightarrow> string" where
  "logo_data_url letters primary secondary = ''data:image/svg+xml;base64,'' @ std_b64_encode (logo_svg letters primary secondary)"

definition default_credential_schema :: "string \<Rightarrow> json" where
  "default_credential_schema auth_style =
     (case map_of DEFAULT_CREDENTIAL_SCHEMAS auth_style of Some s \<Rightarrow> s | None \<Rightarrow> jget DEFAULT_CREDENTIAL_SCHEMAS ''username_password'')"

definition default_mfa_schema :: json where
  "default_mfa_schema = JObj DEFAULT_MFA_SCHEMA"

section \<open>Connector templates\<close>

record connector_template =
  tp_site :: string
  tp_name :: string
  tp_domain :: string
  tp_has_mfa :: bool
  tp_tags :: "string list"
  tp_credential_schema :: "(string, json) dict option"
  tp_mfa_schema :: "(string, json) dict option"
  tp_mfa_type :: "string option"

definition connector_template_of :: "string \<Rightarrow> blueprint_v2 \<Rightarrow> connector_template" where
  "connector_template_of site bp =
     \<lparr>tp_site = site, tp_name = v2_name bp, tp_domain = v2_domain bp, tp_has_mfa = v2_mfa bp \<noteq> None, tp_tags = v2_tags bp,
      tp_credential_schema = v2_credential_schema bp, tp_mfa_schema = v2_mfa_schema bp,
      tp_mfa_type = map_option (\<lambda>m. mfa_type_value (mf_type (ms_config m))) (v2_mfa bp)\<rparr>"

fun load_connector_templates ::
  "pydantic \<Rightarrow> (string \<Rightarrow> json option) \<Rightarrow> connector_files \<Rightarrow> (string, connector_template) dict \<Rightarrow> (string, connector_template) dict" where
  "load_connector_templates P loads [] templates = templates"
| "load_connector_templates P loads ((stem, contents) # files) templates =
     (case load_blueprint P loads contents of
        None \<Rightarrow> load_connector_templates P loads files templates
      | Some bp \<Rightarrow>
          if blueprint_is_discoverable (Some (v2_tags bp)) False
          then load_connector_templates P loads files (AList.update stem (connector_template_of stem bp) templates)
          else load_connector_templates P loads files templates)"

definition resolve_template_site :: "string \<Rightarrow> string \<Rightarrow> (string, connector_template) dict \<Rightarrow> string" where
  "resolve_template_site category country_code templates =
     (if templates = [] then ''''
      else let preferred = (if category = ''utility'' \<and> country_code = ''CA'' then [''hydro_one'']
                            else if category = ''finance'' then map fst templates
                            else [''hydro_one''])
           in case find (\<lambda>candidate. candidate \<in> fst ` set templates) preferred of
                Some candidate \<Rightarrow> candidate
              | None \<Rightarrow> fst (hd templates))"

section \<open>The directory\<close>

text \<open>The keys \<^verbatim>\<open>supported\<close> and \<^verbatim>\<open>read_only\<close> are true in every entry and added by \<open>serialize\<close>.\<close>

record organization =
  org_id :: string
  org_name :: string
  org_brand :: string
  org_category :: string
  org_category_label :: string
  org_country :: string
  org_country_code :: string
  org_region :: string
  org_region_code :: string
  org_service_area :: string
  org_site :: string
  org_template_name :: string
  org_template_domain :: "string option"
  org_has_mfa :: bool
  org_is_sandbox :: bool
  org_logo_url :: string
  org_logo_monogram :: string
  org_primary_color :: string
  org_secondary_color :: string
  org_accent_color :: string
  org_hint_copy :: string
  org_auth_style :: string
  org_credential_schema :: json
  org_mfa_schema :: json
  org_search_text :: string

definition serialize :: "organization \<Rightarrow> (string, json) dict" where
  "serialize e =
     [(''organization_id'', JStr (org_id e)), (''name'', JStr (org_name e)), (''brand'', JStr (org_brand e)), (''category'', JStr (org_category e)),
      (''category_label'', JStr (org_category_label e)), (''country'', JStr (org_country e)), (''country_code'', JStr (org_country_code e)),
      (''region'', JStr (org_region e)), (''region_code'', JStr (org_region_code e)), (''service_area'', JStr (org_service_area e)),
      (''site'', JStr (org_site e)), (''template_name'', JStr (org_template_name e)), (''template_domain'', jopt (org_template_domain e)),
      (''has_mfa'', JBool (org_has_mfa e)), (''supported'', JBool True), (''read_only'', JBool True)] @
     (if org_is_sandbox e then [(''is_sandbox'', JBool True)] else []) @
     [(''logo_url'', JStr (org_logo_url e)), (''logo_monogram'', JStr (org_logo_monogram e)), (''primary_color'', JStr (org_primary_color e)),
      (''secondary_color'', JStr (org_secondary_color e)), (''accent_color'', JStr (org_accent_color e)), (''hint_copy'', JStr (org_hint_copy e)),
      (''auth_style'', JStr (org_auth_style e)), (''credential_schema'', org_credential_schema e), (''mfa_schema'', org_mfa_schema e)]"

definition meta :: "(string, string) dict \<Rightarrow> string \<Rightarrow> string" where
  "meta m k = (case map_of m k of Some v \<Rightarrow> v | None \<Rightarrow> '''')"

definition given_schema :: "(string, json) dict option \<Rightarrow> json \<Rightarrow> json" where
  "given_schema s dflt = (case s of Some d \<Rightarrow> if d = [] then dflt else JObj d | None \<Rightarrow> dflt)"

definition demo_entry :: "string \<Rightarrow> (string, string) dict \<Rightarrow> blueprint_v2 \<Rightarrow> organization" where
  "demo_entry site m bp =
     (let letters = monogram (v2_name bp)
      in \<lparr>org_id = ''sandbox-'' @ map (\<lambda>c. if c = CHR ''_'' then CHR ''-'' else c) site, org_name = v2_name bp, org_brand = v2_name bp,
          org_category = meta m ''category'', org_category_label = meta m ''label'', org_country = ''Sandbox'', org_country_code = ''US'',
          org_region = ''Sandbox'', org_region_code = ''SB'', org_service_area = ''Plaidify Sandbox'', org_site = site,
          org_template_name = v2_name bp, org_template_domain = Some (v2_domain bp), org_has_mfa = v2_mfa bp \<noteq> None, org_is_sandbox = True,
          org_logo_url = logo_data_url letters (meta m ''primary'') (meta m ''secondary''), org_logo_monogram = letters,
          org_primary_color = meta m ''primary'', org_secondary_color = meta m ''secondary'', org_accent_color = meta m ''accent'',
          org_hint_copy = ''Sandbox connector '' @ [CHR 0xE2, CHR 0x80, CHR 0x94] @ '' use the demo credentials shown on the sign-in page.'',
          org_auth_style = meta m ''auth_style'',
          org_credential_schema = given_schema (v2_credential_schema bp) (default_credential_schema (meta m ''auth_style'')),
          org_mfa_schema = given_schema (v2_mfa_schema bp) default_mfa_schema,
          org_search_text = py_lower (join (CHR '' '') [v2_name bp, ''sandbox'', ''demo'', meta m ''label'', site])\<rparr>)"

definition demo_catalog_entries :: "pydantic \<Rightarrow> (string \<Rightarrow> json option) \<Rightarrow> connector_files \<Rightarrow> organization list" where
  "demo_catalog_entries P loads files =
     List.map_filter (\<lambda>(site, m). case map_of files site of
         None \<Rightarrow> None
       | Some contents \<Rightarrow> map_option (demo_entry site m) (load_blueprint P loads contents)) DEMO_SITE_META"

definition branding :: "category_spec \<Rightarrow> string \<Rightarrow> string \<Rightarrow> string" where
  "branding spec k dflt = (case map_of (cs_branding spec) k of Some v \<Rightarrow> v | None \<Rightarrow> dflt)"

definition organization_id :: "category_spec \<Rightarrow> string \<Rightarrow> string \<Rightarrow> string \<Rightarrow> string \<Rightarrow> string" where
  "organization_id spec country_code region_code brand variant =
     join (CHR ''-'') [cs_key spec, py_lower country_code, py_lower region_code, slugify brand, slugify variant]"

definition directory_entry ::
  "(string, connector_template) dict \<Rightarrow> string \<Rightarrow> string \<Rightarrow> category_spec \<Rightarrow> string \<Rightarrow> string \<Rightarrow> string \<Rightarrow> string \<Rightarrow> organization" where
  "directory_entry templates country_code country_name spec region_code region_name brand variant =
     (let site = resolve_template_site (cs_key spec) country_code templates;
          template = map_of templates site;
          primary = branding spec ''primary_color'' ''#1f2937'';
          secondary = branding spec ''secondary_color'' ''#ffffff'';
          auth_style = branding spec ''auth_style'' ''username_password'';
          name = brand @ '' - '' @ region_name @ '' '' @ variant
      in \<lparr>org_id = organization_id spec country_code region_code brand variant, org_name = name, org_brand = brand, org_category = cs_key spec,
          org_category_label = cs_label spec, org_country = country_name, org_country_code = country_code, org_region = region_name,
          org_region_code = region_code, org_service_area = region_name @ '', '' @ country_name, org_site = site,
          org_template_name = (case template of Some t \<Rightarrow> tp_name t | None \<Rightarrow> site), org_template_domain = map_option tp_domain template,
          org_has_mfa = (case template of Some t \<Rightarrow> tp_has_mfa t | None \<Rightarrow> False), org_is_sandbox = False,
          org_logo_url = logo_data_url (monogram brand) primary secondary, org_logo_monogram = monogram brand, org_primary_color = primary,
          org_secondary_color = secondary, org_accent_color = branding spec ''accent_color'' ''#2563eb'',
          org_hint_copy = branding spec ''hint_copy'' ''Use your online account credentials to continue.'', org_auth_style = auth_style,
          org_credential_schema = default_credential_schema auth_style, org_mfa_schema = default_mfa_schema,
          org_search_text = py_lower (join (CHR '' '') ([name, brand, cs_label spec, cs_key spec, country_name, country_code, region_name, region_code] @
            cs_search_terms spec))\<rparr>)"

definition COUNTRIES :: "(string \<times> string \<times> (string \<times> string) list) list" where
  "COUNTRIES = [(''US'', ''United States'', US_REGIONS), (''CA'', ''Canada'', CANADA_REGIONS)]"

definition generated_entries :: "(string, connector_template) dict \<Rightarrow> organization list" where
  "generated_entries templates =
     concat (map (\<lambda>(country_code, country_name, regions).
       concat (map (\<lambda>spec.
         concat (map (\<lambda>(region_code, region_name).
           concat (map (\<lambda>brand.
             map (directory_entry templates country_code country_name spec region_code region_name brand) (cs_variants spec))
           (cs_brands spec)))
         regions))
       CATEGORY_SPECS))
     COUNTRIES)"

definition get_organization_catalog :: "pydantic \<Rightarrow> (string \<Rightarrow> json option) \<Rightarrow> bool \<Rightarrow> connector_files \<Rightarrow> organization list" where
  "get_organization_catalog P loads demo_mode files =
     (let templates = load_connector_templates P loads files [];
          demo_entries = (if demo_mode then demo_catalog_entries P loads files else [])
      in if templates = [] then demo_entries else demo_entries @ generated_entries templates)"

section \<open>Summary, search and lookup\<close>

definition count_of :: "(organization \<Rightarrow> string) \<Rightarrow> organization list \<Rightarrow> string \<Rightarrow> json" where
  "count_of f catalog k = JInt (int (length (filter (\<lambda>e. f e = k) catalog)))"

definition get_organization_summary :: "organization list \<Rightarrow> (string, json) dict" where
  "get_organization_summary catalog =
     [(''total_count'', JInt (int (length catalog))),
      (''categories'', JList (map (\<lambda>spec. JObj [(''key'', JStr (cs_key spec)), (''label'', JStr (cs_label spec)),
         (''count'', count_of org_category catalog (cs_key spec))]) CATEGORY_SPECS)),
      (''countries'', JList (map (\<lambda>(code, name, _). JObj [(''code'', JStr code), (''label'', JStr name),
         (''count'', count_of org_country_code catalog code)]) COUNTRIES)),
      (''connector_templates'', JList (map (\<lambda>site. JObj [(''site'', JStr site), (''count'', count_of org_site catalog site)])
         (sort_str (remdups (map org_site catalog)))))]"

definition normalize_country_filter :: "string option \<Rightarrow> string option" where
  "normalize_country_filter v =
     (case given v of
        None \<Rightarrow> None
      | Some t \<Rightarrow>
          let normalized = py_lower (py_strip t)
          in Some (if normalized \<in> {''us'', ''usa'', ''united states'', ''united states of america''} then ''US''
                   else if normalized \<in> {''ca'', ''can'', ''canada''} then ''CA''
                   else py_upper (py_strip t)))"

definition score_entry :: "organization \<Rightarrow> string \<Rightarrow> string list \<Rightarrow> int option" where
  "score_entry entry query tokens =
     (if \<exists>token \<in> set tokens. \<not> contains token (org_search_text entry) then None
      else Some ((if contains query (py_lower (org_name entry)) then 120 else 0) + (if contains query (py_lower (org_brand entry)) then 80 else 0) +
        (if contains query (py_lower (org_region entry)) then 30 else 0) + (if contains query (py_lower (org_category_label entry)) then 24 else 0) +
        (if contains query (py_lower (org_country entry)) then 24 else 0) + (if org_has_mfa entry then 4 else 0)))"

text \<open>A slice with any bounds.\<close>

definition py_slice :: "'a list \<Rightarrow> int \<Rightarrow> int \<Rightarrow> 'a list" where
  "py_slice xs lo hi =
     (let n = int (length xs); clamp = (\<lambda>i. nat (if i < 0 then max 0 (i + n) else min i n))
      in take (clamp hi - clamp lo) (drop (clamp lo) xs))"

definition category_filter :: "string option \<Rightarrow> organization \<Rightarrow> bool" where
  "category_filter category entry =
     (case given (map_option (\<lambda>c. py_lower (py_strip c)) (given category)) of
        None \<Rightarrow> True
      | Some c \<Rightarrow> org_category entry = c \<or> py_lower (org_category_label entry) = c)"

definition country_filter :: "string option \<Rightarrow> organization \<Rightarrow> bool" where
  "country_filter country entry = (case given (normalize_country_filter country) of None \<Rightarrow> True | Some c \<Rightarrow> org_country_code entry = c)"

definition site_filter :: "string option \<Rightarrow> organization \<Rightarrow> bool" where
  "site_filter site entry =
     (case given (map_option (\<lambda>s. py_lower (py_strip s)) (given site)) of None \<Rightarrow> True | Some s \<Rightarrow> py_lower (org_site entry) = s)"

definition search_query :: "string option \<Rightarrow> string" where
  "search_query q = py_lower (py_strip (case q of None \<Rightarrow> '''' | Some t \<Rightarrow> t))"

definition matching_organizations ::
  "organization list \<Rightarrow> string option \<Rightarrow> string option \<Rightarrow> string option \<Rightarrow> string option \<Rightarrow> organization list" where
  "matching_organizations catalog q category country site =
     (let query = search_query q; tokens = split_spaces query;
          catalog = filter (site_filter site) (filter (country_filter country) (filter (category_filter category) catalog))
      in if query \<noteq> ''''
         then map snd (sort_key (\<lambda>(score, entry). (- score, org_name entry))
                (List.map_filter (\<lambda>entry. map_option (\<lambda>score. (score, entry)) (score_entry entry query tokens)) catalog))
         else sort_key (\<lambda>entry. (\<not> org_is_sandbox entry, org_country_code entry \<noteq> ''US'', org_category entry, org_region entry, org_name entry)) catalog)"

definition search_organizations ::
  "organization list \<Rightarrow> string option \<Rightarrow> string option \<Rightarrow> string option \<Rightarrow> string option \<Rightarrow> int \<Rightarrow> int \<Rightarrow> (string, json) dict" where
  "search_organizations catalog q category country site limit offset =
     (let filtered = matching_organizations catalog q category country site;
          paged_results = py_slice filtered offset (offset + limit)
      in [(''query'', JStr (case q of None \<Rightarrow> '''' | Some t \<Rightarrow> t)), (''count'', JInt (int (length filtered))),
          (''returned'', JInt (int (length paged_results))), (''offset'', JInt offset), (''limit'', JInt limit),
          (''results'', JList (map (\<lambda>e. JObj (serialize e)) paged_results)), (''summary'', JObj (get_organization_summary catalog))])"

definition get_organization_by_id :: "organization list \<Rightarrow> string \<Rightarrow> (string, json) dict option" where
  "get_organization_by_id catalog oid = map_option serialize (find (\<lambda>e. org_id e = oid) catalog)"

text \<open>The routes.\<close>

definition organization_search ::
  "organization list \<Rightarrow> string option \<Rightarrow> string option \<Rightarrow> string option \<Rightarrow> string option \<Rightarrow> int \<Rightarrow> int \<Rightarrow> http_error + (string, json) dict" where
  "organization_search catalog q category country site limit offset =
     (if limit < 1 \<or> limit > 100 then Inl (HTTPException 422 ''limit must be between 1 and 100.'')
      else if offset < 0 then Inl (HTTPException 422 ''offset must be greater than or equal to 0.'')
      else Inr (search_organizations catalog q category country site limit offset))"

definition organization_detail :: "organization list \<Rightarrow> string \<Rightarrow> http_error + (string, json) dict" where
  "organization_detail catalog oid =
     (case get_organization_by_id catalog oid of None \<Rightarrow> Inl (HTTPException 404 ''Organization not found.'') | Some entry \<Rightarrow> Inr entry)"

section \<open>Identifiers\<close>

lemma distinct_grid:
  assumes "distinct xs" "\<And>x. x \<in> set xs \<Longrightarrow> distinct (f x)"
    and "\<And>x y z. x \<in> set xs \<Longrightarrow> y \<in> set xs \<Longrightarrow> z \<in> set (f x) \<Longrightarrow> z \<in> set (f y) \<Longrightarrow> x = y"
  shows "distinct (concat (map f xs))"
  using assms
proof (induction xs)
  case (Cons a xs)
  have "distinct (concat (map f xs))" using Cons.prems by (intro Cons.IH) auto
  moreover have "set (f a) \<inter> \<Union> (set ` f ` set xs) = {}"
    using Cons.prems(1) Cons.prems(3) [of a] by fastforce
  ultimately show ?case using Cons.prems(2) [of a] by simp
qed simp

definition dash_free :: "string \<Rightarrow> bool" where "dash_free s \<longleftrightarrow> CHR ''-'' \<notin> set s"

lemma organization_id_parts:
  "organization_id spec c r b v = cs_key spec @ CHR ''-'' # py_lower c @ CHR ''-'' # py_lower r @ CHR ''-'' # slugify b @ CHR ''-'' # slugify v"
  by (simp add: organization_id_def)

lemma organization_id_eq:
  assumes "dash_free (cs_key spec)" "dash_free (cs_key spec')" "dash_free (py_lower c)" "dash_free (py_lower c')" "dash_free (py_lower r)" "dash_free (py_lower r')"
  shows "organization_id spec c r b v = organization_id spec' c' r' b' v' \<longleftrightarrow>
    cs_key spec = cs_key spec' \<and> py_lower c = py_lower c' \<and> py_lower r = py_lower r' \<and> slugify b @ CHR ''-'' # slugify v = slugify b' @ CHR ''-'' # slugify v'"
  using assms by (auto simp: organization_id_parts dash_free_def append_sep_inj)

text \<open>No slug of a brand, with its dash, begins another one, so brand and variant are told apart.\<close>

fun slugs_apart :: "string list \<Rightarrow> bool" where
  "slugs_apart [] = True"
| "slugs_apart (s # ss) = (list_all (\<lambda>t. \<not> starts_with (s @ ''-'') (t @ ''-'') \<and> \<not> starts_with (t @ ''-'') (s @ ''-'')) ss \<and> slugs_apart ss)"

definition spec_ok :: "category_spec \<Rightarrow> bool" where
  "spec_ok spec \<longleftrightarrow> dash_free (cs_key spec) \<and> cs_key spec \<noteq> ''sandbox'' \<and> distinct (map slugify (cs_variants spec)) \<and>
     slugs_apart (map slugify (cs_brands spec))"

lemma lower_letters: "lower_char (CHR ''A'') = CHR ''a''" "lower_char (CHR ''B'') = CHR ''b''" "lower_char (CHR ''C'') = CHR ''c''" "lower_char (CHR ''D'') = CHR ''d''"
    "lower_char (CHR ''E'') = CHR ''e''" "lower_char (CHR ''F'') = CHR ''f''" "lower_char (CHR ''G'') = CHR ''g''" "lower_char (CHR ''H'') = CHR ''h''"
    "lower_char (CHR ''I'') = CHR ''i''" "lower_char (CHR ''J'') = CHR ''j''" "lower_char (CHR ''K'') = CHR ''k''" "lower_char (CHR ''L'') = CHR ''l''"
    "lower_char (CHR ''M'') = CHR ''m''" "lower_char (CHR ''N'') = CHR ''n''" "lower_char (CHR ''O'') = CHR ''o''" "lower_char (CHR ''P'') = CHR ''p''"
    "lower_char (CHR ''Q'') = CHR ''q''" "lower_char (CHR ''R'') = CHR ''r''" "lower_char (CHR ''S'') = CHR ''s''" "lower_char (CHR ''T'') = CHR ''t''"
    "lower_char (CHR ''U'') = CHR ''u''" "lower_char (CHR ''V'') = CHR ''v''" "lower_char (CHR ''W'') = CHR ''w''" "lower_char (CHR ''X'') = CHR ''x''"
    "lower_char (CHR ''Y'') = CHR ''y''" "lower_char (CHR ''Z'') = CHR ''z''"
  by code_simp+

lemma lower_other: "\<not> (65 \<le> (of_char c :: nat) \<and> (of_char c :: nat) \<le> 90) \<Longrightarrow> lower_char c = c"
  by (auto simp: lower_char_def Let_def)

lemmas slug_eval = slugify_def py_lower_def lower_letters lower_other slug_char_def is_digit_def rstrip_of_def dash_free_def

lemma specs_ok: "list_all spec_ok CATEGORY_SPECS"
proof -
  have "spec_ok finance_spec" by (simp add: spec_ok_def finance_spec_def slug_eval)
  moreover have "spec_ok utility_spec" by (simp add: spec_ok_def utility_spec_def slug_eval)
  moreover have "spec_ok insurance_spec" by (simp add: spec_ok_def insurance_spec_def slug_eval)
  moreover have "spec_ok telecom_spec" by (simp add: spec_ok_def telecom_spec_def slug_eval)
  moreover have "spec_ok healthcare_spec" by (simp add: spec_ok_def healthcare_spec_def slug_eval)
  moreover have "spec_ok government_spec" by (simp add: spec_ok_def government_spec_def slug_eval)
  ultimately show ?thesis by (simp add: CATEGORY_SPECS_def)
qed

lemma spec_keys: "distinct (map cs_key CATEGORY_SPECS)"
  by (simp add: CATEGORY_SPECS_def finance_spec_def utility_spec_def insurance_spec_def telecom_spec_def healthcare_spec_def government_spec_def)

definition regions_ok :: "(string \<times> string) list \<Rightarrow> bool" where
  "regions_ok rs \<longleftrightarrow> distinct (map (\<lambda>(r, _). py_lower r) rs) \<and> list_all (\<lambda>(r, _). dash_free (py_lower r)) rs"

lemma us_regions_ok: "regions_ok US_REGIONS"
  by (simp add: regions_ok_def US_REGIONS_def slug_eval)

lemma canada_regions_ok: "regions_ok CANADA_REGIONS"
  by (simp add: regions_ok_def CANADA_REGIONS_def slug_eval)

lemma country_codes: "py_lower ''US'' = ''us''" "py_lower ''CA'' = ''ca''"
  by (simp_all add: slug_eval)

lemma comparable_prefixes: "a @ x = b @ y \<Longrightarrow> starts_with a b \<or> starts_with b a"
proof (induction a arbitrary: b)
  case (Cons c a)
  then show ?case by (cases b) auto
qed simp

lemma slugs_apart_cut: "slugs_apart ss \<Longrightarrow> i < length ss \<Longrightarrow> j < length ss \<Longrightarrow> starts_with (ss ! i @ ''-'') (ss ! j @ ''-'') \<Longrightarrow> i = j"
proof (induction ss arbitrary: i j)
  case (Cons s ss)
  then show ?case by (cases i; cases j) (auto simp: list_all_iff)
qed simp

lemma starts_with_refl [simp]: "starts_with s s"
  by (induction s) simp_all

lemma brand_of_id:
  assumes "spec_ok spec" "b \<in> set (cs_brands spec)" "b' \<in> set (cs_brands spec)"
    and "slugify b @ CHR ''-'' # x = slugify b' @ CHR ''-'' # y"
  shows "b = b' \<and> x = y"
proof -
  let ?ss = "map slugify (cs_brands spec)"
  have apart: "slugs_apart ?ss" using assms(1) by (simp add: spec_ok_def)
  obtain i j where ij: "i < length (cs_brands spec)" "cs_brands spec ! i = b" "j < length (cs_brands spec)" "cs_brands spec ! j = b'"
    using assms(2,3) by (metis in_set_conv_nth)
  have "(slugify b @ ''-'') @ x = (slugify b' @ ''-'') @ y" using assms(4) by simp
  then have "starts_with (slugify b @ ''-'') (slugify b' @ ''-'') \<or> starts_with (slugify b' @ ''-'') (slugify b @ ''-'')" by (rule comparable_prefixes)
  then have "i = j" using slugs_apart_cut [OF apart, of i j] slugs_apart_cut [OF apart, of j i] ij by auto
  then show ?thesis using ij assms(4) by auto
qed

lemma brands_distinct: "spec_ok spec \<Longrightarrow> distinct (cs_brands spec)"
  unfolding spec_ok_def distinct_conv_nth using slugs_apart_cut [of "map slugify (cs_brands spec)"] by fastforce

definition spec_ids :: "category_spec \<Rightarrow> string \<Rightarrow> string \<Rightarrow> string list" where
  "spec_ids spec c r = concat (map (\<lambda>b. map (organization_id spec c r b) (cs_variants spec)) (cs_brands spec))"

lemma spec_ids_distinct:
  assumes "spec_ok spec"
  shows "distinct (spec_ids spec c r)"
  unfolding spec_ids_def
proof (rule distinct_grid)
  show "distinct (cs_brands spec)" using assms by (rule brands_distinct)
  show "distinct (map (organization_id spec c r b) (cs_variants spec))" for b
    using assms by (auto simp: spec_ok_def distinct_map organization_id_parts inj_on_def)
  show "b = b'" if "b \<in> set (cs_brands spec)" "b' \<in> set (cs_brands spec)" "z \<in> set (map (organization_id spec c r b) (cs_variants spec))"
      "z \<in> set (map (organization_id spec c r b') (cs_variants spec))" for b b' z
    using that brand_of_id [OF assms that(1,2)] by (auto simp: organization_id_parts)
qed

lemma in_spec_ids: "z \<in> set (spec_ids spec c r) \<longleftrightarrow> (\<exists>b \<in> set (cs_brands spec). \<exists>v \<in> set (cs_variants spec). z = organization_id spec c r b v)"
  by (auto simp: spec_ids_def)

definition country_ids :: "string \<times> string \<times> (string \<times> string) list \<Rightarrow> string list" where
  "country_ids = (\<lambda>(c, _, regions). concat (map (\<lambda>spec. concat (map (\<lambda>(r, _). spec_ids spec c r) regions)) CATEGORY_SPECS))"

lemma spec_member: "spec \<in> set CATEGORY_SPECS \<Longrightarrow> spec_ok spec \<and> dash_free (cs_key spec)"
  using specs_ok by (auto simp: list_all_iff spec_ok_def)

lemma same_spec: "spec \<in> set CATEGORY_SPECS \<Longrightarrow> spec' \<in> set CATEGORY_SPECS \<Longrightarrow> cs_key spec = cs_key spec' \<Longrightarrow> spec = spec'"
  using spec_keys by (auto simp: distinct_map inj_on_def)

lemma country_ids_distinct:
  assumes "dash_free (py_lower c)" "regions_ok regions"
  shows "distinct (country_ids (c, n, regions))"
  unfolding country_ids_def prod.case
proof (rule distinct_grid)
  have free: "dash_free (py_lower r)" if "(r, m) \<in> set regions" for r m using that assms(2) by (auto simp: regions_ok_def list_all_iff)
  have same: "x = y" if "x \<in> set regions" "y \<in> set regions" "py_lower (fst x) = py_lower (fst y)" for x y
    using that assms(2) by (auto simp: regions_ok_def distinct_map inj_on_def split_beta)
  show "distinct CATEGORY_SPECS" using spec_keys by (simp add: distinct_map)
  fix spec
  assume spec: "spec \<in> set CATEGORY_SPECS"
  show "distinct (concat (map (\<lambda>(r, _). spec_ids spec c r) regions))"
  proof (rule distinct_grid)
    show "distinct regions" using assms(2) by (auto simp: regions_ok_def distinct_map)
    show "distinct (case x of (r, _) \<Rightarrow> spec_ids spec c r)" for x using spec_ids_distinct spec_member [OF spec] by (cases x) simp
    show "x = y" if xy: "x \<in> set regions" "y \<in> set regions" and z: "z \<in> set (case x of (r, _) \<Rightarrow> spec_ids spec c r)" "z \<in> set (case y of (r, _) \<Rightarrow> spec_ids spec c r)" for x y z
    proof -
      obtain b v b' v' where "organization_id spec c (fst x) b v = organization_id spec c (fst y) b' v'"
        using z by (cases x; cases y) (auto simp: in_spec_ids)
      moreover have "dash_free (py_lower (fst x))" "dash_free (py_lower (fst y))" using xy free [of "fst x" "snd x"] free [of "fst y" "snd y"] by simp_all
      ultimately have "py_lower (fst x) = py_lower (fst y)" using organization_id_eq [of spec spec c c "fst x" "fst y"] assms(1) spec_member [OF spec] by blast
      then show ?thesis using same [OF xy] by blast
    qed
  qed
  fix spec' z
  assume spec': "spec' \<in> set CATEGORY_SPECS" and z: "z \<in> set (concat (map (\<lambda>(r, _). spec_ids spec c r) regions))" "z \<in> set (concat (map (\<lambda>(r, _). spec_ids spec' c r) regions))"
  then obtain r m b v r' m' b' v' where "(r, m) \<in> set regions" "z = organization_id spec c r b v" "(r', m') \<in> set regions" "z = organization_id spec' c r' b' v'"
    by (auto simp: in_spec_ids) metis
  then have "dash_free (py_lower r)" "dash_free (py_lower r')" "organization_id spec c r b v = organization_id spec' c r' b' v'" using free by auto
  then have "cs_key spec = cs_key spec'" using organization_id_eq [of spec spec' c c r r'] assms(1) spec_member [OF spec] spec_member [OF spec'] by auto
  then show "spec = spec'" using same_spec spec spec' by blast
qed

lemma in_country_ids:
  "z \<in> set (country_ids (c, n, regions)) \<Longrightarrow> \<exists>spec \<in> set CATEGORY_SPECS. \<exists>r m b v. (r, m) \<in> set regions \<and> z = organization_id spec c r b v"
  by (auto simp: country_ids_def in_spec_ids)

lemma directory_ids: "map org_id (generated_entries templates) = concat (map country_ids COUNTRIES)"
  by (simp add: generated_entries_def country_ids_def spec_ids_def map_concat comp_def case_prod_unfold directory_entry_def Let_def)

lemma generated_ids_distinct: "distinct (map org_id (generated_entries templates))"
proof -
  have us: "distinct (country_ids (''US'', n, US_REGIONS))" and ca: "distinct (country_ids (''CA'', m, CANADA_REGIONS))" for n m
    using us_regions_ok canada_regions_ok by (auto intro!: country_ids_distinct simp: slug_eval)
  have "set (country_ids (''US'', n, US_REGIONS)) \<inter> set (country_ids (''CA'', m, CANADA_REGIONS)) = {}" for n m
  proof -
    have "False" if z: "z \<in> set (country_ids (''US'', n, US_REGIONS))" "z \<in> set (country_ids (''CA'', m, CANADA_REGIONS))" for z
    proof -
      obtain spec r b v k where 1: "spec \<in> set CATEGORY_SPECS" "(r, k) \<in> set US_REGIONS" "z = organization_id spec ''US'' r b v"
        using in_country_ids [OF z(1)] by blast
      obtain spec' r' b' v' k' where 2: "spec' \<in> set CATEGORY_SPECS" "(r', k') \<in> set CANADA_REGIONS" "z = organization_id spec' ''CA'' r' b' v'"
        using in_country_ids [OF z(2)] by blast
      have "dash_free (py_lower r)" "dash_free (py_lower r')" using 1(2) 2(2) us_regions_ok canada_regions_ok by (auto simp: regions_ok_def list_all_iff)
      moreover have "dash_free (py_lower ''US'')" "dash_free (py_lower ''CA'')" "py_lower ''US'' \<noteq> py_lower ''CA''" by (simp_all add: slug_eval)
      ultimately show ?thesis using organization_id_eq [of spec spec' "''US''" "''CA''" r r'] 1 2 spec_member by metis
    qed
    then show ?thesis by blast
  qed
  then show ?thesis using us ca by (simp add: directory_ids COUNTRIES_def)
qed

definition demo_id :: "string \<Rightarrow> string" where
  "demo_id site = ''sandbox'' @ CHR ''-'' # map (\<lambda>c. if c = CHR ''_'' then CHR ''-'' else c) site"

lemma org_id_demo [simp]: "org_id (demo_entry site m bp) = demo_id site"
  by (simp add: demo_entry_def demo_id_def Let_def)

lemma demo_ids_of:
  "map org_id (List.map_filter (\<lambda>(site, m). case map_of files site of None \<Rightarrow> None | Some contents \<Rightarrow> map_option (demo_entry site m) (load_blueprint P loads contents)) ms) =
   map (\<lambda>(site, m). demo_id site) (filter (\<lambda>(site, m). Option.bind (map_of files site) (load_blueprint P loads) \<noteq> None) ms)"
  by (induction ms) (auto simp: List.map_filter_simps split: option.splits bind_splits)

lemma demo_ids: "distinct (map org_id (demo_catalog_entries P loads files))" "e \<in> set (demo_catalog_entries P loads files) \<Longrightarrow> \<exists>x. org_id e = ''sandbox'' @ CHR ''-'' # x"
proof -
  have "distinct (map (\<lambda>(site, m). demo_id site) DEMO_SITE_META)" by (simp add: DEMO_SITE_META_def demo_id_def)
  then show "distinct (map org_id (demo_catalog_entries P loads files))"
    by (simp add: demo_catalog_entries_def demo_ids_of distinct_map_filter)
  assume "e \<in> set (demo_catalog_entries P loads files)"
  then have "org_id e \<in> set (map org_id (demo_catalog_entries P loads files))" by simp
  then show "\<exists>x. org_id e = ''sandbox'' @ CHR ''-'' # x"
    unfolding demo_catalog_entries_def demo_ids_of by (auto simp: demo_id_def)
qed

lemma generated_not_sandbox:
  assumes "e \<in> set (generated_entries templates)"
  shows "org_id e \<noteq> ''sandbox'' @ CHR ''-'' # x"
proof
  assume sandbox: "org_id e = ''sandbox'' @ CHR ''-'' # x"
  have "org_id e \<in> set (map org_id (generated_entries templates))" using assms by simp
  then obtain country where country: "country \<in> set COUNTRIES" "org_id e \<in> set (country_ids country)" unfolding directory_ids by auto
  obtain c n regions where [simp]: "country = (c, n, regions)" by (cases country)
  obtain spec r m b v where spec: "spec \<in> set CATEGORY_SPECS" "org_id e = organization_id spec c r b v"
    using in_country_ids [of "org_id e" c n regions] country by auto
  then have "cs_key spec @ CHR ''-'' # py_lower c @ CHR ''-'' # py_lower r @ CHR ''-'' # slugify b @ CHR ''-'' # slugify v = ''sandbox'' @ CHR ''-'' # x"
    using sandbox by (simp add: organization_id_parts)
  moreover have "CHR ''-'' \<notin> set (cs_key spec)" "cs_key spec \<noteq> ''sandbox''"
    using spec_member [OF spec(1)] by (simp_all add: spec_ok_def dash_free_def)
  moreover have "CHR ''-'' \<notin> set ''sandbox''" by simp
  ultimately show False using append_sep_inj by metis
qed

lemma catalog_ids_distinct: "distinct (map org_id (get_organization_catalog P loads demo_mode files))"
proof -
  have "org_id e \<noteq> org_id g" if "e \<in> set (demo_catalog_entries P loads files)" "g \<in> set (generated_entries templates)" for e g templates
    using demo_ids(2) [OF that(1)] generated_not_sandbox [OF that(2)] by metis
  then have "set (map org_id (demo_catalog_entries P loads files)) \<inter> set (map org_id (generated_entries templates)) = {}" for templates
    by fastforce
  then show ?thesis using demo_ids(1) generated_ids_distinct by (simp add: get_organization_catalog_def Let_def)
qed

section \<open>Search\<close>

lemma token_score: "(score_entry e query tokens \<noteq> None) = (\<forall>token \<in> set tokens. contains token (org_search_text e))"
  by (simp add: score_entry_def)

lemma scored_mset:
  "mset (map snd (List.map_filter (\<lambda>e. map_option (\<lambda>score. (score, e)) (f e)) xs)) = filter_mset (\<lambda>e. f e \<noteq> None) (mset xs)"
  by (induction xs) (auto simp: List.map_filter_simps split: option.split)

lemma no_tokens: "query = [] \<Longrightarrow> split_spaces query = []"
  by (simp add: split_spaces_def)

lemma matching_mset:
  "mset (matching_organizations catalog q category country site) =
   filter_mset (\<lambda>e. category_filter category e \<and> country_filter country e \<and> site_filter site e \<and>
     (\<forall>token \<in> set (split_spaces (search_query q)). contains token (org_search_text e))) (mset catalog)"
proof (cases "search_query q = []")
  case True
  then show ?thesis by (simp add: matching_organizations_def no_tokens filter_filter_mset conj_ac)
next
  case False
  let ?pairs = "List.map_filter (\<lambda>entry. map_option (\<lambda>score. (score, entry)) (score_entry entry (search_query q) (split_spaces (search_query q))))
      (filter (site_filter site) (filter (country_filter country) (filter (category_filter category) catalog)))"
  have "mset (matching_organizations catalog q category country site) = image_mset snd (mset ?pairs)"
    using False by (simp add: matching_organizations_def Let_def)
  also have "\<dots> = mset (map snd ?pairs)" by simp
  also have "\<dots> = filter_mset (\<lambda>e. score_entry e (search_query q) (split_spaces (search_query q)) \<noteq> None)
      (mset (filter (site_filter site) (filter (country_filter country) (filter (category_filter category) catalog))))" by (rule scored_mset)
  finally show ?thesis unfolding token_score by (simp add: filter_filter_mset conj_ac)
qed

lemma slice_page:
  assumes "0 < l"
  shows "py_slice xs (int i * int l) (int i * int l + int l) = take l (drop (i * l) xs)"
proof -
  have b: "int i * int l = int (i * l)" "int i * int l + int l = int (i * l + l)" by simp_all
  have k: "nat (min (int k) (int (length xs))) = min k (length xs)" for k by linarith
  then have "py_slice xs (int (i * l)) (int (i * l + l)) = take (min (i * l + l) (length xs) - min (i * l) (length xs)) (drop (min (i * l) (length xs)) xs)"
    unfolding py_slice_def Let_def by (simp only: of_nat_less_0_iff if_False k)
  also have "\<dots> = take l (drop (i * l) xs)"
    by (cases "i * l \<le> length xs") (auto simp: min_def)
  finally show ?thesis unfolding b(2) unfolding b(1) .
qed

lemma pages_concat: "concat (map (\<lambda>i. take l (drop (i * l) xs)) [0..<n]) = take (n * l) xs"
proof (induction n)
  case (Suc n)
  have "Suc n * l = n * l + l" by simp
  with Suc show ?case by (simp add: take_add del: mult_Suc)
qed simp

text \<open>The pages of a search, taken one after the other until none is left, hold exactly the entries of the directory that pass the filters and contain
  every word of the query, each as often as the directory has it.\<close>

theorem search_pages_are_complete:
  assumes "0 < l" "length (matching_organizations catalog q category country site) \<le> n * l"
  shows "\<exists>pages. (\<forall>i < n. jget (search_organizations catalog q category country site (int l) (int i * int l)) ''results'' =
        JList (map (\<lambda>e. JObj (serialize e)) (pages i))) \<and>
      mset (concat (map pages [0..<n])) = filter_mset (\<lambda>e. category_filter category e \<and> country_filter country e \<and> site_filter site e \<and>
        (\<forall>token \<in> set (split_spaces (search_query q)). contains token (org_search_text e))) (mset catalog)"
proof -
  let ?m = "matching_organizations catalog q category country site"
  have "concat (map (\<lambda>i. take l (drop (i * l) ?m)) [0..<n]) = ?m" using assms(2) by (simp add: pages_concat)
  moreover have "jget (search_organizations catalog q category country site (int l) (int i * int l)) ''results'' =
      JList (map (\<lambda>e. JObj (serialize e)) (take l (drop (i * l) ?m)))" for i
    using slice_page [OF assms(1), of ?m i] by (simp add: search_organizations_def Let_def jget_def)
  ultimately show ?thesis using matching_mset [of catalog q category country site] by (intro exI [of _ "\<lambda>i. take l (drop (i * l) ?m)"]) simp
qed

lemma serialize_id: "jtext (jget (serialize e) ''organization_id'') = org_id e"
  by (simp add: serialize_def jget_def jtext_def)

lemma find_by_id: "distinct (map org_id xs) \<Longrightarrow> e \<in> set xs \<Longrightarrow> find (\<lambda>x. org_id x = org_id e) xs = Some e"
  by (induction xs) auto

lemma in_slice: "e \<in> set (py_slice xs lo hi) \<Longrightarrow> e \<in> set xs"
  by (auto simp: py_slice_def Let_def dest: in_set_takeD in_set_dropD)

text \<open>Every entry that a search of the directory lists, with any filters and any page, is what the detail route answers for its identifier: no two of the
  generated and sandbox entries share one.\<close>

theorem listed_organizations_open:
  assumes "organization_search (get_organization_catalog P loads demo_mode files) q category country site limit offset = Inr answer"
    and "jget answer ''results'' = JList entries" "JObj entry \<in> set entries"
  shows "organization_detail (get_organization_catalog P loads demo_mode files) (jtext (jget entry ''organization_id'')) = Inr entry"
proof -
  let ?c = "get_organization_catalog P loads demo_mode files"
  have "entries = map (\<lambda>e. JObj (serialize e)) (py_slice (matching_organizations ?c q category country site) offset (offset + limit))"
    using assms(1,2) by (auto simp: organization_search_def search_organizations_def Let_def jget_def split: if_splits)
  then obtain e where e: "entry = serialize e" "e \<in> set (matching_organizations ?c q category country site)"
    using assms(3) by (auto dest: in_slice)
  then have "e \<in># mset (matching_organizations ?c q category country site)" by simp
  then have "e \<in> set ?c" unfolding matching_mset by simp
  then show ?thesis using e(1) find_by_id [OF catalog_ids_distinct]
    by (simp add: organization_detail_def get_organization_by_id_def serialize_id)
qed

section \<open>Examples\<close>

lemma in_generated:
  assumes "(c, n, rs) \<in> set COUNTRIES" "spec \<in> set CATEGORY_SPECS" "(r, m) \<in> set rs" "b \<in> set (cs_brands spec)" "v \<in> set (cs_variants spec)"
  shows "directory_entry templates c n spec r m b v \<in> set (generated_entries templates)"
proof -
  have "directory_entry templates c n spec r m b v \<in> set (concat (map (\<lambda>b. map (directory_entry templates c n spec r m b) (cs_variants spec)) (cs_brands spec)))"
    using assms(4,5) by auto
  then show ?thesis unfolding generated_entries_def using assms(1-3) by fastforce
qed

definition bank_files :: connector_files where "bank_files = [(''bank'', ''x'')]"

definition bank_catalog :: "organization list" where
  "bank_catalog = get_organization_catalog sample_pydantic (\<lambda>_. Some (JObj sample_file)) False bank_files"

lemma bank_catalog_nonempty: "bank_catalog \<noteq> []"
proof -
  obtain st where "load_blueprint_from_dict sample_pydantic (JObj sample_file) = Some (bare_v1 ''Bank'' st)"
    by (rule unversioned_loads [of sample_file "''Bank''"]) (simp_all add: sample_file_def with_default_def pd_str_def)
  then have "load_connector_templates sample_pydantic (\<lambda>_. Some (JObj sample_file)) bank_files [] = [(''bank'', connector_template_of ''bank'' (bare_v1 ''Bank'' st))]"
    by (simp add: bank_files_def load_blueprint_def discoverable_iff bare_v1_def)
  then have "bank_catalog = generated_entries [(''bank'', connector_template_of ''bank'' (bare_v1 ''Bank'' st))]"
    by (simp add: bank_catalog_def get_organization_catalog_def)
  moreover have "(''US'', ''United States'', US_REGIONS) \<in> set COUNTRIES" "finance_spec \<in> set CATEGORY_SPECS" "(''AL'', ''Alabama'') \<in> set US_REGIONS"
      "''Maple Trust'' \<in> set (cs_brands finance_spec)" "''Member Center'' \<in> set (cs_variants finance_spec)"
    by (simp_all add: COUNTRIES_def CATEGORY_SPECS_def US_REGIONS_def finance_spec_def)
  ultimately show ?thesis using in_generated by (metis empty_iff list.set(1))
qed

lemma unfiltered: "length (matching_organizations catalog None None None None) = length catalog"
proof -
  have "search_query None = []" by (simp add: search_query_def py_strip_def py_lower_def rstrip_of_def)
  then have "mset (matching_organizations catalog None None None None) = mset catalog"
    unfolding matching_mset
    by (simp add: category_filter_def country_filter_def site_filter_def normalize_country_filter_def given_def split_spaces_def)
  then show ?thesis by (metis size_mset)
qed

theorem listed_organizations_open_witness:
  "\<exists>answer entries entry. organization_search bank_catalog None None None None 40 0 = Inr answer \<and> jget answer ''results'' = JList entries \<and>
     JObj entry \<in> set entries \<and> organization_detail bank_catalog (jtext (jget entry ''organization_id'')) = Inr entry"
proof -
  let ?answer = "search_organizations bank_catalog None None None None 40 0"
  let ?m = "matching_organizations bank_catalog None None None None"
  have "?m \<noteq> []" using unfiltered [of bank_catalog] bank_catalog_nonempty by auto
  then obtain e es where m: "?m = e # es" by (cases ?m) auto
  have "nat (min 40 (1 + int (length es))) = Suc (nat (min 39 (int (length es))))" by linarith
  then have "e \<in> set (py_slice ?m 0 (0 + 40))" by (simp add: py_slice_def m)
  then have "JObj (serialize e) \<in> set (map (\<lambda>e. JObj (serialize e)) (py_slice ?m 0 (0 + 40)))" by simp
  moreover have "jget ?answer ''results'' = JList (map (\<lambda>e. JObj (serialize e)) (py_slice ?m 0 (0 + 40)))"
    by (simp add: search_organizations_def Let_def jget_def)
  moreover have "organization_search bank_catalog None None None None 40 0 = Inr ?answer" by (simp add: organization_search_def)
  ultimately show ?thesis using listed_organizations_open [folded bank_catalog_def, of sample_pydantic "\<lambda>_. Some (JObj sample_file)" False bank_files]
    unfolding bank_catalog_def by blast
qed

definition sample_organization :: organization where
  "sample_organization = directory_entry [] ''US'' ''United States'' finance_spec ''AL'' ''Alabama'' ''Maple Trust'' ''Member Center''"

theorem search_pages_are_complete_witness:
  "\<exists>pages. (\<forall>i < (1::nat). jget (search_organizations [sample_organization] None None None None (int 1) (int i * int 1)) ''results'' =
        JList (map (\<lambda>e. JObj (serialize e)) (pages i))) \<and>
      mset (concat (map pages [0..<1])) = filter_mset (\<lambda>e. category_filter None e \<and> country_filter None e \<and> site_filter None e \<and>
        (\<forall>token \<in> set (split_spaces (search_query None)). contains token (org_search_text e))) (mset [sample_organization])"
  by (rule search_pages_are_complete) (simp_all add: unfiltered)

end
