(* ===== verification/Session_Keys.thy ===== *)
theory Session_Keys imports Redis_Store Base64 begin

text \<open>
  \<^verbatim>\<open>src/crypto.py\<close>: the ephemeral RSA key pair of a link session, in Redis or in the process.

  RSA is a library: \<open>rsa\<close> holds what the code calls on a private key \<open>'k\<close>. \<open>conn\<close> is what \<open>_get_redis()\<close> gives at
  the moment of a call: no client (in production a \<^verbatim>\<open>RuntimeError\<close> instead), a client whose command goes through, or a client whose
  command raises.
\<close>

record 'k rsa =
  rsa_public_pem :: "'k \<Rightarrow> string"
  rsa_serialize :: "'k \<Rightarrow> string"
  rsa_load :: "string \<Rightarrow> 'k option"
  rsa_decrypt :: "'k \<Rightarrow> string \<Rightarrow> string option"

datatype conn = No_client | Client_up | Client_fails | Production_error

record ('k, 'r) key_store =
  ks_memory :: "(string, 'k \<times> time) dict"
  ks_server :: 'r

definition KEY_TTL_SECONDS :: int where "KEY_TTL_SECONDS = 600"

definition ephemeral_key :: "string \<Rightarrow> string" where
  "ephemeral_key link_token = ''plaidify:ephemeral_key:'' @ link_token"

definition store_in_memory :: "time \<Rightarrow> string \<Rightarrow> 'k \<Rightarrow> ('k, 'r) key_store \<Rightarrow> ('k, 'r) key_store" where
  "store_in_memory now link_token key s = s\<lparr>ks_memory := AList.update link_token (key, now) (ks_memory s)\<rparr>"

text \<open>\<open>None\<close>: the \<^verbatim>\<open>RuntimeError\<close> of production.\<close>

definition generate_keypair ::
  "'k rsa \<Rightarrow> ('r, string) redis \<Rightarrow> conn \<Rightarrow> time \<Rightarrow> 'k \<Rightarrow> string \<Rightarrow> ('k, 'r) key_store \<Rightarrow> (string \<times> ('k, 'r) key_store) option" where
  "generate_keypair lib rd c now key link_token s =
     (case c of
        Production_error \<Rightarrow> None
      | Client_up \<Rightarrow>
          Some (rsa_public_pem lib key,
            s\<lparr>ks_server := r_set rd (ks_server s) now (ephemeral_key link_token) (rsa_serialize lib key) KEY_TTL_SECONDS\<rparr>)
      | _ \<Rightarrow> Some (rsa_public_pem lib key, store_in_memory now link_token key s))"

definition from_memory :: "string \<Rightarrow> ('k, 'r) key_store \<Rightarrow> 'k option" where
  "from_memory link_token s = map_option fst (map_of (ks_memory s) link_token)"

text \<open>A PEM text that does not load is an exception of the read: it is logged and the memory is tried.\<close>

definition get_private_key :: "'k rsa \<Rightarrow> ('r, string) redis \<Rightarrow> conn \<Rightarrow> time \<Rightarrow> string \<Rightarrow> ('k, 'r) key_store \<Rightarrow> 'k option option" where
  "get_private_key lib rd c now link_token s =
     (case c of
        Production_error \<Rightarrow> None
      | Client_up \<Rightarrow>
          (case r_get rd (ks_server s) now (ephemeral_key link_token) of
             None \<Rightarrow> Some (from_memory link_token s)
           | Some pem_bytes \<Rightarrow>
               if pem_bytes = '''' then Some (from_memory link_token s)
               else (case rsa_load lib pem_bytes of Some key \<Rightarrow> Some (Some key) | None \<Rightarrow> Some (from_memory link_token s)))
      | _ \<Rightarrow> Some (from_memory link_token s))"

definition get_public_key :: "'k rsa \<Rightarrow> ('r, string) redis \<Rightarrow> conn \<Rightarrow> time \<Rightarrow> string \<Rightarrow> ('k, 'r) key_store \<Rightarrow> string option option" where
  "get_public_key lib rd c now link_token s = map_option (map_option (rsa_public_pem lib)) (get_private_key lib rd c now link_token s)"

datatype decrypt_error = NoKey | DecryptFailed | ServerUnavailable

definition decrypt_with_session_key ::
  "'k rsa \<Rightarrow> ('r, string) redis \<Rightarrow> conn \<Rightarrow> time \<Rightarrow> string \<Rightarrow> string \<Rightarrow> ('k, 'r) key_store \<Rightarrow> decrypt_error + string" where
  "decrypt_with_session_key lib rd c now link_token ciphertext s =
     (case get_private_key lib rd c now link_token s of
        None \<Rightarrow> Inl ServerUnavailable
      | Some None \<Rightarrow> Inl NoKey
      | Some (Some key) \<Rightarrow>
          (case Option.bind (rsa_decrypt lib key ciphertext) utf8_decode of None \<Rightarrow> Inl DecryptFailed | Some p \<Rightarrow> Inr p))"

text \<open>A failing deletion in Redis is ignored.\<close>

definition destroy_session_key :: "('r, string) redis \<Rightarrow> conn \<Rightarrow> string \<Rightarrow> ('k, 'r) key_store \<Rightarrow> ('k, 'r) key_store option" where
  "destroy_session_key rd c link_token s =
     (let s' = s\<lparr>ks_memory := AList.delete link_token (ks_memory s)\<rparr>
      in case c of
           Production_error \<Rightarrow> None
         | Client_up \<Rightarrow> Some (s'\<lparr>ks_server := r_delete rd (ks_server s) (ephemeral_key link_token)\<rparr>)
         | _ \<Rightarrow> Some s')"

definition cleanup_expired_keys :: "time \<Rightarrow> ('k, 'r) key_store \<Rightarrow> nat \<times> ('k, 'r) key_store" where
  "cleanup_expired_keys now s =
     (let expired = map fst (filter (\<lambda>(_, _, ts). ts < now - of_int KEY_TTL_SECONDS) (ks_memory s))
      in (length expired, s\<lparr>ks_memory := dict_del_all expired (ks_memory s)\<rparr>))"

section \<open>Destroyed keys\<close>

text \<open>The two credentials are encrypted to a key, decrypted and the key destroyed: what a client and \<open>resolve_credentials\<close> do.
  The key was stored in one state of the connection and is read in another.\<close>

definition rsa_ok :: "'k rsa \<Rightarrow> ('k \<Rightarrow> string \<Rightarrow> string) \<Rightarrow> bool" where
  "rsa_ok lib enc \<longleftrightarrow>
     (\<forall>k p. rsa_decrypt lib k (enc k p) = Some p) \<and> (\<forall>k. rsa_load lib (rsa_serialize lib k) = Some k) \<and> (\<forall>k. rsa_serialize lib k \<noteq> '''')"

lemma stored_key_found:
  assumes "rsa_ok lib enc" "redis_ok rd view" "generate_keypair lib rd c now key tok s = Some (pem, s')"
    and "c = Client_up \<longrightarrow> c' = Client_up \<and> now' < now + of_int KEY_TTL_SECONDS"
    and "c' = Client_up \<longrightarrow> c = Client_up \<or> live (view (ks_server s)) now' (ephemeral_key tok) = None" "c' \<noteq> Production_error"
  shows "get_private_key lib rd c' now' tok s' = Some (Some key)"
proof (cases "c = Client_up")
  case True
  with assms show ?thesis
    by (auto simp: generate_keypair_def get_private_key_def redis_laws [OF assms(2)] rsa_ok_def)
next
  case False
  with assms have s': "s' = store_in_memory now tok key s" by (cases c) (simp_all add: generate_keypair_def)
  show ?thesis
  proof (cases c')
    case Client_up
    with False assms(5) show ?thesis by (simp add: s' get_private_key_def store_in_memory_def from_memory_def redis_laws [OF assms(2)])
  qed (use assms(6) in \<open>simp_all add: s' get_private_key_def store_in_memory_def from_memory_def\<close>)
qed

text \<open>What a client encrypted to the public key of its session decrypts to what the client entered, when the key was stored in
  Redis and is read from it within its ten minutes, or was stored in the process; and once the key is destroyed with Redis reachable,
  or with no Redis and no copy of the key there, no later attempt decrypts anything.\<close>

theorem session_key_used_then_gone:
  assumes "rsa_ok lib enc" "redis_ok rd view" "utf8_ok p" "generate_keypair lib rd c now key tok s = Some (pem, s1)"
    and "c = Client_up \<longrightarrow> c' = Client_up \<and> now' < now + of_int KEY_TTL_SECONDS"
    and "c' = Client_up \<longrightarrow> c = Client_up \<or> live (view (ks_server s)) now' (ephemeral_key tok) = None" "c' \<noteq> Production_error"
    and "destroy_session_key rd d tok s1 = Some s2" "d = Client_up \<or> view (ks_server s1) (ephemeral_key tok) = None"
  shows "decrypt_with_session_key lib rd c' now' tok (enc key p) s1 = Inr p \<and>
    (\<forall>c'' now'' ct. \<exists>e. decrypt_with_session_key lib rd c'' now'' tok ct s2 = Inl e)"
proof
  show "decrypt_with_session_key lib rd c' now' tok (enc key p) s1 = Inr p"
    using stored_key_found [OF assms(1,2,4,5,6,7)] assms(1,3) by (simp add: decrypt_with_session_key_def rsa_ok_def utf8_decode_def)
  have gone: "from_memory tok s2 = None" "view (ks_server s2) (ephemeral_key tok) = None"
    using assms(8,9) by (cases d; auto simp: destroy_session_key_def from_memory_def Let_def redis_laws [OF assms(2)])+
  show "\<forall>c'' now'' ct. \<exists>e. decrypt_with_session_key lib rd c'' now'' tok ct s2 = Inl e"
  proof (intro allI)
    fix c'' now'' ct
    show "\<exists>e. decrypt_with_session_key lib rd c'' now'' tok ct s2 = Inl e"
      using gone by (cases c'') (simp_all add: decrypt_with_session_key_def get_private_key_def redis_laws [OF assms(2)] live_def)
  qed
qed

definition sample_rsa :: "string rsa" where
  "sample_rsa = \<lparr>rsa_public_pem = (\<lambda>k. ''pub'' @ k), rsa_serialize = (\<lambda>k. CHR ''p'' # k), rsa_load = (\<lambda>s. Some (tl s)), rsa_decrypt = (\<lambda>k s. Some (drop (length k) s))\<rparr>"

lemma sample_rsa_ok: "rsa_ok sample_rsa (\<lambda>k p. k @ p)"
  by (simp add: rsa_ok_def sample_rsa_def)

definition sample_keys :: "(string, string keyspace) key_store" where
  "sample_keys = \<lparr>ks_memory = [], ks_server = (\<lambda>_. None)\<rparr>"

theorem session_key_used_then_gone_witness:
  "\<exists>s1 s2. generate_keypair sample_rsa ks_redis Client_up 0 ''k'' ''tok'' sample_keys = Some (''pubk'', s1) \<and>
    destroy_session_key ks_redis Client_up ''tok'' s1 = Some s2 \<and>
    decrypt_with_session_key sample_rsa ks_redis Client_up 10 ''tok'' (''k'' @ ''pw'') s1 = Inr ''pw'' \<and>
    (\<forall>c'' now'' ct. \<exists>e. decrypt_with_session_key sample_rsa ks_redis c'' now'' ''tok'' ct s2 = Inl e)"
proof -
  obtain s1 where g: "generate_keypair sample_rsa ks_redis Client_up 0 ''k'' ''tok'' sample_keys = Some (''pubk'', s1)"
    by (simp add: generate_keypair_def sample_rsa_def)
  obtain s2 where d: "destroy_session_key ks_redis Client_up ''tok'' s1 = Some s2"
    by (simp add: destroy_session_key_def Let_def)
  have u: "utf8_ok ''pw''" by (simp add: byte_in_def)
  show ?thesis
    using g d session_key_used_then_gone [OF sample_rsa_ok ks_redis_ok u g _ _ _ d, of Client_up 10]
    by (simp add: KEY_TTL_SECONDS_def)
qed

text \<open>In the process a key has no end: reading it does not look at its age, and the sweep that would remove it is not called by
  any code of the program.\<close>

theorem memory_keys_do_not_expire:
  assumes "rsa_ok lib enc" "utf8_ok p" "generate_keypair lib rd No_client now key tok s = Some (pem, s1)"
  shows "decrypt_with_session_key lib rd No_client now' tok (enc key p) s1 = Inr p"
  using assms
  by (auto simp: generate_keypair_def store_in_memory_def decrypt_with_session_key_def get_private_key_def from_memory_def rsa_ok_def utf8_decode_def)

theorem memory_keys_do_not_expire_witness:
  "decrypt_with_session_key sample_rsa ks_redis No_client 1000000 ''tok'' (''k'' @ ''pw'') (store_in_memory 0 ''tok'' ''k'' sample_keys) = Inr ''pw''"
  by (rule memory_keys_do_not_expire [OF sample_rsa_ok, where pem = "''pubk''" and now = 0 and s = sample_keys])
    (simp_all add: byte_in_def generate_keypair_def sample_rsa_def)

end
