(* ===== verification/Session_Store.thy ===== *)
theory Session_Store imports Redis_Store begin

text \<open>
  \<^verbatim>\<open>src/session_store.py\<close>: link sessions, link scopes and deferred refresh schedules (consumed once),
  launch bootstraps (redeemed once) and the webhook delivery log, each on its two back ends: the process's
  own dictionaries and Redis.

  Every store is a set of operations on a back-end state. Three contracts are stated as locales and
  interpreted on both back ends: \<open>consume_once\<close>, \<open>redeem_once\<close> and \<open>session_backend\<close>.
\<close>

definition LINK_SESSION_TTL :: int where "LINK_SESSION_TTL = 600"
definition LINK_SCOPE_TTL :: int where "LINK_SCOPE_TTL = 600"
definition WEBHOOK_DELIVERY_TTL :: int where "WEBHOOK_DELIVERY_TTL = 86400"
definition WEBHOOK_DELIVERY_MAX :: nat where "WEBHOOK_DELIVERY_MAX = 200"
definition MAX_MEM_LINK_SESSIONS :: nat where "MAX_MEM_LINK_SESSIONS = 10000"
definition MAX_MEM_LINK_SCOPES :: nat where "MAX_MEM_LINK_SCOPES = 10000"
definition MAX_MEM_LINK_LAUNCH_BOOTSTRAPS :: nat where "MAX_MEM_LINK_LAUNCH_BOOTSTRAPS = 10000"
definition MAX_MEM_WEBHOOK_DELIVERIES :: nat where "MAX_MEM_WEBHOOK_DELIVERIES = 5000"

section \<open>Values consumed once\<close>

text \<open>Oldest entries first out; the check comes before the insertion.\<close>

definition evict_oldest :: "nat \<Rightarrow> (string, 'v) dict \<Rightarrow> (string, 'v) dict" where
  "evict_oldest limit d = (if length d > limit then dict_del_all (take (length d - limit) (map fst d)) d else d)"

definition mem_put :: "time \<Rightarrow> string \<Rightarrow> string \<Rightarrow> (string, string) dict \<Rightarrow> (string, string) dict" where
  "mem_put now k v d = AList.update k v (evict_oldest MAX_MEM_LINK_SCOPES d)"

definition mem_pop :: "time \<Rightarrow> string \<Rightarrow> (string, string) dict \<Rightarrow> string option \<times> (string, string) dict" where
  "mem_pop now k d = (map_of d k, AList.delete k d)"

definition redis_put :: "('r, string) redis \<Rightarrow> string \<Rightarrow> time \<Rightarrow> string \<Rightarrow> string \<Rightarrow> 'r \<Rightarrow> 'r" where
  "redis_put rd prefix now k v r = r_set rd r now (prefix @ k) v LINK_SCOPE_TTL"

definition redis_pop :: "('r, string) redis \<Rightarrow> string \<Rightarrow> time \<Rightarrow> string \<Rightarrow> 'r \<Rightarrow> string option \<times> 'r" where
  "redis_pop rd prefix now k r =
     (let val = r_get rd r now (prefix @ k)
      in (val, if val \<noteq> None \<and> val \<noteq> Some '''' then r_delete rd r (prefix @ k) else r))"

definition scope_prefix :: string where "scope_prefix = ''plaidify:link_scope:''"
definition refresh_prefix :: string where "refresh_prefix = ''plaidify:link_refresh:''"

locale consume_once =
  fixes put :: "time \<Rightarrow> string \<Rightarrow> string \<Rightarrow> 's \<Rightarrow> 's"
    and pop :: "time \<Rightarrow> string \<Rightarrow> 's \<Rightarrow> string option \<times> 's"
    and view :: "'s \<Rightarrow> time \<Rightarrow> string \<Rightarrow> string option"
  assumes put_view: "v \<noteq> '''' \<Longrightarrow> now' < now + of_int LINK_SCOPE_TTL \<Longrightarrow> view (put now k v s) now' k = Some v"
    and pop_reads: "fst (pop now k s) = view s now k"
    and pop_clears: "view s now k = Some v \<Longrightarrow> v \<noteq> [] \<Longrightarrow> view (snd (pop now k s)) now' k = None"
    and pop_others: "k' \<noteq> k \<Longrightarrow> view (snd (pop now k s)) now' k' = view s now' k'"
begin

lemma put_pop: "v \<noteq> '''' \<Longrightarrow> now' < now + of_int LINK_SCOPE_TTL \<Longrightarrow> fst (pop now' k (put now k v s)) = Some v"
  by (simp add: pop_reads put_view)

lemma popped_once: "v \<noteq> '''' \<Longrightarrow> fst (pop now k s) = Some v \<Longrightarrow> fst (pop now' k (snd (pop now k s))) = None"
  using pop_clears [of s now k v now'] by (simp add: pop_reads)

end

interpretation mem_scopes: consume_once mem_put mem_pop "\<lambda>d now. map_of d"
  by unfold_locales (simp_all add: mem_put_def mem_pop_def)

lemma redis_consume_once:
  assumes "redis_ok rd view"
  shows "consume_once (redis_put rd prefix) (redis_pop rd prefix) (\<lambda>r now k. live (view r) now (prefix @ k))"
proof
  fix v k :: string and now now' :: time and s :: 'a
  assume "v \<noteq> ''''" "now' < now + of_int LINK_SCOPE_TTL"
  then show "live (view (redis_put rd prefix now k v s)) now' (prefix @ k) = Some v"
    by (simp add: redis_put_def redis_laws [OF assms])
next
  fix v k :: string and now now' :: time and s :: 'a
  assume "live (view s) now (prefix @ k) = Some v" "v \<noteq> ''''"
  then show "live (view (snd (redis_pop rd prefix now k s))) now' (prefix @ k) = None"
    by (simp add: redis_pop_def redis_laws [OF assms] Let_def)
qed (simp_all add: redis_pop_def redis_laws [OF assms] Let_def)

interpretation redis_scopes: consume_once "redis_put ks_redis scope_prefix" "redis_pop ks_redis scope_prefix"
  "\<lambda>r now k. live r now (scope_prefix @ k)"
  using redis_consume_once [OF ks_redis_ok] .

interpretation redis_schedules: consume_once "redis_put ks_redis refresh_prefix" "redis_pop ks_redis refresh_prefix"
  "\<lambda>r now k. live r now (refresh_prefix @ k)"
  using redis_consume_once [OF ks_redis_ok] .

section \<open>Launch bootstraps\<close>

record bootstrap_entry =
  be_consumed :: bool
  be_created_at :: time
  be_expires_in :: int

definition evict_by_age :: "nat \<Rightarrow> ('v \<Rightarrow> time) \<Rightarrow> (string, 'v) dict \<Rightarrow> (string, 'v) dict" where
  "evict_by_age limit created d =
     (if length d > limit
      then dict_del_all (take (length d - limit) (map fst (sort_key (\<lambda>(_, v). created v) d))) d
      else d)"

definition evict_expired_bootstraps :: "time \<Rightarrow> (string, bootstrap_entry) dict \<Rightarrow> (string, bootstrap_entry) dict" where
  "evict_expired_bootstraps now d =
     (let expired = map fst (filter (\<lambda>(_, v). now - be_created_at v > of_int (be_expires_in v)) d)
      in evict_by_age MAX_MEM_LINK_LAUNCH_BOOTSTRAPS be_created_at (dict_del_all expired d))"

definition mem_issue :: "time \<Rightarrow> string \<Rightarrow> int \<Rightarrow> (string, bootstrap_entry) dict \<Rightarrow> (string, bootstrap_entry) dict" where
  "mem_issue now launch_id expires_in d =
     AList.update launch_id \<lparr>be_consumed = False, be_created_at = now, be_expires_in = max expires_in 1\<rparr>
       (evict_expired_bootstraps now d)"

definition mem_consume :: "time \<Rightarrow> string \<Rightarrow> (string, bootstrap_entry) dict \<Rightarrow> bool \<times> (string, bootstrap_entry) dict" where
  "mem_consume now launch_id d =
     (let d = evict_expired_bootstraps now d
      in case map_of d launch_id of
           None \<Rightarrow> (False, d)
         | Some e \<Rightarrow> if be_consumed e then (False, d) else (True, AList.update launch_id (e\<lparr>be_consumed := True\<rparr>) d))"

definition bootstrap_key :: "string \<Rightarrow> string" where
  "bootstrap_key launch_id = ''plaidify:link_launch_bootstrap:'' @ launch_id"

definition redis_issue :: "('r, string) redis \<Rightarrow> time \<Rightarrow> string \<Rightarrow> int \<Rightarrow> 'r \<Rightarrow> 'r" where
  "redis_issue rd now launch_id expires_in r = r_set rd r now (bootstrap_key launch_id) ''issued'' (max expires_in 1)"

text \<open>The script, run atomically by the server.\<close>

definition redis_consume :: "('r, string) redis \<Rightarrow> time \<Rightarrow> string \<Rightarrow> 'r \<Rightarrow> bool \<times> 'r" where
  "redis_consume rd now launch_id r =
     (let key = bootstrap_key launch_id
      in case r_get rd r now key of
           None \<Rightarrow> (False, r)
         | Some value \<Rightarrow>
             if value = ''consumed'' then (False, r)
             else (let ttl = r_ttl rd r now key; ttl = (if ttl < 1 then 60 else ttl)
                   in (True, r_set rd r now key ''consumed'' ttl)))"

text \<open>A run of redemptions: the identifiers whose redemption succeeded.\<close>

fun redeemed :: "(time \<Rightarrow> string \<Rightarrow> 's \<Rightarrow> bool \<times> 's) \<Rightarrow> (time \<times> string) list \<Rightarrow> 's \<Rightarrow> string list" where
  "redeemed consume [] s = []"
| "redeemed consume ((now, k) # xs) s =
     (if fst (consume now k s) then [k] else []) @ redeemed consume xs (snd (consume now k s))"

text \<open>\<open>spent\<close>: the identifier cannot be redeemed any more. \<open>room\<close>: a further identifier fits without evicting one.\<close>

locale redeem_once =
  fixes issue :: "time \<Rightarrow> string \<Rightarrow> int \<Rightarrow> 's \<Rightarrow> 's"
    and consume :: "time \<Rightarrow> string \<Rightarrow> 's \<Rightarrow> bool \<times> 's"
    and spent :: "string \<Rightarrow> 's \<Rightarrow> bool"
    and room :: "'s \<Rightarrow> bool"
  assumes issued_redeems: "room s \<Longrightarrow> 0 < expires \<Longrightarrow> now \<le> now' \<Longrightarrow> now' < now + of_int expires \<Longrightarrow> fst (consume now' k (issue now k expires s))"
    and consume_spends: "fst (consume now k s) \<Longrightarrow> spent k (snd (consume now k s))"
    and spent_refused: "spent k s \<Longrightarrow> \<not> fst (consume now k s)"
    and spent_stays: "spent k s \<Longrightarrow> spent k (snd (consume now k' s))"
    and spent_issue: "spent k s \<Longrightarrow> k \<noteq> k' \<Longrightarrow> spent k (issue now k' expires s)"
begin

lemma spent_never: "spent k s \<Longrightarrow> k \<notin> set (redeemed consume xs s)"
proof (induction xs arbitrary: s)
  case (Cons x xs)
  obtain now k' where x: "x = (now, k')" by fastforce
  with Cons spent_stays spent_refused show ?case by auto
qed simp

lemma redeemed_distinct: "distinct (redeemed consume xs s)"
proof (induction xs arbitrary: s)
  case (Cons x xs)
  obtain now k where x: "x = (now, k)" by fastforce
  with Cons consume_spends spent_never show ?case by simp
qed simp

end

definition mem_spent :: "string \<Rightarrow> (string, bootstrap_entry) dict \<Rightarrow> bool" where
  "mem_spent k d \<longleftrightarrow> (case map_of d k of None \<Rightarrow> True | Some e \<Rightarrow> be_consumed e)"

lemma evict_by_age_sub: "map_of (evict_by_age limit f d) k \<in> {None, map_of d k}"
  by (simp add: evict_by_age_def map_of_del_all)

lemma evict_bootstraps_sub: "map_of (evict_expired_bootstraps now d) k \<in> {None, map_of d k}"
proof -
  let ?x = "map fst (filter (\<lambda>(_, v). now - be_created_at v > of_int (be_expires_in v)) d)"
  have "map_of (evict_expired_bootstraps now d) k \<in> {None, map_of (dict_del_all ?x d) k}"
    unfolding evict_expired_bootstraps_def Let_def by (rule evict_by_age_sub)
  then show ?thesis by (auto simp: map_of_del_all split: if_splits)
qed

lemma mem_spent_evict: "mem_spent k d \<Longrightarrow> mem_spent k (evict_expired_bootstraps now d)"
  using evict_bootstraps_sub [of now d k] by (auto simp: mem_spent_def)

lemma length_del_all_le: "length (dict_del_all ks d) \<le> length d"
  by (simp add: dict_del_all_filter)

lemma evict_bootstraps_room:
  assumes "length d \<le> MAX_MEM_LINK_LAUNCH_BOOTSTRAPS"
  shows "evict_expired_bootstraps now d = dict_del_all (map fst (filter (\<lambda>(_, v). now - be_created_at v > of_int (be_expires_in v)) d)) d"
proof -
  have "length (dict_del_all ks d) \<le> MAX_MEM_LINK_LAUNCH_BOOTSTRAPS" for ks
    using length_del_all_le [of ks d] assms by simp
  then show ?thesis by (simp add: evict_expired_bootstraps_def evict_by_age_def Let_def not_less)
qed

interpretation mem_bootstraps: redeem_once mem_issue mem_consume mem_spent
  "\<lambda>d. dict_ok d \<and> length d < MAX_MEM_LINK_LAUNCH_BOOTSTRAPS"
proof
  fix d :: "(string, bootstrap_entry) dict" and expires :: int and now now' :: time and k :: string
  assume room: "dict_ok d \<and> length d < MAX_MEM_LINK_LAUNCH_BOOTSTRAPS"
    and t: "0 < expires" "now \<le> now'" "now' < now + of_int expires"
  let ?d = "evict_expired_bootstraps now d"
  let ?e = "\<lparr>be_consumed = False, be_created_at = now, be_expires_in = max expires 1\<rparr>"
  let ?i = "AList.update k ?e ?d"
  let ?x = "map fst (filter (\<lambda>(_, v). now' - be_created_at v > of_int (be_expires_in v)) ?i)"
  have d: "dict_ok ?d" "length ?d < MAX_MEM_LINK_LAUNCH_BOOTSTRAPS"
    using room le_less_trans [OF length_del_all_le, of d MAX_MEM_LINK_LAUNCH_BOOTSTRAPS] by (simp_all add: evict_bootstraps_room)
  then have i: "dict_ok ?i" "length ?i \<le> MAX_MEM_LINK_LAUNCH_BOOTSTRAPS"
    using length_update_le [of k ?e ?d] by simp_all
  have "k \<notin> set ?x"
  proof
    assume "k \<in> set ?x"
    then obtain e where "(k, e) \<in> set ?i" "now' - be_created_at e > of_int (be_expires_in e)" by auto
    moreover from this i(1) have "map_of ?i k = Some e" by (metis dict_ok_def map_of_is_SomeI)
    ultimately show False using t by (auto simp: max_def split: if_splits)
  qed
  then have "map_of (evict_expired_bootstraps now' ?i) k = Some ?e"
    by (simp add: evict_bootstraps_room [OF i(2)] map_of_del_all)
  then show "fst (mem_consume now' k (mem_issue now k expires d))"
    by (simp add: mem_consume_def mem_issue_def Let_def)
next
  fix now :: time and k :: string and d :: "(string, bootstrap_entry) dict"
  assume "fst (mem_consume now k d)"
  then show "mem_spent k (snd (mem_consume now k d))"
    by (auto simp: mem_consume_def mem_spent_def Let_def split: option.splits if_splits)
next
  fix k :: string and now :: time and d :: "(string, bootstrap_entry) dict"
  assume "mem_spent k d"
  then have "mem_spent k (evict_expired_bootstraps now d)" by (rule mem_spent_evict)
  then show "\<not> fst (mem_consume now k d)"
    by (auto simp: mem_consume_def mem_spent_def Let_def split: option.splits if_splits)
next
  fix k k' :: string and now :: time and d :: "(string, bootstrap_entry) dict"
  assume "mem_spent k d"
  then have "mem_spent k (evict_expired_bootstraps now d)" by (rule mem_spent_evict)
  then show "mem_spent k (snd (mem_consume now k' d))"
    by (auto simp: mem_consume_def mem_spent_def Let_def split: option.splits)
next
  fix k k' :: string and now :: time and expires :: int and d :: "(string, bootstrap_entry) dict"
  assume "mem_spent k d" "k \<noteq> k'"
  then show "mem_spent k (mem_issue now k' expires d)"
    using mem_spent_evict [of k d now] by (simp add: mem_issue_def mem_spent_def)
qed

definition redis_spent :: "('r \<Rightarrow> string keyspace) \<Rightarrow> string \<Rightarrow> 'r \<Rightarrow> bool" where
  "redis_spent view k r \<longleftrightarrow> (case view r (bootstrap_key k) of None \<Rightarrow> True | Some (v, _) \<Rightarrow> v = ''consumed'')"

lemma bootstrap_key_inj [simp]: "bootstrap_key k = bootstrap_key k' \<longleftrightarrow> k = k'"
  by (simp add: bootstrap_key_def)

lemma redis_redeem_once:
  assumes "redis_ok rd view"
  shows "redeem_once (redis_issue rd) (redis_consume rd) (redis_spent view) (\<lambda>_. True)"
proof
  fix s :: 'a and expires :: int and now now' :: time and k :: string
  assume "0 < expires" "now \<le> now'" "now' < now + of_int expires"
  then show "fst (redis_consume rd now' k (redis_issue rd now k expires s))"
    by (simp add: redis_consume_def redis_issue_def redis_laws [OF assms] Let_def)
next
  fix s :: 'a and now :: time and k :: string
  assume "fst (redis_consume rd now k s)"
  then show "redis_spent view k (snd (redis_consume rd now k s))"
    by (auto simp: redis_consume_def redis_spent_def redis_laws [OF assms] Let_def split: option.splits if_splits)
next
  fix s :: 'a and now :: time and k :: string
  assume "redis_spent view k s"
  then show "\<not> fst (redis_consume rd now k s)"
    by (auto simp: redis_consume_def redis_spent_def redis_laws [OF assms] live_def Let_def split: option.splits if_splits)
next
  fix s :: 'a and now :: time and k k' :: string
  assume "redis_spent view k s"
  then show "redis_spent view k (snd (redis_consume rd now k' s))"
    by (auto simp: redis_consume_def redis_spent_def redis_laws [OF assms] Let_def split: option.splits)
next
  fix s :: 'a and now :: time and k k' :: string and expires
  assume "redis_spent view k s" "k \<noteq> k'"
  then show "redis_spent view k (redis_issue rd now k' expires s)"
    by (simp add: redis_issue_def redis_spent_def redis_laws [OF assms])
qed

interpretation redis_bootstraps: redeem_once "redis_issue ks_redis" "redis_consume ks_redis" "redis_spent (\<lambda>r. r)" "\<lambda>_. True"
  using redis_redeem_once [OF ks_redis_ok] .

text \<open>A hosted-link launch token is good for one session: in any sequence of redemption attempts, by any workers at
  any times, on either back end, every launch identifier is redeemed at most once.\<close>

theorem bootstrap_redeemed_once:
  assumes "redis_ok rd view"
  shows "distinct (redeemed mem_consume attempts d) \<and> distinct (redeemed (redis_consume rd) attempts r)"
  using mem_bootstraps.redeemed_distinct redeem_once.redeemed_distinct [OF redis_redeem_once [OF assms]]
  by blast

theorem bootstrap_redeemed_once_witness:
  "distinct (redeemed mem_consume [(1, ''a''), (2, ''a'')] (mem_issue 0 ''a'' 60 [])) \<and>
   distinct (redeemed (redis_consume ks_redis) [(1, ''a''), (2, ''a'')] (redis_issue ks_redis 0 ''a'' 60 (\<lambda>_. None)))"
  using bootstrap_redeemed_once [OF ks_redis_ok, of "[(1, ''a''), (2, ''a'')]" "mem_issue 0 ''a'' 60 []"] bootstrap_redeemed_once [OF ks_redis_ok, of "[(1, ''a''), (2, ''a'')]" "[]"]
  by blast

section \<open>Link sessions\<close>

text \<open>A session is a dictionary of JSON values. \<open>session.get("created_at", 0)\<close> reads a number.\<close>

type_synonym link_session = "(string, json) dict"

fun jreal :: "json \<Rightarrow> real" where
  "jreal (JNum r) = r"
| "jreal (JInt i) = of_int i"
| "jreal _ = 0"

definition session_created :: "link_session \<Rightarrow> time" where
  "session_created d = (case map_of d ''created_at'' of None \<Rightarrow> 0 | Some v \<Rightarrow> jreal v)"

definition session_stale :: "time \<Rightarrow> link_session \<Rightarrow> bool" where
  "session_stale now d \<longleftrightarrow> now - session_created d > of_int LINK_SESSION_TTL"

definition stamp :: "time \<Rightarrow> link_session \<Rightarrow> link_session" where
  "stamp now d = (if map_of d ''created_at'' = None then AList.update ''created_at'' (JNum now) d else d)"

definition drop_subscribers :: "link_session \<Rightarrow> link_session" where
  "drop_subscribers d = AList.delete ''subscribers'' d"

definition append_event :: "json \<Rightarrow> link_session \<Rightarrow> link_session" where
  "append_event event d =
     AList.update ''events'' (JList ((case map_of d ''events'' of Some (JList es) \<Rightarrow> es | _ \<Rightarrow> []) @ [event])) d"

record 's link_store =
  ls_create :: "time \<Rightarrow> string \<Rightarrow> link_session \<Rightarrow> 's \<Rightarrow> 's"
  ls_get :: "time \<Rightarrow> string \<Rightarrow> 's \<Rightarrow> link_session option \<times> 's"
  ls_update :: "time \<Rightarrow> string \<Rightarrow> link_session \<Rightarrow> 's \<Rightarrow> bool \<times> 's"
  ls_append :: "time \<Rightarrow> string \<Rightarrow> json \<Rightarrow> 's \<Rightarrow> bool \<times> 's"
  ls_delete :: "string \<Rightarrow> 's \<Rightarrow> 's"

text \<open>In memory. The expired mark stays on the stored session.\<close>

definition evict_expired_sessions :: "time \<Rightarrow> (string, link_session) dict \<Rightarrow> (string, link_session) dict" where
  "evict_expired_sessions now s =
     (let expired = map fst (filter (\<lambda>(_, d). session_stale now d) s)
      in evict_by_age MAX_MEM_LINK_SESSIONS session_created (dict_del_all expired s))"

definition mem_create_session :: "time \<Rightarrow> string \<Rightarrow> link_session \<Rightarrow> (string, link_session) dict \<Rightarrow> (string, link_session) dict" where
  "mem_create_session now tok data s =
     (let data = stamp now data;
          data = (if map_of data ''subscribers'' = None then AList.update ''subscribers'' (JList []) data else data)
      in AList.update tok data (evict_expired_sessions now s))"

definition mem_get_session :: "time \<Rightarrow> string \<Rightarrow> (string, link_session) dict \<Rightarrow> link_session option \<times> (string, link_session) dict" where
  "mem_get_session now tok s =
     (case map_of s tok of
        None \<Rightarrow> (None, s)
      | Some d \<Rightarrow>
          if d = [] then (None, s)
          else if session_stale now d
            then (let d = AList.update ''status'' (JStr ''expired'') d in (Some d, AList.update tok d s))
            else (Some d, s))"

definition mem_change :: "(link_session \<Rightarrow> link_session) \<Rightarrow> string \<Rightarrow> (string, link_session) dict \<Rightarrow> bool \<times> (string, link_session) dict" where
  "mem_change f tok s =
     (case map_of s tok of
        None \<Rightarrow> (False, s)
      | Some d \<Rightarrow> if d = [] then (False, s) else (True, AList.update tok (f d) s))"

definition mem_update_session :: "time \<Rightarrow> string \<Rightarrow> link_session \<Rightarrow> (string, link_session) dict \<Rightarrow> bool \<times> (string, link_session) dict" where
  "mem_update_session now tok updates s = mem_change (\<lambda>d. dict_update d updates) tok s"

definition mem_append_event :: "time \<Rightarrow> string \<Rightarrow> json \<Rightarrow> (string, link_session) dict \<Rightarrow> bool \<times> (string, link_session) dict" where
  "mem_append_event now tok event s = mem_change (append_event event) tok s"

definition mem_sessions :: "(string, link_session) dict link_store" where
  "mem_sessions = \<lparr>ls_create = mem_create_session, ls_get = mem_get_session, ls_update = mem_update_session,
     ls_append = mem_append_event, ls_delete = AList.delete\<rparr>"

text \<open>In Redis. Every write keeps the remaining time to live, at least a minute.\<close>

definition session_key :: "string \<Rightarrow> string" where
  "session_key tok = ''plaidify:link_session:'' @ tok"

definition redis_create_session :: "('r, link_session) redis \<Rightarrow> time \<Rightarrow> string \<Rightarrow> link_session \<Rightarrow> 'r \<Rightarrow> 'r" where
  "redis_create_session rd now tok data r = r_set rd r now (session_key tok) (drop_subscribers (stamp now data)) LINK_SESSION_TTL"

definition redis_get_session :: "('r, link_session) redis \<Rightarrow> time \<Rightarrow> string \<Rightarrow> 'r \<Rightarrow> link_session option \<times> 'r" where
  "redis_get_session rd now tok r =
     (case r_get rd r now (session_key tok) of
        None \<Rightarrow> (None, r)
      | Some d \<Rightarrow> (Some (if session_stale now d then AList.update ''status'' (JStr ''expired'') d else d), r))"

definition redis_change :: "('r, link_session) redis \<Rightarrow> (link_session \<Rightarrow> link_session) \<Rightarrow> time \<Rightarrow> string \<Rightarrow> 'r \<Rightarrow> bool \<times> 'r" where
  "redis_change rd f now tok r =
     (case r_get rd r now (session_key tok) of
        None \<Rightarrow> (False, r)
      | Some d \<Rightarrow> (True, r_set rd r now (session_key tok) (f d) (max (r_ttl rd r now (session_key tok)) 60)))"

definition redis_update_session :: "('r, link_session) redis \<Rightarrow> time \<Rightarrow> string \<Rightarrow> link_session \<Rightarrow> 'r \<Rightarrow> bool \<times> 'r" where
  "redis_update_session rd now tok updates r = redis_change rd (\<lambda>d. dict_update d (drop_subscribers updates)) now tok r"

definition redis_append_event :: "('r, link_session) redis \<Rightarrow> time \<Rightarrow> string \<Rightarrow> json \<Rightarrow> 'r \<Rightarrow> bool \<times> 'r" where
  "redis_append_event rd now tok event r = redis_change rd (append_event event) now tok r"

definition redis_sessions :: "('r, link_session) redis \<Rightarrow> 'r link_store" where
  "redis_sessions rd = \<lparr>ls_create = redis_create_session rd, ls_get = redis_get_session rd, ls_update = redis_update_session rd,
     ls_append = redis_append_event rd, ls_delete = (\<lambda>tok r. r_delete rd r (session_key tok))\<rparr>"

section \<open>The contract of the two session back ends\<close>

text \<open>\<open>view s now tok\<close> is the stored session, without the mark of its expiry.\<close>

locale session_backend =
  fixes st :: "'s link_store" and view :: "'s \<Rightarrow> time \<Rightarrow> string \<Rightarrow> link_session option"
  assumes get_view: "view s now tok = Some d \<Longrightarrow> d \<noteq> [] \<Longrightarrow> \<not> session_stale now d \<Longrightarrow> ls_get st now tok s = (Some d, s)"
    and get_none: "view s now tok = None \<Longrightarrow> ls_get st now tok s = (None, s)"
    and update_view: "view s now tok = Some d \<Longrightarrow> d \<noteq> [] \<Longrightarrow> map_of updates ''subscribers'' = None \<Longrightarrow>
      fst (ls_update st now tok updates s) \<and> view (snd (ls_update st now tok updates s)) now tok = Some (dict_update d updates)"
    and append_view: "view s now tok = Some d \<Longrightarrow> d \<noteq> [] \<Longrightarrow>
      fst (ls_append st now tok event s) \<and> view (snd (ls_append st now tok event s)) now tok = Some (append_event event d)"
    and absent: "view s now tok = None \<Longrightarrow> ls_update st now tok updates s = (False, s) \<and> ls_append st now tok event s = (False, s)"
    and others: "tok' \<noteq> tok \<Longrightarrow> view (snd (ls_update st now tok updates s)) now' tok' = view s now' tok' \<and>
      view (snd (ls_append st now tok event s)) now' tok' = view s now' tok' \<and> view (ls_delete st tok s) now' tok' = view s now' tok'"
    and deleted: "view (ls_delete st tok s) now tok = None"
    and created: "0 \<le> now' - now \<Longrightarrow> now' - now < of_int LINK_SESSION_TTL \<Longrightarrow> map_of data ''created_at'' = None \<Longrightarrow>
      \<exists>d. view (ls_create st now tok data s) now' tok = Some d \<and>
        (\<forall>k. k \<noteq> ''subscribers'' \<longrightarrow> map_of d k = map_of (stamp now data) k)"
begin

text \<open>A created session is found, with its fields, until its time to live is over.\<close>

lemma create_get:
  assumes "0 \<le> now' - now" "now' - now < of_int LINK_SESSION_TTL" "map_of data ''created_at'' = None"
  shows "\<exists>d s'. ls_get st now' tok (ls_create st now tok data s) = (Some d, s') \<and>
    (\<forall>k. k \<noteq> ''subscribers'' \<longrightarrow> map_of d k = map_of (stamp now data) k)"
proof -
  obtain d where d: "view (ls_create st now tok data s) now' tok = Some d"
    "\<And>k. k \<noteq> ''subscribers'' \<Longrightarrow> map_of d k = map_of (stamp now data) k"
    using created [OF assms] by blast
  have c: "map_of d ''created_at'' = Some (JNum now)" using d(2) assms(3) by (simp add: stamp_def)
  then have "\<not> session_stale now' d" "d \<noteq> []"
    using assms by (auto simp: session_stale_def session_created_def)
  with get_view [OF d(1)] d(2) show ?thesis by blast
qed

lemma update_get:
  assumes "view s now tok = Some d" "d \<noteq> []" "map_of updates ''subscribers'' = None" "\<not> session_stale now (dict_update d updates)"
    and "dict_update d updates \<noteq> []"
  shows "fst (ls_get st now tok (snd (ls_update st now tok updates s))) = Some (dict_update d updates)"
  using update_view [OF assms(1-3)] get_view assms(4,5) by auto

end

lemma append_event_nonempty [simp]: "append_event e d \<noteq> []"
  by (cases d) (auto simp: append_event_def)

lemma alist_update_nonempty [simp]: "AList.update k v d \<noteq> []"
  by (cases d) auto

lemma dict_update_nonempty [simp]: "d \<noteq> [] \<Longrightarrow> dict_update d e \<noteq> []"
  by (induction d e rule: dict_update.induct) simp_all

definition present :: "link_session option \<Rightarrow> link_session option" where
  "present v = (case v of None \<Rightarrow> None | Some d \<Rightarrow> if d = [] then None else Some d)"

interpretation mem_backend: session_backend mem_sessions "\<lambda>s now tok. present (map_of s tok)"
  by unfold_locales
    (auto simp: present_def mem_sessions_def mem_get_session_def mem_update_session_def mem_append_event_def mem_change_def
      mem_create_session_def stamp_def Let_def split: option.splits if_splits)


lemma drop_subscribers_absent: "map_of d ''subscribers'' = None \<Longrightarrow> drop_subscribers d = d"
  unfolding drop_subscribers_def by (rule AList.delete_id) (simp add: map_of_eq_None_iff)

lemma session_key_inj [simp]: "session_key tok = session_key tok' \<longleftrightarrow> tok = tok'"
  by (simp add: session_key_def)

lemma max_60_pos: "0 < max (n :: int) 60"
  by (simp add: less_max_iff_disj)

lemma redis_session_backend:
  assumes "redis_ok rd view"
  shows "session_backend (redis_sessions rd) (\<lambda>r now tok. live (view r) now (session_key tok))"
  by unfold_locales
    (simp_all add: max_60_pos drop_subscribers_absent [unfolded drop_subscribers_def] redis_sessions_def redis_get_session_def redis_update_session_def redis_append_event_def redis_change_def
      redis_create_session_def redis_laws [OF assms] drop_subscribers_absent drop_subscribers_def split: option.splits)

interpretation redis_backend: session_backend "redis_sessions ks_redis" "\<lambda>r now tok. live r now (session_key tok)"
  using redis_session_backend [OF ks_redis_ok] .

text \<open>Between workers, on Redis: a session created with the fields \<open>data\<close> is found by every worker with these fields
  (its local subscribers apart) until ten minutes have passed, and an update by one worker is what the next reader sees.\<close>

lemma session_create_get:
  assumes "redis_ok rd view" "0 \<le> now' - now" "now' - now < of_int LINK_SESSION_TTL" "map_of data ''created_at'' = None"
  shows "\<exists>d s'. ls_get (redis_sessions rd) now' tok (ls_create (redis_sessions rd) now tok data s) = (Some d, s') \<and>
      (\<forall>k. k \<noteq> ''subscribers'' \<longrightarrow> map_of d k = map_of (stamp now data) k)"
    and "\<exists>d s'. ls_get mem_sessions now' tok (ls_create mem_sessions now tok data m) = (Some d, s') \<and>
      (\<forall>k. k \<noteq> ''subscribers'' \<longrightarrow> map_of d k = map_of (stamp now data) k)"
  using session_backend.create_get [OF redis_session_backend [OF assms(1)] assms(2-)] mem_backend.create_get [OF assms(2-)]
  by blast+

section \<open>The fallback of the redemption\<close>

text \<open>When \<^verbatim>\<open>EVAL\<close> fails, the redemption reads and then writes in two commands.\<close>

definition fallback_read :: "('r, string) redis \<Rightarrow> time \<Rightarrow> string \<Rightarrow> 'r \<Rightarrow> bool" where
  "fallback_read rd now launch_id r =
     (case r_get rd r now (bootstrap_key launch_id) of None \<Rightarrow> False | Some value \<Rightarrow> value \<noteq> '''' \<and> value \<noteq> ''consumed'')"

definition fallback_write :: "('r, string) redis \<Rightarrow> time \<Rightarrow> string \<Rightarrow> 'r \<Rightarrow> 'r" where
  "fallback_write rd now launch_id r =
     r_set rd r now (bootstrap_key launch_id) ''consumed'' (max (r_ttl rd r now (bootstrap_key launch_id)) 60)"

definition fallback_consume :: "('r, string) redis \<Rightarrow> time \<Rightarrow> string \<Rightarrow> 'r \<Rightarrow> bool \<times> 'r" where
  "fallback_consume rd now launch_id r =
     (if fallback_read rd now launch_id r then (True, fallback_write rd now launch_id r) else (False, r))"

text \<open>One worker at a time the fallback redeems once; two workers that both read before either writes both redeem.\<close>

lemma fallback_redeems_once:
  assumes "redis_ok rd view"
  shows "redeem_once (redis_issue rd) (fallback_consume rd) (redis_spent view) (\<lambda>_. True)"
  by unfold_locales
    (auto simp: fallback_consume_def fallback_read_def fallback_write_def redis_issue_def redis_spent_def live_def
      redis_laws [OF assms] split: option.splits if_splits)

interpretation fallback_bootstraps: redeem_once "redis_issue ks_redis" "fallback_consume ks_redis" "redis_spent (\<lambda>r. r)" "\<lambda>_. True"
  using fallback_redeems_once [OF ks_redis_ok] .

lemma fallback_redeems_twice:
  assumes "redis_ok rd view" "0 < expires" "now \<le> t1" "now \<le> t2" "t1 < now + of_int expires" "t2 < now + of_int expires"
  shows "let issued = redis_issue rd now k expires r
    in fallback_read rd t1 k issued \<and> fallback_read rd t2 k issued \<and>
       \<not> fallback_read rd t2 k (fallback_write rd t1 k issued)"
  using assms(2-) by (simp add: Let_def fallback_read_def fallback_write_def redis_issue_def redis_laws [OF assms(1)])

section \<open>Webhook delivery log\<close>

definition last_n :: "nat \<Rightarrow> 'a list \<Rightarrow> 'a list" where
  "last_n n xs = drop (length xs - n) xs"

definition evict_deliveries_if_full :: "(string, json list) dict \<Rightarrow> (string, json list) dict" where
  "evict_deliveries_if_full d = evict_oldest MAX_MEM_WEBHOOK_DELIVERIES d"

definition mem_add_delivery :: "string \<Rightarrow> json \<Rightarrow> (string, json list) dict \<Rightarrow> (string, json list) dict" where
  "mem_add_delivery webhook_id delivery d =
     (let d = evict_deliveries_if_full d;
          deliveries = (case map_of d webhook_id of None \<Rightarrow> [] | Some xs \<Rightarrow> xs) @ [delivery];
          deliveries = (if length deliveries > WEBHOOK_DELIVERY_MAX
                        then drop (length deliveries - WEBHOOK_DELIVERY_MAX) deliveries else deliveries)
      in AList.update webhook_id deliveries d)"

definition mem_get_deliveries :: "string \<Rightarrow> (string, json list) dict \<Rightarrow> json list" where
  "mem_get_deliveries webhook_id d = (case map_of d webhook_id of None \<Rightarrow> [] | Some xs \<Rightarrow> xs)"

definition mem_delete_deliveries :: "string \<Rightarrow> (string, json list) dict \<Rightarrow> (string, json list) dict" where
  "mem_delete_deliveries webhook_id d = AList.delete webhook_id d"

text \<open>\<^verbatim>\<open>RPUSH\<close>, \<^verbatim>\<open>LTRIM -200 -1\<close>, \<^verbatim>\<open>EXPIRE\<close>: the value of the key is the list.\<close>

definition delivery_key :: "string \<Rightarrow> string" where
  "delivery_key webhook_id = ''plaidify:webhook_delivery:'' @ webhook_id"

definition redis_get_deliveries :: "('r, json list) redis \<Rightarrow> time \<Rightarrow> string \<Rightarrow> 'r \<Rightarrow> json list" where
  "redis_get_deliveries rd now webhook_id r =
     (case r_get rd r now (delivery_key webhook_id) of None \<Rightarrow> [] | Some xs \<Rightarrow> xs)"

definition redis_add_delivery :: "('r, json list) redis \<Rightarrow> time \<Rightarrow> string \<Rightarrow> json \<Rightarrow> 'r \<Rightarrow> 'r" where
  "redis_add_delivery rd now webhook_id delivery r =
     r_set rd r now (delivery_key webhook_id)
       (last_n WEBHOOK_DELIVERY_MAX (redis_get_deliveries rd now webhook_id r @ [delivery])) WEBHOOK_DELIVERY_TTL"

definition redis_delete_deliveries :: "('r, json list) redis \<Rightarrow> string \<Rightarrow> 'r \<Rightarrow> 'r" where
  "redis_delete_deliveries rd webhook_id r = r_delete rd r (delivery_key webhook_id)"

lemma last_n_last_n_app: "last_n n (last_n n xs @ ys) = last_n n (xs @ ys)"
  by (cases "length xs \<le> n") (auto simp: last_n_def add.commute)

lemma length_last_n [simp]: "length (last_n n xs) = min (length xs) n"
  by (simp add: last_n_def)

text \<open>The Redis log after a run of additions, each within a day of the one before.\<close>

fun log_paced :: "time \<Rightarrow> (time \<times> json) list \<Rightarrow> bool" where
  "log_paced t [] = True"
| "log_paced t ((now, _) # xs) = (t \<le> now \<and> now < t + of_int WEBHOOK_DELIVERY_TTL \<and> log_paced now xs)"

fun redis_log :: "('r, json list) redis \<Rightarrow> string \<Rightarrow> (time \<times> json) list \<Rightarrow> 'r \<Rightarrow> 'r" where
  "redis_log rd w [] r = r"
| "redis_log rd w ((now, x) # xs) r = redis_log rd w xs (redis_add_delivery rd now w x r)"

fun mem_log :: "string \<Rightarrow> json list \<Rightarrow> (string, json list) dict \<Rightarrow> (string, json list) dict" where
  "mem_log w [] d = d"
| "mem_log w (x # xs) d = mem_log w xs (mem_add_delivery w x d)"

lemma mem_add_get:
  assumes "length d \<le> MAX_MEM_WEBHOOK_DELIVERIES"
  shows "mem_get_deliveries w (mem_add_delivery w x d) = last_n WEBHOOK_DELIVERY_MAX (mem_get_deliveries w d @ [x])"
  using assms by (simp add: mem_get_deliveries_def mem_add_delivery_def evict_deliveries_if_full_def evict_oldest_def Let_def last_n_def)

lemma mem_add_delivery_length:
  "length d \<le> MAX_MEM_WEBHOOK_DELIVERIES \<Longrightarrow> map_of d w \<noteq> None \<Longrightarrow> length (mem_add_delivery w x d) = length d"
  by (auto simp: mem_add_delivery_def evict_deliveries_if_full_def evict_oldest_def Let_def length_update map_of_eq_None_iff)

lemma mem_log_get:
  assumes "length d \<le> MAX_MEM_WEBHOOK_DELIVERIES" "map_of d w \<noteq> None" "mem_get_deliveries w d = last_n WEBHOOK_DELIVERY_MAX ys"
  shows "mem_get_deliveries w (mem_log w xs d) = last_n WEBHOOK_DELIVERY_MAX (ys @ xs)"
  using assms
proof (induction xs arbitrary: d ys)
  case (Cons x xs)
  have "map_of (mem_add_delivery w x d) w \<noteq> None" by (simp add: mem_add_delivery_def Let_def)
  moreover have "mem_get_deliveries w (mem_add_delivery w x d) = last_n WEBHOOK_DELIVERY_MAX (ys @ [x])"
    using Cons.prems by (simp add: mem_add_get last_n_last_n_app)
  ultimately show ?case
    using Cons.IH [of "mem_add_delivery w x d" "ys @ [x]"] Cons.prems by (simp add: mem_add_delivery_length)
qed simp

lemma redis_log_get:
  assumes "redis_ok rd view" "log_paced t xs" "xs = [] \<or> t' = fst (last xs)" "xs \<noteq> [] \<or> t' = t"
    and "\<And>now. t \<le> now \<Longrightarrow> now < t + of_int WEBHOOK_DELIVERY_TTL \<Longrightarrow> redis_get_deliveries rd now w r = last_n WEBHOOK_DELIVERY_MAX ys"
    and "t' \<le> now" "now < t' + of_int WEBHOOK_DELIVERY_TTL"
  shows "redis_get_deliveries rd now w (redis_log rd w xs r) = last_n WEBHOOK_DELIVERY_MAX (ys @ map snd xs)"
  using assms(2-)
proof (induction xs arbitrary: t r ys)
  case (Cons y xs)
  obtain n x where y: "y = (n, x)" by fastforce
  have "redis_get_deliveries rd m w (redis_add_delivery rd n w x r) = last_n WEBHOOK_DELIVERY_MAX (ys @ [x])"
    if "n \<le> m" "m < n + of_int WEBHOOK_DELIVERY_TTL" for m
    using that Cons.prems(1,4) unfolding y
    by (simp add: redis_add_delivery_def redis_get_deliveries_def [of rd m] redis_laws [OF assms(1)] last_n_last_n_app)
  then show ?case
    using Cons.IH [of n "redis_add_delivery rd n w x r" "ys @ [x]"] Cons.prems unfolding y by (auto split: if_splits)
qed simp

text \<open>The delivery log of a webhook holds its last 200 deliveries, oldest first, on either back end: in memory while at
  most 5000 webhooks are known, and in Redis while a day never passes without a delivery.\<close>

theorem delivery_log_keeps_last:
  assumes "length d < MAX_MEM_WEBHOOK_DELIVERIES" "map_of d w = None"
    and "redis_ok rd view" "view r (delivery_key w) = None" "log_paced t ((t, x) # xs)"
    and "fst (last ((t, x) # xs)) \<le> now" "now < fst (last ((t, x) # xs)) + of_int WEBHOOK_DELIVERY_TTL"
  shows "mem_get_deliveries w (mem_log w (map snd ((t, x) # xs)) d) = last_n WEBHOOK_DELIVERY_MAX (map snd ((t, x) # xs)) \<and>
    redis_get_deliveries rd now w (redis_log rd w ((t, x) # xs) r) = last_n WEBHOOK_DELIVERY_MAX (map snd ((t, x) # xs))"
proof
  let ?d = "mem_add_delivery w x d"
  have "mem_get_deliveries w ?d = last_n WEBHOOK_DELIVERY_MAX [x]" 
    using assms(1,2) by (subst mem_add_get) (simp_all add: mem_get_deliveries_def)
  moreover have "length ?d \<le> MAX_MEM_WEBHOOK_DELIVERIES" "map_of ?d w \<noteq> None"
    using assms(1,2) length_update_le [of w "[x]" d]
    by (simp_all add: mem_add_delivery_def evict_deliveries_if_full_def evict_oldest_def Let_def WEBHOOK_DELIVERY_MAX_def)
  ultimately show "mem_get_deliveries w (mem_log w (map snd ((t, x) # xs)) d) = last_n WEBHOOK_DELIVERY_MAX (map snd ((t, x) # xs))"
    using mem_log_get [of ?d w "[x]" "map snd xs"] by simp
  have "redis_get_deliveries rd n w r = last_n WEBHOOK_DELIVERY_MAX []" for n
    by (simp add: redis_get_deliveries_def redis_laws [OF assms(3)] live_def assms(4) last_n_def)
  from redis_log_get [OF assms(3,5) _ _ this assms(6,7)]
  show "redis_get_deliveries rd now w (redis_log rd w ((t, x) # xs) r) = last_n WEBHOOK_DELIVERY_MAX (map snd ((t, x) # xs))"
    by simp
qed

theorem delivery_log_keeps_last_witness:
  "mem_get_deliveries ''w'' (mem_log ''w'' (map snd [(1 :: time, JInt 1), (2, JInt 2)]) []) = last_n WEBHOOK_DELIVERY_MAX (map snd [(1 :: time, JInt 1), (2, JInt 2)]) \<and>
   redis_get_deliveries ks_redis 3 ''w'' (redis_log ks_redis ''w'' [(1, JInt 1), (2, JInt 2)] (\<lambda>_. None)) = last_n WEBHOOK_DELIVERY_MAX (map snd [(1 :: time, JInt 1), (2, JInt 2)])"
  by (rule delivery_log_keeps_last [OF _ _ ks_redis_ok]) (simp_all add: MAX_MEM_WEBHOOK_DELIVERIES_def WEBHOOK_DELIVERY_TTL_def)

end
