(* ===== verification/Webhooks.thy ===== *)
theory Webhooks imports Access_Control Session_Store begin

text \<open>
  \<^verbatim>\<open>src/routers/webhooks.py\<close>: registration, listing, deletion, test and history of webhooks, the delivery with
  signature and retries, and the payload fired for a link-session event.

  An HTTP request to a webhook is opaque: \<open>post i\<close> is how attempt \<open>i\<close> ended and when. HMAC and the compact
  \<^verbatim>\<open>json.dumps\<close> are arguments. The delivery log is either back end of \<^verbatim>\<open>Session_Store\<close>, given by its operations.
\<close>

section \<open>Secrets\<close>

definition encrypt_webhook_secret :: "ciphers \<Rightarrow> key_settings \<Rightarrow> string \<Rightarrow> string \<Rightarrow> string option" where
  "encrypt_webhook_secret c ks nonce secret = encrypt_credential c ks nonce secret"

text \<open>A secret that does not decrypt is taken to be plaintext.\<close>

definition decrypt_webhook_secret :: "ciphers \<Rightarrow> key_settings \<Rightarrow> string \<Rightarrow> string" where
  "decrypt_webhook_secret c ks stored_secret =
     (case decrypt_credential c ks stored_secret of Some s \<Rightarrow> s | None \<Rightarrow> stored_secret)"

section \<open>Delivery\<close>

datatype post_result = Response nat | PostError string

fun is_success :: "post_result \<Rightarrow> bool" where
  "is_success (Response code) = (200 \<le> code \<and> code \<le> 299)"
| "is_success (PostError _) = False"

definition delivery_record :: "nat \<Rightarrow> post_result \<times> time \<Rightarrow> json" where
  "delivery_record attempt r =
     (case r of
        (Response code, t) \<Rightarrow> JObj [(''attempt'', JInt (int attempt + 1)), (''status_code'', JInt (int code)), (''timestamp'', JNum t),
          (''success'', JBool (is_success (Response code)))]
      | (PostError e, t) \<Rightarrow> JObj [(''attempt'', JInt (int attempt + 1)), (''error'', JStr e), (''timestamp'', JNum t), (''success'', JBool False)])"

record webhook_request =
  wr_url :: string
  wr_headers :: "(string \<times> string) list"
  wr_body :: string

text \<open>The attempts from number \<open>attempt\<close> on, \<open>left\<close> of them: the result, the deliveries recorded, and the pauses in seconds.\<close>

fun delivery_loop :: "(nat \<Rightarrow> post_result \<times> time) \<Rightarrow> nat \<Rightarrow> nat \<Rightarrow> bool \<times> json list \<times> nat list" where
  "delivery_loop post attempt 0 = (False, [], [])"
| "delivery_loop post attempt (Suc left) =
     (let delivery = delivery_record attempt (post attempt)
      in if is_success (fst (post attempt)) then (True, [delivery], [])
         else (let (ok, ds, pauses) = delivery_loop post (attempt + 1) left
               in (ok, delivery # ds, (if left = 0 then [] else [2 ^ attempt]) @ pauses)))"

definition webhook_request_of :: "(string \<Rightarrow> string \<Rightarrow> string) \<Rightarrow> (json \<Rightarrow> string) \<Rightarrow> string \<Rightarrow> string \<Rightarrow> (string, json) dict \<Rightarrow> webhook_request" where
  "webhook_request_of hmac dumps url secret payload =
     (let payload_bytes = dumps (JObj payload)
      in \<lparr>wr_url = url,
          wr_headers = [(''Content-Type'', ''application/json''), (''X-Plaidify-Signature'', ''sha256='' @ hmac secret payload_bytes),
            (''X-Plaidify-Event'', (case jget_default payload ''event'' (JStr ''UNKNOWN'') of JStr e \<Rightarrow> e | _ \<Rightarrow> '''')),
            (''User-Agent'', ''Plaidify-Webhook/1.0'')],
          wr_body = payload_bytes\<rparr>)"

definition deliver_webhook ::
  "(string \<Rightarrow> string \<Rightarrow> string) \<Rightarrow> (json \<Rightarrow> string) \<Rightarrow> (string \<Rightarrow> json \<Rightarrow> 'd \<Rightarrow> 'd) \<Rightarrow> (nat \<Rightarrow> post_result \<times> time) \<Rightarrow> nat \<Rightarrow>
   string \<Rightarrow> string \<Rightarrow> string \<Rightarrow> (string, json) dict \<Rightarrow> 'd \<Rightarrow> (bool \<times> webhook_request list) \<times> 'd" where
  "deliver_webhook hmac dumps add post retries webhook_id url secret payload dlog =
     (let (ok, ds, pauses) = delivery_loop post 0 retries
      in ((ok, replicate (length ds) (webhook_request_of hmac dumps url secret payload)), fold (add webhook_id) ds dlog))"

section \<open>Registration\<close>

text \<open>\<open>url.startswith\<close> on a value that is no text raises.\<close>

definition register_webhook ::
  "ciphers \<Rightarrow> key_settings \<Rightarrow> 's link_store \<Rightarrow> api_env \<Rightarrow> string \<Rightarrow> string \<Rightarrow> int \<Rightarrow> (string, json) dict \<Rightarrow> 's \<Rightarrow> app_db \<Rightarrow>
   ((http_error + (string, json) dict) \<times> 's) \<times> app_db" where
  "register_webhook c ks st env webhook_id nonce uid body s db =
     (let link_token = jget body ''link_token''; url = jget body ''url''; secret = jget body ''secret''
      in if \<not> truthy link_token \<or> \<not> truthy url \<or> \<not> truthy secret
         then ((Inl (HTTPException 422 ''link_token, url, and secret are required.''), s), db)
         else case (link_token, url, secret) of
           (JStr tok, JStr u, JStr sec) \<Rightarrow>
             if \<not> starts_with ''https://'' u \<and> \<not> starts_with ''http://localhost'' u
             then ((Inl (HTTPException 422 ''Webhook URL must use HTTPS (http://localhost allowed for development).''), s), db)
             else (case ls_get st (en_now env) tok s of
                     (None, s') \<Rightarrow> ((Inl (HTTPException 404 ''Link session not found.''), s'), db)
                   | (Some session, s') \<Rightarrow>
                       if session = [] then ((Inl (HTTPException 404 ''Link session not found.''), s'), db)
                       else case encrypt_webhook_secret c ks nonce sec of
                         None \<Rightarrow> ((Inl server_error, s'), db)
                       | Some enc \<Rightarrow>
                           ((Inr [(''webhook_id'', JStr webhook_id), (''status'', JStr ''registered'')], s'),
                            db\<lparr>db_webhooks := db_webhooks db @ [\<lparr>wh_id = webhook_id, wh_link_token = tok, wh_url = u, wh_secret = enc,
                              wh_user_id = uid, wh_created_at = en_now env\<rparr>]\<rparr>))
         | _ \<Rightarrow> ((Inl server_error, s), db))"

definition list_webhooks :: "api_env \<Rightarrow> int \<Rightarrow> app_db \<Rightarrow> (string, json) dict" where
  "list_webhooks env uid db =
     (let webhooks = filter (\<lambda>w. wh_user_id w = uid) (db_webhooks db)
      in [(''webhooks'', JList (map (\<lambda>w. JObj [(''webhook_id'', JStr (wh_id w)), (''link_token'', JStr (wh_link_token w)), (''url'', JStr (wh_url w)),
            (''created_at'', JStr (en_isoformat env (wh_created_at w)))]) webhooks)),
          (''count'', JInt (int (length webhooks)))])"

definition owned_webhook :: "string \<Rightarrow> int \<Rightarrow> app_db \<Rightarrow> webhook_row option" where
  "owned_webhook webhook_id uid db = find (\<lambda>w. wh_id w = webhook_id \<and> wh_user_id w = uid) (db_webhooks db)"

definition delete_webhook :: "(string \<Rightarrow> 'd \<Rightarrow> 'd) \<Rightarrow> string \<Rightarrow> int \<Rightarrow> 'd \<Rightarrow> app_db \<Rightarrow> ((http_error + (string, json) dict) \<times> 'd) \<times> app_db" where
  "delete_webhook drop_log webhook_id uid dlog db =
     (case owned_webhook webhook_id uid db of
        None \<Rightarrow> ((Inl (HTTPException 404 ''Webhook not found.''), dlog), db)
      | Some w \<Rightarrow>
          ((Inr [(''status'', JStr ''deleted'')], drop_log webhook_id dlog),
           db\<lparr>db_webhooks := delete_where (\<lambda>w. wh_id w = webhook_id) (db_webhooks db)\<rparr>))"

definition test_webhook ::
  "ciphers \<Rightarrow> key_settings \<Rightarrow> (string \<Rightarrow> string \<Rightarrow> string) \<Rightarrow> (json \<Rightarrow> string) \<Rightarrow> (string \<Rightarrow> json \<Rightarrow> 'd \<Rightarrow> 'd) \<Rightarrow> (nat \<Rightarrow> post_result \<times> time) \<Rightarrow>
   api_env \<Rightarrow> int \<Rightarrow> (string, json) dict \<Rightarrow> 'd \<Rightarrow> app_db \<Rightarrow> (http_error + (string, json) dict) \<times> webhook_request list \<times> 'd" where
  "test_webhook c ks hmac dumps add post env uid body dlog db =
     (case jget body ''webhook_id'' of
        JStr webhook_id \<Rightarrow>
          (case (if webhook_id = '''' then None else owned_webhook webhook_id uid db) of
             None \<Rightarrow> (Inl (HTTPException 404 ''Webhook not found.''), [], dlog)
           | Some w \<Rightarrow>
               let payload = [(''event'', JStr ''TEST''), (''link_token'', JStr (wh_link_token w)), (''timestamp'', JStr (en_isoformat env (en_now env))),
                     (''data'', JObj [(''message'', JStr ''This is a test webhook event.'')])];
                   ((success, requests), dlog) = deliver_webhook hmac dumps add post 3 (wh_id w) (wh_url w) (decrypt_webhook_secret c ks (wh_secret w)) payload dlog
               in (Inr [(''status'', JStr (if success then ''delivered'' else ''failed''))], requests, dlog))
      | _ \<Rightarrow> (Inl (HTTPException 404 ''Webhook not found.''), [], dlog))"

definition webhook_deliveries :: "(string \<Rightarrow> 'd \<Rightarrow> json list) \<Rightarrow> string \<Rightarrow> int \<Rightarrow> 'd \<Rightarrow> app_db \<Rightarrow> http_error + (string, json) dict" where
  "webhook_deliveries get webhook_id uid dlog db =
     (case owned_webhook webhook_id uid db of
        None \<Rightarrow> Inl (HTTPException 404 ''Webhook not found.'')
      | Some w \<Rightarrow>
          let deliveries = get webhook_id dlog
          in Inr [(''webhook_id'', JStr webhook_id), (''url'', JStr (wh_url w)), (''deliveries'', JList (last_n 50 deliveries)),
               (''total'', JInt (int (length deliveries)))])"

section \<open>Firing\<close>

text \<open>The delivery tasks started for an event: one per webhook of the link token, with the payload.\<close>

record webhook_task =
  wt_webhook_id :: string
  wt_url :: string
  wt_secret :: string
  wt_payload :: "(string, json) dict"

definition fire_payload :: "api_env \<Rightarrow> string \<Rightarrow> string \<Rightarrow> (string, json) dict option \<Rightarrow> link_session option \<Rightarrow> (string, json) dict" where
  "fire_payload env link_token event data session =
     [(''event'', JStr event), (''link_token'', JStr link_token), (''timestamp'', JStr (en_isoformat env (en_now env))),
      (''data'', JObj (case data of None \<Rightarrow> [] | Some d \<Rightarrow> d))] @
     (case session of
        None \<Rightarrow> []
      | Some d \<Rightarrow> if event = ''LINK_COMPLETE'' \<and> truthy (jget d ''public_token'') then [(''public_token'', jget d ''public_token'')] else [])"

definition fire_webhooks_for_session ::
  "ciphers \<Rightarrow> key_settings \<Rightarrow> 's link_store \<Rightarrow> api_env \<Rightarrow> string \<Rightarrow> string \<Rightarrow> (string, json) dict option \<Rightarrow> 's \<Rightarrow> app_db \<Rightarrow> webhook_task list \<times> 's" where
  "fire_webhooks_for_session c ks st env link_token event data s db =
     (let (session, s') = ls_get st (en_now env) link_token s;
          payload = fire_payload env link_token event data session
      in (map (\<lambda>w. \<lparr>wt_webhook_id = wh_id w, wt_url = wh_url w, wt_secret = decrypt_webhook_secret c ks (wh_secret w), wt_payload = payload\<rparr>)
            (filter (\<lambda>w. wh_link_token w = link_token) (db_webhooks db)), s'))"

section \<open>Deliveries are bounded, signed and recorded\<close>

lemma delivery_loop_spec:
  assumes "delivery_loop post attempt left = (ok, ds, pauses)"
  shows "ds = map (\<lambda>i. delivery_record i (post i)) [attempt..<attempt + length ds] \<and> length ds \<le> left \<and>
    (ok \<longleftrightarrow> (\<exists>i. attempt \<le> i \<and> i < attempt + left \<and> is_success (fst (post i)))) \<and>
    (ok \<longrightarrow> ds \<noteq> [] \<and> is_success (fst (post (attempt + length ds - 1))) \<and> (\<forall>i. attempt \<le> i \<and> i < attempt + length ds - 1 \<longrightarrow> \<not> is_success (fst (post i)))) \<and>
    (\<not> ok \<longrightarrow> length ds = left) \<and> sum_list pauses + 2 ^ attempt \<le> 2 ^ (attempt + (left - 1))"
  using assms
proof (induction post attempt left arbitrary: ok ds pauses rule: delivery_loop.induct)
  case (2 post attempt left)
  show ?case
  proof (cases "is_success (fst (post attempt))")
    case True
    with "2.prems" show ?thesis by (auto intro: exI [of _ attempt])
  next
    case False
    obtain ok' ds' ps' where r: "delivery_loop post (attempt + 1) left = (ok', ds', ps')" by (cases "delivery_loop post (attempt + 1) left") auto
    have e: "ok = ok'" "ds = delivery_record attempt (post attempt) # ds'" "pauses = (if left = 0 then [] else [2 ^ attempt]) @ ps'"
      using "2.prems" False r by (auto simp: Let_def)
    note ih = "2.IH" [OF refl False r]
    have "[attempt..<attempt + length ds] = attempt # [attempt + 1..<attempt + 1 + length ds']"
      using e(2) by (simp add: upt_conv_Cons del: upt_Suc)
    moreover have "ds' = map (\<lambda>i. delivery_record i (post i)) [attempt + 1..<attempt + 1 + length ds']" using ih by blast
    ultimately have ds: "ds = map (\<lambda>i. delivery_record i (post i)) [attempt..<attempt + length ds]"
      using e(2) by (simp del: upt_Suc)
    have ok: "ok \<longleftrightarrow> (\<exists>i. attempt \<le> i \<and> i < attempt + Suc left \<and> is_success (fst (post i)))"
    proof -
      have "(\<exists>i. attempt \<le> i \<and> i < attempt + Suc left \<and> is_success (fst (post i))) \<longleftrightarrow>
        (\<exists>i. attempt + 1 \<le> i \<and> i < attempt + 1 + left \<and> is_success (fst (post i)))"
        using False by (metis Suc_eq_plus1 Suc_leI add_Suc_right add_Suc_shift le_neq_implies_less less_or_eq_imp_le Suc_leD)
      with ih e(1) show ?thesis by blast
    qed
    from ih have l: "length ds' \<le> left" "\<not> ok' \<longrightarrow> length ds' = left" "sum_list ps' + 2 ^ (attempt + 1) \<le> 2 ^ (attempt + 1 + (left - 1))"
      "ok' \<longrightarrow> ds' \<noteq> [] \<and> is_success (fst (post (attempt + 1 + length ds' - 1))) \<and>
        (\<forall>i. attempt + 1 \<le> i \<and> i < attempt + 1 + length ds' - 1 \<longrightarrow> \<not> is_success (fst (post i)))" by blast+
    have d: "attempt \<le> i \<longleftrightarrow> i = attempt \<or> Suc attempt \<le> i" for i by auto
    have last: "ok \<longrightarrow> ds \<noteq> [] \<and> is_success (fst (post (attempt + length ds - 1))) \<and>
        (\<forall>i. attempt \<le> i \<and> i < attempt + length ds - 1 \<longrightarrow> \<not> is_success (fst (post i)))"
      using l(4) e False by (auto simp: d)
    have pauses: "sum_list pauses + 2 ^ attempt \<le> 2 ^ (attempt + (Suc left - 1))"
    proof (cases left)
      case (Suc n)
      with l(3) e(3) show ?thesis by simp
    qed (use r e(3) in simp)
    have "length ds \<le> Suc left" "\<not> ok \<longrightarrow> length ds = Suc left" using l e by auto
    with ds ok last pauses show ?thesis by blast
  qed
qed simp

lemma fold_add_mem_log: "fold (mem_add_delivery w) ds d = mem_log w ds d"
  by (induction ds arbitrary: d) auto

text \<open>A delivery posts at most \<open>retries\<close> times, stopping at the first response in the 200s and succeeding exactly when there is one;
  every request carries the HMAC of its own body under the webhook's secret; every attempt is recorded, in order; and the pauses add up to
  less than \<open>2 ^ (retries - 1)\<close> seconds.\<close>

theorem delivery_bounded_and_signed:
  assumes "deliver_webhook hmac dumps mem_add_delivery post retries webhook_id url secret payload dlog = ((ok, requests), dlog')"
    and "delivery_loop post 0 retries = (ok', ds, pauses)"
  shows "length requests \<le> retries \<and> (ok \<longleftrightarrow> (\<exists>i < retries. is_success (fst (post i)))) \<and>
    (ok \<longrightarrow> is_success (fst (post (length requests - 1))) \<and> (\<forall>i < length requests - 1. \<not> is_success (fst (post i)))) \<and>
    (\<forall>r \<in> set requests. wr_url r = url \<and> map_of (wr_headers r) ''X-Plaidify-Signature'' = Some (''sha256='' @ hmac secret (wr_body r))) \<and>
    dlog' = mem_log webhook_id (map (\<lambda>i. delivery_record i (post i)) [0..<length requests]) dlog \<and>
    sum_list pauses < 2 ^ (retries - 1)"
proof -
  note spec = delivery_loop_spec [OF assms(2)]
  have eqs: "ok = ok'" "requests = replicate (length ds) (webhook_request_of hmac dumps url secret payload)" "dlog' = mem_log webhook_id ds dlog"
    using assms by (simp_all add: deliver_webhook_def fold_add_mem_log)
  have "\<forall>r \<in> set requests. wr_url r = url \<and> map_of (wr_headers r) ''X-Plaidify-Signature'' = Some (''sha256='' @ hmac secret (wr_body r))"
    by (auto simp: eqs webhook_request_of_def Let_def)
  moreover have n: "length requests = length ds" by (simp add: eqs)
  moreover have "dlog' = mem_log webhook_id (map (\<lambda>i. delivery_record i (post i)) [0..<length requests]) dlog"
  proof -
    have "ds = map (\<lambda>i. delivery_record i (post i)) [0..<0 + length ds]" using spec by blast
    then show ?thesis using eqs(3) n by (metis add_0)
  qed
  moreover from spec have "ok' \<longleftrightarrow> (\<exists>i. 0 \<le> i \<and> i < 0 + retries \<and> is_success (fst (post i)))" "length ds \<le> retries"
    "ok' \<longrightarrow> ds \<noteq> [] \<and> is_success (fst (post (0 + length ds - 1))) \<and> (\<forall>i. 0 \<le> i \<and> i < 0 + length ds - 1 \<longrightarrow> \<not> is_success (fst (post i)))"
    "sum_list pauses + 2 ^ 0 \<le> 2 ^ (0 + (retries - 1))"
    by blast+
  ultimately show ?thesis unfolding eqs(1) n by simp
qed

definition sample_post :: "nat \<Rightarrow> post_result \<times> time" where
  "sample_post i = (if i = 0 then (PostError ''timeout'', 1) else (Response 204, 2))"

theorem delivery_bounded_and_signed_witness:
  "let ((ok, requests), dlog') = deliver_webhook (\<lambda>s b. s @ b) (\<lambda>_. ''{}'') mem_add_delivery sample_post 3 ''w'' ''https://x'' ''s'' [(''event'', JStr ''E'')] []
   in ok \<and> length requests = 2 \<and> dlog' = mem_log ''w'' (map (\<lambda>i. delivery_record i (sample_post i)) [0..<length requests]) []"
proof -
  let ?run = "deliver_webhook (\<lambda>s b. s @ b) (\<lambda>_. ''{}'') mem_add_delivery sample_post 3 ''w'' ''https://x'' ''s'' [(''event'', JStr ''E'')] []"
  have loop: "delivery_loop sample_post 0 3 = (True, [delivery_record 0 (sample_post 0), delivery_record 1 (sample_post 1)], [1])"
    by (simp add: numeral_3_eq_3 Let_def sample_post_def)
  have run: "?run = ((fst (fst ?run), snd (fst ?run)), snd ?run)" by simp
  have n: "fst (fst ?run) \<and> length (snd (fst ?run)) = 2" by (simp add: deliver_webhook_def loop Let_def)
  from delivery_bounded_and_signed [OF run loop]
  have "snd ?run = mem_log ''w'' (map (\<lambda>i. delivery_record i (sample_post i)) [0..<length (snd (fst ?run))]) []" by blast
  with n show ?thesis unfolding Let_def case_prod_beta by blast
qed

text \<open>Registration does not look at who owns the session: the webhook of any user who knows a link token receives the events of that
  session, its public token included.\<close>

theorem stranger_webhook_receives_events:
  assumes "register_webhook c ks st env webhook_id nonce stranger body s db = ((Inr response, s1), db1)"
    and "jget body ''link_token'' = JStr tok" "jget body ''url'' = JStr url"
    and "ls_get st (en_now env) tok s2 = (Some session, s3)" "truthy (jget session ''public_token'')"
  shows "\<exists>task \<in> set (fst (fire_webhooks_for_session c ks st env tok ''LINK_COMPLETE'' data s2 db1)).
    wt_webhook_id task = webhook_id \<and> wt_url task = url \<and> map_of (wt_payload task) ''public_token'' = Some (jget session ''public_token'')"
proof -
  obtain enc where "db1 = db\<lparr>db_webhooks := db_webhooks db @ [\<lparr>wh_id = webhook_id, wh_link_token = tok, wh_url = url, wh_secret = enc,
      wh_user_id = stranger, wh_created_at = en_now env\<rparr>]\<rparr>"
    using assms(1-3) by (auto simp: register_webhook_def Let_def split: if_splits json.splits option.splits prod.splits)
  then show ?thesis
    using assms(4,5) by (auto simp: fire_webhooks_for_session_def fire_payload_def Let_def)
qed


definition sample_session :: link_session where
  "sample_session = [(''status'', JStr ''completed''), (''created_at'', JNum 0), (''public_token'', JStr ''public-1'')]"

definition stranger_body :: "(string, json) dict" where
  "stranger_body = [(''link_token'', JStr ''tok''), (''url'', JStr ''https://evil''), (''secret'', JStr ''s'')]"

theorem stranger_webhook_receives_events_witness:
  "\<exists>task \<in> set (fst (fire_webhooks_for_session sample_ciphers sample_ks mem_sessions sample_api_env ''tok'' ''LINK_COMPLETE'' None [(''tok'', sample_session)]
      (snd (register_webhook sample_ciphers sample_ks mem_sessions sample_api_env ''w'' sample_nonce 2 stranger_body [(''tok'', sample_session)] sample_db)))).
    wt_webhook_id task = ''w'' \<and> wt_url task = ''https://evil'' \<and> map_of (wt_payload task) ''public_token'' = Some (jget sample_session ''public_token'')"
proof -
  have get: "ls_get mem_sessions (en_now sample_api_env) ''tok'' [(''tok'', sample_session)] = (Some sample_session, [(''tok'', sample_session)])"
    by (simp add: mem_sessions_def mem_get_session_def sample_session_def session_stale_def session_created_def sample_api_env_def LINK_SESSION_TTL_def)
  have run: "\<exists>response. register_webhook sample_ciphers sample_ks mem_sessions sample_api_env ''w'' sample_nonce 2 stranger_body [(''tok'', sample_session)] sample_db =
      ((Inr response, [(''tok'', sample_session)]),
       snd (register_webhook sample_ciphers sample_ks mem_sessions sample_api_env ''w'' sample_nonce 2 stranger_body [(''tok'', sample_session)] sample_db))"
    using get by (simp add: register_webhook_def stranger_body_def jget_def encrypt_webhook_secret_def encrypt_credential_def sample_session_def Let_def)
  then obtain response where r: "register_webhook sample_ciphers sample_ks mem_sessions sample_api_env ''w'' sample_nonce 2 stranger_body [(''tok'', sample_session)] sample_db =
      ((Inr response, [(''tok'', sample_session)]),
       snd (register_webhook sample_ciphers sample_ks mem_sessions sample_api_env ''w'' sample_nonce 2 stranger_body [(''tok'', sample_session)] sample_db))" by blast
  show ?thesis
    by (rule stranger_webhook_receives_events [OF r _ _ get]) (simp_all add: stranger_body_def jget_def sample_session_def)
qed

end
