(* ===== verification/Refresh_Scheduler.thy ===== *)
theory Refresh_Scheduler imports Webhooks begin

text \<open>
  \<^verbatim>\<open>src/scheduled_refresh.py\<close> and \<^verbatim>\<open>src/routers/refresh.py\<close>: the registry of refresh jobs, the loop that
  refreshes the due ones with backoff, its copy in the database, and the endpoints.

  A time read from the database is naive, one made by the program is aware (\<open>clock\<close>): subtracting one from the other
  raises. What a refresh answers is an argument, a text for the exception. A commit that fails is logged and
  ignored (\<open>commit_ok\<close>); \<open>fk\<close> is whether the database enforces foreign keys. The module's logging is left out.
\<close>

section \<open>Schedules\<close>

definition SCHEDULE_FORMATS :: "string list" where
  "SCHEDULE_FORMATS = [''interval'', ''hourly'', ''daily'', ''weekly'']"

definition PRESET_INTERVAL_SECONDS :: "(string, int) dict" where
  "PRESET_INTERVAL_SECONDS = [(''hourly'', 3600), (''daily'', 86400), (''weekly'', 604800)]"

definition MIN_INTERVAL_SECONDS :: int where "MIN_INTERVAL_SECONDS = 300"

text \<open>\<open>ValueErr\<close>: a \<^verbatim>\<open>ValueError\<close> with its text. \<open>OtherErr\<close>: an \<^verbatim>\<open>AttributeError\<close> or \<^verbatim>\<open>TypeError\<close>.\<close>

datatype sched_error = ValueErr string | OtherErr

fun sched_int :: "(json \<Rightarrow> string) \<Rightarrow> json \<Rightarrow> sched_error + int" where
  "sched_int rep (JStr s) = (case py_int s of Some i \<Rightarrow> Inr i | None \<Rightarrow> Inl (ValueErr (''invalid literal for int() with base 10: '' @ rep (JStr s))))"
| "sched_int rep v = (case json_int v of Some i \<Rightarrow> Inr i | None \<Rightarrow> Inl OtherErr)"

definition resolve_schedule :: "(json \<Rightarrow> string) \<Rightarrow> json \<Rightarrow> json \<Rightarrow> sched_error + string \<times> int" where
  "resolve_schedule rep schedule_format interval_seconds =
     (case (if truthy schedule_format then schedule_format else JStr ''interval'') of
        JStr given \<Rightarrow>
          let fmt = py_lower given
          in if fmt \<notin> set SCHEDULE_FORMATS
             then Inl (ValueErr (''Unknown schedule format '' @ CHR 0x27 # given @ CHR 0x27 # ''. Supported: interval, hourly, daily, weekly.''))
             else (case map_of PRESET_INTERVAL_SECONDS fmt of
                     Some seconds \<Rightarrow> Inr (fmt, seconds)
                   | None \<Rightarrow>
                       if interval_seconds = JNull
                       then Inl (ValueErr (''interval_seconds is required when schedule_format is '' @ CHR 0x27 # ''interval'' @ CHR 0x27 # ''.''))
                       else (case sched_int rep interval_seconds of Inl e \<Rightarrow> Inl e | Inr i \<Rightarrow> Inr (''interval'', i)))
      | _ \<Rightarrow> Inl OtherErr)"

datatype clock = Aware time | Naive time

fun clock_time :: "clock \<Rightarrow> time" where
  "clock_time (Aware t) = t"
| "clock_time (Naive t) = t"

record refresh_job =
  rj_access_token :: string
  rj_user_id :: int
  rj_interval_seconds :: int
  rj_schedule_format :: string
  rj_last_refreshed :: "clock option"
  rj_last_error :: "string option"
  rj_consecutive_failures :: nat
  rj_enabled :: bool

record scheduler =
  rs_jobs :: "(string, refresh_job) dict"
  rs_running :: bool
  rs_default_interval :: int
  rs_max_backoff :: int

definition MAX_CONSECUTIVE_FAILURES :: nat where "MAX_CONSECUTIVE_FAILURES = 10"

text \<open>The scheduler the router makes.\<close>

definition new_scheduler :: scheduler where
  "new_scheduler = \<lparr>rs_jobs = [], rs_running = False, rs_default_interval = 3600, rs_max_backoff = 86400\<rparr>"

section \<open>The copy in the database\<close>

definition job_row :: "refresh_job \<Rightarrow> refresh_job_row" where
  "job_row j = \<lparr>sr_access_token = rj_access_token j, sr_user_id = rj_user_id j, sr_interval_seconds = rj_interval_seconds j,
     sr_schedule_format = rj_schedule_format j, sr_enabled = rj_enabled j, sr_last_refreshed = map_option clock_time (rj_last_refreshed j),
     sr_last_error = rj_last_error j, sr_consecutive_failures = rj_consecutive_failures j\<rparr>"

definition find_job_row :: "app_db \<Rightarrow> string \<Rightarrow> refresh_job_row option" where
  "find_job_row db tok = find (\<lambda>r. sr_access_token r = tok) (db_refresh_jobs db)"

definition persist_refresh_job :: "bool \<Rightarrow> bool \<Rightarrow> refresh_job \<Rightarrow> app_db \<Rightarrow> app_db" where
  "persist_refresh_job fk commit_ok j db =
     (if \<not> commit_ok then db
      else if find_job_row db (rj_access_token j) \<noteq> None
        then db\<lparr>db_refresh_jobs := update_where (\<lambda>r. sr_access_token r = rj_access_token j)
               (\<lambda>r. (job_row j)\<lparr>sr_user_id := sr_user_id r\<rparr>) (db_refresh_jobs db)\<rparr>
      else if fk \<and> (rj_access_token j \<notin> set (token_ids db) \<or> rj_user_id j \<notin> set (user_ids db)) then db
      else db\<lparr>db_refresh_jobs := db_refresh_jobs db @ [job_row j]\<rparr>)"

definition delete_persisted_job :: "bool \<Rightarrow> string \<Rightarrow> app_db \<Rightarrow> app_db" where
  "delete_persisted_job commit_ok tok db =
     (if commit_ok then db\<lparr>db_refresh_jobs := delete_where (\<lambda>r. sr_access_token r = tok) (db_refresh_jobs db)\<rparr> else db)"

definition loaded_job :: "refresh_job_row \<Rightarrow> refresh_job" where
  "loaded_job r = \<lparr>rj_access_token = sr_access_token r, rj_user_id = sr_user_id r, rj_interval_seconds = sr_interval_seconds r,
     rj_schedule_format = (if sr_schedule_format r = '''' then ''interval'' else sr_schedule_format r),
     rj_last_refreshed = map_option Naive (sr_last_refreshed r), rj_last_error = sr_last_error r,
     rj_consecutive_failures = sr_consecutive_failures r, rj_enabled = sr_enabled r\<rparr>"

definition load_from_db :: "app_db \<Rightarrow> scheduler \<Rightarrow> nat \<times> scheduler" where
  "load_from_db db s =
     (let rows = filter sr_enabled (db_refresh_jobs db)
      in (length rows, s\<lparr>rs_jobs := fold (\<lambda>r. AList.update (sr_access_token r) (loaded_job r)) rows (rs_jobs s)\<rparr>))"

section \<open>The registry\<close>

definition schedule_job ::
  "(json \<Rightarrow> string) \<Rightarrow> bool \<Rightarrow> bool \<Rightarrow> string \<Rightarrow> int \<Rightarrow> json \<Rightarrow> json \<Rightarrow> scheduler \<Rightarrow> app_db \<Rightarrow> (sched_error + refresh_job) \<times> scheduler \<times> app_db" where
  "schedule_job rep fk commit_ok tok uid interval_seconds schedule_format s db =
     (case resolve_schedule rep schedule_format (if truthy interval_seconds then interval_seconds else JInt (rs_default_interval s)) of
        Inl e \<Rightarrow> (Inl e, s, db)
      | Inr (fmt, resolved_interval) \<Rightarrow>
          let job = (case map_of (rs_jobs s) tok of
                       Some j \<Rightarrow> j\<lparr>rj_interval_seconds := resolved_interval, rj_schedule_format := fmt, rj_enabled := True, rj_consecutive_failures := 0\<rparr>
                     | None \<Rightarrow> \<lparr>rj_access_token = tok, rj_user_id = uid, rj_interval_seconds = resolved_interval, rj_schedule_format = fmt,
                         rj_last_refreshed = None, rj_last_error = None, rj_consecutive_failures = 0, rj_enabled = True\<rparr>)
          in (Inr job, s\<lparr>rs_jobs := AList.update tok job (rs_jobs s)\<rparr>, persist_refresh_job fk commit_ok job db))"

definition update_job ::
  "(json \<Rightarrow> string) \<Rightarrow> bool \<Rightarrow> bool \<Rightarrow> string \<Rightarrow> json \<Rightarrow> json \<Rightarrow> json \<Rightarrow> scheduler \<Rightarrow> app_db \<Rightarrow> (sched_error + refresh_job option) \<times> scheduler \<times> app_db" where
  "update_job rep fk commit_ok tok interval_seconds schedule_format enabled s db =
     (case map_of (rs_jobs s) tok of
        None \<Rightarrow> (Inr None, s, db)
      | Some j \<Rightarrow>
          (case (if schedule_format \<noteq> JNull \<or> interval_seconds \<noteq> JNull
                 then resolve_schedule rep (if truthy schedule_format then schedule_format else JStr (rj_schedule_format j))
                        (if truthy interval_seconds then interval_seconds else JInt (rj_interval_seconds j))
                 else Inr (rj_schedule_format j, rj_interval_seconds j)) of
             Inl e \<Rightarrow> (Inl e, s, db)
           | Inr (fmt, resolved_interval) \<Rightarrow>
               let j = j\<lparr>rj_schedule_format := fmt, rj_interval_seconds := resolved_interval\<rparr>;
                   j = (if enabled \<noteq> JNull
                        then j\<lparr>rj_enabled := truthy enabled, rj_consecutive_failures := (if truthy enabled then 0 else rj_consecutive_failures j)\<rparr>
                        else j)
               in (Inr (Some j), s\<lparr>rs_jobs := AList.update tok j (rs_jobs s)\<rparr>, persist_refresh_job fk commit_ok j db)))"

definition jobs_for_user :: "int \<Rightarrow> scheduler \<Rightarrow> refresh_job list" where
  "jobs_for_user uid s = filter (\<lambda>j. rj_user_id j = uid) (map snd (rs_jobs s))"

definition unschedule_job :: "bool \<Rightarrow> string \<Rightarrow> scheduler \<Rightarrow> app_db \<Rightarrow> bool \<times> scheduler \<times> app_db" where
  "unschedule_job commit_ok tok s db =
     (case map_of (rs_jobs s) tok of
        None \<Rightarrow> (False, s, db)
      | Some j \<Rightarrow> (True, s\<lparr>rs_jobs := AList.delete tok (rs_jobs s)\<rparr>, delete_persisted_job commit_ok tok db))"

definition list_jobs :: "api_env \<Rightarrow> scheduler \<Rightarrow> (string, json) dict" where
  "list_jobs env s = map (\<lambda>(tok, j). (tok, JObj [(''user_id'', JInt (rj_user_id j)), (''interval_seconds'', JInt (rj_interval_seconds j)),
       (''schedule_format'', JStr (rj_schedule_format j)), (''enabled'', JBool (rj_enabled j)),
       (''last_refreshed'', iso_or_null env (map_option clock_time (rj_last_refreshed j))), (''last_error'', jopt (rj_last_error j)),
       (''consecutive_failures'', JInt (int (rj_consecutive_failures j)))])) (rs_jobs s)"

section \<open>The loop\<close>

definition effective_interval :: "int \<Rightarrow> refresh_job \<Rightarrow> int" where
  "effective_interval max_backoff j =
     (if rj_consecutive_failures j = 0 then rj_interval_seconds j
      else min (rj_interval_seconds j * 2 ^ rj_consecutive_failures j) max_backoff)"

text \<open>\<open>None\<close>: the \<^verbatim>\<open>TypeError\<close> of mixing an aware and a naive time.\<close>

definition is_due :: "int \<Rightarrow> refresh_job \<Rightarrow> time \<Rightarrow> bool option" where
  "is_due max_backoff j now =
     (case rj_last_refreshed j of
        None \<Rightarrow> Some True
      | Some (Naive t) \<Rightarrow> None
      | Some (Aware t) \<Rightarrow> Some (now - t \<ge> of_int (effective_interval max_backoff j)))"

fun due_jobs :: "int \<Rightarrow> time \<Rightarrow> refresh_job list \<Rightarrow> refresh_job list option" where
  "due_jobs mb now [] = Some []"
| "due_jobs mb now (j # js) =
     (if rj_enabled j
      then (case is_due mb j now of
              None \<Rightarrow> None
            | Some d \<Rightarrow> map_option (\<lambda>ds. if d then j # ds else ds) (due_jobs mb now js))
      else due_jobs mb now js)"

definition failed_data :: "string \<Rightarrow> nat \<Rightarrow> (string, json) dict" where
  "failed_data err n = [(''__refresh_failed__'', JBool True), (''error'', JStr err), (''consecutive_failures'', JInt (int n))]"

text \<open>What a refresh does to its job, and the data of the webhook call it makes, if any.\<close>

definition refreshed :: "time \<Rightarrow> (string, (string, json) dict) outcome \<Rightarrow> refresh_job \<Rightarrow> refresh_job \<times> (string, json) dict option" where
  "refreshed now r j =
     (case r of
        Returned data \<Rightarrow>
          (j\<lparr>rj_last_refreshed := Some (Aware now), rj_last_error := None, rj_consecutive_failures := 0\<rparr>, if data \<noteq> [] then Some data else None)
      | Raised err \<Rightarrow>
          (let n = rj_consecutive_failures j + 1;
               j = j\<lparr>rj_consecutive_failures := n, rj_last_error := Some err, rj_last_refreshed := Some (Aware now)\<rparr>
           in if n \<ge> MAX_CONSECUTIVE_FAILURES then (j\<lparr>rj_enabled := False\<rparr>, Some (failed_data err n)) else (j, None))
      | Cancelled \<Rightarrow> (j, None))"

text \<open>The end of a refresh that began with the job \<open>j0\<close>: it changes the registered job, or the object it holds when the token was
  unscheduled meanwhile, and stores it. (A token scheduled anew in the meantime is left out.)\<close>

definition finish_refresh ::
  "bool \<Rightarrow> bool \<Rightarrow> time \<Rightarrow> (string, (string, json) dict) outcome \<Rightarrow> refresh_job \<Rightarrow> scheduler \<Rightarrow> app_db \<Rightarrow>
   (refresh_job \<times> (string, json) dict) list \<times> scheduler \<times> app_db" where
  "finish_refresh fk commit_ok now r j0 s db =
     (let tok = rj_access_token j0;
          (j, call) = refreshed now r (case map_of (rs_jobs s) tok of Some j \<Rightarrow> j | None \<Rightarrow> j0)
      in ((case call of None \<Rightarrow> [] | Some data \<Rightarrow> [(j, data)]),
          (if map_of (rs_jobs s) tok = None then s else s\<lparr>rs_jobs := AList.update tok j (rs_jobs s)\<rparr>),
          persist_refresh_job fk commit_ok j db))"

fun finish_all ::
  "bool \<Rightarrow> bool \<Rightarrow> time \<Rightarrow> (refresh_job \<Rightarrow> (string, (string, json) dict) outcome) \<Rightarrow> refresh_job list \<Rightarrow> scheduler \<Rightarrow> app_db \<Rightarrow>
   (refresh_job \<times> (string, json) dict) list \<times> scheduler \<times> app_db" where
  "finish_all fk commit_ok now fetch [] s db = ([], s, db)"
| "finish_all fk commit_ok now fetch (j # js) s db =
     (let (calls, s, db) = finish_refresh fk commit_ok now (fetch j) j s db;
          (calls', s, db) = finish_all fk commit_ok now fetch js s db
      in (calls @ calls', s, db))"

text \<open>One round of the loop: the due jobs, their refreshes in the order they end, the webhook calls made. An exception while the due jobs are
  determined is logged and ends the round.\<close>

definition run_tick ::
  "bool \<Rightarrow> bool \<Rightarrow> time \<Rightarrow> (refresh_job \<Rightarrow> (string, (string, json) dict) outcome) \<Rightarrow> scheduler \<Rightarrow> app_db \<Rightarrow>
   (refresh_job \<times> (string, json) dict) list \<times> scheduler \<times> app_db" where
  "run_tick fk commit_ok now fetch s db =
     (case due_jobs (rs_max_backoff s) now (map snd (rs_jobs s)) of
        None \<Rightarrow> ([], s, db)
      | Some js \<Rightarrow> finish_all fk commit_ok now fetch js s db)"

section \<open>The callbacks of the router\<close>

text \<open>The refresh of one token; \<open>run\<close> is \<open>run_access_job\<close> with the site and the plaintext credentials.\<close>

definition do_refresh ::
  "ciphers \<Rightarrow> key_settings \<Rightarrow> kms \<Rightarrow> (string \<Rightarrow> string \<Rightarrow> string \<Rightarrow> (string, (string, json) dict) outcome) \<Rightarrow> app_db \<Rightarrow> refresh_job \<Rightarrow>
   (string, (string, json) dict) outcome" where
  "do_refresh c ks provider run db j =
     (case find (\<lambda>t. at_token t = rj_access_token j \<and> at_user_id t = rj_user_id j) (db_access_tokens db) of
        None \<Rightarrow> Raised ''Access token not found''
      | Some t \<Rightarrow>
          (case find (\<lambda>l. ln_link_token l = at_link_token t \<and> ln_user_id l = rj_user_id j) (db_links db) of
             None \<Rightarrow> Raised ''Link not found''
           | Some l \<Rightarrow>
               (case find_user db (rj_user_id j) of
                  None \<Rightarrow> Raised ''User not found''
                | Some user \<Rightarrow>
                    (case (decrypt_credential_for_user c ks provider user (at_username_encrypted t),
                           decrypt_credential_for_user c ks provider user (at_password_encrypted t)) of
                       (Some username, Some password) \<Rightarrow> run (ln_site l) username password
                     | _ \<Rightarrow> Raised ''Failed to decrypt credential (tried AES-256-GCM and legacy Fernet)''))))"

definition refresh_payload :: "api_env \<Rightarrow> string \<Rightarrow> (string, json) dict \<Rightarrow> (string, json) dict" where
  "refresh_payload env tok data =
     [(''event_version'', JInt 2), (''access_token_prefix'', JStr (take 12 tok @ ''...'')), (''timestamp'', JStr (en_isoformat env (en_now env)))] @
     (if truthy (jget data ''__refresh_failed__'')
      then [(''event'', JStr ''REFRESH_FAILED''), (''success'', JBool False), (''error'', JStr (py_str (en_rep env) (jget_default data ''error'' (JStr ''unknown'')))),
        (''consecutive_failures'', JInt (case json_int (jget_default data ''consecutive_failures'' (JInt 0)) of Some i \<Rightarrow> i | None \<Rightarrow> 0))]
      else [(''event'', JStr ''DATA_REFRESHED''), (''success'', JBool True), (''fields_updated'', JList (map (\<lambda>(k, _). JStr k) data))])"

text \<open>The deliveries started; the secret is the stored column.\<close>

definition on_refresh_webhook :: "api_env \<Rightarrow> string \<Rightarrow> int \<Rightarrow> (string, json) dict \<Rightarrow> app_db \<Rightarrow> webhook_task list" where
  "on_refresh_webhook env tok uid data db =
     (case find (\<lambda>t. at_token t = tok \<and> at_user_id t = uid) (db_access_tokens db) of
        None \<Rightarrow> []
      | Some t \<Rightarrow>
          map (\<lambda>w. \<lparr>wt_webhook_id = wh_id w, wt_url = wh_url w, wt_secret = wh_secret w, wt_payload = refresh_payload env tok data\<rparr>)
            (filter (\<lambda>w. wh_link_token w = at_link_token t) (db_webhooks db)))"

text \<open>A round of the loop as the router sets it up.\<close>

definition refresh_round ::
  "bool \<Rightarrow> bool \<Rightarrow> api_env \<Rightarrow> ciphers \<Rightarrow> key_settings \<Rightarrow> kms \<Rightarrow> (string \<Rightarrow> string \<Rightarrow> string \<Rightarrow> (string, (string, json) dict) outcome) \<Rightarrow>
   scheduler \<Rightarrow> app_db \<Rightarrow> webhook_task list \<times> scheduler \<times> app_db" where
  "refresh_round fk commit_ok env c ks provider run s db =
     (let (calls, s', db') = run_tick fk commit_ok (en_now env) (do_refresh c ks provider run db) s db
      in (concat (map (\<lambda>(j, data). on_refresh_webhook env (rj_access_token j) (rj_user_id j) data db) calls), s', db'))"

section \<open>The endpoints\<close>

definition MAX_SCHEDULES_PER_USER :: nat where "MAX_SCHEDULES_PER_USER = 50"

type_synonym 'a refresh_reply = "(http_error + 'a) \<times> scheduler \<times> app_db"

definition sched_http :: "sched_error \<Rightarrow> http_error" where
  "sched_http e = (case e of ValueErr m \<Rightarrow> HTTPException 400 m | OtherErr \<Rightarrow> server_error)"

definition too_often :: http_error where
  "too_often = HTTPException 400 ''Minimum interval is 300 seconds (5 minutes).''"

definition owned_token :: "string \<Rightarrow> int \<Rightarrow> app_db \<Rightarrow> token_row option" where
  "owned_token tok uid db = find (\<lambda>t. at_token t = tok \<and> at_user_id t = uid) (db_access_tokens db)"

definition schedule_refresh ::
  "bool \<Rightarrow> bool \<Rightarrow> api_env \<Rightarrow> int \<Rightarrow> (string, json) dict \<Rightarrow> scheduler \<Rightarrow> app_db \<Rightarrow> (string, json) dict refresh_reply" where
  "schedule_refresh fk commit_ok env uid body s db =
     (let access_token = jget body ''access_token''
      in if \<not> truthy access_token then (Inl (HTTPException 400 ''access_token is required.''), s, db)
         else case resolve_schedule (en_rep env) (if truthy (jget body ''schedule_format'') then jget body ''schedule_format'' else jget body ''format'')
                     (jget_default body ''interval_seconds'' (JInt 3600)) of
           Inl e \<Rightarrow> (Inl (sched_http e), s, db)
         | Inr (fmt, resolved_interval) \<Rightarrow>
             if resolved_interval < MIN_INTERVAL_SECONDS then (Inl too_often, s, db)
             else case access_token of
               JStr tok \<Rightarrow>
                 (case owned_token tok uid db of
                    None \<Rightarrow> (Inl (HTTPException 404 ''Access token not found.''), s, db)
                  | Some t \<Rightarrow>
                      if map_of (rs_jobs s) tok = None \<and> length (jobs_for_user uid s) \<ge> MAX_SCHEDULES_PER_USER
                      then (Inl (HTTPException 429 ''Refresh schedule quota exceeded (max 50 active schedules per user).''), s, db)
                      else
                        let (r, s, db) = schedule_job (en_rep env) fk commit_ok tok uid (JInt resolved_interval) (JStr fmt) (s\<lparr>rs_running := True\<rparr>) db
                        in (case r of
                              Inl e \<Rightarrow> (Inl (sched_http e), s, db)
                            | Inr j \<Rightarrow>
                                (Inr [(''status'', JStr ''scheduled''), (''access_token'', JStr (take 12 tok @ ''...'')),
                                   (''interval_seconds'', JInt resolved_interval), (''schedule_format'', JStr fmt)], s,
                                 audited env ''refresh'' ''schedule'' (Some uid) (Some (take 12 tok))
                                   [(''interval_seconds'', JInt resolved_interval), (''schedule_format'', JStr fmt)] None db)))
             | _ \<Rightarrow> (Inl server_error, s, db))"

definition update_schedule ::
  "bool \<Rightarrow> bool \<Rightarrow> api_env \<Rightarrow> string \<Rightarrow> int \<Rightarrow> (string, json) dict \<Rightarrow> scheduler \<Rightarrow> app_db \<Rightarrow> (string, json) dict refresh_reply" where
  "update_schedule fk commit_ok env tok uid body s db =
     (if owned_token tok uid db = None then (Inl (HTTPException 404 ''Access token not found.''), s, db)
      else if map_of (rs_jobs s) tok = None then (Inl (HTTPException 404 ''No refresh schedule found for this token.''), s, db)
      else
        let (r, s, db) = update_job (en_rep env) fk commit_ok tok (jget body ''interval_seconds'')
              (if truthy (jget body ''schedule_format'') then jget body ''schedule_format'' else jget body ''format'') (jget body ''enabled'') s db
        in (case r of
              Inl e \<Rightarrow> (Inl (sched_http e), s, db)
            | Inr None \<Rightarrow> (Inl (HTTPException 404 ''No refresh schedule found for this token.''), s, db)
            | Inr (Some j) \<Rightarrow>
                if rj_interval_seconds j < MIN_INTERVAL_SECONDS then (Inl too_often, s, db)
                else
                  (Inr [(''status'', JStr ''updated''), (''access_token'', JStr (take 12 tok @ ''...'')), (''interval_seconds'', JInt (rj_interval_seconds j)),
                     (''schedule_format'', JStr (rj_schedule_format j)), (''enabled'', JBool (rj_enabled j))], s,
                   audited env ''refresh'' ''update'' (Some uid) (Some (take 12 tok))
                     [(''interval_seconds'', JInt (rj_interval_seconds j)), (''schedule_format'', JStr (rj_schedule_format j)), (''enabled'', JBool (rj_enabled j))]
                     None db)))"

definition unschedule_refresh :: "bool \<Rightarrow> api_env \<Rightarrow> string \<Rightarrow> int \<Rightarrow> scheduler \<Rightarrow> app_db \<Rightarrow> (string, json) dict refresh_reply" where
  "unschedule_refresh commit_ok env tok uid s db =
     (if owned_token tok uid db = None then (Inl (HTTPException 404 ''Access token not found.''), s, db)
      else
        let (removed, s, db) = unschedule_job commit_ok tok s db
        in if \<not> removed then (Inl (HTTPException 404 ''No refresh schedule found for this token.''), s, db)
           else (Inr [(''status'', JStr ''unscheduled''), (''access_token'', JStr (take 12 tok @ ''...''))], s,
                 audited env ''refresh'' ''unschedule'' (Some uid) (Some (take 12 tok)) [] None db))"

definition list_refresh_jobs :: "api_env \<Rightarrow> scheduler \<Rightarrow> (string, json) dict" where
  "list_refresh_jobs env s = [(''jobs'', JObj (list_jobs env s))]"

section \<open>Reachable states\<close>

text \<open>The scheduler, the refreshes of the current round that have not ended, and the database. A round begins when the one before has ended;
  its refreshes end in any order, between requests of the users.\<close>

record refresh_world =
  rw_sched :: scheduler
  rw_flight :: "refresh_job list"
  rw_db :: app_db

inductive refresh_step :: "bool \<Rightarrow> api_env \<Rightarrow> refresh_world \<Rightarrow> refresh_world \<Rightarrow> bool" for fk env where
  scheduled: "schedule_refresh fk ok (env\<lparr>en_now := now\<rparr>) uid body (rw_sched w) (rw_db w) = (r, s, db) \<Longrightarrow>
    refresh_step fk env w (w\<lparr>rw_sched := s, rw_db := db\<rparr>)"
| updated: "update_schedule fk ok (env\<lparr>en_now := now\<rparr>) tok uid body (rw_sched w) (rw_db w) = (r, s, db) \<Longrightarrow>
    refresh_step fk env w (w\<lparr>rw_sched := s, rw_db := db\<rparr>)"
| unscheduled: "unschedule_refresh ok (env\<lparr>en_now := now\<rparr>) tok uid (rw_sched w) (rw_db w) = (r, s, db) \<Longrightarrow>
    refresh_step fk env w (w\<lparr>rw_sched := s, rw_db := db\<rparr>)"
| began: "rw_flight w = [] \<Longrightarrow> due_jobs (rs_max_backoff (rw_sched w)) now (map snd (rs_jobs (rw_sched w))) = Some js \<Longrightarrow>
    refresh_step fk env w (w\<lparr>rw_flight := js\<rparr>)"
| ended: "rw_flight w = js @ j # js' \<Longrightarrow> finish_refresh fk ok now answer j (rw_sched w) (rw_db w) = (calls, s, db) \<Longrightarrow>
    refresh_step fk env w \<lparr>rw_sched = s, rw_flight = js @ js', rw_db = db\<rparr>"

text \<open>A restart of the process: a new scheduler, filled from the database.\<close>

definition restart :: "refresh_world \<Rightarrow> refresh_world" where
  "restart w = \<lparr>rw_sched = snd (load_from_db (rw_db w) new_scheduler), rw_flight = [], rw_db = rw_db w\<rparr>"

section \<open>Well-formed schedules\<close>

definition format_ok :: "string \<Rightarrow> int \<Rightarrow> bool" where
  "format_ok fmt interval \<longleftrightarrow> fmt \<in> set SCHEDULE_FORMATS \<and> (\<forall>i. map_of PRESET_INTERVAL_SECONDS fmt = Some i \<longrightarrow> interval = i)"

definition job_ok :: "refresh_job \<Rightarrow> bool" where
  "job_ok j \<longleftrightarrow> format_ok (rj_schedule_format j) (rj_interval_seconds j) \<and> (rj_enabled j \<longrightarrow> rj_consecutive_failures j < MAX_CONSECUTIVE_FAILURES)"

definition row_ok :: "refresh_job_row \<Rightarrow> bool" where
  "row_ok r \<longleftrightarrow> format_ok (sr_schedule_format r) (sr_interval_seconds r) \<and> (sr_enabled r \<longrightarrow> sr_consecutive_failures r < MAX_CONSECUTIVE_FAILURES)"

definition registry_ok :: "scheduler \<Rightarrow> bool" where
  "registry_ok s \<longleftrightarrow> dict_ok (rs_jobs s) \<and>
     (\<forall>k j. map_of (rs_jobs s) k = Some j \<longrightarrow> rj_access_token j = k \<and> job_ok j)"

definition rows_ok :: "app_db \<Rightarrow> bool" where
  "rows_ok db \<longleftrightarrow> (\<forall>r \<in> set (db_refresh_jobs db). row_ok r)"

lemma resolve_schedule_ok: "resolve_schedule rep f i = Inr (fmt, n) \<Longrightarrow> format_ok fmt n"
  by (auto simp: resolve_schedule_def format_ok_def Let_def SCHEDULE_FORMATS_def PRESET_INTERVAL_SECONDS_def split: json.splits if_splits option.splits sum.splits)

lemma registry_ok_update: "registry_ok s \<Longrightarrow> rj_access_token j = tok \<Longrightarrow> job_ok j \<Longrightarrow>
  registry_ok (s\<lparr>rs_jobs := AList.update tok j (rs_jobs s)\<rparr>)"
  by (auto simp: registry_ok_def)

lemma registry_ok_delete: "registry_ok s \<Longrightarrow> registry_ok (s\<lparr>rs_jobs := AList.delete tok (rs_jobs s)\<rparr>)"
  by (auto simp: registry_ok_def)

lemma registry_ok_running [simp]: "registry_ok (s\<lparr>rs_running := b\<rparr>) = registry_ok s"
  by (simp add: registry_ok_def)

lemma registry_ok_get: "registry_ok s \<Longrightarrow> map_of (rs_jobs s) tok = Some j \<Longrightarrow>
  rj_access_token j = tok \<and> job_ok j"
  by (simp add: registry_ok_def)

lemma rows_ok_persist: "rows_ok db \<Longrightarrow> job_ok j \<Longrightarrow> rows_ok (persist_refresh_job fk ok j db)"
  by (auto simp: persist_refresh_job_def rows_ok_def update_where_def job_row_def row_ok_def job_ok_def)

lemma rows_ok_delete: "rows_ok db \<Longrightarrow> rows_ok (delete_persisted_job ok tok db)"
  by (auto simp: delete_persisted_job_def rows_ok_def delete_where_def)

lemma rows_ok_audited [simp]: "rows_ok (audited env a b c d e f db) = rows_ok db"
  by (simp add: rows_ok_def audited_def)

lemma schedule_job_ok:
  assumes "registry_ok s" "rows_ok db" "schedule_job rep fk ok tok uid i f s db = (r, s', db')"
  shows "registry_ok s' \<and> rows_ok db'"
proof (cases "resolve_schedule rep f (if truthy i then i else JInt (rs_default_interval s))")
  case (Inl e)
  with assms show ?thesis by (simp add: schedule_job_def)
next
  case (Inr p)
  obtain fmt n where p: "p = (fmt, n)" by fastforce
  have "format_ok fmt n" using Inr p by (auto dest: resolve_schedule_ok)
  with assms Inr p show ?thesis
    by (cases "map_of (rs_jobs s) tok")
      (auto simp: schedule_job_def Let_def registry_ok_get job_ok_def MAX_CONSECUTIVE_FAILURES_def intro!: registry_ok_update rows_ok_persist)
qed

lemma update_job_ok:
  assumes "registry_ok s" "rows_ok db" "update_job rep fk ok tok i f en s db = (r, s', db')"
  shows "registry_ok s' \<and> rows_ok db'"
proof (cases "map_of (rs_jobs s) tok")
  case None
  with assms show ?thesis by (simp add: update_job_def)
next
  case (Some j)
  note j = registry_ok_get [OF assms(1) Some]
  let ?r = "if f \<noteq> JNull \<or> i \<noteq> JNull then resolve_schedule rep (if truthy f then f else JStr (rj_schedule_format j)) (if truthy i then i else JInt (rj_interval_seconds j))
    else Inr (rj_schedule_format j, rj_interval_seconds j)"
  show ?thesis
  proof (cases ?r)
    case (Inl e)
    with assms Some show ?thesis by (simp add: update_job_def)
  next
    case (Inr p)
    obtain fmt n where p: "p = (fmt, n)" by fastforce
    have "format_ok fmt n" using Inr p j by (auto simp: job_ok_def split: if_splits dest: resolve_schedule_ok)
    with assms Some Inr p j show ?thesis
      by (auto simp: update_job_def Let_def job_ok_def MAX_CONSECUTIVE_FAILURES_def simp del: if_split intro!: registry_ok_update rows_ok_persist split: if_split)
  qed
qed

lemma refreshed_fields [simp]:
  "rj_access_token (fst (refreshed now r j)) = rj_access_token j" "rj_user_id (fst (refreshed now r j)) = rj_user_id j"
  "rj_schedule_format (fst (refreshed now r j)) = rj_schedule_format j" "rj_interval_seconds (fst (refreshed now r j)) = rj_interval_seconds j"
  by (cases r; simp add: refreshed_def Let_def)+

lemma job_ok_refreshed: "job_ok j \<Longrightarrow> job_ok (fst (refreshed now r j))"
  by (cases r) (simp_all add: refreshed_def Let_def job_ok_def MAX_CONSECUTIVE_FAILURES_def)

lemma finish_refresh_ok:
  assumes "registry_ok s" "rows_ok db" "job_ok j"
    and "finish_refresh fk ok now r j s db = (calls, s', db')"
  shows "registry_ok s' \<and> rows_ok db'"
proof -
  let ?tok = "rj_access_token j"
  let ?c = "case map_of (rs_jobs s) ?tok of Some j \<Rightarrow> j | None \<Rightarrow> j"
  let ?n = "fst (refreshed now r ?c)"
  have c: "rj_access_token ?c = ?tok" "job_ok ?c"
  proof (atomize (full), cases "map_of (rs_jobs s) ?tok")
    case (Some c)
    with registry_ok_get [OF assms(1) Some] show "rj_access_token ?c = ?tok \<and> job_ok ?c" by simp
  qed (use assms(3) in simp)
  have "s' = (if map_of (rs_jobs s) ?tok = None then s else s\<lparr>rs_jobs := AList.update ?tok ?n (rs_jobs s)\<rparr>)" "db' = persist_refresh_job fk ok ?n db"
    using assms(4) by (auto simp: finish_refresh_def Let_def split_beta)
  moreover have "registry_ok (s\<lparr>rs_jobs := AList.update ?tok ?n (rs_jobs s)\<rparr>)"
    using c by (intro registry_ok_update assms(1) job_ok_refreshed) simp_all
  moreover have "rows_ok (persist_refresh_job fk ok ?n db)" using c by (intro rows_ok_persist assms(2) job_ok_refreshed)
  ultimately show ?thesis using assms(1) by simp
qed

lemma due_jobs_sub: "due_jobs mb now js = Some ds \<Longrightarrow> set ds \<subseteq> set js"
proof (induction js arbitrary: ds)
  case (Cons j js)
  then show ?case
    by (cases "rj_enabled j"; cases "is_due mb j now"; cases "due_jobs mb now js") (force split: if_splits)+
qed simp

lemma loaded_jobs: "map_of (fold (\<lambda>r. AList.update (sr_access_token r) (loaded_job r)) rows d) k = Some j \<Longrightarrow>
  map_of d k = Some j \<or> (\<exists>r \<in> set rows. sr_access_token r = k \<and> j = loaded_job r)"
proof (induction rows arbitrary: d)
  case (Cons a rows)
  from Cons.IH [of "AList.update (sr_access_token a) (loaded_job a) d"] Cons.prems show ?case
    by (auto split: if_splits)
qed simp

lemma dict_ok_fold: "dict_ok d \<Longrightarrow> dict_ok (fold (\<lambda>r. AList.update (f r) (g r)) rows d)"
  by (induction rows arbitrary: d) simp_all

lemma registry_ok_restart:
  assumes "rows_ok (rw_db w)"
  shows "registry_ok (rw_sched (restart w))"
  unfolding registry_ok_def
proof (intro conjI allI impI)
  show "dict_ok (rs_jobs (rw_sched (restart w)))"
    by (simp add: restart_def load_from_db_def new_scheduler_def dict_ok_fold Let_def)
  fix k j
  assume "map_of (rs_jobs (rw_sched (restart w))) k = Some j"
  then obtain r where "r \<in> set (db_refresh_jobs (rw_db w))" "sr_access_token r = k" "j = loaded_job r"
    by (auto simp: restart_def load_from_db_def new_scheduler_def Let_def dest!: loaded_jobs)
  moreover from this(1) assms have "row_ok r" by (simp add: rows_ok_def)
  ultimately show "rj_access_token j = k" "job_ok j"
    by (auto simp: loaded_job_def job_ok_def row_ok_def format_ok_def SCHEDULE_FORMATS_def)
qed

definition world_ok :: "refresh_world \<Rightarrow> bool" where
  "world_ok w \<longleftrightarrow> registry_ok (rw_sched w) \<and> rows_ok (rw_db w) \<and>
     (\<forall>j \<in> set (rw_flight w). job_ok j)"

lemma registry_ok_job: "registry_ok s \<Longrightarrow> j \<in> set (map snd (rs_jobs s)) \<Longrightarrow> job_ok j"
  unfolding registry_ok_def dict_ok_def by (auto intro: map_of_is_SomeI)

definition only_audit :: "app_db \<Rightarrow> app_db \<Rightarrow> bool" where
  "only_audit db db' \<longleftrightarrow> db'\<lparr>db_audit := []\<rparr> = db\<lparr>db_audit := []\<rparr>"

lemma only_audit_audited [simp]: "only_audit db db" "only_audit db (audited env a b c d e f db)"
  by (simp_all add: only_audit_def audited_def)

lemma only_audit_tables: "only_audit db db' \<Longrightarrow> db_refresh_jobs db' = db_refresh_jobs db \<and> db_access_tokens db' = db_access_tokens db"
  unfolding only_audit_def by (metis app_db.surjective app_db.update_convs(15) app_db.ext_inject)

text \<open>What an endpoint changes: nothing, or what the scheduler's operation changes, and the audit log.\<close>

lemma schedule_refresh_cases:
  assumes "schedule_refresh fk ok env uid body s db = (r, s', db')"
  obtains "s' = s" "db' = db"
  | tok n fmt r1 db1 where "schedule_job (en_rep env) fk ok tok uid n fmt (s\<lparr>rs_running := True\<rparr>) db = (r1, s', db1)"
      "only_audit db1 db'" "map_of (rs_jobs s) tok \<noteq> None \<or> length (jobs_for_user uid s) < MAX_SCHEDULES_PER_USER"
  using assms unfolding schedule_refresh_def Let_def
  by (simp split: if_split_asm sum.split_asm json.split_asm option.split_asm prod.split_asm) (blast | fastforce)+

lemma update_schedule_cases:
  assumes "update_schedule fk ok env tok uid body s db = (r, s', db')"
  obtains "s' = s" "db' = db"
  | n fmt en r1 db1 where "update_job (en_rep env) fk ok tok n fmt en s db = (r1, s', db1)"
      "only_audit db1 db'"
proof -
  obtain r1 s1 db1 where u: "update_job (en_rep env) fk ok tok (jget body ''interval_seconds'')
      (if truthy (jget body ''schedule_format'') then jget body ''schedule_format'' else jget body ''format'') (jget body ''enabled'') s db = (r1, s1, db1)"
    by (metis prod_cases3)
  have "s' = s \<and> db' = db \<or> s' = s1 \<and> only_audit db1 db'"
    using assms unfolding update_schedule_def u Let_def
    by (simp split: if_split_asm sum.split_asm option.split_asm) auto
  with u that show ?thesis by metis
qed

lemma unschedule_refresh_cases:
  assumes "unschedule_refresh ok env tok uid s db = (r, s', db')"
  obtains "s' = s" "db' = db"
  | r1 db1 where "unschedule_job ok tok s db = (r1, s', db1)" "only_audit db1 db'"
  using assms unfolding unschedule_refresh_def Let_def
  by (simp split: if_split_asm prod.split_asm) (blast | fastforce)+

lemma unschedule_job_ok:
  "registry_ok s \<Longrightarrow> rows_ok db \<Longrightarrow> unschedule_job ok tok s db = (r, s', db') \<Longrightarrow> registry_ok s' \<and> rows_ok db'"
  by (auto simp: unschedule_job_def registry_ok_delete rows_ok_delete split: option.splits)

lemma world_ok_step: "refresh_step fk env w w' \<Longrightarrow> world_ok w \<Longrightarrow> world_ok w'"
proof (induction rule: refresh_step.induct)
  case (scheduled ok now uid body w r s db)
  from scheduled.hyps show ?case
  proof (cases rule: schedule_refresh_cases)
    case (2 tok n fmt r1 db1)
    with scheduled.prems have "registry_ok s \<and> rows_ok db1"
      using schedule_job_ok [of "rw_sched w\<lparr>rs_running := True\<rparr>" "rw_db w"] by (simp add: world_ok_def)
    with 2 scheduled.prems show ?thesis by (auto simp: world_ok_def rows_ok_def dest!: only_audit_tables)
  qed (use scheduled.prems in \<open>simp add: world_ok_def\<close>)
next
  case (updated ok now tok uid body w r s db)
  from updated.hyps show ?case
  proof (cases rule: update_schedule_cases)
    case (2 n fmt en r1 db1)
    with updated.prems have "registry_ok s \<and> rows_ok db1"
      using update_job_ok [of "rw_sched w" "rw_db w"] by (simp add: world_ok_def)
    with 2 updated.prems show ?thesis by (auto simp: world_ok_def rows_ok_def dest!: only_audit_tables)
  qed (use updated.prems in \<open>simp add: world_ok_def\<close>)
next
  case (unscheduled ok now tok uid w r s db)
  from unscheduled.hyps show ?case
  proof (cases rule: unschedule_refresh_cases)
    case (2 r1 db1)
    with unscheduled.prems have "registry_ok s \<and> rows_ok db1"
      using unschedule_job_ok [of "rw_sched w" "rw_db w"] by (simp add: world_ok_def)
    with 2 unscheduled.prems show ?thesis by (auto simp: world_ok_def rows_ok_def dest!: only_audit_tables)
  qed (use unscheduled.prems in \<open>simp add: world_ok_def\<close>)
next
  case (began w now js)
  then show ?case
    using due_jobs_sub [OF began.hyps(2)] registry_ok_job [of "rw_sched w"] by (auto simp: world_ok_def)
next
  case (ended w js j js' ok now answer calls s db)
  with finish_refresh_ok [OF _ _ _ ended.hyps(2)] show ?case by (simp add: world_ok_def)
qed

text \<open>Every schedule the program holds, in memory or in the database, is well-formed: whatever requests arrive, however refreshes end
  and commits fail, and however often the process restarts, its format is one of the four, a preset has its canonical interval, and a
  job that is enabled has failed fewer than ten times in a row.\<close>

theorem schedules_well_formed:
  assumes "(\<lambda>w w'. refresh_step fk env w w' \<or> w' = restart w)\<^sup>*\<^sup>* w w'" "rw_sched w = new_scheduler" "rw_flight w = []" "db_refresh_jobs (rw_db w) = []"
  shows "(\<forall>tok j. map_of (rs_jobs (rw_sched w')) tok = Some j \<longrightarrow> rj_access_token j = tok \<and> job_ok j) \<and>
    (\<forall>r \<in> set (db_refresh_jobs (rw_db w')). row_ok r)"
proof -
  have "world_ok w" using assms(2-4) by (simp add: world_ok_def registry_ok_def rows_ok_def new_scheduler_def)
  from assms(1) this have "world_ok w'"
  proof (induction rule: rtranclp_induct)
    case (step w1 w2)
    then show ?case
      using world_ok_step registry_ok_restart [of w1] by (auto simp: world_ok_def restart_def)
  qed
  then show ?thesis by (simp add: world_ok_def registry_ok_def rows_ok_def)
qed

definition sample_refresh_world :: refresh_world where
  "sample_refresh_world = \<lparr>rw_sched = new_scheduler, rw_flight = [],
     rw_db = sample_db\<lparr>db_access_tokens := [(sample_token 1)\<lparr>at_token := ''acc''\<rparr>]\<rparr>\<rparr>"

definition daily_body :: "(string, json) dict" where
  "daily_body = [(''access_token'', JStr ''acc''), (''schedule_format'', JStr ''daily'')]"

definition daily_job :: refresh_job where
  "daily_job = \<lparr>rj_access_token = ''acc'', rj_user_id = 1, rj_interval_seconds = 86400, rj_schedule_format = ''daily'',
     rj_last_refreshed = None, rj_last_error = None, rj_consecutive_failures = 0, rj_enabled = True\<rparr>"

lemma daily_scheduled:
  "fst (snd (schedule_refresh True True sample_api_env 1 daily_body (rw_sched sample_refresh_world) (rw_db sample_refresh_world))) =
     new_scheduler\<lparr>rs_jobs := [(''acc'', daily_job)], rs_running := True\<rparr>"
proof -
  have "resolve_schedule rep (JStr ''daily'') i = Inr (''daily'', 86400)" for rep i
    by (simp add: resolve_schedule_def py_lower_def lower_char_def SCHEDULE_FORMATS_def PRESET_INTERVAL_SECONDS_def Let_def)
  moreover have "owned_token ''acc'' 1 (rw_db sample_refresh_world) \<noteq> None"
    by (simp add: owned_token_def sample_refresh_world_def sample_token_def)
  ultimately show ?thesis
    by (auto simp: schedule_refresh_def daily_body_def jget_def jget_default_def schedule_job_def new_scheduler_def sample_refresh_world_def
      MIN_INTERVAL_SECONDS_def jobs_for_user_def MAX_SCHEDULES_PER_USER_def daily_job_def Let_def)
qed

theorem schedules_well_formed_witness:
  "\<exists>w' :: refresh_world. map_of (rs_jobs (rw_sched w')) ''acc'' = Some daily_job \<and> job_ok daily_job"
proof -
  let ?w = sample_refresh_world
  let ?r = "schedule_refresh True True (sample_api_env\<lparr>en_now := 5\<rparr>) 1 daily_body (rw_sched ?w) (rw_db ?w)"
  let ?w' = "?w\<lparr>rw_sched := fst (snd ?r), rw_db := snd (snd ?r)\<rparr>"
  have e: "sample_api_env\<lparr>en_now := 5\<rparr> = sample_api_env" by (simp add: sample_api_env_def)
  have "refresh_step True sample_api_env ?w ?w'" by (rule scheduled [where r = "fst ?r" and now = 5]) simp
  moreover have "map_of (rs_jobs (rw_sched ?w')) ''acc'' = Some daily_job" by (simp add: e daily_scheduled)
  ultimately obtain w' where step: "refresh_step True sample_api_env ?w w'" and job: "map_of (rs_jobs (rw_sched w')) ''acc'' = Some daily_job" by blast
  from step have "(\<lambda>w w'. refresh_step True sample_api_env w w' \<or> w' = restart w)\<^sup>*\<^sup>* ?w w'" by blast
  from schedules_well_formed [OF this] job show ?thesis
    by (intro exI [of _ w']) (auto simp: sample_refresh_world_def sample_db_def empty_db_def)
qed

section \<open>The quota\<close>

definition user_jobs :: "int \<Rightarrow> (string, refresh_job) dict \<Rightarrow> nat" where
  "user_jobs u d = length (filter (\<lambda>j. rj_user_id j = u) (map snd d))"

lemma jobs_for_user_count: "length (jobs_for_user u s) = user_jobs u (rs_jobs s)"
  by (simp add: jobs_for_user_def user_jobs_def)

lemma user_jobs_replace: "map_of d tok = Some j0 \<Longrightarrow> rj_user_id j = rj_user_id j0 \<Longrightarrow> user_jobs u (AList.update tok j d) = user_jobs u d"
  by (induction d) (auto simp: user_jobs_def split: if_splits)

lemma user_jobs_new: "map_of d tok = None \<Longrightarrow> user_jobs u (AList.update tok j d) = user_jobs u d + (if rj_user_id j = u then 1 else 0)"
  by (induction d) (auto simp: user_jobs_def split: if_splits)

lemma user_jobs_delete: "user_jobs u (AList.delete tok d) \<le> user_jobs u d"
  by (induction d) (auto simp: user_jobs_def)

definition in_quota :: "scheduler \<Rightarrow> bool" where
  "in_quota s \<longleftrightarrow> (\<forall>u. user_jobs u (rs_jobs s) \<le> MAX_SCHEDULES_PER_USER)"

lemma schedule_job_count:
  assumes "schedule_job rep fk ok tok uid i f s db = (r, s', db')"
  shows "user_jobs u (rs_jobs s') \<le> user_jobs u (rs_jobs s) + (if u = uid \<and> map_of (rs_jobs s) tok = None then 1 else 0)"
  using assms
  by (auto simp: schedule_job_def Let_def user_jobs_new user_jobs_replace split: sum.splits option.splits)

lemma update_job_count:
  assumes "update_job rep fk ok tok i f en s db = (r, s', db')"
  shows "user_jobs u (rs_jobs s') = user_jobs u (rs_jobs s)"
proof (cases "map_of (rs_jobs s) tok")
  case (Some j)
  let ?r = "if f \<noteq> JNull \<or> i \<noteq> JNull then resolve_schedule rep (if truthy f then f else JStr (rj_schedule_format j)) (if truthy i then i else JInt (rj_interval_seconds j))
    else Inr (rj_schedule_format j, rj_interval_seconds j)"
  show ?thesis
  proof (cases ?r)
    case (Inl e)
    with assms Some show ?thesis by (simp add: update_job_def)
  next
    case (Inr p)
    then show ?thesis using assms Some user_jobs_replace [OF Some]
      by (cases p) (auto simp: update_job_def Let_def simp del: if_split split: if_split)
  qed
qed (use assms in \<open>simp add: update_job_def\<close>)

lemma finish_refresh_count:
  assumes "finish_refresh fk ok now r j s db = (calls, s', db')"
  shows "user_jobs u (rs_jobs s') = user_jobs u (rs_jobs s)"
  using assms by (cases "map_of (rs_jobs s) (rj_access_token j)")
    (auto simp: finish_refresh_def Let_def split_beta intro!: user_jobs_replace)

lemma quota_step: "refresh_step fk env w w' \<Longrightarrow> in_quota (rw_sched w) \<Longrightarrow> in_quota (rw_sched w')"
proof (induction rule: refresh_step.induct)
  case (scheduled ok now uid body w r s db)
  from scheduled.hyps show ?case
  proof (cases rule: schedule_refresh_cases)
    case (2 tok n fmt r1 db1)
    have "user_jobs u (rs_jobs s) \<le> MAX_SCHEDULES_PER_USER" for u
      using schedule_job_count [OF 2(1), of u] 2(3) scheduled.prems by (auto simp: in_quota_def jobs_for_user_count split: if_splits)
        (meson le_trans)+
    then show ?thesis by (simp add: in_quota_def)
  qed (use scheduled.prems in simp)
next
  case (updated ok now tok uid body w r s db)
  from updated.hyps show ?case
  proof (cases rule: update_schedule_cases)
    case (2 n fmt en r1 db1)
    then show ?thesis using updated.prems update_job_count [OF 2(1)] by (simp add: in_quota_def)
  qed (use updated.prems in simp)
next
  case (unscheduled ok now tok uid w r s db)
  from unscheduled.hyps show ?case
  proof (cases rule: unschedule_refresh_cases)
    case (2 r1 db1)
    then show ?thesis using unscheduled.prems user_jobs_delete
      by (auto simp: in_quota_def unschedule_job_def split: option.splits) (meson le_trans)+
  qed (use unscheduled.prems in simp)
next
  case (began w now js)
  then show ?case by simp
next
  case (ended w js j js' ok now answer calls s db)
  then show ?case using finish_refresh_count [OF ended.hyps(2)] by (simp add: in_quota_def)
qed

text \<open>No sequence of requests and refreshes registers more than fifty schedules for a user.\<close>

theorem refresh_quota_holds:
  assumes "(refresh_step fk env)\<^sup>*\<^sup>* w w'" "rw_sched w = new_scheduler"
  shows "length (jobs_for_user uid (rw_sched w')) \<le> MAX_SCHEDULES_PER_USER"
proof -
  have "in_quota (rw_sched w)" using assms(2) by (simp add: in_quota_def new_scheduler_def user_jobs_def)
  from assms(1) this have "in_quota (rw_sched w')" by (induction rule: rtranclp_induct) (auto intro: quota_step)
  then show ?thesis by (simp add: in_quota_def jobs_for_user_count)
qed

theorem refresh_quota_holds_witness:
  "length (jobs_for_user 1 (fst (snd (schedule_refresh True True (sample_api_env\<lparr>en_now := 5\<rparr>) 1 daily_body new_scheduler (rw_db sample_refresh_world))))) \<le> MAX_SCHEDULES_PER_USER"
proof -
  let ?w = sample_refresh_world
  let ?r = "schedule_refresh True True (sample_api_env\<lparr>en_now := 5\<rparr>) 1 daily_body (rw_sched ?w) (rw_db ?w)"
  have "refresh_step True sample_api_env ?w (?w\<lparr>rw_sched := fst (snd ?r), rw_db := snd (snd ?r)\<rparr>)" by (rule scheduled [where r = "fst ?r"]) simp
  from refresh_quota_holds [OF r_into_rtranclp [of "refresh_step True sample_api_env", OF this], of 1] show ?thesis
    by (simp add: sample_refresh_world_def)
qed

section \<open>What a restart and a race do\<close>

lemma due_jobs_naive: "j \<in> set js \<Longrightarrow> rj_enabled j \<Longrightarrow> rj_last_refreshed j = Some (Naive t) \<Longrightarrow> due_jobs mb now js = None"
proof (induction js)
  case (Cons a js)
  then show ?case by (cases "is_due mb a now") (auto simp: is_due_def)
qed simp

lemma loaded_row:
  assumes "r \<in> set rows" "distinct (map sr_access_token rows)"
  shows "map_of (fold (\<lambda>r. AList.update (sr_access_token r) (loaded_job r)) rows d) (sr_access_token r) = Some (loaded_job r)"
  using assms
proof (induction rows arbitrary: d)
  case (Cons a rows)
  have other: "sr_access_token a \<notin> sr_access_token ` set rows \<Longrightarrow> map_of d (sr_access_token a) = Some x \<Longrightarrow>
      map_of (fold (\<lambda>r. AList.update (sr_access_token r) (loaded_job r)) rows d) (sr_access_token a) = Some x" for d x
    by (induction rows arbitrary: d) auto
  from Cons show ?case by (auto intro: other)
qed simp

text \<open>The times of the database are naive: after a restart one enabled job that was refreshed before makes every round raise before
  any job runs, at every later time.\<close>

theorem restart_stops_refreshing:
  assumes "r \<in> set (db_refresh_jobs (rw_db w))" "sr_enabled r" "sr_last_refreshed r = Some t" "distinct (map sr_access_token (db_refresh_jobs (rw_db w)))"
  shows "run_tick fk ok now fetch (rw_sched (restart w)) db = ([], rw_sched (restart w), db)"
proof -
  let ?rows = "filter sr_enabled (db_refresh_jobs (rw_db w))"
  have "r \<in> set ?rows" "distinct (map sr_access_token ?rows)" using assms by (simp_all add: distinct_map_filter)
  from loaded_row [OF this, of "[]"] have "map_of (rs_jobs (rw_sched (restart w))) (sr_access_token r) = Some (loaded_job r)"
    by (simp add: restart_def load_from_db_def new_scheduler_def Let_def)
  then have "loaded_job r \<in> set (map snd (rs_jobs (rw_sched (restart w))))" by (force dest: map_of_SomeD)
  then have "due_jobs mb now (map snd (rs_jobs (rw_sched (restart w)))) = None" for mb
    by (rule due_jobs_naive) (simp_all add: loaded_job_def assms)
  then show ?thesis by (simp add: run_tick_def)
qed

definition refreshed_row :: refresh_job_row where
  "refreshed_row = (job_row daily_job)\<lparr>sr_last_refreshed := Some 3\<rparr>"

theorem restart_stops_refreshing_witness:
  "run_tick True True 1000000 (\<lambda>_. Returned []) (rw_sched (restart (sample_refresh_world\<lparr>rw_db := sample_db\<lparr>db_refresh_jobs := [refreshed_row]\<rparr>\<rparr>))) sample_db =
    ([], rw_sched (restart (sample_refresh_world\<lparr>rw_db := sample_db\<lparr>db_refresh_jobs := [refreshed_row]\<rparr>\<rparr>)), sample_db)"
  by (rule restart_stops_refreshing [where r = refreshed_row and t = 3])
    (simp_all add: refreshed_row_def job_row_def daily_job_def)

text \<open>A refresh that ends after its token was unscheduled stores the job again, and a restart brings it back.\<close>

theorem unscheduled_job_comes_back:
  assumes "map_of (rs_jobs s) (rj_access_token j) = Some j" "unschedule_job True (rj_access_token j) s db = (removed, s1, db1)"
    and "finish_refresh fk True now (Returned data) j s1 db1 = (calls, s2, db2)" "rj_enabled j"
    and "rj_access_token j \<in> set (token_ids db)" "rj_user_id j \<in> set (user_ids db)"
  shows "removed \<and> map_of (rs_jobs s2) (rj_access_token j) = None \<and> find_job_row db1 (rj_access_token j) = None \<and>
    map_of (rs_jobs (snd (load_from_db db2 new_scheduler))) (rj_access_token j) \<noteq> None"
proof -
  let ?tok = "rj_access_token j"
  have s1: "removed" "s1 = s\<lparr>rs_jobs := AList.delete ?tok (rs_jobs s)\<rparr>" "db1 = delete_persisted_job True ?tok db"
    using assms(1,2) by (simp_all add: unschedule_job_def)
  have none: "find_job_row db1 ?tok = None"
    by (simp add: s1 delete_persisted_job_def find_job_row_def delete_where_def find_None_iff)
  let ?j = "fst (refreshed now (Returned data) j)"
  have "s2 = s1" "db2 = persist_refresh_job fk True ?j db1"
    using assms(3) by (auto simp: finish_refresh_def s1(2) Let_def split_beta)
  moreover have "?tok \<in> set (token_ids db1)" "rj_user_id j \<in> set (user_ids db1)"
    using assms(5,6) by (simp_all add: s1(3) delete_persisted_job_def id_defs)
  ultimately have db2: "db_refresh_jobs db2 = db_refresh_jobs db1 @ [job_row ?j]" using none by (simp add: persist_refresh_job_def)
  have "map_of (fold (\<lambda>r. AList.update (sr_access_token r) (loaded_job r)) (xs @ [job_row ?j]) d) ?tok \<noteq> None" for xs d
    by (simp add: job_row_def)
  moreover have "sr_enabled (job_row ?j)" using assms(4) by (simp add: job_row_def refreshed_def)
  ultimately show ?thesis using s1 none \<open>s2 = s1\<close> by (simp add: load_from_db_def db2 Let_def)
qed

theorem unscheduled_job_comes_back_witness:
  "let db = rw_db sample_refresh_world; s = new_scheduler\<lparr>rs_jobs := [(''acc'', daily_job)]\<rparr>;
       (removed, s1, db1) = unschedule_job True ''acc'' s db; (calls, s2, db2) = finish_refresh True True 5 (Returned []) daily_job s1 db1
   in map_of (rs_jobs s2) ''acc'' = None \<and> map_of (rs_jobs (snd (load_from_db db2 new_scheduler))) ''acc'' \<noteq> None"
proof -
  let ?db = "rw_db sample_refresh_world" let ?s = "new_scheduler\<lparr>rs_jobs := [(''acc'', daily_job)]\<rparr>"
  obtain removed s1 db1 where u: "unschedule_job True ''acc'' ?s ?db = (removed, s1, db1)" by (metis prod_cases3)
  obtain calls s2 db2 where f: "finish_refresh True True 5 (Returned []) daily_job s1 db1 = (calls, s2, db2)" by (metis prod_cases3)
  have j: "rj_access_token daily_job = ''acc''" by (simp add: daily_job_def)
  have "map_of (rs_jobs ?s) (rj_access_token daily_job) = Some daily_job" "rj_enabled daily_job"
    "rj_access_token daily_job \<in> set (token_ids ?db)" "rj_user_id daily_job \<in> set (user_ids ?db)"
    by (simp_all add: daily_job_def sample_refresh_world_def id_defs sample_token_def sample_db_def sample_user_def)
  from unscheduled_job_comes_back [where db = ?db and removed = removed, OF this(1) _ f this(2-4)] u f show ?thesis by (simp add: j)
qed

text \<open>An update that is answered 400 for its interval has been applied.\<close>

lemma rejected_update_applies:
  assumes "owned_token tok uid db \<noteq> None" "map_of (rs_jobs s) tok = Some j" "rj_schedule_format j = ''interval''" "n \<noteq> 0" "n < MIN_INTERVAL_SECONDS"
  shows "\<exists>s' db' j'. update_schedule fk ok env tok uid [(''interval_seconds'', JInt n)] s db = (Inl too_often, s', db') \<and>
    map_of (rs_jobs s') tok = Some j' \<and> rj_interval_seconds j' = n \<and> rj_enabled j' = rj_enabled j"
proof -
  have "resolve_schedule rep (JStr ''interval'') (JInt n) = Inr (''interval'', n)" for rep
    by (simp add: resolve_schedule_def py_lower_def lower_char_def SCHEDULE_FORMATS_def PRESET_INTERVAL_SECONDS_def Let_def)
  moreover obtain t where "owned_token tok uid db = Some t" using assms(1) by blast
  ultimately show ?thesis using assms(2-5) by (simp add: update_schedule_def update_job_def jget_def Let_def)
qed

text \<open>The backoff is capped at a day, also for a job that runs once a week.\<close>

lemma backoff_shortens_weekly:
  assumes "rj_interval_seconds j = 604800" "rj_consecutive_failures j \<noteq> 0"
  shows "effective_interval 86400 j = 86400"
proof -
  have "(1 :: int) \<le> 2 ^ rj_consecutive_failures j" by simp
  then have "86400 \<le> (604800 :: int) * 2 ^ rj_consecutive_failures j" by linarith
  then show ?thesis using assms by (simp only: effective_interval_def if_False min_absorb2)
qed

lemma backoff_bounds:
  assumes "0 < rj_interval_seconds j" "rj_interval_seconds j \<le> mb"
  shows "rj_interval_seconds j \<le> effective_interval mb j \<and> effective_interval mb j \<le> mb"
proof -
  have "rj_interval_seconds j * 1 \<le> rj_interval_seconds j * 2 ^ n" for n :: nat
    using assms(1) by (intro mult_left_mono) simp_all
  then show ?thesis using assms by (simp add: effective_interval_def min_def)
qed

text \<open>The deliveries of a refresh are signed with the stored column, which for a registered webhook is the ciphertext of its secret;
  those of the hosted page with the secret.\<close>

lemma refresh_webhooks_signed_with_ciphertext:
  assumes "aead_ok c" "tagged c" "utf8_ok sec" "length nonce = GCM_NONCE_BYTES" "encrypt_webhook_secret c ks nonce sec = Some enc"
    and "w \<in> set (db_webhooks db)" "wh_secret w = enc" "owned_token tok uid db = Some t" "wh_link_token w = at_link_token t"
  shows "\<exists>task \<in> set (on_refresh_webhook env tok uid data db). wt_webhook_id task = wh_id w \<and> wt_secret task = enc"
    and "\<exists>task \<in> set (fst (fire_webhooks_for_session c ks st env (at_link_token t) event d s db)). wt_webhook_id task = wh_id w \<and> wt_secret task = sec"
proof -
  show "\<exists>task \<in> set (on_refresh_webhook env tok uid data db). wt_webhook_id task = wh_id w \<and> wt_secret task = enc"
    using assms(6-9) unfolding owned_token_def by (force simp: on_refresh_webhook_def)
  have "decrypt_credential c ks enc = Some sec"
    using credential_roundtrip [OF assms(1,2,4,3)] assms(5) by (simp add: encrypt_webhook_secret_def)
  then have "decrypt_webhook_secret c ks (wh_secret w) = sec" by (simp add: decrypt_webhook_secret_def assms(7))
  with assms(6,9) show "\<exists>task \<in> set (fst (fire_webhooks_for_session c ks st env (at_link_token t) event d s db)). wt_webhook_id task = wh_id w \<and> wt_secret task = sec"
    by (force simp: fire_webhooks_for_session_def split_beta Let_def)
qed

end
