(* ===== verification/Links.thy ===== *)
theory Links imports Consent Session_Keys Refresh_Scheduler begin

text \<open>
  \<^verbatim>\<open>src/routers/links.py\<close> and \<open>resolve_credentials\<close> of \<^verbatim>\<open>src/dependencies.py\<close>: the three-token flow. A link token is
  created for a site, credentials are submitted for it and become an access token, data is fetched with it; links and tokens are listed
  and deleted; a public token is exchanged.

  \<open>links_env\<close> holds what the endpoints call: the stores of scopes and schedules (\<^verbatim>\<open>Session_Store\<close>), the session keys
  (\<^verbatim>\<open>Session_Keys\<close>), the ciphers and the base64 decoder of the library. The run of an access job (\<^verbatim>\<open>Job_API\<close>) is an argument of
  \<open>fetch_data\<close>: what it answers for the site, the credentials and the fields to extract.
\<close>

record ('c, 'd, 'q) links_env =
  li_api :: api_env
  li_ciphers :: ciphers
  li_keys :: key_settings
  li_kms :: kms
  li_fk :: bool
  li_put_scopes :: "time \<Rightarrow> string \<Rightarrow> string \<Rightarrow> 'c \<Rightarrow> 'c"
  li_pop_scopes :: "time \<Rightarrow> string \<Rightarrow> 'c \<Rightarrow> string option \<times> 'c"
  li_put_refresh :: "time \<Rightarrow> string \<Rightarrow> string \<Rightarrow> 'd \<Rightarrow> 'd"
  li_pop_refresh :: "time \<Rightarrow> string \<Rightarrow> 'd \<Rightarrow> string option \<times> 'd"
  li_generate :: "string \<Rightarrow> 'q \<Rightarrow> (string \<times> 'q) option"
  li_decrypt :: "string \<Rightarrow> string \<Rightarrow> 'q \<Rightarrow> decrypt_error + string"
  li_destroy :: "string \<Rightarrow> 'q \<Rightarrow> 'q option"
  li_b64 :: "string \<Rightarrow> string + string"

record ('c, 'd, 'q) links_world =
  lk_scopes :: 'c
  lk_refresh :: 'd
  lk_keys :: 'q
  lk_sched :: scheduler
  lk_db :: app_db

abbreviation li_now :: "('c, 'd, 'q) links_env \<Rightarrow> time" where
  "li_now e \<equiv> en_now (li_api e)"

section \<open>Creating a link\<close>

text \<open>The body: \<open>None\<close> when it is no JSON; a body that is no object has no \<^verbatim>\<open>get\<close>, which is ignored too.\<close>

definition link_options :: "json option \<Rightarrow> json \<times> json" where
  "link_options body =
     (case body of
        Some (JObj d) \<Rightarrow> (jget d ''scopes'', jget d ''refresh_schedule'')
      | _ \<Rightarrow> (JNull, JNull))"

definition schedule_directive :: "api_env \<Rightarrow> json \<Rightarrow> http_error + (string, json) dict" where
  "schedule_directive env refresh_schedule =
     (case refresh_schedule of
        JObj d \<Rightarrow>
          (case resolve_schedule (en_rep env) (if truthy (jget d ''schedule_format'') then jget d ''schedule_format'' else jget d ''format'')
                  (jget_default d ''interval_seconds'' (JInt 3600)) of
             Inl err \<Rightarrow> Inl (sched_http err)
           | Inr (fmt, resolved_interval) \<Rightarrow>
               if resolved_interval < MIN_INTERVAL_SECONDS then Inl too_often
               else Inr [(''schedule_format'', JStr fmt), (''interval_seconds'', JInt resolved_interval)])
      | _ \<Rightarrow> Inl (HTTPException 400 ''refresh_schedule must be an object.''))"

definition create_link ::
  "('c, 'd, 'q) links_env \<Rightarrow> auth_context option \<Rightarrow> int \<Rightarrow> string \<Rightarrow> string \<Rightarrow> json option \<Rightarrow>
   ('c, 'd, 'q) links_world \<Rightarrow> (http_error + (string, json) dict) \<times> ('c, 'd, 'q) links_world" where
  "create_link e ctx uid link_token site body w =
     (let (scopes, refresh_schedule) = link_options body
      in case ensure_site_allowed_for_request ctx site of
           Inl err \<Rightarrow> (Inl err, w)
         | Inr _ \<Rightarrow>
             (case constrain_requested_scopes (en_rep (li_api e)) ctx scopes of
                Inl err \<Rightarrow> (Inl err, w)
              | Inr effective_scopes \<Rightarrow>
                  let w = w\<lparr>lk_db := (lk_db w)\<lparr>db_links := db_links (lk_db w) @ [\<lparr>ln_link_token = link_token, ln_site = site, ln_user_id = uid\<rparr>]\<rparr>\<rparr>
                  in case li_generate e link_token (lk_keys w) of
                       None \<Rightarrow> (Inl server_error, w)
                     | Some (public_key_pem, q) \<Rightarrow>
                         let w = w\<lparr>lk_keys := q\<rparr>;
                             result = [(''link_token'', JStr link_token), (''public_key'', JStr public_key_pem)];
                             w = (if effective_scopes \<noteq> JNull
                                  then w\<lparr>lk_scopes := li_put_scopes e (li_now e) link_token (en_dumps (li_api e) effective_scopes) (lk_scopes w)\<rparr> else w);
                             result = (if effective_scopes \<noteq> JNull then result @ [(''scopes'', effective_scopes)] else result)
                         in if refresh_schedule = JNull then (Inr result, w)
                            else case schedule_directive (li_api e) refresh_schedule of
                              Inl err \<Rightarrow> (Inl err, w)
                            | Inr directive \<Rightarrow>
                                (Inr (result @ [(''refresh_schedule'', JObj directive)]),
                                 w\<lparr>lk_refresh := li_put_refresh e (li_now e) link_token (en_dumps (li_api e) (JObj directive)) (lk_refresh w)\<rparr>)))"

section \<open>Credentials\<close>

record credential_form =
  cf_username :: "string option"
  cf_password :: "string option"
  cf_encrypted_username :: "string option"
  cf_encrypted_password :: "string option"

definition supplied :: "string option \<Rightarrow> bool" where
  "supplied v \<longleftrightarrow> v \<noteq> None \<and> v \<noteq> Some ''''"

definition decrypt_message :: "decrypt_error \<Rightarrow> string option" where
  "decrypt_message err =
     (case err of NoKey \<Rightarrow> Some ''No ephemeral key found for link_token (expired or invalid)''
      | DecryptFailed \<Rightarrow> Some ''Failed to decrypt credentials with ephemeral key'' | ServerUnavailable \<Rightarrow> None)"

text \<open>One encrypted field: a \<^verbatim>\<open>ValueError\<close> with its text, \<open>None\<close> for any other exception.\<close>

definition decrypt_submitted :: "('c, 'd, 'q) links_env \<Rightarrow> string \<Rightarrow> string \<Rightarrow> 'q \<Rightarrow> string option + string" where
  "decrypt_submitted e link_token text q =
     (case li_b64 e text of
        Inl m \<Rightarrow> Inl (Some m)
      | Inr raw \<Rightarrow> (case li_decrypt e link_token raw q of Inl err \<Rightarrow> Inl (decrypt_message err) | Inr p \<Rightarrow> Inr p))"

definition both_fields :: "('c, 'd, 'q) links_env \<Rightarrow> string \<Rightarrow> string \<Rightarrow> string \<Rightarrow> 'q \<Rightarrow> string option + string \<times> string" where
  "both_fields e link_token eu ep q =
     (case decrypt_submitted e link_token eu q of
        Inl m \<Rightarrow> Inl m
      | Inr u \<Rightarrow> (case decrypt_submitted e link_token ep q of Inl m \<Rightarrow> Inl m | Inr p \<Rightarrow> Inr (u, p)))"

definition submitted_credentials ::
  "('c, 'd, 'q) links_env \<Rightarrow> string \<Rightarrow> credential_form \<Rightarrow> 'q \<Rightarrow> (http_error + string \<times> string) \<times> 'q" where
  "submitted_credentials e link_token f q =
     (if supplied (cf_encrypted_username f) \<and> supplied (cf_encrypted_password f) then
        (case both_fields e link_token (the (cf_encrypted_username f)) (the (cf_encrypted_password f)) q of
           Inl (Some m) \<Rightarrow> (Inl (HTTPException 400 m), q)
         | Inl None \<Rightarrow> (Inl server_error, q)
         | Inr up \<Rightarrow> (case li_destroy e link_token q of None \<Rightarrow> (Inl server_error, q) | Some q' \<Rightarrow> (Inr up, q')))
      else if supplied (cf_username f) \<and> supplied (cf_password f) then (Inr (the (cf_username f), the (cf_password f)), q)
      else (Inl (HTTPException 422 ''Provide either (username + password) or (encrypted_username + encrypted_password).''), q))"

text \<open>\<open>resolve_credentials\<close>: the same for the one-step flow, which decodes both texts before it decrypts and answers every exception with
  a 400.\<close>

definition resolve_fields :: "('c, 'd, 'q) links_env \<Rightarrow> string \<Rightarrow> string \<Rightarrow> string \<Rightarrow> 'q \<Rightarrow> string option + string \<times> string" where
  "resolve_fields e link_token eu ep q =
     (case (li_b64 e eu, li_b64 e ep) of
        (Inl m, _) \<Rightarrow> Inl (Some m)
      | (_, Inl m) \<Rightarrow> Inl (Some m)
      | (Inr ru, Inr rp) \<Rightarrow>
          (case li_decrypt e link_token ru q of
             Inl err \<Rightarrow> Inl (decrypt_message err)
           | Inr u \<Rightarrow> (case li_decrypt e link_token rp q of Inl err \<Rightarrow> Inl (decrypt_message err) | Inr p \<Rightarrow> Inr (u, p))))"

definition resolve_credentials ::
  "('c, 'd, 'q) links_env \<Rightarrow> string option \<Rightarrow> credential_form \<Rightarrow> 'q \<Rightarrow> (http_error + string \<times> string) \<times> 'q" where
  "resolve_credentials e link_token f q =
     (if supplied (cf_encrypted_username f) \<and> supplied (cf_encrypted_password f) \<and> supplied link_token then
        (case resolve_fields e (the link_token) (the (cf_encrypted_username f)) (the (cf_encrypted_password f)) q of
           Inl (Some m) \<Rightarrow> (Inl (HTTPException 400 m), q)
         | Inl None \<Rightarrow> (Inl (HTTPException 400 ''Failed to decrypt credentials.''), q)
         | Inr up \<Rightarrow>
             (case li_destroy e (the link_token) q of
                None \<Rightarrow> (Inl (HTTPException 400 ''Failed to decrypt credentials.''), q) | Some q' \<Rightarrow> (Inr up, q')))
      else if supplied (cf_username f) \<and> supplied (cf_password f) then (Inr (the (cf_username f), the (cf_password f)), q)
      else (Inl (HTTPException 422 ''Provide either (username + password) or (encrypted_username + encrypted_password + link_token).''), q))"

text \<open>The deferred schedule; any failure is logged and ignored.\<close>

definition apply_deferred ::
  "('c, 'd, 'q) links_env \<Rightarrow> bool \<Rightarrow> string \<Rightarrow> int \<Rightarrow> string option \<Rightarrow> ('c, 'd, 'q) links_world \<Rightarrow> (string, json) dict \<times> ('c, 'd, 'q) links_world" where
  "apply_deferred e commit_ok access_token uid deferred w =
     (if \<not> supplied deferred then ([], w)
      else case en_parse (li_api e) (the deferred) of
        Encoded (JObj directive) \<Rightarrow>
          (let s = (lk_sched w)\<lparr>rs_running := True\<rparr>;
               (r, s, db) = schedule_job (en_rep (li_api e)) (li_fk e) commit_ok access_token uid (jget directive ''interval_seconds'') (jget directive ''schedule_format'') s (lk_db w);
               w = w\<lparr>lk_sched := s, lk_db := db\<rparr>
           in case r of
                Inl err \<Rightarrow> ([], w)
              | Inr j \<Rightarrow>
                  ([(''refresh_schedule'', JObj [(''interval_seconds'', jget directive ''interval_seconds''), (''schedule_format'', jget directive ''schedule_format'')])], w))
      | _ \<Rightarrow> ([], w))"

definition submit_credentials ::
  "('c, 'd, 'q) links_env \<Rightarrow> bool \<Rightarrow> string \<Rightarrow> string \<times> string \<Rightarrow> user_row \<Rightarrow> string \<Rightarrow> credential_form \<Rightarrow>
   ('c, 'd, 'q) links_world \<Rightarrow> (http_error + (string, json) dict) \<times> ('c, 'd, 'q) links_world" where
  "submit_credentials e commit_ok access_token nonces user link_token form w =
     (case find (\<lambda>l. ln_link_token l = link_token \<and> ln_user_id l = u_id user) (db_links (lk_db w)) of
        None \<Rightarrow> (Inl (HTTPException 404 ''Invalid link token.''), w)
      | Some link \<Rightarrow>
          (case submitted_credentials e link_token form (lk_keys w) of
             (Inl err, q) \<Rightarrow> (Inl err, w\<lparr>lk_keys := q\<rparr>)
           | (Inr (plain_user, plain_pass), q) \<Rightarrow>
               let w = w\<lparr>lk_keys := q\<rparr>;
                   seal_for = encrypt_credential_for_user (li_ciphers e) (li_keys e) (li_kms e) user
               in case (seal_for (fst nonces) plain_user, seal_for (snd nonces) plain_pass) of
                    (Some un, Some pw) \<Rightarrow>
                      (let (token_scopes, c) = li_pop_scopes e (li_now e) link_token (lk_scopes w);
                           row = \<lparr>at_token = access_token, at_link_token = link_token, at_username_encrypted = un, at_password_encrypted = pw,
                             at_instructions = None, at_scopes = map_option (en_parse (li_api e)) token_scopes, at_user_id = u_id user,
                             at_key_version = get_current_key_version (li_keys e), at_updated_at = li_now e\<rparr>;
                           db = audited (li_api e) ''token'' ''create'' (Some (u_id user)) (Some access_token) [(''link_token'', JStr link_token)] None
                             ((lk_db w)\<lparr>db_access_tokens := db_access_tokens (lk_db w) @ [row]\<rparr>);
                           w = w\<lparr>lk_scopes := c, lk_db := db\<rparr>;
                           result = [(''access_token'', JStr access_token)]
                       in case (if supplied token_scopes then map_option (\<lambda>v. [(''scopes'', v)]) (loaded (en_parse (li_api e) (the token_scopes))) else Some []) of
                            None \<Rightarrow> (Inl server_error, w)
                          | Some scopes_part \<Rightarrow>
                              let (deferred, d) = li_pop_refresh e (li_now e) link_token (lk_refresh w);
                                  (refresh_part, w) = apply_deferred e commit_ok access_token (u_id user) deferred (w\<lparr>lk_refresh := d\<rparr>)
                              in (Inr (result @ scopes_part @ refresh_part), w))
                  | _ \<Rightarrow> (Inl server_error, w)))"

definition submit_instructions :: "time \<Rightarrow> string \<Rightarrow> string \<Rightarrow> int \<Rightarrow> app_db \<Rightarrow> (string, json) dict reply" where
  "submit_instructions now access_token instructions uid db =
     (if owned_token access_token uid db = None then (Inl (HTTPException 401 ''Invalid access token.''), db)
      else (Inr [(''status'', JStr ''Instructions stored successfully'')],
            db\<lparr>db_access_tokens := update_where (\<lambda>t. at_token t = access_token) (\<lambda>t. t\<lparr>at_instructions := Some instructions, at_updated_at := now\<rparr>) (db_access_tokens db)\<rparr>))"

section \<open>Fetching data\<close>

text \<open>The field a scope stands for; a scope that is no text raises.\<close>

fun scope_field :: "json \<Rightarrow> string option" where
  "scope_field (JStr s) = Some (if CHR '':'' \<in> set s then after_first (CHR '':'') s else s)"
| "scope_field _ = None"

definition scope_fields :: "json_text \<Rightarrow> string list option" where
  "scope_fields t = Option.bind (loaded t) (\<lambda>v. Option.bind (json_iter v) (\<lambda>vs. map_option remdups (all_some (map scope_field vs))))"

text \<open>The scopes column of a token: \<^verbatim>\<open>NULL\<close> and the empty text are no restriction.\<close>

definition token_fields :: "json_text option \<Rightarrow> string list option option" where
  "token_fields scopes =
     (case scopes of
        None \<Rightarrow> Some None
      | Some t \<Rightarrow> if t = RawText '''' then Some None else map_option Some (scope_fields t))"

definition restrict_fields :: "string list option \<Rightarrow> string list option \<Rightarrow> string list option" where
  "restrict_fields a b =
     (case (a, b) of
        (Some x, Some y) \<Rightarrow> Some (filter (\<lambda>f. f \<in> set y) x)
      | (None, Some y) \<Rightarrow> Some y
      | (a, None) \<Rightarrow> a)"

definition fields_json :: "string list option \<Rightarrow> json" where
  "fields_json allowed = (case allowed of None \<Rightarrow> JNull | Some fs \<Rightarrow> JList (map JStr (sort_str fs)))"

text \<open>The filter of the answer. Data that is no object raises.\<close>

definition filter_response :: "string list option \<Rightarrow> (string, json) dict \<Rightarrow> (string, json) dict option" where
  "filter_response allowed response =
     (case (allowed, map_of response ''data'') of
        (Some fs, Some (JObj d)) \<Rightarrow>
          Some (AList.update ''scopes_applied'' (fields_json allowed) (AList.update ''data'' (JObj (filter (\<lambda>(k, _). k \<in> set fs) d)) response))
      | (Some fs, Some _) \<Rightarrow> None
      | _ \<Rightarrow> Some response)"

definition fetch_data ::
  "('c, 'd, 'q) links_env \<Rightarrow> (string \<Rightarrow> string \<Rightarrow> string \<Rightarrow> json \<Rightarrow> http_error + string \<times> (string, json) dict) \<Rightarrow>
   auth_context option \<Rightarrow> user_row \<Rightarrow> string \<Rightarrow> string option \<Rightarrow> app_db \<Rightarrow> (string, json) dict reply" where
  "fetch_data e run ctx user access_token consent_token db =
     (case owned_token access_token (u_id user) db of
        None \<Rightarrow> (Inl (HTTPException 401 ''Invalid access token.''), db)
      | Some token_record \<Rightarrow>
     case find (\<lambda>l. ln_link_token l = at_link_token token_record \<and> ln_user_id l = u_id user) (db_links db) of
        None \<Rightarrow> (Inl (HTTPException 401 ''Linked data not found.''), db)
      | Some site \<Rightarrow>
     case ensure_site_allowed_for_request ctx (ln_site site) of
        Inl err \<Rightarrow> (Inl err, db)
      | Inr _ \<Rightarrow>
     case (if supplied consent_token
           then (case consent_refusal (li_now e) (the consent_token) (u_id user) access_token db of
                   Inl err \<Rightarrow> Inl err
                 | Inr g \<Rightarrow> (case scope_fields (cg_scopes g) of None \<Rightarrow> Inl server_error | Some fs \<Rightarrow> Inr (Some fs)))
           else Inr None) of
        Inl err \<Rightarrow> (Inl err, db)
      | Inr consented \<Rightarrow>
     case token_fields (at_scopes token_record) of
        None \<Rightarrow> (Inl server_error, db)
      | Some token_allowed \<Rightarrow>
     let allowed_fields = restrict_fields (restrict_fields consented token_allowed) (get_principal_allowed_scopes ctx)
     in case (decrypt_credential_for_user (li_ciphers e) (li_keys e) (li_kms e) user (at_username_encrypted token_record),
              decrypt_credential_for_user (li_ciphers e) (li_keys e) (li_kms e) user (at_password_encrypted token_record)) of
        (Some username, Some password) \<Rightarrow>
          (case run (ln_site site) username password (fields_json allowed_fields) of
             Inl err \<Rightarrow> (Inl err, db)
           | Inr (job_id, response) \<Rightarrow>
               let response = AList.update ''job_id'' (JStr job_id) response;
                   response = (if supplied (at_instructions token_record)
                               then AList.update ''instructions_applied'' (jopt (at_instructions token_record)) response else response)
               in (case filter_response allowed_fields response of
                     None \<Rightarrow> (Inl server_error, db)
                   | Some response \<Rightarrow>
                       (Inr response, audited (li_api e) ''data_access'' ''fetch_data'' (Some (u_id user)) (Some access_token) [(''site'', JStr (ln_site site))] None db)))
      | _ \<Rightarrow> (Inl server_error, db))"

section \<open>Links and tokens\<close>

definition list_links :: "int \<Rightarrow> app_db \<Rightarrow> json" where
  "list_links uid db = JList (map (\<lambda>l. JObj [(''link_token'', JStr (ln_link_token l)), (''site'', JStr (ln_site l))]) (filter (\<lambda>l. ln_user_id l = uid) (db_links db)))"

definition delete_link :: "bool \<Rightarrow> api_env \<Rightarrow> string \<Rightarrow> int \<Rightarrow> app_db \<Rightarrow> (string, json) dict reply" where
  "delete_link fk env link_token uid db =
     (case find (\<lambda>l. ln_link_token l = link_token \<and> ln_user_id l = uid) (db_links db) of
        None \<Rightarrow> (Inl (HTTPException 404 ''Link not found.''), db)
      | Some link \<Rightarrow>
          (Inr [(''status'', JStr ''Link and associated tokens deleted.'')],
           audited env ''token'' ''link_deleted'' (Some uid) (Some link_token) [(''site'', JStr (ln_site link))] None
             (after_delete fk (db\<lparr>db_access_tokens := delete_where (\<lambda>t. at_link_token t = link_token \<and> at_user_id t = uid) (db_access_tokens db),
                db_links := delete_where (\<lambda>l. ln_link_token l = link_token) (db_links db)\<rparr>))))"

definition list_tokens :: "int \<Rightarrow> app_db \<Rightarrow> json" where
  "list_tokens uid db = JList (map (\<lambda>t. JObj [(''token'', JStr (at_token t)), (''link_token'', JStr (at_link_token t))]) (filter (\<lambda>t. at_user_id t = uid) (db_access_tokens db)))"

definition delete_token :: "bool \<Rightarrow> api_env \<Rightarrow> string \<Rightarrow> int \<Rightarrow> app_db \<Rightarrow> (string, json) dict reply" where
  "delete_token fk env tok uid db =
     (if owned_token tok uid db = None then (Inl (HTTPException 404 ''Token not found.''), db)
      else (Inr [(''status'', JStr ''Token deleted.'')],
            audited env ''token'' ''revoke'' (Some uid) (Some tok) [] None
              (after_delete fk (db\<lparr>db_access_tokens := delete_where (\<lambda>t. at_token t = tok) (db_access_tokens db)\<rparr>))))"

section \<open>Public tokens\<close>

definition exchange_public_token :: "time \<Rightarrow> int \<Rightarrow> (string, json) dict \<Rightarrow> app_db \<Rightarrow> (http_error + string) \<times> app_db" where
  "exchange_public_token now uid body db =
     (let public_token = jget body ''public_token''
      in if \<not> truthy public_token then (Inl (HTTPException 422 ''public_token is required.''), db)
         else case public_token of
           JStr tok \<Rightarrow>
             (case find (\<lambda>p. pt_token p = tok) (db_public_tokens db) of
                None \<Rightarrow> (Inl (HTTPException 404 ''Invalid public_token.''), db)
              | Some p \<Rightarrow>
                  if pt_user_id p \<noteq> uid then (Inl (HTTPException 403 ''Not authorized to exchange this token.''), db)
                  else if pt_exchanged p then (Inl (HTTPException 410 ''public_token has already been exchanged.''), db)
                  else if now > pt_expires_at p then (Inl (HTTPException 410 ''public_token has expired.''), db)
                  else (Inr (pt_access_token p),
                        db\<lparr>db_public_tokens := update_where (\<lambda>p. pt_token p = tok) (\<lambda>p. p\<lparr>pt_exchanged := True\<rparr>) (db_public_tokens db)\<rparr>))
         | _ \<Rightarrow> (Inl server_error, db))"

section \<open>What data leaves\<close>

lemma restrict_within:
  "restrict_fields a b = Some fs \<Longrightarrow> (\<forall>x. a = Some x \<longrightarrow> set fs \<subseteq> set x) \<and> (\<forall>y. b = Some y \<longrightarrow> set fs \<subseteq> set y)"
  by (auto simp: restrict_fields_def split: option.splits)

lemma restrict_None: "restrict_fields a b = None \<longleftrightarrow> a = None \<and> b = None"
  by (auto simp: restrict_fields_def split: option.splits)

lemma filter_response_data:
  assumes "filter_response allowed response = Some response'" "jget response' ''data'' = JObj d" "allowed = Some fs"
  shows "fst ` set d \<subseteq> set fs"
  using assms by (auto simp: filter_response_def jget_def split: option.splits json.splits)

lemma fetch_data_cases:
  assumes "fetch_data e run ctx user tok ctok db = (Inr response, db')"
  obtains t l consented token_allowed un pw job_id r0 r1 where
    "owned_token tok (u_id user) db = Some t"
    "find (\<lambda>l. ln_link_token l = at_link_token t \<and> ln_user_id l = u_id user) (db_links db) = Some l"
    "ensure_site_allowed_for_request ctx (ln_site l) = Inr ctx"
    "supplied ctok \<Longrightarrow> \<exists>g. consent_refusal (li_now e) (the ctok) (u_id user) tok db = Inr g \<and> scope_fields (cg_scopes g) = consented \<and> consented \<noteq> None"
    "\<not> supplied ctok \<Longrightarrow> consented = None" "token_fields (at_scopes t) = Some token_allowed"
    "run (ln_site l) un pw (fields_json (restrict_fields (restrict_fields consented token_allowed) (get_principal_allowed_scopes ctx))) = Inr (job_id, r0)"
    "filter_response (restrict_fields (restrict_fields consented token_allowed) (get_principal_allowed_scopes ctx)) r1 = Some response"
proof -
  from assms obtain t where t: "owned_token tok (u_id user) db = Some t" by (auto simp: fetch_data_def split: option.splits)
  from assms t obtain l where l: "find (\<lambda>l. ln_link_token l = at_link_token t \<and> ln_user_id l = u_id user) (db_links db) = Some l"
    by (auto simp: fetch_data_def split: option.splits)
  from assms t l have site: "ensure_site_allowed_for_request ctx (ln_site l) = Inr ctx"
    by (auto simp: fetch_data_def ensure_site_allowed_for_request_def split: option.splits if_splits)
  let ?c = "if supplied ctok
           then (case consent_refusal (li_now e) (the ctok) (u_id user) tok db of
                   Inl err \<Rightarrow> Inl err
                 | Inr g \<Rightarrow> (case scope_fields (cg_scopes g) of None \<Rightarrow> Inl server_error | Some fs \<Rightarrow> Inr (Some fs)))
           else Inr None"
  from assms t l site obtain consented where c: "?c = Inr consented" by (cases ?c) (auto simp: fetch_data_def)
  from assms t l site c obtain ta where ta: "token_fields (at_scopes t) = Some ta" by (cases "token_fields (at_scopes t)") (auto simp: fetch_data_def)
  let ?a = "restrict_fields (restrict_fields consented ta) (get_principal_allowed_scopes ctx)"
  from assms t l site c ta obtain un pw job_id r0 r1 where r: "run (ln_site l) un pw (fields_json ?a) = Inr (job_id, r0)" "filter_response ?a r1 = Some response"
    by (auto simp: fetch_data_def Let_def split: option.splits sum.splits)
  have "supplied ctok \<Longrightarrow> \<exists>g. consent_refusal (li_now e) (the ctok) (u_id user) tok db = Inr g \<and> scope_fields (cg_scopes g) = consented \<and> consented \<noteq> None"
    "\<not> supplied ctok \<Longrightarrow> consented = None"
    using c by (auto split: sum.splits option.splits dest: sym)
  from that [OF t l site this ta r] show ?thesis .
qed

text \<open>C6. Every field of the data that \<open>fetch_data\<close> returns was allowed by each restriction there is: the scopes of the access token, the
  consent given, which is unrevoked, unexpired and for this token, and the scopes of the API key and agent; and the site is one the
  agent may access.\<close>

theorem fetched_data_within_every_grant:
  assumes "fetch_data e run ctx user tok ctok db = (Inr response, db')" "jget response ''data'' = JObj d" "k \<in> set (map fst d)"
  shows "\<exists>t l. owned_token tok (u_id user) db = Some t \<and>
    find (\<lambda>l. ln_link_token l = at_link_token t \<and> ln_user_id l = u_id user) (db_links db) = Some l \<and>
    ensure_site_allowed_for_request ctx (ln_site l) = Inr ctx \<and>
    (\<forall>fs. token_fields (at_scopes t) = Some (Some fs) \<longrightarrow> k \<in> set fs) \<and>
    (\<forall>fs. get_principal_allowed_scopes ctx = Some fs \<longrightarrow> k \<in> set fs) \<and>
    (supplied ctok \<longrightarrow> (\<exists>g fs. consent_refusal (li_now e) (the ctok) (u_id user) tok db = Inr g \<and> scope_fields (cg_scopes g) = Some fs \<and> k \<in> set fs))"
proof -
  from assms(1) show ?thesis
  proof (cases rule: fetch_data_cases)
    case (1 t l consented ta un pw job_id r0 r1)
    let ?a = "restrict_fields (restrict_fields consented ta) (get_principal_allowed_scopes ctx)"
    have k: "k \<in> set fs" if "?a = Some fs" for fs
      using filter_response_data [OF 1(8) assms(2) that] assms(3) by auto
    have "k \<in> set fs" if "consented = Some fs \<or> ta = Some fs \<or> get_principal_allowed_scopes ctx = Some fs" for fs
    proof -
      from that obtain x where x: "?a = Some x" by (cases ?a) (auto simp: restrict_None)
      from restrict_within [OF this] that obtain "set x \<subseteq> set fs"
        by (cases "restrict_fields consented ta") (auto simp: restrict_None dest!: restrict_within)
      with k [OF x] show ?thesis by blast
    qed
    with 1 show ?thesis by fastforce
  qed
qed

section \<open>Exchanging public tokens\<close>

text \<open>A run of exchange requests: the public tokens whose exchange succeeded, with the user and the time.\<close>

fun exchanges :: "(time \<times> int \<times> string) list \<Rightarrow> app_db \<Rightarrow> (string \<times> int \<times> time) list" where
  "exchanges [] db = []"
| "exchanges ((now, uid, tok) # xs) db =
     (case exchange_public_token now uid [(''public_token'', JStr tok)] db of
        (Inl _, db) \<Rightarrow> exchanges xs db
      | (Inr _, db) \<Rightarrow> (tok, uid, now) # exchanges xs db)"

definition spent_public_token :: "string \<Rightarrow> app_db \<Rightarrow> bool" where
  "spent_public_token tok db \<longleftrightarrow> (\<forall>p \<in> set (db_public_tokens db). pt_token p = tok \<longrightarrow> pt_exchanged p)"

lemma exchange_cases:
  assumes "exchange_public_token now uid [(''public_token'', JStr tok)] db = (r, db')"
  obtains err where "r = Inl err" "db' = db"
  | p where "r = Inr (pt_access_token p)" "find (\<lambda>p. pt_token p = tok) (db_public_tokens db) = Some p" "pt_user_id p = uid" "\<not> pt_exchanged p"
      "now \<le> pt_expires_at p"
      "db' = db\<lparr>db_public_tokens := update_where (\<lambda>p. pt_token p = tok) (\<lambda>p. p\<lparr>pt_exchanged := True\<rparr>) (db_public_tokens db)\<rparr>"
proof (cases "find (\<lambda>p. pt_token p = tok) (db_public_tokens db)")
  case None
  with assms have "\<exists>err. r = Inl err \<and> db' = db" by (auto simp: exchange_public_token_def jget_def Let_def split: if_splits)
  with that(1) show ?thesis by blast
next
  case (Some p)
  show ?thesis
  proof (cases "tok = '''' \<or> pt_user_id p \<noteq> uid \<or> pt_exchanged p \<or> now > pt_expires_at p")
    case True
    with assms Some have "\<exists>err. r = Inl err \<and> db' = db" by (auto simp: exchange_public_token_def jget_def Let_def split: if_splits)
    with that(1) show ?thesis by blast
  next
    case False
    with assms Some have "r = Inr (pt_access_token p)"
      "db' = db\<lparr>db_public_tokens := update_where (\<lambda>p. pt_token p = tok) (\<lambda>p. p\<lparr>pt_exchanged := True\<rparr>) (db_public_tokens db)\<rparr>"
      by (simp_all add: exchange_public_token_def jget_def Let_def)
    with False Some show ?thesis by (intro that(2) [of p]) auto
  qed
qed

lemma marked_is_spent:
  "spent_public_token tok (db\<lparr>db_public_tokens := update_where (\<lambda>p. pt_token p = tok) (\<lambda>p. p\<lparr>pt_exchanged := True\<rparr>) (db_public_tokens db)\<rparr>)"
proof -
  let ?f = "\<lambda>p :: public_token_row. if pt_token p = tok then p\<lparr>pt_exchanged := True\<rparr> else p"
  have f: "pt_token (?f p) = tok \<longrightarrow> pt_exchanged (?f p)" for p by (cases "pt_token p = tok") simp_all
  have marked: "list_all (\<lambda>p. pt_token p = tok \<longrightarrow> pt_exchanged p) (map ?f ps)" for ps
    unfolding list.pred_map comp_def unfolding list_all_iff using f by blast
  have e: "db_public_tokens (db\<lparr>db_public_tokens := ps\<rparr>) = ps" for ps by simp
  from marked show ?thesis unfolding spent_public_token_def update_where_def list_all_iff e by this
qed

lemma spent_not_exchanged: "spent_public_token tok db \<Longrightarrow> tok \<notin> fst ` set (exchanges xs db)"
proof (induction xs arbitrary: db)
  case (Cons x xs)
  obtain now uid tok' where x: "x = (now, uid, tok')" by (cases x) auto
  obtain r db' where r: "exchange_public_token now uid [(''public_token'', JStr tok')] db = (r, db')" by fastforce
  from r show ?case
  proof (cases rule: exchange_cases)
    case (1 err)
    then show ?thesis using Cons x r by simp
  next
    case (2 p)
    have "tok' \<noteq> tok" using 2(2,4) Cons.prems by (auto simp: spent_public_token_def find_Some_iff)
    moreover have "spent_public_token tok db'" using Cons.prems by (auto simp: 2(6) spent_public_token_def update_where_def)
    ultimately show ?thesis using Cons.IH x r 2(1) by simp
  qed
qed simp

text \<open>However often and by whomever they are tried, each public token is exchanged at most once, only by its owner and not after
  its expiry.\<close>

theorem public_token_exchanged_once:
  "distinct (map fst (exchanges xs db)) \<and>
   (\<forall>(tok, uid, now) \<in> set (exchanges xs db). \<exists>p \<in> set (db_public_tokens db). pt_token p = tok \<and> pt_user_id p = uid \<and> now \<le> pt_expires_at p)"
proof (induction xs arbitrary: db)
  case (Cons x xs)
  obtain now uid tok where x: "x = (now, uid, tok)" by (cases x) auto
  obtain r db' where r: "exchange_public_token now uid [(''public_token'', JStr tok)] db = (r, db')" by fastforce
  from r show ?case
  proof (cases rule: exchange_cases)
    case (1 err)
    then show ?thesis using Cons x r by simp
  next
    case (2 p)
    have spent: "spent_public_token tok db'" unfolding 2(6) by (rule marked_is_spent)
    have p: "p \<in> set (db_public_tokens db)" "pt_token p = tok" using 2(2) by (auto simp: find_Some_iff)
    have earlier: "\<exists>p' \<in> set (db_public_tokens db). pt_token p' = t \<and> pt_user_id p' = u \<and> n \<le> pt_expires_at p'"
      if "\<exists>p' \<in> set (db_public_tokens db'). pt_token p' = t \<and> pt_user_id p' = u \<and> n \<le> pt_expires_at p'" for t u n
    proof -
      from that obtain q where q: "q \<in> set (db_public_tokens db')" "pt_token q = t" "pt_user_id q = u" "n \<le> pt_expires_at q" by blast
      from q(1) obtain q0 where "q0 \<in> set (db_public_tokens db)" "q = (if pt_token q0 = tok then q0\<lparr>pt_exchanged := True\<rparr> else q0)"
        unfolding 2(6) update_where_def by auto
      with q(2-4) show ?thesis by (intro bexI [of _ q0]) (simp_all split: if_splits)
    qed
    have run: "exchanges (x # xs) db = (tok, uid, now) # exchanges xs db'" using x r 2(1) by simp
    have "distinct (map fst (exchanges (x # xs) db))" using Cons.IH [of db'] spent_not_exchanged [OF spent, of xs] by (simp add: run)
    moreover have "\<exists>p \<in> set (db_public_tokens db). pt_token p = t \<and> pt_user_id p = u \<and> n \<le> pt_expires_at p"
      if "(t, u, n) \<in> set (exchanges (x # xs) db)" for t u n
    proof (cases "(t, u, n) = (tok, uid, now)")
      case True
      with p 2(3,5) show ?thesis by auto
    next
      case False
      with that have "(t, u, n) \<in> set (exchanges xs db')" by (auto simp: run)
      from bspec [OF conjunct2 [OF Cons.IH [of db']] this] have "\<exists>p' \<in> set (db_public_tokens db'). pt_token p' = t \<and> pt_user_id p' = u \<and> n \<le> pt_expires_at p'"
        by simp
      then show ?thesis by (rule earlier)
    qed
    ultimately show ?thesis by blast
  qed
qed simp

end
