(* ===== verification/Job_Dispatch.thy ===== *)
theory Job_Dispatch imports Access_Jobs begin

text \<open>
  \<^verbatim>\<open>src/access_jobs.py\<close>, detached execution: encrypting and storing the dispatch payload, the worker that
  processes one message of the stream (\<open>process_dispatched_access_job\<close>), the observer's classification of
  a finished row, marking rows from outside, shutdown, starting and running jobs, and the API payload of
  a job. The message a worker claims is an argument (the Redis stream is outside the repository); the
  payloads are kept in a Redis of their own, the acknowledged messages are listed.
\<close>

section \<open>Dispatch payloads\<close>

record dispatch_payload =
  dp_job_id :: string
  dp_executor :: string
  dp_executor_kwargs :: jdict
  dp_queued_at :: time

definition dispatch_payload_key :: "string \<Rightarrow> string" where
  "dispatch_payload_key job_id = ''plaidify:access_job_payload:'' @ job_id"

text \<open>\<open>encrypt_credential\<close> and \<open>decrypt_credential\<close> are arguments. A field that is missing or \<open>None\<close> is dropped.\<close>

definition encrypt_field :: "(json \<Rightarrow> json) \<Rightarrow> string \<Rightarrow> jdict \<Rightarrow> jdict" where
  "encrypt_field enc name kw =
     (let value = jget kw name; kw = AList.delete name kw
      in if value \<noteq> JNull then AList.update (name @ ''_encrypted'') (enc value) kw else kw)"

definition encrypt_dispatch_kwargs :: "(json \<Rightarrow> json) \<Rightarrow> jdict \<Rightarrow> jdict" where
  "encrypt_dispatch_kwargs enc kw = encrypt_field enc ''password'' (encrypt_field enc ''username'' kw)"

text \<open>\<open>None\<close>: decryption raised.\<close>

definition decrypt_field :: "(json \<Rightarrow> json option) \<Rightarrow> string \<Rightarrow> jdict \<Rightarrow> jdict option" where
  "decrypt_field dec name kw =
     (let value = jget kw (name @ ''_encrypted''); kw = AList.delete (name @ ''_encrypted'') kw
      in if value \<noteq> JNull then map_option (\<lambda>v. AList.update name v kw) (dec value) else Some kw)"

definition decrypt_dispatch_kwargs :: "(json \<Rightarrow> json option) \<Rightarrow> jdict \<Rightarrow> jdict option" where
  "decrypt_dispatch_kwargs dec kw = Option.bind (decrypt_field dec ''username'' kw) (decrypt_field dec ''password'')"

lemma dispatch_kwargs_roundtrip:
  assumes "\<And>v. dec (enc v) = Some v" and "\<And>v. v \<noteq> JNull \<Longrightarrow> enc v \<noteq> JNull"
    and "map_of kw ''username_encrypted'' = None" "map_of kw ''password_encrypted'' = None"
    and "map_of kw ''username'' \<noteq> Some JNull" "map_of kw ''password'' \<noteq> Some JNull"
  shows "\<exists>kw'. decrypt_dispatch_kwargs dec (encrypt_dispatch_kwargs enc kw) = Some kw' \<and> map_of kw' = map_of kw"
  using assms
  by (cases "map_of kw ''username''"; cases "map_of kw ''password''")
    (auto simp: decrypt_dispatch_kwargs_def encrypt_dispatch_kwargs_def decrypt_field_def encrypt_field_def
      jget_def Let_def fun_eq_iff)

text \<open>What the worker passes to the executor is what the API put into the payload: the credentials survive
  the encryption for the queue, every other argument is untouched, and the stored payload itself holds no
  plaintext credential.\<close>

theorem dispatch_credentials_roundtrip:
  assumes "\<And>v. dec (enc v) = Some v" and "\<And>v. v \<noteq> JNull \<Longrightarrow> enc v \<noteq> JNull"
    and "map_of kw ''username_encrypted'' = None" and "map_of kw ''password_encrypted'' = None"
    and "map_of kw ''username'' \<noteq> Some JNull" and "map_of kw ''password'' \<noteq> Some JNull"
  shows "(\<exists>kw'. decrypt_dispatch_kwargs dec (encrypt_dispatch_kwargs enc kw) = Some kw' \<and> map_of kw' = map_of kw) \<and>
    map_of (encrypt_dispatch_kwargs enc kw) ''username'' = None \<and>
    map_of (encrypt_dispatch_kwargs enc kw) ''password'' = None"
  using dispatch_kwargs_roundtrip [OF assms]
  by (simp add: encrypt_dispatch_kwargs_def encrypt_field_def Let_def)

definition sample_enc :: "json \<Rightarrow> json" where
  "sample_enc v = JList [v]"

fun sample_dec :: "json \<Rightarrow> json option" where
  "sample_dec (JList [v]) = Some v"
| "sample_dec _ = None"

theorem dispatch_credentials_roundtrip_witness:
  "let kw = [(''site'', JStr ''bank''), (''username'', JStr ''u''), (''password'', JStr ''p'')]
   in (\<exists>kw'. decrypt_dispatch_kwargs sample_dec (encrypt_dispatch_kwargs sample_enc kw) = Some kw' \<and> map_of kw' = map_of kw) \<and>
      map_of (encrypt_dispatch_kwargs sample_enc kw) ''username'' = None \<and>
      map_of (encrypt_dispatch_kwargs sample_enc kw) ''password'' = None"
  unfolding Let_def by (rule dispatch_credentials_roundtrip) (simp_all add: sample_enc_def)

section \<open>Rows marked from outside\<close>

definition mark_job :: "job_status \<Rightarrow> time \<Rightarrow> string \<Rightarrow> bool \<Rightarrow> string \<Rightarrow> (string, access_job) dict \<Rightarrow> (string, access_job) dict" where
  "mark_job st now message commit_ok job_id jobs =
     (case map_of jobs job_id of
        None \<Rightarrow> jobs
      | Some job \<Rightarrow>
          if aj_status job \<noteq> Job_pending \<and> aj_status job \<noteq> Job_running then jobs
          else snd (persist_job commit_ok
            (apply_job_state job ((patch st)\<lparr>jp_completed_at := Some now, jp_error_message := Some message\<rparr>)) jobs))"

definition mark_job_failed :: "time \<Rightarrow> string \<Rightarrow> bool \<Rightarrow> string \<Rightarrow> (string, access_job) dict \<Rightarrow> (string, access_job) dict" where
  "mark_job_failed now message commit_ok job_id jobs = mark_job Job_failed now message commit_ok job_id jobs"

definition mark_job_cancelled :: "time \<Rightarrow> string \<Rightarrow> bool \<Rightarrow> string \<Rightarrow> (string, access_job) dict \<Rightarrow> (string, access_job) dict" where
  "mark_job_cancelled now message commit_ok job_id jobs = mark_job Job_cancelled now message commit_ok job_id jobs"

definition jobs_keyed :: "(string, access_job) dict \<Rightarrow> bool" where
  "jobs_keyed jobs \<longleftrightarrow> (\<forall>k j. map_of jobs k = Some j \<longrightarrow> aj_id j = k)"

lemma mark_job_terminal:
  "map_of jobs k = Some j \<Longrightarrow> terminal (aj_status j) \<Longrightarrow> jobs_keyed jobs \<Longrightarrow>
   map_of (mark_job st now msg ok job_id jobs) k = Some j"
  by (auto simp: mark_job_def persist_job_def terminal_def jobs_keyed_def split: option.splits)

lemma mark_job_keyed: "jobs_keyed jobs \<Longrightarrow> jobs_keyed (mark_job st now msg ok job_id jobs)"
  by (auto simp: mark_job_def persist_job_def jobs_keyed_def split: option.splits)

lemma mark_job_row:
  "map_of jobs job_id = Some j \<Longrightarrow> jobs_keyed jobs \<Longrightarrow> \<not> terminal (aj_status j) \<Longrightarrow>
   \<exists>j'. map_of (mark_job st now msg True job_id jobs) = (map_of jobs)(job_id \<mapsto> j') \<and> aj_status j' = st"
  by (auto simp: mark_job_def persist_job_def terminal_def jobs_keyed_def patch_def)

section \<open>The observer\<close>

text \<open>One look of \<open>_wait_for_terminal_job_result\<close> at the row: \<open>None\<close> while it goes on waiting.\<close>

definition job_result_or_wait :: "string \<Rightarrow> access_job option \<Rightarrow> (exc + access_job \<times> json) option" where
  "job_result_or_wait job_id row =
     (case row of
        None \<Rightarrow> Some (Inl (OtherExc ''RuntimeError'' (''Access job not found: '' @ job_id)))
      | Some job \<Rightarrow>
          (let msg = (\<lambda>default. case aj_error_message job of Some m \<Rightarrow> if m = '''' then default else m | None \<Rightarrow> default)
           in case aj_status job of
             Job_completed \<Rightarrow>
               Some (Inr (job, case deserialize_metadata (aj_result_json job) of
                 Some v \<Rightarrow> if truthy v then v else JObj [(''status'', JStr ''completed'')]
               | None \<Rightarrow> JObj [(''status'', JStr ''completed'')]))
           | Job_mfa_required \<Rightarrow>
               Some (Inl (Plaidify (MFARequiredError (aj_site job)
                 (case deserialize_metadata (aj_metadata_json job) of
                    Some (JObj md) \<Rightarrow> (case map_of md ''mfa_type'' of Some (JStr t) \<Rightarrow> t | _ \<Rightarrow> ''unknown'')
                  | _ \<Rightarrow> ''unknown'')
                 (case aj_session_id job of Some s \<Rightarrow> s | None \<Rightarrow> ''''))))
           | Job_blocked \<Rightarrow> Some (Inl (Plaidify (PlaidifyError (msg (''Access job blocked: '' @ aj_id job)) 409)))
           | Job_failed \<Rightarrow> Some (Inl (Plaidify (PlaidifyError (msg (''Access job failed: '' @ aj_id job)) 500)))
           | Job_cancelled \<Rightarrow> Some (Inl (Plaidify (PlaidifyError (msg (''Access job failed: '' @ aj_id job)) 500)))
           | _ \<Rightarrow> None))"

fun wait_for_terminal :: "string \<Rightarrow> access_job option list \<Rightarrow> (exc + access_job \<times> json) option" where
  "wait_for_terminal job_id [] = None"
| "wait_for_terminal job_id (row # rows) =
     (case job_result_or_wait job_id row of Some r \<Rightarrow> Some r | None \<Rightarrow> wait_for_terminal job_id rows)"

lemma job_result_iff_terminal:
  "job_result_or_wait job_id (Some job) = None \<longleftrightarrow> \<not> terminal (aj_status job)"
  by (auto simp: job_result_or_wait_def terminal_def Let_def split: job_status.splits)

section \<open>Executing a stored job\<close>

definition execute_background_job ::
  "('l, 'r) aj_env \<Rightarrow> (jdict \<Rightarrow> 'r mfa_manager \<Rightarrow> (exc, jdict) outcome \<times> 'r mfa_manager) \<Rightarrow>
   string \<Rightarrow> jdict \<Rightarrow> ('l, 'r) aj_world \<Rightarrow> (job_exc, access_job \<times> jdict) outcome \<times> ('l, 'r) aj_world" where
  "execute_background_job env executor job_id executor_kwargs w =
     (case map_of (aw_jobs w) job_id of
        None \<Rightarrow> (Raised (OtherExc ''RuntimeError'' (''Access job not found: '' @ job_id), None), w)
      | Some job \<Rightarrow>
          (let metadata = (case deserialize_metadata (aj_metadata_json job) of Some (JObj d) \<Rightarrow> Some d | _ \<Rightarrow> None)
           in execute_existing_job env executor job executor_kwargs metadata w))"

definition resolve_executor :: "(string, 'x) dict \<Rightarrow> 'x \<Rightarrow> string \<Rightarrow> string + 'x" where
  "resolve_executor overrides connect_to_site name =
     (case map_of overrides name of
        Some x \<Rightarrow> Inr x
      | None \<Rightarrow> if name = ''connect_to_site'' then Inr connect_to_site
          else Inl (''Unsupported dispatched executor: '' @ name))"

section \<open>The worker\<close>

record ('l, 'r, 'p) dispatch_world =
  dw_world :: "('l, 'r) aj_world"
  dw_payloads :: 'p
  dw_acked :: "string list"

text \<open>The text of the exception the worker stores: \<open>str(exc)\<close>.\<close>

fun exc_text :: "exc \<Rightarrow> string" where
  "exc_text (Plaidify e) = err_message e"
| "exc_text (OtherExc name text) = text"

text \<open>The body of its \<^verbatim>\<open>try\<close>: resolve the executor, decrypt the arguments, run the job.\<close>

definition run_dispatched ::
  "('l, 'r) aj_env \<Rightarrow> (json \<Rightarrow> json option) \<Rightarrow>
   (string, jdict \<Rightarrow> 'r mfa_manager \<Rightarrow> (exc, jdict) outcome \<times> 'r mfa_manager) dict \<Rightarrow>
   (jdict \<Rightarrow> 'r mfa_manager \<Rightarrow> (exc, jdict) outcome \<times> 'r mfa_manager) \<Rightarrow>
   string \<Rightarrow> dispatch_payload \<Rightarrow> ('l, 'r) aj_world \<Rightarrow>
   (job_exc, access_job \<times> jdict) outcome \<times> ('l, 'r) aj_world" where
  "run_dispatched env dec overrides connect_to_site job_id payload w =
     (case resolve_executor overrides connect_to_site (dp_executor payload) of
        Inl msg \<Rightarrow> (Raised (OtherExc ''RuntimeError'' msg, None), w)
      | Inr executor \<Rightarrow>
          (case decrypt_dispatch_kwargs dec (dp_executor_kwargs payload) of
             None \<Rightarrow> (Raised (OtherExc ''InvalidToken'' '''', None), w)
           | Some kw \<Rightarrow> execute_background_job env executor job_id kw w))"

text \<open>Its \<^verbatim>\<open>except\<close> clauses: a second factor is only logged, any other exception marks the job failed, a
  cancellation is not caught.\<close>

definition settle_exception ::
  "('l, 'r) aj_env \<Rightarrow> string \<Rightarrow> (job_exc, access_job \<times> jdict) outcome \<times> ('l, 'r) aj_world \<Rightarrow>
   (exc, bool) outcome \<times> ('l, 'r) aj_world" where
  "settle_exception env job_id run =
     (case run of
        (Returned r, w) \<Rightarrow> (Returned True, w)
      | (Cancelled, w) \<Rightarrow> (Cancelled, w)
      | (Raised (Plaidify (MFARequiredError site ty sid), j), w) \<Rightarrow> (Returned True, w)
      | (Raised (e, j), w) \<Rightarrow> (Returned True, w\<lparr>aw_jobs :=
          mark_job_failed (ae_ended env) (exc_text e) (ae_commit_end env) job_id (aw_jobs w)\<rparr>))"

definition ack_message :: "string \<Rightarrow> ('l, 'r, 'p) dispatch_world \<Rightarrow> ('l, 'r, 'p) dispatch_world" where
  "ack_message message_id d = d\<lparr>dw_acked := dw_acked d @ [message_id]\<rparr>"

text \<open>One call of \<open>process_dispatched_access_job\<close>. \<open>claimed\<close> is the message the worker obtained, if any, with
  its \<open>job_id\<close> field. A cancellation is re-raised (\<open>Cancelled\<close>) after the \<^verbatim>\<open>finally\<close> clause.\<close>

definition process_dispatched_access_job ::
  "('l, 'r) aj_env \<Rightarrow> ('p, dispatch_payload) redis \<Rightarrow> (json \<Rightarrow> json option) \<Rightarrow>
   (string, jdict \<Rightarrow> 'r mfa_manager \<Rightarrow> (exc, jdict) outcome \<times> 'r mfa_manager) dict \<Rightarrow>
   (jdict \<Rightarrow> 'r mfa_manager \<Rightarrow> (exc, jdict) outcome \<times> 'r mfa_manager) \<Rightarrow>
   (string \<times> string option) option \<Rightarrow> ('l, 'r, 'p) dispatch_world \<Rightarrow>
   (exc, bool) outcome \<times> ('l, 'r, 'p) dispatch_world" where
  "process_dispatched_access_job env rd dec overrides connect_to_site claimed d =
     (case claimed of
        None \<Rightarrow> (Returned False, d)
      | Some (message_id, job_id_field) \<Rightarrow>
          (let job_id = (case job_id_field of Some i \<Rightarrow> i | None \<Rightarrow> '''')
           in if job_id = '''' then (Returned True, ack_message message_id d)
              else
              (case r_get rd (dw_payloads d) (ae_started env) (dispatch_payload_key job_id) of
                 None \<Rightarrow>
                   (let w = dw_world d;
                        jobs = mark_job_failed (ae_ended env) ''Access job dispatch payload expired before execution.''
                          (ae_commit_end env) job_id (aw_jobs w)
                    in (Returned True, ack_message message_id (d\<lparr>dw_world := w\<lparr>aw_jobs := jobs\<rparr>\<rparr>)))
               | Some payload \<Rightarrow>
                   (let (ret, w) = settle_exception env job_id
                          (run_dispatched env dec overrides connect_to_site job_id payload (dw_world d))
                    in (ret, ack_message message_id (d\<lparr>dw_world := w,
                          dw_payloads := r_delete rd (dw_payloads d) (dispatch_payload_key job_id)\<rparr>))))))"

lemma terminal_failed: "terminal Job_failed" "terminal Job_cancelled"
  by (simp_all add: terminal_def)

lemma mark_job_settles:
  assumes "map_of jobs job_id = Some j" "aj_id j = job_id" "terminal st"
  shows "\<exists>j'. map_of (mark_job st now msg True job_id jobs) job_id = Some j' \<and> terminal (aj_status j')"
  using assms by (auto simp: mark_job_def persist_job_def terminal_def patch_def)

lemma mark_job_terminal_row:
  "map_of jobs k = Some j \<Longrightarrow> terminal (aj_status j) \<Longrightarrow> map_of (mark_job st now msg ok k jobs) k = Some j"
  by (auto simp: mark_job_def terminal_def)

lemma background_settles:
  assumes "ae_commit_start env" "ae_commit_end env" "map_of (aw_jobs w) job_id = Some job" "aj_id job = job_id"
  shows "\<exists>j'. map_of (aw_jobs (snd (execute_background_job env executor job_id kw w))) job_id = Some j' \<and> terminal (aj_status j')"
  using assms(3,4) execute_settles [OF assms(1,2)]
  by (simp add: execute_background_job_def Let_def) (metis fun_upd_same)

lemma settle_exception_row:
  assumes "\<exists>j. map_of (aw_jobs w) job_id = Some j \<and> (terminal (aj_status j) \<or> aj_id j = job_id \<and> (\<exists>n t k. res = Raised (OtherExc n t, k)))"
    and "ae_commit_end env"
  shows "\<exists>j. map_of (aw_jobs (snd (settle_exception env job_id (res, w)))) job_id = Some j \<and> terminal (aj_status j)"
proof -
  obtain j where j: "map_of (aw_jobs w) job_id = Some j"
    "terminal (aj_status j) \<or> aj_id j = job_id \<and> (\<exists>n t k. res = Raised (OtherExc n t, k))"
    using assms(1) by blast
  have mark: "\<exists>j'. map_of (mark_job_failed (ae_ended env) msg (ae_commit_end env) job_id (aw_jobs w)) job_id = Some j' \<and>
      terminal (aj_status j')" for msg
  proof (cases "terminal (aj_status j)")
    case True
    with mark_job_terminal_row [OF j(1)] show ?thesis by (simp add: mark_job_failed_def)
  next
    case False
    with j(2) have "aj_id j = job_id" by blast
    from mark_job_settles [OF j(1) this terminal_failed(1)] assms(2) show ?thesis
      by (simp add: mark_job_failed_def)
  qed
  show ?thesis
  proof (cases "\<exists>e k. res = Raised (e, k) \<and> (\<forall>s t i. e \<noteq> Plaidify (MFARequiredError s t i))")
    case True
    then obtain e k where "res = Raised (e, k)" "\<forall>s t i. e \<noteq> Plaidify (MFARequiredError s t i)" by blast
    then have "settle_exception env job_id (res, w) = (Returned True, w\<lparr>aw_jobs :=
        mark_job_failed (ae_ended env) (exc_text e) (ae_commit_end env) job_id (aw_jobs w)\<rparr>)"
      by (auto simp: settle_exception_def split: exc.split plaidify_error.split)
    with mark show ?thesis by simp
  next
    case False
    then have "aw_jobs (snd (settle_exception env job_id (res, w))) = aw_jobs w"
      by (auto simp: settle_exception_def split: outcome.split prod.split exc.split plaidify_error.split)
    with j False show ?thesis by auto
  qed
qed

lemma run_dispatched_cases:
  "(\<exists>x kw. run_dispatched env dec overrides connect job_id payload w = execute_background_job env x job_id kw w) \<or>
   (\<exists>n t k. run_dispatched env dec overrides connect job_id payload w = (Raised (OtherExc n t, k), w))"
  by (simp add: run_dispatched_def split: sum.split option.split) blast

lemma settle_run_dispatched:
  assumes "ae_commit_start env" "ae_commit_end env" "map_of (aw_jobs w) job_id = Some job" "aj_id job = job_id"
  shows "\<exists>j. map_of (aw_jobs (snd (settle_exception env job_id
    (run_dispatched env dec overrides connect job_id payload w)))) job_id = Some j \<and> terminal (aj_status j)"
proof -
  obtain res w' where r: "run_dispatched env dec overrides connect job_id payload w = (res, w')" by fastforce
  have "\<exists>j. map_of (aw_jobs w') job_id = Some j \<and>
      (terminal (aj_status j) \<or> aj_id j = job_id \<and> (\<exists>n t k. res = Raised (OtherExc n t, k)))"
  proof (cases "\<exists>x kw. run_dispatched env dec overrides connect job_id payload w = execute_background_job env x job_id kw w")
    case True
    then show ?thesis using background_settles [OF assms] r by (metis snd_conv)
  next
    case False
    then have "w' = w \<and> (\<exists>n t k. res = Raised (OtherExc n t, k))"
      using r run_dispatched_cases [of env dec overrides connect job_id payload w] by auto
    with assms(3,4) show ?thesis by simp
  qed
  with r assms(2) settle_exception_row show ?thesis by simp
qed



end
