(* ===== verification/Job_API.thy ===== *)
theory Job_API imports Job_Dispatch begin

text \<open>
  The callers' side of \<^verbatim>\<open>src/access_jobs.py\<close> and the status endpoints of \<^verbatim>\<open>src/routers/access_jobs.py\<close>: a job
  is created and run in the request (\<open>run_access_job\<close>), detached in a task, or queued for a worker
  (\<open>start_access_job\<close>); its row is turned into a response, overlaid with a live MFA session while it
  runs; shutdown cancels the tasks.
\<close>

section \<open>Queueing\<close>

record ('l, 'r, 'p) queue_world =
  qw_dispatch :: "('l, 'r, 'p) dispatch_world"
  qw_stream :: "string list"
  qw_tasks :: "(string, bool) dict"

definition store_dispatch_payload ::
  "('p, dispatch_payload) redis \<Rightarrow> (json \<Rightarrow> json) \<Rightarrow> int \<Rightarrow> time \<Rightarrow> string \<Rightarrow> string \<Rightarrow> jdict \<Rightarrow> 'p \<Rightarrow> 'p" where
  "store_dispatch_payload rd enc ttl now job_id executor_name kw r =
     r_set rd r now (dispatch_payload_key job_id)
       \<lparr>dp_job_id = job_id, dp_executor = executor_name, dp_executor_kwargs = encrypt_dispatch_kwargs enc kw,
        dp_queued_at = now\<rparr> ttl"

definition queue_dispatched_access_job ::
  "('p, dispatch_payload) redis \<Rightarrow> (json \<Rightarrow> json) \<Rightarrow> int \<Rightarrow> time \<Rightarrow> access_job \<Rightarrow> string \<Rightarrow> jdict \<Rightarrow>
   ('l, 'r, 'p) queue_world \<Rightarrow> ('l, 'r, 'p) queue_world" where
  "queue_dispatched_access_job rd enc ttl now job executor_name kw q =
     (let d = qw_dispatch q
      in q\<lparr>qw_dispatch := d\<lparr>dw_payloads := store_dispatch_payload rd enc ttl now (aj_id job) executor_name kw (dw_payloads d)\<rparr>,
           qw_stream := qw_stream q @ [aj_id job]\<rparr>)"

text \<open>The tasks of the process: \<open>qw_tasks\<close> maps a job to whether its task only observes (\<open>True\<close>) or executes.
  The arguments of the two entry points, as the caller passes them.\<close>

record job_request =
  jr_site :: string
  jr_job_type :: string
  jr_user_id :: "int option"
  jr_principal_hint :: "string option"
  jr_metadata :: "jdict option"
  jr_kwargs :: jdict

definition kw_session :: "jdict \<Rightarrow> string option" where
  "kw_session kw = (case map_of kw ''session_id'' of Some (JStr s) \<Rightarrow> if s = '''' then None else Some s | _ \<Rightarrow> None)"

definition set_jobs :: "(string, access_job) dict \<Rightarrow> ('l, 'r, 'p) queue_world \<Rightarrow> ('l, 'r, 'p) queue_world" where
  "set_jobs jobs q = q\<lparr>qw_dispatch := (qw_dispatch q)\<lparr>dw_world := (dw_world (qw_dispatch q))\<lparr>aw_jobs := jobs\<rparr>\<rparr>\<rparr>"

text \<open>\<open>start_access_job\<close>: \<open>None\<close> when the row cannot be committed (the error is raised to the caller).\<close>

definition start_access_job ::
  "('p, dispatch_payload) redis \<Rightarrow> (json \<Rightarrow> json) \<Rightarrow> int \<Rightarrow> (string \<Rightarrow> string) \<Rightarrow> string \<Rightarrow> string \<Rightarrow> time \<Rightarrow> bool \<Rightarrow> bool \<Rightarrow>
   string option \<Rightarrow> job_request \<Rightarrow> ('l, 'r, 'p) queue_world \<Rightarrow> (access_job \<times> ('l, 'r, 'p) queue_world) option" where
  "start_access_job rd enc ttl sha new_job_id new_session_id now commit_ok dispatch_enabled executor_name req q =
     (let job_session_id = (case kw_session (jr_kwargs req) of Some s \<Rightarrow> s | None \<Rightarrow> new_session_id)
      in case create_access_job sha new_job_id new_session_id now commit_ok (jr_site req) (jr_job_type req)
                (jr_user_id req) (jr_principal_hint req) (Some job_session_id) (jr_metadata req)
                (aw_jobs (dw_world (qw_dispatch q))) of
           None \<Rightarrow> None
         | Some (job, jobs) \<Rightarrow>
             (let q = set_jobs jobs q;
                  kw = set_default_session (aj_session_id job) (jr_kwargs req)
              in if dispatch_enabled \<and> nonempty executor_name
                 then (let q = queue_dispatched_access_job rd enc ttl now job (the executor_name) kw q
                       in Some (job, q\<lparr>qw_tasks := AList.update (aj_id job) True (qw_tasks q)\<rparr>))
                 else Some (job, q\<lparr>qw_tasks := AList.update (aj_id job) False (qw_tasks q)\<rparr>)))"

definition run_access_job ::
  "('l, 'r) aj_env \<Rightarrow> string \<Rightarrow> string \<Rightarrow> time \<Rightarrow> bool \<Rightarrow>
   (jdict \<Rightarrow> 'r mfa_manager \<Rightarrow> (exc, jdict) outcome \<times> 'r mfa_manager) \<Rightarrow> job_request \<Rightarrow> ('l, 'r) aj_world \<Rightarrow>
   ((job_exc, access_job \<times> jdict) outcome \<times> ('l, 'r) aj_world) option" where
  "run_access_job env new_job_id new_session_id now commit_ok executor req w =
     (case create_access_job (ae_sha env) new_job_id new_session_id now commit_ok (jr_site req) (jr_job_type req)
             (jr_user_id req) (jr_principal_hint req) (kw_session (jr_kwargs req)) (jr_metadata req) (aw_jobs w) of
        None \<Rightarrow> None
      | Some (job, jobs) \<Rightarrow>
          Some (execute_existing_job env executor job (jr_kwargs req) (jr_metadata req) (w\<lparr>aw_jobs := jobs\<rparr>)))"

section \<open>Shutdown\<close>

text \<open>How the wait for a cancelled task ends: it was cancelled, it raised, it returned, or the wait timed out.\<close>

datatype task_end = TaskCancelled | TaskFailed | TaskDone | TaskTimeout

fun shutdown_access_jobs ::
  "time \<Rightarrow> bool \<Rightarrow> (string \<times> task_end) list \<Rightarrow> (string, access_job) dict \<Rightarrow> (string, access_job) dict" where
  "shutdown_access_jobs now commit_ok [] jobs = jobs"
| "shutdown_access_jobs now commit_ok ((job_id, e) # tasks) jobs =
     shutdown_access_jobs now commit_ok tasks
       (if e = TaskTimeout then mark_job_cancelled now ''Access job cancelled before completion.'' commit_ok job_id jobs
        else jobs)"

section \<open>Reading a job\<close>

text \<open>\<open>wait_for_mfa_session\<close>: the loop over its polls, each the clock of the loop's test, the clock of the
  lookup and the state of the manager then.\<close>

fun wait_for_mfa_session ::
  "('r, mfa_payload) redis \<Rightarrow> string \<Rightarrow> time \<Rightarrow> (time \<times> time \<times> 'r mfa_manager) list \<Rightarrow> jdict option option" where
  "wait_for_mfa_session rd sid deadline [] = None"
| "wait_for_mfa_session rd sid deadline ((now, wall, m) # polls) =
     (if \<not> now < deadline then Some None
      else case fst (mfa_get_session rd wall sid m) of
             Some s \<Rightarrow> Some (Some [(''session_id'', JStr (ms_session_id s)), (''site'', JStr (ms_site s)),
               (''mfa_type'', JStr (ms_mfa_type s)), (''metadata'', JObj (ms_metadata s))])
           | None \<Rightarrow> wait_for_mfa_session rd sid deadline polls)"

definition json_opt :: "json option \<Rightarrow> json" where
  "json_opt v = (case v of None \<Rightarrow> JNull | Some j \<Rightarrow> j)"

definition iso_opt :: "(time \<Rightarrow> string) \<Rightarrow> time option \<Rightarrow> json" where
  "iso_opt isoformat t = (case t of None \<Rightarrow> JNull | Some t \<Rightarrow> JStr (isoformat t))"

definition serialize_access_job :: "(time \<Rightarrow> string) \<Rightarrow> access_job \<Rightarrow> jdict" where
  "serialize_access_job isoformat job =
     (let metadata = deserialize_metadata (aj_metadata_json job);
          result = deserialize_metadata (aj_result_json job);
          mfa_type = (case metadata of Some (JObj md) \<Rightarrow> jget md ''mfa_type'' | _ \<Rightarrow> JNull)
      in [(''job_id'', JStr (aj_id job)), (''site'', JStr (aj_site job)), (''job_type'', JStr (aj_job_type job)),
          (''status'', JStr (status_text (aj_status job))), (''session_id'', jopt (aj_session_id job)),
          (''mfa_type'', mfa_type), (''error_message'', jopt (aj_error_message job)),
          (''metadata'', json_opt metadata), (''result'', json_opt result),
          (''created_at'', JStr (isoformat (aj_created_at job))), (''started_at'', iso_opt isoformat (aj_started_at job)),
          (''completed_at'', iso_opt isoformat (aj_completed_at job))])"

definition serialize_access_job_runtime ::
  "('r, mfa_payload) redis \<Rightarrow> time \<Rightarrow> (time \<Rightarrow> string) \<Rightarrow> 'r mfa_manager \<Rightarrow> access_job \<Rightarrow> jdict \<times> 'r mfa_manager" where
  "serialize_access_job_runtime rd now isoformat m job =
     (let payload = serialize_access_job isoformat job
      in if aj_status job \<noteq> Job_running \<or> \<not> nonempty (aj_session_id job) then (payload, m)
         else case mfa_get_session rd now (the (aj_session_id job)) m of
           (None, m') \<Rightarrow> (payload, m')
         | (Some s, m') \<Rightarrow>
             (let base = (case jget payload ''metadata'' of JObj md \<Rightarrow> dict_update [] md | _ \<Rightarrow> []);
                  merged = dict_update base (ms_metadata s);
                  payload = AList.update ''status'' (JStr ''mfa_required'') payload;
                  payload = AList.update ''mfa_type'' (JStr (ms_mfa_type s)) payload
              in (AList.update ''metadata'' (if merged = [] then JNull else JObj merged) payload, m')))"

section \<open>The status endpoints\<close>

text \<open>\<open>get_access_job\<close>: \<open>auth\<close> is \<open>None\<close> when the request carries no credentials, else what
  \<open>get_current_user_or_api_key\<close> returned or raised.\<close>

definition get_access_job ::
  "('r, mfa_payload) redis \<Rightarrow> time \<Rightarrow> (time \<Rightarrow> string) \<Rightarrow> (http_error + int) option \<Rightarrow> string \<Rightarrow>
   (string, access_job) dict \<Rightarrow> 'r mfa_manager \<Rightarrow> (http_error + jdict) \<times> 'r mfa_manager" where
  "get_access_job rd now isoformat auth job_id jobs m =
     (case map_of jobs job_id of
        None \<Rightarrow> (Inl (HTTPException 404 ''Access job not found.''), m)
      | Some job \<Rightarrow>
          (let answer = (case serialize_access_job_runtime rd now isoformat m job of (p, m') \<Rightarrow> (Inr p, m'))
           in case aj_user_id job of
                None \<Rightarrow> answer
              | Some owner \<Rightarrow>
                  (case auth of
                     None \<Rightarrow> (Inl (HTTPException 401 ''Authentication required for this access job.''), m)
                   | Some (Inl e) \<Rightarrow> (Inl e, m)
                   | Some (Inr user) \<Rightarrow>
                       if user \<noteq> owner then (Inl (HTTPException 404 ''Access job not found.''), m) else answer)))"

definition job_filter :: "int \<Rightarrow> string option \<Rightarrow> string option \<Rightarrow> string option \<Rightarrow> access_job \<Rightarrow> bool" where
  "job_filter user site status job_type job \<longleftrightarrow>
     aj_user_id job = Some user \<and>
     (nonempty site \<longrightarrow> Some (aj_site job) = site) \<and>
     (nonempty status \<longrightarrow> Some (status_text (aj_status job)) = status) \<and>
     (nonempty job_type \<longrightarrow> Some (aj_job_type job) = job_type)"

fun serialize_runtime_all ::
  "('r, mfa_payload) redis \<Rightarrow> time \<Rightarrow> (time \<Rightarrow> string) \<Rightarrow> 'r mfa_manager \<Rightarrow> access_job list \<Rightarrow> jdict list \<times> 'r mfa_manager" where
  "serialize_runtime_all rd now isoformat m [] = ([], m)"
| "serialize_runtime_all rd now isoformat m (job # jobs) =
     (let (p, m) = serialize_access_job_runtime rd now isoformat m job;
          (ps, m) = serialize_runtime_all rd now isoformat m jobs
      in (p # ps, m))"

text \<open>Newest first; \<open>sort_key\<close> is stable, rows of one instant stay in table order.\<close>

definition list_access_jobs ::
  "('r, mfa_payload) redis \<Rightarrow> time \<Rightarrow> (time \<Rightarrow> string) \<Rightarrow> int \<Rightarrow> int \<Rightarrow> string option \<Rightarrow> string option \<Rightarrow> string option \<Rightarrow>
   access_job list \<Rightarrow> 'r mfa_manager \<Rightarrow> jdict list \<times> 'r mfa_manager" where
  "list_access_jobs rd now isoformat user limit site status job_type rows m =
     (let page_size = max 1 (min limit 100);
          jobs = take (nat page_size) (sort_key (\<lambda>j. - aj_created_at j) (filter (job_filter user site status job_type) rows))
      in serialize_runtime_all rd now isoformat m jobs)"


section \<open>What the callers can rely on\<close>

lemma shutdown_keeps_settled_rows:
  "map_of jobs k = Some j \<Longrightarrow> terminal (aj_status j) \<Longrightarrow> jobs_keyed jobs \<Longrightarrow>
   map_of (shutdown_access_jobs now ok tasks jobs) k = Some j"
proof (induction now ok tasks jobs rule: shutdown_access_jobs.induct)
  case (2 now ok job_id e tasks jobs)
  then show ?case by (simp add: mark_job_cancelled_def mark_job_terminal mark_job_keyed)
qed simp

lemma serialize_runtime_all_length [simp]:
  "length (fst (serialize_runtime_all rd now fmt m jobs)) = length jobs"
  by (induction jobs arbitrary: m) (simp_all add: split_beta)

lemma list_access_jobs_bounded:
  "length (fst (list_access_jobs rd now fmt user limit site status job_type rows m)) \<le> 100"
  by (simp add: list_access_jobs_def Let_def)

lemma runtime_job_id:
  "map_of (fst (serialize_access_job_runtime rd now fmt m job)) ''job_id'' = Some (JStr (aj_id job))"
  by (auto simp: serialize_access_job_runtime_def serialize_access_job_def Let_def split: prod.split option.split)

lemma create_access_job_row:
  assumes "create_access_job sha new_job_id new_session_id now ok site ty user hint sid md jobs = Some (job, jobs')"
  shows "jobs' = AList.update new_job_id job jobs" "aj_id job = new_job_id" "aj_status job = Job_pending"
    "aj_lock_scope job = build_lock_scope sha site user hint" "aj_user_id job = user"
  using assms by (auto simp: create_access_job_def Let_def split: if_splits)

lemma create_access_job_session:
  "create_access_job sha new_job_id new_session_id now ok site ty user hint (Some s) md jobs = Some (job, jobs') \<Longrightarrow>
   s \<noteq> '''' \<Longrightarrow> aj_session_id job = Some s"
  by (auto simp: create_access_job_def Let_def split: if_splits)

lemma create_access_job_commits:
  "create_access_job sha new_job_id new_session_id now True site ty user hint sid md jobs \<noteq> None"
  by (simp add: create_access_job_def Let_def)

text \<open>A job owned by a user is shown to no one but that user: an answer implies that the row exists and that it
  is anonymous or the caller authenticated as its owner. Strangers cannot tell it from a missing job.\<close>

theorem job_shown_to_owner_only:
  "(\<forall>p m'. get_access_job rd now fmt auth job_id jobs m = (Inr p, m') \<longrightarrow>
      (\<exists>job. map_of jobs job_id = Some job \<and> (aj_user_id job = None \<or> (\<exists>u. auth = Some (Inr u) \<and> aj_user_id job = Some u)))) \<and>
   (\<forall>job u v. map_of jobs job_id = Some job \<and> aj_user_id job = Some v \<and> auth = Some (Inr u) \<and> u \<noteq> v \<longrightarrow>
      get_access_job rd now fmt auth job_id jobs m = get_access_job rd now fmt auth job_id (AList.delete job_id jobs) m)"
  by (auto simp: get_access_job_def Let_def split: option.splits sum.splits if_splits)

theorem job_shown_to_owner_only_witness:
  "get_access_job ks_redis 0 (\<lambda>_. '''') (Some (Inr 2)) ''j1'' [(''j1'', sample_job)] \<lparr>mm_sessions = [], mm_redis = None\<rparr> =
   get_access_job ks_redis 0 (\<lambda>_. '''') (Some (Inr 2)) ''j1'' (AList.delete ''j1'' [(''j1'', sample_job)]) \<lparr>mm_sessions = [], mm_redis = None\<rparr>"
  using conjunct2 [OF job_shown_to_owner_only [of ks_redis 0 "\<lambda>_. ''''" "Some (Inr 2)" "''j1''" "[(''j1'', sample_job)]"
        "\<lparr>mm_sessions = [], mm_redis = None\<rparr>"]]
  by (simp add: sample_job_def)

text \<open>A queued job reaches the worker as it was requested: \<open>start_access_job\<close> stores a pending row, puts the job
  on the stream, starts an observing task, and until the payload expires the worker's lookup and decryption
  give back the caller's keyword arguments with the job's session id filled in.\<close>

theorem queued_job_reaches_worker:
  assumes ok: "redis_ok rd view"
    and crypt: "\<And>v. dec (enc v) = Some v" "\<And>v. v \<noteq> JNull \<Longrightarrow> enc v \<noteq> JNull"
    and plain: "map_of (jr_kwargs req) ''username_encrypted'' = None" "map_of (jr_kwargs req) ''password_encrypted'' = None"
      "map_of (jr_kwargs req) ''username'' \<noteq> Some JNull" "map_of (jr_kwargs req) ''password'' \<noteq> Some JNull"
    and later: "later < now + of_int ttl" and name: "name \<noteq> ''''"
  shows "\<exists>job q' payload kw'. start_access_job rd enc ttl sha new_id new_session now True True (Some name) req q = Some (job, q') \<and>
    map_of (aw_jobs (dw_world (qw_dispatch q'))) new_id = Some job \<and> aj_id job = new_id \<and> aj_status job = Job_pending \<and>
    qw_stream q' = qw_stream q @ [new_id] \<and> map_of (qw_tasks q') new_id = Some True \<and>
    r_get rd (dw_payloads (qw_dispatch q')) later (dispatch_payload_key new_id) = Some payload \<and>
    dp_executor payload = name \<and>
    decrypt_dispatch_kwargs dec (dp_executor_kwargs payload) = Some kw' \<and>
    map_of kw' = map_of (set_default_session (aj_session_id job) (jr_kwargs req))"
proof -
  obtain sid where sid: "sid = (case kw_session (jr_kwargs req) of Some s \<Rightarrow> s | None \<Rightarrow> new_session)" by blast
  obtain job jobs where c: "create_access_job sha new_id new_session now True (jr_site req) (jr_job_type req)
      (jr_user_id req) (jr_principal_hint req) (Some sid) (jr_metadata req) (aw_jobs (dw_world (qw_dispatch q))) = Some (job, jobs)"
    using create_access_job_commits by (metis not_None_eq surj_pair)
  let ?kw = "set_default_session (aj_session_id job) (jr_kwargs req)"
  have "\<exists>kw'. decrypt_dispatch_kwargs dec (encrypt_dispatch_kwargs enc ?kw) = Some kw' \<and> map_of kw' = map_of ?kw"
    by (rule dispatch_kwargs_roundtrip [OF crypt]) (use plain in \<open>auto simp: set_default_session_def\<close>)
  then show ?thesis
    using later name create_access_job_row [OF c]
    by (simp add: start_access_job_def sid [symmetric] c nonempty_def Let_def set_jobs_def queue_dispatched_access_job_def
        store_dispatch_payload_def redis_laws [OF ok])
qed

theorem queued_job_reaches_worker_witness:
  "\<exists>job q' payload kw'. start_access_job ks_redis sample_enc 60 (\<lambda>s. s) ''j2'' ''s2'' 5 True True (Some ''connect_to_site'')
      \<lparr>jr_site = ''bank'', jr_job_type = ''connect'', jr_user_id = Some 1, jr_principal_hint = None, jr_metadata = None,
       jr_kwargs = [(''username'', JStr ''u'')]\<rparr>
      \<lparr>qw_dispatch = \<lparr>dw_world = sample_world, dw_payloads = (\<lambda>_. None), dw_acked = []\<rparr>, qw_stream = [], qw_tasks = []\<rparr> =
      Some (job, q') \<and> qw_stream q' = [''j2''] \<and>
    r_get ks_redis (dw_payloads (qw_dispatch q')) 30 (dispatch_payload_key ''j2'') = Some payload \<and>
    decrypt_dispatch_kwargs sample_dec (dp_executor_kwargs payload) = Some kw' \<and> map_of kw' ''username'' = Some (JStr ''u'')"
proof -
  let ?req = "\<lparr>jr_site = ''bank'', jr_job_type = ''connect'', jr_user_id = Some 1, jr_principal_hint = None, jr_metadata = None,
       jr_kwargs = [(''username'', JStr ''u'')]\<rparr>"
  let ?q = "\<lparr>qw_dispatch = \<lparr>dw_world = sample_world, dw_payloads = (\<lambda>_. None) :: dispatch_payload keyspace, dw_acked = []\<rparr>,
       qw_stream = [], qw_tasks = []\<rparr>"
  have "\<exists>job q' payload kw'. start_access_job ks_redis sample_enc 60 (\<lambda>s. s) ''j2'' ''s2'' 5 True True (Some ''connect_to_site'') ?req ?q = Some (job, q') \<and>
    map_of (aw_jobs (dw_world (qw_dispatch q'))) ''j2'' = Some job \<and> aj_id job = ''j2'' \<and> aj_status job = Job_pending \<and>
    qw_stream q' = qw_stream ?q @ [''j2''] \<and> map_of (qw_tasks q') ''j2'' = Some True \<and>
    r_get ks_redis (dw_payloads (qw_dispatch q')) 30 (dispatch_payload_key ''j2'') = Some payload \<and>
    dp_executor payload = ''connect_to_site'' \<and>
    decrypt_dispatch_kwargs sample_dec (dp_executor_kwargs payload) = Some kw' \<and>
    map_of kw' = map_of (set_default_session (aj_session_id job) (jr_kwargs ?req))"
    by (rule queued_job_reaches_worker [OF ks_redis_ok]) (simp_all add: sample_enc_def)
  then show ?thesis by (fastforce simp: set_default_session_def)
qed

end
