(* ===== verification/Link_Sessions.thy ===== *)
theory Link_Sessions imports Webhooks Session_Keys Job_API begin

text \<open>
  \<^verbatim>\<open>src/routers/link_sessions.py\<close>: hosted link sessions. The origin checks, the creation of sessions, the launch tokens of
  \<^verbatim>\<open>src/auth_utils.py\<close> and their redemption, the events of the hosted page, the reconciliation of a session with its
  access job, the status endpoint and the event stream.

  The handlers work on \<open>link_world\<close>: the stores of \<^verbatim>\<open>Session_Store\<close> (any back end, given by the operations in \<open>link_env\<close>), the
  ephemeral keys, the MFA manager, the database, and, as what leaves the program, the events published and the webhook
  deliveries started.
\<close>

section \<open>The world\<close>

record ('s, 'c, 'b, 'q, 'r) link_env =
  le_api :: api_env
  le_store :: "'s link_store"
  le_put_scopes :: "time \<Rightarrow> string \<Rightarrow> string \<Rightarrow> 'c \<Rightarrow> 'c"
  le_issue :: "time \<Rightarrow> string \<Rightarrow> int \<Rightarrow> 'b \<Rightarrow> 'b"
  le_consume :: "time \<Rightarrow> string \<Rightarrow> 'b \<Rightarrow> bool \<times> 'b"
  le_generate :: "string \<Rightarrow> 'q \<Rightarrow> (string \<times> 'q) option"
  le_mfa_redis :: "('r, mfa_payload) redis"
  le_ciphers :: ciphers
  le_keys :: key_settings
  le_jwt_encode :: "(string, json) dict \<Rightarrow> string"
  le_jwt_decode :: "string \<Rightarrow> jwt_result"
  le_production :: bool
  le_public_enabled :: bool
  le_public_origins :: string
  le_launch_expire :: int

record ('s, 'c, 'b, 'q, 'r) link_world =
  lw_sessions :: 's
  lw_scopes :: 'c
  lw_boots :: 'b
  lw_keys :: 'q
  lw_mfa :: "'r mfa_manager"
  lw_db :: app_db
  lw_published :: "(string \<times> (string, json) dict) list"
  lw_tasks :: "webhook_task list"

definition lnow :: "('s, 'c, 'b, 'q, 'r) link_env \<Rightarrow> time" where
  "lnow e = en_now (le_api e)"

definition get_session :: "('s, 'c, 'b, 'q, 'r) link_env \<Rightarrow> string \<Rightarrow> ('s, 'c, 'b, 'q, 'r) link_world \<Rightarrow> link_session option \<times> ('s, 'c, 'b, 'q, 'r) link_world" where
  "get_session e tok w = (let (session, s) = ls_get (le_store e) (lnow e) tok (lw_sessions w) in (session, w\<lparr>lw_sessions := s\<rparr>))"

definition update_session :: "('s, 'c, 'b, 'q, 'r) link_env \<Rightarrow> string \<Rightarrow> link_session \<Rightarrow> ('s, 'c, 'b, 'q, 'r) link_world \<Rightarrow> ('s, 'c, 'b, 'q, 'r) link_world" where
  "update_session e tok updates w = w\<lparr>lw_sessions := snd (ls_update (le_store e) (lnow e) tok updates (lw_sessions w))\<rparr>"

section \<open>Origins\<close>

text \<open>A referrer that does not parse gives no origin.\<close>

definition referer_origin :: "(string, string) dict \<Rightarrow> string option" where
  "referer_origin headers =
     (case map_of headers ''referer'' of
        None \<Rightarrow> None
      | Some referer \<Rightarrow>
          if referer = '''' then None
          else (case urlparse referer of
                  None \<Rightarrow> None
                | Some p \<Rightarrow> if url_scheme p \<noteq> '''' \<and> url_netloc p \<noteq> '''' then Some (url_scheme p @ ''://'' @ url_netloc p) else None))"

definition extract_request_origin :: "(string, string) dict \<Rightarrow> string option" where
  "extract_request_origin headers =
     (case map_of headers ''origin'' of
        Some origin \<Rightarrow> if origin \<noteq> '''' then Some (rstrip_slash origin) else referer_origin headers
      | None \<Rightarrow> referer_origin headers)"

definition configured_public_link_allowed_origins :: "string \<Rightarrow> string list" where
  "configured_public_link_allowed_origins setting =
     map (\<lambda>o'. rstrip_slash (py_strip o')) (filter (\<lambda>o'. py_strip o' \<noteq> '''') (split_on (CHR '','') setting))"

definition enforce_public_link_session_policy :: "('s, 'c, 'b, 'q, 'r) link_env \<Rightarrow> (string, string) dict \<Rightarrow> http_error option" where
  "enforce_public_link_session_policy e headers =
     (if le_production e \<and> \<not> le_public_enabled e
      then Some (HTTPException 403 ''Anonymous public link sessions are disabled in production.'')
      else
        let allowed_origins = configured_public_link_allowed_origins (le_public_origins e)
        in if allowed_origins = [] then None
           else (case extract_request_origin headers of
                   Some origin \<Rightarrow>
                     if origin \<noteq> '''' \<and> origin \<in> set allowed_origins then None
                     else Some (HTTPException 403 ''This origin is not allowed to create anonymous public link sessions.'')
                 | None \<Rightarrow> Some (HTTPException 403 ''This origin is not allowed to create anonymous public link sessions.'')))"

definition normalize_origin :: "string option \<Rightarrow> string option" where
  "normalize_origin origin =
     (case origin of
        None \<Rightarrow> None
      | Some o' \<Rightarrow> let n = rstrip_slash (py_strip o') in if n = '''' then None else Some n)"

text \<open>The validator of the request model (\<^verbatim>\<open>src/models.py\<close>): \<open>None\<close> is its \<^verbatim>\<open>ValueError\<close>.\<close>

definition normalize_allowed_origin_value :: "string option \<Rightarrow> string option option" where
  "normalize_allowed_origin_value value =
     (case value of
        None \<Rightarrow> Some None
      | Some v \<Rightarrow>
          let normalized = rstrip_slash (py_strip v)
          in if normalized = '''' then Some None
             else (case urlparse normalized of
                     None \<Rightarrow> None
                   | Some p \<Rightarrow>
                       if url_scheme p \<notin> {''http'', ''https''} \<or> url_netloc p = '''' \<or> url_path p \<notin> {'''', ''/''} \<or> url_params p \<noteq> '''' \<or>
                          url_query p \<noteq> '''' \<or> url_fragment p \<noteq> '''' \<or> CHR ''@'' \<in> set (url_netloc p)
                       then None
                       else Some (Some (url_scheme p @ ''://'' @ url_netloc p))))"

text \<open>Non-empty entries in order, the first occurrence of each.\<close>

fun distinct_entries :: "string list \<Rightarrow> string option list \<Rightarrow> string list" where
  "distinct_entries seen [] = []"
| "distinct_entries seen (None # es) = distinct_entries seen es"
| "distinct_entries seen (Some x # es) = (if x \<in> set seen then distinct_entries seen es else x # distinct_entries (x # seen) es)"

definition normalize_allowed_origins :: "string list option \<Rightarrow> string list option option" where
  "normalize_allowed_origins value =
     (case value of
        None \<Rightarrow> Some None
      | Some items \<Rightarrow>
          let entries = map (\<lambda>i. normalize_allowed_origin_value (Some i)) items
          in if None \<in> set entries then None
             else (let normalized = distinct_entries [] (map the entries) in Some (if normalized = [] then None else Some normalized)))"

section \<open>Creating a session\<close>

definition ephemeral_origins :: "string option \<Rightarrow> string list \<Rightarrow> string list" where
  "ephemeral_origins allowed_origin allowed_origins =
     distinct_entries [] (normalize_origin allowed_origin # map (\<lambda>o'. normalize_origin (Some o')) allowed_origins)"

definition new_session :: "string option \<Rightarrow> int option \<Rightarrow> string option \<Rightarrow> string list \<Rightarrow> link_session" where
  "new_session site user_id allowed_origin allowed_origins =
     [(''status'', JStr ''awaiting_institution''), (''allowed_origin'', jopt (normalize_origin allowed_origin)),
      (''allowed_origins'', JList (map JStr (ephemeral_origins allowed_origin allowed_origins))), (''current_job_id'', JNull),
      (''error_message'', JNull), (''site'', jopt site), (''user_id'', (case user_id of None \<Rightarrow> JNull | Some u \<Rightarrow> JInt u)), (''events'', JList []),
      (''access_token'', JNull), (''message'', JNull), (''metadata'', JNull), (''mfa_type'', JNull), (''public_token'', JNull),
      (''result'', JNull), (''session_id'', JNull)]"

text \<open>\<open>scopes\<close> is a JSON value, \<open>JNull\<close> for none. The link row is committed before the key pair is made.\<close>

definition create_ephemeral_link_session ::
  "('s, 'c, 'b, 'q, 'r) link_env \<Rightarrow> string \<Rightarrow> string option \<Rightarrow> int option \<Rightarrow> bool \<Rightarrow> json \<Rightarrow> string option \<Rightarrow> string list \<Rightarrow>
   ('s, 'c, 'b, 'q, 'r) link_world \<Rightarrow> (http_error + (string, json) dict) \<times> ('s, 'c, 'b, 'q, 'r) link_world" where
  "create_ephemeral_link_session e link_token site user_id with_db scopes allowed_origin allowed_origins w =
     (let w = (case (site, user_id) of
                 (Some si, Some u) \<Rightarrow>
                   if si \<noteq> '''' \<and> with_db
                   then w\<lparr>lw_db := (lw_db w)\<lparr>db_links := db_links (lw_db w) @ [\<lparr>ln_link_token = link_token, ln_site = si, ln_user_id = u\<rparr>]\<rparr>\<rparr>
                   else w
               | _ \<Rightarrow> w)
      in case le_generate e link_token (lw_keys w) of
           None \<Rightarrow> (Inl server_error, w)
         | Some (public_key_pem, q) \<Rightarrow>
             let w = w\<lparr>lw_keys := q\<rparr>;
                 w = (if scopes \<noteq> JNull then w\<lparr>lw_scopes := le_put_scopes e (lnow e) link_token (en_dumps (le_api e) scopes) (lw_scopes w)\<rparr> else w);
                 w = w\<lparr>lw_sessions := ls_create (le_store e) (lnow e) link_token (new_session site user_id allowed_origin allowed_origins) (lw_sessions w)\<rparr>
             in (Inr [(''link_token'', JStr link_token), (''link_url'', JStr (''/link?token='' @ link_token)), (''public_key'', JStr public_key_pem),
                  (''expires_in'', JInt LINK_SESSION_TTL), (''scopes'', scopes)], w))"

definition create_link_session ::
  "('s, 'c, 'b, 'q, 'r) link_env \<Rightarrow> (string, string) dict \<Rightarrow> auth_context option \<Rightarrow> string \<Rightarrow> int \<Rightarrow> string option \<Rightarrow>
   ('s, 'c, 'b, 'q, 'r) link_world \<Rightarrow> (http_error + (string, json) dict) \<times> ('s, 'c, 'b, 'q, 'r) link_world" where
  "create_link_session e headers ctx link_token uid site w =
     (case (if site \<noteq> None \<and> site \<noteq> Some '''' then ensure_site_allowed_for_request ctx (the site) else Inr ctx) of
        Inl err \<Rightarrow> (Inl err, w)
      | Inr _ \<Rightarrow>
          (case constrain_requested_scopes (en_rep (le_api e)) ctx JNull of
             Inl err \<Rightarrow> (Inl err, w)
           | Inr scopes \<Rightarrow> create_ephemeral_link_session e link_token site (Some uid) True scopes (extract_request_origin headers) [] w))"

definition create_public_link_session ::
  "('s, 'c, 'b, 'q, 'r) link_env \<Rightarrow> (string, string) dict \<Rightarrow> string \<Rightarrow>
   ('s, 'c, 'b, 'q, 'r) link_world \<Rightarrow> (http_error + (string, json) dict) \<times> ('s, 'c, 'b, 'q, 'r) link_world" where
  "create_public_link_session e headers link_token w =
     (case enforce_public_link_session_policy e headers of
        Some err \<Rightarrow> (Inl err, w)
      | None \<Rightarrow> create_ephemeral_link_session e link_token None None False JNull (extract_request_origin headers) [] w)"

section \<open>Launch tokens\<close>

definition LINK_LAUNCH_TOKEN_TYPE :: string where "LINK_LAUNCH_TOKEN_TYPE = ''plaidify_link_launch''"

definition launch_payload :: "time \<Rightarrow> string \<Rightarrow> int \<Rightarrow> string option \<Rightarrow> string option \<Rightarrow> string list option \<Rightarrow> json \<Rightarrow> int \<Rightarrow> (string, json) dict" where
  "launch_payload now launch_id uid site allowed_origin allowed_origins scopes expires =
     [(''sub'', JStr (show_int uid)), (''typ'', JStr LINK_LAUNCH_TOKEN_TYPE), (''jti'', JStr launch_id), (''iat'', JNum now), (''exp'', JNum (now + of_int expires))] @
     (case site of Some s \<Rightarrow> if s \<noteq> '''' then [(''site'', JStr s)] else [] | None \<Rightarrow> []) @
     (case allowed_origin of Some a \<Rightarrow> if a \<noteq> '''' then [(''allowed_origin'', JStr (rstrip_slash a))] else [] | None \<Rightarrow> []) @
     (case allowed_origins of Some as \<Rightarrow> if as \<noteq> [] then [(''allowed_origins'', JList (map (\<lambda>a. JStr (rstrip_slash a)) as))] else [] | None \<Rightarrow> []) @
     (if scopes \<noteq> JNull then [(''scopes'', scopes)] else [])"

definition create_link_launch_token ::
  "('s, 'c, 'b, 'q, 'r) link_env \<Rightarrow> string \<Rightarrow> int \<Rightarrow> string option \<Rightarrow> string option \<Rightarrow> string list option \<Rightarrow> json \<Rightarrow> int \<Rightarrow> string" where
  "create_link_launch_token e launch_id uid site allowed_origin allowed_origins scopes expires =
     le_jwt_encode e (launch_payload (lnow e) launch_id uid site allowed_origin allowed_origins scopes
       (if expires \<noteq> 0 then expires else le_launch_expire e))"

definition decode_link_launch_token :: "('s, 'c, 'b, 'q, 'r) link_env \<Rightarrow> string \<Rightarrow> jwt_result" where
  "decode_link_launch_token e token =
     (case le_jwt_decode e token of
        JwtPayload payload \<Rightarrow> if jget payload ''typ'' \<noteq> JStr LINK_LAUNCH_TOKEN_TYPE then JwtInvalid else JwtPayload payload
      | r \<Rightarrow> r)"

text \<open>The validated request body.\<close>

record bootstrap_request =
  hb_site :: "string option"
  hb_allowed_origin :: "string option"
  hb_allowed_origins :: "string list option"
  hb_scopes :: json

definition create_link_bootstrap ::
  "('s, 'c, 'b, 'q, 'r) link_env \<Rightarrow> auth_context option \<Rightarrow> string \<Rightarrow> int \<Rightarrow> bootstrap_request \<Rightarrow>
   ('s, 'c, 'b, 'q, 'r) link_world \<Rightarrow> (http_error + string) \<times> ('s, 'c, 'b, 'q, 'r) link_world" where
  "create_link_bootstrap e ctx launch_id uid body w =
     (case (if hb_site body \<noteq> None \<and> hb_site body \<noteq> Some '''' then ensure_site_allowed_for_request ctx (the (hb_site body)) else Inr ctx) of
        Inl err \<Rightarrow> (Inl err, w)
      | Inr _ \<Rightarrow>
          (case constrain_requested_scopes (en_rep (le_api e)) ctx (hb_scopes body) of
             Inl err \<Rightarrow> (Inl err, w)
           | Inr scopes \<Rightarrow>
               (Inr (create_link_launch_token e launch_id uid (hb_site body) (hb_allowed_origin body) (hb_allowed_origins body) scopes (le_launch_expire e)),
                w\<lparr>lw_boots := le_issue e (lnow e) launch_id (le_launch_expire e) (lw_boots w)\<rparr>)))"

text \<open>The fields of a decoded payload; \<open>None\<close> when one has another type than the server gives it.\<close>

fun text_list :: "json \<Rightarrow> string list option" where
  "text_list (JList []) = Some []"
| "text_list (JList (JStr s # xs)) = map_option (Cons s) (text_list (JList xs))"
| "text_list _ = None"

definition payload_origins :: "(string, json) dict \<Rightarrow> (string option \<times> string list) option" where
  "payload_origins p =
     (case (column_text (jget p ''allowed_origin''), if truthy (jget p ''allowed_origins'') then text_list (jget p ''allowed_origins'') else Some []) of
        (Some ao, Some aos) \<Rightarrow> Some (ao, aos)
      | _ \<Rightarrow> None)"

definition allowed_set :: "string option \<Rightarrow> string list \<Rightarrow> string list" where
  "allowed_set allowed_origin allowed_origins =
     map rstrip_slash (filter (\<lambda>o'. o' \<noteq> '''') allowed_origins) @
     (case allowed_origin of Some a \<Rightarrow> if a \<noteq> '''' then [rstrip_slash a] else [] | None \<Rightarrow> [])"

definition origin_refused :: "string option \<Rightarrow> string option \<Rightarrow> string list \<Rightarrow> bool" where
  "origin_refused request_origin allowed_origin allowed_origins \<longleftrightarrow>
     allowed_set allowed_origin allowed_origins \<noteq> [] \<and>
     (case request_origin of None \<Rightarrow> True | Some o' \<Rightarrow> rstrip_slash o' \<notin> set (allowed_set allowed_origin allowed_origins))"

definition exchange_link_bootstrap ::
  "('s, 'c, 'b, 'q, 'r) link_env \<Rightarrow> (string, string) dict \<Rightarrow> string \<Rightarrow> string \<Rightarrow>
   ('s, 'c, 'b, 'q, 'r) link_world \<Rightarrow> (http_error + (string, json) dict) \<times> ('s, 'c, 'b, 'q, 'r) link_world" where
  "exchange_link_bootstrap e headers launch_token link_token w =
     (case decode_link_launch_token e launch_token of
        JwtExpired \<Rightarrow> (Inl (HTTPException 410 ''Link bootstrap token has expired.''), w)
      | JwtInvalid \<Rightarrow> (Inl (HTTPException 400 ''Invalid link bootstrap token.''), w)
      | JwtPayload p \<Rightarrow>
          (case payload_origins p of
             None \<Rightarrow> (Inl server_error, w)
           | Some (allowed_origin, allowed_origins) \<Rightarrow>
               if origin_refused (extract_request_origin headers) allowed_origin allowed_origins
               then (Inl (HTTPException 403 ''This origin is not allowed to redeem the hosted-link bootstrap token.''), w)
               else
                 let (ok, b) = (case jget p ''jti'' of JStr launch_id \<Rightarrow> if launch_id = '''' then (False, lw_boots w) else le_consume e (lnow e) launch_id (lw_boots w)
                                | _ \<Rightarrow> (False, lw_boots w));
                     w = w\<lparr>lw_boots := b\<rparr>
                 in if \<not> ok then (Inl (HTTPException 410 ''Link bootstrap token has expired or has already been used.''), w)
                    else
                      let sub = jget p ''sub''; user_id = json_int sub
                      in if sub \<noteq> JNull \<and> user_id = None then (Inl (HTTPException 400 ''Invalid link bootstrap token subject.''), w)
                         else (case column_text (jget p ''site'') of
                                 None \<Rightarrow> (Inl server_error, w)
                               | Some site \<Rightarrow>
                                   create_ephemeral_link_session e link_token site user_id True (jget p ''scopes'') allowed_origin allowed_origins w)))"


section \<open>Events\<close>

definition HOSTED_EVENT_FORBIDDEN_KEYS :: "string list" where
  "HOSTED_EVENT_FORBIDDEN_KEYS = [''access_token'', ''accessToken'', ''password'', ''password_encrypted'', ''username_encrypted'',
     ''private_key'', ''secret'', ''result'', ''data'']"

definition drop_forbidden :: "(string \<times> 'v) list \<Rightarrow> (string \<times> 'v) list" where
  "drop_forbidden d = filter (\<lambda>(k, _). k \<notin> set HOSTED_EVENT_FORBIDDEN_KEYS) d"

primrec sanitize_hosted_event_data :: "json \<Rightarrow> json" where
  "sanitize_hosted_event_data JNull = JNull"
| "sanitize_hosted_event_data (JBool b) = JBool b"
| "sanitize_hosted_event_data (JInt i) = JInt i"
| "sanitize_hosted_event_data (JNum r) = JNum r"
| "sanitize_hosted_event_data (JStr s) = JStr s"
| "sanitize_hosted_event_data (JList xs) = JList (map sanitize_hosted_event_data xs)"
| "sanitize_hosted_event_data (JObj d) = JObj (drop_forbidden (map (map_prod id sanitize_hosted_event_data) d))"

definition sanitize_dict :: "(string, json) dict \<Rightarrow> (string, json) dict" where
  "sanitize_dict d = drop_forbidden (map (map_prod id sanitize_hosted_event_data) d)"

definition build_link_session_event :: "api_env \<Rightarrow> string \<Rightarrow> (string, json) dict \<Rightarrow> (string, json) dict" where
  "build_link_session_event env event_name data =
     [(''event'', JStr event_name), (''timestamp'', JStr (en_isoformat env (en_now env))), (''data'', JObj (sanitize_dict data))]"

definition webhook_event_map :: "(string \<times> string) list" where
  "webhook_event_map = [(''OPEN'', ''LINK_OPEN''), (''CONNECTED'', ''LINK_COMPLETE''), (''ERROR'', ''LINK_ERROR''), (''EXIT'', ''LINK_EXIT''),
     (''MFA_REQUIRED'', ''MFA_REQUIRED'')]"

definition push_link_session_event ::
  "('s, 'c, 'b, 'q, 'r) link_env \<Rightarrow> string \<Rightarrow> string \<Rightarrow> (string, json) dict \<Rightarrow> link_session \<Rightarrow>
   ('s, 'c, 'b, 'q, 'r) link_world \<Rightarrow> ('s, 'c, 'b, 'q, 'r) link_world" where
  "push_link_session_event e link_token event_name data updates w =
     (let event_data = build_link_session_event (le_api e) event_name data;
          w = w\<lparr>lw_sessions := snd (ls_append (le_store e) (lnow e) link_token (JObj event_data) (lw_sessions w))\<rparr>;
          w = (if updates \<noteq> [] then update_session e link_token updates w else w);
          w = w\<lparr>lw_published := lw_published w @ [(link_token, event_data)]\<rparr>
      in case map_of webhook_event_map event_name of
           None \<Rightarrow> w
         | Some hook \<Rightarrow>
             let (tasks, s) = fire_webhooks_for_session (le_ciphers e) (le_keys e) (le_store e) (le_api e) link_token hook (Some data) (lw_sessions w) (lw_db w)
             in w\<lparr>lw_sessions := s, lw_tasks := lw_tasks w @ tasks\<rparr>)"

section \<open>Public tokens\<close>

definition PUBLIC_TOKEN_TTL_MINUTES :: int where "PUBLIC_TOKEN_TTL_MINUTES = 10"

text \<open>The newest of the public tokens already made for this session and access token, else a new one.\<close>

definition existing_public_token :: "string \<Rightarrow> string \<Rightarrow> int \<Rightarrow> app_db \<Rightarrow> public_token_row option" where
  "existing_public_token link_token access_token uid db =
     (case sort_key (\<lambda>p. - pt_created_at p)
         (filter (\<lambda>p. pt_link_token p = link_token \<and> pt_access_token p = access_token \<and> pt_user_id p = uid) (db_public_tokens db)) of
        [] \<Rightarrow> None
      | p # _ \<Rightarrow> Some p)"

definition ensure_public_token :: "time \<Rightarrow> string \<Rightarrow> string \<Rightarrow> string \<Rightarrow> int \<Rightarrow> app_db \<Rightarrow> string \<times> app_db" where
  "ensure_public_token now new_uuid link_token access_token uid db =
     (case existing_public_token link_token access_token uid db of
        Some p \<Rightarrow> (pt_token p, db)
      | None \<Rightarrow>
          let value = ''public-'' @ new_uuid
          in (value, db\<lparr>db_public_tokens := db_public_tokens db @ [\<lparr>pt_token = value, pt_link_token = link_token, pt_access_token = access_token,
                pt_user_id = uid, pt_exchanged = False, pt_expires_at = now + 60 * of_int PUBLIC_TOKEN_TTL_MINUTES, pt_created_at = now\<rparr>]\<rparr>))"

section \<open>Reconciliation with the access job\<close>

definition jor :: "json \<Rightarrow> json \<Rightarrow> json" where
  "jor a b = (if truthy a then a else b)"

definition opt_entry :: "bool \<Rightarrow> string \<Rightarrow> json \<Rightarrow> (string, json) dict" where
  "opt_entry c k v = (if c then [(k, v)] else [])"

text \<open>The fields every branch writes.\<close>

definition base_updates :: "json \<Rightarrow> (string, json) dict \<Rightarrow> link_session \<Rightarrow> link_session" where
  "base_updates job_id payload session =
     [(''current_job_id'', job_id), (''session_id'', jget payload ''session_id''), (''site'', jor (jget payload ''site'') (jget session ''site''))] @
     opt_entry (jget payload ''metadata'' \<noteq> JNull) ''metadata'' (jget payload ''metadata'') @
     opt_entry (truthy (jget payload ''mfa_type'')) ''mfa_type'' (jget payload ''mfa_type'')"

text \<open>Push the event with the updates the first time the status is reached, afterwards only update.\<close>

definition transition ::
  "('s, 'c, 'b, 'q, 'r) link_env \<Rightarrow> string \<Rightarrow> json \<Rightarrow> string \<Rightarrow> string \<Rightarrow> (string, json) dict \<Rightarrow> link_session \<Rightarrow>
   ('s, 'c, 'b, 'q, 'r) link_world \<Rightarrow> ('s, 'c, 'b, 'q, 'r) link_world" where
  "transition e link_token previous_status status event data updates w =
     (if previous_status \<noteq> JStr status then push_link_session_event e link_token event data updates w
      else update_session e link_token updates w)"

text \<open>The public token of a completed session: kept, made, or none. A session of an unusable user id raises.\<close>

definition session_public_token ::
  "('s, 'c, 'b, 'q, 'r) link_env \<Rightarrow> string \<Rightarrow> string \<Rightarrow> link_session \<Rightarrow> app_db \<Rightarrow> json \<times> app_db" where
  "session_public_token e new_uuid link_token session db =
     (case (jget session ''access_token'', jget session ''user_id'') of
        (JStr access_token, JInt uid) \<Rightarrow>
          if \<not> truthy (jget session ''public_token'') \<and> access_token \<noteq> ''''
          then (let (t, db) = ensure_public_token (lnow e) new_uuid link_token access_token uid db in (JStr t, db))
          else (jget session ''public_token'', db)
      | _ \<Rightarrow> (jget session ''public_token'', db))"

definition settle_session ::
  "('s, 'c, 'b, 'q, 'r) link_env \<Rightarrow> string \<Rightarrow> string \<Rightarrow> json \<Rightarrow> (string, json) dict \<Rightarrow> link_session \<Rightarrow>
   ('s, 'c, 'b, 'q, 'r) link_world \<Rightarrow> ('s, 'c, 'b, 'q, 'r) link_world" where
  "settle_session e new_uuid link_token job_id payload session w =
     (let previous_status = jget session ''status'';
          updates = base_updates job_id payload session;
          site = jget updates ''site'';
          status = jget payload ''status''
      in if status \<in> {JStr ''pending'', JStr ''running''} then update_session e link_token (updates @ [(''status'', JStr ''connecting'')]) w
         else if status = JStr ''mfa_required'' then
           (let message = (case jget payload ''metadata'' of JObj md \<Rightarrow> jget md ''message'' | _ \<Rightarrow> JNull)
            in transition e link_token previous_status ''mfa_required'' ''MFA_REQUIRED''
                 [(''mfa_type'', jget payload ''mfa_type''), (''session_id'', jget payload ''session_id''), (''site'', site)]
                 (updates @ [(''message'', message), (''status'', JStr ''mfa_required'')]) w)
         else if status = JStr ''completed'' then
           (let (public_token, db) = session_public_token e new_uuid link_token session (lw_db w)
            in transition e link_token previous_status ''completed'' ''CONNECTED''
                 [(''job_id'', job_id), (''public_token'', public_token), (''site'', site)]
                 (updates @ [(''error_message'', JNull), (''message'', JNull), (''result'', jget payload ''result''), (''status'', JStr ''completed'')] @
                  opt_entry (truthy public_token) ''public_token'' public_token)
                 (w\<lparr>lw_db := db\<rparr>))
         else if status \<in> {JStr ''blocked'', JStr ''cancelled'', JStr ''failed''} then
           (let error_message = jor (jget payload ''error_message'') (JStr ''The connection could not be completed.'')
            in transition e link_token previous_status ''error'' ''ERROR''
                 [(''error'', error_message), (''job_id'', job_id), (''site'', site)]
                 (updates @ [(''error_message'', error_message), (''status'', JStr ''error'')]) w)
         else update_session e link_token updates w)"

definition reconcile_link_session ::
  "('s, 'c, 'b, 'q, 'r) link_env \<Rightarrow> string \<Rightarrow> string \<Rightarrow> string option \<Rightarrow>
   ('s, 'c, 'b, 'q, 'r) link_world \<Rightarrow> link_session option \<times> ('s, 'c, 'b, 'q, 'r) link_world" where
  "reconcile_link_session e new_uuid link_token job_id w =
     (case get_session e link_token w of
        (None, w) \<Rightarrow> (None, w)
      | (Some session, w) \<Rightarrow>
          if session = [] \<or> jget session ''status'' = JStr ''expired'' then (Some session, w)
          else
            let current_job_id = (case job_id of Some j \<Rightarrow> if j \<noteq> '''' then JStr j else jget session ''current_job_id''
                                  | None \<Rightarrow> jget session ''current_job_id'')
            in case current_job_id of
                 JStr jid \<Rightarrow>
                   (case (if jid = '''' then None else find (\<lambda>j. aj_id j = jid) (db_access_jobs (lw_db w))) of
                      None \<Rightarrow> (Some session, w)
                    | Some job \<Rightarrow>
                        let (payload, m) = serialize_access_job_runtime (le_mfa_redis e) (lnow e) (en_isoformat (le_api e)) (lw_mfa w) job
                        in get_session e link_token (settle_session e new_uuid link_token current_job_id payload session (w\<lparr>lw_mfa := m\<rparr>)))
               | _ \<Rightarrow> (Some session, w))"

section \<open>Endpoints of the page\<close>

definition event_names :: "json \<Rightarrow> json" where
  "event_names es = (case es of JList xs \<Rightarrow> JList (map (\<lambda>x. case x of JObj d \<Rightarrow> jget d ''event'' | _ \<Rightarrow> JNull) xs) | _ \<Rightarrow> JNull)"

definition get_link_session_status ::
  "('s, 'c, 'b, 'q, 'r) link_env \<Rightarrow> string \<Rightarrow> string \<Rightarrow> ('s, 'c, 'b, 'q, 'r) link_world \<Rightarrow>
   (http_error + (string, json) dict) \<times> ('s, 'c, 'b, 'q, 'r) link_world" where
  "get_link_session_status e new_uuid link_token w =
     (case reconcile_link_session e new_uuid link_token None w of
        (None, w) \<Rightarrow> (Inl (HTTPException 404 ''Link session not found.''), w)
      | (Some session, w) \<Rightarrow>
          if session = [] then (Inl (HTTPException 404 ''Link session not found.''), w)
          else (Inr ([(''link_token'', JStr link_token), (''job_id'', jget session ''current_job_id''), (''metadata'', jget session ''metadata''),
                  (''mfa_type'', jget session ''mfa_type''), (''session_id'', jget session ''session_id''), (''status'', jget session ''status''),
                  (''site'', jget session ''site''), (''events'', event_names (jget session ''events''))] @
                opt_entry (truthy (jget session ''error_message'')) ''error_message'' (jget session ''error_message'') @
                opt_entry (truthy (jget session ''message'')) ''message'' (jget session ''message'') @
                opt_entry (jget session ''status'' = JStr ''completed'' \<and> truthy (jget session ''public_token'')) ''public_token'' (jget session ''public_token'')),
                w))"

text \<open>The state a client event asks for.\<close>

definition event_updates :: "string \<Rightarrow> (string, json) dict \<Rightarrow> link_session \<Rightarrow> link_session" where
  "event_updates event_name body session =
     (if event_name = ''INSTITUTION_SELECTED''
      then [(''status'', JStr ''awaiting_credentials''), (''site'', jget_default body ''site'' (jget session ''site''))]
      else if event_name = ''CREDENTIALS_SUBMITTED'' then [(''status'', JStr ''connecting'')]
      else if event_name = ''MFA_REQUIRED'' then [(''status'', JStr ''mfa_required'')]
      else if event_name = ''MFA_SUBMITTED'' then [(''status'', JStr ''verifying_mfa'')]
      else if event_name = ''EXIT''
        then opt_entry (jget session ''status'' \<notin> {JStr ''completed'', JStr ''error'', JStr ''expired''}) ''status'' (JStr ''exited'')
      else if event_name = ''ERROR'' then [(''status'', JStr ''error''), (''error_message'', jget body ''error'')]
      else [])"

text \<open>The body is a JSON object; an event name that is no text is stored as it is and matches nothing, which the
  model leaves out.\<close>

definition post_link_session_event ::
  "('s, 'c, 'b, 'q, 'r) link_env \<Rightarrow> string \<Rightarrow> (string, json) dict \<Rightarrow> ('s, 'c, 'b, 'q, 'r) link_world \<Rightarrow>
   (http_error + string) \<times> ('s, 'c, 'b, 'q, 'r) link_world" where
  "post_link_session_event e link_token body w =
     (case get_session e link_token w of
        (None, w) \<Rightarrow> (Inl (HTTPException 404 ''Link session not found.''), w)
      | (Some session, w) \<Rightarrow>
          if session = [] then (Inl (HTTPException 404 ''Link session not found.''), w)
          else if jget session ''status'' = JStr ''expired'' then (Inl (HTTPException 410 ''Link session has expired.''), w)
          else
            case jget_default body ''event'' (JStr ''UNKNOWN'') of
              JStr event_name \<Rightarrow>
                if event_name = ''CONNECTED'' then (Inr ''ignored'', w)
                else (Inr ''ok'', push_link_session_event e link_token event_name (sanitize_dict (AList.delete ''event'' body))
                  (event_updates event_name body session) w)
            | _ \<Rightarrow> (Inl server_error, w))"

text \<open>The event stream: the events so far, then one frame per wait on the queue. A wait gives an event or a timeout,
  with the state of the session at that moment.\<close>

datatype wait = Event "(string, json) dict" | Timeout "link_session option"
datatype frame = Frame json "(string, json) dict" | Ping

definition ends_stream :: "json \<Rightarrow> bool" where
  "ends_stream event \<longleftrightarrow> event \<in> {JStr ''CONNECTED'', JStr ''ERROR''}"

fun stream_events :: "wait list \<Rightarrow> frame list" where
  "stream_events [] = []"
| "stream_events (Event d # ws) = Frame (jget d ''event'') d # (if ends_stream (jget d ''event'') then [] else stream_events ws)"
| "stream_events (Timeout current # ws) =
     Ping # (if (case current of None \<Rightarrow> True | Some d \<Rightarrow> jget d ''status'' \<in> {JStr ''completed'', JStr ''error'', JStr ''expired''})
             then [] else stream_events ws)"

definition event_generator :: "link_session \<Rightarrow> wait list \<Rightarrow> frame list" where
  "event_generator session ws =
     (case jget session ''events'' of
        JList es \<Rightarrow> map (\<lambda>x. case x of JObj d \<Rightarrow> Frame (jget d ''event'') d | _ \<Rightarrow> Frame JNull []) es
      | _ \<Rightarrow> []) @ stream_events ws"


section \<open>What leaves the program carries no secrets\<close>

primrec clean :: "json \<Rightarrow> bool" where
  "clean JNull = True"
| "clean (JBool b) = True"
| "clean (JInt i) = True"
| "clean (JNum r) = True"
| "clean (JStr s) = True"
| "clean (JList xs) = list_all (\<lambda>b. b) (map clean xs)"
| "clean (JObj d) = list_all (\<lambda>(k, b). k \<notin> set HOSTED_EVENT_FORBIDDEN_KEYS \<and> b) (map (map_prod id clean) d)"

lemma clean_sanitized [simp]: "clean (sanitize_hosted_event_data v)"
proof (induction v)
  case (JList xs)
  then show ?case by (auto simp: list_all_iff)
next
  case (JObj d)
  then show ?case by (auto simp: list_all_iff drop_forbidden_def)
qed simp_all

lemma sanitize_dict_obj: "JObj (sanitize_dict d) = sanitize_hosted_event_data (JObj d)"
  by (simp add: sanitize_dict_def)

lemma sanitize_clean: "clean v \<Longrightarrow> sanitize_hosted_event_data v = v"
proof (induction v)
  case (JList xs)
  then show ?case by (auto simp: list_all_iff intro: map_idI)
next
  case (JObj d)
  have "map (map_prod id sanitize_hosted_event_data) d = d"
    using JObj by (intro map_idI) (auto simp: list_all_iff)
  moreover have "drop_forbidden d = d"
    using JObj.prems by (auto simp: drop_forbidden_def list_all_iff intro!: filter_allI)
  ultimately show ?case by simp
qed simp_all

definition event_clean :: "string \<times> (string, json) dict \<Rightarrow> bool" where
  "event_clean p \<longleftrightarrow> clean (jget (snd p) ''data'')"

text \<open>The data a webhook receives has no forbidden field.\<close>

definition task_clean :: "webhook_task \<Rightarrow> bool" where
  "task_clean t \<longleftrightarrow> (case jget (wt_payload t) ''data'' of JObj d \<Rightarrow> \<forall>k \<in> set (map fst d). k \<notin> set HOSTED_EVENT_FORBIDDEN_KEYS | _ \<Rightarrow> False)"

definition outputs_clean :: "('s, 'c, 'b, 'q, 'r) link_world \<Rightarrow> bool" where
  "outputs_clean w \<longleftrightarrow> list_all event_clean (lw_published w) \<and> list_all task_clean (lw_tasks w)"

lemma built_clean: "event_clean (tok, build_link_session_event env name data)"
  by (simp add: event_clean_def build_link_session_event_def jget_def sanitize_dict_obj del: sanitize_hosted_event_data.simps)

lemma fired_clean:
  assumes "fire_webhooks_for_session c ks st env tok hook (Some data) s db = (tasks, s')"
    and "\<forall>k \<in> set (map fst data). k \<notin> set HOSTED_EVENT_FORBIDDEN_KEYS"
  shows "list_all task_clean tasks"
  using assms
  by (auto simp: fire_webhooks_for_session_def fire_payload_def task_clean_def jget_def list_all_iff split: prod.splits)

lemma push_clean:
  assumes "outputs_clean w" "\<forall>k \<in> set (map fst data). k \<notin> set HOSTED_EVENT_FORBIDDEN_KEYS"
  shows "outputs_clean (push_link_session_event e tok name data updates w)"
  using assms fired_clean built_clean
  by (auto simp: push_link_session_event_def outputs_clean_def update_session_def Let_def split: option.splits prod.splits)

lemma get_session_outputs [simp]: "get_session e tok w = (r, w') \<Longrightarrow> outputs_clean w' = outputs_clean w \<and> lw_published w' = lw_published w \<and> lw_tasks w' = lw_tasks w"
  by (auto simp: get_session_def outputs_clean_def split: prod.splits)

lemma update_session_outputs [simp]:
  "outputs_clean (update_session e tok u w) = outputs_clean w" "lw_published (update_session e tok u w) = lw_published w"
  by (simp_all add: update_session_def outputs_clean_def)

lemma transition_clean:
  "outputs_clean w \<Longrightarrow> \<forall>k \<in> set (map fst data). k \<notin> set HOSTED_EVENT_FORBIDDEN_KEYS \<Longrightarrow>
   outputs_clean (transition e tok prev status event data updates w)"
  by (simp add: transition_def push_clean)

lemma outputs_clean_db [simp]: "outputs_clean (w\<lparr>lw_db := db\<rparr>) = outputs_clean w" "outputs_clean (w\<lparr>lw_mfa := m\<rparr>) = outputs_clean w"
  "outputs_clean (w\<lparr>lw_boots := b\<rparr>) = outputs_clean w" "outputs_clean (w\<lparr>lw_sessions := s\<rparr>) = outputs_clean w"
  "outputs_clean (w\<lparr>lw_keys := q\<rparr>) = outputs_clean w" "outputs_clean (w\<lparr>lw_scopes := c\<rparr>) = outputs_clean w"
  by (simp_all add: outputs_clean_def)

lemma settle_clean: "outputs_clean w \<Longrightarrow> outputs_clean (settle_session e u tok jid payload session w)"
  unfolding settle_session_def Let_def
  by (auto intro!: transition_clean simp: HOSTED_EVENT_FORBIDDEN_KEYS_def split: prod.split)

lemma reconcile_clean:
  assumes "outputs_clean w" "reconcile_link_session e u tok jid w = (r, w')"
  shows "outputs_clean w'"
proof -
  obtain s w1 where g: "get_session e tok w = (s, w1)" by fastforce
  then have "outputs_clean w1" using assms(1) by simp
  with g assms(2) show ?thesis
    by (auto simp: reconcile_link_session_def Let_def settle_clean split: option.splits if_splits json.splits prod.splits dest!: get_session_outputs)
qed

lemma post_clean:
  assumes "outputs_clean w" "post_link_session_event e tok body w = (r, w')"
  shows "outputs_clean w'"
proof -
  obtain s w1 where g: "get_session e tok w = (s, w1)" by fastforce
  then have "outputs_clean w1" using assms(1) by simp
  moreover have "\<forall>k \<in> set (map fst (sanitize_dict d)). k \<notin> set HOSTED_EVENT_FORBIDDEN_KEYS" for d
    by (auto simp: sanitize_dict_def drop_forbidden_def)
  ultimately show ?thesis using g assms(2)
    by (auto simp: post_link_session_event_def push_clean split: option.splits if_splits json.splits)
qed

lemma create_clean: "outputs_clean w \<Longrightarrow> create_ephemeral_link_session e tok site u db sc ao aos w = (r, w') \<Longrightarrow> outputs_clean w'"
  by (auto simp: create_ephemeral_link_session_def Let_def split: option.splits prod.splits if_splits)

lemma create_clean_boots:
  "outputs_clean w \<Longrightarrow> create_ephemeral_link_session e tok site u db sc ao aos (w\<lparr>lw_boots := b\<rparr>) = (r, w') \<Longrightarrow> outputs_clean w'"
  by (rule create_clean) simp_all

lemma task_clean_iff: "task_clean t \<longleftrightarrow> (\<exists>d. jget (wt_payload t) ''data'' = JObj d \<and> set (map fst d) \<inter> set HOSTED_EVENT_FORBIDDEN_KEYS = {})"
  by (cases "jget (wt_payload t) ''data''") (auto simp: task_clean_def)

text \<open>The requests to the link-session endpoints, in any order.\<close>

inductive link_step :: "('s, 'c, 'b, 'q, 'r) link_env \<Rightarrow> ('s, 'c, 'b, 'q, 'r) link_world \<Rightarrow> ('s, 'c, 'b, 'q, 'r) link_world \<Rightarrow> bool" for e where
  created: "create_link_session e headers ctx tok uid site w = (r, w') \<Longrightarrow> link_step e w w'"
| created_public: "create_public_link_session e headers tok w = (r, w') \<Longrightarrow> link_step e w w'"
| bootstrapped: "create_link_bootstrap e ctx lid uid body w = (r', w') \<Longrightarrow> link_step e w w'"
| exchanged: "exchange_link_bootstrap e headers token tok w = (r, w') \<Longrightarrow> link_step e w w'"
| posted: "post_link_session_event e tok body w = (r', w') \<Longrightarrow> link_step e w w'"
| polled: "get_link_session_status e uuid tok w = (r, w') \<Longrightarrow> link_step e w w'"

lemma link_step_clean: "link_step e w w' \<Longrightarrow> outputs_clean w \<Longrightarrow> outputs_clean w'"
proof (induction rule: link_step.induct)
  case (created headers ctx tok uid site w r w')
  then show ?case by (auto simp: create_link_session_def split: sum.splits if_splits dest: create_clean)
next
  case (created_public headers tok w r w')
  then show ?case by (auto simp: create_public_link_session_def split: option.splits dest: create_clean)
next
  case (bootstrapped ctx lid uid body w r' w')
  then show ?case by (auto simp: create_link_bootstrap_def split: sum.splits if_splits)
next
  case (exchanged headers token tok w r w')
  then show ?case
    by (auto simp: exchange_link_bootstrap_def Let_def split: jwt_result.splits option.splits prod.splits if_splits json.splits dest: create_clean_boots)
next
  case (posted tok body w r' w')
  then show ?case by (blast intro: post_clean)
next
  case (polled uuid tok w r w')
  obtain s w1 where g: "reconcile_link_session e uuid tok None w = (s, w1)" by fastforce
  with polled.prems have "outputs_clean w1" by (rule reconcile_clean)
  with g polled.hyps show ?case by (auto simp: get_link_session_status_def split: option.splits if_splits)
qed



lemma push_published:
  "lw_published (push_link_session_event e tok name data updates w) = lw_published w @ [(tok, build_link_session_event (le_api e) name data)]"
  by (simp add: push_link_session_event_def Let_def split_beta update_session_def split: option.split)

type_synonym sample_env_type = "((string, link_session) dict, (string, string) dict, (string, bootstrap_entry) dict, unit, mfa_payload keyspace) link_env"
type_synonym sample_world_type = "((string, link_session) dict, (string, string) dict, (string, bootstrap_entry) dict, unit, mfa_payload keyspace) link_world"

definition sample_link_env :: sample_env_type where
  "sample_link_env = \<lparr>le_api = sample_api_env, le_store = mem_sessions, le_put_scopes = mem_put, le_issue = mem_issue, le_consume = mem_consume,
     le_generate = (\<lambda>tok q. Some (''pem'', q)), le_mfa_redis = ks_redis, le_ciphers = sample_ciphers, le_keys = sample_ks,
     le_jwt_encode = (\<lambda>_. ''jwt''), le_jwt_decode = (\<lambda>_. JwtInvalid), le_production = False, le_public_enabled = True, le_public_origins = '''',
     le_launch_expire = 60\<rparr>"

definition sample_link_world :: sample_world_type where
  "sample_link_world = \<lparr>lw_sessions = [(''tok'', sample_session)], lw_scopes = [], lw_boots = [], lw_keys = (), lw_mfa = \<lparr>mm_sessions = [], mm_redis = None\<rparr>,
     lw_db = sample_db, lw_published = [], lw_tasks = []\<rparr>"

definition leaky_body :: "(string, json) dict" where
  "leaky_body = [(''event'', JStr ''OPEN''), (''form'', JObj [(''password'', JStr ''pw''), (''step'', JInt 1)])]"

lemma sample_get: "get_session sample_link_env ''tok'' sample_link_world = (Some sample_session, sample_link_world)"
  by (simp add: get_session_def sample_link_env_def sample_link_world_def lnow_def mem_sessions_def mem_get_session_def sample_session_def
      session_stale_def session_created_def sample_api_env_def LINK_SESSION_TTL_def)


section \<open>A client cannot complete a session\<close>

text \<open>The fields a client must not write.\<close>

definition server_fields :: "string list" where
  "server_fields = [''public_token'', ''access_token'', ''user_id'', ''result'', ''current_job_id'', ''session_id'', ''allowed_origins'']"

definition client_updates_ok :: "link_session \<Rightarrow> bool" where
  "client_updates_ok u \<longleftrightarrow> set (map fst u) \<subseteq> {''status'', ''site'', ''error_message''} \<and> dict_ok u \<and> jget u ''status'' \<noteq> JStr ''completed''"

lemma if_both: "P a \<Longrightarrow> P b \<Longrightarrow> P (if c then a else b)"
  by simp

lemma event_updates_ok: "client_updates_ok (event_updates name body session)"
  unfolding event_updates_def opt_entry_def
  by (intro if_both [where P = client_updates_ok]) (simp_all add: client_updates_ok_def dict_ok_def jget_def)

lemma jget_dict_update: "dict_ok u \<Longrightarrow> jget (dict_update d u) k = (case map_of u k of None \<Rightarrow> jget d k | Some v \<Rightarrow> v)"
  by (simp add: jget_def map_of_dict_update map_of_rev_dict_ok split: option.split)

lemma jget_append_event: "k \<noteq> ''events'' \<Longrightarrow> jget (append_event ev d) k = jget d k"
  by (simp add: append_event_def jget_def)

lemma get_session_view:
  assumes "session_backend st view" "get_session e tok w = (r, w')" "le_store e = st" "view (lw_sessions w) (lnow e) tok = Some d" "d \<noteq> []" "\<not> session_stale (lnow e) d"
  shows "r = Some d \<and> w' = w"
proof -
  have "ls_get st (lnow e) tok (lw_sessions w) = (Some d, lw_sessions w)"
    by (rule session_backend.get_view [OF assms(1,4,5,6)])
  with assms(2,3) show ?thesis by (simp add: get_session_def)
qed

lemma fire_sessions:
  assumes "session_backend st view" "view s (lnow e) tok = Some d" "d \<noteq> []" "\<not> session_stale (lnow e) d"
  shows "snd (fire_webhooks_for_session c ks st (le_api e) tok hook data s db) = s"
proof -
  have "ls_get st (lnow e) tok s = (Some d, s)" by (rule session_backend.get_view [OF assms])
  then show ?thesis by (simp add: fire_webhooks_for_session_def lnow_def)
qed

lemma stale_cong: "jget d ''created_at'' = jget d' ''created_at'' \<Longrightarrow> session_stale now d = session_stale now d'"
  by (auto simp: session_stale_def session_created_def jget_def split: option.splits)

text \<open>What pushing an event leaves in the store: the event appended, then the updates.\<close>

lemma push_view:
  assumes b: "session_backend (le_store e) view" and d: "view (lw_sessions w) (lnow e) tok = Some d" "d \<noteq> []" "\<not> session_stale (lnow e) d"
    and u: "dict_ok updates" "''subscribers'' \<notin> set (map fst updates)" "''created_at'' \<notin> set (map fst updates)"
  shows "view (lw_sessions (push_link_session_event e tok name data updates w)) (lnow e) tok =
      Some (dict_update (append_event (JObj (build_link_session_event (le_api e) name data)) d) updates)" (is "_ = Some ?d")
proof -
  let ?a = "append_event (JObj (build_link_session_event (le_api e) name data)) d"
  let ?w1 = "w\<lparr>lw_sessions := snd (ls_append (le_store e) (lnow e) tok (JObj (build_link_session_event (le_api e) name data)) (lw_sessions w))\<rparr>"
  let ?w2 = "if updates \<noteq> [] then update_session e tok updates ?w1 else ?w1"
  have a: "view (lw_sessions ?w1) (lnow e) tok = Some ?a"
    using session_backend.append_view [OF b d(1,2)] by simp
  have sub: "map_of updates ''subscribers'' = None" using u(2) by (simp add: map_of_eq_None_iff)
  have v2: "view (lw_sessions ?w2) (lnow e) tok = Some ?d"
    using session_backend.update_view [OF b a _ sub] a by (auto simp: update_session_def)
  have "jget ?d ''created_at'' = jget d ''created_at''"
  proof -
    have "map_of updates ''created_at'' = None" using u(3) by (simp add: map_of_eq_None_iff)
    then show ?thesis by (simp add: jget_dict_update [OF u(1)] jget_append_event)
  qed
  then have st: "\<not> session_stale (lnow e) ?d" using d(3) stale_cong by blast
  have ne: "?d \<noteq> []" by simp
  have f: "snd (fire_webhooks_for_session (le_ciphers e) (le_keys e) (le_store e) (le_api e) tok hook (Some data) (lw_sessions ?w2) db) = lw_sessions ?w2" for hook db
    by (rule fire_sessions [OF b v2 ne st])
  show "view (lw_sessions (push_link_session_event e tok name data updates w)) (lnow e) tok = Some ?d"
    using v2 f by (cases "updates = []") (simp_all add: push_link_session_event_def Let_def split_beta split: option.split)
qed


lemma client_updates_fields:
  assumes "client_updates_ok u"
  shows "dict_ok u" "''subscribers'' \<notin> set (map fst u)" "''created_at'' \<notin> set (map fst u)"
    and "k \<in> set server_fields \<Longrightarrow> jget (dict_update d u) k = jget d k"
    and "jget (dict_update d u) ''status'' = JStr ''completed'' \<Longrightarrow> jget d ''status'' = JStr ''completed''"
proof -
  have keys: "set (map fst u) \<subseteq> {''status'', ''site'', ''error_message''}" and ok: "dict_ok u" and st: "jget u ''status'' \<noteq> JStr ''completed''"
    using assms by (auto simp: client_updates_ok_def)
  then show "dict_ok u" "''subscribers'' \<notin> set (map fst u)" "''created_at'' \<notin> set (map fst u)" by auto
  show "jget (dict_update d u) k = jget d k" if "k \<in> set server_fields"
  proof -
    have "k \<notin> set (map fst u)" using that keys by (auto simp: server_fields_def)
    then show ?thesis by (simp add: jget_dict_update [OF ok] map_of_eq_None_iff [THEN iffD2])
  qed
  show "jget d ''status'' = JStr ''completed''" if "jget (dict_update d u) ''status'' = JStr ''completed''"
    using that st jget_dict_update [OF ok, of d "''status''"] by (cases "map_of u ''status''") (auto simp: jget_def [of u])
qed




section \<open>Completion is announced once, unless the client reopens the session\<close>

lemma completed_payload:
  assumes "aj_status job = Job_completed"
  shows "serialize_access_job_runtime rd now fmt m job = (serialize_access_job fmt job, m)" "jget (serialize_access_job fmt job) ''status'' = JStr ''completed''"
  using assms by (simp_all add: serialize_access_job_runtime_def serialize_access_job_def jget_def Let_def)

text \<open>The updates of a completed session.\<close>

definition completed_updates :: "json \<Rightarrow> (string, json) dict \<Rightarrow> link_session \<Rightarrow> json \<Rightarrow> link_session" where
  "completed_updates job_id payload session public_token =
     base_updates job_id payload session @
     [(''error_message'', JNull), (''message'', JNull), (''result'', jget payload ''result''), (''status'', JStr ''completed'')] @
     opt_entry (truthy public_token) ''public_token'' public_token"

lemma jget_Cons: "jget ((k, v) # d) k' = (if k = k' then v else jget d k')"
  by (simp add: jget_def)

lemma completed_updates_ok:
  "dict_ok (completed_updates j p d t)" "''subscribers'' \<notin> set (map fst (completed_updates j p d t))"
  "''created_at'' \<notin> set (map fst (completed_updates j p d t))"
  "jget (completed_updates j p d t) ''status'' = JStr ''completed''" "jget (completed_updates j p d t) ''current_job_id'' = j"
  unfolding completed_updates_def base_updates_def opt_entry_def dict_ok_def
  by (auto simp: jget_Cons)

lemma jget_some: "jget u k = v \<Longrightarrow> v \<noteq> JNull \<Longrightarrow> map_of u k = Some v"
  by (auto simp: jget_def split: option.splits)

lemma update_session_view:
  assumes "session_backend (le_store e) view" "view (lw_sessions w) (lnow e) tok = Some d" "d \<noteq> []" "''subscribers'' \<notin> set (map fst u)"
  shows "view (lw_sessions (update_session e tok u w)) (lnow e) tok = Some (dict_update d u)"
proof -
  have "map_of u ''subscribers'' = None" using assms(4) by (simp add: map_of_eq_None_iff)
  from session_backend.update_view [OF assms(1-3) this] show ?thesis by (simp add: update_session_def)
qed

lemma ensure_public_token_jobs: "db_access_jobs (snd (ensure_public_token now u tok a uid db)) = db_access_jobs db"
  by (simp add: ensure_public_token_def Let_def split: option.split)

lemma session_public_token_jobs: "db_access_jobs (snd (session_public_token e u tok d db)) = db_access_jobs db"
  using ensure_public_token_jobs
  by (auto simp: session_public_token_def Let_def split_beta split: json.split)

lemma reconcile_completed:
  assumes b: "session_backend (le_store e) view" and d: "view (lw_sessions w) (lnow e) tok = Some d" "d \<noteq> []" "\<not> session_stale (lnow e) d"
    and st: "jget d ''status'' \<noteq> JStr ''expired''" and j: "jget d ''current_job_id'' = JStr jid" "jid \<noteq> ''''"
    and job: "find (\<lambda>j. aj_id j = jid) (db_access_jobs (lw_db w)) = Some job" "aj_status job = Job_completed"
  shows "\<exists>d' data. view (lw_sessions (snd (reconcile_link_session e u tok None w))) (lnow e) tok = Some d' \<and> d' \<noteq> [] \<and> \<not> session_stale (lnow e) d' \<and>
    jget d' ''status'' = JStr ''completed'' \<and> jget d' ''current_job_id'' = JStr jid \<and>
    db_access_jobs (lw_db (snd (reconcile_link_session e u tok None w))) = db_access_jobs (lw_db w) \<and>
    lw_published (snd (reconcile_link_session e u tok None w)) = lw_published w @
      (if jget d ''status'' \<noteq> JStr ''completed'' then [(tok, build_link_session_event (le_api e) ''CONNECTED'' data)] else []) \<and>
    (jget d ''status'' = JStr ''completed'' \<longrightarrow> lw_tasks (snd (reconcile_link_session e u tok None w)) = lw_tasks w)"
proof -
  let ?p = "serialize_access_job (en_isoformat (le_api e)) job"
  obtain s0 w0 where "get_session e tok w = (s0, w0)" by fastforce
  with get_session_view [OF b _ refl d] have g: "get_session e tok w = (Some d, w)" by blast
  obtain t db where t: "session_public_token e u tok d (lw_db w) = (t, db)" by fastforce
  let ?u = "completed_updates (JStr jid) ?p d t"
  let ?data = "[(''job_id'', JStr jid), (''public_token'', t), (''site'', jget (base_updates (JStr jid) ?p d) ''site'')]"
  let ?w1 = "transition e tok (jget d ''status'') ''completed'' ''CONNECTED'' ?data ?u (w\<lparr>lw_db := db\<rparr>)"
  have settle: "settle_session e u tok (JStr jid) ?p d w = ?w1"
    by (simp add: settle_session_def completed_payload(2) [OF job(2)] t completed_updates_def Let_def)
  have db: "db_access_jobs db = db_access_jobs (lw_db w)" using session_public_token_jobs [of e u tok d "lw_db w"] t by simp
  have d2: "view (lw_sessions (w\<lparr>lw_db := db\<rparr>)) (lnow e) tok = Some d" using d(1) by simp
  have c: "jget (dict_update (f d) ?u) ''created_at'' = jget d ''created_at''" if "jget (f d) ''created_at'' = jget d ''created_at''" for f
    using that completed_updates_ok(3) [of "JStr jid" ?p d t] by (simp add: jget_dict_update completed_updates_ok(1) map_of_eq_None_iff [THEN iffD2])
  have fields: "jget (dict_update x ?u) ''status'' = JStr ''completed''" "jget (dict_update x ?u) ''current_job_id'' = JStr jid" for x
    using completed_updates_ok(4,5) [of "JStr jid" ?p d t, THEN jget_some] by (simp_all add: jget_dict_update completed_updates_ok(1))
  have "\<exists>d'. view (lw_sessions ?w1) (lnow e) tok = Some d' \<and> d' \<noteq> [] \<and> \<not> session_stale (lnow e) d' \<and>
      jget d' ''status'' = JStr ''completed'' \<and> jget d' ''current_job_id'' = JStr jid"
  proof (cases "jget d ''status'' = JStr ''completed''")
    case True
    have "view (lw_sessions ?w1) (lnow e) tok = Some (dict_update d ?u)"
      using True update_session_view [OF b d2 d(2) completed_updates_ok(2)] by (simp add: transition_def)
    moreover have "jget (dict_update d ?u) ''created_at'' = jget d ''created_at''" by (rule c) simp
    then have "\<not> session_stale (lnow e) (dict_update d ?u)" using d(3) stale_cong by metis
    moreover have "dict_update d ?u \<noteq> []" using d(2) by simp
    ultimately show ?thesis using fields by blast
  next
    case False
    let ?a = "append_event (JObj (build_link_session_event (le_api e) ''CONNECTED'' ?data)) d"
    have "view (lw_sessions ?w1) (lnow e) tok = Some (dict_update ?a ?u)"
      using False push_view [OF b d2 d(2,3) completed_updates_ok(1,2,3)] by (simp add: transition_def)
    moreover have "jget (dict_update ?a ?u) ''created_at'' = jget d ''created_at''" by (rule c) (simp add: jget_append_event)
    then have "\<not> session_stale (lnow e) (dict_update ?a ?u)" using d(3) stale_cong by metis
    moreover have "dict_update ?a ?u \<noteq> []" by simp
    ultimately show ?thesis using fields by blast
  qed
  then obtain d' where d': "view (lw_sessions ?w1) (lnow e) tok = Some d'" "d' \<noteq> []" "\<not> session_stale (lnow e) d'"
    "jget d' ''status'' = JStr ''completed''" "jget d' ''current_job_id'' = JStr jid" by blast
  obtain s1 w2 where g2: "get_session e tok ?w1 = (s1, w2)" by fastforce
  from get_session_view [OF b g2 refl d'(1-3)] have w2: "w2 = ?w1" by blast
  have "snd (reconcile_link_session e u tok None w) = ?w1"
    using d(2) st j job g2 w2 by (simp add: reconcile_link_session_def g completed_payload(1) settle Let_def)
  moreover have "lw_published ?w1 = lw_published w @ (if jget d ''status'' \<noteq> JStr ''completed'' then [(tok, build_link_session_event (le_api e) ''CONNECTED'' ?data)] else [])"
    by (simp add: transition_def push_published)
  moreover have "db_access_jobs (lw_db ?w1) = db_access_jobs (lw_db w)"
    using db by (simp add: transition_def update_session_def push_link_session_event_def Let_def split_beta split: option.split)
  moreover have "jget d ''status'' = JStr ''completed'' \<longrightarrow> lw_tasks ?w1 = lw_tasks w"
    by (simp add: transition_def update_session_def)
  ultimately show ?thesis using d' by metis
qed

lemma status_polls: "snd (get_link_session_status e u tok w) = snd (reconcile_link_session e u tok None w)"
  by (auto simp: get_link_session_status_def split: prod.split option.split)

lemma polls_after_completion:
  assumes "session_backend (le_store e) view" "view (lw_sessions w) (lnow e) tok = Some d" "d \<noteq> []" "\<not> session_stale (lnow e) d"
    and "jget d ''status'' = JStr ''completed''" "jget d ''current_job_id'' = JStr jid" "jid \<noteq> ''''"
    and "find (\<lambda>j. aj_id j = jid) (db_access_jobs (lw_db w)) = Some job" "aj_status job = Job_completed"
  shows "lw_published (fold (\<lambda>u w. snd (get_link_session_status e u tok w)) us w) = lw_published w \<and>
    lw_tasks (fold (\<lambda>u w. snd (get_link_session_status e u tok w)) us w) = lw_tasks w"
  using assms
proof (induction us arbitrary: w d)
  case (Cons u us)
  have "jget d ''status'' \<noteq> JStr ''expired''" using Cons.prems(5) by simp
  from reconcile_completed [OF Cons.prems(1-4) this Cons.prems(6-9), of u] Cons.prems(5)
  obtain d' where r: "view (lw_sessions (snd (reconcile_link_session e u tok None w))) (lnow e) tok = Some d'" "d' \<noteq> []" "\<not> session_stale (lnow e) d'"
      "jget d' ''status'' = JStr ''completed''" "jget d' ''current_job_id'' = JStr jid"
      "db_access_jobs (lw_db (snd (reconcile_link_session e u tok None w))) = db_access_jobs (lw_db w)"
      "lw_published (snd (reconcile_link_session e u tok None w)) = lw_published w"
      "lw_tasks (snd (reconcile_link_session e u tok None w)) = lw_tasks w"
    by auto
  have "find (\<lambda>j. aj_id j = jid) (db_access_jobs (lw_db (snd (reconcile_link_session e u tok None w)))) = Some job"
    using Cons.prems(8) r(6) by simp
  from Cons.IH [OF Cons.prems(1) r(1-5) Cons.prems(7) this Cons.prems(9)] r(7,8)
  show ?case by (simp add: status_polls)
qed simp

text \<open>On either back end, polling a session whose job has completed announces the completion exactly once, however often the
  page polls: one CONNECTED event is published, by the first poll, and later polls start no webhook.\<close>

theorem completion_announced_once:
  assumes "session_backend (le_store e) view" "view (lw_sessions w) (lnow e) tok = Some d" "d \<noteq> []" "\<not> session_stale (lnow e) d"
    and "jget d ''status'' \<noteq> JStr ''expired''" "jget d ''status'' \<noteq> JStr ''completed''" "jget d ''current_job_id'' = JStr jid" "jid \<noteq> ''''"
    and "find (\<lambda>j. aj_id j = jid) (db_access_jobs (lw_db w)) = Some job" "aj_status job = Job_completed"
  shows "\<exists>data. \<forall>us.
    lw_published (fold (\<lambda>u w. snd (get_link_session_status e u tok w)) (u # us) w) = lw_published w @ [(tok, build_link_session_event (le_api e) ''CONNECTED'' data)] \<and>
    lw_tasks (fold (\<lambda>u w. snd (get_link_session_status e u tok w)) (u # us) w) = lw_tasks (snd (get_link_session_status e u tok w))"
proof -
  let ?w = "snd (reconcile_link_session e u tok None w)"
  from reconcile_completed [OF assms(1-5,7-10), of u] assms(6)
  obtain d' data where r: "view (lw_sessions ?w) (lnow e) tok = Some d'" "d' \<noteq> []" "\<not> session_stale (lnow e) d'"
      "jget d' ''status'' = JStr ''completed''" "jget d' ''current_job_id'' = JStr jid"
      "db_access_jobs (lw_db ?w) = db_access_jobs (lw_db w)"
      "lw_published ?w = lw_published w @ [(tok, build_link_session_event (le_api e) ''CONNECTED'' data)]"
    by auto
  have "find (\<lambda>j. aj_id j = jid) (db_access_jobs (lw_db ?w)) = Some job" using assms(9) r(6) by simp
  from polls_after_completion [OF assms(1) r(1-5) assms(8) this assms(10)] r(7)
  show ?thesis by (intro exI [of _ data] allI) (simp add: status_polls)
qed

definition submitted_event :: "(string, json) dict" where
  "submitted_event = [(''event'', JStr ''CREDENTIALS_SUBMITTED'')]"

text \<open>An event posted to a completed session takes the completion back, and the next poll announces it again.\<close>

theorem client_event_reopens_completed_session:
  assumes "session_backend (le_store e) view" "view (lw_sessions w) (lnow e) tok = Some d" "d \<noteq> []" "\<not> session_stale (lnow e) d"
    and "jget d ''status'' = JStr ''completed''" "jget d ''current_job_id'' = JStr jid" "jid \<noteq> ''''"
    and "find (\<lambda>j. aj_id j = jid) (db_access_jobs (lw_db w)) = Some job" "aj_status job = Job_completed"
  shows "\<exists>data. lw_published (snd (get_link_session_status e u tok (snd (post_link_session_event e tok submitted_event w)))) =
    lw_published w @ [(tok, build_link_session_event (le_api e) ''CREDENTIALS_SUBMITTED'' []),
      (tok, build_link_session_event (le_api e) ''CONNECTED'' data)]"
proof -
  let ?u = "[(''status'', JStr ''connecting'')]"
  let ?w = "push_link_session_event e tok ''CREDENTIALS_SUBMITTED'' [] ?u w"
  let ?d = "dict_update (append_event (JObj (build_link_session_event (le_api e) ''CREDENTIALS_SUBMITTED'' [])) d) ?u"
  obtain s0 w0 where "get_session e tok w = (s0, w0)" by fastforce
  with get_session_view [OF assms(1) _ refl assms(2-4)] have g: "get_session e tok w = (Some d, w)" by blast
  have ok: "dict_ok ?u" "''subscribers'' \<notin> set (map fst ?u)" "''created_at'' \<notin> set (map fst ?u)" by (simp_all add: dict_ok_def)
  have "snd (post_link_session_event e tok submitted_event w) = ?w"
    using assms(3,5) by (simp add: post_link_session_event_def g submitted_event_def jget_default_def sanitize_dict_def drop_forbidden_def event_updates_def)
  moreover have v: "view (lw_sessions ?w) (lnow e) tok = Some ?d" by (rule push_view [OF assms(1-4) ok])
  have f: "jget ?d ''status'' = JStr ''connecting''" "jget ?d ''current_job_id'' = JStr jid" "jget ?d ''created_at'' = jget d ''created_at''"
    unfolding jget_dict_update [OF ok(1)] by (simp_all add: jget_append_event assms(6))
  have n: "?d \<noteq> []" by (rule dict_update_nonempty) simp
  have fresh: "\<not> session_stale (lnow e) ?d" using assms(4) stale_cong [OF f(3)] by blast
  have db: "lw_db ?w = lw_db w" by (simp add: push_link_session_event_def update_session_def webhook_event_map_def Let_def)
  have j: "find (\<lambda>j. aj_id j = jid) (db_access_jobs (lw_db ?w)) = Some job" using assms(8) db by simp
  have st: "jget ?d ''status'' \<noteq> JStr ''expired''" "jget ?d ''status'' \<noteq> JStr ''completed''" using f(1) by simp_all
  have "\<exists>data. lw_published (snd (reconcile_link_session e u tok None ?w)) =
      lw_published ?w @ [(tok, build_link_session_event (le_api e) ''CONNECTED'' data)]"
    using reconcile_completed [OF assms(1) v n fresh st(1) f(2) assms(7) j assms(9), of u] st(2) by auto
  ultimately show ?thesis by (auto simp: status_polls push_published)
qed

definition job_session :: "string \<Rightarrow> link_session" where
  "job_session status = [(''status'', JStr status), (''created_at'', JNum 0), (''current_job_id'', JStr ''j1'')]"

definition job_link_world :: "string \<Rightarrow> sample_world_type" where
  "job_link_world status = sample_link_world\<lparr>lw_sessions := [(''tok'', job_session status)],
     lw_db := sample_db\<lparr>db_access_jobs := [sample_job\<lparr>aj_status := Job_completed\<rparr>]\<rparr>\<rparr>"

lemma job_link_world_facts:
  "session_backend (le_store sample_link_env) (\<lambda>s now tok. present (map_of s tok))"
  "present (map_of (lw_sessions (job_link_world status)) ''tok'') = Some (job_session status)" "job_session status \<noteq> []"
  "\<not> session_stale (lnow sample_link_env) (job_session status)" "jget (job_session status) ''status'' = JStr status"
  "jget (job_session status) ''current_job_id'' = JStr ''j1''"
  "find (\<lambda>j. aj_id j = ''j1'') (db_access_jobs (lw_db (job_link_world status))) = Some (sample_job\<lparr>aj_status := Job_completed\<rparr>)"
  "lw_published (job_link_world status) = []"
proof -
  show "session_backend (le_store sample_link_env) (\<lambda>s now tok. present (map_of s tok))"
    unfolding sample_link_env_def link_env.simps by (rule mem_backend.session_backend_axioms)
qed (simp_all add: job_link_world_def job_session_def present_def session_stale_def session_created_def lnow_def sample_link_env_def
    sample_api_env_def LINK_SESSION_TTL_def jget_Cons sample_job_def sample_link_world_def)

theorem completion_announced_once_witness:
  "length (lw_published (fold (\<lambda>u w. snd (get_link_session_status sample_link_env u ''tok'' w)) [''u1'', ''u2'', ''u3''] (job_link_world ''connecting''))) = 1"
proof -
  from completion_announced_once [OF job_link_world_facts(1) job_link_world_facts(2,3,4) [where status = "''connecting''"] _ _ job_link_world_facts(6) _
      job_link_world_facts(7), of "''u1''"]
  obtain data where "\<And>us. lw_published (fold (\<lambda>u w. snd (get_link_session_status sample_link_env u ''tok'' w)) (''u1'' # us) (job_link_world ''connecting'')) =
      lw_published (job_link_world ''connecting'') @ [(''tok'', build_link_session_event (le_api sample_link_env) ''CONNECTED'' data)]"
    by (force simp: job_link_world_facts(5) sample_job_def)
  from this [of "[''u2'', ''u3'']"] show ?thesis by (simp add: job_link_world_facts(8))
qed

theorem client_event_reopens_completed_session_witness:
  "length (lw_published (snd (get_link_session_status sample_link_env ''u1'' ''tok''
     (snd (post_link_session_event sample_link_env ''tok'' submitted_event (job_link_world ''completed'')))))) = 2"
proof -
  have "JStr ''completed'' = JStr ''completed''" "''j1'' \<noteq> ''''" by simp_all
  from client_event_reopens_completed_session [OF job_link_world_facts(1) job_link_world_facts(2,3,4,5) [where status = "''completed''"] job_link_world_facts(6) this(2)
      job_link_world_facts(7), of "''u1''"] show ?thesis
    by (auto simp: job_link_world_facts(8) sample_job_def)
qed

section \<open>From the launch token to the session\<close>

lemma text_list_JStr [simp]: "text_list (JList (map JStr xs)) = Some xs"
  by (induction xs) simp_all

lemma launch_payload_fields:
  assumes "site \<noteq> ''''"
  shows "jget (launch_payload now lid uid (Some site) (Some a) aos scopes x) ''typ'' = JStr LINK_LAUNCH_TOKEN_TYPE"
    and "jget (launch_payload now lid uid (Some site) (Some a) aos scopes x) ''jti'' = JStr lid"
    and "jget (launch_payload now lid uid (Some site) (Some a) aos scopes x) ''sub'' = JStr (show_int uid)"
    and "jget (launch_payload now lid uid (Some site) (Some a) aos scopes x) ''site'' = JStr site"
    and "jget (launch_payload now lid uid (Some site) (Some a) aos scopes x) ''scopes'' = scopes"
    and "payload_origins (launch_payload now lid uid (Some site) (Some a) aos scopes x) =
      Some (if a = '''' then None else Some (rstrip_slash a), case aos of None \<Rightarrow> [] | Some as \<Rightarrow> map rstrip_slash as)"
proof -
  have "text_list (JList (map (\<lambda>a. JStr (rstrip_slash a)) as)) = Some (map rstrip_slash as)" for as
    using text_list_JStr [of "map rstrip_slash as"] by (simp add: comp_def)
  with assms show "payload_origins (launch_payload now lid uid (Some site) (Some a) aos scopes x) =
      Some (if a = '''' then None else Some (rstrip_slash a), case aos of None \<Rightarrow> [] | Some as \<Rightarrow> map rstrip_slash as)"
    by (cases aos) (simp_all add: launch_payload_def payload_origins_def jget_def)
qed (use assms in \<open>auto simp: launch_payload_def jget_def split: option.split\<close>)

lemma exchange_spends:
  assumes "redeem_once issue (le_consume e) spent room" "le_jwt_decode e t = JwtPayload p" "jget p ''jti'' = JStr lid" "spent lid (lw_boots w)"
  shows "\<exists>err. fst (exchange_link_bootstrap e headers t tok w) = Inl err"
proof -
  have "\<not> fst (le_consume e (lnow e) lid (lw_boots w))" using redeem_once.spent_refused [OF assms(1,4)] .
  then show ?thesis
    using assms(2,3) by (auto simp: exchange_link_bootstrap_def decode_link_launch_token_def Let_def split: option.splits prod.splits)
qed

lemma ephemeral_boots: "create_ephemeral_link_session e tok site u db sc ao aos w = (r, w') \<Longrightarrow> lw_boots w' = lw_boots w"
  by (auto simp: create_ephemeral_link_session_def Let_def split: option.splits prod.splits if_splits)

lemma ephemeral_creates:
  assumes "session_backend (le_store e) view" "le_generate e tok (lw_keys w) = Some (pem, q)"
  shows "\<exists>reply w' d. create_ephemeral_link_session e tok (Some site) (Some uid) True scopes ao aos w = (Inr reply, w') \<and>
    jget reply ''link_token'' = JStr tok \<and> jget reply ''scopes'' = scopes \<and>
    view (lw_sessions w') (lnow e) tok = Some d \<and> jget d ''user_id'' = JInt uid \<and> jget d ''site'' = JStr site \<and>
    jget d ''status'' = JStr ''awaiting_institution'' \<and> jget d ''access_token'' = JNull"
proof -
  let ?s = "new_session (Some site) (Some uid) ao aos"
  have "map_of ?s ''created_at'' = None" by (simp add: new_session_def)
  from session_backend.created [OF assms(1) _ _ this, where now = "lnow e" and now' = "lnow e" and tok = tok and s = "lw_sessions w"]
  obtain d where d: "view (ls_create (le_store e) (lnow e) tok ?s (lw_sessions w)) (lnow e) tok = Some d"
    "\<And>k. k \<noteq> ''subscribers'' \<Longrightarrow> map_of d k = map_of (stamp (lnow e) ?s) k" by (auto simp: LINK_SESSION_TTL_def)
  have "jget d ''user_id'' = JInt uid" "jget d ''site'' = JStr site" "jget d ''status'' = JStr ''awaiting_institution''" "jget d ''access_token'' = JNull"
    by (simp_all add: jget_def d(2)) (simp_all add: stamp_def new_session_def)
  with d(1) assms(2) show ?thesis
    by (auto simp: create_ephemeral_link_session_def Let_def jget_Cons)
qed

text \<open>The same environment at another time.\<close>

definition later :: "('s, 'c, 'b, 'q, 'r) link_env \<Rightarrow> time \<Rightarrow> ('s, 'c, 'b, 'q, 'r) link_env" where
  "later e now = e\<lparr>le_api := (le_api e)\<lparr>en_now := now\<rparr>\<rparr>"

lemma later_simps [simp]: "lnow (later e now) = now" "le_store (later e now) = le_store e" "le_consume (later e now) = le_consume e"
  "le_jwt_decode (later e now) = le_jwt_decode e" "le_generate (later e now) = le_generate e"
  by (simp_all add: later_def lnow_def)

text \<open>C30. On every back end a launch token issued for a user and a site, redeemed from an allowed origin before it expires,
  opens a session of that user at that site with exactly the scopes that were granted when it was issued; a second redemption, from
  anywhere and at any later time, is refused.\<close>

theorem launch_token_opens_one_session:
  assumes "session_backend (le_store e) view" "redeem_once (le_issue e) (le_consume e) spent room" "room (lw_boots w)"
    and "constrain_requested_scopes (en_rep (le_api e)) ctx (hb_scopes body) = Inr scopes"
    and "p = launch_payload (lnow e) lid uid (Some site) (Some ao) (hb_allowed_origins body) scopes (le_launch_expire e)"
    and "le_jwt_decode e (le_jwt_encode e p) = JwtPayload p"
    and "hb_site body = Some site" "site \<noteq> ''''" "hb_allowed_origin body = Some ao" "rstrip_slash ao \<noteq> ''''" "lid \<noteq> ''''"
    and "create_link_bootstrap e ctx lid uid body w = (Inr t, w1)"
    and "lnow e \<le> now'" "now' < lnow e + of_int (le_launch_expire e)"
    and "extract_request_origin headers = Some org" "rstrip_slash org = rstrip_slash ao"
    and "le_generate e tok (lw_keys w1) = Some (pem, q)"
  shows "\<exists>reply w2 d. exchange_link_bootstrap (later e now') headers t tok w1 = (Inr reply, w2) \<and>
    jget reply ''link_token'' = JStr tok \<and> jget reply ''scopes'' = scopes \<and>
    view (lw_sessions w2) now' tok = Some d \<and> jget d ''user_id'' = JInt uid \<and> jget d ''site'' = JStr site \<and>
    (\<forall>now'' headers' tok'. \<exists>err. fst (exchange_link_bootstrap (later e now'') headers' t tok' w2) = Inl err)"
proof -
  note sc = assms(4)
  have t: "t = le_jwt_encode e p" and w1: "w1 = w\<lparr>lw_boots := le_issue e (lnow e) lid (le_launch_expire e) (lw_boots w)\<rparr>"
    using assms(4,5,7,8,9,12)
    by (auto simp: create_link_bootstrap_def create_link_launch_token_def split: sum.splits if_splits)
  let ?aos = "case hb_allowed_origins body of None \<Rightarrow> [] | Some as \<Rightarrow> map rstrip_slash as"
  note pf = launch_payload_fields [OF assms(8), where now = "lnow e" and lid = lid and uid = uid and aos = "hb_allowed_origins body" and scopes = scopes
      and x = "le_launch_expire e" and a = ao, folded assms(5)]
  have dec: "decode_link_launch_token (later e now) t = JwtPayload p" for now
    by (simp add: decode_link_launch_token_def t assms(6) pf(1))
  have "0 < le_launch_expire e" using assms(13,14) by simp
  then have ok: "fst (le_consume e now' lid (lw_boots w1))"
    using redeem_once.issued_redeems [OF assms(2,3) _ assms(13,14)] by (simp add: w1)
  let ?b = "snd (le_consume e now' lid (lw_boots w1))"
  let ?w = "w1\<lparr>lw_boots := ?b\<rparr>"
  have origin: "\<not> origin_refused (Some org) (Some (rstrip_slash ao)) ?aos"
    using assms(10,16) by (simp add: origin_refused_def allowed_set_def)
  have [simp]: "ao \<noteq> ''''" using assms(10) by (auto simp: rstrip_slash_def rstrip_of_def)
  note fields = pf(6) dec origin pf(2-5) sc
  have gen: "le_generate (later e now') tok (lw_keys ?w) = Some (pem, q)" using assms(17) by simp
  have bk: "session_backend (le_store (later e now')) view" using assms(1) by simp
  from ephemeral_creates [OF bk gen, of site uid scopes "Some (rstrip_slash ao)" ?aos]
  obtain reply w2 d where c: "create_ephemeral_link_session (later e now') tok (Some site) (Some uid) True scopes (Some (rstrip_slash ao)) ?aos ?w = (Inr reply, w2)"
    "jget reply ''link_token'' = JStr tok" "jget reply ''scopes'' = scopes" "view (lw_sessions w2) now' tok = Some d"
    "jget d ''user_id'' = JInt uid" "jget d ''site'' = JStr site" by auto
  have x: "exchange_link_bootstrap (later e now') headers t tok w1 = (Inr reply, w2)"
    using fields ok assms(11,15) c(1) by (simp add: exchange_link_bootstrap_def Let_def split_beta)
  have "spent lid ?b" using redeem_once.consume_spends [OF assms(2) ok] .
  then have "spent lid (lw_boots w2)" using ephemeral_boots [OF c(1)] by simp
  then have "\<exists>err. fst (exchange_link_bootstrap (later e now'') headers' t tok' w2) = Inl err" for now'' headers' tok'
    using assms(2) by (intro exchange_spends [where p = p and lid = lid and spent = spent and issue = "le_issue e" and room = room])
      (simp_all add: t assms(6) pf(2))
  with x c(2-) show ?thesis by blast
qed

definition sample_body :: bootstrap_request where
  "sample_body = \<lparr>hb_site = Some ''bank'', hb_allowed_origin = Some ''https://app'', hb_allowed_origins = None, hb_scopes = JNull\<rparr>"

definition launch_env :: sample_env_type where
  "launch_env = sample_link_env\<lparr>le_jwt_decode :=
     (\<lambda>_. JwtPayload (launch_payload 5 ''lid'' 1 (Some ''bank'') (Some ''https://app'') None JNull 60))\<rparr>"

theorem launch_token_opens_one_session_witness:
  "\<exists>reply w2. exchange_link_bootstrap (later launch_env 20) [(''origin'', ''https://app'')] ''jwt'' ''new''
      (snd (create_link_bootstrap launch_env None ''lid'' 1 sample_body sample_link_world)) = (Inr reply, w2) \<and>
    (\<exists>err. fst (exchange_link_bootstrap (later launch_env 21) [(''origin'', ''https://app'')] ''jwt'' ''new2'' w2) = Inl err)"
proof -
  have bk: "session_backend (le_store launch_env) (\<lambda>s now tok. present (map_of s tok))"
    "redeem_once (le_issue launch_env) (le_consume launch_env) mem_spent (\<lambda>d. dict_ok d \<and> length d < MAX_MEM_LINK_LAUNCH_BOOTSTRAPS)"
    unfolding launch_env_def sample_link_env_def link_env.simps
    by (rule mem_backend.session_backend_axioms, rule mem_bootstraps.redeem_once_axioms)
  have env: "lnow launch_env = 5" "le_launch_expire launch_env = 60" "le_jwt_encode launch_env p = ''jwt''"
    "le_jwt_decode launch_env t = JwtPayload (launch_payload 5 ''lid'' 1 (Some ''bank'') (Some ''https://app'') None JNull 60)"
    "le_generate launch_env tok q = Some (''pem'', q)" for p t tok q
    by (simp_all add: launch_env_def sample_link_env_def lnow_def sample_api_env_def)
  have c: "create_link_bootstrap launch_env None ''lid'' 1 sample_body sample_link_world =
      (Inr ''jwt'', snd (create_link_bootstrap launch_env None ''lid'' 1 sample_body sample_link_world))"
    by (simp add: create_link_bootstrap_def sample_body_def ensure_site_allowed_for_request_def constrain_requested_scopes_def
        get_principal_allowed_scopes_def create_link_launch_token_def env)
  have "\<exists>reply w2 d. exchange_link_bootstrap (later launch_env 20) [(''origin'', ''https://app'')] ''jwt'' ''new''
      (snd (create_link_bootstrap launch_env None ''lid'' 1 sample_body sample_link_world)) = (Inr reply, w2) \<and>
    jget reply ''link_token'' = JStr ''new'' \<and> jget reply ''scopes'' = JNull \<and>
    present (map_of (lw_sessions w2) ''new'') = Some d \<and> jget d ''user_id'' = JInt 1 \<and> jget d ''site'' = JStr ''bank'' \<and>
    (\<forall>now'' headers' tok'. \<exists>err. fst (exchange_link_bootstrap (later launch_env now'') headers' ''jwt'' tok' w2) = Inl err)"
  proof (rule launch_token_opens_one_session [OF bk _ _ refl _ _ _ _ _ _ c, where org = "''https://app''" and site = "''bank''" and ao = "''https://app''" and scopes = JNull and pem = "''pem''" and q = "()"], goal_cases)
    case 1
    show ?case by (simp add: sample_link_world_def dict_ok_def MAX_MEM_LINK_LAUNCH_BOOTSTRAPS_def)
  next
    case 2
    show ?case by (simp add: constrain_requested_scopes_def get_principal_allowed_scopes_def sample_body_def)
  next
    case 3
    show ?case by (simp add: env sample_body_def)
  qed (simp_all add: env sample_body_def extract_request_origin_def rstrip_slash_def rstrip_of_def)
  then show ?thesis by blast
qed

end
