(* ===== verification/Connection.thy ===== *)
theory Connection imports Links Link_Sessions Job_API begin

text \<open>
  \<^verbatim>\<open>src/routers/connection.py\<close>: the one-step flow. Credentials are resolved, stored for a hosted session, and an access job is started;
  the handler waits for it a short time, then looks for an MFA prompt, and answers with the data, the prompt or \<^verbatim>\<open>pending\<close>. A hosted
  session is told of each.

  The world is the one of \<^verbatim>\<open>Link_Sessions\<close>. What the background task does while the handler waits is an argument: how the wait ends
  (\<open>connect_end\<close>) and the world it leaves. The polls for an MFA session are those of \<^verbatim>\<open>Job_API\<close>.
\<close>

section \<open>Requests, answers and the task\<close>

record connect_request =
  cq_site :: string
  cq_form :: credential_form
  cq_link_token :: "string option"
  cq_extract_fields :: "string list option"

record connect_response =
  cs_status :: string
  cs_job_id :: "string option"
  cs_session_id :: "string option"
  cs_mfa_type :: "string option"
  cs_metadata :: json

text \<open>The answer of the endpoint: the data of the finished job, or a \<^verbatim>\<open>ConnectResponse\<close>.\<close>

datatype connect_answer = Job_data "(string, json) dict" | Response connect_response

text \<open>How a wait for the task ends: the job with its data, an MFA error (its type, session, text and job), another exception, or the
  time is over.\<close>

record mfa_error =
  me_mfa_type :: string
  me_session_id :: "string option"
  me_message :: string
  me_job_id :: "string option"

datatype connect_end = Finished access_job "(string, json) dict" | Mfa_required mfa_error | Failed http_error | Still_running

record ('s, 'c, 'b, 'q, 'r) connect_env =
  ce_link :: "('s, 'c, 'b, 'q, 'r) link_env"
  ce_pop_scopes :: "time \<Rightarrow> string \<Rightarrow> 'c \<Rightarrow> string option \<times> 'c"
  ce_kms :: kms
  ce_resolve :: "string option \<Rightarrow> credential_form \<Rightarrow> 'q \<Rightarrow> (http_error + string \<times> string) \<times> 'q"
  ce_commit_ok :: bool
  ce_new_job_id :: string
  ce_new_session_id :: string
  ce_new_token :: string
  ce_nonces :: "string \<times> string"
  ce_new_uuid :: string

abbreviation ce_now :: "('s, 'c, 'b, 'q, 'r) connect_env \<Rightarrow> time" where "ce_now c \<equiv> lnow (ce_link c)"

section \<open>The access token of a hosted session\<close>

definition jint_opt :: "json \<Rightarrow> int option" where
  "jint_opt v = (case v of JInt i \<Rightarrow> Some i | _ \<Rightarrow> None)"

definition newest_token :: "string \<Rightarrow> int \<Rightarrow> app_db \<Rightarrow> token_row option" where
  "newest_token link_token uid db =
     (case sort_key (\<lambda>t. - at_updated_at t) (filter (\<lambda>t. at_link_token t = link_token \<and> at_user_id t = uid) (db_access_tokens db)) of
        [] \<Rightarrow> None | t # _ \<Rightarrow> Some t)"

definition attach_link :: "string \<Rightarrow> string \<Rightarrow> int \<Rightarrow> app_db \<Rightarrow> app_db" where
  "attach_link link_token site uid db =
     (case find (\<lambda>l. ln_link_token l = link_token) (db_links db) of
        None \<Rightarrow> db\<lparr>db_links := db_links db @ [\<lparr>ln_link_token = link_token, ln_site = site, ln_user_id = uid\<rparr>]\<rparr>
      | Some link \<Rightarrow>
          if ln_site link \<noteq> site then db\<lparr>db_links := update_where (\<lambda>l. ln_link_token l = link_token) (\<lambda>l. l\<lparr>ln_site := site\<rparr>) (db_links db)\<rparr> else db)"

definition ensure_hosted_link_access_token ::
  "('s, 'c, 'b, 'q, 'r) connect_env \<Rightarrow> string \<Rightarrow> string \<Rightarrow> string \<Rightarrow> string \<Rightarrow> ('s, 'c, 'b, 'q, 'r) link_world \<Rightarrow>
   ((link_session option \<times> string option \<times> int option) option) \<times> ('s, 'c, 'b, 'q, 'r) link_world" where
  "ensure_hosted_link_access_token c link_token site username password w =
     (case get_session (ce_link c) link_token w of
        (None, w) \<Rightarrow> (Some (None, None, None), w)
      | (Some session, w) \<Rightarrow>
          if session = [] then (Some (None, None, None), w)
          else (case jint_opt (jget session ''user_id'') of
            None \<Rightarrow> (Some (Some session, None, None), w)
          | Some uid \<Rightarrow>
              (case find_user (lw_db w) uid of
                 None \<Rightarrow> (Some (None, None, None), w)
               | Some user \<Rightarrow>
                   let db = attach_link link_token site uid (lw_db w);
                       seal_for = encrypt_credential_for_user (le_ciphers (ce_link c)) (le_keys (ce_link c)) (ce_kms c) user;
                       version = get_current_key_version (le_keys (ce_link c))
                   in (case (seal_for (fst (ce_nonces c)) username, seal_for (snd (ce_nonces c)) password) of
                        (Some un, Some pw) \<Rightarrow>
                          (case newest_token link_token uid db of
                             None \<Rightarrow>
                               let (scopes, s) = ce_pop_scopes c (ce_now c) link_token (lw_scopes w);
                                   row = \<lparr>at_token = ce_new_token c, at_link_token = link_token, at_username_encrypted = un, at_password_encrypted = pw,
                                     at_instructions = None, at_scopes = map_option (en_parse (le_api (ce_link c))) scopes, at_user_id = uid,
                                     at_key_version = version, at_updated_at = ce_now c\<rparr>
                               in (Some (Some session, Some (ce_new_token c), Some uid),
                                   w\<lparr>lw_scopes := s, lw_db := db\<lparr>db_access_tokens := db_access_tokens db @ [row]\<rparr>\<rparr>)
                           | Some t \<Rightarrow>
                               (Some (Some session, Some (at_token t), Some uid),
                                w\<lparr>lw_db := db\<lparr>db_access_tokens := update_where (\<lambda>x. at_token x = at_token t)
                                  (\<lambda>x. x\<lparr>at_username_encrypted := un, at_password_encrypted := pw, at_key_version := version, at_updated_at := ce_now c\<rparr>)
                                  (db_access_tokens db)\<rparr>\<rparr>))
                      | _ \<Rightarrow> (None, w)))))"

section \<open>Encryption sessions\<close>

definition get_session_encryption_key :: "(string \<Rightarrow> 'q \<Rightarrow> string option option) \<Rightarrow> string \<Rightarrow> 'q \<Rightarrow> http_error + (string, json) dict" where
  "get_session_encryption_key public_key link_token keys =
     (case public_key link_token keys of
        None \<Rightarrow> Inl server_error
      | Some None \<Rightarrow> Inl (HTTPException 404 ''No encryption key found for this link token.'')
      | Some (Some pem) \<Rightarrow> if pem = '''' then Inl (HTTPException 404 ''No encryption key found for this link token.'')
          else Inr [(''link_token'', JStr link_token), (''public_key'', JStr pem)])"

definition create_encryption_session :: "(string \<Rightarrow> 'q \<Rightarrow> (string \<times> 'q) option) \<Rightarrow> string \<Rightarrow> 'q \<Rightarrow> (http_error + (string, json) dict) \<times> 'q" where
  "create_encryption_session generate link_token keys =
     (case generate link_token keys of
        None \<Rightarrow> (Inl server_error, keys)
      | Some (pem, keys) \<Rightarrow> (Inr [(''link_token'', JStr link_token), (''public_key'', JStr pem)], keys))"

section \<open>Connecting\<close>

definition CONNECT_COMPLETION_WAIT_SECONDS :: time where "CONNECT_COMPLETION_WAIT_SECONDS = 3 / 2"
definition CONNECT_MFA_DISCOVERY_WAIT_SECONDS :: time where "CONNECT_MFA_DISCOVERY_WAIT_SECONDS = 3 / 4"

definition jfields :: "string list option \<Rightarrow> json" where
  "jfields fs = (case fs of None \<Rightarrow> JNull | Some xs \<Rightarrow> JList (map JStr xs))"

definition connect_job :: "connect_request \<Rightarrow> string \<Rightarrow> string \<Rightarrow> int option \<Rightarrow> job_request" where
  "connect_job body username password uid =
     \<lparr>jr_site = cq_site body, jr_job_type = ''connect'', jr_user_id = uid, jr_principal_hint = Some username,
      jr_metadata = Some [(''extract_fields'', if jfields (cq_extract_fields body) = JNull then JList [] else jfields (cq_extract_fields body)),
        (''link_token'', jopt (cq_link_token body))],
      jr_kwargs = [(''site'', JStr (cq_site body)), (''username'', JStr username), (''password'', JStr password), (''extract_fields'', jfields (cq_extract_fields body))]\<rparr>"

text \<open>\<open>start_access_job\<close> of \<^verbatim>\<open>Job_API\<close> up to the creation of the row; the task is the argument of \<open>connect\<close>.\<close>

definition start_connect_job :: "('s, 'c, 'b, 'q, 'r) connect_env \<Rightarrow> job_request \<Rightarrow> app_db \<Rightarrow> (access_job \<times> app_db) option" where
  "start_connect_job c req db =
     (case create_access_job (en_sha (le_api (ce_link c))) (ce_new_job_id c) (ce_new_session_id c) (ce_now c) (ce_commit_ok c)
             (jr_site req) (jr_job_type req) (jr_user_id req) (jr_principal_hint req) (Some (ce_new_session_id c)) (jr_metadata req)
             (map (\<lambda>j. (aj_id j, j)) (db_access_jobs db)) of
        None \<Rightarrow> None
      | Some (job, jobs) \<Rightarrow> Some (job, db\<lparr>db_access_jobs := map snd jobs\<rparr>))"

definition connecting_updates :: "string option \<Rightarrow> access_job \<Rightarrow> string \<Rightarrow> link_session" where
  "connecting_updates access_token job site =
     [(''access_token'', jopt access_token), (''current_job_id'', JStr (aj_id job)), (''error_message'', JNull), (''message'', JNull),
      (''metadata'', JNull), (''mfa_type'', JNull), (''public_token'', JNull), (''result'', JNull), (''session_id'', jopt (aj_session_id job)),
      (''site'', JStr site), (''status'', JStr ''connecting'')]"

text \<open>The hosted session of the request: its token, when there is one.\<close>

definition hosted_token :: "connect_request \<Rightarrow> link_session option \<Rightarrow> string option" where
  "hosted_token body session = (if supplied (cq_link_token body) \<and> session \<noteq> None then cq_link_token body else None)"

definition mfa_event_data :: "string \<Rightarrow> json \<Rightarrow> string \<Rightarrow> (string, json) dict" where
  "mfa_event_data mfa_type session_id site = [(''mfa_type'', JStr mfa_type), (''session_id'', session_id), (''site'', JStr site)]"

definition mfa_updates :: "string option \<Rightarrow> json \<Rightarrow> json \<Rightarrow> json \<Rightarrow> string \<Rightarrow> json \<Rightarrow> string \<Rightarrow> link_session" where
  "mfa_updates access_token job_id message metadata mfa_type session_id site =
     [(''access_token'', jopt access_token), (''current_job_id'', job_id), (''message'', message), (''metadata'', metadata),
      (''mfa_type'', JStr mfa_type), (''session_id'', session_id), (''site'', JStr site), (''status'', JStr ''mfa_required'')]"

definition announce_mfa ::
  "('s, 'c, 'b, 'q, 'r) connect_env \<Rightarrow> string option \<Rightarrow> string option \<Rightarrow> json \<Rightarrow> json \<Rightarrow> json \<Rightarrow> string \<Rightarrow> json \<Rightarrow> string \<Rightarrow>
   ('s, 'c, 'b, 'q, 'r) link_world \<Rightarrow> ('s, 'c, 'b, 'q, 'r) link_world" where
  "announce_mfa c hosted access_token job_id message metadata mfa_type session_id site w =
     (case hosted of
        None \<Rightarrow> w
      | Some tok \<Rightarrow> push_link_session_event (ce_link c) tok ''MFA_REQUIRED'' (mfa_event_data mfa_type session_id site)
          (mfa_updates access_token job_id message metadata mfa_type session_id site) w)"

definition finish_connect ::
  "('s, 'c, 'b, 'q, 'r) connect_env \<Rightarrow> string option \<Rightarrow> string option \<Rightarrow> string \<Rightarrow> connect_end \<Rightarrow>
   ('s, 'c, 'b, 'q, 'r) link_world \<Rightarrow> ((http_error + connect_answer) \<times> ('s, 'c, 'b, 'q, 'r) link_world) option" where
  "finish_connect c hosted access_token site te w =
     (case te of
        Finished job data \<Rightarrow>
          let data = AList.update ''job_id'' (JStr (aj_id job)) data;
              w = (case hosted of None \<Rightarrow> w | Some tok \<Rightarrow> snd (reconcile_link_session (ce_link c) (ce_new_uuid c) tok (Some (aj_id job)) w))
          in Some (Inr (Job_data data), w)
      | Mfa_required e \<Rightarrow>
          Some (Inr (Response \<lparr>cs_status = ''mfa_required'', cs_job_id = me_job_id e, cs_session_id = me_session_id e, cs_mfa_type = Some (me_mfa_type e),
                  cs_metadata = JObj [(''message'', JStr (me_message e))]\<rparr>),
                announce_mfa c hosted access_token (jopt (me_job_id e)) (JStr (me_message e)) (JObj [(''message'', JStr (me_message e))]) (me_mfa_type e)
                  (jopt (me_session_id e)) site w)
      | Failed err \<Rightarrow> Some (Inl err, w)
      | Still_running \<Rightarrow> None)"

text \<open>The metadata of a found MFA session, \<^verbatim>\<open>{}\<close> for none.\<close>

definition meta_or_empty :: "(string, json) dict \<Rightarrow> (string, json) dict" where
  "meta_or_empty s = (case jget s ''metadata'' of JObj d \<Rightarrow> d | _ \<Rightarrow> [])"

definition pending_message :: string where
  "pending_message = ''Connection is still running in the background. Poll /access_jobs/{job_id} for status updates.''"

text \<open>The handler from the end of the first wait on. \<open>found\<close> is the MFA session that \<open>wait_for_mfa_session\<close> found, \<open>late\<close> the state of the
  task after it.\<close>

definition settle_connect ::
  "('s, 'c, 'b, 'q, 'r) connect_env \<Rightarrow> string option \<Rightarrow> string option \<Rightarrow> string \<Rightarrow> access_job \<Rightarrow> connect_end \<Rightarrow> (string, json) dict option \<Rightarrow> connect_end \<Rightarrow>
   ('s, 'c, 'b, 'q, 'r) link_world \<Rightarrow> (http_error + connect_answer) \<times> ('s, 'c, 'b, 'q, 'r) link_world" where
  "settle_connect c hosted access_token site job first found late w =
     (case finish_connect c hosted access_token site first w of
        Some answer \<Rightarrow> answer
      | None \<Rightarrow>
          (case found of
             Some s \<Rightarrow>
               let md = meta_or_empty s; sid = jget s ''session_id''; ty = jtext (jget s ''mfa_type'')
               in (Inr (Response \<lparr>cs_status = ''mfa_required'', cs_job_id = Some (aj_id job), cs_session_id = Some (jtext sid), cs_mfa_type = Some ty, cs_metadata = JObj md\<rparr>),
                   announce_mfa c hosted access_token (JStr (aj_id job)) (jget md ''message'') (JObj md) ty sid site w)
           | None \<Rightarrow>
               (case finish_connect c hosted access_token site late w of
                  Some answer \<Rightarrow> answer
                | None \<Rightarrow>
                    (Inr (Response \<lparr>cs_status = ''pending'', cs_job_id = Some (aj_id job), cs_session_id = aj_session_id job, cs_mfa_type = None,
                       cs_metadata = JObj [(''message'', JStr pending_message)]\<rparr>), w))))"

text \<open>The handler. \<open>run\<close>: the task, from the world it starts in to the ends of the two waits, the MFA session found between them and the
  world it leaves.\<close>

definition connect ::
  "('s, 'c, 'b, 'q, 'r) connect_env \<Rightarrow>
   (access_job \<Rightarrow> job_request \<Rightarrow> ('s, 'c, 'b, 'q, 'r) link_world \<Rightarrow> (connect_end \<times> (string, json) dict option \<times> connect_end) \<times> ('s, 'c, 'b, 'q, 'r) link_world) \<Rightarrow>
   connect_request \<Rightarrow> ('s, 'c, 'b, 'q, 'r) link_world \<Rightarrow> (http_error + connect_answer) \<times> ('s, 'c, 'b, 'q, 'r) link_world" where
  "connect c run body w =
     (case ce_resolve c (cq_link_token body) (cq_form body) (lw_keys w) of
        (Inl err, q) \<Rightarrow> (Inl err, w\<lparr>lw_keys := q\<rparr>)
      | (Inr (username, password), q) \<Rightarrow>
          let w = w\<lparr>lw_keys := q\<rparr>
          in (case (if supplied (cq_link_token body) then ensure_hosted_link_access_token c (the (cq_link_token body)) (cq_site body) username password w
                   else (Some (None, None, None), w)) of
               (None, w) \<Rightarrow> (Inl server_error, w)
             | (Some (session, access_token, uid), w) \<Rightarrow>
                 let hosted = hosted_token body session; req = connect_job body username password uid
                 in (case start_connect_job c req (lw_db w) of
                      None \<Rightarrow> (Inl server_error, w)
                    | Some (job, db) \<Rightarrow>
                        let w = w\<lparr>lw_db := db\<rparr>;
                            w = (case hosted of None \<Rightarrow> w | Some tok \<Rightarrow> update_session (ce_link c) tok (connecting_updates access_token job (cq_site body)) w);
                            ((first, found, late), w) = run job req w
                        in settle_connect c hosted access_token (cq_site body) job first found late w)))"

section \<open>MFA endpoints\<close>

definition disconnect :: "(string, json) dict" where "disconnect = [(''status'', JStr ''disconnected'')]"

definition mfa_submit :: "('r, mfa_payload) redis \<Rightarrow> time \<Rightarrow> string \<Rightarrow> string \<Rightarrow> 'r mfa_manager \<Rightarrow> (string, json) dict \<times> 'r mfa_manager" where
  "mfa_submit rd now session_id code m =
     (let (success, m) = mfa_submit_code rd now session_id code m
      in (if \<not> success then [(''status'', JStr ''error''), (''error'', JStr ''MFA session not found or expired.'')]
          else [(''status'', JStr ''mfa_submitted''), (''message'', JStr ''Code submitted. The connection will resume.'')], m))"

definition mfa_status :: "('r, mfa_payload) redis \<Rightarrow> time \<Rightarrow> string \<Rightarrow> 'r mfa_manager \<Rightarrow> (http_error + (string, json) dict) \<times> 'r mfa_manager" where
  "mfa_status rd now session_id m =
     (case mfa_get_session rd now session_id m of
        (None, m) \<Rightarrow> (Inl (HTTPException 404 ''MFA session not found or expired.''), m)
      | (Some s, m) \<Rightarrow>
          (Inr [(''session_id'', JStr (ms_session_id s)), (''site'', JStr (ms_site s)), (''mfa_type'', JStr (ms_mfa_type s)), (''metadata'', JObj (ms_metadata s))], m))"

section \<open>What a hosted connection stores\<close>

lemma find_holds: "find P xs = Some x \<Longrightarrow> P x"
  by (auto simp: find_Some_iff)

lemma attach_link_site: "find (\<lambda>l. ln_link_token l = tok) (db_links (attach_link tok site uid db)) = Some l \<Longrightarrow> ln_site l = site"
  by (auto simp: attach_link_def find_update_where find_append_new dest: find_holds split: option.splits if_splits)

lemma attach_link_tokens [simp]: "db_access_tokens (attach_link tok site uid db) = db_access_tokens db"
  by (simp add: attach_link_def split: option.split)

lemma sort_key_set: "sort_key f xs = x # r \<Longrightarrow> x \<in> set xs"
  by (metis list.set_intros(1) set_sort)

lemma newest_token_in: "newest_token tok uid db = Some t \<Longrightarrow> t \<in> set (db_access_tokens db) \<and> at_link_token t = tok \<and> at_user_id t = uid"
  by (auto simp: newest_token_def split: list.splits dest!: sort_key_set)

text \<open>A hosted connection keeps the credentials it was given. When it answers with an access token, a token of that name belongs to the link and
  the user of the session and decrypts to exactly these credentials, and the link points to the site of the request, whatever the token and the
  link held before.\<close>

theorem hosted_connect_stores_credentials:
  assumes run: "ensure_hosted_link_access_token c tok site u p w = (Some (Some session, Some access, Some uid), w')"
    and ciphers: "aead_ok (le_ciphers (ce_link c))" "tagged (le_ciphers (ce_link c))" "length (fst (ce_nonces c)) = GCM_NONCE_BYTES"
      "length (snd (ce_nonces c)) = GCM_NONCE_BYTES" "utf8_ok u" "utf8_ok p"
  shows "\<exists>user t. find_user (lw_db (snd (get_session (ce_link c) tok w))) uid = Some user \<and> t \<in> set (db_access_tokens (lw_db w')) \<and>
    at_token t = access \<and> at_link_token t = tok \<and> at_user_id t = uid \<and>
    decrypt_credential_for_user (le_ciphers (ce_link c)) (le_keys (ce_link c)) (ce_kms c) user (at_username_encrypted t) = Some u \<and>
    decrypt_credential_for_user (le_ciphers (ce_link c)) (le_keys (ce_link c)) (ce_kms c) user (at_password_encrypted t) = Some p \<and>
    (\<forall>l. find (\<lambda>l. ln_link_token l = tok) (db_links (lw_db w')) = Some l \<longrightarrow> ln_site l = site)"
proof -
  obtain r w1 where g: "get_session (ce_link c) tok w = (r, w1)" by fastforce
  have s: "r = Some session" "session \<noteq> []" "jint_opt (jget session ''user_id'') = Some uid"
    using run g by (auto simp: ensure_hosted_link_access_token_def Let_def split: option.splits if_splits prod.splits)
  obtain user where user: "find_user (lw_db w1) uid = Some user"
    using run by (cases "find_user (lw_db w1) uid") (auto simp: ensure_hosted_link_access_token_def g s)
  let ?enc = "encrypt_credential_for_user (le_ciphers (ce_link c)) (le_keys (ce_link c)) (ce_kms c) user"
  let ?dec = "decrypt_credential_for_user (le_ciphers (ce_link c)) (le_keys (ce_link c)) (ce_kms c) user"
  let ?db = "attach_link tok site uid (lw_db w1)"
  from run obtain un pw where e: "?enc (fst (ce_nonces c)) u = Some un" "?enc (snd (ce_nonces c)) p = Some pw"
    by (cases "?enc (fst (ce_nonces c)) u"; cases "?enc (snd (ce_nonces c)) p") (simp_all add: ensure_hosted_link_access_token_def g s user Let_def)
  have d: "?dec un = Some u" "?dec pw = Some p"
    using e ciphers by (auto simp: encrypt_credential_for_user_def decrypt_credential_for_user_def intro: user_credential_decrypts)
  have links: "db_links (lw_db w') = db_links ?db"
    using run by (auto simp: ensure_hosted_link_access_token_def g s user e Let_def split: option.splits prod.splits)
  show ?thesis
  proof (cases "newest_token tok uid ?db")
    case None
    with run d attach_link_site show ?thesis
      by (auto simp: ensure_hosted_link_access_token_def g s user e Let_def links split: prod.splits)
  next
    case (Some t)
    with run d newest_token_in [OF Some] attach_link_site show ?thesis
      by (auto simp: ensure_hosted_link_access_token_def g s user e Let_def links in_update_where intro!: exI [of _ user] bexI [of _ t])
  qed
qed

section \<open>What a connection tells its session\<close>

lemma announce_clean: "outputs_clean w \<Longrightarrow> outputs_clean (announce_mfa c hosted tok job_id message metadata ty sid site w)"
  by (cases hosted) (auto simp: announce_mfa_def mfa_event_data_def HOSTED_EVENT_FORBIDDEN_KEYS_def intro!: push_clean)

lemma finish_clean: "finish_connect c hosted tok site te w = Some (r, w') \<Longrightarrow> outputs_clean w \<Longrightarrow> outputs_clean w'"
proof (cases te)
  case (Finished job data)
  assume f: "finish_connect c hosted tok site te w = Some (r, w')" "outputs_clean w"
  show ?thesis
  proof (cases hosted)
    case (Some t)
    obtain x w1 where x: "reconcile_link_session (ce_link c) (ce_new_uuid c) t (Some (aj_id job)) w = (x, w1)" by fastforce
    from reconcile_clean [OF f(2) x] f(1) show ?thesis by (auto simp: finish_connect_def Finished Some x Let_def)
  qed (use f Finished in \<open>auto simp: finish_connect_def Let_def\<close>)
qed (auto simp: finish_connect_def announce_clean)

lemma settle_connect_clean: "outputs_clean w \<Longrightarrow> outputs_clean (snd (settle_connect c hosted tok site job first found late w))"
  by (auto simp: settle_connect_def Let_def announce_clean split: option.split dest: finish_clean)

lemma ensure_outputs: "ensure_hosted_link_access_token c tok site u p w = (r, w') \<Longrightarrow> outputs_clean w' = outputs_clean w"
  by (auto simp: ensure_hosted_link_access_token_def Let_def outputs_clean_def split: option.splits prod.splits if_splits dest!: get_session_outputs)

text \<open>Whatever a hosted connection tells its session, on its channel or to webhooks, carries none of the secret fields, if what runs meanwhile
  does not add any.\<close>

lemma connect_clean:
  assumes "outputs_clean w" and "\<And>job req w. outputs_clean w \<Longrightarrow> outputs_clean (snd (run job req w))"
  shows "outputs_clean (snd (connect c run body w))"
proof -
  obtain r q where r: "ce_resolve c (cq_link_token body) (cq_form body) (lw_keys w) = (r, q)" by fastforce
  let ?w = "w\<lparr>lw_keys := q\<rparr>"
  show ?thesis
  proof (cases r)
    case (Inl e)
    then show ?thesis using assms(1) by (simp add: connect_def r)
  next
    case (Inr up)
    obtain u p where up: "up = (u, p)" by fastforce
    obtain x w1 where x: "(if supplied (cq_link_token body) then ensure_hosted_link_access_token c (the (cq_link_token body)) (cq_site body) u p ?w
        else (Some (None, None, None), ?w)) = (x, w1)" by fastforce
    have c1: "outputs_clean w1" using x assms(1) by (auto dest: ensure_outputs split: if_splits)
    have ran: "run job req w2 = (ends, w3) \<Longrightarrow> outputs_clean w2 \<Longrightarrow> outputs_clean w3" for job req w2 ends w3
      using assms(2) [of w2 job req] by simp
    show ?thesis
      using c1 by (auto simp: connect_def r Inr up x Let_def split: option.split prod.split intro!: settle_connect_clean dest!: ran)
  qed
qed

definition sample_connect :: "((string, link_session) dict, (string, string) dict, (string, bootstrap_entry) dict, unit, mfa_payload keyspace) connect_env" where
  "sample_connect = \<lparr>ce_link = sample_link_env, ce_pop_scopes = mem_pop, ce_kms = LocalKMS, ce_resolve = (\<lambda>_ _ q. (Inr (''u'', ''pw''), q)), ce_commit_ok = True,
     ce_new_job_id = ''j'', ce_new_session_id = ''s'', ce_new_token = ''t9'', ce_nonces = (sample_nonce, sample_nonce), ce_new_uuid = ''p''\<rparr>"

definition owned_world :: sample_world_type where
  "owned_world = sample_link_world\<lparr>lw_sessions := [(''tok'', [(''user_id'', JInt 1), (''status'', JStr ''awaiting'')])]\<rparr>"

theorem hosted_connect_stores_credentials_witness:
  "\<exists>session w' t. ensure_hosted_link_access_token sample_connect ''tok'' ''shop'' ''pw'' ''pw'' owned_world = (Some (Some session, Some ''t9'', Some 1), w') \<and>
    t \<in> set (db_access_tokens (lw_db w')) \<and> at_token t = ''t9'' \<and> at_link_token t = ''tok'' \<and> at_user_id t = 1 \<and>
    decrypt_credential_for_user sample_ciphers sample_ks LocalKMS (sample_user 1 None) (at_password_encrypted t) = Some ''pw''"
proof -
  have g: "get_session sample_link_env ''tok'' owned_world = (Some [(''user_id'', JInt 1), (''status'', JStr ''awaiting'')], owned_world)"
    by (simp add: get_session_def sample_link_env_def owned_world_def sample_link_world_def lnow_def mem_sessions_def mem_get_session_def
      session_stale_def session_created_def sample_api_env_def LINK_SESSION_TTL_def jget_def)
  have u: "find_user (lw_db owned_world) 1 = Some (sample_user 1 None)"
    by (simp add: find_user_def owned_world_def sample_link_world_def sample_db_def sample_user_def)
  have db: "db_access_tokens (lw_db owned_world) = [sample_token 1, sample_token 2]" by (simp add: owned_world_def sample_link_world_def sample_db_def)
  have n: "newest_token ''tok'' 1 (attach_link ''tok'' ''shop'' 1 (lw_db owned_world)) = None"
    by (simp add: newest_token_def db sample_token_def show_int_def)
  have c: "ce_link sample_connect = sample_link_env" "le_ciphers sample_link_env = sample_ciphers" "ce_new_token sample_connect = ''t9''" "ce_nonces sample_connect = (sample_nonce, sample_nonce)" "ce_kms sample_connect = LocalKMS"
    "le_keys sample_link_env = sample_ks"
    by (simp_all add: sample_connect_def sample_link_env_def)
  have "\<exists>ct. encrypt_credential_for_user sample_ciphers sample_ks LocalKMS (sample_user 1 None) sample_nonce ''pw'' = Some ct"
    by (simp add: encrypt_credential_for_user_def encrypt_for_dek_def encrypt_credential_def sample_user_def)
  moreover obtain sc sx where "ce_pop_scopes sample_connect (lnow sample_link_env) ''tok'' (lw_scopes owned_world) = (sc, sx)" by fastforce
  ultimately obtain session w' where run: "ensure_hosted_link_access_token sample_connect ''tok'' ''shop'' ''pw'' ''pw'' owned_world = (Some (Some session, Some ''t9'', Some 1), w')"
    by (auto simp: ensure_hosted_link_access_token_def c g u n jint_opt_def jget_def Let_def intro: that)
  with hosted_connect_stores_credentials [OF run _ _ _ _ sample_key_facts(5,5)] sample_ciphers_ok run show ?thesis by (auto simp: c g u)
qed

end
