(* ===== verification/Link_Flow.thy ===== *)
theory Link_Flow imports Links Link_Sessions begin

text \<open>
  The three-step flow as a whole: a link created with scopes (\<open>create_link\<close>), the credentials submitted for it (\<open>submit_credentials\<close>) and
  the data fetched with the access token (\<open>fetch_data\<close>), over any store of scopes that keeps the law \<open>consume_once\<close> of
  \<^verbatim>\<open>Session_Store\<close>; and the public token of a hosted session after its exchange.
\<close>

section \<open>The steps\<close>

definition scopes_body :: "json \<Rightarrow> json option" where
  "scopes_body scopes = Some (JObj [(''scopes'', scopes)])"

lemma created_link:
  assumes "create_link e None uid lt site (scopes_body sc) w = (Inr r, w')" "sc \<noteq> JNull"
  shows "lk_scopes w' = li_put_scopes e (li_now e) lt (en_dumps (li_api e) sc) (lk_scopes w)" "lk_refresh w' = lk_refresh w"
    "lk_db w' = (lk_db w)\<lparr>db_links := db_links (lk_db w) @ [\<lparr>ln_link_token = lt, ln_site = site, ln_user_id = uid\<rparr>]\<rparr>"
  using assms
  by (auto simp: create_link_def scopes_body_def link_options_def jget_def ensure_site_allowed_for_request_def constrain_requested_scopes_def
      get_principal_allowed_scopes_def Let_def split: option.splits)

definition plain_form :: "string \<Rightarrow> string \<Rightarrow> credential_form" where
  "plain_form u p = \<lparr>cf_username = Some u, cf_password = Some p, cf_encrypted_username = None, cf_encrypted_password = None\<rparr>"

text \<open>What a submission of plain credentials stores.\<close>

lemma submitted_row:
  assumes link: "find (\<lambda>l. ln_link_token l = lt \<and> ln_user_id l = u_id user) (db_links (lk_db w)) = Some l"
    and run: "submit_credentials e ok tok nonces user lt (plain_form u p) w = (Inr r, w')"
    and ne: "u \<noteq> ''''" "p \<noteq> ''''" and no_schedule: "fst (li_pop_refresh e (li_now e) lt (lk_refresh w)) = None"
  obtains un pw where
    "encrypt_credential_for_user (li_ciphers e) (li_keys e) (li_kms e) user (fst nonces) u = Some un"
    "encrypt_credential_for_user (li_ciphers e) (li_keys e) (li_kms e) user (snd nonces) p = Some pw"
    "db_access_tokens (lk_db w') = db_access_tokens (lk_db w) @ [\<lparr>at_token = tok, at_link_token = lt, at_username_encrypted = un, at_password_encrypted = pw,
       at_instructions = None, at_scopes = map_option (en_parse (li_api e)) (fst (li_pop_scopes e (li_now e) lt (lk_scopes w))), at_user_id = u_id user,
       at_key_version = get_current_key_version (li_keys e), at_updated_at = li_now e\<rparr>]"
    "db_links (lk_db w') = db_links (lk_db w)"
proof -
  have creds: "submitted_credentials e lt (plain_form u p) (lk_keys w) = (Inr (u, p), lk_keys w)"
    using ne by (simp add: submitted_credentials_def plain_form_def supplied_def)
  obtain sc c where sc: "li_pop_scopes e (li_now e) lt (lk_scopes w) = (sc, c)" by fastforce
  obtain d where d: "li_pop_refresh e (li_now e) lt (lk_refresh w) = (None, d)" using no_schedule by (cases "li_pop_refresh e (li_now e) lt (lk_refresh w)") simp
  let ?un = "encrypt_credential_for_user (li_ciphers e) (li_keys e) (li_kms e) user (fst nonces) u"
  let ?pw = "encrypt_credential_for_user (li_ciphers e) (li_keys e) (li_kms e) user (snd nonces) p"
  from run obtain un pw where e: "?un = Some un" "?pw = Some pw"
    by (cases ?un; cases ?pw) (simp_all add: submit_credentials_def link creds server_error_def)
  from run show ?thesis
    by (intro that [OF e]) (auto simp: submit_credentials_def link creds e sc d apply_deferred_def supplied_def Let_def split: option.splits if_splits)
qed

section \<open>The scopes of a link reach the data\<close>

lemma names_of_scopes: "\<forall>s \<in> set fs. CHR '':'' \<notin> set s \<Longrightarrow> distinct fs \<Longrightarrow> scope_fields (Encoded (JList (map JStr fs))) = Some fs"
proof -
  assume "\<forall>s \<in> set fs. CHR '':'' \<notin> set s" "distinct fs"
  moreover have "all_some (map scope_field (map JStr fs)) = Some fs" if "\<forall>s \<in> set fs. CHR '':'' \<notin> set s"
    using that by (induction fs) simp_all
  ultimately show ?thesis by (simp add: scope_fields_def)
qed

text \<open>Fetching with an access token that has scopes and no consent.\<close>

lemma fetched_with_scopes:
  assumes "owned_token tok (u_id user) db = Some t" "find (\<lambda>l. ln_link_token l = at_link_token t \<and> ln_user_id l = u_id user) (db_links db) = Some l"
    and "token_fields (at_scopes t) = Some allowed" "at_instructions t = None"
    and "decrypt_credential_for_user (li_ciphers e) (li_keys e) (li_kms e) user (at_username_encrypted t) = Some u"
      "decrypt_credential_for_user (li_ciphers e) (li_keys e) (li_kms e) user (at_password_encrypted t) = Some p"
    and "run (ln_site l) u p (fields_json allowed) = Inr (job_id, response)" "map_of response ''data'' = Some (JObj d)"
  shows "\<exists>response' db'. fetch_data e run None user tok None db = (Inr response', db') \<and>
    jget response' ''data'' = JObj (case allowed of None \<Rightarrow> d | Some fs \<Rightarrow> filter (\<lambda>(k, _). k \<in> set fs) d)"
proof -
  have r: "restrict_fields (restrict_fields None allowed) None = allowed" by (cases allowed) (simp_all add: restrict_fields_def)
  show ?thesis
    using assms r
    by (cases allowed) (simp_all add: fetch_data_def supplied_def ensure_site_allowed_for_request_def get_principal_allowed_scopes_def filter_response_def jget_def)
qed

definition li_at :: "time \<Rightarrow> ('c, 'd, 'q) links_env \<Rightarrow> ('c, 'd, 'q) links_env" where
  "li_at t e = e\<lparr>li_api := (li_api e)\<lparr>en_now := t\<rparr>\<rparr>"

lemma li_at_fields [simp]:
  "li_now (li_at t e) = t" "li_put_scopes (li_at t e) = li_put_scopes e" "li_pop_scopes (li_at t e) = li_pop_scopes e" "li_pop_refresh (li_at t e) = li_pop_refresh e"
  "en_dumps (li_api (li_at t e)) = en_dumps (li_api e)" "en_parse (li_api (li_at t e)) = en_parse (li_api e)"
  "li_ciphers (li_at t e) = li_ciphers e" "li_keys (li_at t e) = li_keys e" "li_kms (li_at t e) = li_kms e"
  by (simp_all add: li_at_def)

text \<open>The token that a link gives when the credentials come \<open>t2 - t1\<close> seconds after it was made.\<close>

lemma flow_token:
  assumes made: "create_link (li_at t1 e) None (u_id user) lt site (scopes_body sc) w = (Inr r1, w1)" "sc \<noteq> JNull"
    and sent: "submit_credentials (li_at t2 e) ok tok nonces user lt (plain_form u p) w1 = (Inr r2, w2)" "u \<noteq> ''''" "p \<noteq> ''''"
      "fst (li_pop_refresh e t2 lt (lk_refresh w)) = None"
    and new: "\<forall>l \<in> set (db_links (lk_db w)). ln_link_token l \<noteq> lt" "\<forall>t \<in> set (db_access_tokens (lk_db w)). at_token t \<noteq> tok"
    and ciphers: "aead_ok (li_ciphers e)" "tagged (li_ciphers e)" "length (fst nonces) = GCM_NONCE_BYTES" "length (snd nonces) = GCM_NONCE_BYTES" "utf8_ok u" "utf8_ok p"
  shows "\<exists>t l. owned_token tok (u_id user) (lk_db w2) = Some t \<and> find (\<lambda>l. ln_link_token l = at_link_token t \<and> ln_user_id l = u_id user) (db_links (lk_db w2)) = Some l \<and>
    ln_site l = site \<and> at_instructions t = None \<and>
    at_scopes t = map_option (en_parse (li_api e)) (fst (li_pop_scopes e t2 lt (li_put_scopes e t1 lt (en_dumps (li_api e) sc) (lk_scopes w)))) \<and>
    decrypt_credential_for_user (li_ciphers e) (li_keys e) (li_kms e) user (at_username_encrypted t) = Some u \<and>
    decrypt_credential_for_user (li_ciphers e) (li_keys e) (li_kms e) user (at_password_encrypted t) = Some p"
proof -
  note c = created_link [OF made, simplified]
  let ?l = "\<lparr>ln_link_token = lt, ln_site = site, ln_user_id = u_id user\<rparr>"
  have l: "find (\<lambda>l. ln_link_token l = lt \<and> ln_user_id l = u_id user) (db_links (lk_db w1)) = Some ?l"
    unfolding c(3) using new(1) by (auto simp: find_None_iff intro!: find_append_new)
  have ns: "fst (li_pop_refresh (li_at t2 e) (li_now (li_at t2 e)) lt (lk_refresh w1)) = None" using sent(4) by (simp add: c(2))
  obtain un pw where row: "encrypt_credential_for_user (li_ciphers e) (li_keys e) (li_kms e) user (fst nonces) u = Some un"
    "encrypt_credential_for_user (li_ciphers e) (li_keys e) (li_kms e) user (snd nonces) p = Some pw"
    "db_access_tokens (lk_db w2) = db_access_tokens (lk_db w1) @ [\<lparr>at_token = tok, at_link_token = lt, at_username_encrypted = un, at_password_encrypted = pw,
       at_instructions = None, at_scopes = map_option (en_parse (li_api e)) (fst (li_pop_scopes e t2 lt (lk_scopes w1))), at_user_id = u_id user,
       at_key_version = get_current_key_version (li_keys e), at_updated_at = t2\<rparr>]"
    "db_links (lk_db w2) = db_links (lk_db w1)"
    by (rule submitted_row [OF l sent(1-3) ns]) simp
  have "db_access_tokens (lk_db w1) = db_access_tokens (lk_db w)" by (simp add: c(3))
  with new(2) have "owned_token tok (u_id user) (lk_db w2) = Some \<lparr>at_token = tok, at_link_token = lt, at_username_encrypted = un, at_password_encrypted = pw,
       at_instructions = None, at_scopes = map_option (en_parse (li_api e)) (fst (li_pop_scopes e t2 lt (lk_scopes w1))), at_user_id = u_id user,
       at_key_version = get_current_key_version (li_keys e), at_updated_at = t2\<rparr>"
    unfolding owned_token_def row(3) by (auto simp: find_None_iff intro!: find_append_new)
  moreover have "decrypt_credential_for_user (li_ciphers e) (li_keys e) (li_kms e) user un = Some u" "decrypt_credential_for_user (li_ciphers e) (li_keys e) (li_kms e) user pw = Some p"
    using row(1,2) ciphers by (auto simp: encrypt_credential_for_user_def decrypt_credential_for_user_def intro: user_credential_decrypts)
  ultimately show ?thesis using l by (simp add: row(4) c(1))
qed


text \<open>With Redis the scopes of a link live ten minutes, the link itself has no expiry. Credentials that come later give an access token without
  scopes, and a token without scopes is not restricted: the fetch extracts and returns everything.\<close>

theorem late_submission_drops_scopes:
  assumes store: "redis_ok rd view" "li_put_scopes e = redis_put rd scope_prefix" "li_pop_scopes e = redis_pop rd scope_prefix"
    and made: "create_link (li_at t1 e) None (u_id user) lt site (scopes_body sc) w = (Inr r1, w1)" "sc \<noteq> JNull"
    and sent: "submit_credentials (li_at t2 e) ok tok nonces user lt (plain_form u p) w1 = (Inr r2, w2)" "u \<noteq> ''''" "p \<noteq> ''''"
      "fst (li_pop_refresh e t2 lt (lk_refresh w)) = None" and time: "t1 + of_int LINK_SCOPE_TTL \<le> t2"
    and new: "\<forall>l \<in> set (db_links (lk_db w)). ln_link_token l \<noteq> lt" "\<forall>t \<in> set (db_access_tokens (lk_db w)). at_token t \<noteq> tok"
    and ciphers: "aead_ok (li_ciphers e)" "tagged (li_ciphers e)" "length (fst nonces) = GCM_NONCE_BYTES" "length (snd nonces) = GCM_NONCE_BYTES" "utf8_ok u" "utf8_ok p"
    and job: "run site u p (fields_json None) = Inr (job_id, response)" "map_of response ''data'' = Some (JObj d)"
  shows "\<exists>response' db'. fetch_data (li_at t3 e) run None user tok None (lk_db w2) = (Inr response', db') \<and> jget response' ''data'' = JObj d"
proof -
  have "fst (li_pop_scopes e t2 lt (li_put_scopes e t1 lt (en_dumps (li_api e) sc) (lk_scopes w))) = None"
    using time by (simp add: store redis_put_def redis_pop_def Let_def redis_laws [OF store(1)])
  with flow_token [OF made sent new ciphers] obtain t l where
    t: "owned_token tok (u_id user) (lk_db w2) = Some t" "find (\<lambda>l. ln_link_token l = at_link_token t \<and> ln_user_id l = u_id user) (db_links (lk_db w2)) = Some l"
      "ln_site l = site" "at_instructions t = None" "at_scopes t = None"
      "decrypt_credential_for_user (li_ciphers e) (li_keys e) (li_kms e) user (at_username_encrypted t) = Some u"
      "decrypt_credential_for_user (li_ciphers e) (li_keys e) (li_kms e) user (at_password_encrypted t) = Some p" by auto
  have "token_fields (at_scopes t) = Some None" by (simp add: t(5) token_fields_def)
  from fetched_with_scopes [OF t(1,2) this t(4), where e = "li_at t3 e" and run = run and u = u and p = p] t(3,6,7) job show ?thesis by simp
qed

section \<open>A concrete flow for the witnesses\<close>

definition flow_env :: "(string keyspace, unit, unit) links_env" where
  "flow_env = \<lparr>li_api = \<lparr>en_sha = (\<lambda>s. s), en_rep = (\<lambda>_. ''''), en_dumps = (\<lambda>_. ''s''), en_parse = (\<lambda>_. Encoded (JList (map JStr [''balance'']))),
       en_isoformat = (\<lambda>_. ''t''), en_now = 5, en_audit_id = 1, en_audit_ts = ''now''\<rparr>,
     li_ciphers = sample_ciphers, li_keys = sample_ks, li_kms = LocalKMS, li_fk = False, li_put_scopes = redis_put ks_redis scope_prefix,
     li_pop_scopes = redis_pop ks_redis scope_prefix, li_put_refresh = (\<lambda>_ _ _ d. d), li_pop_refresh = (\<lambda>_ _ d. (None, d)),
     li_generate = (\<lambda>_ q. Some (''pem'', q)), li_decrypt = (\<lambda>_ _ _. Inl NoKey), li_destroy = (\<lambda>_ q. Some q), li_b64 = (\<lambda>s. Inr s)\<rparr>"

definition flow_world :: "scheduler \<Rightarrow> (string keyspace, unit, unit) links_world" where
  "flow_world sched = \<lparr>lk_scopes = (\<lambda>_. None), lk_refresh = (), lk_keys = (), lk_sched = sched, lk_db = sample_db\<rparr>"

definition flow_run :: "string \<Rightarrow> string \<Rightarrow> string \<Rightarrow> json \<Rightarrow> http_error + string \<times> (string, json) dict" where
  "flow_run site u p fs = Inr (''j'', [(''data'', JObj [(''balance'', JInt 5), (''ssn'', JStr ''x'')])])"

lemma flow_steps:
  obtains r1 w1 r2 w2 where
    "create_link (li_at t1 flow_env) None (u_id (sample_user 1 None)) ''x'' ''bank'' (scopes_body (JList (map JStr [''balance'']))) (flow_world sched) = (Inr r1, w1)"
    "submit_credentials (li_at t2 flow_env) True ''new'' (sample_nonce, sample_nonce) (sample_user 1 None) ''x'' (plain_form ''pw'' ''pw'') w1 = (Inr r2, w2)"
proof -
  obtain ct where ct: "encrypt_credential_for_user sample_ciphers sample_ks LocalKMS (sample_user 1 None) sample_nonce ''pw'' = Some ct"
    by (simp add: encrypt_credential_for_user_def encrypt_for_dek_def encrypt_credential_def sample_user_def)
  have id: "u_id (sample_user 1 None) = 1" by (simp add: sample_user_def)
  obtain r1 w1 where 1: "create_link (li_at t1 flow_env) None (u_id (sample_user 1 None)) ''x'' ''bank'' (scopes_body (JList (map JStr [''balance'']))) (flow_world sched) = (Inr r1, w1)"
    by (simp add: create_link_def scopes_body_def link_options_def jget_def ensure_site_allowed_for_request_def constrain_requested_scopes_def
        get_principal_allowed_scopes_def li_at_def flow_env_def)
  have l: "find (\<lambda>l. ln_link_token l = ''x'' \<and> ln_user_id l = 1) (db_links (lk_db w1)) = Some \<lparr>ln_link_token = ''x'', ln_site = ''bank'', ln_user_id = 1\<rparr>"
    using created_link(3) [OF 1] by (simp add: flow_world_def sample_db_def show_int_def id)
  obtain sc c where sc: "redis_pop ks_redis scope_prefix t2 ''x'' (lk_scopes w1) = (sc, c)" by fastforce
  have env: "li_ciphers flow_env = sample_ciphers" "li_keys flow_env = sample_ks" "li_kms flow_env = LocalKMS" "li_pop_scopes flow_env = redis_pop ks_redis scope_prefix"
    "li_pop_refresh flow_env = (\<lambda>_ _ d. (None, d))" "en_parse (li_api flow_env) = (\<lambda>_. Encoded (JList (map JStr [''balance''])))"
    by (simp_all add: flow_env_def)
  have creds: "submitted_credentials e lt (plain_form ''pw'' ''pw'') q = (Inr (''pw'', ''pw''), q)" for e :: "(string keyspace, unit, unit) links_env" and lt q
    by (simp add: submitted_credentials_def plain_form_def supplied_def)
  have "\<exists>r2 w2. submit_credentials (li_at t2 flow_env) True ''new'' (sample_nonce, sample_nonce) (sample_user 1 None) ''x'' (plain_form ''pw'' ''pw'') w1 = (Inr r2, w2)"
    by (cases sc) (simp_all add: submit_credentials_def l id creds env ct sc apply_deferred_def supplied_def Let_def)
  with 1 that show ?thesis by blast
qed

lemma flow_facts:
  "consume_once (li_put_scopes flow_env) (li_pop_scopes flow_env) (\<lambda>r now k. live r now (scope_prefix @ k))"
  "en_parse (li_api flow_env) (en_dumps (li_api flow_env) (JList (map JStr [''balance'']))) = Encoded (JList (map JStr [''balance'']))"
  "en_dumps (li_api flow_env) (JList (map JStr [''balance''])) \<noteq> ''''"
  "fst (li_pop_refresh flow_env t ''x'' d) = None" "li_put_scopes flow_env = redis_put ks_redis scope_prefix" "li_pop_scopes flow_env = redis_pop ks_redis scope_prefix"
  "\<forall>l \<in> set (db_links (lk_db (flow_world sched))). ln_link_token l \<noteq> ''x''" "\<forall>t \<in> set (db_access_tokens (lk_db (flow_world sched))). at_token t \<noteq> ''new''"
  "aead_ok (li_ciphers flow_env)" "tagged (li_ciphers flow_env)"
  using redis_consume_once [OF ks_redis_ok, of scope_prefix] sample_ciphers_ok
  by (simp_all add: flow_env_def flow_world_def sample_db_def sample_token_def show_int_def)


theorem late_submission_drops_scopes_witness:
  "\<exists>r1 w1 r2 w2 response' db'.
    create_link (li_at 0 flow_env) None (u_id (sample_user 1 None)) ''x'' ''bank'' (scopes_body (JList (map JStr [''balance'']))) (flow_world new_scheduler) = (Inr r1, w1) \<and>
    submit_credentials (li_at 600 flow_env) True ''new'' (sample_nonce, sample_nonce) (sample_user 1 None) ''x'' (plain_form ''pw'' ''pw'') w1 = (Inr r2, w2) \<and>
    fetch_data (li_at 601 flow_env) flow_run None (sample_user 1 None) ''new'' None (lk_db w2) = (Inr response', db') \<and>
    jget response' ''data'' = JObj [(''balance'', JInt 5), (''ssn'', JStr ''x'')]"
proof -
  obtain r1 w1 r2 w2 where steps:
    "create_link (li_at 0 flow_env) None (u_id (sample_user 1 None)) ''x'' ''bank'' (scopes_body (JList (map JStr [''balance'']))) (flow_world new_scheduler) = (Inr r1, w1)"
    "submit_credentials (li_at 600 flow_env) True ''new'' (sample_nonce, sample_nonce) (sample_user 1 None) ''x'' (plain_form ''pw'' ''pw'') w1 = (Inr r2, w2)"
    by (rule flow_steps)
  have "\<exists>response' db'. fetch_data (li_at 601 flow_env) flow_run None (sample_user 1 None) ''new'' None (lk_db w2) = (Inr response', db') \<and>
    jget response' ''data'' = JObj [(''balance'', JInt 5), (''ssn'', JStr ''x'')]"
    by (rule late_submission_drops_scopes [OF ks_redis_ok flow_facts(5,6) steps(1) _ steps(2) _ _ flow_facts(4) _ flow_facts(7,8,9,10)])
      (simp_all add: LINK_SCOPE_TTL_def flow_run_def, simp_all add: sample_nonce_def GCM_NONCE_BYTES_def byte_in_def)
  with steps show ?thesis by blast
qed

lemma flow_fetched:
  "\<exists>db t response db'. owned_token ''new'' 1 db = Some t \<and> token_fields (at_scopes t) = Some (Some [''balance'']) \<and>
    fetch_data (li_at 90 flow_env) flow_run None (sample_user 1 None) ''new'' None db = (Inr response, db') \<and> jget response ''data'' = JObj [(''balance'', JInt 5)]"
proof -
  have id: "u_id (sample_user 1 None) = 1" by (simp add: sample_user_def)
  obtain r1 w1 r2 w2 where steps:
    "create_link (li_at 0 flow_env) None (u_id (sample_user 1 None)) ''x'' ''bank'' (scopes_body (JList (map JStr [''balance'']))) (flow_world new_scheduler) = (Inr r1, w1)"
    "submit_credentials (li_at 60 flow_env) True ''new'' (sample_nonce, sample_nonce) (sample_user 1 None) ''x'' (plain_form ''pw'' ''pw'') w1 = (Inr r2, w2)"
    by (rule flow_steps)
  have pop: "fst (li_pop_scopes flow_env 60 ''x'' (li_put_scopes flow_env 0 ''x'' (en_dumps (li_api flow_env) (JList (map JStr [''balance'']))) (lk_scopes (flow_world new_scheduler)))) =
      Some (en_dumps (li_api flow_env) (JList (map JStr [''balance''])))"
    by (rule consume_once.put_pop [OF flow_facts(1,3)]) (simp add: LINK_SCOPE_TTL_def)
  have n: "length (fst (sample_nonce, sample_nonce)) = GCM_NONCE_BYTES" "length (snd (sample_nonce, sample_nonce)) = GCM_NONCE_BYTES"
    by (simp_all add: sample_nonce_def GCM_NONCE_BYTES_def)
  obtain t l where t: "owned_token ''new'' (u_id (sample_user 1 None)) (lk_db w2) = Some t"
    "find (\<lambda>l. ln_link_token l = at_link_token t \<and> ln_user_id l = u_id (sample_user 1 None)) (db_links (lk_db w2)) = Some l" "ln_site l = ''bank''"
    "at_instructions t = None" "at_scopes t = Some (Encoded (JList (map JStr [''balance''])))"
    "decrypt_credential_for_user (li_ciphers flow_env) (li_keys flow_env) (li_kms flow_env) (sample_user 1 None) (at_username_encrypted t) = Some ''pw''"
    "decrypt_credential_for_user (li_ciphers flow_env) (li_keys flow_env) (li_kms flow_env) (sample_user 1 None) (at_password_encrypted t) = Some ''pw''"
    using flow_token [OF steps(1) _ steps(2) _ _ flow_facts(4) flow_facts(7,8,9,10) n sample_key_facts(5,5)] pop flow_facts(2) by auto
  have f: "token_fields (at_scopes t) = Some (Some [''balance''])" by (simp only: t(5)) (simp add: token_fields_def names_of_scopes [of "[''balance'']", simplified])
  have "\<exists>response db'. fetch_data (li_at 90 flow_env) flow_run None (sample_user 1 None) ''new'' None (lk_db w2) = (Inr response, db') \<and>
      jget response ''data'' = JObj (case Some [''balance''] of None \<Rightarrow> [(''balance'', JInt 5), (''ssn'', JStr ''x'')]
        | Some fs \<Rightarrow> filter (\<lambda>(k, _). k \<in> set fs) [(''balance'', JInt 5), (''ssn'', JStr ''x'')])"
    by (rule fetched_with_scopes [OF t(1,2) f t(4)]) (simp_all add: t(6,7), simp add: flow_run_def, simp)
  with t(1) f id show ?thesis by fastforce
qed

theorem fetched_data_within_every_grant_witness:
  "\<exists>db t response db'. fetch_data (li_at 90 flow_env) flow_run None (sample_user 1 None) ''new'' None db = (Inr response, db') \<and>
    jget response ''data'' = JObj [(''balance'', JInt 5)] \<and> owned_token ''new'' 1 db = Some t \<and>
    (\<exists>fs. token_fields (at_scopes t) = Some (Some fs) \<and> ''balance'' \<in> set fs)"
proof -
  have id: "u_id (sample_user 1 None) = 1" by (simp add: sample_user_def)
  obtain db t response db' where f: "owned_token ''new'' 1 db = Some t" "token_fields (at_scopes t) = Some (Some [''balance''])"
    "fetch_data (li_at 90 flow_env) flow_run None (sample_user 1 None) ''new'' None db = (Inr response, db')" "jget response ''data'' = JObj [(''balance'', JInt 5)]"
    using flow_fetched by blast
  have "''balance'' \<in> set (map fst [(''balance'', JInt 5)])" by simp
  from fetched_data_within_every_grant [OF f(3,4) this] f(1,2) have "\<exists>fs. token_fields (at_scopes t) = Some (Some fs) \<and> ''balance'' \<in> set fs"
    unfolding id by auto
  with f show ?thesis by blast
qed

end
