(* ===== verification/App_Settings.thy ===== *)
theory App_Settings imports Py_Text begin

text \<open>
  \<^verbatim>\<open>src/config.py\<close>: the settings, read from environment variables by Pydantic.

  Pydantic validates the fields in the order they are declared, defaults included, and shows a validator the fields before it that passed. An
  environment is a list of variable names, in lower case, and texts; how a text is read as a number or a truth value is in \<open>settings_lib\<close>. A
  settings object is the list of its fields with their values, and \<open>None\<close> the error that ends the program.
\<close>

section \<open>The fields\<close>

datatype setting_type = S_str | S_int | S_float | S_bool | S_opt_str

text \<open>In declared order and by the sections of the source, with their defaults; a field without a default is required.\<close>

definition database_fields :: "(string \<times> setting_type \<times> json option) list" where
  "database_fields =
     [(''database_url'', S_str, Some (JStr ''sqlite:///plaidify.db'')), (''db_pool_size'', S_int, Some (JInt 20)),
      (''db_max_overflow'', S_int, Some (JInt 10)), (''db_pool_recycle'', S_int, Some (JInt 3600))]"

definition encryption_fields :: "(string \<times> setting_type \<times> json option) list" where
  "encryption_fields =
     [(''encryption_key'', S_str, None), (''encryption_key_version'', S_int, Some (JInt 1)),
      (''encryption_key_previous'', S_opt_str, Some JNull)]"

definition key_management_service_fields :: "(string \<times> setting_type \<times> json option) list" where
  "key_management_service_fields =
     [(''kms_provider'', S_str, Some (JStr ''local'')), (''kms_key_id'', S_opt_str, Some JNull), (''kms_region'', S_opt_str, Some JNull)]"

definition jwt_auth_fields :: "(string \<times> setting_type \<times> json option) list" where
  "jwt_auth_fields =
     [(''jwt_secret_key'', S_str, None), (''jwt_algorithm'', S_str, Some (JStr ''HS256'')),
      (''jwt_access_token_expire_minutes'', S_int, Some (JInt 15)), (''jwt_refresh_token_expire_minutes'', S_int, Some (JInt 10080))]"

definition oauth_social_login_fields :: "(string \<times> setting_type \<times> json option) list" where
  "oauth_social_login_fields =
     [(''oauth_enabled'', S_bool, Some (JBool False)), (''oauth_allowed_providers'', S_str, Some (JStr ''google,github'')),
      (''oauth_google_client_id'', S_opt_str, Some JNull), (''oauth_github_client_id'', S_opt_str, Some JNull),
      (''oauth_auto_register'', S_bool, Some (JBool True))]"

definition registration_bootstrap_fields :: "(string \<times> setting_type \<times> json option) list" where
  "registration_bootstrap_fields =
     [(''registration_enabled'', S_bool, Some (JBool True)), (''bootstrap_user_username'', S_opt_str, Some JNull),
      (''bootstrap_user_email'', S_opt_str, Some JNull), (''bootstrap_user_password'', S_opt_str, Some JNull)]"

definition server_setting_fields :: "(string \<times> setting_type \<times> json option) list" where
  "server_setting_fields =
     [(''app_name'', S_str, Some (JStr ''Plaidify'')), (''app_version'', S_str, Some (JStr ''0.3.0b1'')),
      (''env'', S_str, Some (JStr ''development'')), (''debug'', S_bool, Some (JBool False)), (''log_level'', S_str, Some (JStr ''INFO'')),
      (''log_format'', S_str, Some (JStr ''json'')),
      (''cors_origins'', S_str, Some (JStr ''http://localhost:3000,http://localhost:8000,http://localhost:8080'')),
      (''public_link_sessions_enabled'', S_bool, Some (JBool False)), (''public_link_allowed_origins'', S_str, Some (JStr '''')),
      (''link_launch_token_expire_seconds'', S_int, Some (JInt 300)), (''enforce_https'', S_bool, Some (JBool False))]"

definition observability_fields :: "(string \<times> setting_type \<times> json option) list" where
  "observability_fields =
     [(''sentry_dsn'', S_opt_str, Some JNull), (''otel_endpoint'', S_opt_str, Some JNull)]"

definition connectors_fields :: "(string \<times> setting_type \<times> json option) list" where
  "connectors_fields =
     [(''connectors_dir'', S_str, Some (JStr ''connectors''))]"

definition demo_sandbox_fields :: "(string \<times> setting_type \<times> json option) list" where
  "demo_sandbox_fields =
     [(''demo_mode'', S_bool, Some (JBool False)), (''demo_portal_url'', S_str, Some (JStr ''http://127.0.0.1:8799''))]"

definition rate_limiting_fields :: "(string \<times> setting_type \<times> json option) list" where
  "rate_limiting_fields =
     [(''rate_limit_enabled'', S_bool, Some (JBool True)), (''rate_limit_auth'', S_str, Some (JStr ''5/minute'')),
      (''rate_limit_connect'', S_str, Some (JStr ''10/minute'')), (''rate_limit_mfa'', S_str, Some (JStr ''5/minute'')),
      (''rate_limit_default'', S_str, Some (JStr ''60/minute''))]"

definition resilience_fields :: "(string \<times> setting_type \<times> json option) list" where
  "resilience_fields =
     [(''llm_circuit_failure_threshold'', S_int, Some (JInt 5)), (''llm_circuit_reset_seconds'', S_float, Some (JNum 30)),
      (''llm_retry_max_attempts'', S_int, Some (JInt 2)), (''browser_circuit_failure_threshold'', S_int, Some (JInt 5)),
      (''browser_circuit_reset_seconds'', S_float, Some (JNum 30))]"

definition redis_fields :: "(string \<times> setting_type \<times> json option) list" where
  "redis_fields =
     [(''redis_url'', S_opt_str, Some JNull)]"

definition access_job_execution_fields :: "(string \<times> setting_type \<times> json option) list" where
  "access_job_execution_fields =
     [(''access_job_execution_mode'', S_str, Some (JStr ''inprocess'')),
      (''access_job_stream_key'', S_str, Some (JStr ''plaidify:access_jobs:stream'')),
      (''access_job_consumer_group'', S_str, Some (JStr ''plaidify-access-jobs'')), (''access_job_payload_ttl'', S_int, Some (JInt 3600)),
      (''access_job_reclaim_idle_ms'', S_int, Some (JInt 30000)), (''access_job_worker_block_ms'', S_int, Some (JInt 5000)),
      (''access_job_worker_concurrency'', S_int, Some (JInt 2))]"

definition browser_engine_fields :: "(string \<times> setting_type \<times> json option) list" where
  "browser_engine_fields =
     [(''browser_headless'', S_bool, Some (JBool True)), (''browser_pool_size'', S_int, Some (JInt 5)),
      (''browser_idle_timeout'', S_int, Some (JInt 300)), (''browser_navigation_timeout'', S_int, Some (JInt 30000)),
      (''browser_action_timeout'', S_int, Some (JInt 10000)), (''browser_block_resources'', S_bool, Some (JBool True)),
      (''browser_stealth'', S_bool, Some (JBool True)), (''strict_read_only_mode'', S_bool, Some (JBool True)),
      (''browser_allow_read_downloads'', S_bool, Some (JBool True)), (''browser_download_root'', S_str, Some (JStr ''/tmp/plaidify-downloads''))]"

definition llm_extraction_fields :: "(string \<times> setting_type \<times> json option) list" where
  "llm_extraction_fields =
     [(''llm_provider'', S_str, Some (JStr ''openai'')), (''llm_api_key'', S_opt_str, Some JNull), (''llm_model'', S_opt_str, Some JNull),
      (''llm_base_url'', S_opt_str, Some JNull), (''llm_max_tokens'', S_int, Some (JInt 4096)), (''llm_temperature'', S_float, Some (JNum 0)),
      (''llm_timeout'', S_float, Some (JNum 60)), (''llm_token_budget'', S_int, Some (JInt 30000)),
      (''llm_fallback_model'', S_opt_str, Some JNull)]"

definition health_check_fields :: "(string \<times> setting_type \<times> json option) list" where
  "health_check_fields =
     [(''health_check_token'', S_opt_str, Some JNull)]"

definition audit_retention_fields :: "(string \<times> setting_type \<times> json option) list" where
  "audit_retention_fields =
     [(''audit_retention_days'', S_int, Some (JInt 730))]"

definition SETTINGS_FIELDS :: "(string \<times> setting_type \<times> json option) list" where
  "SETTINGS_FIELDS = database_fields @
     encryption_fields @
     key_management_service_fields @
     jwt_auth_fields @
     oauth_social_login_fields @
     registration_bootstrap_fields @
     server_setting_fields @
     observability_fields @
     connectors_fields @
     demo_sandbox_fields @
     rate_limiting_fields @
     resilience_fields @
     redis_fields @
     access_job_execution_fields @
     browser_engine_fields @
     llm_extraction_fields @
     health_check_fields @
     audit_retention_fields"

lemmas settings_fields = SETTINGS_FIELDS_def database_fields_def
  encryption_fields_def
  key_management_service_fields_def
  jwt_auth_fields_def
  oauth_social_login_fields_def
  registration_bootstrap_fields_def
  server_setting_fields_def
  observability_fields_def
  connectors_fields_def
  demo_sandbox_fields_def
  rate_limiting_fields_def
  resilience_fields_def
  redis_fields_def
  access_job_execution_fields_def
  browser_engine_fields_def
  llm_extraction_fields_def
  health_check_fields_def
  audit_retention_fields_def

record settings_lib =
  sl_int :: "string \<Rightarrow> int option"
  sl_float :: "string \<Rightarrow> real option"
  sl_bool :: "string \<Rightarrow> bool option"

definition coerce_setting :: "settings_lib \<Rightarrow> setting_type \<Rightarrow> string \<Rightarrow> json option" where
  "coerce_setting L ty t =
     (case ty of
        S_str \<Rightarrow> Some (JStr t)
      | S_opt_str \<Rightarrow> Some (JStr t)
      | S_int \<Rightarrow> map_option JInt (sl_int L t)
      | S_float \<Rightarrow> map_option JNum (sl_float L t)
      | S_bool \<Rightarrow> map_option JBool (sl_bool L t))"

section \<open>The validators\<close>

definition one_of :: "string list \<Rightarrow> string \<Rightarrow> json option" where
  "one_of allowed v = (if v \<in> set allowed then Some (JStr v) else None)"

definition cors_origin_list :: "string \<Rightarrow> string list" where
  "cors_origin_list v = map py_strip (filter (\<lambda>x. py_strip x \<noteq> '''') (split_on (CHR '','') v))"

definition known_env :: "(string, json) dict \<Rightarrow> json" where
  "known_env data = (case map_of data ''env'' of None \<Rightarrow> JStr ''development'' | Some v \<Rightarrow> v)"

definition validate_text :: "string \<Rightarrow> (string, json) dict \<Rightarrow> string \<Rightarrow> json option" where
  "validate_text name data v =
     (if name = ''llm_provider'' then one_of [''openai'', ''anthropic''] (py_strip (py_lower v))
      else if name = ''env'' then one_of [''development'', ''staging'', ''production''] (py_lower v)
      else if name = ''access_job_execution_mode'' then one_of [''inprocess'', ''redis-worker''] (py_strip (py_lower v))
      else if name = ''log_level'' then one_of [''DEBUG'', ''INFO'', ''WARNING'', ''ERROR'', ''CRITICAL''] (py_upper v)
      else if name = ''log_format'' then one_of [''json'', ''text''] (py_lower v)
      else if name = ''database_url'' then (if known_env data = JStr ''production'' \<and> starts_with ''sqlite'' v then None else Some (JStr v))
      else if name = ''cors_origins'' then (if known_env data = JStr ''production'' \<and> ''*'' \<in> set (cors_origin_list v) then None else Some (JStr v))
      else Some (JStr v))"

definition validate_setting :: "string \<Rightarrow> (string, json) dict \<Rightarrow> json \<Rightarrow> json option" where
  "validate_setting name data v = (case v of JStr t \<Rightarrow> validate_text name data t | _ \<Rightarrow> Some v)"

definition given_setting :: "settings_lib \<Rightarrow> (string, string) dict \<Rightarrow> string \<times> setting_type \<times> json option \<Rightarrow> json option" where
  "given_setting L environ f =
     (case f of (name, ty, dflt) \<Rightarrow> (case map_of environ name of Some t \<Rightarrow> coerce_setting L ty t | None \<Rightarrow> dflt))"

text \<open>A field that fails is not shown to the later ones, and is the error of the whole in the end.\<close>

fun validate_settings ::
  "settings_lib \<Rightarrow> (string, string) dict \<Rightarrow> (string \<times> setting_type \<times> json option) list \<Rightarrow> (string, json) dict \<Rightarrow> bool \<Rightarrow> (string, json) dict option" where
  "validate_settings L environ [] data failed = (if failed then None else Some data)"
| "validate_settings L environ (f # fs) data failed =
     (case Option.bind (given_setting L environ f) (validate_setting (fst f) data) of
        None \<Rightarrow> validate_settings L environ fs data True
      | Some v \<Rightarrow> validate_settings L environ fs (data @ [(fst f, v)]) failed)"

definition get_settings :: "settings_lib \<Rightarrow> (string, string) dict \<Rightarrow> (string, json) dict option" where
  "get_settings L environ = validate_settings L environ SETTINGS_FIELDS [] False"

section \<open>What is validated when\<close>

lemma validate_failed [simp]: "validate_settings L environ fs data True = None"
  by (induction fs arbitrary: data) (auto split: option.split)

text \<open>Every field was validated against exactly the fields before it.\<close>

lemma validated_field:
  assumes "validate_settings L environ (pre @ f # post) data b = Some s"
  obtains before after v x where "s = data @ before @ (fst f, v) # after" "map fst before = map fst pre" "map fst after = map fst post"
    "given_setting L environ f = Some x" "validate_setting (fst f) (data @ before) x = Some v"
proof -
  have append: "\<exists>ys. s = data @ ys \<and> map fst ys = map fst fs" if "validate_settings L environ fs data b = Some s" for fs data b s
    using that by (induction fs arbitrary: data b) (fastforce split: option.splits if_splits)+
  have "\<exists>before after v x. s = data @ before @ (fst f, v) # after \<and> map fst before = map fst pre \<and> map fst after = map fst post \<and>
      given_setting L environ f = Some x \<and> validate_setting (fst f) (data @ before) x = Some v"
    using assms
  proof (induction pre arbitrary: data b)
    case Nil
    then show ?case using append by (fastforce simp: bind_eq_Some_conv split: option.splits)
  next
    case (Cons g gs)
    then obtain v where v: "validate_settings L environ (gs @ f # post) (data @ [(fst g, v)]) b = Some s"
      by (auto split: option.splits)
    then obtain before after w x where "s = (data @ [(fst g, v)]) @ before @ (fst f, w) # after" "map fst before = map fst gs" "map fst after = map fst post"
      "given_setting L environ f = Some x" "validate_setting (fst f) ((data @ [(fst g, v)]) @ before) x = Some w"
      using Cons.IH [OF v] by blast
    then show ?case by (intro exI [of _ "(fst g, v) # before"] exI [of _ after] exI [of _ w] exI [of _ x]) simp
  qed
  then show thesis using that by blast
qed

definition fields_before :: "string \<Rightarrow> (string \<times> setting_type \<times> json option) list" where
  "fields_before n = takeWhile (\<lambda>f. fst f \<noteq> n) SETTINGS_FIELDS"

lemma settings_names: "distinct (map fst SETTINGS_FIELDS)"
  by code_simp

lemma declared_order:
  "''env'' \<in> set (map fst (fields_before ''cors_origins''))"
  "fields_before ''database_url'' = []"
  by code_simp+

lemma split_at_name:
  assumes "n \<in> fst ` set fs"
  shows "\<exists>f post. fs = takeWhile (\<lambda>f. fst f \<noteq> n) fs @ f # post \<and> fst f = n"
proof -
  let ?d = "dropWhile (\<lambda>f. fst f \<noteq> n) fs"
  have "?d \<noteq> []" using assms by (auto simp: dropWhile_eq_Nil_conv)
  then obtain f post where d: "?d = f # post" by (cases ?d) auto
  then have "fst f = n" using hd_dropWhile [of "\<lambda>f. fst f \<noteq> n" fs] \<open>?d \<noteq> []\<close> by auto
  moreover have "fs = takeWhile (\<lambda>f. fst f \<noteq> n) fs @ f # post" using d takeWhile_dropWhile_id by metis
  ultimately show ?thesis by blast
qed

lemma split_fields: "n \<in> set (map fst SETTINGS_FIELDS) \<Longrightarrow> \<exists>f post. SETTINGS_FIELDS = fields_before n @ f # post \<and> fst f = n"
  unfolding fields_before_def by (rule split_at_name) simp

lemma known_env_last: "''env'' \<in> fst ` set before \<Longrightarrow> known_env (before @ after) = known_env before"
  by (auto simp: known_env_def map_add_def split: option.splits dest: map_of_SomeD simp: map_of_eq_None_iff)

lemma setting_value:
  assumes "get_settings L environ = Some s" "n \<in> set (map fst SETTINGS_FIELDS)"
  obtains before after v x where "s = before @ (n, v) # after" "map fst before = map fst (fields_before n)" "validate_setting n before x = Some v"
    "jget s n = v"
proof -
  obtain f post where f: "SETTINGS_FIELDS = fields_before n @ f # post" "fst f = n" using split_fields [OF assms(2)] by blast
  from assms(1) f have "validate_settings L environ (fields_before n @ f # post) [] False = Some s" by (simp add: get_settings_def)
  then obtain before after v x where s: "s = before @ (n, v) # after" "map fst before = map fst (fields_before n)" "validate_setting n before x = Some v"
    by (rule validated_field) (use f in auto)
  moreover have "n \<notin> fst ` set before"
  proof -
    have "n \<notin> set (map fst (fields_before n))" by (auto simp: fields_before_def dest: set_takeWhileD)
    then show ?thesis using s(2) by (metis list.set_map)
  qed
  ultimately have "jget s n = v" by (simp add: jget_def map_of_append map_add_def map_of_eq_None_iff [THEN iffD2] split: option.split)
  with s show thesis using that by blast
qed

text \<open>Settings that load are in the form the program compares with: the environment, the execution mode, the provider and the logging are members of
  their sets, whatever case and space they were written in.\<close>

theorem settings_are_normalised:
  assumes "get_settings L environ = Some s"
  shows "(n, allowed) \<in> {(''env'', {''development'', ''staging'', ''production''}), (''llm_provider'', {''openai'', ''anthropic''}),
      (''access_job_execution_mode'', {''inprocess'', ''redis-worker''}), (''log_format'', {''json'', ''text''}),
      (''log_level'', {''DEBUG'', ''INFO'', ''WARNING'', ''ERROR'', ''CRITICAL''})} \<Longrightarrow>
    \<forall>t. jget s n = JStr t \<longrightarrow> t \<in> allowed"
proof -
  assume n: "(n, allowed) \<in> {(''env'', {''development'', ''staging'', ''production''}), (''llm_provider'', {''openai'', ''anthropic''}),
      (''access_job_execution_mode'', {''inprocess'', ''redis-worker''}), (''log_format'', {''json'', ''text''}),
      (''log_level'', {''DEBUG'', ''INFO'', ''WARNING'', ''ERROR'', ''CRITICAL''})}"
  have "n \<in> set (map fst SETTINGS_FIELDS)" using n by (auto simp: settings_fields)
  from setting_value [OF assms this] obtain before v x where v: "validate_setting n before x = Some v" "jget s n = v" by metis
  then show ?thesis using n by (auto simp: validate_setting_def validate_text_def one_of_def split: json.splits if_splits)
qed

text \<open>In production no loaded settings allow every origin: the environment is declared before the origins, so their check sees it.\<close>

theorem production_refuses_cors_wildcard:
  assumes "get_settings L environ = Some s" "jget s ''env'' = JStr ''production''" "jget s ''cors_origins'' = JStr v"
  shows "''*'' \<notin> set (cors_origin_list v)"
proof -
  have "''cors_origins'' \<in> set (map fst SETTINGS_FIELDS)" by (simp add: settings_fields)
  from setting_value [OF assms(1) this] obtain before after x where s: "s = before @ (''cors_origins'', JStr v) # after"
    "map fst before = map fst (fields_before ''cors_origins'')" "validate_setting ''cors_origins'' before x = Some (JStr v)"
    using assms(3) by metis
  have "''env'' \<in> fst ` set before" using declared_order(1) s(2) by (metis list.set_map)
  then have "known_env before = known_env s" using known_env_last s(1) by metis
  also have "known_env s = JStr ''production''" using assms(2) by (auto simp: known_env_def jget_def split: option.splits)
  finally show ?thesis using s(3) by (auto simp: validate_setting_def validate_text_def split: json.splits if_splits)
qed

section \<open>The check of the database\<close>

lemma same_later:
  assumes "validate_settings L e1 fs (p # d) False = Some s" "\<And>n. n \<in> fst ` set fs \<Longrightarrow> map_of e1 n = map_of e2 n" "fst p \<noteq> ''env''" "fst q \<noteq> ''env''"
  shows "\<exists>ys. s = p # ys \<and> validate_settings L e2 fs (q # d) False = Some (q # ys)"
  using assms(1,2)
proof (induction fs arbitrary: d)
  case (Cons f fs)
  have "known_env (p # d) = known_env (q # d)" using assms(3,4) by (cases p; cases q) (simp add: known_env_def)
  then have "validate_setting (fst f) (p # d) = validate_setting (fst f) (q # d)"
    by (intro ext) (simp add: validate_setting_def validate_text_def split: json.split)
  moreover have "given_setting L e1 f = given_setting L e2 f" using Cons.prems(2) by (cases f) (simp add: given_setting_def)
  ultimately have same: "Option.bind (given_setting L e2 f) (validate_setting (fst f) (q # d)) = Option.bind (given_setting L e1 f) (validate_setting (fst f) (p # d))"
    by simp
  from Cons.prems(1) obtain v where v: "Option.bind (given_setting L e1 f) (validate_setting (fst f) (p # d)) = Some v"
    "validate_settings L e1 fs (p # (d @ [(fst f, v)])) False = Some s" by (auto split: option.splits)
  from Cons.IH [OF v(2)] Cons.prems(2) show ?case using same v(1) by auto
qed auto

text \<open>C33. The check that production does not run on SQLite never refuses anything: the database is declared, and so validated, before the environment,
  and is judged as in development. Settings that load with some database load with any, whatever the environment is.\<close>

theorem sqlite_passes_in_production:
  assumes "get_settings L environ = Some s"
  shows "\<exists>s'. get_settings L (AList.update ''database_url'' w environ) = Some s' \<and> jget s' ''database_url'' = JStr w \<and> jget s' ''env'' = jget s ''env''"
proof -
  obtain f post where f: "SETTINGS_FIELDS = f # post" "fst f = ''database_url''" using split_fields [of "''database_url''"] declared_order(2)
    by (auto simp: settings_fields)
  have valid: "\<exists>x. Option.bind (given_setting L (AList.update ''database_url'' w environ) f) (validate_setting (fst f) []) = Some (JStr w)"
    using f by (cases f) (auto simp: given_setting_def settings_fields coerce_setting_def validate_setting_def validate_text_def known_env_def)
  have "distinct (map fst (f # post))" using settings_names f(1) by metis
  then have names: "''database_url'' \<notin> fst ` set post" using f(2) by auto
  have "validate_settings L environ (f # post) [] False = Some s" using assms unfolding get_settings_def f(1) .
  then obtain v where v: "validate_settings L environ post ((''database_url'', v) # []) False = Some s"
    using f(2) by (auto split: option.splits)
  obtain ys where ys: "s = (''database_url'', v) # ys"
    "validate_settings L (AList.update ''database_url'' w environ) post ((''database_url'', JStr w) # []) False = Some ((''database_url'', JStr w) # ys)"
  proof -
    have "map_of environ n = map_of (AList.update ''database_url'' w environ) n" if "n \<in> fst ` set post" for n
      using that names by (cases "n = ''database_url''") auto
    from same_later [OF v this, of "(''database_url'', JStr w)"] show thesis using that by auto
  qed
  have "get_settings L (AList.update ''database_url'' w environ) = Some ((''database_url'', JStr w) # ys)"
    unfolding get_settings_def f(1) using valid ys(2) f(2) by auto
  then show ?thesis using ys(1) by (simp add: jget_def)
qed

section \<open>An example\<close>

definition sample_settings_lib :: settings_lib where
  "sample_settings_lib = \<lparr>sl_int = py_int, sl_float = (\<lambda>_. None), sl_bool = (\<lambda>t. if t = ''true'' then Some True else if t = ''false'' then Some False else None)\<rparr>"

definition production_environ :: "(string, string) dict" where
  "production_environ = [(''encryption_key'', ''k''), (''jwt_secret_key'', ''j''), (''env'', ''Production''), (''cors_origins'', ''https://a.com'')]"

lemma production_loads:
  "\<exists>s. get_settings sample_settings_lib production_environ = Some s \<and> jget s ''env'' = JStr ''production'' \<and> jget s ''cors_origins'' = JStr ''https://a.com''"
proof -
  have "case get_settings sample_settings_lib production_environ of None \<Rightarrow> False
    | Some s \<Rightarrow> jget s ''env'' = JStr ''production'' \<and> jget s ''cors_origins'' = JStr ''https://a.com''"
    by code_simp
  then show ?thesis by (auto split: option.splits)
qed

theorem settings_are_normalised_witness:
  "\<exists>s. get_settings sample_settings_lib production_environ = Some s \<and> (\<forall>t. jget s ''env'' = JStr t \<longrightarrow> t \<in> {''development'', ''staging'', ''production''})"
proof -
  obtain s where s: "get_settings sample_settings_lib production_environ = Some s" using production_loads by blast
  with settings_are_normalised [OF s, of "''env''" "{''development'', ''staging'', ''production''}"] show ?thesis by simp
qed

theorem production_refuses_cors_wildcard_witness:
  "\<exists>s. get_settings sample_settings_lib production_environ = Some s \<and> jget s ''env'' = JStr ''production'' \<and> ''*'' \<notin> set (cors_origin_list ''https://a.com'')"
proof -
  obtain s where s: "get_settings sample_settings_lib production_environ = Some s" "jget s ''env'' = JStr ''production''" "jget s ''cors_origins'' = JStr ''https://a.com''"
    using production_loads by blast
  with production_refuses_cors_wildcard [OF s] show ?thesis by blast
qed

theorem sqlite_passes_in_production_witness:
  "\<exists>s. get_settings sample_settings_lib (AList.update ''database_url'' ''sqlite:///p.db'' production_environ) = Some s \<and>
     jget s ''database_url'' = JStr ''sqlite:///p.db'' \<and> jget s ''env'' = JStr ''production''"
proof -
  obtain s where s: "get_settings sample_settings_lib production_environ = Some s" "jget s ''env'' = JStr ''production''" using production_loads by blast
  from sqlite_passes_in_production [OF s(1), of "''sqlite:///p.db''"] s(2) show ?thesis by auto
qed

end
