(* ===== verification/Auth.thy ===== *)
theory Auth imports Link_Sessions begin

text \<open>
  \<^verbatim>\<open>src/routers/auth.py\<close>, \<^verbatim>\<open>src/auth_utils.py\<close>, \<^verbatim>\<open>src/oauth_providers.py\<close> and \<^verbatim>\<open>src/routers/admin.py\<close>: registration,
  password login with its lockout, refresh-token rotation, password reset, login through an identity provider, account deletion and the
  administrator's operations.

  \<open>auth_env\<close> is what one request sees of the world: the settings, the clock, the password hash (bcrypt) and its check, the JWT encoder,
  the random values the handler draws and the id the database gives a new row. \<^verbatim>\<open>verify\<close> of a missing hash is \<^verbatim>\<open>False\<close> in passlib.
\<close>

section \<open>Environment\<close>

record auth_settings =
  as_registration_enabled :: bool
  as_production :: bool
  as_cors_origins :: string
  as_access_minutes :: int
  as_refresh_minutes :: int
  as_oauth_enabled :: bool
  as_oauth_allowed_providers :: string
  as_oauth_auto_register :: bool
  as_oauth_google_client_id :: "string option"

record auth_env =
  au_api :: api_env
  au_set :: auth_settings
  au_ciphers :: ciphers
  au_keys :: key_settings
  au_kms :: kms
  au_fk :: bool
  au_check :: "string \<Rightarrow> string \<Rightarrow> bool"
  au_hash :: "string \<Rightarrow> string"
  au_jwt_encode :: "(string, json) dict \<Rightarrow> string"
  au_fresh :: string
  au_row_id :: int
  au_user_id :: int
  au_nonce :: string
  au_random32 :: string
  au_ip :: "string option"

abbreviation au_now :: "auth_env \<Rightarrow> time" where "au_now e \<equiv> en_now (au_api e)"

definition auth_event :: "auth_env \<Rightarrow> string \<Rightarrow> int option \<Rightarrow> (string, json) dict \<Rightarrow> app_db \<Rightarrow> app_db" where
  "auth_event e action uid metadata db = audited (au_api e) ''auth'' action uid None metadata (au_ip e) db"

definition verify_password :: "auth_env \<Rightarrow> string \<Rightarrow> string option \<Rightarrow> bool" where
  "verify_password e plain_password hashed_password = (case hashed_password of None \<Rightarrow> False | Some h \<Rightarrow> au_check e plain_password h)"

definition given_text :: "string option \<Rightarrow> bool" where
  "given_text v \<longleftrightarrow> v \<noteq> None \<and> v \<noteq> Some ''''"

section \<open>Tokens\<close>

definition create_access_token :: "auth_env \<Rightarrow> (string, json) dict \<Rightarrow> int option \<Rightarrow> string" where
  "create_access_token e data expires_delta =
     (let minutes = (case expires_delta of Some m \<Rightarrow> if m \<noteq> 0 then m else as_access_minutes (au_set e) | None \<Rightarrow> as_access_minutes (au_set e))
      in au_jwt_encode e (AList.update ''exp'' (JNum (au_now e + 60 * of_int minutes)) data))"

definition create_refresh_token :: "auth_env \<Rightarrow> int \<Rightarrow> app_db \<Rightarrow> string \<times> app_db" where
  "create_refresh_token e user_id db =
     (au_fresh e,
      db\<lparr>db_refresh_tokens := db_refresh_tokens db @
        [\<lparr>rt_id = au_row_id e, rt_token = au_fresh e, rt_user_id = user_id,
          rt_expires_at = au_now e + 60 * of_int (as_refresh_minutes (au_set e)), rt_revoked = False, rt_created_at = au_now e\<rparr>]\<rparr>)"

record token_pair =
  tp_access_token :: string
  tp_refresh_token :: string
  tp_token_type :: string

definition issue_token_pair :: "auth_env \<Rightarrow> int \<Rightarrow> app_db \<Rightarrow> token_pair \<times> app_db" where
  "issue_token_pair e user_id db =
     (let access_token = create_access_token e [(''sub'', JStr (show_int user_id))] None;
          (refresh_token, db) = create_refresh_token e user_id db
      in (\<lparr>tp_access_token = access_token, tp_refresh_token = refresh_token, tp_token_type = ''bearer''\<rparr>, db))"

definition signed_in :: "auth_env \<Rightarrow> int \<Rightarrow> app_db \<Rightarrow> token_pair reply" where
  "signed_in e uid db = (let (p, db) = issue_token_pair e uid db in (Inr p, db))"

section \<open>Passwords\<close>

text \<open>The validator shared by registration and reset. The texts of a request are ASCII or one of the other Latin-1 characters.\<close>

definition is_upper_az :: "char \<Rightarrow> bool" where
  "is_upper_az c \<longleftrightarrow> 65 \<le> (of_char c :: nat) \<and> (of_char c :: nat) \<le> 90"

definition is_lower_az :: "char \<Rightarrow> bool" where
  "is_lower_az c \<longleftrightarrow> 97 \<le> (of_char c :: nat) \<and> (of_char c :: nat) \<le> 122"

definition validate_password_strength :: "string \<Rightarrow> string + string" where
  "validate_password_strength v =
     (if \<not> list_ex is_upper_az v then Inl ''Password must contain at least one uppercase letter.''
      else if \<not> list_ex is_lower_az v then Inl ''Password must contain at least one lowercase letter.''
      else if \<not> list_ex is_digit v then Inl ''Password must contain at least one digit.''
      else if \<not> list_ex (\<lambda>c. \<not> (is_upper_az c \<or> is_lower_az c \<or> is_digit c)) v then Inl ''Password must contain at least one special character.''
      else Inr v)"

record register_request =
  rq_username :: string
  rq_email :: string
  rq_password :: string

text \<open>What pydantic checks of the fields besides that the email is one.\<close>

definition register_request_ok :: "register_request \<Rightarrow> bool" where
  "register_request_ok b \<longleftrightarrow>
     3 \<le> length (rq_username b) \<and> length (rq_username b) \<le> 50 \<and> 8 \<le> length (rq_password b) \<and> length (rq_password b) \<le> 128 \<and>
     validate_password_strength (rq_password b) = Inr (rq_password b)"

section \<open>Registration\<close>

definition new_user :: "auth_env \<Rightarrow> string \<Rightarrow> string \<Rightarrow> string option \<Rightarrow> (string \<times> string) option \<Rightarrow> string \<Rightarrow> user_row" where
  "new_user e username email hashed oauth dek =
     \<lparr>u_id = au_user_id e, u_username = Some username, u_email = Some email, u_hashed_password = hashed,
      u_oauth_provider = map_option fst oauth, u_oauth_sub = map_option snd oauth, u_is_active = True, u_is_admin = False,
      u_encrypted_dek = Some dek, u_failed_login_count = 0, u_locked_until = None\<rparr>"

definition register_user :: "auth_env \<Rightarrow> register_request \<Rightarrow> app_db \<Rightarrow> token_pair reply" where
  "register_user e body db =
     (if \<not> as_registration_enabled (au_set e)
      then (Inl (HTTPException 403 ''Self-registration is disabled. Contact an administrator for access.''), db)
      else if find (\<lambda>u. u_username u = Some (rq_username body) \<or> u_email u = Some (rq_email body)) (db_users db) \<noteq> None
      then (Inl (HTTPException 400 ''Username or email already registered''), db)
      else (case create_user_dek (au_ciphers e) (au_keys e) (au_kms e) (au_nonce e) (au_random32 e) of
              None \<Rightarrow> (Inl server_error, db)
            | Some dek \<Rightarrow>
                let user = new_user e (rq_username body) (rq_email body) (Some (au_hash e (rq_password body))) None dek;
                    db = db\<lparr>db_users := db_users db @ [user]\<rparr>;
                    db = auth_event e ''register'' (Some (u_id user)) [(''username'', JStr (rq_username body))] db
                in signed_in e (u_id user) db))"

section \<open>Login\<close>

definition cors_allowed :: "string \<Rightarrow> string list" where
  "cors_allowed setting = map py_strip (filter (\<lambda>o'. py_strip o' \<noteq> '''') (split_on (CHR '','') setting))"

text \<open>The origin check of a form post in production. A referer that \<^verbatim>\<open>urlparse\<close> refuses raises.\<close>

definition csrf_refusal :: "auth_env \<Rightarrow> (string, string) dict \<Rightarrow> http_error option" where
  "csrf_refusal e headers =
     (if \<not> as_production (au_set e) then None
      else
        let origin = map_of headers ''origin''; referer = map_of headers ''referer''; allowed = cors_allowed (as_cors_origins (au_set e));
            blocked = HTTPException 403 ''Cross-origin request blocked''
        in if given_text origin \<and> the origin \<notin> set allowed then Some blocked
           else if \<not> given_text origin \<and> given_text referer
           then (case urlparse (the referer) of
                   None \<Rightarrow> Some server_error
                 | Some p \<Rightarrow> if url_scheme p @ ''://'' @ url_netloc p \<notin> set allowed then Some blocked else None)
           else None)"

definition set_user :: "int \<Rightarrow> (user_row \<Rightarrow> user_row) \<Rightarrow> app_db \<Rightarrow> app_db" where
  "set_user uid f db = db\<lparr>db_users := update_where (\<lambda>u. u_id u = uid) f (db_users db)\<rparr>"

definition MAX_LOGIN_FAILURES :: int where "MAX_LOGIN_FAILURES = 5"
definition LOCK_SECONDS :: time where "LOCK_SECONDS = 900"

definition failed_login :: "time \<Rightarrow> user_row \<Rightarrow> user_row" where
  "failed_login now u =
     (let n = u_failed_login_count u + 1
      in if n \<ge> MAX_LOGIN_FAILURES then u\<lparr>u_failed_login_count := n, u_locked_until := Some (now + LOCK_SECONDS)\<rparr>
         else u\<lparr>u_failed_login_count := n\<rparr>)"

definition is_locked :: "time \<Rightarrow> user_row \<Rightarrow> bool" where
  "is_locked now u \<longleftrightarrow> (case u_locked_until u of None \<Rightarrow> False | Some t \<Rightarrow> t > now)"

definition clear_lockout :: "user_row \<Rightarrow> app_db \<Rightarrow> app_db" where
  "clear_lockout user db =
     (if u_failed_login_count user \<noteq> 0
      then set_user (u_id user) (\<lambda>u. u\<lparr>u_failed_login_count := 0, u_locked_until := None\<rparr>) db else db)"

definition bad_login :: http_error where "bad_login = HTTPException 400 ''Incorrect username or password''"
definition account_locked :: http_error where
  "account_locked = HTTPException 423 ''Account temporarily locked due to too many failed attempts. Try again later.''"

definition login_user :: "auth_env \<Rightarrow> (string, string) dict \<Rightarrow> string \<Rightarrow> string \<Rightarrow> app_db \<Rightarrow> token_pair reply" where
  "login_user e headers username password db =
     (case csrf_refusal e headers of
        Some err \<Rightarrow> (Inl err, db)
      | None \<Rightarrow>
          let rejected = auth_event e ''login_failed'' None [(''username'', JStr username)]
          in (case find (\<lambda>u. u_username u = Some username) (db_users db) of
                None \<Rightarrow> (Inl bad_login, rejected db)
              | Some user \<Rightarrow>
                  if is_locked (au_now e) user then (Inl account_locked, db)
                  else if \<not> verify_password e password (u_hashed_password user)
                  then (Inl bad_login, rejected (set_user (u_id user) (failed_login (au_now e)) db))
                  else
                    let db = clear_lockout user db
                    in (case ensure_user_dek (au_ciphers e) (au_keys e) (au_kms e) (au_nonce e) (au_random32 e) user db of
                          None \<Rightarrow> (Inl server_error, db)
                        | Some db \<Rightarrow> signed_in e (u_id user) (auth_event e ''login'' (Some (u_id user)) [] db))))"

section \<open>The profile and the account\<close>

definition get_profile :: "user_row \<Rightarrow> json" where
  "get_profile user = JObj [(''id'', JInt (u_id user)), (''username'', jopt (u_username user)), (''email'', jopt (u_email user)), (''is_active'', JBool (u_is_active user))]"

definition delete_account :: "auth_env \<Rightarrow> string option \<Rightarrow> user_row \<Rightarrow> app_db \<Rightarrow> (string, json) dict reply" where
  "delete_account e password user db =
     (if given_text (u_hashed_password user) \<and> (\<not> given_text password \<or> \<not> verify_password e (the password) (u_hashed_password user))
      then (Inl (HTTPException 403 ''Password confirmation is required to delete your account.''), db)
      else
        let removed = JObj (map (\<lambda>(k, n). (k, JInt (int n))) (fst (delete_user_data (u_id user) db)));
            db = erase_user (au_fk e) (u_id user) db
        in (Inr [(''status'', JStr ''deleted''), (''user_id'', JInt (u_id user)), (''removed'', removed)],
            auth_event e ''account_deleted'' (Some (u_id user)) [(''removed'', removed)] db))"

section \<open>Identity providers\<close>

text \<open>The answer of a provider's endpoint: a failed request, or a status with the body when it is JSON.\<close>

datatype http_answer = Request_failed string | Answered nat "json option"

type_synonym http_client = "string \<Rightarrow> (string \<times> string) list \<Rightarrow> string option \<Rightarrow> http_answer"

datatype 'a provider_result = Provider_ok 'a | Verification_failed string | Crashed

record oauth_identity =
  oi_provider :: string
  oi_subject :: string
  oi_email :: json
  oi_email_verified :: bool
  oi_username :: json

definition GOOGLE_TOKENINFO_URL :: string where "GOOGLE_TOKENINFO_URL = ''https://oauth2.googleapis.com/tokeninfo''"
definition GITHUB_USER_URL :: string where "GITHUB_USER_URL = ''https://api.github.com/user''"
definition GITHUB_EMAILS_URL :: string where "GITHUB_EMAILS_URL = ''https://api.github.com/user/emails''"

definition http_get_json :: "http_client \<Rightarrow> string \<Rightarrow> (string \<times> string) list \<Rightarrow> string option \<Rightarrow> string + json" where
  "http_get_json get url params bearer =
     (case get url params bearer of
        Request_failed m \<Rightarrow> Inl (''Provider request failed: '' @ m)
      | Answered status body \<Rightarrow>
          if status \<noteq> 200 then Inl (''Provider returned HTTP '' @ show_nat status)
          else (case body of None \<Rightarrow> Inl ''Provider returned a non-JSON response.'' | Some v \<Rightarrow> Inr v))"

text \<open>The loop over the two parameters: the first answer with a subject, and the last error.\<close>

fun google_lookup :: "http_client \<Rightarrow> string \<Rightarrow> string list \<Rightarrow> string option \<Rightarrow> (string, json) dict option \<times> string option" where
  "google_lookup get token [] last_error = (None, last_error)"
| "google_lookup get token (param # params) last_error =
     (case http_get_json get GOOGLE_TOKENINFO_URL [(param, token)] None of
        Inl m \<Rightarrow> google_lookup get token params (Some m)
      | Inr (JObj d) \<Rightarrow> if truthy (jget d ''sub'') then (Some d, last_error) else google_lookup get token params last_error
      | Inr _ \<Rightarrow> google_lookup get token params last_error)"

text \<open>An email that is no text has no \<^verbatim>\<open>split\<close>: the code crashes.\<close>

definition verify_google :: "(json \<Rightarrow> string) \<Rightarrow> http_client \<Rightarrow> string \<Rightarrow> string option \<Rightarrow> oauth_identity provider_result" where
  "verify_google rep get token client_id =
     (case google_lookup get token [''id_token'', ''access_token''] None of
        (None, last_error) \<Rightarrow>
          Verification_failed (case last_error of Some m \<Rightarrow> ''Google token verification failed: '' @ m | None \<Rightarrow> ''Google token verification failed.'')
      | (Some d, _) \<Rightarrow>
          if given_text client_id \<and> jget d ''aud'' \<noteq> JStr (the client_id)
          then Verification_failed ''Google token audience does not match the configured client id.''
          else
            let email = jget d ''email'';
                verified = py_lower (py_str rep (jget_default d ''email_verified'' (JStr ''''))) = ''true'';
                identity = (\<lambda>username. Provider_ok \<lparr>oi_provider = ''google'', oi_subject = py_str rep (jget d ''sub''), oi_email = email,
                  oi_email_verified = verified, oi_username = username\<rparr>)
            in if \<not> truthy email then identity JNull
               else (case email of JStr m \<Rightarrow> identity (JStr (before_first (CHR ''@'') m)) | _ \<Rightarrow> Crashed))"

definition is_primary_email :: "json \<Rightarrow> bool" where
  "is_primary_email v = (case v of JObj d \<Rightarrow> truthy (jget d ''primary'') \<and> truthy (jget d ''verified'') | _ \<Rightarrow> False)"

definition primary_email :: "json \<Rightarrow> json option" where
  "primary_email emails =
     (case emails of
        JList es \<Rightarrow> (case find is_primary_email es of Some (JObj d) \<Rightarrow> if d = [] then None else Some (jget d ''email'') | _ \<Rightarrow> None)
      | _ \<Rightarrow> None)"

definition github_no_id :: string where
  "github_no_id = ''GitHub profile missing '' @ [CHR 0x27] @ ''id'' @ [CHR 0x27] @ ''.''"

definition verify_github :: "(json \<Rightarrow> string) \<Rightarrow> http_client \<Rightarrow> string \<Rightarrow> oauth_identity provider_result" where
  "verify_github rep get token =
     (case http_get_json get GITHUB_USER_URL [] (Some token) of
        Inl m \<Rightarrow> Verification_failed m
      | Inr (JObj profile) \<Rightarrow>
          if \<not> truthy (jget profile ''id'') then Verification_failed github_no_id
          else
            let primary = (case http_get_json get GITHUB_EMAILS_URL [] (Some token) of Inl _ \<Rightarrow> None | Inr emails \<Rightarrow> primary_email emails)
            in Provider_ok \<lparr>oi_provider = ''github'', oi_subject = py_str rep (jget profile ''id''),
                 oi_email = (case primary of Some m \<Rightarrow> m | None \<Rightarrow> jget profile ''email''),
                 oi_email_verified = (primary \<noteq> None), oi_username = jget profile ''login''\<rparr>
      | Inr _ \<Rightarrow> Verification_failed github_no_id)"

definition verify_oauth_token :: "(json \<Rightarrow> string) \<Rightarrow> http_client \<Rightarrow> string option \<Rightarrow> string \<Rightarrow> string \<Rightarrow> oauth_identity provider_result" where
  "verify_oauth_token rep get client_id provider token =
     (let provider = py_lower provider
      in if token = '''' then Verification_failed ''Empty OAuth token.''
         else if provider = ''google'' then verify_google rep get token client_id
         else if provider = ''github'' then verify_github rep get token
         else Verification_failed (''Unsupported OAuth provider: '' @ rep (JStr provider)))"

section \<open>Login through a provider\<close>

text \<open>The loop that looks for a free name; \<open>hex i\<close> is the i-th random suffix. It has no bound of its own.\<close>

partial_function (option) unique_from :: "(string \<Rightarrow> bool) \<Rightarrow> string \<Rightarrow> (nat \<Rightarrow> string) \<Rightarrow> nat \<Rightarrow> string \<Rightarrow> string option" where
  "unique_from taken base hex i candidate =
     (if taken candidate then unique_from taken base hex (Suc i) (base @ ''-'' @ hex i) else Some candidate)"

definition name_taken :: "app_db \<Rightarrow> string \<Rightarrow> bool" where
  "name_taken db name \<longleftrightarrow> find (\<lambda>u. u_username u = Some name) (db_users db) \<noteq> None"

definition username_base :: "string option \<Rightarrow> string" where
  "username_base base =
     (let b = py_strip (if given_text base then the base else ''user'') in if b = '''' then ''user'' else b)"

definition unique_username :: "(nat \<Rightarrow> string) \<Rightarrow> app_db \<Rightarrow> string option \<Rightarrow> string option" where
  "unique_username hex db base = unique_from (name_taken db) (username_base base) hex 0 (username_base base)"

record oauth_request =
  oq_provider :: string
  oq_oauth_token :: string

definition oauth_event :: "auth_env \<Rightarrow> string \<Rightarrow> string \<Rightarrow> int \<Rightarrow> app_db \<Rightarrow> app_db" where
  "oauth_event e action provider uid db = auth_event e action (Some uid) [(''provider'', JStr provider)] db"

text \<open>Steps 1 to 3: the account of the identity, and the database with it. \<open>None\<close>: the search for a name never ends.\<close>

definition identity_match :: "string \<Rightarrow> string \<Rightarrow> app_db \<Rightarrow> user_row option" where
  "identity_match provider sub db = find (\<lambda>u. u_oauth_provider u = Some provider \<and> u_oauth_sub u = Some sub) (db_users db)"

definition link_identity :: "string \<Rightarrow> string \<Rightarrow> user_row \<Rightarrow> user_row" where
  "link_identity provider sub u = u\<lparr>u_oauth_provider := Some provider, u_oauth_sub := Some sub\<rparr>"

text \<open>The name a new account asks for: a login that is no text has no \<^verbatim>\<open>strip\<close>.\<close>

definition wanted_name :: "json \<Rightarrow> string \<Rightarrow> string option" where
  "wanted_name username email =
     (if truthy username then (case username of JStr s \<Rightarrow> Some s | _ \<Rightarrow> None) else Some (before_first (CHR ''@'') email))"

definition provision_user :: "auth_env \<Rightarrow> (nat \<Rightarrow> string) \<Rightarrow> string \<Rightarrow> oauth_identity \<Rightarrow> string \<Rightarrow> app_db \<Rightarrow> user_row reply option" where
  "provision_user e hex provider identity email db =
     (if \<not> as_oauth_auto_register (au_set e) then Some (Inl (HTTPException 403 ''No account is linked to this identity.''), db)
      else case wanted_name (oi_username identity) email of
        None \<Rightarrow> Some (Inl server_error, db)
      | Some base \<Rightarrow>
          (case unique_username hex db (Some base) of
             None \<Rightarrow> None
           | Some name \<Rightarrow>
               (case create_user_dek (au_ciphers e) (au_keys e) (au_kms e) (au_nonce e) (au_random32 e) of
                  None \<Rightarrow> Some (Inl server_error, db)
                | Some dek \<Rightarrow>
                    let user = new_user e name email None (Some (provider, oi_subject identity)) dek
                    in Some (Inr user, oauth_event e ''oauth_register'' provider (u_id user) (db\<lparr>db_users := db_users db @ [user]\<rparr>)))))"

definition oauth_account :: "auth_env \<Rightarrow> (nat \<Rightarrow> string) \<Rightarrow> string \<Rightarrow> oauth_identity \<Rightarrow> string \<Rightarrow> app_db \<Rightarrow> user_row reply option" where
  "oauth_account e hex provider identity email db =
     (case identity_match provider (oi_subject identity) db of
        Some user \<Rightarrow> Some (Inr user, db)
      | None \<Rightarrow>
          (case find (\<lambda>u. u_email u = Some email) (db_users db) of
             Some user \<Rightarrow>
               if \<not> given_text (u_oauth_sub user)
               then Some (Inr (link_identity provider (oi_subject identity) user), set_user (u_id user) (link_identity provider (oi_subject identity)) db)
               else Some (Inr user, db)
           | None \<Rightarrow> provision_user e hex provider identity email db))"

definition oauth_providers_allowed :: "string \<Rightarrow> string list" where
  "oauth_providers_allowed setting = map (\<lambda>p. py_lower (py_strip p)) (filter (\<lambda>p. py_strip p \<noteq> '''') (split_on (CHR '','') setting))"

definition oauth2_login :: "auth_env \<Rightarrow> http_client \<Rightarrow> (nat \<Rightarrow> string) \<Rightarrow> oauth_request \<Rightarrow> app_db \<Rightarrow> token_pair reply option" where
  "oauth2_login e get hex body db =
     (if \<not> as_oauth_enabled (au_set e) then Some (Inl (HTTPException 403 ''OAuth login is disabled.''), db)
      else let provider = py_lower (oq_provider body)
      in if provider \<notin> set (oauth_providers_allowed (as_oauth_allowed_providers (au_set e)))
         then Some (Inl (HTTPException 400 (''Unsupported OAuth provider: '' @ en_rep (au_api e) (JStr (oq_provider body)))), db)
         else case verify_oauth_token (en_rep (au_api e)) get (as_oauth_google_client_id (au_set e)) provider (oq_oauth_token body) of
           Crashed \<Rightarrow> Some (Inl server_error, db)
         | Verification_failed m \<Rightarrow>
             Some (Inl (HTTPException 401 ''OAuth token verification failed.''),
                   auth_event e ''oauth_login_failed'' None [(''provider'', JStr provider), (''reason'', JStr m)] db)
         | Provider_ok identity \<Rightarrow>
             if \<not> truthy (oi_email identity) \<or> \<not> oi_email_verified identity
             then Some (Inl (HTTPException 403 ''A verified email from the provider is required to sign in.''), db)
             else (case oi_email identity of
               JStr email \<Rightarrow>
                 (case oauth_account e hex provider identity email db of
                    None \<Rightarrow> None
                  | Some (Inl err, db) \<Rightarrow> Some (Inl err, db)
                  | Some (Inr user, db) \<Rightarrow>
                      if \<not> u_is_active user then Some (Inl (HTTPException 403 ''Account is disabled.''), db)
                      else (case ensure_user_dek (au_ciphers e) (au_keys e) (au_kms e) (au_nonce e) (au_random32 e) user db of
                              None \<Rightarrow> Some (Inl server_error, db)
                            | Some db \<Rightarrow> Some (signed_in e (u_id user) (oauth_event e ''oauth_login'' provider (u_id user) db))))
             | _ \<Rightarrow> Some (Inl server_error, db)))"

section \<open>Password reset\<close>

definition forgot_message :: "(string, json) dict" where
  "forgot_message = [(''message'', JStr ''If an account with that email exists, a reset link has been sent.'')]"

definition forgot_password :: "auth_env \<Rightarrow> string \<Rightarrow> app_db \<Rightarrow> (string, json) dict reply" where
  "forgot_password e email db =
     (case find (\<lambda>u. u_email u = Some email) (db_users db) of
        None \<Rightarrow> (Inr forgot_message, db)
      | Some user \<Rightarrow>
          let resets = update_where (\<lambda>r. pr_user_id r = u_id user \<and> \<not> pr_used r) (\<lambda>r. r\<lparr>pr_used := True\<rparr>) (db_reset_tokens db);
              row = \<lparr>pr_user_id = u_id user, pr_token_hash = en_sha (au_api e) (au_fresh e), pr_expires_at = au_now e + 3600, pr_used = False\<rparr>;
              db = db\<lparr>db_reset_tokens := resets @ [row]\<rparr>
          in (Inr forgot_message, auth_event e ''password_reset_requested'' (Some (u_id user)) [] db))"

definition bad_reset :: http_error where "bad_reset = HTTPException 400 ''Invalid or expired reset token''"

definition usable_reset :: "time \<Rightarrow> string \<Rightarrow> reset_row \<Rightarrow> bool" where
  "usable_reset now token_hash r \<longleftrightarrow> pr_token_hash r = token_hash \<and> \<not> pr_used r \<and> pr_expires_at r > now"

definition reset_password :: "auth_env \<Rightarrow> string \<Rightarrow> string \<Rightarrow> app_db \<Rightarrow> (string, json) dict reply" where
  "reset_password e token new_password db =
     (let token_hash = en_sha (au_api e) token
      in case find (usable_reset (au_now e) token_hash) (db_reset_tokens db) of
           None \<Rightarrow> (Inl bad_reset, db)
         | Some reset_record \<Rightarrow>
             (case find_user db (pr_user_id reset_record) of
                None \<Rightarrow> (Inl bad_reset, db)
              | Some user \<Rightarrow>
                  let db = set_user (u_id user) (\<lambda>u. u\<lparr>u_hashed_password := Some (au_hash e new_password), u_failed_login_count := 0, u_locked_until := None\<rparr>) db;
                      db = db\<lparr>db_reset_tokens := update_where (\<lambda>r. r = reset_record) (\<lambda>r. r\<lparr>pr_used := True\<rparr>) (db_reset_tokens db)\<rparr>
                  in (Inr [(''message'', JStr ''Password has been reset successfully.'')], auth_event e ''password_reset'' (Some (u_id user)) [] db)))"

section \<open>Sessions\<close>

definition refresh_tokens :: "auth_env \<Rightarrow> string \<Rightarrow> app_db \<Rightarrow> token_pair reply" where
  "refresh_tokens e token db =
     (case find (\<lambda>r. rt_token r = token \<and> \<not> rt_revoked r) (db_refresh_tokens db) of
        None \<Rightarrow> (Inl (HTTPException 401 ''Invalid or revoked refresh token.''), db)
      | Some token_record \<Rightarrow>
          let db = db\<lparr>db_refresh_tokens := update_where (\<lambda>r. rt_id r = rt_id token_record) (\<lambda>r. r\<lparr>rt_revoked := True\<rparr>) (db_refresh_tokens db)\<rparr>
          in if rt_expires_at token_record < au_now e then (Inl (HTTPException 401 ''Refresh token has expired.''), db)
             else signed_in e (rt_user_id token_record) db)"

definition active_session :: "time \<Rightarrow> int \<Rightarrow> refresh_token_row \<Rightarrow> bool" where
  "active_session now uid r \<longleftrightarrow> rt_user_id r = uid \<and> \<not> rt_revoked r \<and> rt_expires_at r > now"

definition list_sessions :: "api_env \<Rightarrow> int \<Rightarrow> app_db \<Rightarrow> json" where
  "list_sessions env uid db =
     (let tokens = sort_key (\<lambda>r. - rt_created_at r) (filter (active_session (en_now env) uid) (db_refresh_tokens db))
      in JObj [(''sessions'', JList (map (\<lambda>r. JObj [(''id'', JInt (rt_id r)), (''created_at'', JStr (en_isoformat env (rt_created_at r))),
                 (''expires_at'', JStr (en_isoformat env (rt_expires_at r)))]) tokens)),
               (''count'', JInt (int (length tokens)))])"

definition revoke_all_sessions :: "auth_env \<Rightarrow> int \<Rightarrow> app_db \<Rightarrow> (string, json) dict reply" where
  "revoke_all_sessions e uid db =
     (let live = (\<lambda>r. rt_user_id r = uid \<and> \<not> rt_revoked r);
          count = length (filter live (db_refresh_tokens db));
          db = db\<lparr>db_refresh_tokens := update_where live (\<lambda>r. r\<lparr>rt_revoked := True\<rparr>) (db_refresh_tokens db)\<rparr>
      in (Inr [(''status'', JStr ''revoked''), (''count'', JInt (int count))],
          auth_event e ''revoke_all_sessions'' (Some uid) [(''revoked_count'', JInt (int count))] db))"

section \<open>Administrators\<close>

text \<open>\<open>created_at\<close> gives the ISO text of a column that no operation reads.\<close>

definition serialize_user :: "(user_row \<Rightarrow> json) \<Rightarrow> user_row \<Rightarrow> json" where
  "serialize_user created_at u = JObj [(''id'', JInt (u_id u)), (''username'', jopt (u_username u)), (''email'', jopt (u_email u)),
     (''is_active'', JBool (u_is_active u)), (''is_admin'', JBool (u_is_admin u)), (''created_at'', created_at u)]"

definition list_users :: "(user_row \<Rightarrow> json) \<Rightarrow> app_db \<Rightarrow> json" where
  "list_users created_at db =
     (let users = sort_key u_id (db_users db)
      in JObj [(''users'', JList (map (serialize_user created_at) users)), (''count'', JInt (int (length users)))])"

definition promote_user :: "api_env \<Rightarrow> user_row \<Rightarrow> int \<Rightarrow> app_db \<Rightarrow> (string, json) dict reply" where
  "promote_user env admin user_id db =
     (case find_user db user_id of
        None \<Rightarrow> (Inl (HTTPException 404 ''User not found.''), db)
      | Some target \<Rightarrow>
          (Inr [(''status'', JStr ''promoted''), (''user_id'', JInt user_id)],
           audited env ''admin'' ''promote_user'' (Some (u_id admin)) None [(''target_user_id'', JInt user_id)] None
             (set_user user_id (\<lambda>u. u\<lparr>u_is_admin := True\<rparr>) db)))"

definition set_user_active :: "api_env \<Rightarrow> user_row \<Rightarrow> int \<Rightarrow> bool \<Rightarrow> app_db \<Rightarrow> (string, json) dict reply" where
  "set_user_active env admin user_id active db =
     (case find_user db user_id of
        None \<Rightarrow> (Inl (HTTPException 404 ''User not found.''), db)
      | Some target \<Rightarrow>
          if u_id target = u_id admin \<and> \<not> active then (Inl (HTTPException 400 ''Admins cannot deactivate their own account.''), db)
          else (Inr [(''status'', JStr ''updated''), (''user_id'', JInt user_id), (''is_active'', JBool active)],
                audited env ''admin'' ''set_user_active'' (Some (u_id admin)) None [(''target_user_id'', JInt user_id), (''active'', JBool active)] None
                  (set_user user_id (\<lambda>u. u\<lparr>u_is_active := active\<rparr>) db)))"

section \<open>Lookups after an update\<close>

lemma audited_rows [simp]:
  "db_users (audited env ty ac u r md ip db) = db_users db"
  "db_refresh_tokens (audited env ty ac u r md ip db) = db_refresh_tokens db"
  "db_reset_tokens (audited env ty ac u r md ip db) = db_reset_tokens db"
  by (simp_all add: audited_def)

lemma signed_in_users [simp]: "db_users (snd (signed_in e uid db)) = db_users db"
  by (simp add: signed_in_def issue_token_pair_def create_refresh_token_def)

lemma signed_in_ok: "\<exists>p db'. signed_in e uid db = (Inr p, db') \<and> tp_access_token p = create_access_token e [(''sub'', JStr (show_int uid))] None \<and> db_users db' = db_users db"
  by (simp add: signed_in_def issue_token_pair_def create_refresh_token_def)

lemma ensure_dek_users:
  assumes "ensure_user_dek c ks k n r u db = Some db'"
  obtains g where "\<And>x. u_id (g x) = u_id x \<and> u_username (g x) = u_username x \<and> u_email (g x) = u_email x"
    "db_users db' = update_where (\<lambda>x. u_id x = u_id u) g (db_users db)"
proof (cases "has_dek u")
  case True
  have "update_where (\<lambda>x. u_id x = u_id u) (\<lambda>x. x) xs = xs" for xs :: "user_row list" by (simp add: update_where_def)
  with True assms show ?thesis by (intro that [of "\<lambda>x. x"]) (simp_all add: ensure_user_dek_def)
next
  case False
  with assms obtain w where "db_users db' = update_where (\<lambda>x. u_id x = u_id u) (\<lambda>x. x\<lparr>u_encrypted_dek := Some w\<rparr>) (db_users db)"
    by (auto simp: ensure_user_dek_def split: option.splits)
  then show ?thesis by (intro that [of "\<lambda>x. x\<lparr>u_encrypted_dek := Some w\<rparr>"]) simp_all
qed

section \<open>Lockout\<close>

text \<open>The row of a name, and the times of the wrong guesses of a run of logins until the first right one.\<close>

definition named :: "string \<Rightarrow> app_db \<Rightarrow> user_row option" where
  "named n db = find (\<lambda>u. u_username u = Some n) (db_users db)"

type_synonym attempt = "auth_env \<times> (string, string) dict \<times> string \<times> string"

fun wrong_guesses :: "string \<Rightarrow> attempt list \<Rightarrow> app_db \<Rightarrow> time list" where
  "wrong_guesses n [] db = []"
| "wrong_guesses n ((e, headers, name, password) # xs) db =
     (case login_user e headers name password db of
        (Inr _, db') \<Rightarrow> if name = n then [] else wrong_guesses n xs db'
      | (Inl err, db') \<Rightarrow>
          if name = n \<and> err = bad_login then au_now e # wrong_guesses n xs db'
          else if name = n \<and> err = server_error then [] else wrong_guesses n xs db')"

lemma errors_differ [simp]: "bad_login \<noteq> server_error" "bad_login \<noteq> account_locked" "account_locked \<noteq> bad_login" "account_locked \<noteq> server_error" "server_error \<noteq> bad_login" "csrf_refusal e h \<noteq> Some bad_login"
  by (auto simp: bad_login_def server_error_def account_locked_def csrf_refusal_def Let_def split: option.splits)

text \<open>The outcomes of a login.\<close>

lemma login_cases:
  assumes "login_user e h name pw db = (r, db')"
  obtains (refused) err where "r = Inl err" "err \<noteq> bad_login" "db' = db"
  | (unknown) "named name db = None" "r = Inl bad_login" "db_users db' = db_users db"
  | (wrong) u where "named name db = Some u" "\<not> is_locked (au_now e) u" "\<not> verify_password e pw (u_hashed_password u)" "r = Inl bad_login"
      "db_users db' = update_where (\<lambda>x. u_id x = u_id u) (failed_login (au_now e)) (db_users db)"
  | (right) u g where "named name db = Some u" "\<not> is_locked (au_now e) u" "verify_password e pw (u_hashed_password u)" "r \<noteq> Inl bad_login"
      "\<forall>err. r = Inl err \<longrightarrow> err = server_error" "\<And>x. u_id (g x) = u_id x \<and> u_username (g x) = u_username x \<and> u_email (g x) = u_email x"
      "db_users db' = update_where (\<lambda>x. u_id x = u_id u) g (db_users db)"
proof (cases "csrf_refusal e h")
  case (Some err)
  with assms have "r = Inl err" "db' = db" by (simp_all add: login_user_def)
  then show ?thesis using Some by (intro refused [of err]) auto
next
  case csrf: None
  show ?thesis
  proof (cases "named name db")
    case None
    with assms csrf show ?thesis by (intro unknown) (auto simp: login_user_def named_def auth_event_def Let_def)
  next
    case (Some u)
    consider "is_locked (au_now e) u" | "\<not> is_locked (au_now e) u" "\<not> verify_password e pw (u_hashed_password u)"
      | "\<not> is_locked (au_now e) u" "verify_password e pw (u_hashed_password u)" by blast
    then show ?thesis
    proof cases
      case 1
      with assms csrf Some show ?thesis by (intro refused [of account_locked]) (auto simp: login_user_def named_def Let_def)
    next
      case 2
      with assms csrf Some show ?thesis
        by (intro wrong [of u]) (auto simp: login_user_def named_def auth_event_def set_user_def Let_def)
    next
      case 3
      define db0 where "db0 = clear_lockout u db"
      have db0: "\<exists>g. (\<forall>x. u_id (g x) = u_id x \<and> u_username (g x) = u_username x \<and> u_email (g x) = u_email x) \<and>
          db_users db0 = update_where (\<lambda>x. u_id x = u_id u) g (db_users db)"
      proof (cases "u_failed_login_count u = 0")
        case True
        then show ?thesis by (intro exI [of _ "\<lambda>x. x"]) (simp add: db0_def clear_lockout_def update_where_def)
      next
        case False
        then show ?thesis
          by (intro exI [of _ "\<lambda>u. u\<lparr>u_failed_login_count := 0, u_locked_until := None\<rparr>"]) (simp add: db0_def clear_lockout_def set_user_def)
      qed
      have run: "(r, db') = (case ensure_user_dek (au_ciphers e) (au_keys e) (au_kms e) (au_nonce e) (au_random32 e) u db0 of
          None \<Rightarrow> (Inl server_error, db0) | Some db1 \<Rightarrow> signed_in e (u_id u) (auth_event e ''login'' (Some (u_id u)) [] db1))"
        unfolding db0_def assms [symmetric] using csrf Some 3 by (simp add: login_user_def named_def Let_def)
      show ?thesis
      proof (cases "ensure_user_dek (au_ciphers e) (au_keys e) (au_kms e) (au_nonce e) (au_random32 e) u db0")
        case None
        with run have "r = Inl server_error" "db' = db0" by simp_all
        with Some 3 db0 show ?thesis by (auto intro: right)
      next
        case dek: (Some db1)
        obtain p db2 where p: "signed_in e (u_id u) (auth_event e ''login'' (Some (u_id u)) [] db1) = (Inr p, db2)" "db_users db2 = db_users db1"
          using signed_in_ok [of e "u_id u" "auth_event e ''login'' (Some (u_id u)) [] db1"] by (auto simp: auth_event_def)
        obtain g1 where g1: "\<And>x. u_id (g1 x) = u_id x \<and> u_username (g1 x) = u_username x \<and> u_email (g1 x) = u_email x"
          "db_users db1 = update_where (\<lambda>x. u_id x = u_id u) g1 (db_users db0)"
          by (rule ensure_dek_users [OF dek]) blast
        from db0 obtain g0 where g0: "\<And>x. u_id (g0 x) = u_id x \<and> u_username (g0 x) = u_username x \<and> u_email (g0 x) = u_email x"
          "db_users db0 = update_where (\<lambda>x. u_id x = u_id u) g0 (db_users db)" by blast
        have "update_where (\<lambda>x. u_id x = u_id u) g1 (update_where (\<lambda>x. u_id x = u_id u) g0 xs) = update_where (\<lambda>x. u_id x = u_id u) (g1 \<circ> g0) xs" for xs
          using g0(1) by (simp add: update_where_def)
        then show ?thesis using Some 3 run dek p g0 g1 by (intro right [of u "g1 \<circ> g0"]) simp_all
      qed
    qed
  qed
qed

lemma named_update:
  assumes "named n db = Some v" "distinct (map u_id (db_users db))" "named m db = Some u"
    and g: "\<And>x. u_username (g x) = u_username x"
    and db': "db_users db' = update_where (\<lambda>x. u_id x = u_id u) g (db_users db)"
  shows "named n db' = Some (if m = n then g v else v)"
proof -
  have "named n db' = Some (if u_id v = u_id u then g v else v)"
    using find_update_where [of "\<lambda>x. u_username x = Some n" g, OF ] g assms(1) by (simp add: named_def db')
  moreover have "u_id v = u_id u \<longleftrightarrow> m = n"
  proof -
    have "v \<in> set (db_users db)" "u \<in> set (db_users db)" "u_username v = Some n" "u_username u = Some m"
      using assms(1,3) by (auto simp: named_def find_Some_iff)
    with assms(2) show ?thesis by (metis distinct_map inj_on_eq_iff option.inject assms(1,3))
  qed
  ultimately show ?thesis by simp
qed

lemma update_ids: "(\<And>x. u_id (g x) = u_id x) \<Longrightarrow> map u_id (update_where P g us) = map u_id us"
  by (simp add: update_where_def)

lemma login_ids: "login_user e h name pw db = (r, db') \<Longrightarrow> map u_id (db_users db') = map u_id (db_users db)"
  by (erule login_cases) (simp_all add: update_ids failed_login_def Let_def)

lemma failed_login_keeps [simp]:
  "u_id (failed_login now u) = u_id u" "u_username (failed_login now u) = u_username u" "u_email (failed_login now u) = u_email u"
  "u_failed_login_count (failed_login now u) = u_failed_login_count u + 1"
  by (simp_all add: failed_login_def Let_def)

text \<open>A locked row is not guessed at before its time, and the guesses after the fourth keep their distance.\<close>

lemma guesses_spaced:
  assumes "named n db = Some v" "distinct (map u_id (db_users db))" "gs = wrong_guesses n xs db"
  shows "(\<forall>t. u_locked_until v = Some t \<longrightarrow> gs \<noteq> [] \<longrightarrow> hd gs \<ge> t) \<and>
    (\<forall>i. Suc i < length gs \<longrightarrow> u_failed_login_count v + int i \<ge> 4 \<longrightarrow> gs ! Suc i \<ge> gs ! i + LOCK_SECONDS)"
  using assms
proof (induction xs arbitrary: db v gs)
  case Nil
  then show ?case by simp
next
  case (Cons x xs)
  obtain e h name pw where x: "x = (e, h, name, pw)" by (cases x) auto
  obtain r db' where run: "login_user e h name pw db = (r, db')" by fastforce
  have ids: "distinct (map u_id (db_users db'))" using login_ids [OF run] Cons.prems(2) by simp
  from run show ?case
  proof (cases rule: login_cases)
    case (refused err)
    have "gs = wrong_guesses n xs db \<or> gs = []" using refused Cons.prems(3) run by (simp add: x)
    then show ?thesis using Cons.IH [OF Cons.prems(1,2) refl] by auto
  next
    case unknown
    then have "name \<noteq> n" "named n db' = Some v" using Cons.prems(1) by (auto simp: named_def)
    with unknown run Cons.prems(3) show ?thesis using Cons.IH [OF _ ids refl, of v] by (simp add: x)
  next
    case (wrong u)
    note nm = named_update [OF Cons.prems(1,2) wrong(1) _ wrong(5), simplified]
    show ?thesis
    proof (cases "name = n")
      case False
      with wrong run Cons.prems(3) nm show ?thesis using Cons.IH [OF _ ids refl, of v] by (simp add: x)
    next
      case True
      with wrong(1) Cons.prems(1) have uv: "u = v" by simp
      let ?now = "au_now e" and ?gs = "wrong_guesses n xs db'"
      have gs: "gs = ?now # ?gs" using Cons.prems(3) run wrong(4) True by (simp add: x)
      have v': "named n db' = Some (failed_login ?now v)" using nm True by simp
      note IH = Cons.IH [OF v' ids refl]
      have first: "?gs ! 0 \<ge> ?now + LOCK_SECONDS" if "?gs \<noteq> []" "u_failed_login_count v \<ge> 4"
      proof -
        from that(2) have "u_locked_until (failed_login ?now v) = Some (?now + LOCK_SECONDS)" by (simp add: failed_login_def MAX_LOGIN_FAILURES_def)
        with IH that(1) show ?thesis by (simp add: hd_conv_nth)
      qed
      have "u_locked_until v = Some t \<Longrightarrow> ?now \<ge> t" for t using wrong(2) by (simp add: uv is_locked_def)
      moreover have "gs ! Suc i \<ge> gs ! i + LOCK_SECONDS" if i: "Suc i < length gs" "u_failed_login_count v + int i \<ge> 4" for i
      proof (cases i)
        case 0
        with i first show ?thesis by (cases ?gs) (simp_all add: gs)
      next
        case (Suc j)
        with i have "Suc j < length ?gs" "u_failed_login_count (failed_login ?now v) + int j \<ge> 4" by (simp_all add: gs)
        with IH show ?thesis by (simp add: gs Suc)
      qed
      ultimately show ?thesis by (simp add: gs)
    qed
  next
    case (right u g)
    show ?thesis
    proof (cases "name = n")
      case True
      with right run Cons.prems(3) have "gs = []" by (cases r) (simp_all add: x)
      then show ?thesis by simp
    next
      case False
      have "named n db' = Some v" using named_update [OF Cons.prems(1,2) right(1) _ right(7)] right(6) False by simp
      moreover have "gs = wrong_guesses n xs db'" using False run Cons.prems(3) by (cases r) (simp_all add: x)
      ultimately show ?thesis using Cons.IH [OF _ ids, of v gs] by simp
    qed
  qed
qed

text \<open>C22. After the fifth wrong guess at an account's password every further one comes at least fifteen minutes after the one before, whoever
  guesses, whatever happens to other accounts in between, until the right password is given.\<close>

theorem lockout_spaces_guesses:
  assumes "named n db = Some u" "u_failed_login_count u \<ge> 0" "distinct (map u_id (db_users db))"
    and "4 \<le> i" "Suc i < length (wrong_guesses n xs db)"
  shows "wrong_guesses n xs db ! Suc i \<ge> wrong_guesses n xs db ! i + 15 * 60"
proof -
  have "u_failed_login_count u + int i \<ge> 4" using assms(2,4) by simp
  with guesses_spaced [OF assms(1,3) refl] assms(5) show ?thesis by (simp add: LOCK_SECONDS_def)
qed

text \<open>A concrete environment and database.\<close>

definition sample_auth :: "time \<Rightarrow> string \<Rightarrow> int \<Rightarrow> auth_env" where
  "sample_auth now fresh row_id =
     \<lparr>au_api = sample_api_env\<lparr>en_now := now\<rparr>,
      au_set = \<lparr>as_registration_enabled = True, as_production = False, as_cors_origins = '''', as_access_minutes = 30, as_refresh_minutes = 60,
        as_oauth_enabled = True, as_oauth_allowed_providers = ''github'', as_oauth_auto_register = True, as_oauth_google_client_id = None\<rparr>,
      au_ciphers = sample_ciphers,
      au_keys = \<lparr>encryption_key = b64_encode (replicate 32 (CHR ''k'')), encryption_key_previous = None, encryption_key_version = 1\<rparr>,
      au_kms = LocalKMS, au_fk = True, au_check = (\<lambda>p h. h = CHR ''h'' # p), au_hash = (\<lambda>p. CHR ''h'' # p), au_jwt_encode = (\<lambda>_. ''jwt''),
      au_fresh = fresh, au_row_id = row_id, au_user_id = 9, au_nonce = replicate 12 (CHR ''n''), au_random32 = replicate 32 (CHR ''r''),
      au_ip = None\<rparr>"

definition ann :: user_row where
  "ann = \<lparr>u_id = 1, u_username = Some ''ann'', u_email = Some ''ann@x.org'', u_hashed_password = Some ''hOld'', u_oauth_provider = None,
     u_oauth_sub = None, u_is_active = True, u_is_admin = False, u_encrypted_dek = Some ''dek'', u_failed_login_count = 0, u_locked_until = None\<rparr>"

definition ann_db :: app_db where "ann_db = empty_db\<lparr>db_users := [ann]\<rparr>"

lemmas sample_auth_simps = sample_auth_def ann_def ann_db_def empty_db_def named_def find_user_def verify_password_def is_locked_def
  failed_login_def MAX_LOGIN_FAILURES_def LOCK_SECONDS_def set_user_def auth_event_def csrf_refusal_def update_where_def

definition sample_guesses :: "attempt list" where
  "sample_guesses = map (\<lambda>t. (sample_auth t ''f'' 1, [], ''ann'', ''no'')) [0, 1, 2, 3, 4, 10, 904]"

lemma sample_guess_times: "wrong_guesses ''ann'' sample_guesses ann_db = [0, 1, 2, 3, 4, 904]"
  by (simp add: sample_guesses_def login_user_def sample_auth_simps audited_def)

theorem lockout_spaces_guesses_witness: "wrong_guesses ''ann'' sample_guesses ann_db ! 5 \<ge> wrong_guesses ''ann'' sample_guesses ann_db ! 4 + 15 * 60"
proof -
  have "named ''ann'' ann_db = Some ann" "u_failed_login_count ann \<ge> 0" "distinct (map u_id (db_users ann_db))"
    by (simp_all add: sample_auth_simps)
  from lockout_spaces_guesses [OF this, of 4 sample_guesses] show ?thesis by (simp add: sample_guess_times)
qed

section \<open>Refresh tokens\<close>

lemma signed_in_row:
  "signed_in e uid db = (r, db') \<Longrightarrow> db_refresh_tokens db' = db_refresh_tokens db @
     [\<lparr>rt_id = au_row_id e, rt_token = au_fresh e, rt_user_id = uid, rt_expires_at = au_now e + 60 * of_int (as_refresh_minutes (au_set e)),
       rt_revoked = False, rt_created_at = au_now e\<rparr>]"
  by (auto simp: signed_in_def issue_token_pair_def create_refresh_token_def)

lemma refresh_cases:
  assumes "refresh_tokens e tok db = (r, db')"
  obtains (invalid) err where "r = Inl err" "db' = db"
  | (expired) t err where "r = Inl err" "find (\<lambda>r. rt_token r = tok \<and> \<not> rt_revoked r) (db_refresh_tokens db) = Some t"
      "db_refresh_tokens db' = update_where (\<lambda>r. rt_id r = rt_id t) (\<lambda>r. r\<lparr>rt_revoked := True\<rparr>) (db_refresh_tokens db)"
  | (issued) t p where "r = Inr p" "find (\<lambda>r. rt_token r = tok \<and> \<not> rt_revoked r) (db_refresh_tokens db) = Some t" "au_now e \<le> rt_expires_at t"
      "db_refresh_tokens db' = update_where (\<lambda>r. rt_id r = rt_id t) (\<lambda>r. r\<lparr>rt_revoked := True\<rparr>) (db_refresh_tokens db) @
         [\<lparr>rt_id = au_row_id e, rt_token = au_fresh e, rt_user_id = rt_user_id t, rt_expires_at = au_now e + 60 * of_int (as_refresh_minutes (au_set e)),
           rt_revoked = False, rt_created_at = au_now e\<rparr>]"
proof (cases "find (\<lambda>r. rt_token r = tok \<and> \<not> rt_revoked r) (db_refresh_tokens db)")
  case None
  with assms show ?thesis by (intro invalid) (auto simp: refresh_tokens_def)
next
  case (Some t)
  let ?db = "db\<lparr>db_refresh_tokens := update_where (\<lambda>r. rt_id r = rt_id t) (\<lambda>r. r\<lparr>rt_revoked := True\<rparr>) (db_refresh_tokens db)\<rparr>"
  show ?thesis
  proof (cases "rt_expires_at t < au_now e")
    case True
    with assms Some show ?thesis by (intro expired [of _ t]) (auto simp: refresh_tokens_def Let_def)
  next
    case False
    with assms Some have s: "signed_in e (rt_user_id t) ?db = (r, db')" by (simp add: refresh_tokens_def Let_def)
    then obtain p where "r = Inr p" using signed_in_ok [of e "rt_user_id t" ?db] by auto
    with Some False signed_in_row [OF s] show ?thesis by (intro issued [of p t]) simp_all
  qed
qed

text \<open>The refresh tokens a run of refresh requests accepts, with the user each stands for.\<close>

fun refreshes :: "(auth_env \<times> string) list \<Rightarrow> app_db \<Rightarrow> (string \<times> int) list" where
  "refreshes [] db = []"
| "refreshes ((e, tok) # xs) db =
     (case refresh_tokens e tok db of
        (Inl _, db') \<Rightarrow> refreshes xs db'
      | (Inr _, db') \<Rightarrow> (tok, rt_user_id (the (find (\<lambda>r. rt_token r = tok \<and> \<not> rt_revoked r) (db_refresh_tokens db)))) # refreshes xs db')"

definition live_tokens :: "app_db \<Rightarrow> (string \<times> int) set" where
  "live_tokens db = {(rt_token r, rt_user_id r) | r. r \<in> set (db_refresh_tokens db) \<and> \<not> rt_revoked r}"

text \<open>The values drawn for new tokens: different from each other and from every token there is.\<close>

definition fresh_draws :: "(auth_env \<times> string) list \<Rightarrow> app_db \<Rightarrow> bool" where
  "fresh_draws xs db \<longleftrightarrow> distinct (map rt_token (db_refresh_tokens db) @ map (au_fresh \<circ> fst) xs) \<and>
     distinct (map rt_id (db_refresh_tokens db) @ map (au_row_id \<circ> fst) xs)"

lemma revoke_live:
  assumes "distinct (map rt_id rs)" "distinct (map rt_token rs)" "t \<in> set rs"
    "r \<in> set (update_where (\<lambda>r. rt_id r = rt_id t) (\<lambda>r. r\<lparr>rt_revoked := True\<rparr>) rs)" "\<not> rt_revoked r"
  shows "r \<in> set rs" "rt_token r \<noteq> rt_token t"
proof -
  from assms(4) obtain r0 where r0: "r0 \<in> set rs" "r = (if rt_id r0 = rt_id t then r0\<lparr>rt_revoked := True\<rparr> else r0)"
    unfolding in_update_where by blast
  with assms(5) have n: "rt_id r0 \<noteq> rt_id t" "r = r0" by (cases "rt_id r0 = rt_id t"; simp)+
  with r0 show "r \<in> set rs" by simp
  show "rt_token r \<noteq> rt_token t" using assms(2,3) n r0(1) by (metis distinct_map inj_on_eq_iff)
qed

lemma revoked_names:
  "map rt_token (update_where P (\<lambda>r. r\<lparr>rt_revoked := True\<rparr>) rs) = map rt_token rs" "map rt_id (update_where P (\<lambda>r. r\<lparr>rt_revoked := True\<rparr>) rs) = map rt_id rs"
  by (simp_all add: update_where_def)

lemma refresh_live:
  assumes "refresh_tokens e tok db = (r, db')" "fresh_draws ((e, tok) # xs) db"
  shows "fresh_draws xs db'"
    and "(t', uid) \<in> live_tokens db' \<Longrightarrow> (t', uid) \<in> live_tokens db \<or> t' = au_fresh e \<and> (tok, uid) \<in> live_tokens db"
    and "\<forall>p. r = Inr p \<longrightarrow> (\<forall>uid. (tok, uid) \<notin> live_tokens db') \<and>
      (tok, rt_user_id (the (find (\<lambda>r. rt_token r = tok \<and> \<not> rt_revoked r) (db_refresh_tokens db)))) \<in> live_tokens db"
proof -
  let ?rs = "db_refresh_tokens db"
  have d: "distinct (map rt_id ?rs)" "distinct (map rt_token ?rs)" "au_fresh e \<notin> set (map rt_token ?rs)"
    using assms(2) by (auto simp: fresh_draws_def)
  have "fresh_draws xs db' \<and> ((t', uid) \<in> live_tokens db' \<longrightarrow> (t', uid) \<in> live_tokens db \<or> t' = au_fresh e \<and> (tok, uid) \<in> live_tokens db) \<and>
    (\<forall>p. r = Inr p \<longrightarrow> (\<forall>uid. (tok, uid) \<notin> live_tokens db') \<and>
      (tok, rt_user_id (the (find (\<lambda>r. rt_token r = tok \<and> \<not> rt_revoked r) ?rs))) \<in> live_tokens db)"
    using assms(1)
  proof (cases rule: refresh_cases)
    case (invalid err)
    with assms(2) show ?thesis by (simp add: fresh_draws_def)
  next
    case (expired t err)
    let ?us = "update_where (\<lambda>r. rt_id r = rt_id t) (\<lambda>r. r\<lparr>rt_revoked := True\<rparr>) ?rs"
    have t: "t \<in> set ?rs" using expired(2) by (auto simp: find_Some_iff)
    have "fresh_draws xs db'" using assms(2) by (simp add: fresh_draws_def expired(3) revoked_names)
    moreover have "(t', uid) \<in> live_tokens db' \<Longrightarrow> (t', uid) \<in> live_tokens db"
      using revoke_live(1) [OF d(1,2) t] by (auto simp: live_tokens_def expired(3))
    ultimately show ?thesis using expired(1) by simp
  next
    case (issued t p)
    have t: "t \<in> set ?rs" "rt_token t = tok" "\<not> rt_revoked t" using issued(2) by (auto simp: find_Some_iff)
    have "fresh_draws xs db'" using assms(2) by (simp add: fresh_draws_def issued(4) revoked_names)
    moreover have "(t', uid) \<in> live_tokens db' \<Longrightarrow> (t', uid) \<in> live_tokens db \<or> t' = au_fresh e \<and> (tok, uid) \<in> live_tokens db"
      using revoke_live(1) [OF d(1,2) t(1)] t by (auto simp: live_tokens_def issued(4))
    moreover have "(tok, uid) \<notin> live_tokens db'" for uid
    proof
      assume "(tok, uid) \<in> live_tokens db'"
      then obtain r' where r': "r' \<in> set (db_refresh_tokens db')" "\<not> rt_revoked r'" "rt_token r' = tok" by (auto simp: live_tokens_def)
      have "au_fresh e \<noteq> tok" using d(3) t by auto
      with r' have "r' \<in> set (update_where (\<lambda>r. rt_id r = rt_id t) (\<lambda>r. r\<lparr>rt_revoked := True\<rparr>) ?rs)" by (auto simp: issued(4))
      from revoke_live(2) [OF d(1,2) t(1) this r'(2)] show False using r'(3) t(2) by simp
    qed
    moreover have "(tok, rt_user_id t) \<in> live_tokens db" using t by (auto simp: live_tokens_def)
    ultimately show ?thesis by (simp add: issued(2))
  qed
  then show "fresh_draws xs db'" "(t', uid) \<in> live_tokens db' \<Longrightarrow> (t', uid) \<in> live_tokens db \<or> t' = au_fresh e \<and> (tok, uid) \<in> live_tokens db"
    "\<forall>p. r = Inr p \<longrightarrow> (\<forall>uid. (tok, uid) \<notin> live_tokens db') \<and>
      (tok, rt_user_id (the (find (\<lambda>r. rt_token r = tok \<and> \<not> rt_revoked r) ?rs))) \<in> live_tokens db" by blast+
qed

text \<open>A token that is neither live nor drawn is never accepted; a user without a live token never comes back.\<close>

lemma refreshes_from_live:
  assumes "fresh_draws xs db" "(t, uid) \<in> set (refreshes xs db)"
  shows "(t, uid) \<in> live_tokens db \<or> t \<in> set (map (au_fresh \<circ> fst) xs) \<and> (\<exists>t0. (t0, uid) \<in> live_tokens db)"
  using assms
proof (induction xs arbitrary: db)
  case (Cons x xs)
  obtain e tok where x: "x = (e, tok)" by (cases x)
  obtain r db' where run: "refresh_tokens e tok db = (r, db')" by fastforce
  note live = refresh_live [OF run Cons.prems(1) [unfolded x]]
  have rest: "(t, uid) \<in> live_tokens db \<or> t \<in> set (map (au_fresh \<circ> fst) (x # xs)) \<and> (\<exists>t0. (t0, uid) \<in> live_tokens db)"
    if "(t, uid) \<in> set (refreshes xs db')"
    using Cons.IH [OF live(1) that] live(2) by (fastforce simp: x)
  show ?case
  proof (cases r)
    case (Inl err)
    then show ?thesis using Cons.prems(2) run rest by (simp add: x)
  next
    case (Inr p)
    then show ?thesis using Cons.prems(2) run rest live(3) by (auto simp: x)
  qed
qed simp

lemma refreshes_distinct: "fresh_draws xs db \<Longrightarrow> distinct (map fst (refreshes xs db))"
proof (induction xs arbitrary: db)
  case (Cons x xs)
  obtain e tok where x: "x = (e, tok)" by (cases x)
  obtain r db' where run: "refresh_tokens e tok db = (r, db')" by fastforce
  note live = refresh_live [OF run Cons.prems [unfolded x]]
  show ?case
  proof (cases r)
    case (Inl err)
    then show ?thesis using Cons.IH [OF live(1)] run by (simp add: x)
  next
    case (Inr p)
    have "tok \<notin> set (map (au_fresh \<circ> fst) xs)"
    proof -
      from live(3) Inr obtain uid where "(tok, uid) \<in> live_tokens db" by blast
      then have "tok \<in> set (map rt_token (db_refresh_tokens db))" by (auto simp: live_tokens_def)
      with Cons.prems show ?thesis by (auto simp: fresh_draws_def x)
    qed
    with refreshes_from_live [OF live(1)] live(3) Inr have "tok \<notin> fst ` set (refreshes xs db')" by fastforce
    then show ?thesis using Cons.IH [OF live(1)] Inr run by (simp add: x)
  qed
qed simp


definition ann_sessions :: app_db where
  "ann_sessions = ann_db\<lparr>db_refresh_tokens := [\<lparr>rt_id = 1, rt_token = ''a'', rt_user_id = 1, rt_expires_at = 100, rt_revoked = False, rt_created_at = 0\<rparr>]\<rparr>"

definition sample_refreshes :: "(auth_env \<times> string) list" where
  "sample_refreshes = [(sample_auth 1 ''b'' 2, ''a''), (sample_auth 2 ''c'' 3, ''b''), (sample_auth 3 ''d'' 4, ''a'')]"


section \<open>Logging in with the right password\<close>

lemma set_user_lookup:
  assumes "\<And>x. u_id (f x) = u_id x \<and> u_username (f x) = u_username x \<and> u_email (f x) = u_email x"
  shows "named n (set_user uid f db) = map_option (\<lambda>x. if u_id x = uid then f x else x) (named n db)"
    and "find_user (set_user uid f db) v = map_option (\<lambda>x. if u_id x = uid then f x else x) (find_user db v)"
  using find_update_where [of "\<lambda>x. u_username x = Some n" f] find_update_where [of "\<lambda>x. u_id x = v" f] assms
  by (simp_all add: named_def find_user_def set_user_def)

lemma set_user_rest [simp]:
  "db_refresh_tokens (set_user uid f db) = db_refresh_tokens db" "db_reset_tokens (set_user uid f db) = db_reset_tokens db"
  by (simp_all add: set_user_def)

lemma right_password_signs_in:
  assumes "csrf_refusal e h = None" "named name db = Some u" "\<not> is_locked (au_now e) u" "verify_password e pw (u_hashed_password u)" "has_dek u"
  shows "\<exists>p db'. login_user e h name pw db = (Inr p, db') \<and> tp_access_token p = create_access_token e [(''sub'', JStr (show_int (u_id u)))] None \<and>
    db_users db' = db_users (clear_lockout u db)"
proof -
  let ?db = "auth_event e ''login'' (Some (u_id u)) [] (clear_lockout u db)"
  have "login_user e h name pw db = signed_in e (u_id u) ?db"
    using assms by (simp add: login_user_def named_def ensure_user_dek_def Let_def)
  with signed_in_ok [of e "u_id u" ?db] show ?thesis by (auto simp: auth_event_def)
qed

section \<open>Password reset\<close>

text \<open>A reset link works: the token drawn for an account opens it within the hour, once, and then the new password signs in, even where
  the account was locked, and the old one does not.\<close>

theorem password_reset_works:
  assumes u: "find (\<lambda>u. u_email u = Some email) (db_users db) = Some u" "named name db = Some u" "find_user db (u_id u) = Some u" "has_dek u"
    and fresh: "\<forall>r \<in> set (db_reset_tokens db). pr_token_hash r \<noteq> en_sha (au_api e1) (au_fresh e1)"
    and env: "en_sha (au_api e2) = en_sha (au_api e1)" "en_sha (au_api e3) = en_sha (au_api e1)" "au_now e2 < au_now e1 + 3600" "csrf_refusal e4 h = None"
    and check: "au_check e4 new (au_hash e2 new)" "\<not> au_check e4 old (au_hash e2 new)"
    and forgot: "forgot_password e1 email db = (r1, db1)" and reset: "reset_password e2 (au_fresh e1) new db1 = (r2, db2)"
  shows "(\<exists>m. r2 = Inr m) \<and> fst (reset_password e3 (au_fresh e1) other db2) = Inl bad_reset \<and>
    (\<exists>p. fst (login_user e4 h name new db2) = Inr p) \<and> fst (login_user e4 h name old db2) = Inl bad_login"
proof -
  let ?h = "en_sha (au_api e1) (au_fresh e1)"
  let ?row = "\<lparr>pr_user_id = u_id u, pr_token_hash = ?h, pr_expires_at = au_now e1 + 3600, pr_used = False\<rparr>"
  let ?f = "\<lambda>u. u\<lparr>u_hashed_password := Some (au_hash e2 new), u_failed_login_count := 0, u_locked_until := None\<rparr>"
  define rs where "rs = update_where (\<lambda>r. pr_user_id r = u_id u \<and> \<not> pr_used r) (\<lambda>r. r\<lparr>pr_used := True\<rparr>) (db_reset_tokens db)"
  have hashes: "map pr_token_hash rs = map pr_token_hash (db_reset_tokens db)" by (simp add: rs_def update_where_def)
  then have "pr_token_hash ` set rs = pr_token_hash ` set (db_reset_tokens db)" by (metis list.set_map)
  with fresh have other_hash: "\<forall>r \<in> set rs. pr_token_hash r \<noteq> ?h" by (metis image_iff)
  have db1: "db_users db1 = db_users db" "db_reset_tokens db1 = rs @ [?row]"
    using forgot u(1) by (auto simp: forgot_password_def auth_event_def rs_def Let_def)
  have none: "find (usable_reset t ?h) rs = None" for t using other_hash by (auto simp: find_None_iff usable_reset_def)
  have found: "find (usable_reset (au_now e2) ?h) (rs @ [?row]) = Some ?row"
  proof -
    have "find P (xs @ [x]) = Some x" if "find P xs = None" "P x" for P xs and x :: reset_row using that by (induction xs) auto
    moreover have "usable_reset (au_now e2) ?h ?row" using env(3) by (simp add: usable_reset_def)
    ultimately show ?thesis using none by blast
  qed
  have user1: "find_user db1 (u_id u) = Some u" using u(3) by (simp add: find_user_def db1)
  let ?db2 = "auth_event e2 ''password_reset'' (Some (u_id u)) []
    ((set_user (u_id u) ?f db1)\<lparr>db_reset_tokens := update_where (\<lambda>r. r = ?row) (\<lambda>r. r\<lparr>pr_used := True\<rparr>) (rs @ [?row])\<rparr>)"
  have run: "reset_password e2 (au_fresh e1) new db1 = (Inr [(''message'', JStr ''Password has been reset successfully.'')], ?db2)"
    using found user1 by (simp add: reset_password_def env(1) db1(2) Let_def)
  have db2: "db2 = ?db2" "\<exists>m. r2 = Inr m" using run reset by auto
  have named2: "named name db2 = Some (?f u)"
  proof -
    have "named name db1 = Some u" using u(2) by (simp add: named_def db1)
    then have "named name (set_user (u_id u) ?f db1) = Some (?f u)" by (simp add: set_user_lookup)
    then show ?thesis by (simp add: db2 named_def auth_event_def)
  qed
  have spent: "find (usable_reset t ?h) (db_reset_tokens db2) = None" for t
  proof -
    have "\<not> usable_reset t ?h r" if "r \<in> set (update_where (\<lambda>r. r = ?row) (\<lambda>r. r\<lparr>pr_used := True\<rparr>) (rs @ [?row]))" for r
      using that other_hash by (auto simp: in_update_where usable_reset_def split: if_splits)
    then show ?thesis by (simp add: db2 auth_event_def find_None_iff)
  qed
  have "fst (reset_password e3 (au_fresh e1) other db2) = Inl bad_reset" using spent by (simp add: reset_password_def env(2) Let_def)
  moreover have "\<exists>p. fst (login_user e4 h name new db2) = Inr p"
    using right_password_signs_in [OF env(4) named2, of new] check(1) u(4) by (fastforce simp: is_locked_def verify_password_def has_dek_def)
  moreover have "fst (login_user e4 h name old db2) = Inl bad_login"
    using env(4) named2 check(2) by (simp add: login_user_def named_def is_locked_def verify_password_def Let_def)
  ultimately show ?thesis using db2(2) by blast
qed

definition locked_db :: app_db where "locked_db = empty_db\<lparr>db_users := [ann\<lparr>u_failed_login_count := 5, u_locked_until := Some 1000\<rparr>]\<rparr>"

theorem password_reset_works_witness:
  "fst (login_user (sample_auth 20 ''x'' 1) [] ''ann'' ''New'' (snd (reset_password (sample_auth 10 ''y'' 1) ''raw'' ''New''
      (snd (forgot_password (sample_auth 1 ''raw'' 1) ''ann@x.org'' locked_db))))) \<noteq> Inl account_locked \<and>
   fst (reset_password (sample_auth 30 ''z'' 1) ''raw'' ''Evil'' (snd (reset_password (sample_auth 10 ''y'' 1) ''raw'' ''New''
      (snd (forgot_password (sample_auth 1 ''raw'' 1) ''ann@x.org'' locked_db))))) = Inl bad_reset"
proof -
  let ?u = "ann\<lparr>u_failed_login_count := 5, u_locked_until := Some 1000\<rparr>"
  have u: "find (\<lambda>u. u_email u = Some ''ann@x.org'') (db_users locked_db) = Some ?u" "named ''ann'' locked_db = Some ?u"
    "find_user locked_db (u_id ?u) = Some ?u" "has_dek ?u"
    by (simp_all add: locked_db_def sample_auth_simps has_dek_def)
  have "\<forall>r \<in> set (db_reset_tokens locked_db). pr_token_hash r \<noteq> en_sha (au_api (sample_auth 1 ''raw'' 1)) (au_fresh (sample_auth 1 ''raw'' 1))"
    by (simp add: locked_db_def empty_db_def)
  from password_reset_works [OF u this _ _ _ _ _ _ prod.collapse [symmetric] prod.collapse [symmetric], where new = "''New''" and old = "''Old''" and other = "''Evil''"
      and ?e2.0 = "sample_auth 10 ''y'' 1" and ?e3.0 = "sample_auth 30 ''z'' 1" and ?e4.0 = "sample_auth 20 ''x'' 1" and h = "[]"]
  have "(\<exists>p. fst (login_user (sample_auth 20 ''x'' 1) [] ''ann'' ''New'' (snd (reset_password (sample_auth 10 ''y'' 1) ''raw'' ''New''
      (snd (forgot_password (sample_auth 1 ''raw'' 1) ''ann@x.org'' locked_db))))) = Inr p) \<and>
   fst (reset_password (sample_auth 30 ''z'' 1) ''raw'' ''Evil'' (snd (reset_password (sample_auth 10 ''y'' 1) ''raw'' ''New''
      (snd (forgot_password (sample_auth 1 ''raw'' 1) ''ann@x.org'' locked_db))))) = Inl bad_reset"
    by (simp add: sample_auth_def csrf_refusal_def)
  then show ?thesis by auto
qed

section \<open>A deactivated account\<close>

text \<open>C35. An account an administrator deactivated still signs in with its password, and its token is accepted: only the login through a
  provider reads \<open>is_active\<close>.\<close>

theorem deactivated_account_signs_in:
  assumes off: "set_user_active env admin (u_id u) False db = (Inr m, db1)"
    and u: "named name db = Some u" "find_user db (u_id u) = Some u" "has_dek u" "\<not> is_locked (au_now e) u" "u_failed_login_count u = 0"
    and login: "csrf_refusal e h = None" "verify_password e pw (u_hashed_password u)"
    and jwt: "\<And>p. p = AList.update ''exp'' (JNum (au_now e + 60 * of_int (as_access_minutes (au_set e)))) [(''sub'', JStr (show_int (u_id u)))] \<Longrightarrow>
      decode (au_jwt_encode e p) = JwtPayload p"
  shows "\<exists>p db2 v. login_user e h name pw db1 = (Inr p, db2) \<and> get_current_user decode (tp_access_token p) db2 = Inr v \<and> u_id v = u_id u \<and> \<not> u_is_active v"
proof -
  let ?v = "u\<lparr>u_is_active := False\<rparr>"
  have db1: "db_users db1 = db_users (set_user (u_id u) (\<lambda>u. u\<lparr>u_is_active := False\<rparr>) db)"
    using off u(2) by (auto simp: set_user_active_def split: if_splits)
  have v: "named name db1 = Some ?v" "find_user db1 (u_id u) = Some ?v"
    using set_user_lookup [of "\<lambda>u. u\<lparr>u_is_active := False\<rparr>"] u(1,2) by (simp_all add: named_def find_user_def db1)
  have "\<not> is_locked (au_now e) ?v" "verify_password e pw (u_hashed_password ?v)" "has_dek ?v" using u(3,4) login(2) by (simp_all add: is_locked_def has_dek_def)
  from right_password_signs_in [OF login(1) v(1) this] obtain p db2 where p: "login_user e h name pw db1 = (Inr p, db2)"
    "tp_access_token p = create_access_token e [(''sub'', JStr (show_int (u_id u)))] None" "db_users db2 = db_users db1"
    using u(5) by (auto simp: clear_lockout_def)
  have "get_current_user decode (tp_access_token p) db2 = Inr ?v"
    using v(2) jwt [OF refl] by (simp add: p(2) create_access_token_def get_current_user_def find_user_def p(3) jget_def)
  with p(1) show ?thesis by (intro exI [of _ p] exI [of _ db2] exI [of _ ?v]) simp
qed

lemma show_one: "show_int 1 = ''1''" by code_simp

definition ann_token_payload :: "(string, json) dict" where
  "ann_token_payload = [(''sub'', JStr ''1''), (''exp'', JNum (1 + 60 * 30))]"

theorem deactivated_account_signs_in_witness:
  "\<exists>p db2 v. login_user (sample_auth 1 ''f'' 1) [] ''ann'' ''Old'' (snd (set_user_active sample_api_env (ann\<lparr>u_id := 2\<rparr>) 1 False ann_db)) = (Inr p, db2) \<and>
    get_current_user (\<lambda>_. JwtPayload ann_token_payload) (tp_access_token p) db2 = Inr v \<and> u_id v = u_id ann \<and> \<not> u_is_active v"
proof (rule deactivated_account_signs_in [where env = sample_api_env and admin = "ann\<lparr>u_id := 2\<rparr>" and db = ann_db])
  show "set_user_active sample_api_env (ann\<lparr>u_id := 2\<rparr>) (u_id ann) False ann_db =
      (Inr [(''status'', JStr ''updated''), (''user_id'', JInt 1), (''is_active'', JBool False)], snd (set_user_active sample_api_env (ann\<lparr>u_id := 2\<rparr>) 1 False ann_db))"
    by (simp add: set_user_active_def sample_auth_simps)
qed (simp_all add: sample_auth_simps has_dek_def ann_token_payload_def show_one)

section \<open>Launch tokens\<close>

text \<open>The token of a hosted-link launch, which is handed to a browser page, is accepted as an access token of the user that created it:
  both are JWTs under one key and \<open>get_current_user\<close> reads only \<open>sub\<close>.\<close>

theorem launch_token_signs_in:
  assumes "find_user db uid = Some u"
    and "\<And>p. p = launch_payload (lnow e) launch_id uid site allowed_origin allowed_origins scopes (if expires \<noteq> 0 then expires else le_launch_expire e) \<Longrightarrow>
      le_jwt_decode e (le_jwt_encode e p) = JwtPayload p"
  shows "get_current_user (le_jwt_decode e) (create_link_launch_token e launch_id uid site allowed_origin allowed_origins scopes expires) db = Inr u"
proof -
  have "jget (launch_payload now launch_id uid site allowed_origin allowed_origins scopes x) ''sub'' = JStr (show_int uid)" for now x
    by (simp add: launch_payload_def jget_def)
  with assms(1) assms(2) [OF refl] show ?thesis by (simp add: get_current_user_def create_link_launch_token_def)
qed

definition auth_launch_env where
  "auth_launch_env = sample_link_env\<lparr>le_jwt_decode := (\<lambda>_. JwtPayload (launch_payload (lnow sample_link_env) ''l'' 1 (Some ''bank'') None None JNull 60))\<rparr>"

theorem launch_token_signs_in_witness:
  "get_current_user (le_jwt_decode auth_launch_env) (create_link_launch_token auth_launch_env ''l'' 1 (Some ''bank'') None None JNull 60) ann_db = Inr ann"
  by (rule launch_token_signs_in) (simp_all add: auth_launch_env_def sample_auth_simps sample_link_env_def lnow_def)

section \<open>Names of new accounts\<close>

lemma unique_from_free: "unique_from taken base hex i candidate = Some name \<Longrightarrow> \<not> taken name"
proof (rule unique_from.raw_induct [of "\<lambda>taken base hex i candidate name. \<not> taken name"])
  fix f and taken :: "string \<Rightarrow> bool" and base hex i candidate and y :: string
  assume IH: "\<And>taken base hex i candidate y. f taken base hex i candidate = Some y \<Longrightarrow> \<not> taken y"
    and y: "(if taken candidate then f taken base hex (Suc i) (base @ ''-'' @ hex i) else Some candidate) = Some y"
  show "\<not> taken y" using y IH [of taken base hex "Suc i" "base @ ''-'' @ hex i" y] by (cases "taken candidate") auto
qed

lemma unique_from_ends:
  "\<not> taken (base @ ''-'' @ hex j) \<Longrightarrow> i \<le> j \<Longrightarrow> unique_from taken base hex i candidate \<noteq> None"
proof (induction "j - i" arbitrary: i candidate)
  case 0
  then show ?case by (subst unique_from.simps, simp, subst unique_from.simps, simp)
next
  case (Suc d)
  then show ?case by (subst unique_from.simps) simp
qed

text \<open>The search for a name ends, with a name nobody has, as soon as the random suffixes drawn are more than there are accounts and
  none repeats.\<close>

theorem unique_username_found:
  assumes "inj_on hex {..length (db_users db)}"
  shows "\<exists>name. unique_username hex db base = Some name \<and> \<not> name_taken db name"
proof -
  let ?b = "username_base base"
  have "\<exists>j. \<not> name_taken db (?b @ ''-'' @ hex j)"
  proof (rule ccontr)
    assume all: "\<not> ?thesis"
    have "(\<lambda>j. Some (?b @ ''-'' @ hex j)) ` {..length (db_users db)} \<subseteq> set (map u_username (db_users db))"
    proof
      fix n
      assume "n \<in> (\<lambda>j. Some (?b @ ''-'' @ hex j)) ` {..length (db_users db)}"
      then obtain j where n: "n = Some (?b @ ''-'' @ hex j)" by blast
      from all have "name_taken db (?b @ ''-'' @ hex j)" by blast
      then obtain u where "find (\<lambda>u. u_username u = n) (db_users db) = Some u" by (auto simp: name_taken_def n)
      then have "u \<in> set (db_users db)" "u_username u = n" by (auto simp: find_Some_iff)
      then show "n \<in> set (map u_username (db_users db))" by force
    qed
    from card_mono [OF _ this] card_length [of "map u_username (db_users db)"]
    have "card ((\<lambda>j. Some (?b @ ''-'' @ hex j)) ` {..length (db_users db)}) \<le> length (db_users db)" by simp
    moreover have "inj_on (\<lambda>j. Some (?b @ ''-'' @ hex j)) {..length (db_users db)}" using assms by (auto simp: inj_on_def)
    ultimately show False by (simp add: card_image)
  qed
  then obtain j where "\<not> name_taken db (?b @ ''-'' @ hex j)" by blast
  with unique_from_ends obtain name where "unique_username hex db base = Some name" by (fastforce simp: unique_username_def)
  with unique_from_free show ?thesis by (fastforce simp: unique_username_def)
qed

theorem unique_username_found_witness:
  "\<exists>name. unique_username (\<lambda>i. replicate i (CHR ''0'')) ann_db (Some ''ann'') = Some name \<and> \<not> name_taken ann_db name"
  by (rule unique_username_found) (auto simp: inj_on_def dest: arg_cong [of _ _ length])

section \<open>Accounts stay apart\<close>

text \<open>The unique columns of the table: no two accounts share an id, a name or an email.\<close>

definition given_once :: "string option list \<Rightarrow> bool" where
  "given_once vs \<longleftrightarrow> distinct (filter (\<lambda>v. v \<noteq> None) vs)"

definition accounts_ok :: "app_db \<Rightarrow> bool" where
  "accounts_ok db \<longleftrightarrow> distinct (map u_id (db_users db)) \<and> given_once (map u_username (db_users db)) \<and> given_once (map u_email (db_users db))"

definition account_keys :: "app_db \<Rightarrow> (int \<times> string option \<times> string option) list" where
  "account_keys db = map (\<lambda>u. (u_id u, u_username u, u_email u)) (db_users db)"

lemma accounts_ok_keys:
  "accounts_ok db \<longleftrightarrow> distinct (map fst (account_keys db)) \<and> given_once (map (fst \<circ> snd) (account_keys db)) \<and> given_once (map (snd \<circ> snd) (account_keys db))"
  by (simp add: accounts_ok_def account_keys_def comp_def)

lemma keys_update:
  assumes "\<And>x. u_id (g x) = u_id x \<and> u_username (g x) = u_username x \<and> u_email (g x) = u_email x" "db_users db' = update_where P g (db_users db)"
  shows "account_keys db' = account_keys db"
  using assms by (simp add: account_keys_def update_where_def)

lemma keys_same: "db_users db' = db_users db \<Longrightarrow> account_keys db' = account_keys db"
  by (simp add: account_keys_def)

lemma keys_set_user [simp]:
  "(\<And>x. u_id (f x) = u_id x \<and> u_username (f x) = u_username x \<and> u_email (f x) = u_email x) \<Longrightarrow> account_keys (set_user uid f db) = account_keys db"
  by (rule keys_update) (simp_all add: set_user_def)

lemma login_keys:
  assumes "login_user e h name pw db = (r, db')"
  shows "account_keys db' = account_keys db"
  using assms
proof (cases rule: login_cases)
  case (wrong u)
  show ?thesis by (rule keys_update [OF _ wrong(5)]) simp
next
  case (right u g)
  show ?thesis by (rule keys_update [OF right(6,7)])
next
  case refused
  then show ?thesis by blast
next
  case unknown
  from unknown(3) show ?thesis by (rule keys_same)
qed

text \<open>A new row, when its id, name and email are not in the table.\<close>

lemma accounts_ok_add:
  assumes "accounts_ok db" "u_id u \<notin> set (user_ids db)" "find (\<lambda>v. u_username v = u_username u) (db_users db) = None"
    "find (\<lambda>v. u_email v = u_email u) (db_users db) = None" "db_users db' = db_users db @ [u]"
  shows "accounts_ok db'"
  using assms by (auto simp: accounts_ok_def given_once_def user_ids_def find_None_iff)

lemma accounts_ok_users: "db_users db' = db_users db \<Longrightarrow> accounts_ok db \<Longrightarrow> accounts_ok db'"
  by (simp add: accounts_ok_def)

lemma register_ok:
  assumes "register_user e body db = (r, db')" "accounts_ok db" "au_user_id e \<notin> set (user_ids db)"
  shows "accounts_ok db'"
proof (cases "db' = db")
  case False
  have free: "find (\<lambda>u. u_username u = Some (rq_username body) \<or> u_email u = Some (rq_email body)) (db_users db) = None"
    using assms(1) False by (auto simp: register_user_def split: if_splits)
  with assms(1) False obtain dek where
    dek: "create_user_dek (au_ciphers e) (au_keys e) (au_kms e) (au_nonce e) (au_random32 e) = Some dek"
    by (auto simp: register_user_def split: if_splits option.splits)
  let ?u = "new_user e (rq_username body) (rq_email body) (Some (au_hash e (rq_password body))) None dek"
  have "db_users db' = db_users db @ [?u]"
    using assms(1) free dek False by (auto simp: register_user_def auth_event_def signed_in_def issue_token_pair_def create_refresh_token_def Let_def split: if_splits)
  note added = this
  have "find (\<lambda>v. u_username v = u_username ?u) (db_users db) = None" "find (\<lambda>v. u_email v = u_email ?u) (db_users db) = None"
    using free by (auto simp: find_None_iff new_user_def)
  moreover have "u_id ?u \<notin> set (user_ids db)" using assms(3) by (simp add: new_user_def)
  ultimately show ?thesis using accounts_ok_add [OF assms(2) _ _ _ added] by blast
qed (use assms(2) in simp)

lemma unique_username_free: "unique_username hex db base = Some name \<Longrightarrow> find (\<lambda>v. u_username v = Some name) (db_users db) = None"
  using unique_from_free [of "name_taken db" "username_base base" hex 0 "username_base base" name] by (simp add: unique_username_def name_taken_def)

lemma oauth_account_ok:
  assumes "oauth_account e hex provider i email db = Some (r, db')" "accounts_ok db" "au_user_id e \<notin> set (user_ids db)"
  shows "accounts_ok db'"
proof (cases "identity_match provider (oi_subject i) db")
  case (Some u)
  with assms show ?thesis by (auto simp: oauth_account_def)
next
  case none: None
  show ?thesis
  proof (cases "find (\<lambda>u. u_email u = Some email) (db_users db)")
    case (Some u)
    have "account_keys (set_user (u_id u) (link_identity provider (oi_subject i)) db) = account_keys db" by (simp add: link_identity_def)
    with Some none assms(1,2) show ?thesis by (auto simp: oauth_account_def accounts_ok_keys split: if_splits)
  next
    case None
    with assms(1) none have p: "provision_user e hex provider i email db = Some (r, db')" by (simp add: oauth_account_def)
    show ?thesis
    proof (cases "db' = db")
      case False
      from p False obtain base name dek where n: "unique_username hex db (Some base) = Some name"
        and d: "db_users db' = db_users db @ [new_user e name email None (Some (provider, oi_subject i)) dek]"
        by (auto simp: provision_user_def oauth_event_def auth_event_def Let_def split: if_splits option.splits)
      let ?u = "new_user e name email None (Some (provider, oi_subject i)) dek"
      have "u_id ?u \<notin> set (user_ids db)" "find (\<lambda>v. u_username v = u_username ?u) (db_users db) = None" "find (\<lambda>v. u_email v = u_email ?u) (db_users db) = None"
        using assms(3) unique_username_free [OF n] None by (simp_all add: new_user_def)
      from accounts_ok_add [OF assms(2) this d] show ?thesis .
    qed (use assms(2) in simp)
  qed
qed

lemma oauth_ok:
  assumes "oauth2_login e get hex body db = Some (r, db')" "accounts_ok db" "au_user_id e \<notin> set (user_ids db)"
  shows "accounts_ok db'"
proof (cases "accounts_ok db'")
  case False
  have changed: "db_users db' \<noteq> db_users db" using False assms(2) accounts_ok_users by blast
  from assms(1) changed obtain i email r1 db1 where acc: "oauth_account e hex (py_lower (oq_provider body)) i email db = Some (r1, db1)"
    and last: "db' = db1 \<or> (\<exists>u. r1 = Inr u \<and> (case ensure_user_dek (au_ciphers e) (au_keys e) (au_kms e) (au_nonce e) (au_random32 e) u db1 of
                              None \<Rightarrow> Some (Inl server_error, db1)
                            | Some db \<Rightarrow> Some (signed_in e (u_id u) (oauth_event e ''oauth_login'' (py_lower (oq_provider body)) (u_id u) db))) = Some (r, db'))"
    by (auto simp: oauth2_login_def auth_event_def Let_def split: if_splits provider_result.splits json.splits option.splits sum.splits prod.splits)
  have ok1: "accounts_ok db1" using oauth_account_ok [OF acc assms(2,3)] .
  from last show ?thesis
  proof
    assume "db' = db1"
    with ok1 show ?thesis by simp
  next
    assume "\<exists>u. r1 = Inr u \<and> (case ensure_user_dek (au_ciphers e) (au_keys e) (au_kms e) (au_nonce e) (au_random32 e) u db1 of
                              None \<Rightarrow> Some (Inl server_error, db1)
                            | Some db \<Rightarrow> Some (signed_in e (u_id u) (oauth_event e ''oauth_login'' (py_lower (oq_provider body)) (u_id u) db))) = Some (r, db')"
    then obtain u where u: "(case ensure_user_dek (au_ciphers e) (au_keys e) (au_kms e) (au_nonce e) (au_random32 e) u db1 of
                              None \<Rightarrow> Some (Inl server_error, db1)
                            | Some db \<Rightarrow> Some (signed_in e (u_id u) (oauth_event e ''oauth_login'' (py_lower (oq_provider body)) (u_id u) db))) = Some (r, db')" by blast
    show ?thesis
    proof (cases "ensure_user_dek (au_ciphers e) (au_keys e) (au_kms e) (au_nonce e) (au_random32 e) u db1")
      case None
      with u ok1 show ?thesis by simp
    next
      case (Some db2)
      from ensure_dek_users [OF Some] have "account_keys db2 = account_keys db1" by (metis keys_update)
      moreover have "db_users db' = db_users db2" using u Some
        by (auto simp: signed_in_def issue_token_pair_def create_refresh_token_def oauth_event_def auth_event_def)
      ultimately show ?thesis using ok1 by (simp add: accounts_ok_keys account_keys_def)
    qed
  qed
qed

text \<open>The operations on accounts. The id of a new row is one that is not in the table.\<close>

inductive account_step :: "app_db \<Rightarrow> app_db \<Rightarrow> bool" where
  registered: "register_user e body db = (r, db') \<Longrightarrow> au_user_id e \<notin> set (user_ids db) \<Longrightarrow> account_step db db'"
| logged_in: "login_user e h name pw db = (r, db') \<Longrightarrow> account_step db db'"
| provider: "oauth2_login e get hex obody db = Some (r, db') \<Longrightarrow> au_user_id e \<notin> set (user_ids db) \<Longrightarrow> account_step db db'"
| reset: "reset_password e token pw db = (r', db') \<Longrightarrow> account_step db db'"
| promoted: "promote_user env admin uid db = (r', db') \<Longrightarrow> account_step db db'"
| activated: "set_user_active env admin uid active db = (r', db') \<Longrightarrow> account_step db db'"
| erased: "delete_account e pw' user db = (r', db') \<Longrightarrow> account_step db db'"

lemma keys_audited [simp]: "account_keys (audited env ty ac u r md ip db) = account_keys db" "account_keys (auth_event e ac u md db) = account_keys db"
  by (simp_all add: account_keys_def auth_event_def)

lemma erase_users: "db_users (erase_user fk uid db) = filter (\<lambda>u. u_id u \<noteq> uid) (db_users db)"
  by (simp add: erase_user_def after_delete_def cascade_def delete_user_data_def delete_where_def Let_def)

lemma given_once_filter: "given_once (map f us) \<Longrightarrow> given_once (map f (filter P us))"
proof -
  assume "given_once (map f us)"
  then have "distinct (map f (filter (\<lambda>u. f u \<noteq> None) us))" by (simp add: given_once_def filter_map comp_def)
  then have "distinct (map f (filter P (filter (\<lambda>u. f u \<noteq> None) us)))" by (rule distinct_map_filter)
  then show ?thesis by (simp add: given_once_def filter_map comp_def conj_commute)
qed

lemma reset_keys:
  assumes "reset_password e token pw db = (r, db')"
  shows "account_keys db' = account_keys db"
proof -
  have "account_keys (db\<lparr>db_reset_tokens := rs\<rparr>) = account_keys db" for db rs by (simp add: account_keys_def)
  with assms show ?thesis by (auto simp: reset_password_def Let_def split: option.splits)
qed

lemma account_step_ok: "account_step db db' \<Longrightarrow> accounts_ok db \<Longrightarrow> accounts_ok db'"
proof (induction rule: account_step.induct)
  case (registered e body db r db')
  then show ?case by (blast intro: register_ok)
next
  case (logged_in e h name pw db r db')
  then show ?case using login_keys by (simp add: accounts_ok_keys)
next
  case (provider e get hex obody db r db')
  then show ?case by (blast intro: oauth_ok)
next
  case (reset e token pw db r' db')
  then show ?case using reset_keys by (simp add: accounts_ok_keys)
next
  case (promoted env admin uid db r' db')
  then show ?case by (auto simp: promote_user_def accounts_ok_keys split: option.splits)
next
  case (activated env admin uid active db r' db')
  then show ?case by (auto simp: set_user_active_def accounts_ok_keys split: option.splits if_splits)
next
  case (erased e pw' user db r' db')
  have "accounts_ok db' \<or> db' = db" using erased
    by (auto simp: delete_account_def accounts_ok_def auth_event_def erase_users distinct_map_filter given_once_filter Let_def split: if_splits)
  with erased show ?case by blast
qed

text \<open>Whatever accounts are registered, created through a provider, changed or erased, no two accounts share an id, a name or an
  email: an existing account is never replaced and a name never leads to another account.\<close>

theorem accounts_stay_apart:
  assumes "account_step\<^sup>*\<^sup>* db db'" "accounts_ok db"
  shows "accounts_ok db'"
  using assms by (induction rule: rtranclp_induct) (auto intro: account_step_ok)

theorem accounts_stay_apart_witness:
  "accounts_ok (snd (register_user (sample_auth 1 ''f'' 1) \<lparr>rq_username = ''bob'', rq_email = ''bob@x.org'', rq_password = ''Pw1!Pw1!''\<rparr> ann_db))"
proof -
  have "account_step ann_db (snd (register_user (sample_auth 1 ''f'' 1) \<lparr>rq_username = ''bob'', rq_email = ''bob@x.org'', rq_password = ''Pw1!Pw1!''\<rparr> ann_db))"
    by (rule registered [OF prod.collapse [symmetric]]) (simp add: sample_auth_simps user_ids_def)
  moreover have "accounts_ok ann_db" by (simp add: accounts_ok_def given_once_def sample_auth_simps)
  ultimately show ?thesis using accounts_stay_apart [OF r_into_rtranclp] by blast
qed

section \<open>An account registered with somebody else's email\<close>

text \<open>Registration does not verify the email. Whoever registers first with an email keeps the password of the account that its owner
  later reaches through an identity provider: both sign in to the same account.\<close>

theorem unverified_email_is_linked:
  assumes new: "register_user e1 body db = (Inr p1, db1)" and i: "identity_match provider (oi_subject i) db = None"
    and dek: "create_user_dek (au_ciphers e1) (au_keys e1) (au_kms e1) (au_nonce e1) (au_random32 e1) \<noteq> Some ''''"
    and v: "as_oauth_enabled (au_set e2)" "provider = py_lower (oq_provider ob)" "provider \<in> set (oauth_providers_allowed (as_oauth_allowed_providers (au_set e2)))"
      "verify_oauth_token (en_rep (au_api e2)) get (as_oauth_google_client_id (au_set e2)) provider (oq_oauth_token ob) = Provider_ok i"
      "oi_email i = JStr (rq_email body)" "rq_email body \<noteq> ''''" "oi_email_verified i"
    and login: "csrf_refusal e3 h = None" "au_check e3 (rq_password body) (au_hash e1 (rq_password body))"
  shows "\<exists>p2 db2 p3 db3. oauth2_login e2 get hex ob db1 = Some (Inr p2, db2) \<and> login_user e3 h (rq_username body) (rq_password body) db2 = (Inr p3, db3) \<and>
    tp_access_token p2 = create_access_token e2 [(''sub'', JStr (show_int (au_user_id e1)))] None \<and>
    tp_access_token p3 = create_access_token e3 [(''sub'', JStr (show_int (au_user_id e1)))] None"
proof -
  have free: "find (\<lambda>u. u_username u = Some (rq_username body) \<or> u_email u = Some (rq_email body)) (db_users db) = None"
    using new by (auto simp: register_user_def split: if_splits)
  from new free obtain w where w: "create_user_dek (au_ciphers e1) (au_keys e1) (au_kms e1) (au_nonce e1) (au_random32 e1) = Some w"
    by (auto simp: register_user_def split: if_splits option.splits)
  define u where "u = new_user e1 (rq_username body) (rq_email body) (Some (au_hash e1 (rq_password body))) None w"
  have db1: "db_users db1 = db_users db @ [u]"
    using new free w by (auto simp: register_user_def auth_event_def signed_in_def issue_token_pair_def create_refresh_token_def Let_def u_def split: if_splits)
  have u: "u_id u = au_user_id e1" "u_username u = Some (rq_username body)" "u_email u = Some (rq_email body)" "u_oauth_sub u = None" "u_oauth_provider u = None"
    "u_is_active u" "u_hashed_password u = Some (au_hash e1 (rq_password body))" "u_failed_login_count u = 0" "u_locked_until u = None" "has_dek u"
    using dek w by (simp_all add: u_def new_user_def has_dek_def)
  have none: "identity_match provider (oi_subject i) db1 = None" using i u(4) by (auto simp: identity_match_def db1 find_None_iff)
  have mail: "find (\<lambda>u. u_email u = Some (rq_email body)) (db_users db1) = Some u" "named (rq_username body) db1 = Some u"
    using free u(2,3) by (auto simp: db1 named_def find_None_iff intro!: find_append_new)
  let ?l = "link_identity provider (oi_subject i)"
  have acc: "oauth_account e2 hex provider i (rq_email body) db1 = Some (Inr (?l u), set_user (u_id u) ?l db1)"
    using none mail(1) u(4) by (simp add: oauth_account_def given_text_def)
  let ?db = "oauth_event e2 ''oauth_login'' provider (u_id u) (set_user (u_id u) ?l db1)"
  have lu: "u_is_active (?l u)" "u_id (?l u) = u_id u" "has_dek (?l u)" using u by (simp_all add: link_identity_def has_dek_def)
  have "oauth2_login e2 get hex ob db1 = Some (signed_in e2 (u_id u) ?db)"
    using v acc lu by (simp add: oauth2_login_def ensure_user_dek_def Let_def)
  obtain p2 db2 where p2: "signed_in e2 (u_id u) ?db = (Inr p2, db2)"
    "tp_access_token p2 = create_access_token e2 [(''sub'', JStr (show_int (u_id u)))] None" "db_users db2 = db_users ?db"
    using signed_in_ok [of e2 "u_id u" ?db] by auto
  have "named (rq_username body) db2 = Some (?l u)"
    using set_user_lookup(1) [of ?l "rq_username body" "u_id u" db1] mail(2) p2(3) by (simp add: link_identity_def named_def oauth_event_def auth_event_def)
  moreover have "\<not> is_locked (au_now e3) (?l u)" "verify_password e3 (rq_password body) (u_hashed_password (?l u))"
    using u login(2) by (simp_all add: is_locked_def link_identity_def verify_password_def)
  ultimately obtain p3 db3 where "login_user e3 h (rq_username body) (rq_password body) db2 = (Inr p3, db3)"
    "tp_access_token p3 = create_access_token e3 [(''sub'', JStr (show_int (u_id u)))] None"
    using right_password_signs_in [OF login(1) _ _ _ lu(3), of "rq_username body" db2 "rq_password body"] lu(2) by auto
  with \<open>oauth2_login e2 get hex ob db1 = Some (signed_in e2 (u_id u) ?db)\<close> p2 show ?thesis by (auto simp: u(1))
qed

definition sample_github :: http_client where
  "sample_github url params bearer =
     (if url = GITHUB_USER_URL then Answered 200 (Some (JObj [(''id'', JInt 7), (''login'', JStr ''bob''), (''email'', JNull)]))
      else Answered 200 (Some (JList [JObj [(''email'', JStr ''bob@x.org''), (''primary'', JBool True), (''verified'', JBool True)]])))"

definition mallory_body :: register_request where
  "mallory_body = \<lparr>rq_username = ''mallory'', rq_email = ''bob@x.org'', rq_password = ''Pw1!Pw1!''\<rparr>"

lemma sample_identity:
  "verify_oauth_token rep sample_github None ''github'' ''t'' =
     Provider_ok \<lparr>oi_provider = ''github'', oi_subject = show_int 7, oi_email = JStr ''bob@x.org'', oi_email_verified = True, oi_username = JStr ''bob''\<rparr>"
  by (simp add: verify_oauth_token_def verify_github_def http_get_json_def sample_github_def GITHUB_USER_URL_def GITHUB_EMAILS_URL_def
      primary_email_def is_primary_email_def jget_def py_lower_def lower_char_def)

lemma mallory_dek:
  "\<exists>w. create_user_dek (au_ciphers (sample_auth t f r)) (au_keys (sample_auth t f r)) (au_kms (sample_auth t f r)) (au_nonce (sample_auth t f r))
      (au_random32 (sample_auth t f r)) = Some w \<and> w \<noteq> ''''"
proof -
  have "xs \<noteq> [] \<Longrightarrow> b64_encode xs \<noteq> []" for xs by (cases xs rule: b64_encode.cases) (simp_all add: Let_def)
  then have "b64_encode (replicate 12 (CHR ''n'') @ x) \<noteq> []" for x by simp
  then show ?thesis
    by (simp add: sample_auth_def create_user_dek_def wrap_dek_def wrap_key_sync_def encrypt_credential_def get_encryption_key_def seal_def aes_key_def)
qed

lemma sample_registration: "\<exists>p db1. register_user (sample_auth 1 ''f'' 1) mallory_body ann_db = (Inr p, db1)"
proof -
  have "find (\<lambda>u. u_username u = Some (rq_username mallory_body) \<or> u_email u = Some (rq_email mallory_body)) (db_users ann_db) = None"
    "as_registration_enabled (au_set (sample_auth 1 ''f'' 1))" by (simp_all add: mallory_body_def sample_auth_simps)
  with mallory_dek [of 1 "''f''" 1] show ?thesis
    by (auto simp: register_user_def signed_in_def issue_token_pair_def create_refresh_token_def Let_def)
qed

theorem unverified_email_is_linked_witness:
  "\<exists>p2 db2 p3 db3. oauth2_login (sample_auth 2 ''g'' 2) sample_github (\<lambda>_. ''0'') \<lparr>oq_provider = ''github'', oq_oauth_token = ''t''\<rparr>
      (snd (register_user (sample_auth 1 ''f'' 1) mallory_body ann_db)) = Some (Inr p2, db2) \<and>
    login_user (sample_auth 3 ''h'' 3) [] (rq_username mallory_body) (rq_password mallory_body) db2 = (Inr p3, db3) \<and>
    tp_access_token p2 = create_access_token (sample_auth 2 ''g'' 2) [(''sub'', JStr (show_int (au_user_id (sample_auth 1 ''f'' 1))))] None \<and>
    tp_access_token p3 = create_access_token (sample_auth 3 ''h'' 3) [(''sub'', JStr (show_int (au_user_id (sample_auth 1 ''f'' 1))))] None"
proof -
  obtain p where p: "register_user (sample_auth 1 ''f'' 1) mallory_body ann_db = (Inr p, snd (register_user (sample_auth 1 ''f'' 1) mallory_body ann_db))"
    using sample_registration by (metis snd_conv)
  let ?i = "\<lparr>oi_provider = ''github'', oi_subject = show_int 7, oi_email = JStr ''bob@x.org'', oi_email_verified = True, oi_username = JStr ''bob''\<rparr>"
  show ?thesis
    by (rule unverified_email_is_linked [OF p, where provider = "''github''" and i = ?i])
      (use mallory_dek [of 1 "''f''" 1] in \<open>fastforce simp: ann_db_def ann_def empty_db_def identity_match_def\<close>,
       use mallory_dek [of 1 "''f''" 1] in force,
       simp_all add: sample_auth_def sample_identity mallory_body_def csrf_refusal_def oauth_providers_allowed_def py_lower_def lower_char_def py_strip_def
        rstrip_of_def is_space_def)
qed

end
