(* ===== verification/App_Lifecycle.thy ===== *)
theory App_Lifecycle imports App_Settings Auth Step_Executor begin

text \<open>
  \<^verbatim>\<open>src/app.py\<close>: what runs around the routes. The checks at the start, the bootstrap of the first administrator, the three periodic passes over the
  database, and the middleware that bounds a request and sets the headers of a response.

  The scheduling of the passes and the frameworks are left out; a pass is the change it makes to the database. Its time is an argument, and whether
  an audit row is older than the retention period is a test on its stored time.
\<close>

section \<open>The start\<close>

text \<open>The state of Redis: there is no client, or what a ping ends with.\<close>

datatype redis_state = No_client | Pong | Ping_error string

definition validate_runtime_configuration :: "(string, json) dict \<Rightarrow> redis_state \<Rightarrow> string option" where
  "validate_runtime_configuration settings redis =
     (if jget settings ''env'' \<noteq> JStr ''production'' then None
      else if truthy (jget settings ''debug'') then Some ''DEBUG must be false in production.''
      else if \<not> truthy (jget settings ''redis_url'') then Some ''REDIS_URL is required in production for shared state and rate limiting.''
      else case redis of
             No_client \<Rightarrow> Some ''Redis is required in production and must be reachable.''
           | Ping_error m \<Rightarrow> Some m
           | Pong \<Rightarrow> None)"

text \<open>The settings of the bootstrap user are its name, email and password. An exception is logged and the start goes on.\<close>

definition bootstrap_user :: "auth_env \<Rightarrow> string option \<Rightarrow> string option \<Rightarrow> string option \<Rightarrow> app_db \<Rightarrow> app_db" where
  "bootstrap_user e username email password db =
     (case (given username, given email, given password) of
        (Some username, Some email, Some password) \<Rightarrow>
          (case find (\<lambda>u. u_username u = Some username \<or> u_email u = Some email) (db_users db) of
             Some existing \<Rightarrow> if \<not> u_is_admin existing then set_user (u_id existing) (\<lambda>u. u\<lparr>u_is_admin := True\<rparr>) db else db
           | None \<Rightarrow>
               (case create_user_dek (au_ciphers e) (au_keys e) (au_kms e) (au_nonce e) (au_random32 e) of
                  None \<Rightarrow> db
                | Some dek \<Rightarrow> db\<lparr>db_users := db_users db @ [(new_user e username email (Some (au_hash e password)) None dek)\<lparr>u_is_admin := True\<rparr>]\<rparr>))
      | _ \<Rightarrow> db)"

section \<open>The periodic passes\<close>

definition TOKEN_CLEANUP_INTERVAL :: nat where "TOKEN_CLEANUP_INTERVAL = 3600"
definition AUDIT_CLEANUP_INTERVAL :: nat where "AUDIT_CLEANUP_INTERVAL = 86400"
definition KEY_REENCRYPT_INTERVAL :: nat where "KEY_REENCRYPT_INTERVAL = 3600"

definition cleanup_expired_tokens :: "time \<Rightarrow> app_db \<Rightarrow> app_db" where
  "cleanup_expired_tokens now db =
     db\<lparr>db_refresh_tokens := filter (\<lambda>r. \<not> (rt_expires_at r < now \<or> rt_revoked r)) (db_refresh_tokens db)\<rparr>"

definition cleanup_old_audit_logs :: "(string \<Rightarrow> bool) \<Rightarrow> app_db \<Rightarrow> app_db" where
  "cleanup_old_audit_logs before_cutoff db = db\<lparr>db_audit := filter (\<lambda>e. \<not> before_cutoff (al_timestamp e)) (db_audit db)\<rparr>"

definition reencrypt_stale_tokens :: "time \<Rightarrow> ciphers \<Rightarrow> key_settings \<Rightarrow> kms \<Rightarrow> (nat \<Rightarrow> string \<times> string) \<Rightarrow> app_db \<Rightarrow> app_db" where
  "reencrypt_stale_tokens now c ks provider fresh db = snd (re_encrypt_tokens now c ks provider fresh 100 db)"

section \<open>Middleware\<close>

definition MAX_REQUEST_BODY_SIZE :: int where "MAX_REQUEST_BODY_SIZE = 1 * 1024 * 1024"

text \<open>\<open>Inl\<close> is the response instead of the route's; a length that is no number is an exception.\<close>

definition limit_request_body :: "string option \<Rightarrow> http_error option" where
  "limit_request_body content_length =
     (case given content_length of
        None \<Rightarrow> None
      | Some n \<Rightarrow>
          (case py_int n of
             None \<Rightarrow> Some server_error
           | Some k \<Rightarrow> if k > MAX_REQUEST_BODY_SIZE then Some (HTTPException 413 ''Request body too large. Maximum size is 1MB.'') else None))"

definition request_id_header :: "string \<Rightarrow> (string, string) dict \<Rightarrow> string" where
  "request_id_header fresh headers = (case map_of headers ''x-request-id'' of None \<Rightarrow> fresh | Some i \<Rightarrow> i)"

text \<open>The origins that may frame the hosted page, each once; \<open>None\<close> when one is no text.\<close>

fun framing_origins :: "json list \<Rightarrow> string list \<Rightarrow> string list option" where
  "framing_origins [] seen = Some []"
| "framing_origins (candidate # cs) seen =
     (if \<not> truthy candidate then framing_origins cs seen
      else case candidate of
             JStr c \<Rightarrow>
               (let n = rstrip_slash c
                in if n \<noteq> '''' \<and> n \<notin> set seen then map_option (\<lambda>os. n # os) (framing_origins cs (n # seen)) else framing_origins cs seen)
           | _ \<Rightarrow> None)"

definition is_hosted_link_html :: "string \<Rightarrow> bool" where
  "is_hosted_link_html path \<longleftrightarrow> path \<in> {''/link'', ''/ui/link.html''}"

definition session_origins :: "(string, json) dict \<Rightarrow> string list option" where
  "session_origins session =
     (case (if truthy (jget session ''allowed_origins'') then json_iter (jget session ''allowed_origins'') else Some []) of
        None \<Rightarrow> None
      | Some os \<Rightarrow> framing_origins (os @ [jget session ''allowed_origin'']) [])"

definition self_ancestor :: string where
  "self_ancestor = CHR 0x27 # ''self'' @ [CHR 0x27]"

text \<open>\<open>session\<close>: the link session the page's token names, where it names one.\<close>

definition frame_ancestors :: "string \<Rightarrow> (string, json) dict option \<Rightarrow> string option" where
  "frame_ancestors path session =
     (case session of
        Some s \<Rightarrow>
          if is_hosted_link_html path \<and> s \<noteq> []
          then map_option (\<lambda>os. if os = [] then self_ancestor else join (CHR '' '') (self_ancestor # os)) (session_origins s)
          else Some self_ancestor
      | None \<Rightarrow> Some self_ancestor)"

definition security_headers :: "bool \<Rightarrow> string \<Rightarrow> (string, json) dict option \<Rightarrow> (string, string) dict \<Rightarrow> (string, string) dict option" where
  "security_headers https path session headers =
     (case frame_ancestors path session of
        None \<Rightarrow> None
      | Some ancestors \<Rightarrow>
          let framed = is_hosted_link_html path \<and> ancestors \<noteq> self_ancestor;
              headers = (if framed then AList.delete ''X-Frame-Options'' (AList.update ''X-Content-Type-Options'' ''nosniff'' headers)
                else AList.update ''X-Frame-Options'' ''SAMEORIGIN'' (AList.update ''X-Content-Type-Options'' ''nosniff'' headers));
              set = (\<lambda>k v h. AList.update k v h);
              headers = set ''X-XSS-Protection'' ''1; mode=block'' headers;
              headers = set ''Referrer-Policy'' ''strict-origin-when-cross-origin'' headers;
              headers = set ''Permissions-Policy'' ''camera=(), microphone=(), geolocation=()'' headers;
              headers = set ''Content-Security-Policy'' (''default-src '' @ self_ancestor @ ''; script-src '' @ self_ancestor @ ''; style-src '' @ self_ancestor @
                '' '' @ CHR 0x27 # ''unsafe-inline'' @ CHR 0x27 # ''; img-src '' @ self_ancestor @ '' data:; frame-ancestors '' @ ancestors) headers
          in Some (if https then set ''Strict-Transport-Security'' ''max-age=31536000; includeSubDomains'' headers else headers))"

section \<open>Retention against the audit chain\<close>

lemma chained_later: "chained prev es \<Longrightarrow> e \<in> set (tl es) \<Longrightarrow> al_prev_hash e \<noteq> None"
proof (induction prev es rule: chained.induct)
  case (2 prev d ds)
  then show ?case by (cases ds) auto
qed simp

lemma record_all_append: "\<exists>new. record_all sha rows evs = rows @ new"
proof (induction evs arbitrary: rows)
  case (Cons ev evs)
  obtain i t x where ev: "ev = (i, t, x)" by (cases ev)
  obtain r where "record_audit_event sha i t x rows = rows @ [r]" by (simp add: record_audit_event_def Let_def)
  then show ?case using Cons [of "rows @ [r]"] ev by auto
qed simp

text \<open>C12. The first pass of the audit retention that deletes the oldest event but not every event breaks the hash chain for good: the log no longer
  verifies, and no event recorded later mends it.\<close>

theorem retention_breaks_audit_chain:
  assumes "vr_valid (verify_audit_chain sha (db_audit db))" "before_cutoff (al_timestamp (hd (db_audit db)))"
    and "\<exists>e \<in> set (db_audit db). \<not> before_cutoff (al_timestamp e)"
  shows "\<not> vr_valid (verify_audit_chain sha (record_all sha (db_audit (cleanup_old_audit_logs before_cutoff db)) evs))"
proof -
  let ?kept = "filter (\<lambda>e. \<not> before_cutoff (al_timestamp e)) (db_audit db)"
  obtain e es where kept: "?kept = e # es" using assms(3) by (cases ?kept) (auto simp: filter_empty_conv)
  obtain r rs where rows: "db_audit db = r # rs" using assms(3) by (cases "db_audit db") auto
  have "e \<in> set (tl (db_audit db))"
  proof -
    have "e \<in> set ?kept" using kept by simp
    then have "e \<in> set (db_audit db)" "\<not> before_cutoff (al_timestamp e)" by auto
    then show ?thesis using assms(2) rows by auto
  qed
  moreover have "chained None (db_audit db)" using assms(1) by (simp add: valid_iff)
  ultimately have "al_prev_hash e \<noteq> None" using chained_later by blast
  moreover obtain new where "record_all sha ?kept evs = (e # es) @ new" using record_all_append [of sha ?kept evs] kept by auto
  ultimately show ?thesis by (auto simp: valid_iff cleanup_old_audit_logs_def)
qed

section \<open>The bootstrap user\<close>

text \<open>C23. Whoever registers the configured name first becomes the administrator at the next start: the account is promoted as it is, with the password
  of the registrant, and no account with the configured password is made.\<close>

theorem bootstrap_promotes_squatter:
  assumes "register_user e body db = (Inr p, db1)" "rq_username body = username" "username \<noteq> ''''" "email \<noteq> ''''" "password \<noteq> ''''"
    and "\<forall>u \<in> set (db_users db). u_email u \<noteq> Some email"
  shows "\<exists>u \<in> set (db_users (bootstrap_user e2 (Some username) (Some email) (Some password) db1)). u_username u = Some username \<and> u_is_admin u \<and>
      u_hashed_password u = Some (au_hash e (rq_password body)) \<and>
      length (db_users (bootstrap_user e2 (Some username) (Some email) (Some password) db1)) = length (db_users db1)"
proof -
  obtain dek where db1: "db_users db1 = db_users db @ [new_user e username (rq_email body) (Some (au_hash e (rq_password body))) None dek]"
    and free: "\<forall>u \<in> set (db_users db). u_username u \<noteq> Some username"
    using assms(1,2) signed_in_users
    by (auto simp: register_user_def Let_def find_None_iff auth_event_def audited_def signed_in_def issue_token_pair_def create_refresh_token_def
      split: if_splits option.splits)
  let ?u = "new_user e username (rq_email body) (Some (au_hash e (rq_password body))) None dek"
  have "find (\<lambda>u. u_username u = Some username \<or> u_email u = Some email) (db_users db) = None"
    using free assms(6) by (auto simp: find_None_iff)
  then have found: "find (\<lambda>u. u_username u = Some username \<or> u_email u = Some email) (db_users db1) = Some ?u"
    unfolding db1 by (rule find_append_new) (simp add: new_user_def)
  have "bootstrap_user e2 (Some username) (Some email) (Some password) db1 = set_user (u_id ?u) (\<lambda>u. u\<lparr>u_is_admin := True\<rparr>) db1"
    using found assms(3-5) by (simp add: bootstrap_user_def given_def new_user_def)
  moreover have "?u\<lparr>u_is_admin := True\<rparr> \<in> set (db_users (set_user (u_id ?u) (\<lambda>u. u\<lparr>u_is_admin := True\<rparr>) db1))"
    unfolding set_user_def by (simp add: in_update_where db1)
  ultimately show ?thesis by (intro bexI [of _ "?u\<lparr>u_is_admin := True\<rparr>"]) (simp_all add: new_user_def set_user_def update_where_def)
qed

section \<open>The token cleanup\<close>

lemma find_filter_first: "find P xs = Some x \<Longrightarrow> Q x \<Longrightarrow> find P (filter Q xs) = Some x"
  by (induction xs) (auto split: if_splits)

text \<open>The cleanup of the refresh tokens is invisible: each token gives the same sign-in as before it or none in both cases, and the sessions of a user
  are listed alike.\<close>

theorem token_cleanup_is_invisible:
  assumes "now \<le> au_now e" "distinct (map rt_token (db_refresh_tokens db))"
  shows "(fst (refresh_tokens e token (cleanup_expired_tokens now db)) = Inr p \<longleftrightarrow> fst (refresh_tokens e token db) = Inr p) \<and>
    list_sessions (au_api e) uid (cleanup_expired_tokens now db) = list_sessions (au_api e) uid db"
proof
  let ?live = "\<lambda>r. \<not> (rt_expires_at r < now \<or> rt_revoked r)"
  show "fst (refresh_tokens e token (cleanup_expired_tokens now db)) = Inr p \<longleftrightarrow> fst (refresh_tokens e token db) = Inr p"
  proof (cases "find (\<lambda>r. rt_token r = token \<and> \<not> rt_revoked r) (db_refresh_tokens db)")
    case None
    then have "find (\<lambda>r. rt_token r = token \<and> \<not> rt_revoked r) (filter ?live (db_refresh_tokens db)) = None" by (auto simp: find_None_iff)
    with None show ?thesis by (simp add: refresh_tokens_def cleanup_expired_tokens_def)
  next
    case (Some r)
    then have r: "r \<in> set (db_refresh_tokens db)" "rt_token r = token" "\<not> rt_revoked r" by (auto simp: find_Some_iff in_set_conv_nth)
    show ?thesis
    proof (cases "rt_expires_at r < now")
      case True
      have "find (\<lambda>r. rt_token r = token \<and> \<not> rt_revoked r) (filter ?live (db_refresh_tokens db)) = None"
      proof -
        have "x = r" if "x \<in> set (db_refresh_tokens db)" "rt_token x = token" for x
          using that r assms(2) by (auto simp: distinct_map inj_on_def)
        then show ?thesis using True by (auto simp: find_None_iff)
      qed
      with Some True assms(1) show ?thesis by (simp add: refresh_tokens_def cleanup_expired_tokens_def Let_def)
    next
      case False
      have "find (\<lambda>r. rt_token r = token \<and> \<not> rt_revoked r) (filter ?live (db_refresh_tokens db)) = Some r"
        using Some by (rule find_filter_first) (use False r in simp)
      with Some show ?thesis
        by (simp add: refresh_tokens_def cleanup_expired_tokens_def Let_def signed_in_def issue_token_pair_def create_refresh_token_def)
    qed
  qed
  have "filter (active_session (au_now e) uid) (filter ?live (db_refresh_tokens db)) = filter (active_session (au_now e) uid) (db_refresh_tokens db)"
    using assms(1) by (auto simp: active_session_def intro!: filter_cong)
  then show "list_sessions (au_api e) uid (cleanup_expired_tokens now db) = list_sessions (au_api e) uid db"
    by (simp add: list_sessions_def cleanup_expired_tokens_def)
qed

section \<open>Framing\<close>

text \<open>Only the hosted page of a session that names origins may be framed from outside: every other response forbids framing by other origins twice.\<close>

lemma framing_forbidden:
  assumes "security_headers https path session headers = Some h" "\<not> is_hosted_link_html path \<or> session = None"
  shows "map_of h ''X-Frame-Options'' = Some ''SAMEORIGIN''"
  using assms by (auto simp: security_headers_def frame_ancestors_def Let_def self_ancestor_def split: option.splits if_splits)

section \<open>Examples\<close>

definition sample_audit_event :: audit_event where
  "sample_audit_event = \<lparr>ev_event_type = ''auth'', ev_action = ''login'', ev_user_id = Some 1, ev_agent_id = None, ev_resource = None,
     ev_metadata_json = None, ev_ip_address = None\<rparr>"

definition two_events :: "audit_log list" where
  "two_events = record_all (\<lambda>_. ''h'') [] [(1, ''2020'', sample_audit_event), (2, ''2024'', sample_audit_event)]"

theorem retention_breaks_audit_chain_witness:
  "vr_valid (verify_audit_chain (\<lambda>_. ''h'') two_events) \<and>
   \<not> vr_valid (verify_audit_chain (\<lambda>_. ''h'') (record_all (\<lambda>_. ''h'') (db_audit (cleanup_old_audit_logs (\<lambda>t. t = ''2020'') (empty_db\<lparr>db_audit := two_events\<rparr>)))
     [(3, ''2025'', sample_audit_event)]))"
proof -
  have v: "vr_valid (verify_audit_chain (\<lambda>_. ''h'') two_events)" unfolding two_events_def by (rule record_all_valid) (simp add: valid_iff)
  have t: "map al_timestamp two_events = [''2020'', ''2024'']" by (simp add: two_events_def record_audit_event_def Let_def)
  then have "two_events \<noteq> []" by auto
  then have h: "al_timestamp (hd two_events) = ''2020''" using t hd_map [of two_events al_timestamp] by simp
  have "''2024'' \<in> set (map al_timestamp two_events)" unfolding t by simp
  then have k: "\<exists>e \<in> set two_events. al_timestamp e \<noteq> ''2020''" by force
  show ?thesis
    using v retention_breaks_audit_chain [of "\<lambda>_. ''h''" "empty_db\<lparr>db_audit := two_events\<rparr>" "\<lambda>t. t = ''2020''" "[(3, ''2025'', sample_audit_event)]"] h k
    by simp
qed

theorem bootstrap_promotes_squatter_witness:
  "\<exists>p db1. register_user (sample_auth 1 ''f'' 1) mallory_body ann_db = (Inr p, db1) \<and>
    (\<exists>u \<in> set (db_users (bootstrap_user (sample_auth 2 ''g'' 2) (Some ''mallory'') (Some ''admin@x.org'') (Some ''Admin1!Admin'') db1)).
       u_username u = Some ''mallory'' \<and> u_is_admin u \<and> u_hashed_password u = Some (au_hash (sample_auth 1 ''f'' 1) (rq_password mallory_body)))"
proof -
  obtain p db1 where run: "register_user (sample_auth 1 ''f'' 1) mallory_body ann_db = (Inr p, db1)" using sample_registration by blast
  have "rq_username mallory_body = ''mallory''" "\<forall>u \<in> set (db_users ann_db). u_email u \<noteq> Some ''admin@x.org''"
    by (simp_all add: mallory_body_def ann_db_def ann_def)
  with run bootstrap_promotes_squatter [OF run, of "''mallory''" "''admin@x.org''" "''Admin1!Admin''" "sample_auth 2 ''g'' 2"] show ?thesis by auto
qed

definition two_sessions :: app_db where
  "two_sessions = empty_db\<lparr>db_refresh_tokens := [\<lparr>rt_id = 1, rt_token = ''old'', rt_user_id = 1, rt_expires_at = 1, rt_revoked = False, rt_created_at = 0\<rparr>,
     \<lparr>rt_id = 2, rt_token = ''live'', rt_user_id = 1, rt_expires_at = 9, rt_revoked = False, rt_created_at = 0\<rparr>]\<rparr>"

theorem token_cleanup_is_invisible_witness:
  "fst (refresh_tokens (sample_auth 5 ''f'' 3) ''live'' (cleanup_expired_tokens 5 two_sessions)) = Inr \<lparr>tp_access_token = ''jwt'', tp_refresh_token = ''f'', tp_token_type = ''bearer''\<rparr> \<and>
   list_sessions (au_api (sample_auth 5 ''f'' 3)) 1 (cleanup_expired_tokens 5 two_sessions) = list_sessions (au_api (sample_auth 5 ''f'' 3)) 1 two_sessions"
proof -
  have "fst (refresh_tokens (sample_auth 5 ''f'' 3) ''live'' two_sessions) = Inr \<lparr>tp_access_token = ''jwt'', tp_refresh_token = ''f'', tp_token_type = ''bearer''\<rparr>"
    by (simp add: refresh_tokens_def two_sessions_def signed_in_def issue_token_pair_def create_refresh_token_def create_access_token_def sample_auth_def sample_api_env_def)
  moreover have "(5 :: time) \<le> au_now (sample_auth 5 ''f'' 3)" "distinct (map rt_token (db_refresh_tokens two_sessions))"
    by (simp_all add: sample_auth_def two_sessions_def)
  ultimately show ?thesis using token_cleanup_is_invisible [of 5 "sample_auth 5 ''f'' 3" two_sessions "''live''"] by blast
qed

end
