(* ===== verification/Key_Management.thy ===== *)
theory Key_Management imports Database begin

text \<open>
  \<^verbatim>\<open>src/kms.py\<close> and \<^verbatim>\<open>scripts/migrate_to_kms.py\<close>: the four providers that wrap a data key, the cached provider that
  \<^verbatim>\<open>src/database.py\<close> calls, and the migration of the stored keys from one provider to another.

  The SDKs of AWS, Azure and Vault are arguments: a function that builds a client, and the calls of a client, with their errors. What the theorems use
  of them is \<open>kms_env_ok\<close>: a key that a service has wrapped unwraps under the same key name. A client is built at the first use and kept, so
  every operation returns the provider it leaves. Random bytes are arguments (\<open>r\<close>).
\<close>

section \<open>Errors, clients and the environment\<close>

datatype kms_error = Value_error string | Runtime_error string | Key_rejected key_error | Bad_base64 | Invalid_tag | Service_error string

record aws_client =
  aws_encrypt :: "string \<Rightarrow> string \<Rightarrow> string \<Rightarrow> kms_error + string"
  aws_decrypt :: "string \<Rightarrow> string \<Rightarrow> kms_error + string"
  aws_generate :: "string \<Rightarrow> string \<Rightarrow> kms_error + string \<times> string"
  aws_enable_rotation :: "string \<Rightarrow> kms_error option"
  aws_describe_key :: "string \<Rightarrow> kms_error + string"

record azure_client =
  az_wrap :: "string \<Rightarrow> string \<Rightarrow> kms_error + string"
  az_unwrap :: "string \<Rightarrow> kms_error + string"

record vault_client =
  hv_encrypt_data :: "string \<Rightarrow> string \<Rightarrow> string \<Rightarrow> kms_error + string"
  hv_decrypt_data :: "string \<Rightarrow> string \<Rightarrow> kms_error + string"
  hv_generate :: "string \<Rightarrow> string \<Rightarrow> kms_error + string \<times> string"
  hv_rotate :: "string \<Rightarrow> kms_error option"
  hv_is_authenticated :: "kms_error + bool"

record kms_settings =
  set_kms_provider :: string
  set_kms_key_id :: "string option"
  set_kms_region :: "string option"

text \<open>A package that is not installed is \<open>None\<close>; settings that do not load are an error; \<open>km_text\<close> is \<^verbatim>\<open>str\<close> of an exception.\<close>

record kms_env =
  km_ciphers :: ciphers
  km_keys :: key_settings
  km_settings :: "kms_error + kms_settings"
  km_environ :: "string \<Rightarrow> string option"
  km_boto3 :: "(string \<Rightarrow> kms_error + aws_client) option"
  km_azure :: "(string \<Rightarrow> string \<Rightarrow> kms_error + azure_client) option"
  km_hvac :: "(string \<Rightarrow> string \<Rightarrow> kms_error + vault_client) option"
  km_text :: "kms_error \<Rightarrow> string"

definition env_get :: "kms_env \<Rightarrow> string \<Rightarrow> string \<Rightarrow> string" where
  "env_get E name dflt = (case km_environ E name of Some v \<Rightarrow> v | None \<Rightarrow> dflt)"

fun first_given :: "string option list \<Rightarrow> string \<Rightarrow> string" where
  "first_given [] d = d"
| "first_given (None # vs) d = first_given vs d"
| "first_given (Some v # vs) d = (if v \<noteq> '''' then v else first_given vs d)"

text \<open>\<open>_get_client\<close> of each class: the kept client, or a new one that is kept.\<close>

definition cached_client :: "'c option \<Rightarrow> kms_error + 'c \<Rightarrow> (kms_error + 'c) \<times> 'c option" where
  "cached_client slot build =
     (case slot of Some c \<Rightarrow> (Inr c, slot) | None \<Rightarrow> (case build of Inl e \<Rightarrow> (Inl e, None) | Inr c \<Rightarrow> (Inr c, Some c)))"

definition on_client :: "('p \<Rightarrow> (kms_error + 'c) \<times> 'p) \<Rightarrow> ('c \<Rightarrow> kms_error + 'a) \<Rightarrow> 'p \<Rightarrow> (kms_error + 'a) \<times> 'p" where
  "on_client get f p = (case get p of (Inl e, q) \<Rightarrow> (Inl e, q) | (Inr c, q) \<Rightarrow> (f c, q))"

definition std_b64_decode :: "string \<Rightarrow> kms_error + string" where
  "std_b64_decode t = (case b64_decode (filter (\<lambda>c. c \<noteq> CHR ''-'' \<and> c \<noteq> CHR ''_'') t) of None \<Rightarrow> Inl Bad_base64 | Some b \<Rightarrow> Inr b)"

definition url_b64_decode :: "string \<Rightarrow> kms_error + string" where
  "url_b64_decode t = (case b64_decode t of None \<Rightarrow> Inl Bad_base64 | Some b \<Rightarrow> Inr b)"

definition sum_bind :: "kms_error + 'a \<Rightarrow> ('a \<Rightarrow> kms_error + 'b) \<Rightarrow> kms_error + 'b" where
  "sum_bind x f = (case x of Inl e \<Rightarrow> Inl e | Inr a \<Rightarrow> f a)"

section \<open>The local provider\<close>

definition get_aesgcm :: "kms_env \<Rightarrow> kms_error + string" where
  "get_aesgcm E = (case get_encryption_key (km_keys E) of Inl e \<Rightarrow> Inl (Key_rejected e) | Inr key \<Rightarrow> Inr key)"

definition local_wrap_key :: "kms_env \<Rightarrow> string \<Rightarrow> string \<Rightarrow> kms_error + string" where
  "local_wrap_key E nonce plaintext_key = sum_bind (get_aesgcm E) (\<lambda>key. Inr (seal (km_ciphers E) key nonce plaintext_key))"

definition local_unwrap_key :: "kms_env \<Rightarrow> string \<Rightarrow> kms_error + string" where
  "local_unwrap_key E wrapped_key =
     sum_bind (url_b64_decode wrapped_key) (\<lambda>raw. sum_bind (get_aesgcm E) (\<lambda>key.
       case open_raw (km_ciphers E) key raw of None \<Rightarrow> Inl Invalid_tag | Some k \<Rightarrow> Inr k))"

definition local_generate_data_key :: "kms_env \<Rightarrow> string \<Rightarrow> string \<Rightarrow> kms_error + string \<times> string" where
  "local_generate_data_key E nonce random32 = sum_bind (local_wrap_key E nonce random32) (\<lambda>w. Inr (random32, w))"

definition local_rotate_master_key :: string where
  "local_rotate_master_key = ''Local provider: set ENCRYPTION_KEY_PREVIOUS to old key, update ENCRYPTION_KEY, then re-wrap all DEKs.''"

definition unhealthy :: "kms_env \<Rightarrow> string \<Rightarrow> kms_error \<Rightarrow> (string, string) dict" where
  "unhealthy E provider e = [(''provider'', provider), (''status'', ''unhealthy''), (''error'', km_text E e)]"

definition local_health_check :: "kms_env \<Rightarrow> string \<Rightarrow> string \<Rightarrow> (string, string) dict" where
  "local_health_check E nonce test =
     (case sum_bind (local_wrap_key E nonce test) (local_unwrap_key E) of
        Inl e \<Rightarrow> unhealthy E ''local'' e
      | Inr unwrapped \<Rightarrow> [(''provider'', ''local''), (''status'', if test = unwrapped then ''healthy'' else ''degraded'')])"

section \<open>AWS\<close>

record aws_provider =
  ap_key_id :: string
  ap_region :: string
  ap_client :: "aws_client option"

definition aws_init :: "kms_env \<Rightarrow> string option \<Rightarrow> string option \<Rightarrow> kms_error + aws_provider" where
  "aws_init E key_id region =
     sum_bind (km_settings E) (\<lambda>settings.
       let key = first_given [key_id, set_kms_key_id settings] (env_get E ''KMS_AWS_KEY_ID'' '''');
           reg = first_given [region, set_kms_region settings] (env_get E ''AWS_DEFAULT_REGION'' ''us-east-1'')
       in if key = '''' then Inl (Value_error ''AWS KMS requires KMS_KEY_ID (or KMS_AWS_KEY_ID) environment variable (CMK ARN or alias). See docs/KMS_INTEGRATION.md for setup.'')
          else Inr \<lparr>ap_key_id = key, ap_region = reg, ap_client = None\<rparr>)"

definition aws_build :: "kms_env \<Rightarrow> string \<Rightarrow> kms_error + aws_client" where
  "aws_build E region =
     (case km_boto3 E of
        None \<Rightarrow> Inl (Runtime_error ''boto3 is required for AWS KMS. Install with: pip install boto3'')
      | Some client \<Rightarrow> client region)"

definition aws_get_client :: "kms_env \<Rightarrow> aws_provider \<Rightarrow> (kms_error + aws_client) \<times> aws_provider" where
  "aws_get_client E p = apsnd (\<lambda>slot. p\<lparr>ap_client := slot\<rparr>) (cached_client (ap_client p) (aws_build E (ap_region p)))"

definition aws_wrap_key :: "kms_env \<Rightarrow> string \<Rightarrow> string \<Rightarrow> aws_provider \<Rightarrow> (kms_error + string) \<times> aws_provider" where
  "aws_wrap_key E r plaintext_key p =
     on_client (aws_get_client E) (\<lambda>c. sum_bind (aws_encrypt c r (ap_key_id p) plaintext_key) (\<lambda>blob. Inr (b64_encode blob))) p"

definition aws_unwrap_key :: "kms_env \<Rightarrow> string \<Rightarrow> aws_provider \<Rightarrow> (kms_error + string) \<times> aws_provider" where
  "aws_unwrap_key E wrapped_key p =
     on_client (aws_get_client E) (\<lambda>c. sum_bind (url_b64_decode wrapped_key) (\<lambda>blob. aws_decrypt c blob (ap_key_id p))) p"

definition aws_generate_data_key :: "kms_env \<Rightarrow> string \<Rightarrow> aws_provider \<Rightarrow> (kms_error + string \<times> string) \<times> aws_provider" where
  "aws_generate_data_key E r p =
     on_client (aws_get_client E) (\<lambda>c. sum_bind (aws_generate c r (ap_key_id p)) (\<lambda>(plaintext, blob). Inr (plaintext, b64_encode blob))) p"

definition aws_rotate_master_key :: "kms_env \<Rightarrow> aws_provider \<Rightarrow> (kms_error + string) \<times> aws_provider" where
  "aws_rotate_master_key E p =
     on_client (aws_get_client E) (\<lambda>c. case aws_enable_rotation c (ap_key_id p) of
        Some e \<Rightarrow> Inl e
      | None \<Rightarrow> Inr (''AWS KMS automatic rotation enabled for key '' @ ap_key_id p)) p"

definition aws_health_check :: "kms_env \<Rightarrow> aws_provider \<Rightarrow> (string, string) dict \<times> aws_provider" where
  "aws_health_check E p =
     (case on_client (aws_get_client E) (\<lambda>c. aws_describe_key c (ap_key_id p)) p of
        (Inl e, q) \<Rightarrow> (unhealthy E ''aws-kms'' e, q)
      | (Inr st, q) \<Rightarrow>
          ([(''provider'', ''aws-kms''), (''status'', if st = ''Enabled'' then ''healthy'' else ''degraded''), (''key_state'', st),
            (''key_id'', ap_key_id p)], q))"

section \<open>Azure Key Vault\<close>

record azure_provider =
  zp_vault_url :: string
  zp_key_name :: string
  zp_client :: "azure_client option"

definition azure_init :: "kms_env \<Rightarrow> string option \<Rightarrow> string option \<Rightarrow> kms_error + azure_provider" where
  "azure_init E vault_url key_name =
     (let url = first_given [vault_url] (env_get E ''KMS_AZURE_VAULT_URL'' '''');
          name = first_given [key_name] (env_get E ''KMS_AZURE_KEY_NAME'' ''plaidify-master'')
      in if url = '''' then Inl (Value_error ''Azure Key Vault requires KMS_AZURE_VAULT_URL environment variable (e.g. https://myvault.vault.azure.net/). See docs/DEPLOYMENT.md for setup.'')
         else Inr \<lparr>zp_vault_url = url, zp_key_name = name, zp_client = None\<rparr>)"

definition azure_build :: "kms_env \<Rightarrow> string \<Rightarrow> string \<Rightarrow> kms_error + azure_client" where
  "azure_build E vault_url key_name =
     (case km_azure E of
        None \<Rightarrow> Inl (Runtime_error ''azure-keyvault-keys and azure-identity are required. Install with: pip install azure-keyvault-keys azure-identity'')
      | Some client \<Rightarrow> client vault_url key_name)"

definition azure_get_client :: "kms_env \<Rightarrow> azure_provider \<Rightarrow> (kms_error + azure_client) \<times> azure_provider" where
  "azure_get_client E p = apsnd (\<lambda>slot. p\<lparr>zp_client := slot\<rparr>) (cached_client (zp_client p) (azure_build E (zp_vault_url p) (zp_key_name p)))"

definition azure_wrap_key :: "kms_env \<Rightarrow> string \<Rightarrow> string \<Rightarrow> azure_provider \<Rightarrow> (kms_error + string) \<times> azure_provider" where
  "azure_wrap_key E r plaintext_key p =
     on_client (azure_get_client E) (\<lambda>c. sum_bind (az_wrap c r plaintext_key) (\<lambda>encrypted_key. Inr (b64_encode encrypted_key))) p"

definition azure_unwrap_key :: "kms_env \<Rightarrow> string \<Rightarrow> azure_provider \<Rightarrow> (kms_error + string) \<times> azure_provider" where
  "azure_unwrap_key E wrapped_key p = on_client (azure_get_client E) (\<lambda>c. sum_bind (url_b64_decode wrapped_key) (az_unwrap c)) p"

definition azure_generate_data_key :: "kms_env \<Rightarrow> string \<Rightarrow> string \<Rightarrow> azure_provider \<Rightarrow> (kms_error + string \<times> string) \<times> azure_provider" where
  "azure_generate_data_key E r random32 p = apfst (\<lambda>x. sum_bind x (\<lambda>w. Inr (random32, w))) (azure_wrap_key E r random32 p)"

definition azure_rotate_master_key :: "azure_provider \<Rightarrow> string" where
  "azure_rotate_master_key p =
     ''Azure Key Vault: create a new version of key '' @ CHR 0x27 # zp_key_name p @ CHR 0x27 # '' in vault '' @ zp_vault_url p @
     ''. Old versions remain accessible for unwrapping.''"

definition azure_health_check :: "kms_env \<Rightarrow> azure_provider \<Rightarrow> (string, string) dict \<times> azure_provider" where
  "azure_health_check E p =
     (case azure_get_client E p of
        (Inl e, q) \<Rightarrow> (unhealthy E ''azure-keyvault'' e, q)
      | (Inr c, q) \<Rightarrow>
          ([(''provider'', ''azure-keyvault''), (''status'', ''healthy''), (''vault_url'', zp_vault_url p), (''key_name'', zp_key_name p)], q))"

section \<open>HashiCorp Vault\<close>

record vault_provider =
  vp_addr :: string
  vp_token :: string
  vp_key_name :: string
  vp_client :: "vault_client option"

definition vault_init :: "kms_env \<Rightarrow> string option \<Rightarrow> string option \<Rightarrow> string option \<Rightarrow> kms_error + vault_provider" where
  "vault_init E vault_addr token key_name =
     (let addr = first_given [vault_addr] (env_get E ''KMS_VAULT_ADDR'' ''http://127.0.0.1:8200'');
          tok = first_given [token] (env_get E ''KMS_VAULT_TOKEN'' '''');
          name = first_given [key_name] (env_get E ''KMS_VAULT_KEY_NAME'' ''plaidify-master'')
      in if tok = '''' then Inl (Value_error ''HashiCorp Vault requires KMS_VAULT_TOKEN environment variable. See docs/DEPLOYMENT.md for setup.'')
         else Inr \<lparr>vp_addr = addr, vp_token = tok, vp_key_name = name, vp_client = None\<rparr>)"

definition vault_build :: "kms_env \<Rightarrow> string \<Rightarrow> string \<Rightarrow> kms_error + vault_client" where
  "vault_build E vault_addr token =
     (case km_hvac E of
        None \<Rightarrow> Inl (Runtime_error ''hvac is required for HashiCorp Vault. Install with: pip install hvac'')
      | Some client \<Rightarrow> client vault_addr token)"

definition vault_get_client :: "kms_env \<Rightarrow> vault_provider \<Rightarrow> (kms_error + vault_client) \<times> vault_provider" where
  "vault_get_client E p = apsnd (\<lambda>slot. p\<lparr>vp_client := slot\<rparr>) (cached_client (vp_client p) (vault_build E (vp_addr p) (vp_token p)))"

definition vault_wrap_key :: "kms_env \<Rightarrow> string \<Rightarrow> string \<Rightarrow> vault_provider \<Rightarrow> (kms_error + string) \<times> vault_provider" where
  "vault_wrap_key E r plaintext_key p =
     on_client (vault_get_client E) (\<lambda>c. hv_encrypt_data c r (vp_key_name p) (std_b64_encode plaintext_key)) p"

definition vault_unwrap_key :: "kms_env \<Rightarrow> string \<Rightarrow> vault_provider \<Rightarrow> (kms_error + string) \<times> vault_provider" where
  "vault_unwrap_key E wrapped_key p =
     on_client (vault_get_client E) (\<lambda>c. sum_bind (hv_decrypt_data c (vp_key_name p) wrapped_key) std_b64_decode) p"

definition vault_generate_data_key :: "kms_env \<Rightarrow> string \<Rightarrow> vault_provider \<Rightarrow> (kms_error + string \<times> string) \<times> vault_provider" where
  "vault_generate_data_key E r p =
     on_client (vault_get_client E) (\<lambda>c. sum_bind (hv_generate c r (vp_key_name p)) (\<lambda>(plain, ciphertext).
       sum_bind (std_b64_decode plain) (\<lambda>plaintext. Inr (plaintext, ciphertext)))) p"

definition vault_rotate_master_key :: "kms_env \<Rightarrow> vault_provider \<Rightarrow> (kms_error + string) \<times> vault_provider" where
  "vault_rotate_master_key E p =
     on_client (vault_get_client E) (\<lambda>c. case hv_rotate c (vp_key_name p) of
        Some e \<Rightarrow> Inl e
      | None \<Rightarrow> Inr (''Vault Transit key '' @ CHR 0x27 # vp_key_name p @ CHR 0x27 # '' rotated. Old versions retained for decryption.'')) p"

definition vault_health_check :: "kms_env \<Rightarrow> vault_provider \<Rightarrow> (string, string) dict \<times> vault_provider" where
  "vault_health_check E p =
     (case on_client (vault_get_client E) hv_is_authenticated p of
        (Inl e, q) \<Rightarrow> (unhealthy E ''hashicorp-vault'' e, q)
      | (Inr True, q) \<Rightarrow>
          ([(''provider'', ''hashicorp-vault''), (''status'', ''healthy''), (''vault_addr'', vp_addr p), (''key_name'', vp_key_name p)], q)
      | (Inr False, q) \<Rightarrow> ([(''provider'', ''hashicorp-vault''), (''status'', ''unhealthy''), (''error'', ''Not authenticated'')], q))"

section \<open>The configured provider\<close>

datatype kms_provider = is_local: Local_provider | AWS_provider aws_provider | Azure_provider azure_provider | Vault_provider vault_provider

definition new_provider :: "kms_env \<Rightarrow> string \<Rightarrow> (kms_error + kms_provider) option" where
  "new_provider E name =
     (if name = ''local'' then Some (Inr Local_provider)
      else if name = ''aws'' then Some (map_sum id AWS_provider (aws_init E None None))
      else if name = ''azure'' then Some (map_sum id Azure_provider (azure_init E None None))
      else if name = ''vault'' then Some (map_sum id Vault_provider (vault_init E None None None))
      else None)"

text \<open>\<open>_provider_instance\<close> is the second argument and part of the result. The error names the provider; its quotes are those of a plain name.\<close>

definition get_kms_provider :: "kms_env \<Rightarrow> string option \<Rightarrow> kms_provider option \<Rightarrow> (kms_error + kms_provider) \<times> kms_provider option" where
  "get_kms_provider E provider_name instance_cache =
     (case (instance_cache, provider_name) of
        (Some p, None) \<Rightarrow> (Inr p, instance_cache)
      | _ \<Rightarrow>
          let name = (case provider_name of
                        Some n \<Rightarrow> n
                      | None \<Rightarrow> (case km_settings E of Inr st \<Rightarrow> set_kms_provider st | Inl _ \<Rightarrow> env_get E ''KMS_PROVIDER'' ''local''));
              name = py_lower (if name = '''' then ''local'' else name)
          in (case new_provider E name of
                None \<Rightarrow> (Inl (Value_error (''Unknown KMS provider: '' @ CHR 0x27 # name @ CHR 0x27 # ''. Available: local, aws, azure, vault'')), instance_cache)
              | Some (Inl e) \<Rightarrow> (Inl e, instance_cache)
              | Some (Inr p) \<Rightarrow> (Inr p, if provider_name = None then Some p else instance_cache)))"

definition reset_kms_provider :: "kms_provider option \<Rightarrow> kms_provider option" where
  "reset_kms_provider instance_cache = None"

definition wrap_key :: "kms_env \<Rightarrow> string \<Rightarrow> string \<Rightarrow> kms_provider \<Rightarrow> (kms_error + string) \<times> kms_provider" where
  "wrap_key E r k p =
     (case p of
        Local_provider \<Rightarrow> (local_wrap_key E r k, p)
      | AWS_provider a \<Rightarrow> apsnd AWS_provider (aws_wrap_key E r k a)
      | Azure_provider z \<Rightarrow> apsnd Azure_provider (azure_wrap_key E r k z)
      | Vault_provider v \<Rightarrow> apsnd Vault_provider (vault_wrap_key E r k v))"

definition unwrap_key :: "kms_env \<Rightarrow> string \<Rightarrow> kms_provider \<Rightarrow> (kms_error + string) \<times> kms_provider" where
  "unwrap_key E w p =
     (case p of
        Local_provider \<Rightarrow> (local_unwrap_key E w, p)
      | AWS_provider a \<Rightarrow> apsnd AWS_provider (aws_unwrap_key E w a)
      | Azure_provider z \<Rightarrow> apsnd Azure_provider (azure_unwrap_key E w z)
      | Vault_provider v \<Rightarrow> apsnd Vault_provider (vault_unwrap_key E w v))"

definition health_check :: "kms_env \<Rightarrow> string \<Rightarrow> string \<Rightarrow> kms_provider \<Rightarrow> (string, string) dict \<times> kms_provider" where
  "health_check E nonce test p =
     (case p of
        Local_provider \<Rightarrow> (local_health_check E nonce test, p)
      | AWS_provider a \<Rightarrow> apsnd AWS_provider (aws_health_check E a)
      | Azure_provider z \<Rightarrow> apsnd Azure_provider (azure_health_check E z)
      | Vault_provider v \<Rightarrow> apsnd Vault_provider (vault_health_check E v))"

definition rotate_provider_key :: "kms_env \<Rightarrow> kms_provider \<Rightarrow> (kms_error + string) \<times> kms_provider" where
  "rotate_provider_key E p =
     (case p of
        Local_provider \<Rightarrow> (Inr local_rotate_master_key, p)
      | AWS_provider a \<Rightarrow> apsnd AWS_provider (aws_rotate_master_key E a)
      | Azure_provider z \<Rightarrow> (Inr (azure_rotate_master_key z), p)
      | Vault_provider v \<Rightarrow> apsnd Vault_provider (vault_rotate_master_key E v))"

definition generate_data_key :: "kms_env \<Rightarrow> string \<Rightarrow> string \<Rightarrow> kms_provider \<Rightarrow> (kms_error + string \<times> string) \<times> kms_provider" where
  "generate_data_key E r random32 p =
     (case p of
        Local_provider \<Rightarrow> (local_generate_data_key E r random32, p)
      | AWS_provider a \<Rightarrow> apsnd AWS_provider (aws_generate_data_key E r a)
      | Azure_provider z \<Rightarrow> apsnd Azure_provider (azure_generate_data_key E r random32 z)
      | Vault_provider v \<Rightarrow> apsnd Vault_provider (vault_generate_data_key E r v))"

text \<open>\<^verbatim>\<open>wrap_dek\<close> and \<^verbatim>\<open>unwrap_dek\<close> of \<^verbatim>\<open>src/database.py\<close> over the cached provider; \<open>f\<close> is what they do with it.\<close>

definition with_provider :: "kms_env \<Rightarrow> (kms_provider \<Rightarrow> (kms_error + string) \<times> kms_provider) \<Rightarrow> kms_provider option
    \<Rightarrow> (kms_error + string) \<times> kms_provider option" where
  "with_provider E f instance_cache =
     (case get_kms_provider E None instance_cache of
        (Inl e, c) \<Rightarrow> (Inl e, c)
      | (Inr p, c) \<Rightarrow> apsnd Some (f p))"

definition dek_wrap :: "kms_env \<Rightarrow> string \<Rightarrow> string \<Rightarrow> kms_provider option \<Rightarrow> (kms_error + string) \<times> kms_provider option" where
  "dek_wrap E r dek = with_provider E (wrap_key E r dek)"

definition open_with_previous :: "kms_env \<Rightarrow> string \<Rightarrow> kms_error \<Rightarrow> kms_error + string" where
  "open_with_previous E wrapped_dek e =
     (case encryption_key_previous (km_keys E) of
        None \<Rightarrow> Inl e
      | Some prev \<Rightarrow>
          if prev = '''' then Inl e
          else sum_bind (url_b64_decode wrapped_dek) (\<lambda>raw. sum_bind (url_b64_decode prev) (\<lambda>prev_bytes.
                 if aes_key prev_bytes
                 then (case open_raw (km_ciphers E) prev_bytes raw of None \<Rightarrow> Inl Invalid_tag | Some k \<Rightarrow> Inr k)
                 else Inl (Value_error ''AESGCM key must be 128, 192, or 256 bits.''))))"

definition dek_unwrap :: "kms_env \<Rightarrow> string \<Rightarrow> kms_provider option \<Rightarrow> (kms_error + string) \<times> kms_provider option" where
  "dek_unwrap E wrapped_dek =
     with_provider E (\<lambda>p.
       case unwrap_key E wrapped_dek p of
         (Inr k, q) \<Rightarrow> (Inr k, q)
       | (Inl e, q) \<Rightarrow> (if is_local p then open_with_previous E wrapped_dek e else Inl e, q))"

section \<open>What a key service promises\<close>

text \<open>An operation on a service: wrapping a key with given random bytes, or unwrapping.\<close>

datatype key_use = Wrap string string | Unwrap string

fun use_key :: "(string \<Rightarrow> string \<Rightarrow> 'p \<Rightarrow> (kms_error + string) \<times> 'p) \<Rightarrow> (string \<Rightarrow> 'p \<Rightarrow> (kms_error + string) \<times> 'p) \<Rightarrow> key_use \<Rightarrow> 'p
    \<Rightarrow> (kms_error + string) \<times> 'p" where
  "use_key wrap unwrap (Wrap r k) p = wrap r k p"
| "use_key wrap unwrap (Unwrap w) p = unwrap w p"

fun key_answers :: "(key_use \<Rightarrow> 'p \<Rightarrow> (kms_error + string) \<times> 'p) \<Rightarrow> key_use list \<Rightarrow> 'p \<Rightarrow> (kms_error + string) list \<times> 'p" where
  "key_answers f [] p = ([], p)"
| "key_answers f (u # us) p = (case f u p of (a, q) \<Rightarrow> apfst (Cons a) (key_answers f us q))"

text \<open>\<open>same p q\<close>: the same key of the same service, whatever of the client is built. The answers do not depend on what is built, and a wrapped key
  unwraps.\<close>

locale key_service =
  fixes wrap :: "string \<Rightarrow> string \<Rightarrow> 'p \<Rightarrow> (kms_error + string) \<times> 'p"
    and unwrap :: "string \<Rightarrow> 'p \<Rightarrow> (kms_error + string) \<times> 'p"
    and same :: "'p \<Rightarrow> 'p \<Rightarrow> bool"
  assumes same_wrap: "same p q \<Longrightarrow> same p (snd (wrap r k q))"
    and same_unwrap: "same p q \<Longrightarrow> same p (snd (unwrap w q))"
    and wrap_alike: "same p q \<Longrightarrow> fst (wrap r k q) = fst (wrap r k p)"
    and unwrap_alike: "same p q \<Longrightarrow> fst (unwrap w q) = fst (unwrap w p)"
    and unwrap_wrapped: "same p p \<Longrightarrow> length r = GCM_NONCE_BYTES \<Longrightarrow> fst (wrap r k p) = Inr w \<Longrightarrow> fst (unwrap w p) = Inr k"
begin

lemma same_use: "same p q \<Longrightarrow> same p (snd (use_key wrap unwrap u q))"
  by (cases u) (simp_all add: same_wrap same_unwrap)

lemma use_alike: "same p q \<Longrightarrow> fst (use_key wrap unwrap u q) = fst (use_key wrap unwrap u p)"
  by (cases u) (simp_all add: wrap_alike unwrap_alike)

lemma same_after: "same p q \<Longrightarrow> same p (snd (key_answers (use_key wrap unwrap) us q))"
  by (induction us arbitrary: q) (auto simp: case_prod_beta intro: same_use)

lemma answers_plain:
  "same p q \<Longrightarrow> fst (key_answers (use_key wrap unwrap) us q) = map (\<lambda>u. fst (use_key wrap unwrap u p)) us"
  by (induction us arbitrary: q) (auto simp: case_prod_beta use_alike same_use)

lemma unwraps_later:
  assumes "same p p" "length r = GCM_NONCE_BYTES" "wrap r k p = (Inr w, q)"
  shows "fst (unwrap w (snd (key_answers (use_key wrap unwrap) us q))) = Inr k"
proof -
  have "same p q" using same_wrap [OF assms(1), of r k] assms(3) by simp
  then show ?thesis using unwrap_alike [OF same_after] unwrap_wrapped [OF assms(1,2)] assms(3) by simp
qed

end

section \<open>The providers keep the promise\<close>

definition aws_ok :: "aws_client \<Rightarrow> bool" where
  "aws_ok c \<longleftrightarrow> (\<forall>r key k blob. aws_encrypt c r key k = Inr blob \<longrightarrow> aws_decrypt c blob key = Inr k)"

definition azure_ok :: "azure_client \<Rightarrow> bool" where
  "azure_ok c \<longleftrightarrow> (\<forall>r k w. az_wrap c r k = Inr w \<longrightarrow> az_unwrap c w = Inr k)"

definition vault_ok :: "vault_client \<Rightarrow> bool" where
  "vault_ok c \<longleftrightarrow> (\<forall>r key k w. hv_encrypt_data c r key k = Inr w \<longrightarrow> hv_decrypt_data c key w = Inr k)"

definition kms_env_ok :: "kms_env \<Rightarrow> bool" where
  "kms_env_ok E \<longleftrightarrow> aead_ok (km_ciphers E) \<and> (\<forall>region c. aws_build E region = Inr c \<longrightarrow> aws_ok c) \<and>
     (\<forall>vault_url name c. azure_build E vault_url name = Inr c \<longrightarrow> azure_ok c) \<and> (\<forall>addr token c. vault_build E addr token = Inr c \<longrightarrow> vault_ok c)"

lemma sum_bind_simps [simp]: "sum_bind (Inl e) f = Inl e" "sum_bind (Inr a) f = f a"
  by (simp_all add: sum_bind_def)

lemma sum_bind_Inr: "sum_bind x f = Inr b \<longleftrightarrow> (\<exists>a. x = Inr a \<and> f a = Inr b)"
  by (cases x) simp_all

lemma url_b64_roundtrip [simp]: "url_b64_decode (b64_encode bytes) = Inr bytes"
  by (simp add: url_b64_decode_def)

lemma std_b64_roundtrip [simp]: "std_b64_decode (std_b64_encode bytes) = Inr bytes"
proof -
  have "filter (\<lambda>c. c \<noteq> CHR ''-'' \<and> c \<noteq> CHR ''_'') (map std_char t) = map std_char t" for t
    by (induction t) (simp_all add: std_char_value)
  then show ?thesis by (simp add: std_b64_decode_def std_b64_encode_def b64_decode_def b64_loop_std b64_loop_encode)
qed

definition slot_current :: "'c option \<Rightarrow> kms_error + 'c \<Rightarrow> bool" where
  "slot_current slot build \<longleftrightarrow> (case slot of None \<Rightarrow> True | Some c \<Rightarrow> build = Inr c)"

lemma cached_client_alike [simp]: "slot_current slot build \<Longrightarrow> fst (cached_client slot build) = build"
  by (auto simp: slot_current_def cached_client_def split: option.splits sum.splits)

lemma cached_client_current [simp]: "slot_current slot build \<Longrightarrow> slot_current (snd (cached_client slot build)) build"
  by (auto simp: slot_current_def cached_client_def split: option.splits sum.splits)

lemma fst_on_client [simp]: "fst (on_client get f p) = sum_bind (fst (get p)) f"
  by (simp add: on_client_def case_prod_beta split: sum.split)

lemma snd_on_client [simp]: "snd (on_client get f p) = snd (get p)"
  by (simp add: on_client_def case_prod_beta split: sum.split)

definition aws_same :: "kms_env \<Rightarrow> aws_provider \<Rightarrow> aws_provider \<Rightarrow> bool" where
  "aws_same E p q \<longleftrightarrow> kms_env_ok E \<and> ap_key_id q = ap_key_id p \<and> ap_region q = ap_region p \<and>
     slot_current (ap_client p) (aws_build E (ap_region p)) \<and> slot_current (ap_client q) (aws_build E (ap_region q))"

definition azure_same :: "kms_env \<Rightarrow> azure_provider \<Rightarrow> azure_provider \<Rightarrow> bool" where
  "azure_same E p q \<longleftrightarrow> kms_env_ok E \<and> zp_vault_url q = zp_vault_url p \<and> zp_key_name q = zp_key_name p \<and>
     slot_current (zp_client p) (azure_build E (zp_vault_url p) (zp_key_name p)) \<and> slot_current (zp_client q) (azure_build E (zp_vault_url q) (zp_key_name q))"

definition vault_same :: "kms_env \<Rightarrow> vault_provider \<Rightarrow> vault_provider \<Rightarrow> bool" where
  "vault_same E p q \<longleftrightarrow> kms_env_ok E \<and> vp_addr q = vp_addr p \<and> vp_token q = vp_token p \<and> vp_key_name q = vp_key_name p \<and>
     slot_current (vp_client p) (vault_build E (vp_addr p) (vp_token p)) \<and> slot_current (vp_client q) (vault_build E (vp_addr q) (vp_token q))"

lemmas aws_service = aws_same_def aws_wrap_key_def aws_unwrap_key_def aws_get_client_def kms_env_ok_def aws_ok_def
lemmas azure_service = azure_same_def azure_wrap_key_def azure_unwrap_key_def azure_get_client_def kms_env_ok_def azure_ok_def
lemmas vault_service = vault_same_def vault_wrap_key_def vault_unwrap_key_def vault_get_client_def kms_env_ok_def vault_ok_def

interpretation aws_kms: key_service "aws_wrap_key E" "aws_unwrap_key E" "aws_same E" for E
  by unfold_locales (auto simp: aws_service sum_bind_Inr)

interpretation azure_kms: key_service "azure_wrap_key E" "azure_unwrap_key E" "azure_same E" for E
  by unfold_locales (auto simp: azure_service sum_bind_Inr)

interpretation vault_kms: key_service "vault_wrap_key E" "vault_unwrap_key E" "vault_same E" for E
  by unfold_locales (auto simp: vault_service sum_bind_Inr)

fun provider_same :: "kms_env \<Rightarrow> kms_provider \<Rightarrow> kms_provider \<Rightarrow> bool" where
  "provider_same E Local_provider q = (kms_env_ok E \<and> q = Local_provider)"
| "provider_same E (AWS_provider a) q = (case q of AWS_provider b \<Rightarrow> aws_same E a b | _ \<Rightarrow> False)"
| "provider_same E (Azure_provider a) q = (case q of Azure_provider b \<Rightarrow> azure_same E a b | _ \<Rightarrow> False)"
| "provider_same E (Vault_provider a) q = (case q of Vault_provider b \<Rightarrow> vault_same E a b | _ \<Rightarrow> False)"

lemma local_unwraps:
  assumes "kms_env_ok E" "length r = GCM_NONCE_BYTES" "local_wrap_key E r k = Inr w"
  shows "local_unwrap_key E w = Inr k"
proof -
  obtain key where key: "get_encryption_key (km_keys E) = Inr key" "w = seal (km_ciphers E) key r k"
    using assms(3) by (auto simp: local_wrap_key_def get_aesgcm_def split: sum.splits)
  then show ?thesis using assms(1,2) key_is_32 [OF key(1)]
    by (simp add: local_unwrap_key_def get_aesgcm_def seal_decode url_b64_decode_def open_raw_seal kms_env_ok_def)
qed

lemma provider_cases_same:
  assumes "provider_same E p q"
  obtains "kms_env_ok E" "p = Local_provider" "q = Local_provider"
    | a b where "p = AWS_provider a" "q = AWS_provider b" "aws_same E a b"
    | a b where "p = Azure_provider a" "q = Azure_provider b" "azure_same E a b"
    | a b where "p = Vault_provider a" "q = Vault_provider b" "vault_same E a b"
  using assms by (cases p; cases q) auto

lemmas provider_op = wrap_key_def unwrap_key_def

interpretation kms: key_service "wrap_key E" "unwrap_key E" "provider_same E" for E
proof unfold_locales
  show "provider_same E p (snd (wrap_key E r k q))" if "provider_same E p q" for p q r k
    using that by (cases rule: provider_cases_same) (simp_all add: provider_op aws_kms.same_wrap azure_kms.same_wrap vault_kms.same_wrap)
  show "provider_same E p (snd (unwrap_key E w q))" if "provider_same E p q" for p q w
    using that by (cases rule: provider_cases_same) (simp_all add: provider_op aws_kms.same_unwrap azure_kms.same_unwrap vault_kms.same_unwrap)
  show "fst (wrap_key E r k q) = fst (wrap_key E r k p)" if "provider_same E p q" for p q r k
    using that by (cases rule: provider_cases_same) (simp_all add: provider_op aws_kms.wrap_alike azure_kms.wrap_alike vault_kms.wrap_alike)
  show "fst (unwrap_key E w q) = fst (unwrap_key E w p)" if "provider_same E p q" for p q w
    using that by (cases rule: provider_cases_same) (simp_all add: provider_op aws_kms.unwrap_alike azure_kms.unwrap_alike vault_kms.unwrap_alike)
  show "fst (unwrap_key E w p) = Inr k" if "provider_same E p p" "length r = GCM_NONCE_BYTES" "fst (wrap_key E r k p) = Inr w" for p r k w
    using that(1)
  proof (cases rule: provider_cases_same)
    case 1
    with that(2,3) show ?thesis by (simp add: provider_op local_unwraps)
  next
    case (2 a b)
    with that(2,3) show ?thesis by (simp add: provider_op aws_kms.unwrap_wrapped)
  next
    case (3 a b)
    with that(2,3) show ?thesis by (simp add: provider_op azure_kms.unwrap_wrapped)
  next
    case (4 a b)
    with that(2,3) show ?thesis by (simp add: provider_op vault_kms.unwrap_wrapped)
  qed
qed

section \<open>The cached provider keeps it too\<close>

text \<open>The provider an empty or filled cache stands for.\<close>

definition cache_same :: "kms_env \<Rightarrow> kms_provider option \<Rightarrow> kms_provider option \<Rightarrow> bool" where
  "cache_same E c d \<longleftrightarrow>
     (\<exists>p q. fst (get_kms_provider E None c) = Inr p \<and> fst (get_kms_provider E None d) = Inr q \<and> provider_same E p q)"

lemma cached_provider [simp]: "get_kms_provider E None (Some p) = (Inr p, Some p)"
  by (simp add: get_kms_provider_def)

lemma with_resolved: "fst (get_kms_provider E None c) = Inr p \<Longrightarrow> with_provider E f c = apsnd Some (f p)"
  by (cases "get_kms_provider E None c") (simp add: with_provider_def)

lemma is_local_iff [simp]: "is_local p \<longleftrightarrow> p = Local_provider"
  by (cases p) simp_all

lemma same_local: "provider_same E p q \<Longrightarrow> q = Local_provider \<longleftrightarrow> p = Local_provider"
  by (elim provider_cases_same) simp_all

definition app_unwrap :: "kms_env \<Rightarrow> string \<Rightarrow> kms_provider \<Rightarrow> kms_error + string" where
  "app_unwrap E w p =
     (case fst (unwrap_key E w p) of Inr k \<Rightarrow> Inr k | Inl e \<Rightarrow> if is_local p then open_with_previous E w e else Inl e)"

lemma dek_unwrap_resolved:
  "fst (get_kms_provider E None c) = Inr p \<Longrightarrow> dek_unwrap E w c = (app_unwrap E w p, Some (snd (unwrap_key E w p)))"
  by (auto simp: dek_unwrap_def with_resolved app_unwrap_def case_prod_beta split: sum.splits)

lemma dek_wrap_resolved: "fst (get_kms_provider E None c) = Inr p \<Longrightarrow> dek_wrap E r k c = apsnd Some (wrap_key E r k p)"
  by (simp add: dek_wrap_def with_resolved)

lemma app_unwrap_alike: "provider_same E p q \<Longrightarrow> app_unwrap E w q = app_unwrap E w p"
  using kms.unwrap_alike [of E p q w] same_local [of E p q] by (simp add: app_unwrap_def split: sum.split)

interpretation dek_kms: key_service "dek_wrap E" "dek_unwrap E" "cache_same E" for E
proof unfold_locales
  fix c d r k w
  show "fst (dek_unwrap E w c) = Inr k" if "cache_same E c c" "length r = GCM_NONCE_BYTES" "fst (dek_wrap E r k c) = Inr w"
    using that kms.unwrap_wrapped [of E _ r k w] by (auto simp: cache_same_def dek_wrap_resolved dek_unwrap_resolved app_unwrap_def)
  assume "cache_same E c d"
  then obtain p q where pq: "fst (get_kms_provider E None c) = Inr p" "fst (get_kms_provider E None d) = Inr q" "provider_same E p q"
    by (auto simp: cache_same_def)
  show "cache_same E c (snd (dek_wrap E r k d))" using pq kms.same_wrap [OF pq(3)] by (simp add: cache_same_def dek_wrap_resolved)
  show "cache_same E c (snd (dek_unwrap E w d))" using pq kms.same_unwrap [OF pq(3)] by (simp add: cache_same_def dek_unwrap_resolved)
  show "fst (dek_wrap E r k d) = fst (dek_wrap E r k c)" using pq kms.wrap_alike [OF pq(3)] by (simp add: dek_wrap_resolved)
  show "fst (dek_unwrap E w d) = fst (dek_unwrap E w c)" using pq app_unwrap_alike [OF pq(3)] by (simp add: dek_unwrap_resolved)
qed

lemma fresh_same:
  assumes "kms_env_ok E" "new_provider E name = Some (Inr p)"
  shows "provider_same E p p"
  using assms
  by (auto simp: new_provider_def aws_init_def azure_init_def vault_init_def Let_def aws_same_def azure_same_def vault_same_def slot_current_def sum_bind_def
    split: if_splits sum.splits)

lemma start_same:
  assumes "kms_env_ok E" "fst (get_kms_provider E None None) = Inr p"
  shows "cache_same E None None" "provider_same E p p"
proof -
  from assms(2) obtain name where "new_provider E name = Some (Inr p)"
    by (auto simp: get_kms_provider_def Let_def split: option.splits sum.splits)
  then show "provider_same E p p" by (rule fresh_same [OF assms(1)])
  then show "cache_same E None None" using assms(2) by (auto simp: cache_same_def)
qed

text \<open>C14. A data key that was wrapped with the configured provider, whichever it is, unwraps after any further use of the service, and after a restart of
  the application that empties the cache.\<close>

theorem wrapped_keys_unwrap_later:
  assumes "kms_env_ok E" "length r = GCM_NONCE_BYTES" "dek_wrap E r k None = (Inr w, c)"
  shows "fst (dek_unwrap E w (snd (key_answers (use_key (dek_wrap E) (dek_unwrap E)) us c))) = Inr k \<and> fst (dek_unwrap E w (reset_kms_provider c)) = Inr k"
proof -
  obtain p where p: "fst (get_kms_provider E None None) = Inr p"
    using assms(3) by (cases "get_kms_provider E None None") (auto simp: dek_wrap_def with_provider_def split: sum.splits)
  show ?thesis
    using dek_kms.unwraps_later [OF start_same(1) [OF assms(1) p] assms(2,3)]
      dek_kms.unwrap_wrapped [OF start_same(1) [OF assms(1) p] assms(2)] assms(3)
    by (simp add: reset_kms_provider_def)
qed

section \<open>The plain key service of the credential code\<close>

fun answered :: "kms_error + string \<Rightarrow> string option" where
  "answered (Inl e) = None"
| "answered (Inr k) = Some k"

definition kms_view :: "kms_env \<Rightarrow> kms_provider \<Rightarrow> kms" where
  "kms_view E p =
     (if is_local p then LocalKMS else ExternalKMS (\<lambda>r k. answered (fst (wrap_key E r k p))) (\<lambda>w. answered (fst (unwrap_key E w p))))"

fun plain_use :: "kms_env \<Rightarrow> kms \<Rightarrow> key_use \<Rightarrow> string option" where
  "plain_use E m (Wrap r k) = wrap_dek (km_ciphers E) (km_keys E) m r k"
| "plain_use E m (Unwrap w) = unwrap_dek (km_ciphers E) (km_keys E) m w"

lemma answered_bind: "answered (sum_bind x f) = Option.bind (answered x) (\<lambda>a. answered (f a))"
  by (cases x) simp_all

lemma answered_url: "answered (url_b64_decode t) = b64_decode t"
  by (simp add: url_b64_decode_def split: option.split)

lemma local_is_plain: "answered (local_wrap_key E r k) = wrap_key_sync (km_ciphers E) (km_keys E) r k"
    "answered (local_unwrap_key E w) = unwrap_key_sync (km_ciphers E) (km_keys E) w"
  by (auto simp: local_wrap_key_def local_unwrap_key_def wrap_key_sync_def encrypt_credential_def unwrap_key_sync_def get_aesgcm_def url_b64_decode_def
    split: option.splits sum.splits)

lemma unwrap_is_plain: "answered (app_unwrap E w p) = unwrap_dek (km_ciphers E) (km_keys E) (kms_view E p) w"
proof (cases "p = Local_provider")
  case True
  have "answered (app_unwrap E w p) = (case local_unwrap_key E w of Inr k \<Rightarrow> Some k | Inl e \<Rightarrow> answered (open_with_previous E w e))"
    using True by (simp add: app_unwrap_def unwrap_key_def split: sum.split)
  also have "\<dots> = (case unwrap_key_sync (km_ciphers E) (km_keys E) w of Some k \<Rightarrow> Some k | None \<Rightarrow> answered (open_with_previous E w Bad_base64))"
    unfolding local_is_plain(2) [symmetric]
    by (auto simp: open_with_previous_def split: sum.split option.split)
  also have "\<dots> = unwrap_dek (km_ciphers E) (km_keys E) LocalKMS w"
    by (auto simp: unwrap_dek_def open_with_previous_def url_b64_decode_def split: option.split)
  finally show ?thesis using True by (simp add: kms_view_def)
next
  case False
  then show ?thesis by (simp add: kms_view_def unwrap_dek_def app_unwrap_def split: sum.split)
qed

lemma use_is_plain:
  assumes "fst (get_kms_provider E None c) = Inr p"
  shows "answered (fst (use_key (dek_wrap E) (dek_unwrap E) u c)) = plain_use E (kms_view E p) u"
proof (cases u)
  case (Wrap r k)
  then show ?thesis using assms by (simp add: dek_wrap_resolved kms_view_def wrap_dek_def local_is_plain wrap_key_def)
next
  case (Unwrap w)
  then show ?thesis using assms by (simp add: dek_unwrap_resolved unwrap_is_plain)
qed

text \<open>The credential code takes the key service as a plain function. The cached provider with its clients refines it: a run of any uses from an empty
  cache answers each as the plain function does.\<close>

theorem cached_provider_refines_plain_service:
  assumes "kms_env_ok E" "fst (get_kms_provider E None None) = Inr p"
  shows "map answered (fst (key_answers (use_key (dek_wrap E) (dek_unwrap E)) us None)) = map (plain_use E (kms_view E p)) us"
  using dek_kms.answers_plain [OF start_same(1) [OF assms]] use_is_plain [OF assms(2)] by simp

section \<open>The migration of the stored keys\<close>

text \<open>The rows that hold a key, and the loop over them with its counts: re-wrapped, skipped, failed. A commit succeeds.\<close>

definition keyed_users :: "app_db \<Rightarrow> (int \<times> string) list" where
  "keyed_users db = List.map_filter (\<lambda>u. map_option (\<lambda>w. (u_id u, w)) (u_encrypted_dek u)) (db_users db)"

fun rewrap_users :: "kms_env \<Rightarrow> (int \<Rightarrow> string) \<Rightarrow> (int \<times> string) list \<Rightarrow> kms_provider \<Rightarrow> kms_provider \<Rightarrow> app_db \<Rightarrow> nat \<times> nat \<times> nat
    \<Rightarrow> app_db \<times> nat \<times> nat \<times> nat" where
  "rewrap_users E rnd [] src_provider tgt_provider db counts = (db, counts)"
| "rewrap_users E rnd ((uid, w) # users) src_provider tgt_provider db (rewrapped, skipped, failed) =
     (case unwrap_key E w src_provider of
        (Inl exc, src) \<Rightarrow> rewrap_users E rnd users src tgt_provider db (rewrapped, skipped + 1, failed)
      | (Inr dek, src) \<Rightarrow>
          (case wrap_key E (rnd uid) dek tgt_provider of
             (Inl exc, tgt) \<Rightarrow> rewrap_users E rnd users src tgt db (rewrapped, skipped, failed + 1)
           | (Inr envelope, tgt) \<Rightarrow>
               rewrap_users E rnd users src tgt
                 (db\<lparr>db_users := update_where (\<lambda>u. u_id u = uid) (\<lambda>u. u\<lparr>u_encrypted_dek := Some envelope\<rparr>) (db_users db)\<rparr>)
                 (rewrapped + 1, skipped, failed)))"

text \<open>The exit code of the script; \<open>Inl\<close>: it ends with an exception.\<close>

definition migration_source :: "kms_env \<Rightarrow> string" where
  "migration_source E = py_lower (first_given [km_environ E ''SOURCE_KMS_PROVIDER'', km_environ E ''KMS_PROVIDER''] ''local'')"

definition migration_target :: "kms_env \<Rightarrow> string" where
  "migration_target E = py_lower (first_given [km_environ E ''TARGET_KMS_PROVIDER''] '''')"

definition migrate_to_kms :: "kms_env \<Rightarrow> (int \<Rightarrow> string) \<Rightarrow> app_db \<Rightarrow> (kms_error + int) \<times> app_db" where
  "migrate_to_kms E rnd db =
     (if migration_target E = '''' then (Inr 2, db)
      else if migration_source E = migration_target E then (Inr 2, db)
      else case new_provider E (migration_source E) of
             None \<Rightarrow> (Inr 2, db)
           | Some src \<Rightarrow>
               (case new_provider E (migration_target E) of
                  None \<Rightarrow> (Inr 2, db)
                | Some tgt \<Rightarrow>
                    (case src of
                       Inl e \<Rightarrow> (Inl e, db)
                     | Inr src_provider \<Rightarrow>
                         (case tgt of
                            Inl e \<Rightarrow> (Inl e, db)
                          | Inr tgt_provider \<Rightarrow>
                              (case rewrap_users E rnd (keyed_users db) src_provider tgt_provider db (0, 0, 0) of
                                 (db, rewrapped, skipped, failed) \<Rightarrow> (Inr (if failed = 0 then 0 else 1), db))))))"

text \<open>What a row becomes.\<close>

definition new_envelope :: "kms_env \<Rightarrow> (int \<Rightarrow> string) \<Rightarrow> kms_provider \<Rightarrow> kms_provider \<Rightarrow> int \<Rightarrow> string \<Rightarrow> kms_error + string" where
  "new_envelope E rnd p q uid w = sum_bind (fst (unwrap_key E w p)) (\<lambda>k. fst (wrap_key E (rnd uid) k q))"

definition migrated_row :: "kms_env \<Rightarrow> (int \<Rightarrow> string) \<Rightarrow> kms_provider \<Rightarrow> kms_provider \<Rightarrow> user_row \<Rightarrow> string option \<Rightarrow> user_row" where
  "migrated_row E rnd p q u dek =
     (case dek of
        None \<Rightarrow> u
      | Some w \<Rightarrow> (case new_envelope E rnd p q (u_id u) w of Inl e \<Rightarrow> u | Inr envelope \<Rightarrow> u\<lparr>u_encrypted_dek := Some envelope\<rparr>))"

lemma rewrap_users_rows:
  assumes "provider_same E p src" "provider_same E q tgt" "distinct (map fst us)"
  shows "db_users (fst (rewrap_users E rnd us src tgt db counts)) = map (\<lambda>u. migrated_row E rnd p q u (map_of us (u_id u))) (db_users db)"
  using assms
proof (induction us arbitrary: src tgt db counts)
  case Nil
  then show ?case by (simp add: migrated_row_def)
next
  case (Cons uw us)
  obtain uid w where uw [simp]: "uw = (uid, w)" by (cases uw)
  obtain a b f where counts [simp]: "counts = (a, b, f)" by (cases counts)
  have later: "map_of us uid = None" using Cons.prems(3) by (auto simp: map_of_eq_None_iff)
  obtain x src' where run: "unwrap_key E w src = (x, src')" by (cases "unwrap_key E w src")
  have src: "provider_same E p src'" using kms.same_unwrap [OF Cons.prems(1), of w] run by simp
  have x: "fst (unwrap_key E w p) = x" using kms.unwrap_alike [OF Cons.prems(1), of w] run by simp
  show ?case
  proof (cases x)
    case (Inl e)
    with run x Cons.IH [OF src Cons.prems(2)] Cons.prems(3) later show ?thesis by (auto simp: migrated_row_def new_envelope_def)
  next
    case (Inr k)
    obtain y tgt' where y: "wrap_key E (rnd uid) k tgt = (y, tgt')" by (cases "wrap_key E (rnd uid) k tgt")
    have tgt: "provider_same E q tgt'" using kms.same_wrap [OF Cons.prems(2), of "rnd uid" k] y by simp
    have "fst (wrap_key E (rnd uid) k q) = y" using kms.wrap_alike [OF Cons.prems(2), of "rnd uid" k] y by simp
    then show ?thesis using run Inr x y Cons.IH [OF src tgt] Cons.prems(3) later
      by (cases y) (auto simp: migrated_row_def new_envelope_def update_where_def)
  qed
qed

lemma keyed_lookup:
  assumes "distinct (map u_id us)" "u \<in> set us"
  shows "map_of (List.map_filter (\<lambda>u. map_option (\<lambda>w. (u_id u, w)) (u_encrypted_dek u)) us) (u_id u) = u_encrypted_dek u"
  using assms
proof (induction us)
  case (Cons v vs)
  have other: "map_of (List.map_filter (\<lambda>u. map_option (\<lambda>w. (u_id u, w)) (u_encrypted_dek u)) vs) i = None" if "i \<notin> u_id ` set vs" for i
    using that by (auto simp: map_of_eq_None_iff List.map_filter_def)
  show ?case
  proof (cases "u = v")
    case True
    with Cons.prems(1) show ?thesis by (cases "u_encrypted_dek v") (simp_all add: List.map_filter_simps other)
  next
    case False
    with Cons.prems have u: "u \<in> set vs" by simp
    then have "u_id u \<in> u_id ` set vs" by (rule imageI)
    with Cons.prems(1) have "u_id u \<noteq> u_id v" by (metis distinct.simps(2) list.simps(9) set_map)
    with u Cons show ?thesis by (cases "u_encrypted_dek v") (simp_all add: List.map_filter_simps)
  qed
qed simp

lemma keyed_ids: "distinct (map u_id us) \<Longrightarrow> distinct (map fst (List.map_filter (\<lambda>u. map_option (\<lambda>w. (u_id u, w)) (u_encrypted_dek u)) us))"
  by (induction us) (auto simp: List.map_filter_def split: option.splits)

lemma migrated_rows:
  assumes "kms_env_ok E" "distinct (map u_id (db_users db))" "migrate_to_kms E rnd db = (Inr code, db')" "code \<noteq> 2"
  obtains p q where "new_provider E (migration_source E) = Some (Inr p)" "new_provider E (migration_target E) = Some (Inr q)"
    "db_users db' = map (\<lambda>u. migrated_row E rnd p q u (u_encrypted_dek u)) (db_users db)"
proof -
  from assms(3,4) obtain p q counts where run: "new_provider E (migration_source E) = Some (Inr p)" "new_provider E (migration_target E) = Some (Inr q)"
      "rewrap_users E rnd (keyed_users db) p q db (0, 0, 0) = (db', counts)"
    by (auto simp: migrate_to_kms_def split: if_splits option.splits sum.splits prod.splits)
  have "db_users db' = map (\<lambda>u. migrated_row E rnd p q u (map_of (keyed_users db) (u_id u))) (db_users db)"
    using rewrap_users_rows [OF fresh_same [OF assms(1) run(1)] fresh_same [OF assms(1) run(2)], of "keyed_users db" rnd db "(0, 0, 0)"]
      run(3) keyed_ids [OF assms(2)] by (simp add: keyed_users_def)
  also have "\<dots> = map (\<lambda>u. migrated_row E rnd p q u (u_encrypted_dek u)) (db_users db)"
    using keyed_lookup [OF assms(2)] by (simp add: keyed_users_def)
  finally show ?thesis using that run by blast
qed

text \<open>A migration that ends with exit code 0 or 1 keeps every row but its wrapped key. A key the source opens becomes one that the target opens to the
  same bytes, unless the target fails to wrap it; a key the source does not open stays as it is.\<close>

theorem migration_rewraps_readable_keys:
  assumes "kms_env_ok E" "\<forall>i. length (rnd i) = GCM_NONCE_BYTES" "distinct (map u_id (db_users db))"
    and "migrate_to_kms E rnd db = (Inr code, db')" "code \<noteq> 2" "i < length (db_users db)" "u_encrypted_dek (db_users db ! i) = Some w"
  shows "\<exists>p q w'. new_provider E (migration_source E) = Some (Inr p) \<and> new_provider E (migration_target E) = Some (Inr q) \<and>
      db_users db' ! i = (db_users db ! i)\<lparr>u_encrypted_dek := Some w'\<rparr> \<and>
      (case fst (unwrap_key E w p) of
         Inl e \<Rightarrow> w' = w
       | Inr k \<Rightarrow> fst (unwrap_key E w' q) = Inr k \<or> (w' = w \<and> (\<exists>e. fst (wrap_key E (rnd (u_id (db_users db ! i))) k q) = Inl e)))"
proof -
  obtain p q where run: "new_provider E (migration_source E) = Some (Inr p)" "new_provider E (migration_target E) = Some (Inr q)"
    and rows: "db_users db' = map (\<lambda>u. migrated_row E rnd p q u (u_encrypted_dek u)) (db_users db)"
    using migrated_rows [OF assms(1,3,4,5)] by blast
  let ?u = "db_users db ! i"
  have row: "db_users db' ! i = migrated_row E rnd p q ?u (Some w)" using rows assms(6,7) by simp
  have same: "?u = ?u\<lparr>u_encrypted_dek := Some w\<rparr>" using assms(7) by simp
  show ?thesis
  proof (cases "fst (unwrap_key E w p)")
    case (Inl e)
    with row same have "db_users db' ! i = ?u\<lparr>u_encrypted_dek := Some w\<rparr>" by (simp add: migrated_row_def new_envelope_def)
    with Inl run show ?thesis by auto
  next
    case k: (Inr k)
    show ?thesis
    proof (cases "fst (wrap_key E (rnd (u_id ?u)) k q)")
      case (Inl e)
      with k row same have "db_users db' ! i = ?u\<lparr>u_encrypted_dek := Some w\<rparr>" by (simp add: migrated_row_def new_envelope_def)
      with Inl k run show ?thesis by auto
    next
      case (Inr w')
      then have "fst (unwrap_key E w' q) = Inr k" using kms.unwrap_wrapped [OF fresh_same [OF assms(1) run(2)]] assms(2) by blast
      moreover have "db_users db' ! i = ?u\<lparr>u_encrypted_dek := Some w'\<rparr>" using row Inr k by (simp add: migrated_row_def new_envelope_def)
      ultimately show ?thesis using run k by auto
    qed
  qed
qed

section \<open>Keys under the previous master key\<close>

lemma local_rejects_old:
  assumes "rejects_other_keys (km_ciphers E)" "get_encryption_key (km_keys E) = Inr key" "aes_key old" "old \<noteq> key" "length n = GCM_NONCE_BYTES"
  shows "local_unwrap_key E (seal (km_ciphers E) old n k) = Inl Invalid_tag"
  using assms key_is_32 [OF assms(2)]
  by (simp add: local_unwrap_key_def get_aesgcm_def seal_decode url_b64_decode_def open_raw_def rejects_other_keys_def)

lemma app_opens_old:
  assumes "aead_ok (km_ciphers E)" "rejects_other_keys (km_ciphers E)" "get_encryption_key (km_keys E) = Inr key" "aes_key old" "old \<noteq> key"
    and "length n = GCM_NONCE_BYTES" "encryption_key_previous (km_keys E) = Some prev" "b64_decode prev = Some old" "prev \<noteq> ''''"
  shows "fst (dek_unwrap E (seal (km_ciphers E) old n k) (Some Local_provider)) = Inr k"
  using local_rejects_old [OF assms(2-6), of k] assms
  by (simp add: dek_unwrap_resolved app_unwrap_def unwrap_key_def open_with_previous_def url_b64_decode_def seal_decode open_raw_seal)

lemma rewrap_skips_all:
  "\<forall>(uid, w) \<in> set us. \<exists>e. local_unwrap_key E w = Inl e \<Longrightarrow>
   rewrap_users E rnd us Local_provider q db (a, b, f) = (db, a, b + length us, f)"
  by (induction us arbitrary: b) (auto simp: unwrap_key_def)

text \<open>C15. After a rotation of the master key the application still opens the keys wrapped before it. The migration from the local provider does not: it skips
  them, changes nothing and exits with 0, the code of a clean migration.\<close>

theorem migration_skips_rotated_keys:
  assumes "aead_ok (km_ciphers E)" "rejects_other_keys (km_ciphers E)" "get_encryption_key (km_keys E) = Inr key" "aes_key old" "old \<noteq> key"
    and "encryption_key_previous (km_keys E) = Some prev" "b64_decode prev = Some old" "prev \<noteq> ''''"
    and "migration_source E = ''local''" "migration_target E \<notin> {''local'', ''''}" "new_provider E (migration_target E) = Some (Inr q)"
    and "\<forall>(uid, w) \<in> set (keyed_users db). \<exists>n k. length n = GCM_NONCE_BYTES \<and> w = seal (km_ciphers E) old n k"
  shows "migrate_to_kms E rnd db = (Inr 0, db) \<and>
    (\<forall>(uid, w) \<in> set (keyed_users db). \<exists>k. fst (dek_unwrap E w (Some Local_provider)) = Inr k)"
proof
  have "\<forall>(uid, w) \<in> set (keyed_users db). \<exists>e. local_unwrap_key E w = Inl e"
    using assms(12) local_rejects_old [OF assms(2-5)] by fastforce
  moreover have "new_provider E ''local'' = Some (Inr Local_provider)" by (simp add: new_provider_def)
  moreover have "''local'' \<noteq> migration_target E" "migration_target E \<noteq> ''''" using assms(10) by auto
  ultimately show "migrate_to_kms E rnd db = (Inr 0, db)"
    using assms(9,11) by (simp add: migrate_to_kms_def rewrap_skips_all)
  show "\<forall>(uid, w) \<in> set (keyed_users db). \<exists>k. fst (dek_unwrap E w (Some Local_provider)) = Inr k"
    using assms(12) app_opens_old [OF assms(1-5) _ assms(6-8)] by fast
qed

text \<open>The key name of the settings is read for AWS only, and the health of Azure does not wrap anything.\<close>

lemma key_setting_is_for_aws: "name \<noteq> ''aws'' \<Longrightarrow> new_provider (E\<lparr>km_settings := st\<rparr>) name = new_provider E name"
  by (simp add: new_provider_def azure_init_def vault_init_def env_get_def)

lemma azure_health_ignores_wrapping:
  "azure_build E (zp_vault_url p) (zp_key_name p) = Inr c \<Longrightarrow> zp_client p = None \<Longrightarrow>
   map_of (fst (azure_health_check E p)) ''status'' = Some ''healthy''"
  by (simp add: azure_health_check_def azure_get_client_def cached_client_def)

section \<open>Examples\<close>

definition master :: string where "master = replicate 32 (CHR ''k'')"
definition old_master :: string where "old_master = replicate 32 (CHR ''o'')"
definition kms_nonce :: string where "kms_nonce = replicate 12 (CHR ''n'')"

definition sample_vault :: vault_client where
  "sample_vault = \<lparr>hv_encrypt_data = (\<lambda>r key k. Inr (''vault:v1:'' @ k)), hv_decrypt_data = (\<lambda>key w. Inr (drop 9 w)),
     hv_generate = (\<lambda>r key. Inr (std_b64_encode r, ''vault:v1:'' @ std_b64_encode r)), hv_rotate = (\<lambda>key. None), hv_is_authenticated = Inr True\<rparr>"

definition sample_kms :: "string \<Rightarrow> kms_env" where
  "sample_kms provider = \<lparr>km_ciphers = sample_ciphers,
     km_keys = \<lparr>encryption_key = b64_encode master, encryption_key_previous = Some (b64_encode old_master), encryption_key_version = 2\<rparr>,
     km_settings = Inr \<lparr>set_kms_provider = provider, set_kms_key_id = None, set_kms_region = None\<rparr>,
     km_environ = map_of [(''KMS_VAULT_TOKEN'', ''t''), (''TARGET_KMS_PROVIDER'', ''vault'')],
     km_boto3 = None, km_azure = None, km_hvac = Some (\<lambda>addr token. Inr sample_vault), km_text = (\<lambda>e. ''error'')\<rparr>"

definition vault_start :: vault_provider where
  "vault_start = \<lparr>vp_addr = ''http://127.0.0.1:8200'', vp_token = ''t'', vp_key_name = ''plaidify-master'', vp_client = None\<rparr>"

definition keyed_db :: "string \<Rightarrow> app_db" where
  "keyed_db w = empty_db\<lparr>db_users := [\<lparr>u_id = 1, u_username = Some ''ann'', u_email = None, u_hashed_password = None, u_oauth_provider = None,
     u_oauth_sub = None, u_is_active = True, u_is_admin = False, u_encrypted_dek = Some w, u_failed_login_count = 0, u_locked_until = None\<rparr>]\<rparr>"

lemma sample_kms_ok: "kms_env_ok (sample_kms provider)"
  using sample_ciphers_ok
  by (simp add: kms_env_ok_def sample_kms_def aws_build_def azure_build_def vault_build_def vault_ok_def sample_vault_def)

lemma sample_parts [simp]: "km_ciphers (sample_kms provider) = sample_ciphers" "get_encryption_key (km_keys (sample_kms provider)) = Inr master"
    "encryption_key_previous (km_keys (sample_kms provider)) = Some (b64_encode old_master)" "length kms_nonce = GCM_NONCE_BYTES"
    "aes_key master" "aes_key old_master" "old_master \<noteq> master"
  by (simp_all add: sample_kms_def get_encryption_key_def master_def old_master_def kms_nonce_def GCM_NONCE_BYTES_def aes_key_def)

lemma old_key_given: "b64_encode old_master \<noteq> ''''"
  using length_b64_encode [of old_master] by (auto simp: old_master_def)

lemma sample_names [simp]: "migration_source (sample_kms provider) = ''local''" "migration_target (sample_kms provider) = ''vault''"
  by code_simp+

lemma sample_providers [simp]: "new_provider (sample_kms provider) ''vault'' = Some (Inr (Vault_provider vault_start))"
    "new_provider (sample_kms provider) ''local'' = Some (Inr Local_provider)"
    "vault_build (sample_kms provider) addr token = Inr sample_vault"
  by (simp_all add: new_provider_def vault_init_def vault_build_def env_get_def sample_kms_def vault_start_def)

lemma sample_start [simp]: "get_kms_provider (sample_kms ''vault'') None None = (Inr (Vault_provider vault_start), Some (Vault_provider vault_start))"
proof -
  have "py_lower ''vault'' = ''vault''" by code_simp
  moreover have "km_settings (sample_kms ''vault'') = Inr \<lparr>set_kms_provider = ''vault'', set_kms_key_id = None, set_kms_region = None\<rparr>"
    by (simp add: sample_kms_def)
  ultimately show ?thesis by (simp add: get_kms_provider_def)
qed

lemma vault_wraps: "vault_wrap_key (sample_kms provider) r k vault_start =
    (Inr (''vault:v1:'' @ std_b64_encode k), vault_start\<lparr>vp_client := Some sample_vault\<rparr>)"
  by (simp add: vault_wrap_key_def vault_get_client_def on_client_def cached_client_def vault_start_def)
    (simp add: sample_vault_def)

lemma sample_wrap: "dek_wrap (sample_kms ''vault'') r k None =
    (Inr (''vault:v1:'' @ std_b64_encode k), Some (Vault_provider (vault_start\<lparr>vp_client := Some sample_vault\<rparr>)))"
  using dek_wrap_resolved [of "sample_kms ''vault''" None "Vault_provider vault_start"] by (simp add: wrap_key_def vault_wraps)

theorem wrapped_keys_unwrap_later_witness:
  "\<exists>w c. dek_wrap (sample_kms ''vault'') kms_nonce ''dek'' None = (Inr w, c) \<and>
    fst (dek_unwrap (sample_kms ''vault'') w
      (snd (key_answers (use_key (dek_wrap (sample_kms ''vault'')) (dek_unwrap (sample_kms ''vault''))) [Wrap kms_nonce ''other'', Unwrap ''x''] c))) = Inr ''dek'' \<and>
    fst (dek_unwrap (sample_kms ''vault'') w (reset_kms_provider c)) = Inr ''dek''"
  using wrapped_keys_unwrap_later [OF sample_kms_ok _ sample_wrap, of kms_nonce] sample_wrap by fastforce

theorem cached_provider_refines_plain_service_witness:
  "map answered (fst (key_answers (use_key (dek_wrap (sample_kms ''vault'')) (dek_unwrap (sample_kms ''vault''))) [Wrap kms_nonce ''k'', Unwrap ''x''] None)) =
   map (plain_use (sample_kms ''vault'') (kms_view (sample_kms ''vault'') (Vault_provider vault_start))) [Wrap kms_nonce ''k'', Unwrap ''x'']"
  by (rule cached_provider_refines_plain_service [OF sample_kms_ok]) simp

lemma sample_keyed: "keyed_users (keyed_db w) = [(1, w)]" "distinct (map u_id (db_users (keyed_db w)))" "length (db_users (keyed_db w)) = 1"
    "u_encrypted_dek (db_users (keyed_db w) ! 0) = Some w"
  by (simp_all add: keyed_users_def keyed_db_def List.map_filter_simps)

theorem migration_skips_rotated_keys_witness:
  "migrate_to_kms (sample_kms ''local'') (\<lambda>_. kms_nonce) (keyed_db (seal sample_ciphers old_master kms_nonce ''dek'')) =
     (Inr 0, keyed_db (seal sample_ciphers old_master kms_nonce ''dek'')) \<and>
   (\<exists>k. fst (dek_unwrap (sample_kms ''local'') (seal sample_ciphers old_master kms_nonce ''dek'') (Some Local_provider)) = Inr k)"
proof -
  let ?E = "sample_kms ''local''" and ?db = "keyed_db (seal sample_ciphers old_master kms_nonce ''dek'')"
  have a: "aead_ok (km_ciphers ?E)" "rejects_other_keys (km_ciphers ?E)" using sample_ciphers_ok by simp_all
  have k: "\<forall>(uid, w) \<in> set (keyed_users ?db). \<exists>n k. length n = GCM_NONCE_BYTES \<and> w = seal (km_ciphers ?E) old_master n k"
    using sample_parts(4) unfolding sample_keyed by fastforce
  have "migration_source ?E = ''local''" "migration_target ?E \<notin> {''local'', ''''}"
    "new_provider ?E (migration_target ?E) = Some (Inr (Vault_provider vault_start))" by simp_all
  from migration_skips_rotated_keys [OF a sample_parts(2) sample_parts(6,7,3) b64_roundtrip old_key_given this k, of "\<lambda>_. kms_nonce"]
  show ?thesis unfolding sample_keyed by auto
qed

theorem migration_rewraps_readable_keys_witness:
  "\<exists>w db'. local_wrap_key (sample_kms ''local'') kms_nonce ''dek'' = Inr w \<and>
    migrate_to_kms (sample_kms ''local'') (\<lambda>_. kms_nonce) (keyed_db w) = (Inr 0, db') \<and>
    (\<exists>w'. u_encrypted_dek (db_users db' ! 0) = Some w' \<and> fst (unwrap_key (sample_kms ''local'') w' (Vault_provider vault_start)) = Inr ''dek'')"
proof -
  let ?E = "sample_kms ''local''"
  obtain w where w: "local_wrap_key ?E kms_nonce ''dek'' = Inr w" by (simp add: local_wrap_key_def get_aesgcm_def)
  have un: "fst (unwrap_key ?E w Local_provider) = Inr ''dek''" using local_unwraps [OF sample_kms_ok _ w] by (simp add: unwrap_key_def)
  have wrapped: "fst (wrap_key ?E kms_nonce ''dek'' (Vault_provider vault_start)) = Inr (''vault:v1:'' @ std_b64_encode ''dek'')"
    by (simp add: wrap_key_def vault_wraps)
  obtain db' where run: "migrate_to_kms ?E (\<lambda>_. kms_nonce) (keyed_db w) = (Inr 0, db')"
    using un wrapped by (cases "unwrap_key ?E w Local_provider"; cases "wrap_key ?E kms_nonce ''dek'' (Vault_provider vault_start)")
      (simp add: migrate_to_kms_def sample_keyed)
  have "\<forall>i. length ((\<lambda>_. kms_nonce) i) = GCM_NONCE_BYTES" by simp
  from migration_rewraps_readable_keys [OF sample_kms_ok this sample_keyed(2) run _ _ sample_keyed(4)] un wrapped
  show ?thesis using w run by (force simp: sample_keyed)
qed

end
